(* ===== verification/GoBase.thy ===== *)
theory GoBase
  imports Main "HOL-Library.Char_ord" "HOL-Library.List_Lexorder" "HOL-Library.Signed_Division"
begin

text \<open>
  The prelude of the development: what the components share of Go and of the SQL the Go code
  embeds. Go times are nanoseconds since the epoch (\<open>go_time\<close>), durations are nanoseconds, and the
  database columns hold milliseconds (\<open>unix_ms\<close>, \<open>from_ms\<close>). A Go string is a list of bytes, that is
  an Isabelle \<open>string\<close>. A table is the list of its rows; an SQL statement is one of
  \<open>sql_update\<close>, \<open>sql_delete\<close>, \<open>filter\<close>, \<open>sort_key\<close>, and its \<open>RowsAffected\<close> is \<open>sql_count\<close>. A Go call
  that returns an error is a sum, \<open>Inl\<close> of the error or \<open>Inr\<close> of the value; \<open>try_ok\<close> is the
  \<open>if err != nil { return err }\<close> that follows every call.
\<close>

named_theorems sql_simps \<open>rewriting of SQL statements over lists of rows\<close>
named_theorems time_simps \<open>conversions between times, milliseconds and durations\<close>

section \<open>Times\<close>

type_synonym go_time = int
type_synonym duration = int

definition unix_ms :: "go_time \<Rightarrow> int" where
  "unix_ms t = t div 1000000"

definition from_ms :: "int \<Rightarrow> go_time" where
  "from_ms v = v * 1000000"

definition dur_ms :: "duration \<Rightarrow> int" where
  "dur_ms d = d sdiv 1000000"

definition ms_dur :: "int \<Rightarrow> duration" where
  "ms_dur v = v * 1000000"

definition trunc_ms :: "go_time \<Rightarrow> go_time" where
  "trunc_ms t = from_ms (unix_ms t)"

abbreviation (input) second :: duration where "second \<equiv> 1000000000"
abbreviation (input) minute :: duration where "minute \<equiv> 60000000000"
abbreviation (input) hour :: duration where "hour \<equiv> 3600000000000"

lemma unix_ms_from_ms [simp, time_simps]: "unix_ms (from_ms v) = v"
  by (simp add: unix_ms_def from_ms_def)

lemma from_ms_unix_ms_le: "from_ms (unix_ms t) \<le> t"
proof -
  have "t = 1000000 * (t div 1000000) + t mod 1000000" by simp
  moreover have "0 \<le> t mod 1000000" by simp
  ultimately show ?thesis by (simp add: unix_ms_def from_ms_def)
qed

lemma unix_ms_mono: "s \<le> t \<Longrightarrow> unix_ms s \<le> unix_ms t"
  by (simp add: unix_ms_def zdiv_mono1)

lemma unix_ms_add_from_ms [time_simps]: "unix_ms (t + from_ms v) = unix_ms t + v"
  by (simp add: unix_ms_def from_ms_def)

lemma unix_ms_add_nonneg: "0 \<le> d \<Longrightarrow> unix_ms t \<le> unix_ms (t + d)"
  by (simp add: unix_ms_mono)

lemma unix_ms_trunc [simp, time_simps]: "unix_ms (trunc_ms t) = unix_ms t"
  by (simp add: trunc_ms_def)

lemma trunc_trunc [simp, time_simps]: "trunc_ms (trunc_ms t) = trunc_ms t"
  by (simp add: trunc_ms_def)

lemma trunc_from_ms [simp, time_simps]: "trunc_ms (from_ms v) = from_ms v"
  by (simp add: trunc_ms_def)

lemma from_ms_le_iff [simp, time_simps]: "from_ms a \<le> from_ms b \<longleftrightarrow> a \<le> b"
  by (simp add: from_ms_def)

lemma from_ms_less_iff [simp, time_simps]: "from_ms a < from_ms b \<longleftrightarrow> a < b"
  by (simp add: from_ms_def)

lemma from_ms_le_unix_ms: "from_ms v \<le> t \<longleftrightarrow> v \<le> unix_ms t"
proof
  assume "from_ms v \<le> t"
  then have "unix_ms (from_ms v) \<le> unix_ms t" by (rule unix_ms_mono)
  then show "v \<le> unix_ms t" by simp
next
  assume "v \<le> unix_ms t"
  then have "from_ms v \<le> from_ms (unix_ms t)" by simp
  also have "\<dots> \<le> t" by (rule from_ms_unix_ms_le)
  finally show "from_ms v \<le> t" .
qed

lemma dur_ms_nonneg: "0 \<le> d \<Longrightarrow> dur_ms d = d div 1000000"
  by (cases "d = 0") (simp_all add: dur_ms_def signed_divide_int_def)

lemma dur_ms_ms_dur [simp, time_simps]: "dur_ms (ms_dur v) = v"
proof -
  have "sgn (v * 1000000) * (\<bar>v * 1000000\<bar> div 1000000) = sgn v * \<bar>v\<bar>"
    by (simp add: abs_mult sgn_mult)
  then show ?thesis by (simp add: dur_ms_def ms_dur_def signed_divide_int_def sgn_mult_abs)
qed

section \<open>SQL statements over lists of rows\<close>

definition sql_update :: "('r \<Rightarrow> bool) \<Rightarrow> ('r \<Rightarrow> 'r) \<Rightarrow> 'r list \<Rightarrow> 'r list" where
  "sql_update P f rows = map (\<lambda>r. if P r then f r else r) rows"

definition sql_delete :: "('r \<Rightarrow> bool) \<Rightarrow> 'r list \<Rightarrow> 'r list" where
  "sql_delete P rows = filter (\<lambda>r. \<not> P r) rows"

definition sql_count :: "('r \<Rightarrow> bool) \<Rightarrow> 'r list \<Rightarrow> nat" where
  "sql_count P rows = length (filter P rows)"

definition sql_first :: "('r \<Rightarrow> bool) \<Rightarrow> 'r list \<Rightarrow> 'r option" where
  "sql_first P rows = List.find P rows"

lemma sql_update_Nil [simp, sql_simps]: "sql_update P f [] = []"
  by (simp add: sql_update_def)

lemma sql_update_Cons [simp, sql_simps]:
  "sql_update P f (r # rs) = (if P r then f r else r) # sql_update P f rs"
  by (simp add: sql_update_def)

lemma sql_update_append [simp, sql_simps]:
  "sql_update P f (rs @ ss) = sql_update P f rs @ sql_update P f ss"
  by (simp add: sql_update_def)

lemma length_sql_update [simp, sql_simps]: "length (sql_update P f rs) = length rs"
  by (simp add: sql_update_def)

lemma set_sql_update [sql_simps]:
  "set (sql_update P f rs) = {if P r then f r else r | r. r \<in> set rs}"
  by (auto simp: sql_update_def)

lemma in_sql_updateE:
  assumes "r' \<in> set (sql_update P f rs)"
  obtains r where "r \<in> set rs" "P r" "r' = f r" | "r' \<in> set rs" "\<not> P r'"
  using assms by (auto simp: sql_update_def split: if_splits)

lemma sql_update_none: "sql_count P rs = 0 \<Longrightarrow> sql_update P f rs = rs"
  by (induction rs) (auto simp: sql_count_def)

lemma sql_update_cong:
  "(\<And>r. r \<in> set rs \<Longrightarrow> P r = Q r) \<Longrightarrow> sql_update P f rs = sql_update Q f rs"
  by (auto simp: sql_update_def)

lemma map_key_sql_update [sql_simps]:
  assumes "\<And>r. P r \<Longrightarrow> key (f r) = key r"
  shows "map key (sql_update P f rs) = map key rs"
  using assms by (induction rs) auto

lemma sql_count_0_iff [sql_simps]: "sql_count P rs = 0 \<longleftrightarrow> (\<forall>r \<in> set rs. \<not> P r)"
  by (simp add: sql_count_def filter_empty_conv)

lemma sql_count_pos_iff [sql_simps]: "0 < sql_count P rs \<longleftrightarrow> (\<exists>r \<in> set rs. P r)"
proof -
  have "0 < sql_count P rs \<longleftrightarrow> sql_count P rs \<noteq> 0" by simp
  also have "\<dots> \<longleftrightarrow> (\<exists>r \<in> set rs. P r)" by (simp only: sql_count_0_iff) blast
  finally show ?thesis .
qed

lemma sql_count_append [simp, sql_simps]: "sql_count P (rs @ ss) = sql_count P rs + sql_count P ss"
  by (simp add: sql_count_def)

lemma sql_count_Nil [simp, sql_simps]: "sql_count P [] = 0"
  by (simp add: sql_count_def)

lemma sql_count_Cons [simp, sql_simps]:
  "sql_count P (r # rs) = (if P r then Suc (sql_count P rs) else sql_count P rs)"
  by (simp add: sql_count_def)

lemma sql_count_mono: "(\<And>r. P r \<Longrightarrow> Q r) \<Longrightarrow> sql_count P rs \<le> sql_count Q rs"
  by (induction rs) (auto intro: le_SucI)

text \<open>A primary key: at most one row of the table satisfies a condition that fixes the key.\<close>

lemma sql_count_key_le1:
  assumes "distinct (map key rs)" and "\<And>r. P r \<Longrightarrow> key r = k"
  shows "sql_count P rs \<le> 1"
  using assms
proof (induction rs)
  case Nil
  then show ?case by simp
next
  case (Cons r rs)
  show ?case
  proof (cases "P r")
    case True
    with Cons.prems have "\<forall>s \<in> set rs. \<not> P s" by force
    then have "sql_count P rs = 0" by (simp only: sql_count_0_iff)
    with True show ?thesis by simp
  next
    case False
    with Cons show ?thesis by simp
  qed
qed

lemma key_row_unique:
  assumes "distinct (map key rs)" "r \<in> set rs" "s \<in> set rs" "key r = key s"
  shows "r = s"
  using assms by (auto simp: distinct_map dest: inj_onD)

lemma sql_first_None [sql_simps]: "sql_first P rs = None \<longleftrightarrow> (\<forall>r \<in> set rs. \<not> P r)"
  by (auto simp: sql_first_def find_None_iff)

lemma sql_first_Some: "sql_first P rs = Some r \<Longrightarrow> r \<in> set rs \<and> P r"
  by (auto simp: sql_first_def find_Some_iff)

lemma sql_first_key:
  assumes "distinct (map key rs)" "r \<in> set rs" "key r = k"
  shows "sql_first (\<lambda>r. key r = k) rs = Some r"
proof -
  obtain s where s: "sql_first (\<lambda>r. key r = k) rs = Some s"
    using assms(2,3) by (cases "sql_first (\<lambda>r. key r = k) rs") (auto simp: sql_first_None)
  then have "s \<in> set rs" "key s = k" by (auto dest: sql_first_Some)
  with assms key_row_unique have "s = r" by metis
  with s show ?thesis by simp
qed

lemma distinct_map_filter: "distinct (map key rs) \<Longrightarrow> distinct (map key (filter P rs))"
  by (induction rs) auto

lemma distinct_sql_delete: "distinct (map key rs) \<Longrightarrow> distinct (map key (sql_delete P rs))"
  by (simp add: sql_delete_def distinct_map_filter)

lemma set_sql_delete [simp, sql_simps]: "set (sql_delete P rs) = {r \<in> set rs. \<not> P r}"
  by (auto simp: sql_delete_def)

section \<open>Error returns\<close>

definition try_ok :: "'e + 'a \<Rightarrow> ('a \<Rightarrow> 'e + 'b) \<Rightarrow> 'e + 'b" where
  "try_ok m k = (case m of Inl e \<Rightarrow> Inl e | Inr a \<Rightarrow> k a)"

lemma try_ok_Inl [simp]: "try_ok (Inl e) k = Inl e"
  by (simp add: try_ok_def)

lemma try_ok_Inr [simp]: "try_ok (Inr a) k = k a"
  by (simp add: try_ok_def)

lemma try_ok_eq_Inr [simp]: "try_ok m k = Inr b \<longleftrightarrow> (\<exists>a. m = Inr a \<and> k a = Inr b)"
  by (cases m) auto

lemma try_ok_eq_Inl: "try_ok m k = Inl e \<longleftrightarrow> m = Inl e \<or> (\<exists>a. m = Inr a \<and> k a = Inl e)"
  by (cases m) auto

lemma try_ok_split: "P (try_ok m k) \<longleftrightarrow> (\<forall>e. m = Inl e \<longrightarrow> P (Inl e)) \<and> (\<forall>a. m = Inr a \<longrightarrow> P (k a))"
  by (cases m) auto

section \<open>Strings\<close>

text \<open>
  Case mapping is exact on ASCII bytes, which is what symbols, sides, provider names and sender ids
  are made of; bytes of other characters are left as they are. Go's \<open>strings.TrimSpace\<close> and
  \<open>strings.Fields\<close> also know the white space outside ASCII; \<open>is_space\<close> here is their ASCII part (the
  full Unicode treatment, over decoded runes, is in the theory of the intent texts).
\<close>

definition is_space :: "char \<Rightarrow> bool" where
  "is_space c \<longleftrightarrow> c \<in> {CHR 0x09, CHR 0x0A, CHR 0x0B, CHR 0x0C, CHR 0x0D, CHR '' ''}"

definition lower_char :: "char \<Rightarrow> char" where
  "lower_char c = (let n = (of_char c :: nat) in if 65 \<le> n \<and> n \<le> 90 then char_of (n + 32) else c)"

definition upper_char :: "char \<Rightarrow> char" where
  "upper_char c = (let n = (of_char c :: nat) in if 97 \<le> n \<and> n \<le> 122 then char_of (n - 32) else c)"

definition to_lower :: "string \<Rightarrow> string" where
  "to_lower s = map lower_char s"

definition to_upper :: "string \<Rightarrow> string" where
  "to_upper s = map upper_char s"

definition trim_space :: "string \<Rightarrow> string" where
  "trim_space s = rev (dropWhile is_space (rev (dropWhile is_space s)))"

definition equal_fold :: "string \<Rightarrow> string \<Rightarrow> bool" where
  "equal_fold a b \<longleftrightarrow> to_lower a = to_lower b"

definition has_prefix :: "string \<Rightarrow> string \<Rightarrow> bool" where
  "has_prefix s p \<longleftrightarrow> take (length p) s = p"

lemma equal_fold_refl [simp]: "equal_fold s s"
  by (simp add: equal_fold_def)

lemma equal_fold_sym: "equal_fold a b \<Longrightarrow> equal_fold b a"
  by (simp add: equal_fold_def)

lemma equal_fold_trans: "equal_fold a b \<Longrightarrow> equal_fold b c \<Longrightarrow> equal_fold a c"
  by (simp add: equal_fold_def)

lemma equal_fold_Nil [simp]: "equal_fold [] b \<longleftrightarrow> b = []" "equal_fold a [] \<longleftrightarrow> a = []"
  by (auto simp: equal_fold_def to_lower_def)

lemma has_prefix_append [simp]: "has_prefix (p @ s) p"
  by (simp add: has_prefix_def)

lemma has_prefix_iff: "has_prefix s p \<longleftrightarrow> (\<exists>t. s = p @ t)"
  by (metis append_take_drop_id has_prefix_append has_prefix_def)

end
