(* ===== verification/Windows.thy ===== *)
theory Windows
  imports GoBase
begin

text \<open>
  The rolling rate limit that three components implement each in its own way: the order brake of the
  policy engine, the wake budget of the cognition scheduler and the sender limiter of the control
  path. Each keeps the time stamps of what it admitted, trims those that have left the window,
  refuses when \<open>limit\<close> are left and records the newcomer otherwise. The locale \<open>sliding_window\<close> is
  the contract of the trim and of the record; \<open>window_safe\<close> is what every client wants from it: at
  no moment of any run do more than \<open>limit\<close> admitted entries lie inside the window.
\<close>

section \<open>A run of requests against a limiter\<close>

text \<open>
  The state is the list the code keeps and, as a ghost, the log of everything it ever admitted. A
  request is an entry with its own time stamp.
\<close>

fun admit_one ::
  "('e \<Rightarrow> int) \<Rightarrow> (int \<Rightarrow> 'e list \<Rightarrow> 'e list) \<Rightarrow> ('e \<Rightarrow> 'e list \<Rightarrow> 'e list) \<Rightarrow> nat
   \<Rightarrow> 'e \<Rightarrow> 'e list \<times> 'e list \<Rightarrow> 'e list \<times> 'e list" where
  "admit_one stamp trim push limit e (kept, log) =
     (let es = trim (stamp e) kept
      in if length es < limit then (push e es, log @ [e]) else (es, log))"

fun admit_run ::
  "('e \<Rightarrow> int) \<Rightarrow> (int \<Rightarrow> 'e list \<Rightarrow> 'e list) \<Rightarrow> ('e \<Rightarrow> 'e list \<Rightarrow> 'e list) \<Rightarrow> nat
   \<Rightarrow> 'e list \<Rightarrow> 'e list \<times> 'e list \<Rightarrow> 'e list \<times> 'e list" where
  "admit_run stamp trim push limit [] st = st"
| "admit_run stamp trim push limit (e # es) st =
     admit_run stamp trim push limit es (admit_one stamp trim push limit e st)"

lemma admit_run_append:
  "admit_run stamp trim push limit (es @ fs) st =
   admit_run stamp trim push limit fs (admit_run stamp trim push limit es st)"
  by (induction es arbitrary: st) simp_all

section \<open>The contract\<close>

locale sliding_window =
  fixes stamp :: "'e \<Rightarrow> int"
    and fresh :: "int \<Rightarrow> 'e \<Rightarrow> bool"
    and trim :: "int \<Rightarrow> 'e list \<Rightarrow> 'e list"
    and push :: "'e \<Rightarrow> 'e list \<Rightarrow> 'e list"
    and limit :: nat
  assumes trim_fresh: "sorted (map stamp es) \<Longrightarrow> trim now es = filter (fresh now) es"
    and fresh_earlier: "fresh t' e \<Longrightarrow> t \<le> t' \<Longrightarrow> fresh t e"
    and push_snoc: "length es < limit \<Longrightarrow> push e es = es @ [e]"
begin

text \<open>The list the code keeps and the ghost log agree on what is inside the window.\<close>

definition agrees :: "int \<Rightarrow> 'e list \<times> 'e list \<Rightarrow> bool" where
  "agrees now st \<longleftrightarrow> sorted (map stamp (fst st)) \<and> (\<forall>e \<in> set (fst st). stamp e \<le> now) \<and>
     filter (fresh now) (fst st) = filter (fresh now) (snd st) \<and>
     length (filter (fresh now) (snd st)) \<le> limit"

lemma filter_fresh_later:
  assumes "t \<le> t'" "filter (fresh t) xs = filter (fresh t) ys"
  shows "filter (fresh t') xs = filter (fresh t') ys"
proof -
  have "filter (fresh t') zs = filter (fresh t') (filter (fresh t) zs)" for zs
    using fresh_earlier [OF _ assms(1)] by (induction zs) auto
  with assms(2) show ?thesis by metis
qed

lemma length_filter_later:
  assumes "t \<le> t'"
  shows "length (filter (fresh t') xs) \<le> length (filter (fresh t) xs)"
  using fresh_earlier [OF _ assms] by (induction xs) (auto intro: le_SucI)

lemma agrees_later: "agrees t st \<Longrightarrow> t \<le> t' \<Longrightarrow> agrees t' st"
  using filter_fresh_later [of t t' "fst st" "snd st"] length_filter_later [of t t' "snd st"]
  by (fastforce simp: agrees_def)

lemma agrees_trim:
  assumes "agrees now (kept, log)"
  shows "agrees now (trim now kept, log)" and "trim now kept = filter (fresh now) log"
proof -
  have tr: "trim now kept = filter (fresh now) kept"
    using assms by (simp add: agrees_def trim_fresh)
  with assms show "trim now kept = filter (fresh now) log" by (simp add: agrees_def)
  have "sorted (map stamp kept)" "\<forall>e \<in> set kept. stamp e \<le> now"
    using assms by (simp_all add: agrees_def)
  then have "sorted (map stamp (filter (fresh now) kept))"
    "\<forall>e \<in> set (filter (fresh now) kept). stamp e \<le> now"
    by (simp_all add: sorted_filter)
  moreover have "filter (fresh now) kept = filter (fresh now) log"
    "length (filter (fresh now) log) \<le> limit"
    using assms by (simp_all add: agrees_def)
  ultimately show "agrees now (trim now kept, log)"
    unfolding tr agrees_def by (intro conjI) (simp_all only: fst_conv snd_conv filter_filter conj_absorb)
qed

lemma agrees_admit_one:
  assumes "agrees t st" "t \<le> stamp e"
  shows "agrees (stamp e) (admit_one stamp trim push limit e st)"
proof -
  obtain kept log where st: "st = (kept, log)" by (cases st)
  have ag: "agrees (stamp e) (kept, log)"
    using agrees_later [OF assms] st by simp
  let ?es = "trim (stamp e) kept"
  have tr: "agrees (stamp e) (?es, log)" "?es = filter (fresh (stamp e)) log"
    using agrees_trim [OF ag] by auto
  show ?thesis
  proof (cases "length ?es < limit")
    case True
    have "filter (fresh (stamp e)) (filter (fresh (stamp e)) log) = filter (fresh (stamp e)) log"
      by simp
    moreover have "length (filter (fresh (stamp e)) (log @ [e])) \<le> limit"
      using True tr(2) by simp
    ultimately have "agrees (stamp e) (?es @ [e], log @ [e])"
      using tr by (auto simp: agrees_def sorted_append)
    with True st show ?thesis by (simp add: push_snoc)
  next
    case False
    with tr(1) st show ?thesis by simp
  qed
qed

lemma agrees_run:
  assumes "agrees t st" "sorted (map stamp es)" "\<forall>e \<in> set es. t \<le> stamp e"
  shows "\<exists>t'. t \<le> t' \<and> (es \<noteq> [] \<longrightarrow> t' = stamp (last es)) \<and>
    agrees t' (admit_run stamp trim push limit es st)"
  using assms
proof (induction es arbitrary: t st)
  case Nil
  then show ?case by auto
next
  case (Cons e es)
  have one: "agrees (stamp e) (admit_one stamp trim push limit e st)"
    using Cons.prems by (intro agrees_admit_one) auto
  have "\<exists>t'. stamp e \<le> t' \<and> (es \<noteq> [] \<longrightarrow> t' = stamp (last es)) \<and>
      agrees t' (admit_run stamp trim push limit es (admit_one stamp trim push limit e st))"
    using Cons.prems by (intro Cons.IH [OF one]) auto
  then show ?case using Cons.prems(3) one by (cases "es = []") (auto intro: order_trans)
qed

lemma agrees_empty: "agrees t ([], [])"
  by (simp add: agrees_def)

text \<open>The promise to the clients.\<close>

lemma window_safe:
  assumes "sorted (map stamp es)" "es \<noteq> []" "stamp (last es) \<le> now"
  shows "length (filter (fresh now) (snd (admit_run stamp trim push limit es ([], [])))) \<le> limit"
proof -
  have "\<forall>e \<in> set es. stamp (hd es) \<le> stamp e"
    using assms(1,2) by (cases es) auto
  then obtain t' where "es \<noteq> [] \<longrightarrow> t' = stamp (last es)"
    and ag: "agrees t' (admit_run stamp trim push limit es ([], []))"
    using agrees_run [OF agrees_empty assms(1)] by blast
  with assms(2,3) have "t' \<le> now" by simp
  with ag have "agrees now (admit_run stamp trim push limit es ([], []))" by (rule agrees_later)
  then show ?thesis by (simp add: agrees_def)
qed

text \<open>
  A request is refused only when \<open>limit\<close> entries are inside the window, and a refused one leaves
  nothing behind: a sender that waits out the window is always admitted again.
\<close>

lemma admits_iff:
  assumes "agrees t st" "t \<le> stamp e"
  shows "snd (admit_one stamp trim push limit e st) = snd st @ [e] \<longleftrightarrow>
    length (filter (fresh (stamp e)) (snd st)) < limit"
proof -
  obtain kept log where st: "st = (kept, log)" by (cases st)
  have "agrees (stamp e) (kept, log)" using agrees_later [OF assms] st by simp
  then have "trim (stamp e) kept = filter (fresh (stamp e)) log" by (rule agrees_trim)
  with st show ?thesis by (simp add: Let_def)
qed

lemma admits_after_window:
  assumes "agrees t st" "t \<le> stamp e" "\<forall>f \<in> set (snd st). \<not> fresh (stamp e) f" "0 < limit"
  shows "snd (admit_one stamp trim push limit e st) = snd st @ [e]"
proof -
  have "filter (fresh (stamp e)) (snd st) = []" using assms(3) by (simp add: filter_empty_conv)
  with assms(4) show ?thesis using admits_iff [OF assms(1,2)] by simp
qed

end

end
