(* ===== verification/Float64.thy ===== *)
theory Float64
  imports Complex_Main "HOL-Library.Log_Nat"
begin

text \<open>
  IEEE 754 binary64, as far as the guards of the code need it: comparisons (false on NaN),
  absolute value, subtraction, multiplication and division, each exact over the rationals and then
  rounded to nearest, ties to even, with 53 bits of precision, gradual underflow and overflow to
  infinity. The two zeros are one value here: the code never divides by a zero and never prints
  one, which are the only ways to tell them apart.
\<close>

datatype f64 = NaN | Inf bool \<comment> \<open>True: minus infinity\<close> | Fin rat

definition pow2 :: "int \<Rightarrow> rat" where
  "pow2 e = (if 0 \<le> e then 2 ^ nat e else 1 / 2 ^ nat (- e))"

definition round_even :: "rat \<Rightarrow> int" where
  "round_even x = (let f = \<lfloor>x\<rfloor>; d = x - of_int f
     in if d < 1 / 2 then f else if 1 / 2 < d then f + 1 else if even f then f else f + 1)"

text \<open>The exponent of a positive rational: the greatest \<open>k\<close> with \<open>2\<^sup>k \<le> x\<close>.\<close>

definition ilog2 :: "rat \<Rightarrow> int" where
  "ilog2 x = (let (n, d) = quotient_of x; k = bitlen n - bitlen d
     in if pow2 k \<le> x then k else k - 1)"

text \<open>A result of magnitude \<open>2\<^sup>1\<^sup>0\<^sup>2\<^sup>4\<close> or more, that is with exponent above 971, overflows.\<close>

definition f_round :: "rat \<Rightarrow> f64" where
  "f_round x = (if x = 0 then Fin 0
     else let e = max (ilog2 \<bar>x\<bar> - 52) (- 1074); m = round_even (x / pow2 e)
          in if 971 < e \<or> e = 971 \<and> 9007199254740992 \<le> \<bar>m\<bar> then Inf (x < 0) else Fin (of_int m * pow2 e))"

fun f_lt :: "f64 \<Rightarrow> f64 \<Rightarrow> bool" where
  "f_lt NaN _ = False"
| "f_lt _ NaN = False"
| "f_lt (Inf s) (Inf t) = (s \<and> \<not> t)"
| "f_lt (Inf s) (Fin _) = s"
| "f_lt (Fin _) (Inf t) = (\<not> t)"
| "f_lt (Fin x) (Fin y) = (x < y)"

fun f_eq :: "f64 \<Rightarrow> f64 \<Rightarrow> bool" where
  "f_eq NaN _ = False"
| "f_eq _ NaN = False"
| "f_eq a b = (a = b)"

definition f_le :: "f64 \<Rightarrow> f64 \<Rightarrow> bool" where
  "f_le a b \<longleftrightarrow> f_lt a b \<or> f_eq a b"

fun f_abs :: "f64 \<Rightarrow> f64" where
  "f_abs NaN = NaN"
| "f_abs (Inf _) = Inf False"
| "f_abs (Fin x) = Fin \<bar>x\<bar>"

fun f_sub :: "f64 \<Rightarrow> f64 \<Rightarrow> f64" where
  "f_sub NaN _ = NaN"
| "f_sub _ NaN = NaN"
| "f_sub (Inf s) (Inf t) = (if s = t then NaN else Inf s)"
| "f_sub (Inf s) (Fin _) = Inf s"
| "f_sub (Fin _) (Inf t) = Inf (\<not> t)"
| "f_sub (Fin x) (Fin y) = f_round (x - y)"

fun f_mul :: "f64 \<Rightarrow> f64 \<Rightarrow> f64" where
  "f_mul NaN _ = NaN"
| "f_mul _ NaN = NaN"
| "f_mul (Inf s) (Inf t) = Inf (s \<noteq> t)"
| "f_mul (Inf s) (Fin y) = (if y = 0 then NaN else Inf (s \<noteq> (y < 0)))"
| "f_mul (Fin x) (Inf t) = (if x = 0 then NaN else Inf ((x < 0) \<noteq> t))"
| "f_mul (Fin x) (Fin y) = f_round (x * y)"

fun f_div :: "f64 \<Rightarrow> f64 \<Rightarrow> f64" where
  "f_div NaN _ = NaN"
| "f_div _ NaN = NaN"
| "f_div (Inf s) (Inf t) = NaN"
| "f_div (Inf s) (Fin y) = Inf (s \<noteq> (y < 0))"
| "f_div (Fin x) (Inf t) = Fin 0"
| "f_div (Fin x) (Fin y) = (if y = 0 then (if x = 0 then NaN else Inf (x < 0)) else f_round (x / y))"

fun f_add :: "f64 \<Rightarrow> f64 \<Rightarrow> f64" where
  "f_add NaN _ = NaN"
| "f_add _ NaN = NaN"
| "f_add (Inf s) (Inf t) = (if s = t then Inf s else NaN)"
| "f_add (Inf s) (Fin _) = Inf s"
| "f_add (Fin _) (Inf t) = Inf t"
| "f_add (Fin x) (Fin y) = f_round (x + y)"

text \<open>\<open>math.Max\<close>: plus infinity wins over NaN.\<close>

definition f_max :: "f64 \<Rightarrow> f64 \<Rightarrow> f64" where
  "f_max a b = (if a = Inf False \<or> b = Inf False then Inf False else if a = NaN \<or> b = NaN then NaN
     else if f_lt a b then b else a)"

definition is_nan :: "f64 \<Rightarrow> bool" where
  "is_nan x \<longleftrightarrow> x = NaN"

definition is_inf :: "f64 \<Rightarrow> bool" where
  "is_inf x \<longleftrightarrow> (case x of Inf _ \<Rightarrow> True | _ \<Rightarrow> False)"

definition f_finite :: "f64 \<Rightarrow> bool" where
  "f_finite x \<longleftrightarrow> \<not> is_nan x \<and> \<not> is_inf x"

lemma f_finite_iff: "f_finite x \<longleftrightarrow> (\<exists>r. x = Fin r)"
  by (cases x) (auto simp: f_finite_def is_nan_def is_inf_def)

lemma f_le_Fin [simp]: "f_le (Fin x) (Fin y) \<longleftrightarrow> x \<le> y"
  by (auto simp: f_le_def)

lemma f_lt_NaN [simp]: "\<not> f_lt x NaN" "\<not> f_lt NaN x"
  by (cases x; simp)+

lemma f_le_NaN [simp]: "\<not> f_le x NaN" "\<not> f_le NaN x"
  by (cases x; simp add: f_le_def)+

lemma f_lt_irrefl [simp]: "\<not> f_lt x x"
  by (cases x) auto

lemma f_lt_trans: "f_lt x y \<Longrightarrow> f_lt y z \<Longrightarrow> f_lt x z"
  by (cases x; cases y; cases z) auto

lemma f_not_le: "f_finite x \<Longrightarrow> f_finite y \<Longrightarrow> \<not> f_le x y \<longleftrightarrow> f_lt y x"
  by (auto simp: f_finite_iff)

lemma f_round_0 [simp]: "f_round 0 = Fin 0"
  by (simp add: f_round_def)

lemma pow2_pos: "0 < pow2 e"
  by (simp add: pow2_def)

lemma round_even_nonneg: "0 \<le> x \<Longrightarrow> 0 \<le> round_even x"
  by (auto simp: round_even_def Let_def)

lemma f_round_not_NaN: "f_round x \<noteq> NaN"
  by (simp add: f_round_def Let_def)

lemma f_round_nonneg:
  assumes "0 \<le> x" "f_round x = Fin y"
  shows "0 \<le> y"
proof (cases "x = 0")
  case True
  with assms(2) show ?thesis by simp
next
  case False
  have "0 \<le> x / pow2 e" for e
    using assms(1) pow2_pos [of e] by simp
  then have "0 \<le> (of_int (round_even (x / pow2 e)) :: rat)" for e
    using round_even_nonneg by simp
  then have "0 \<le> of_int (round_even (x / pow2 e)) * pow2 e" for e
    using pow2_pos [of e] by (simp add: mult_nonneg_nonneg less_imp_le)
  with False assms(2) show ?thesis by (auto simp: f_round_def Let_def split: if_splits)
qed

text \<open>A difference of a finite number with itself is zero, and stays zero under division.\<close>

lemma f_sub_self: "f_finite x \<Longrightarrow> f_sub x x = Fin 0"
  by (auto simp: f_finite_iff)

lemma f_div_zero: "f_finite y \<Longrightarrow> f_lt (Fin 0) y \<Longrightarrow> f_div (Fin 0) y = Fin 0"
  by (auto simp: f_finite_iff)

end
