(* ===== verification/FloatRounding.thy ===== *)
theory FloatRounding
  imports Float64
begin

text \<open>
  Rounding to doubles is monotone and leaves doubles alone; so a sum never falls below a summand when a positive
  number is added to a double. That is what a running total of losses rests on.
\<close>

section \<open>Powers of two\<close>

lemma pow2_powi: "pow2 e = 2 powi e"
  by (simp add: pow2_def power_int_def power_one_over)

lemma pow2_add: "pow2 (a + b) = pow2 a * pow2 b"
  by (simp add: pow2_powi power_int_add)

lemma pow2_mono: "a \<le> b \<Longrightarrow> pow2 a \<le> pow2 b"
  by (simp add: pow2_powi power_int_increasing)

lemma pow2_less: "pow2 a < pow2 b \<longleftrightarrow> a < b"
proof
  assume "pow2 a < pow2 b"
  then show "a < b" using pow2_mono [of b a] by (metis not_less)
qed (simp add: pow2_powi power_int_strict_increasing)

lemma pow2_nat: "pow2 (int n) = 2 ^ n"
  by (simp add: pow2_def)

section \<open>The exponent\<close>

lemma bitlen_pow2: 
  assumes "0 < n"
  shows "pow2 (bitlen n - 1) \<le> of_int n" "of_int n < pow2 (bitlen n)"
proof -
  have b: "0 < bitlen n"
  proof (rule ccontr)
    assume "\<not> 0 < bitlen n"
    then have "n < 1" using bitlen_bounds [OF assms] by simp
    with assms show False by simp
  qed
  have "2 ^ nat (bitlen n - 1) \<le> n \<and> n < 2 ^ nat (bitlen n)" using bitlen_bounds [OF assms] .
  then have "(of_int (2 ^ nat (bitlen n - 1)) :: rat) \<le> of_int n" "(of_int n :: rat) < of_int (2 ^ nat (bitlen n))"
    by (simp_all only: of_int_le_iff of_int_less_iff)
  with b show "pow2 (bitlen n - 1) \<le> of_int n" "of_int n < pow2 (bitlen n)" by (simp_all add: pow2_def)
qed

lemma ilog2_bounds:
  assumes "0 < x"
  shows "pow2 (ilog2 x) \<le> x" "x < pow2 (ilog2 x + 1)"
proof -
  obtain n d where q: "quotient_of x = (n, d)" by force
  have d: "0 < d" using q by (rule quotient_of_denom_pos)
  have x: "x = of_int n / of_int d" using q by (rule quotient_of_div)
  then have n: "0 < n" using assms d by (simp add: zero_less_divide_iff)
  let ?k = "bitlen n - bitlen d"
  have up: "x < pow2 (?k + 1)"
  proof -
    have "of_int n < pow2 (bitlen n)" "pow2 (bitlen d - 1) \<le> of_int d" using bitlen_pow2 n d by blast+
    have "pow2 (bitlen n) = pow2 (?k + 1) * pow2 (bitlen d - 1)" by (simp flip: pow2_add)
    also have "\<dots> \<le> pow2 (?k + 1) * of_int d"
      using \<open>pow2 (bitlen d - 1) \<le> of_int d\<close> pow2_pos [of "?k + 1"] by (simp add: mult_left_mono)
    finally have "of_int n < pow2 (?k + 1) * of_int d" using \<open>of_int n < pow2 (bitlen n)\<close> by linarith
    then show ?thesis using d by (simp add: x pos_divide_less_eq)
  qed
  have low: "pow2 (?k - 1) \<le> x"
  proof -
    have "pow2 (bitlen n - 1) \<le> of_int n" "of_int d < pow2 (bitlen d)" using bitlen_pow2 n d by blast+
    have "pow2 (?k - 1) * of_int d \<le> pow2 (?k - 1) * pow2 (bitlen d)"
      using \<open>of_int d < pow2 (bitlen d)\<close> pow2_pos [of "?k - 1"] by (simp add: mult_left_mono)
    also have "\<dots> = pow2 (bitlen n - 1)" by (simp flip: pow2_add)
    finally have "pow2 (?k - 1) * of_int d \<le> of_int n" using \<open>pow2 (bitlen n - 1) \<le> of_int n\<close> by linarith
    then show ?thesis using d by (simp add: x pos_le_divide_eq)
  qed
  show "pow2 (ilog2 x) \<le> x" "x < pow2 (ilog2 x + 1)"
    using up low by (auto simp: ilog2_def q Let_def)
qed

lemma ilog2_mono: "0 < x \<Longrightarrow> x \<le> y \<Longrightarrow> ilog2 x \<le> ilog2 y"
proof -
  assume "0 < x" "x \<le> y"
  then have "pow2 (ilog2 x) < pow2 (ilog2 y + 1)" using ilog2_bounds [of x] ilog2_bounds [of y] by linarith
  then show ?thesis by (simp add: pow2_less)
qed

lemma ilog2_unique: "pow2 k \<le> x \<Longrightarrow> x < pow2 (k + 1) \<Longrightarrow> ilog2 x = k"
proof -
  assume a: "pow2 k \<le> x" "x < pow2 (k + 1)"
  then have "0 < x" using pow2_pos [of k] by linarith
  then have "pow2 k < pow2 (ilog2 x + 1)" "pow2 (ilog2 x) < pow2 (k + 1)" using ilog2_bounds [of x] a by linarith+
  then show ?thesis by (simp add: pow2_less)
qed

section \<open>Rounding to integers\<close>

lemma round_even_int [simp]: "round_even (of_int z) = z"
  by (simp add: round_even_def)

lemma round_even_mono: "x \<le> y \<Longrightarrow> round_even x \<le> round_even y"
proof -
  assume le: "x \<le> y"
  have f: "\<lfloor>x\<rfloor> \<le> \<lfloor>y\<rfloor>" using le by (rule floor_mono)
  show ?thesis
  proof (cases "\<lfloor>x\<rfloor> = \<lfloor>y\<rfloor>")
    case True
    then show ?thesis using le by (auto simp: round_even_def Let_def)
  next
    case False
    then have "\<lfloor>x\<rfloor> + 1 \<le> \<lfloor>y\<rfloor>" using f by linarith
    then show ?thesis by (auto simp: round_even_def Let_def)
  qed
qed

section \<open>Doubles\<close>

text \<open>The exponent that a positive number is rounded at, and its significand.\<close>

definition f_exp :: "rat \<Rightarrow> int" where
  "f_exp x = max (ilog2 x - 52) (- 1074)"

definition f_mant :: "rat \<Rightarrow> int" where
  "f_mant x = round_even (x / pow2 (f_exp x))"

lemma f_round_pos:
  "0 < x \<Longrightarrow> f_round x = (if 971 < f_exp x \<or> f_exp x = 971 \<and> 9007199254740992 \<le> \<bar>f_mant x\<bar> then Inf False
     else Fin (of_int (f_mant x) * pow2 (f_exp x)))"
  by (auto simp: f_round_def f_exp_def f_mant_def Let_def)

lemma pow2_52: "pow2 52 = 4503599627370496" "pow2 53 = 9007199254740992"
  by (simp_all add: pow2_def)

lemma f_mant_upper:
  assumes "0 < x"
  shows "f_mant x \<le> 9007199254740992"
proof -
  have "ilog2 x + 1 \<le> f_exp x + 53" by (simp add: f_exp_def)
  then have "x < pow2 (f_exp x + 53)" using ilog2_bounds(2) [OF assms] pow2_mono by (meson order_less_le_trans)
  then have "x / pow2 (f_exp x) \<le> pow2 53" using pow2_pos [of "f_exp x"] by (simp add: pow2_add pos_divide_le_eq mult.commute)
  then have "x / pow2 (f_exp x) \<le> of_int 9007199254740992" by (simp add: pow2_52)
  then have "f_mant x \<le> round_even (of_int 9007199254740992)" unfolding f_mant_def by (rule round_even_mono)
  then show ?thesis by (simp only: round_even_int)
qed

lemma f_mant_lower:
  assumes "0 < x" "- 1074 < f_exp x"
  shows "4503599627370496 \<le> f_mant x"
proof -
  have e: "f_exp x = ilog2 x - 52" using assms(2) by (simp add: f_exp_def)
  have "pow2 (f_exp x + 52) \<le> x" using ilog2_bounds(1) [OF assms(1)] by (simp add: e)
  then have "of_int 4503599627370496 \<le> x / pow2 (f_exp x)"
    using pow2_pos [of "f_exp x"] by (simp add: pow2_add pow2_52 pos_le_divide_eq mult.commute)
  then have "round_even (of_int 4503599627370496) \<le> f_mant x" unfolding f_mant_def by (rule round_even_mono)
  then show ?thesis by (simp only: round_even_int)
qed

lemma f_mant_nonneg: "0 < x \<Longrightarrow> 0 \<le> f_mant x"
  unfolding f_mant_def using round_even_nonneg pow2_pos [of "f_exp x"] by simp

lemma scaled_mono:
  assumes "0 < x" "x \<le> y"
  shows "of_int (f_mant x) * pow2 (f_exp x) \<le> of_int (f_mant y) * pow2 (f_exp y)"
proof (cases "f_exp x = f_exp y")
  case True
  have "f_mant x \<le> f_mant y"
    unfolding f_mant_def True by (rule round_even_mono) (use assms pow2_pos [of "f_exp y"] in \<open>simp add: divide_right_mono\<close>)
  then show ?thesis using True pow2_pos [of "f_exp y"] by (simp add: mult_right_mono)
next
  case False
  have "f_exp x \<le> f_exp y" using ilog2_mono [OF assms] by (auto simp: f_exp_def)
  with False have e: "f_exp x + 1 \<le> f_exp y" by simp
  then have y: "4503599627370496 \<le> f_mant y"
    using f_mant_lower [of y] assms by (auto simp: f_exp_def)
  have "of_int (f_mant x) * pow2 (f_exp x) \<le> pow2 53 * pow2 (f_exp x)"
    using f_mant_upper [OF assms(1)] pow2_pos [of "f_exp x"] by (simp add: pow2_52 mult_right_mono flip: of_int_le_iff)
  also have "\<dots> = pow2 52 * pow2 (f_exp x + 1)" by (simp flip: pow2_add)
  also have "\<dots> \<le> pow2 52 * pow2 (f_exp y)" using pow2_mono [OF e] pow2_pos [of 52] by (simp add: mult_left_mono)
  also have "\<dots> \<le> of_int (f_mant y) * pow2 (f_exp y)"
    using y pow2_pos [of "f_exp y"] by (simp add: pow2_52 mult_right_mono flip: of_int_le_iff)
  finally show ?thesis .
qed

lemma f_round_mono_pos:
  assumes "0 < x" "x \<le> y"
  shows "f_le (f_round x) (f_round y)"
proof -
  have y: "0 < y" using assms by linarith
  have e: "f_exp x \<le> f_exp y" using ilog2_mono [OF assms] by (auto simp: f_exp_def)
  have m: "f_mant x \<le> f_mant y" if "f_exp x = f_exp y"
    unfolding f_mant_def that by (rule round_even_mono) (use assms pow2_pos [of "f_exp y"] in \<open>simp add: divide_right_mono\<close>)
  have "f_le (Fin r) (Inf False)" for r by (simp add: f_le_def)
  moreover have "f_le (Inf False) (Inf False)" by (simp add: f_le_def)
  moreover have "f_round y = Inf False" if "f_round x = Inf False"
    using that e m f_mant_nonneg [OF assms(1)] f_mant_nonneg [OF y]
    by (auto simp: f_round_pos assms(1) y split: if_splits)
  ultimately show ?thesis using scaled_mono [OF assms] by (auto simp: f_round_pos assms(1) y split: if_splits)
qed

lemma f_le_inf: "f_le (Fin x) (Inf False)"
  by (simp add: f_le_def)

definition representable :: "f64 \<Rightarrow> bool" where
  "representable v \<longleftrightarrow> (case v of Fin x \<Rightarrow> f_round x = Fin x | _ \<Rightarrow> True)"

text \<open>What rounding yields is a double: rounding it again changes nothing.\<close>

lemma f_exp_scaled:
  assumes "0 < m" "m < 9007199254740992" "- 1074 \<le> e" "4503599627370496 \<le> m \<or> e = - 1074"
  shows "f_exp (of_int m * pow2 e) = e"
proof -
  let ?v = "of_int m * pow2 e"
  have p: "0 < ?v" using assms(1) pow2_pos [of e] by simp
  have up: "?v < pow2 (e + 53)"
    using assms(2) pow2_pos [of e] by (simp add: pow2_add pow2_52 mult.commute flip: of_int_less_iff)
  then have u: "ilog2 ?v < e + 53" using ilog2_bounds(1) [OF p] pow2_less [of "ilog2 ?v" "e + 53"] by linarith
  show ?thesis
  proof (cases "4503599627370496 \<le> m")
    case True
    then have "pow2 (e + 52) \<le> ?v" using pow2_pos [of e] by (simp add: pow2_add pow2_52 mult.commute flip: of_int_le_iff)
    then have "e + 52 < ilog2 ?v + 1" using ilog2_bounds(2) [OF p] pow2_less [of "e + 52" "ilog2 ?v + 1"] by linarith
    with u assms(3) show ?thesis by (simp add: f_exp_def)
  next
    case False
    then show ?thesis using u assms(4) by (simp add: f_exp_def)
  qed
qed

lemma pow2_Suc: "pow2 (e + 1) = 2 * pow2 e"
  using pow2_add [of e 1] by (simp add: pow2_def)

lemma f_round_scaled:
  assumes "0 < m" "m < 9007199254740992" "- 1074 \<le> e" "4503599627370496 \<le> m \<or> e = - 1074" "e \<le> 971"
  shows "f_round (of_int m * pow2 e) = Fin (of_int m * pow2 e)"
proof -
  have p: "0 < of_int m * pow2 e" using assms(1) pow2_pos [of e] by simp
  have x: "f_exp (of_int m * pow2 e) = e" by (rule f_exp_scaled [OF assms(1-4)])
  then have "f_mant (of_int m * pow2 e) = m" using pow2_pos [of e] by (simp add: f_mant_def)
  with x assms(1,2,5) show ?thesis by (simp add: f_round_pos [OF p])
qed

lemma representable_round_pos:
  assumes "0 < x"
  shows "representable (f_round x)"
proof (cases "f_round x")
  case (Fin v)
  let ?m = "f_mant x" and ?e = "f_exp x"
  have v: "v = of_int ?m * pow2 ?e" and fits: "\<not> 971 < ?e" "\<not> (?e = 971 \<and> 9007199254740992 \<le> ?m)"
    using Fin f_mant_nonneg [OF assms] by (auto simp: f_round_pos [OF assms] split: if_splits)
  have e: "- 1074 \<le> ?e" by (simp add: f_exp_def)
  have low: "4503599627370496 \<le> ?m \<or> ?e = - 1074" using f_mant_lower [OF assms] e by linarith
  consider "?m = 0" | "0 < ?m" "?m < 9007199254740992" | "?m = 9007199254740992"
    using f_mant_nonneg [OF assms] f_mant_upper [OF assms] by linarith
  then have "f_round v = Fin v"
  proof cases
    case 1
    then show ?thesis by (simp add: v)
  next
    case 2
    show ?thesis unfolding v by (rule f_round_scaled) (use 2 e low fits in auto)
  next
    case 3
    have "v = of_int 4503599627370496 * pow2 (?e + 1)" by (simp add: v 3 pow2_Suc)
    moreover have "f_round (of_int 4503599627370496 * pow2 (?e + 1)) = Fin (of_int 4503599627370496 * pow2 (?e + 1))"
      by (rule f_round_scaled) (use 3 e fits in auto)
    ultimately show ?thesis by simp
  qed
  then show ?thesis by (simp add: representable_def Fin)
qed (simp_all add: representable_def)

lemma f_round_ge_0: "0 \<le> x \<Longrightarrow> f_le (Fin 0) (f_round x)"
  using f_mant_nonneg [of x] pow2_pos [of "f_exp x"]
  by (cases "x = 0") (auto simp: f_round_pos f_le_inf)

lemma representable_round: "0 \<le> x \<Longrightarrow> representable (f_round x)"
  by (cases "x = 0") (auto simp: representable_round_pos, simp add: representable_def)

lemma f_nonneg_cases: "f_le (Fin 0) a \<Longrightarrow> (\<exists>x. a = Fin x \<and> 0 \<le> x) \<or> a = Inf False"
  by (cases a) (auto simp: f_le_def)

lemma f_add_nonneg:
  assumes "f_le (Fin 0) a" "f_le (Fin 0) b"
  shows "f_le (Fin 0) (f_add a b)" "representable (f_add a b)"
  using f_nonneg_cases [OF assms(1)] f_nonneg_cases [OF assms(2)]
  by (auto simp: f_round_ge_0 representable_round f_le_inf) (auto simp: representable_def)

lemma f_add_0: "representable a \<Longrightarrow> f_add a (Fin 0) = a"
  by (cases a) (auto simp: representable_def)

lemma f_le_trans: "f_le a b \<Longrightarrow> f_le b c \<Longrightarrow> f_le a c"
  by (cases a; cases b; cases c) (auto simp: f_le_def)

lemma f_le_max: "f_le (Fin 0) b \<Longrightarrow> f_le c a \<Longrightarrow> f_le c (f_max a b)"
  using f_nonneg_cases [of b]
  by (cases a; cases c) (auto simp: f_max_def f_le_def)

text \<open>The rounding of a negative number mirrors that of its absolute value, which the totals of losses do not need.\<close>

lemma f_add_grows:
  assumes "representable a" "f_le (Fin 0) a" "f_lt (Fin 0) b" "\<not> is_inf b"
  shows "f_le a (f_add a b)" "representable (f_add a b)" "f_le (Fin 0) (f_add a b)"
proof -
  have le: "f_le a (f_add a b) \<and> representable (f_add a b)"
  proof (cases a)
    case (Fin x)
    obtain y where y: "b = Fin y" "0 < y" using assms(3,4) by (cases b) (auto simp: is_inf_def)
    have x: "0 \<le> x" "f_round x = Fin x" using assms(1,2) by (simp_all add: Fin representable_def)
    show ?thesis
    proof (cases "x = 0")
      case True
      have "f_le (Fin 0) (f_round y)"
        using y(2) f_mant_nonneg [OF y(2)] pow2_pos [of "f_exp y"]
        by (auto simp: f_round_pos [OF y(2)] f_le_inf)
      then show ?thesis using True y representable_round_pos [of y] by (simp add: Fin)
    next
      case False
      then have "f_le (f_round x) (f_round (x + y))" by (intro f_round_mono_pos) (use x y in auto)
      then show ?thesis using x y representable_round_pos [of "x + y"] by (simp add: Fin)
    qed
  next
    case (Inf s)
    then show ?thesis using assms(2,3,4) by (cases b) (auto simp: f_le_def representable_def is_inf_def)
  qed (use assms(2) in simp)
  then show "f_le a (f_add a b)" "representable (f_add a b)" by auto
  then show "f_le (Fin 0) (f_add a b)" using assms(2) f_lt_trans
    by (cases a; cases "f_add a b") (auto simp: f_le_def)
qed

end
