(* ===== verification/Calendar.thy ===== *)
theory Calendar
  imports GoBase
begin

text \<open>
  Civil dates: what the code uses of \<open>time.Time\<close> in a location (\<open>In\<close>, \<open>Date\<close>, \<open>Weekday\<close>, \<open>time.Date\<close>). The time
  zone database is not part of the program; a zone is the offset of local time from UTC, in seconds, at an
  instant in Unix seconds.
\<close>

type_synonym zone = "int \<Rightarrow> int"

definition utc :: zone where "utc s = 0"

section \<open>Days and dates\<close>

text \<open>Days since 1970-01-01 of a date in the proleptic Gregorian calendar; the day may leave its month.\<close>

definition days_from_civil :: "int \<Rightarrow> int \<Rightarrow> int \<Rightarrow> int" where
  "days_from_civil y m d =
     (let y' = (if m \<le> 2 then y - 1 else y); era = y' div 400; yoe = y' mod 400;
          doy = (153 * (if m > 2 then m - 3 else m + 9) + 2) div 5 + d - 1
      in era * 146097 + yoe * 365 + yoe div 4 - yoe div 100 + doy - 719468)"

definition civil_from_days :: "int \<Rightarrow> int \<times> int \<times> int" where
  "civil_from_days z0 =
     (let z = z0 + 719468; era = z div 146097; doe = z mod 146097;
          yoe = (doe - doe div 1460 + doe div 36524 - doe div 146096) div 365;
          doy = doe - (365 * yoe + yoe div 4 - yoe div 100);
          mp = (5 * doy + 2) div 153;
          m = (if mp < 10 then mp + 3 else mp - 9)
      in (yoe + era * 400 + (if m \<le> 2 then 1 else 0), m, doy - (153 * mp + 2) div 5 + 1))"

definition local_seconds :: "zone \<Rightarrow> go_time \<Rightarrow> int" where
  "local_seconds z t = (let s = t div second in s + z s)"

definition date_of :: "zone \<Rightarrow> go_time \<Rightarrow> int \<times> int \<times> int" where
  "date_of z t = civil_from_days (local_seconds z t div 86400)"

text \<open>Sunday is 0; the first of January 1970 was a Thursday.\<close>

definition weekday :: "zone \<Rightarrow> go_time \<Rightarrow> int" where
  "weekday z t = (local_seconds z t div 86400 + 4) mod 7"

text \<open>\<open>time.Date\<close> guesses the offset at the local time read as UTC, and corrects it at the instant that gives.\<close>

definition time_Date :: "zone \<Rightarrow> int \<Rightarrow> int \<Rightarrow> int \<Rightarrow> int \<Rightarrow> int \<Rightarrow> int \<Rightarrow> go_time" where
  "time_Date z y m d hh mm ss =
     (let l = days_from_civil y m d * 86400 + hh * 3600 + mm * 60 + ss; o1 = z l
      in (if o1 = 0 then l else l - z (l - o1)) * second)"

definition midnight :: "zone \<Rightarrow> int \<Rightarrow> int \<Rightarrow> int \<Rightarrow> go_time" where
  "midnight z y m d = time_Date z y m d 0 0 0"

definition time_of_day :: "zone \<Rightarrow> go_time \<Rightarrow> int \<times> int \<times> int" where
  "time_of_day z t = (let s = local_seconds z t mod 86400 in (s div 3600, s mod 3600 div 60, s mod 60))"

text \<open>\<open>AddDate\<close> of days: the same clock on another date.\<close>

definition add_days :: "zone \<Rightarrow> int \<Rightarrow> go_time \<Rightarrow> go_time" where
  "add_days z n t = (let (y, m, d) = date_of z t; (hh, mm, ss) = time_of_day z t in time_Date z y m (d + n) hh mm ss + t mod second)"

text \<open>Truncation of a time to a whole multiple of a duration since the zero time, year 1, which is a multiple of
  each of the units that are used.\<close>

definition truncate_time :: "duration \<Rightarrow> go_time \<Rightarrow> go_time" where
  "truncate_time d t = t - t mod d"

lemma truncate_time_le: "0 < d \<Longrightarrow> truncate_time d t \<le> t \<and> t < truncate_time d t + d"
  by (simp add: truncate_time_def)

lemma days_from_civil_day: "days_from_civil y m d = days_from_civil y m 1 + (d - 1)"
  unfolding days_from_civil_def Let_def by algebra

lemma date_samples:
  "civil_from_days 0 = (1970, 1, 1)" "civil_from_days 11016 = (2000, 2, 29)" "civil_from_days (- 1) = (1969, 12, 31)"
  "days_from_civil 2026 3 31 = 20543" "civil_from_days 20543 = (2026, 3, 31)"
  by code_simp+

text \<open>With a fixed offset the midnight of a date is where the date begins.\<close>

lemma midnight_fixed: "midnight (\<lambda>_. k) y m d = (days_from_civil y m d * 86400 - k) * second"
  by (simp add: midnight_def time_Date_def Let_def)

lemma local_seconds_fixed: "local_seconds (\<lambda>_. k) t = t div second + k"
  by (simp add: local_seconds_def Let_def)

end
