(* ===== verification/Machine.thy ===== *)
theory Machine
  imports GoBase
begin

text \<open>
  The stores and the scheduler of this code are state machines: operations, each of which either leaves
  the state alone (an error) or moves it. Three contracts, each a client of the previous one:
  \<open>machine\<close>, an invariant that every legal operation keeps; \<open>stepwise\<close>, operations that are sequences of
  the steps of an abstract relation, which keeps the invariant; \<open>lasting\<close>, facts that once true stay
  true. Each is interpreted on the models of the components.
\<close>

section \<open>An invariant that every operation keeps\<close>

locale machine =
  fixes legal :: "'op \<Rightarrow> bool" and step :: "'op \<Rightarrow> 's \<Rightarrow> 's" and inv :: "'s \<Rightarrow> bool"
  assumes keeps: "legal op \<Longrightarrow> inv s \<Longrightarrow> inv (step op s)"
begin

lemma run_keeps: "list_all legal ops \<Longrightarrow> inv s \<Longrightarrow> inv (fold step ops s)"
  by (induction ops arbitrary: s) (auto intro: keeps)

lemma run_induct [consumes 2, case_names start step]:
  assumes "list_all legal ops" "inv s" "P s" "\<And>s op. legal op \<Longrightarrow> inv s \<Longrightarrow> P s \<Longrightarrow> P (step op s)"
  shows "P (fold step ops s)"
proof -
  have "inv (fold step ops s) \<and> P (fold step ops s)"
    using assms(1-3)
  proof (induction ops arbitrary: s)
    case (Cons op ops)
    have "inv (step op s)" "P (step op s)" using Cons.prems keeps assms(4) by simp_all
    from Cons.IH [OF _ this] Cons.prems show ?case by simp
  qed simp
  then show ?thesis by blast
qed

end

section \<open>Operations that are sequences of abstract steps\<close>

locale stepwise =
  fixes legal :: "'op \<Rightarrow> bool" and step :: "'op \<Rightarrow> 's \<Rightarrow> 's" and inv :: "'s \<Rightarrow> bool" and astep :: "'s \<Rightarrow> 's \<Rightarrow> bool"
  assumes simulates: "legal op \<Longrightarrow> inv s \<Longrightarrow> astep\<^sup>*\<^sup>* s (step op s)"
    and astep_keeps: "astep s t \<Longrightarrow> inv s \<Longrightarrow> inv t"
begin

lemma asteps_keep: "astep\<^sup>*\<^sup>* s t \<Longrightarrow> inv s \<Longrightarrow> inv t"
  by (induction rule: rtranclp_induct) (auto intro: astep_keeps)

end

sublocale stepwise \<subseteq> machine
  by unfold_locales (use simulates asteps_keep in blast)

context stepwise
begin

lemma run_simulates: "list_all legal ops \<Longrightarrow> inv s \<Longrightarrow> astep\<^sup>*\<^sup>* s (fold step ops s)"
proof (induction ops arbitrary: s)
  case (Cons op ops)
  have "inv (step op s)" using Cons.prems by (simp add: keeps)
  with Cons.IH Cons.prems simulates show ?case by (auto intro: rtranclp_trans)
qed simp

end

section \<open>Facts that stay\<close>

locale lasting = stepwise +
  fixes fact :: "'s \<Rightarrow> 'f \<Rightarrow> bool"
  assumes fact_stays: "inv s \<Longrightarrow> astep s t \<Longrightarrow> fact s f \<Longrightarrow> fact t f"
begin

lemma asteps_fact: "astep\<^sup>*\<^sup>* s t \<Longrightarrow> inv s \<Longrightarrow> fact s f \<Longrightarrow> fact t f"
  by (induction rule: rtranclp_induct) (use asteps_keep fact_stays in blast)+

lemma run_fact: "list_all legal ops \<Longrightarrow> inv s \<Longrightarrow> fact s f \<Longrightarrow> fact (fold step ops s) f"
  using asteps_fact run_simulates by blast

end

end
