(* ===== verification/Workflow.thy ===== *)
theory Workflow
  imports GoBase
begin

text \<open>
  Workflow functions under the journal, seen from above. A workflow function (\<open>runExecute\<close> of \<open>pkg/dca\<close>, for
  one) is code between calls of \<open>Ctx.Step\<close>; all it has to go on are the results of the steps, which the journal
  keeps and gives back on a replay (\<open>JournalCtx\<close>: \<open>step_replays\<close>). So such a function is a tree: at an end, or
  asking for a step and going on with its result. Resuming after a crash is walking the tree along the stored
  results. A step function may run any number of times; only the last run leaves a result.
\<close>

section \<open>Workflow functions as trees\<close>

text \<open>What \<open>Ctx.Step\<close> gave: the stored output, or a \<open>StepError\<close> with its text. Every other error of \<open>Step\<close>
  ends the execution without a result; the run is resumed later or never.\<close>

datatype 'v answer = Got 'v | Broken string

datatype ('q, 'v) flow = Over "string option" | Ask 'q "'v answer \<Rightarrow> ('q, 'v) flow"

fun resume :: "('q, 'v) flow \<Rightarrow> 'v answer list \<Rightarrow> ('q, 'v) flow" where
  "resume p [] = p"
| "resume (Over err) (a # as) = Over err"
| "resume (Ask q k) (a # as) = resume (k a) as"

text \<open>The questions that were answered, each with the result that was kept.\<close>

fun answered :: "('q, 'v) flow \<Rightarrow> 'v answer list \<Rightarrow> ('q \<times> 'v answer) list" where
  "answered p [] = []"
| "answered (Over err) (a # as) = []"
| "answered (Ask q k) (a # as) = (q, a) # answered (k a) as"

lemma resume_append: "resume p (as @ bs) = resume (resume p as) bs"
proof (induction as arbitrary: p)
  case (Cons a as)
  show ?case
  proof (cases p)
    case (Over e)
    then show ?thesis by (cases bs) simp_all
  qed (simp add: Cons.IH)
qed simp

lemma answered_snoc: "resume p as = Ask q k \<Longrightarrow> answered p (as @ [a]) = answered p as @ [(q, a)]"
proof (induction as arbitrary: p)
  case (Cons b as)
  then show ?case by (cases p) simp_all
qed simp

section \<open>A run\<close>

text \<open>
  The journal's side of one run, after \<open>runStep\<close> of \<open>JournalCtx\<close>: the results so far, how often the step that is
  due was started and how often it failed, and whether the journal gave the run up. A step function gets the
  attempt number; its failure carries a text and whether the step may be retried.
\<close>

record 'v run =
  r_answers :: "'v answer list"
  r_attempts :: nat
  r_failures :: nat
  r_dead :: bool

definition fresh_run :: "'v run" where
  "fresh_run = \<lparr>r_answers = [], r_attempts = 0, r_failures = 0, r_dead = False\<rparr>"

definition kept :: "'v answer \<Rightarrow> 'v run \<Rightarrow> 'v run" where
  "kept a r = r\<lparr>r_answers := r_answers r @ [a], r_attempts := 0, r_failures := 0\<rparr>"

definition started :: "'v run \<Rightarrow> 'v run" where
  "started r = r\<lparr>r_attempts := r_attempts r + 1\<rparr>"

definition given_up :: "'v run \<Rightarrow> 'v run" where
  "given_up r = r\<lparr>r_dead := True\<rparr>"

definition after_failure :: "nat \<Rightarrow> string \<Rightarrow> bool \<Rightarrow> 'v run \<Rightarrow> 'v run" where
  "after_failure retries msg retryable r =
     (if r_failures r + 1 \<le> retries \<and> r_attempts r < 10 \<and> retryable then r\<lparr>r_failures := r_failures r + 1\<rparr>
      else kept (Broken msg) r)"

lemma run_sel [simp]:
  "r_answers fresh_run = []" "r_answers (kept a r) = r_answers r @ [a]" "r_answers (started r) = r_answers r"
  "r_answers (given_up r) = r_answers r" "r_attempts fresh_run = 0" "r_attempts (started r) = r_attempts r + 1"
  "r_attempts (kept a r) = 0"
  by (simp_all add: fresh_run_def kept_def started_def given_up_def)

lemma after_failure_answers:
  "r_answers (after_failure n msg b r) = r_answers r \<or> r_answers (after_failure n msg b r) = r_answers r @ [Broken msg]"
  by (simp add: after_failure_def)

text \<open>
  One execution of the step that is due, with what the outside does as \<open>e\<close>: the result is kept, the step is
  tried again later, or the process dies (\<open>dies\<close>) and nobody keeps anything. The eleventh start gives up.
\<close>

definition advance ::
  "('q, 'v) flow \<Rightarrow> ('e \<Rightarrow> nat \<Rightarrow> 'q \<Rightarrow> 's \<Rightarrow> ('v + string \<times> bool) \<times> 's) \<Rightarrow> ('q \<Rightarrow> nat) \<Rightarrow> bool \<Rightarrow> 'e \<Rightarrow> 'v run \<times> 's \<Rightarrow> 'v run \<times> 's" where
  "advance prog exec retries dies e = (\<lambda>(r, s).
     (case resume prog (r_answers r) of
        Over err \<Rightarrow> (r, s)
      | Ask q k \<Rightarrow>
          if r_dead r then (r, s)
          else if r_attempts r \<ge> 10 then (given_up r, s)
          else let (res, t) = exec e (r_attempts r + 1) q s; r = started r in
            (if dies then (r, t)
             else case res of
               Inl v \<Rightarrow> (kept (Got v) r, t)
             | Inr (msg, retryable) \<Rightarrow> (after_failure (retries q) msg retryable r, t))))"

text \<open>The contract of a workflow's step functions: what a kept result says of the world, and that the world goes
  on saying it.\<close>

locale journaled =
  fixes prog :: "('q, 'v) flow"
    and exec :: "'e \<Rightarrow> nat \<Rightarrow> 'q \<Rightarrow> 's \<Rightarrow> ('v + string \<times> bool) \<times> 's"
    and retries :: "'q \<Rightarrow> nat"
    and legal :: "'e \<Rightarrow> bool"
    and inv :: "'s \<Rightarrow> bool"
    and reach :: "'s \<Rightarrow> 's \<Rightarrow> bool"
    and says :: "'q \<Rightarrow> 'v answer \<Rightarrow> 's \<Rightarrow> bool"
  assumes exec_reach: "legal e \<Longrightarrow> inv s \<Longrightarrow> exec e n q s = (res, t) \<Longrightarrow> reach s t"
    and exec_says: "legal e \<Longrightarrow> inv s \<Longrightarrow> exec e n q s = (Inl v, t) \<Longrightarrow> says q (Got v) t"
    and broken_says: "legal e \<Longrightarrow> inv s \<Longrightarrow> exec e n q s = (Inr (msg, again), t) \<Longrightarrow> says q (Broken msg) t"
    and reach_inv: "reach s t \<Longrightarrow> inv s \<Longrightarrow> inv t"
    and says_stays: "inv s \<Longrightarrow> reach s t \<Longrightarrow> says q a s \<Longrightarrow> says q a t"
begin

definition sound :: "'v run \<Rightarrow> 's \<Rightarrow> bool" where
  "sound r s \<longleftrightarrow> inv s \<and> (\<forall>(q, a) \<in> set (answered prog (r_answers r)). says q a s)"

lemma sound_fresh: "inv s \<Longrightarrow> sound fresh_run s"
  by (simp add: sound_def)

lemma sound_reach: "sound r s \<Longrightarrow> reach s t \<Longrightarrow> sound r t"
  unfolding sound_def using reach_inv says_stays by blast

text \<open>Executing is either nothing for the world, or one step function.\<close>

lemma advance_cases:
  assumes "advance prog exec retries dies e (r, s) = (r', t)"
  obtains (idle) "t = s" "r_answers r' = r_answers r"
    | (ran) q k res where "resume prog (r_answers r) = Ask q k" "exec e (r_attempts r + 1) q s = (res, t)"
        "r_answers r' = r_answers r \<or> (\<exists>v. res = Inl v \<and> r_answers r' = r_answers r @ [Got v]) \<or>
         (\<exists>msg b. res = Inr (msg, b) \<and> r_answers r' = r_answers r @ [Broken msg])"
proof (cases "resume prog (r_answers r)")
  case (Ask q k)
  obtain res u where ex: "exec e (r_attempts r + 1) q s = (res, u)" by fastforce
  show ?thesis
  proof (cases "r_dead r \<or> r_attempts r \<ge> 10")
    case True
    then show ?thesis using assms Ask idle by (auto simp: advance_def split: if_splits)
  next
    case False
    have "t = u \<and> (r_answers r' = r_answers r \<or> (\<exists>v. res = Inl v \<and> r_answers r' = r_answers r @ [Got v]) \<or>
         (\<exists>msg b. res = Inr (msg, b) \<and> r_answers r' = r_answers r @ [Broken msg]))"
      using assms Ask ex False after_failure_answers [where r = "started r" and n = "retries q"]
      by (auto simp: advance_def Let_def split: if_splits sum.splits)
    then show ?thesis using ran [OF Ask] ex by blast
  qed
qed (use assms idle in \<open>simp add: advance_def\<close>)

lemma advance_reach:
  assumes "legal e" "inv s" "advance prog exec retries dies e (r, s) = (r', t)" "reach s s"
  shows "reach s t"
  using assms(3)
proof (cases rule: advance_cases)
  case (ran q k res)
  then show ?thesis using exec_reach assms(1,2) by blast
qed (use assms in simp)

lemma advance_sound:
  assumes "legal e" "sound r s" "advance prog exec retries dies e (r, s) = (r', t)"
  shows "sound r' t"
  using assms(3)
proof (cases rule: advance_cases)
  case idle
  then show ?thesis using assms(2) by (simp add: sound_def)
next
  case (ran q k res)
  have inv: "inv s" using assms(2) by (simp add: sound_def)
  have t: "sound r t" using sound_reach [OF assms(2) exec_reach [OF assms(1) inv ran(2)]] .
  have snoc: "sound r' t" if "says q a t" "r_answers r' = r_answers r @ [a]" for a
    using t that answered_snoc [OF ran(1), of a] by (simp add: sound_def)
  from ran(3) show ?thesis
  proof (elim disjE exE conjE)
    assume "r_answers r' = r_answers r"
    then show ?thesis using t by (simp add: sound_def)
  next
    fix v assume "res = Inl v" "r_answers r' = r_answers r @ [Got v]"
    then show ?thesis using snoc exec_says [OF assms(1) inv] ran(2) by blast
  next
    fix msg b assume "res = Inr (msg, b)" "r_answers r' = r_answers r @ [Broken msg]"
    then show ?thesis using snoc broken_says [OF assms(1) inv] ran(2) by blast
  qed
qed

end

end
