(* ===== verification/Proactive.thy ===== *)
theory Proactive
  imports GoBase Float64
begin

text \<open>
  The shared vocabulary of \<open>pkg/proactive\<close>: the named enumerations (severity, trust, compose mode)
  with their text form, turn kinds, candidates and dispositions, the minimum of several trusts
  and the taint of a turn, which only goes down. The severities, trusts and compose modes are Go
  ints, so values outside the named range exist and are modelled. The locale \<open>enum_names\<close> is the
  contract of a name table; the three tables of the package are its interpretations.
\<close>

section \<open>Decimal numbers (strconv.Itoa)\<close>

fun nat_dec :: "nat \<Rightarrow> string" where
  "nat_dec n = (if n < 10 then [char_of (48 + n)] else nat_dec (n div 10) @ [char_of (48 + n mod 10)])"

declare nat_dec.simps [simp del]

definition itoa :: "int \<Rightarrow> string" where
  "itoa v = (if v < 0 then CHR ''-'' # nat_dec (nat (- v)) else nat_dec (nat v))"

section \<open>Named enumerations\<close>

datatype enum_error = UnknownName string string | CannotMarshal string

definition enum_name :: "string list \<Rightarrow> string \<Rightarrow> int \<Rightarrow> string" where
  "enum_name e kind v =
     (if 0 \<le> v \<and> v < int (length e) then e ! nat v else kind @ ''('' @ itoa v @ '')'')"

fun enum_index :: "string list \<Rightarrow> string \<Rightarrow> int \<Rightarrow> int option" where
  "enum_index [] t i = None"
| "enum_index (n # e) t i = (if n = t then Some i else enum_index e t (i + 1))"

definition enum_parse :: "string list \<Rightarrow> string \<Rightarrow> string \<Rightarrow> enum_error + int" where
  "enum_parse e kind txt =
     (case enum_index e (to_lower (trim_space txt)) 0 of
        Some i \<Rightarrow> Inr i
      | None \<Rightarrow> Inl (UnknownName kind txt))"

text \<open>\<open>strconv.Quote\<close> of a name: the names hold only lower-case letters and underscores, which it copies.\<close>

definition enum_marshal :: "string list \<Rightarrow> string \<Rightarrow> int \<Rightarrow> enum_error + string" where
  "enum_marshal e kind v =
     (if v < 0 \<or> int (length e) \<le> v then Inl (CannotMarshal (enum_name e kind v))
      else Inr (CHR 0x22 # e ! nat v @ [CHR 0x22]))"

definition enum_marshal_text :: "string list \<Rightarrow> string \<Rightarrow> int \<Rightarrow> enum_error + string" where
  "enum_marshal_text e kind v =
     (case enum_marshal e kind v of Inl err \<Rightarrow> Inl err | Inr b \<Rightarrow> Inr (butlast (tl b)))"

text \<open>\<open>UnmarshalText\<close> leaves the receiver unchanged on an error and sets it otherwise.\<close>

definition enum_unmarshal_text :: "string list \<Rightarrow> string \<Rightarrow> string \<Rightarrow> int \<Rightarrow> enum_error option \<times> int" where
  "enum_unmarshal_text e kind txt old =
     (case enum_parse e kind txt of Inl err \<Rightarrow> (Some err, old) | Inr v \<Rightarrow> (None, v))"

lemma enum_index_range: "enum_index e t i = Some j \<Longrightarrow> i \<le> j \<and> j < i + int (length e)"
  by (induction e arbitrary: i) (force split: if_splits)+

lemma enum_index_nth: "enum_index e t i = Some j \<Longrightarrow> e ! nat (j - i) = t"
proof (induction e arbitrary: i)
  case Nil
  then show ?case by simp
next
  case (Cons n e)
  show ?case
  proof (cases "n = t")
    case True
    with Cons.prems show ?thesis by simp
  next
    case False
    with Cons.prems have j: "enum_index e t (i + 1) = Some j" by simp
    then have "i + 1 \<le> j" by (auto dest: enum_index_range)
    then have "nat (j - i) = Suc (nat (j - (i + 1)))" by simp
    with Cons.IH [OF j] show ?thesis by simp
  qed
qed

lemma enum_index_None: "enum_index e t i = None \<longleftrightarrow> t \<notin> set e"
  by (induction e arbitrary: i) auto

lemma enum_index_distinct:
  "distinct e \<Longrightarrow> k < length e \<Longrightarrow> enum_index e (e ! k) i = Some (i + int k)"
proof (induction e arbitrary: i k)
  case Nil
  then show ?case by simp
next
  case (Cons n e)
  then show ?case by (cases k) auto
qed

section \<open>The contract of a name table\<close>

text \<open>
  Distinct, lower-case, trimmed names, none of which ends in a closing bracket: what makes the text form
  reversible and keeps the placeholder of an unknown value from ever being read as data.
\<close>

locale enum_names =
  fixes names :: "string list" and kind :: string
  assumes distinct_names: "distinct names"
    and canonical_names: "n \<in> set names \<Longrightarrow> to_lower (trim_space n) = n"
    and no_bracket: "n \<in> set names \<Longrightarrow> n \<noteq> [] \<and> last n \<noteq> CHR '')''"
begin

lemma parse_name:
  assumes "0 \<le> v" "v < int (length names)"
  shows "enum_parse names kind (enum_name names kind v) = Inr v"
proof -
  have lt: "nat v < length names" using assms by simp
  then have "to_lower (trim_space (names ! nat v)) = names ! nat v"
    by (intro canonical_names) simp
  moreover have "enum_index names (names ! nat v) 0 = Some v"
    using enum_index_distinct [OF distinct_names lt, of 0] assms(1) by simp
  ultimately show ?thesis using assms by (simp add: enum_parse_def enum_name_def)
qed

lemma name_parse:
  assumes "enum_parse names kind txt = Inr v"
  shows "0 \<le> v \<and> v < int (length names) \<and> enum_name names kind v = to_lower (trim_space txt)"
proof -
  have ix: "enum_index names (to_lower (trim_space txt)) 0 = Some v"
    using assms by (auto simp: enum_parse_def split: option.splits)
  then have "0 \<le> v" "v < int (length names)" by (auto dest: enum_index_range)
  moreover have "names ! nat v = to_lower (trim_space txt)" using enum_index_nth [OF ix] by simp
  ultimately show ?thesis by (simp add: enum_name_def)
qed

lemma trim_bracket: "\<exists>p. trim_space (kind @ ''('' @ d @ '')'') = p @ '')''"
proof -
  have rev: "rev (dropWhile is_space (kind @ ''('' @ d @ '')'')) =
      CHR '')'' # rev (dropWhile is_space (kind @ ''('' @ d))"
  proof -
    have "\<not> is_space (CHR ''('')" by (simp add: is_space_def)
    then have "dropWhile is_space (kind @ ''('' @ d @ '')'') = dropWhile is_space (kind @ ''('' @ d) @ '')''"
      by (induction kind) auto
    then show ?thesis by simp
  qed
  have "\<not> is_space (CHR '')'')" by (simp add: is_space_def)
  then show ?thesis unfolding trim_space_def rev by simp
qed

lemma parse_placeholder:
  assumes "v < 0 \<or> int (length names) \<le> v"
  shows "\<exists>err. enum_parse names kind (enum_name names kind v) = Inl err"
proof -
  obtain p where p: "trim_space (enum_name names kind v) = p @ '')''"
    using assms trim_bracket [of "itoa v"] by (auto simp: enum_name_def)
  have "lower_char (CHR '')'') = CHR '')''" by (simp add: lower_char_def)
  then have "last (to_lower (trim_space (enum_name names kind v))) = CHR '')''"
    by (simp add: p to_lower_def)
  then have "to_lower (trim_space (enum_name names kind v)) \<notin> set names"
    using no_bracket by metis
  then have "enum_index names (to_lower (trim_space (enum_name names kind v))) 0 = None"
    by (simp only: enum_index_None) simp
  then show ?thesis by (auto simp: enum_parse_def)
qed

lemma text_round_trip:
  "enum_marshal_text names kind v = Inr b \<Longrightarrow> enum_unmarshal_text names kind b old = (None, v)"
  using parse_name [of v]
  by (auto simp: enum_marshal_text_def enum_marshal_def enum_unmarshal_text_def enum_name_def
      butlast_append split: if_splits sum.splits)

end

section \<open>Severity, trust and compose mode\<close>

type_synonym severity = int
type_synonym trust = int
type_synonym compose_mode = int

definition severityNames :: "string list" where
  "severityNames = [''info'', ''notice'', ''warning'', ''critical'']"

definition trustNames :: "string list" where
  "trustNames = [''untrusted'', ''exchange'', ''system'', ''user_authored'']"

definition composeNames :: "string list" where
  "composeNames = [''template'', ''llm'']"

definition SeverityInfo :: severity where [simp]: "SeverityInfo = 0"
definition SeverityNotice :: severity where [simp]: "SeverityNotice = 1"
definition SeverityWarning :: severity where [simp]: "SeverityWarning = 2"
definition SeverityCritical :: severity where [simp]: "SeverityCritical = 3"

definition TrustUntrusted :: trust where [simp]: "TrustUntrusted = 0"
definition TrustExchange :: trust where [simp]: "TrustExchange = 1"
definition TrustSystem :: trust where [simp]: "TrustSystem = 2"
definition TrustUserAuthored :: trust where [simp]: "TrustUserAuthored = 3"

definition ComposeTemplate :: compose_mode where [simp]: "ComposeTemplate = 0"
definition ComposeLLM :: compose_mode where [simp]: "ComposeLLM = 1"

definition severity_string :: "severity \<Rightarrow> string" where
  "severity_string s = enum_name severityNames ''severity'' s"

definition ParseSeverity :: "string \<Rightarrow> enum_error + severity" where
  "ParseSeverity txt = enum_parse severityNames ''severity'' txt"

definition trust_string :: "trust \<Rightarrow> string" where
  "trust_string t = enum_name trustNames ''trust'' t"

definition ParseTrust :: "string \<Rightarrow> enum_error + trust" where
  "ParseTrust txt = enum_parse trustNames ''trust'' txt"

definition compose_string :: "compose_mode \<Rightarrow> string" where
  "compose_string c = enum_name composeNames ''compose mode'' c"

definition ParseComposeMode :: "string \<Rightarrow> enum_error + compose_mode" where
  "ParseComposeMode txt = enum_parse composeNames ''compose mode'' txt"

interpretation sev: enum_names severityNames "''severity''"
  by unfold_locales
    (auto simp: severityNames_def to_lower_def trim_space_def is_space_def lower_char_def)

interpretation tru: enum_names trustNames "''trust''"
  by unfold_locales
    (auto simp: trustNames_def to_lower_def trim_space_def is_space_def lower_char_def)

interpretation cmp: enum_names composeNames "''compose mode''"
  by unfold_locales
    (auto simp: composeNames_def to_lower_def trim_space_def is_space_def lower_char_def)

section \<open>Trust of several inputs and the taint of a turn\<close>

fun min_trust_from :: "trust \<Rightarrow> trust list \<Rightarrow> trust" where
  "min_trust_from m [] = m"
| "min_trust_from m (t # ts) = min_trust_from (if t < m then t else m) ts"

definition MinTrust :: "trust list \<Rightarrow> trust" where
  "MinTrust ts = (case ts of [] \<Rightarrow> TrustUntrusted | t # ts' \<Rightarrow> min_trust_from t ts')"

lemma Min_step:
  fixes m a :: int
  assumes "finite S"
  shows "Min (insert (if a < m then a else m) S) = Min (insert m (insert a S))"
  using assms by (cases "S = {}") (auto simp: min_def)

lemma min_trust_from_Min: "min_trust_from m ts = Min (insert m (set ts))"
  by (induction ts arbitrary: m) (simp_all add: Min_step del: Min_insert)

lemma MinTrust_Min: "ts \<noteq> [] \<Longrightarrow> MinTrust ts = Min (set ts)"
  by (cases ts) (auto simp: MinTrust_def min_trust_from_Min)

text \<open>A taint is a shared cell; a turn that lost it (\<open>nil\<close>) has \<open>None\<close>.\<close>

type_synonym taint = "trust option"

definition NewTaint :: "trust \<Rightarrow> taint" where
  "NewTaint start = Some start"

definition taint_trust :: "taint \<Rightarrow> trust" where
  "taint_trust t = (case t of None \<Rightarrow> TrustUntrusted | Some m \<Rightarrow> m)"

definition taint_lower :: "taint \<Rightarrow> trust \<Rightarrow> taint" where
  "taint_lower t to = (case t of None \<Rightarrow> None | Some m \<Rightarrow> Some (if to < m then to else m))"

lemma taint_after_lowers:
  "taint_trust (foldl taint_lower (NewTaint start) ts) = Min (insert start (set ts))"
proof -
  have "foldl taint_lower (Some m) us = Some (Min (insert m (set us)))" for m us
    by (induction us arbitrary: m) (simp_all add: taint_lower_def Min_step del: Min_insert)
  then show ?thesis by (simp add: NewTaint_def taint_trust_def)
qed

section \<open>Bidirectional control characters\<close>

definition IsBidiControl :: "nat \<Rightarrow> bool" where
  "IsBidiControl r \<longleftrightarrow> (0x202A \<le> r \<and> r \<le> 0x202E) \<or> (0x2066 \<le> r \<and> r \<le> 0x2069) \<or>
     r = 0x200E \<or> r = 0x200F \<or> r = 0x061C"

section \<open>Turn kinds, candidates, dispositions\<close>

datatype turn_kind = TurnUser | TurnProactive | TurnHeartbeatLegacy | TurnCronLegacy
  | TurnApprovalFollowUp | TurnReflection | TurnSubTurn | TurnOther string

fun turn_kind_string :: "turn_kind \<Rightarrow> string" where
  "turn_kind_string TurnUser = ''user''"
| "turn_kind_string TurnProactive = ''proactive''"
| "turn_kind_string TurnHeartbeatLegacy = ''heartbeat_legacy''"
| "turn_kind_string TurnCronLegacy = ''cron_legacy''"
| "turn_kind_string TurnApprovalFollowUp = ''approval_followup''"
| "turn_kind_string TurnReflection = ''reflection''"
| "turn_kind_string TurnSubTurn = ''subturn''"
| "turn_kind_string (TurnOther s) = s"

text \<open>The values of \<open>Evidence\<close>: only strings are ever looked at.\<close>

datatype evidence = EvString string | EvOther

record candidate =
  c_id :: string
  c_trigger_id :: string
  c_dedup_key :: string
  c_severity :: severity
  c_protective :: bool
  c_salience :: f64
  c_subject :: string
  c_title :: string
  c_detail :: string
  c_quote :: string
  c_evidence :: "string \<Rightarrow> evidence option"
  c_intent_id :: string
  c_trust :: trust
  c_compose :: compose_mode
  c_dedup_window :: duration
  c_at :: "go_time option" \<comment> \<open>None: the zero time\<close>
  c_shadow :: bool
  c_owner_requested :: bool
  c_forced_skills :: "string list"

datatype disposition = DispDrop | DispLog | DispDigest | DispNotify | DispEscalate

section \<open>Properties\<close>

text \<open>
  The text form of the three enumerations is exact in both directions: a value in range reads back as
  itself, and the placeholder of a value out of range is refused by the parser, so stored text can
  never turn into a level it did not name.
\<close>

theorem enum_text_exact:
  "(ParseSeverity (severity_string s) = Inr s \<longleftrightarrow> 0 \<le> s \<and> s \<le> 3) \<and>
   (ParseTrust (trust_string t) = Inr t \<longleftrightarrow> 0 \<le> t \<and> t \<le> 3) \<and>
   (ParseComposeMode (compose_string c) = Inr c \<longleftrightarrow> 0 \<le> c \<and> c \<le> 1)"
proof (intro conjI)
  have len: "length severityNames = 4" "length trustNames = 4" "length composeNames = 2"
    by (simp_all add: severityNames_def trustNames_def composeNames_def)
  show "ParseSeverity (severity_string s) = Inr s \<longleftrightarrow> 0 \<le> s \<and> s \<le> 3"
    using sev.parse_name [of s] sev.parse_placeholder [of s] len(1)
    by (fastforce simp: ParseSeverity_def severity_string_def)
  show "ParseTrust (trust_string t) = Inr t \<longleftrightarrow> 0 \<le> t \<and> t \<le> 3"
    using tru.parse_name [of t] tru.parse_placeholder [of t] len(2)
    by (fastforce simp: ParseTrust_def trust_string_def)
  show "ParseComposeMode (compose_string c) = Inr c \<longleftrightarrow> 0 \<le> c \<and> c \<le> 1"
    using cmp.parse_name [of c] cmp.parse_placeholder [of c] len(3)
    by (fastforce simp: ParseComposeMode_def compose_string_def)
qed

end
