(* ===== verification/BrokerConfig.thy ===== *)
theory BrokerConfig
  imports Proactive
begin

text \<open>
  The part of the configuration the money gates read (\<open>pkg/config\<close>: exchange accounts, their
  permission scopes, the trading-risk section) and the gates of \<open>pkg/providers/broker\<close> over it:
  account resolution, the permission check, the leverage and notional checks and the key of the
  daily loss guard. Credentials and connection settings are left out of the records: no gate reads
  them. The provider-specific account types embed the same account record, and only that part is
  looked at here.
\<close>

section \<open>Configuration\<close>

datatype scope = ScopeMarketData | ScopeTrade | ScopeTransfer | ScopeOther string

record exchange_account =
  ea_name :: string
  ea_permissions :: "scope list"

record exchange_config =
  xc_enabled :: bool
  xc_accounts :: "exchange_account list"

record exchanges =
  ex_binance :: exchange_config
  ex_okx :: exchange_config
  ex_bitkub :: exchange_config
  ex_binanceth :: exchange_config
  ex_settrade :: exchange_config
  ex_webull :: exchange_config

record trading_risk =
  tr_paper_trading_mode :: bool
  tr_max_order_value_usd :: f64
  tr_daily_loss_limit_usd :: f64
  tr_loss_day_timezone :: string
  tr_equity_sample_minutes :: int
  tr_allow_margin :: bool
  tr_allow_leverage :: bool
  tr_max_dca_amount_per_order_usd :: f64
  tr_max_orders_per_10min :: int
  tr_max_symbol_share_pct :: f64
  tr_symbol_allowlist :: "string list"

record config =
  cfg_exchanges :: exchanges
  cfg_risk :: trading_risk

definition HasPermission :: "exchange_account \<Rightarrow> scope \<Rightarrow> bool" where
  "HasPermission a sc \<longleftrightarrow> ea_permissions a = [] \<or> sc \<in> set (ea_permissions a)"

section \<open>Resolving an account\<close>

definition effective_name :: "nat \<Rightarrow> exchange_account \<Rightarrow> string" where
  "effective_name i a = (if ea_name a = [] then itoa (int i + 1) else ea_name a)"

fun resolve_from :: "nat \<Rightarrow> exchange_account list \<Rightarrow> string \<Rightarrow> exchange_account option" where
  "resolve_from i [] name = None"
| "resolve_from i (a # as) name =
     (let en = effective_name i a
      in if name = [] \<or> equal_fold en name
         then Some (if ea_name a = [] then a\<lparr>ea_name := en\<rparr> else a)
         else resolve_from (Suc i) as name)"

definition resolveAccount :: "exchange_account list \<Rightarrow> string \<Rightarrow> exchange_account option" where
  "resolveAccount accounts name = resolve_from 0 accounts name"

definition exchange_of :: "exchanges \<Rightarrow> string \<Rightarrow> exchange_config option" where
  "exchange_of ex p =
     (if p = ''binance'' then Some (ex_binance ex)
      else if p = ''binanceth'' then Some (ex_binanceth ex)
      else if p = ''bitkub'' then Some (ex_bitkub ex)
      else if p = ''okx'' then Some (ex_okx ex)
      else if p = ''webull'' then Some (ex_webull ex)
      else if p = ''settrade'' then Some (ex_settrade ex)
      else None)"

definition resolveExchangeAccount :: "config \<Rightarrow> string \<Rightarrow> string \<Rightarrow> exchange_account option" where
  "resolveExchangeAccount cfg provider name =
     (case exchange_of (cfg_exchanges cfg) (to_lower provider) of
        None \<Rightarrow> None
      | Some xc \<Rightarrow> resolveAccount (xc_accounts xc) name)"

definition configuredAccountCount :: "config \<Rightarrow> string \<Rightarrow> nat" where
  "configuredAccountCount cfg provider =
     (case exchange_of (cfg_exchanges cfg) (to_lower provider) of
        None \<Rightarrow> 0
      | Some xc \<Rightarrow> length (xc_accounts xc))"

definition scopeMovesFunds :: "scope \<Rightarrow> bool" where
  "scopeMovesFunds sc \<longleftrightarrow> sc = ScopeTrade \<or> sc = ScopeTransfer"

datatype perm_error = AccountNotFound string string | LacksPermission string string scope

definition CheckPermission :: "config \<Rightarrow> string \<Rightarrow> string \<Rightarrow> scope \<Rightarrow> perm_error option" where
  "CheckPermission cfg provider name sc =
     (case resolveExchangeAccount cfg provider name of
        None \<Rightarrow>
          (if scopeMovesFunds sc \<and> configuredAccountCount cfg provider > 0
           then Some (AccountNotFound provider name) else None)
      | Some acc \<Rightarrow>
          (if \<not> HasPermission acc sc then Some (LacksPermission name provider sc) else None))"

section \<open>Order-type, notional and leverage checks\<close>

datatype risk_error = MarginDisabled string | NotFinite f64 | OverCap f64 f64 | NoPrice | LeverageDisabled string

definition isMarginOrderType :: "string \<Rightarrow> bool" where
  "isMarginOrderType t \<longleftrightarrow> to_lower t \<in> {''margin'', ''margin_market'', ''margin_limit''}"

definition CheckOrderType :: "config \<Rightarrow> string \<Rightarrow> risk_error option" where
  "CheckOrderType cfg ty =
     (if \<not> tr_allow_margin (cfg_risk cfg) \<and> isMarginOrderType ty then Some (MarginDisabled ty) else None)"

definition CheckRiskNotional :: "config \<Rightarrow> f64 \<Rightarrow> risk_error option" where
  "CheckRiskNotional cfg usd =
     (if is_nan usd \<or> is_inf usd then Some (NotFinite usd)
      else let mx = tr_max_order_value_usd (cfg_risk cfg)
           in if f_lt (Fin 0) mx \<and> f_lt mx usd then Some (OverCap usd mx) else None)"

definition CheckRisk :: "config \<Rightarrow> string \<Rightarrow> string \<Rightarrow> f64 \<Rightarrow> f64 option \<Rightarrow> risk_error option" where
  "CheckRisk cfg side ty amount price =
     (case CheckOrderType cfg ty of
        Some e \<Rightarrow> Some e
      | None \<Rightarrow>
          (case price of
             None \<Rightarrow> (if f_lt (Fin 0) (tr_max_order_value_usd (cfg_risk cfg)) then Some NoPrice else None)
           | Some pr \<Rightarrow>
               (if is_nan amount \<or> is_inf amount \<or> is_nan pr \<or> is_inf pr
                then Some (NotFinite amount) else CheckRiskNotional cfg (f_mul amount pr))))"

datatype risk_direction = RiskIncrease | RiskReduce

definition CheckLeverage :: "config \<Rightarrow> string \<Rightarrow> risk_direction \<Rightarrow> risk_error option" where
  "CheckLeverage cfg action dir =
     (if dir = RiskReduce then None
      else if \<not> tr_allow_leverage (cfg_risk cfg) then Some (LeverageDisabled action) else None)"

section \<open>The loss guard's account key\<close>

definition account_refs :: "string \<Rightarrow> exchange_config \<Rightarrow> (string \<times> string) list" where
  "account_refs p xc =
     (if xc_enabled xc
      then map (\<lambda>(i, a). (p, effective_name i a)) (List.enumerate 0 (xc_accounts xc))
      else [])"

definition ListConfiguredAccounts :: "config \<Rightarrow> (string \<times> string) list" where
  "ListConfiguredAccounts cfg =
     (let ex = cfg_exchanges cfg
      in account_refs ''binance'' (ex_binance ex) @ account_refs ''binanceth'' (ex_binanceth ex) @
         account_refs ''bitkub'' (ex_bitkub ex) @ account_refs ''okx'' (ex_okx ex) @
         account_refs ''settrade'' (ex_settrade ex) @ account_refs ''webull'' (ex_webull ex))"

definition NormalizeAccountKey :: "string \<Rightarrow> string \<Rightarrow> string" where
  "NormalizeAccountKey provider acct =
     to_lower (trim_space (trim_space provider @ ''/'' @ trim_space acct))"

definition AccountKey :: "config option \<Rightarrow> string \<Rightarrow> string \<Rightarrow> string" where
  "AccountKey cfg provider acct =
     (case cfg of
        Some c \<Rightarrow>
          (if trim_space acct = []
           then (case List.find (\<lambda>(p, a). equal_fold p provider) (ListConfiguredAccounts c) of
                   Some (p, a) \<Rightarrow> NormalizeAccountKey p a
                 | None \<Rightarrow> NormalizeAccountKey provider acct)
           else NormalizeAccountKey provider acct)
      | None \<Rightarrow> NormalizeAccountKey provider acct)"

section \<open>Lemmas\<close>

lemma resolve_from_Some:
  "resolve_from i as name = Some acc \<Longrightarrow>
   \<exists>k < length as. ea_permissions acc = ea_permissions (as ! k) \<and> ea_name acc = effective_name (i + k) (as ! k)
     \<and> (name = [] \<or> equal_fold (ea_name acc) name)"
proof (induction i as name rule: resolve_from.induct)
  case (1 i name)
  then show ?case by simp
next
  case (2 i a as name)
  show ?case
  proof (cases "name = [] \<or> equal_fold (effective_name i a) name")
    case True
    with "2.prems" show ?thesis
      by (intro exI [of _ 0]) (auto simp: Let_def effective_name_def split: if_splits)
  next
    case False
    with "2.prems" have "resolve_from (Suc i) as name = Some acc" by (simp add: Let_def)
    with "2.IH" False obtain k where "k < length as"
      "ea_permissions acc = ea_permissions (as ! k)" "ea_name acc = effective_name (Suc i + k) (as ! k)"
      "name = [] \<or> equal_fold (ea_name acc) name" by auto
    then show ?thesis by (intro exI [of _ "Suc k"]) auto
  qed
qed

lemma CheckRiskNotional_None_finite: "CheckRiskNotional cfg usd = None \<Longrightarrow> f_finite usd"
  by (auto simp: CheckRiskNotional_def f_finite_def split: if_splits)

text \<open>
  The permission check fails closed for the scopes that move money: on a provider with accounts
  configured it passes exactly when the name resolves to a configured account that has the scope.
\<close>

theorem permission_fails_closed:
  assumes "scopeMovesFunds sc" "configuredAccountCount cfg provider > 0"
  shows "CheckPermission cfg provider name sc = None \<longleftrightarrow>
    (\<exists>acc. resolveExchangeAccount cfg provider name = Some acc \<and> HasPermission acc sc)"
  using assms by (auto simp: CheckPermission_def split: option.splits)

definition example_config :: config where
  "example_config =
     (let off = \<lparr>xc_enabled = False, xc_accounts = []\<rparr>
      in \<lparr>cfg_exchanges =
            \<lparr>ex_binance = \<lparr>xc_enabled = True, xc_accounts =
                [\<lparr>ea_name = [], ea_permissions = [ScopeMarketData]\<rparr>,
                 \<lparr>ea_name = ''main'', ea_permissions = [ScopeTrade]\<rparr>]\<rparr>,
             ex_okx = off, ex_bitkub = off, ex_binanceth = off, ex_settrade = off, ex_webull = off\<rparr>,
          cfg_risk =
            \<lparr>tr_paper_trading_mode = False, tr_max_order_value_usd = Fin 1000, tr_daily_loss_limit_usd = Fin 0,
             tr_loss_day_timezone = ''UTC'', tr_equity_sample_minutes = 5, tr_allow_margin = False,
             tr_allow_leverage = True, tr_max_dca_amount_per_order_usd = Fin 0, tr_max_orders_per_10min = 2, tr_max_symbol_share_pct = Fin 0,
             tr_symbol_allowlist = []\<rparr>\<rparr>)"

lemma example_binance:
  "exchange_of (cfg_exchanges example_config) (to_lower ''Binance'') =
     Some \<lparr>xc_enabled = True, xc_accounts =
       [\<lparr>ea_name = [], ea_permissions = [ScopeMarketData]\<rparr>, \<lparr>ea_name = ''main'', ea_permissions = [ScopeTrade]\<rparr>]\<rparr>"
proof -
  have "to_lower ''Binance'' = ''binance''" by code_simp
  then show ?thesis by (simp add: exchange_of_def example_config_def Let_def)
qed

theorem permission_fails_closed_witness:
  "CheckPermission example_config ''Binance'' ''main'' ScopeTrade = None \<and>
   CheckPermission example_config ''Binance'' ''1'' ScopeTrade \<noteq> None"
proof -
  have h: "scopeMovesFunds ScopeTrade" "configuredAccountCount example_config ''Binance'' > 0"
    by (simp_all add: scopeMovesFunds_def configuredAccountCount_def example_binance)
  have dig: "itoa 1 = ''1''" "itoa 2 = ''2''" by code_simp+
  have ne: "\<not> equal_fold ''1'' ''main''" by code_simp
  have "resolveExchangeAccount example_config ''Binance'' ''main'' =
      Some \<lparr>ea_name = ''main'', ea_permissions = [ScopeTrade]\<rparr>"
    by (simp add: resolveExchangeAccount_def example_binance resolveAccount_def Let_def effective_name_def
        dig ne)
  moreover have "resolveExchangeAccount example_config ''Binance'' ''1'' =
      Some \<lparr>ea_name = ''1'', ea_permissions = [ScopeMarketData]\<rparr>"
    by (simp add: resolveExchangeAccount_def example_binance resolveAccount_def Let_def effective_name_def dig)
  ultimately show ?thesis
    using permission_fails_closed [OF h, of "''main''"] permission_fails_closed [OF h, of "''1''"]
    by (simp add: HasPermission_def)
qed

end
