(* ===== verification/Policy.thy ===== *)
theory Policy
  imports BrokerConfig Windows
begin

text \<open>
  The policy engine (\<open>pkg/policy\<close>): one verdict per tool call from the gates L (ceiling and rows), K
  (kill switch), A (provenance), B (hard limits and brakes) and C (the autonomy dial), in that
  order. The only state is the list of recent placing orders; \<open>evaluate\<close> returns it with the
  verdict. What the engine is given from outside (\<open>Deps\<close>, the owner's dial) is the record \<open>deps\<close>: the
  answers those functions give during one call, \<open>None\<close> for a nil function. The reasons of a verdict
  are constructors, one per message of the code.
\<close>

section \<open>Types\<close>

type_synonym tier = int

definition T0Read :: tier where [simp]: "T0Read = 0"
definition T1Protective :: tier where [simp]: "T1Protective = 1"
definition T2Mandated :: tier where [simp]: "T2Mandated = 2"
definition T3Discretionary :: tier where [simp]: "T3Discretionary = 3"
definition T4Funds :: tier where [simp]: "T4Funds = 4"

datatype mode = ModeAct | ModeAsk | ModeNotifyOnly | ModeDeny | ModeOther string

fun Rank :: "mode \<Rightarrow> nat" where
  "Rank ModeAct = 0"
| "Rank ModeAsk = 1"
| "Rank ModeNotifyOnly = 2"
| "Rank _ = 3"

datatype tool_class = ClassUnknown | ClassRead | ClassNotify | ClassLocalState | ClassAutomation
  | ClassPropose | ClassTrade | ClassFunds | ClassSystem | ClassOther string

definition movesMoney :: "tool_class \<Rightarrow> bool" where
  "movesMoney c \<longleftrightarrow> c = ClassTrade \<or> c = ClassFunds \<or> c = ClassPropose"

datatype actor = ActorNone | ActorOwner | ActorOther

record order =
  o_symbol :: string
  o_side :: string
  o_amount :: f64
  o_price :: "f64 option"
  o_usd :: f64
  o_usd_known :: bool
  o_placing :: bool

record action_request =
  r_tool :: string
  r_class :: tool_class
  r_turn_kind :: turn_kind
  r_actor :: actor
  r_trust :: trust
  r_provider :: string
  r_account :: string
  r_order :: "order option"
  r_reduce_only :: bool
  r_protective :: bool
  r_futures :: bool
  r_is_proposal :: bool
  r_plan_id :: int

datatype column = colUser | colTrusted | colTainted

datatype fail = FLeverage | FLoss | FAllowlist | FCapUnknown | FCapExceeded | FShareUnknown
  | FShareExceeded | FRate nat | FDuplicate

datatype why = WNone | WCeiling | WRowBlocked string | WRowHold | WKill | WProvenance trust tool_class tier
  | WNoConfig | WPermission scope | WFails "fail list" | WDial tier column | WOwnerDial why string
  | WProposal why

datatype gate = GateL | GateK | GateA | GateB | GateC

record verdict =
  v_mode :: mode
  v_tier :: tier
  v_reason :: "gate \<times> why"

datatype row_result = RowPass | RowBlocked | RowHold

record deps =
  d_cfg :: "config option"
  d_killed :: "bool option"
  d_may_call :: "(string \<Rightarrow> bool) option"
  d_row :: "(string \<Rightarrow> row_result \<times> string) option"
  d_mandates :: "(action_request \<Rightarrow> string option) option"
  d_valuer :: "(action_request \<Rightarrow> f64 \<times> bool) option"
  d_exposure :: "(action_request \<Rightarrow> f64 \<Rightarrow> f64 \<times> bool) option"
  d_loss_check :: "f64 \<Rightarrow> string \<Rightarrow> bool" \<comment> \<open>True: an error\<close>
  d_now :: go_time
  d_owner_dial :: "(tier \<Rightarrow> string option) option" \<comment> \<open>inner None: a read error\<close>

record stamp =
  st_at :: go_time
  st_symbol :: string
  st_side :: string
  st_amount :: f64

definition rateWindow :: duration where "rateWindow = 10 * minute"
definition dupWindow :: duration where "dupWindow = 60 * second"
definition dupTolerance :: f64 where "dupTolerance = f_round (1 / 100)"
definition maxRecentKept :: nat where "maxRecentKept = 1024"

section \<open>The pure gates\<close>

definition tierOf :: "action_request \<Rightarrow> bool \<Rightarrow> tier" where
  "tierOf r covered =
     (case r_class r of
        ClassRead \<Rightarrow> T0Read | ClassNotify \<Rightarrow> T0Read | ClassLocalState \<Rightarrow> T0Read
      | ClassFunds \<Rightarrow> T4Funds
      | ClassTrade \<Rightarrow>
          if r_reduce_only r \<or> r_protective r then T1Protective else if covered then T2Mandated
          else T3Discretionary
      | ClassPropose \<Rightarrow>
          if r_reduce_only r \<or> r_protective r then T1Protective else if covered then T2Mandated
          else T3Discretionary
      | _ \<Rightarrow> T3Discretionary)"

definition provenance :: "action_request \<Rightarrow> tier \<Rightarrow> mode \<times> why" where
  "provenance r t =
     (if \<not> movesMoney (r_class r) \<or> r_trust r \<ge> TrustExchange then (ModeAct, WNone)
      else let w = WProvenance (r_trust r) (r_class r) t
           in if r_is_proposal r then (ModeNotifyOnly, w)
              else if t = T1Protective then (ModeAsk, w)
              else if t = T4Funds then (ModeDeny, w)
              else (ModeNotifyOnly, w))"

definition columnOf :: "action_request \<Rightarrow> column" where
  "columnOf r =
     (if r_actor r = ActorOwner \<and> r_turn_kind r = TurnUser then colUser
      else if r_actor r = ActorNone \<and> r_trust r \<ge> TrustExchange then colTrusted
      else colTainted)"

definition baseMode :: "tier \<Rightarrow> column \<Rightarrow> bool \<Rightarrow> mode" where
  "baseMode t col covered =
     (if t = T0Read \<or> col = colUser then ModeAct
      else if t = T4Funds then ModeDeny
      else if t = T1Protective then ModeAsk
      else if t = T2Mandated \<and> col = colTrusted then (if \<not> covered then ModeAsk else ModeAct)
      else if col = colTrusted then ModeAsk
      else ModeNotifyOnly)"

definition dial :: "action_request \<Rightarrow> tier \<Rightarrow> bool \<Rightarrow> mode \<times> why" where
  "dial r t covered = (let col = columnOf r in (baseMode t col covered, WDial t col))"

datatype dial_column = ColumnOwner | ColumnTrusted | ColumnOther string

fun internal :: "dial_column \<Rightarrow> column" where
  "internal ColumnOwner = colUser"
| "internal ColumnTrusted = colTrusted"
| "internal _ = colTainted"

definition DefaultMode :: "tier \<Rightarrow> dial_column \<Rightarrow> bool \<Rightarrow> mode" where
  "DefaultMode t c covered = baseMode t (internal c) covered"

definition DialMode :: "string \<Rightarrow> mode \<times> bool" where
  "DialMode setting =
     (if setting = [] \<or> setting = ''default'' then (ModeAct, True)
      else if setting = ''ask'' then (ModeAsk, True)
      else if setting = ''notify'' then (ModeNotifyOnly, True)
      else if setting = ''off'' then (ModeDeny, True)
      else (ModeDeny, False))"

definition Tighten :: "mode \<Rightarrow> mode \<Rightarrow> mode" where
  "Tighten today owner = (if Rank owner > Rank today then owner else today)"

text \<open>The owner's dial for one request: \<open>None\<close> when it is not set (the zero \<open>ownerChoice\<close>).\<close>

definition ownerChoice :: "deps \<Rightarrow> action_request \<Rightarrow> tier \<Rightarrow> (mode \<times> string) option" where
  "ownerChoice d r t =
     (case d_owner_dial d of
        None \<Rightarrow> None
      | Some f \<Rightarrow>
          if columnOf r = colUser \<or> t < T1Protective \<or> t > T3Discretionary then None
          else (case f t of
                  None \<Rightarrow> Some (ModeDeny, ''unreadable, treated as off'')
                | Some setting \<Rightarrow>
                    (let (m, ok) = DialMode setting
                     in if \<not> ok then Some (ModeDeny, ''unknown, treated as off'')
                        else if m = ModeAct then None
                        else Some (m, setting))))"

definition countsTowardBrakes :: "action_request \<Rightarrow> bool" where
  "countsTowardBrakes r \<longleftrightarrow> movesMoney (r_class r) \<and>
     (case r_order r of None \<Rightarrow> False | Some ord \<Rightarrow> o_placing ord) \<and> \<not> r_reduce_only r \<and> \<not> r_protective r"

section \<open>Gates L, K and mandate cover\<close>

definition Ceiling :: "deps \<Rightarrow> string \<Rightarrow> bool" where
  "Ceiling d tool = (case d_may_call d of None \<Rightarrow> False | Some f \<Rightarrow> f tool)"

definition killed :: "deps \<Rightarrow> bool" where
  "killed d = (case d_killed d of None \<Rightarrow> False | Some b \<Rightarrow> b)"

definition legacy :: "deps \<Rightarrow> action_request \<Rightarrow> mode \<times> why" where
  "legacy d r =
     (if \<not> Ceiling d (r_tool r) then (ModeDeny, WCeiling)
      else case d_row d of
             None \<Rightarrow> (ModeAct, WNone)
           | Some f \<Rightarrow>
               (case f (r_tool r) of
                  (RowBlocked, msg) \<Rightarrow> (ModeDeny, WRowBlocked msg)
                | (RowHold, _) \<Rightarrow> (ModeAsk, WRowHold)
                | (RowPass, _) \<Rightarrow> (ModeAct, WNone)))"

definition covered :: "deps \<Rightarrow> action_request \<Rightarrow> bool" where
  "covered d r =
     (case d_mandates d of
        None \<Rightarrow> False
      | Some f \<Rightarrow> r_class r = ClassTrade \<and> \<not> r_reduce_only r \<and> \<not> r_protective r \<and> f r \<noteq> None)"

section \<open>The memory of recent orders\<close>

definition trimLocked :: "go_time \<Rightarrow> stamp list \<Rightarrow> stamp list" where
  "trimLocked now recent = filter (\<lambda>s. now - st_at s \<le> rateWindow) recent"

definition same_order :: "stamp \<Rightarrow> order \<Rightarrow> bool" where
  "same_order s ord \<longleftrightarrow> equal_fold (st_symbol s) (o_symbol ord) \<and> equal_fold (st_side s) (o_side ord) \<and>
     f_lt (Fin 0) (st_amount s) \<and>
     f_le (f_div (f_abs (f_sub (o_amount ord) (st_amount s))) (st_amount s)) dupTolerance"

definition recentFailsLocked :: "go_time \<Rightarrow> int \<Rightarrow> order \<Rightarrow> stamp list \<Rightarrow> fail list" where
  "recentFailsLocked now limit ord recent =
     (if limit > 0 \<and> int (length recent) \<ge> limit then [FRate (length recent)] else []) @
     (if \<exists>s \<in> set recent. now - st_at s \<le> dupWindow \<and> same_order s ord then [FDuplicate] else [])"

definition recentFails :: "go_time \<Rightarrow> int \<Rightarrow> order \<Rightarrow> stamp list \<Rightarrow> fail list \<times> stamp list" where
  "recentFails now limit ord recent =
     (let recent' = trimLocked now recent in (recentFailsLocked now limit ord recent', recent'))"

definition stamp_of :: "go_time \<Rightarrow> order \<Rightarrow> stamp" where
  "stamp_of now ord =
     \<lparr>st_at = now, st_symbol = o_symbol ord, st_side = o_side ord, st_amount = o_amount ord\<rparr>"

definition push_stamp :: "stamp \<Rightarrow> stamp list \<Rightarrow> stamp list" where
  "push_stamp s recent = (if length recent \<ge> maxRecentKept then tl recent else recent) @ [s]"

definition appendLocked :: "go_time \<Rightarrow> order \<Rightarrow> stamp list \<Rightarrow> stamp list" where
  "appendLocked now ord recent = push_stamp (stamp_of now ord) recent"

definition Note :: "deps \<Rightarrow> action_request \<Rightarrow> stamp list \<Rightarrow> stamp list" where
  "Note d r recent =
     (if \<not> countsTowardBrakes r then recent
      else case r_order r of
             None \<Rightarrow> recent
           | Some ord \<Rightarrow> appendLocked (d_now d) ord (trimLocked (d_now d) recent))"

section \<open>Gate B\<close>

definition allowed :: "string list \<Rightarrow> string \<Rightarrow> bool" where
  "allowed xs symbol \<longleftrightarrow> (\<exists>s \<in> set xs. equal_fold (trim_space s) (trim_space symbol))"

definition finite_usd :: "f64 \<Rightarrow> bool" where
  "finite_usd v \<longleftrightarrow> f_le (Fin 0) v \<and> \<not> is_nan v \<and> \<not> is_inf v"

definition value_usd :: "deps \<Rightarrow> action_request \<Rightarrow> order \<Rightarrow> f64 \<times> bool" where
  "value_usd d r ord =
     (if o_usd_known ord then (o_usd ord, finite_usd (o_usd ord))
      else case d_valuer d of
             None \<Rightarrow> (Fin 0, False)
           | Some f \<Rightarrow> (let (usd, ok) = f r in (usd, ok \<and> finite_usd usd)))"

definition brakes_account :: "deps \<Rightarrow> config \<Rightarrow> action_request \<Rightarrow> fail list" where
  "brakes_account d cfg r =
     (let tr = cfg_risk cfg
      in (if r_futures r \<and> CheckLeverage cfg (r_tool r) RiskIncrease \<noteq> None then [FLeverage] else []) @
         (if r_provider r \<noteq> [] \<and> f_lt (Fin 0) (tr_daily_loss_limit_usd tr) \<and>
             (r_class r = ClassTrade \<or> r_class r = ClassPropose) \<and>
             d_loss_check d (tr_daily_loss_limit_usd tr) (AccountKey (Some cfg) (r_provider r) (r_account r))
          then [FLoss] else []))"

definition brakes_order :: "deps \<Rightarrow> config \<Rightarrow> action_request \<Rightarrow> order \<Rightarrow> fail list" where
  "brakes_order d cfg r ord =
     (let tr = cfg_risk cfg;
          capped = f_lt (Fin 0) (tr_max_order_value_usd tr);
          shared = f_lt (Fin 0) (tr_max_symbol_share_pct tr);
          (usd, known) = (if capped \<or> shared then value_usd d r ord else (Fin 0, False));
          (pct, ok) = (if known then case d_exposure d of None \<Rightarrow> (NaN, False) | Some f \<Rightarrow> f r usd
                       else (NaN, False))
      in (if tr_symbol_allowlist tr \<noteq> [] \<and> \<not> allowed (tr_symbol_allowlist tr) (o_symbol ord)
          then [FAllowlist] else []) @
         (if capped then
            if \<not> known then [FCapUnknown]
            else if CheckRiskNotional cfg usd \<noteq> None then [FCapExceeded] else []
          else []) @
         (if shared then
            if \<not> ok \<or> is_nan pct \<or> is_inf pct then [FShareUnknown]
            else if f_lt (tr_max_symbol_share_pct tr) pct then [FShareExceeded] else []
          else []))"

definition brakes :: "deps \<Rightarrow> config \<Rightarrow> action_request \<Rightarrow> bool \<Rightarrow> stamp list \<Rightarrow> fail list \<times> stamp list" where
  "brakes d cfg r live recent =
     (case r_order r of
        None \<Rightarrow> (brakes_account d cfg r, recent)
      | Some ord \<Rightarrow>
          (let fails = brakes_account d cfg r @ brakes_order d cfg r ord
           in if o_placing ord \<and> \<not> live
              then let (fs, recent') = recentFails (d_now d) (tr_max_orders_per_10min (cfg_risk cfg)) ord recent
                   in (fails @ fs, recent')
              else (fails, recent)))"

definition limits :: "deps \<Rightarrow> action_request \<Rightarrow> bool \<Rightarrow> stamp list \<Rightarrow> (mode \<times> why) \<times> stamp list" where
  "limits d r live recent =
     (if \<not> movesMoney (r_class r) then ((ModeAct, WNone), recent)
      else case d_cfg d of
             None \<Rightarrow> ((ModeDeny, WNoConfig), recent)
           | Some cfg \<Rightarrow>
               (let sc = (if r_class r = ClassFunds then ScopeTransfer else ScopeTrade)
                in if r_provider r \<noteq> [] \<and> CheckPermission cfg (r_provider r) (r_account r) sc \<noteq> None
                   then ((ModeDeny, WPermission sc), recent)
                   else if r_reduce_only r \<or> r_protective r then ((ModeAct, WNone), recent)
                   else let (fails, recent') = brakes d cfg r live recent
                        in if fails \<noteq> [] then ((ModeDeny, WFails fails), recent')
                           else ((ModeAct, WNone), recent')))"

section \<open>The decision\<close>

definition proposal :: "action_request \<Rightarrow> mode \<Rightarrow> why \<Rightarrow> mode \<times> why" where
  "proposal r m w = (if r_is_proposal r \<and> m = ModeAsk then (ModeAct, WProposal w) else (m, w))"

text \<open>Gate C with the owner's dial: \<open>final\<close> of the code.\<close>

definition gate_c :: "deps \<Rightarrow> action_request \<Rightarrow> tier \<Rightarrow> bool \<Rightarrow> mode \<times> why" where
  "gate_c d r t cov =
     (let (m, w) = dial r t cov
      in case ownerChoice d r t of
           None \<Rightarrow> proposal r m w
         | Some (om, label) \<Rightarrow> proposal r (Tighten m om) (WOwnerDial w label))"

definition evaluate :: "deps \<Rightarrow> action_request \<Rightarrow> bool \<Rightarrow> stamp list \<Rightarrow> verdict \<times> stamp list" where
  "evaluate d r live recent =
     (let cov = covered d r;
          t = tierOf r cov;
          verdictOf = (\<lambda>g (m, w). \<lparr>v_mode = m, v_tier = t, v_reason = (g, w)\<rparr>)
      in if \<not> live \<and> fst (legacy d r) \<noteq> ModeAct then (verdictOf GateL (legacy d r), recent)
         else if columnOf r \<noteq> colUser \<and> killed d \<and> movesMoney (r_class r) \<and>
                 \<not> (r_reduce_only r \<or> r_protective r)
         then (verdictOf GateK (ModeDeny, WKill), recent)
         else if fst (provenance r t) \<noteq> ModeAct then (verdictOf GateA (provenance r t), recent)
         else let (mw, recent1) = limits d r live recent
              in if fst mw \<noteq> ModeAct then (verdictOf GateB mw, recent1)
                 else if \<not> live \<or> \<not> countsTowardBrakes r
                 then (verdictOf GateC (gate_c d r t cov), recent1)
                 else case (d_cfg d, r_order r) of
                        (Some cfg, Some ord) \<Rightarrow>
                          (let now = d_now d;
                               recent2 = trimLocked now recent1;
                               fails = recentFailsLocked now (tr_max_orders_per_10min (cfg_risk cfg)) ord recent2;
                               out = gate_c d r t cov
                           in if fails \<noteq> [] then (verdictOf GateB (ModeDeny, WFails fails), recent2)
                              else (verdictOf GateC out,
                                    if fst out = ModeAct then appendLocked now ord recent2 else recent2))
                      | _ \<Rightarrow> (verdictOf GateB (ModeDeny, WNoConfig), recent1))"

definition Authorize :: "deps \<Rightarrow> action_request \<Rightarrow> stamp list \<Rightarrow> verdict \<times> stamp list" where
  "Authorize d r recent = evaluate d r False recent"

definition Enforce :: "deps \<Rightarrow> action_request \<Rightarrow> stamp list \<Rightarrow> verdict \<times> stamp list" where
  "Enforce d r recent = evaluate d r True recent"

section \<open>Lemmas: gate B in a live decision\<close>

named_theorems gate_defs \<open>the definitions of the pure gates\<close>

declare tierOf_def [gate_defs] provenance_def [gate_defs] columnOf_def [gate_defs] baseMode_def [gate_defs]
  dial_def [gate_defs] movesMoney_def [gate_defs] covered_def [gate_defs]

lemma brakes_live [simp]: "snd (brakes d cfg r True recent) = recent"
  by (auto simp: brakes_def Let_def split: option.splits)

lemma limits_live [simp]: "snd (limits d r True recent) = recent"
  by (simp add: limits_def Let_def case_prod_beta split: option.splits)

lemma trim_trim [simp]: "trimLocked now (trimLocked now recent) = trimLocked now recent"
  by (simp add: trimLocked_def)

lemma brakes_fails_live_subset:
  "fst (brakes d cfg r False recent) = [] \<Longrightarrow> fst (brakes d cfg r True recent) = []"
  by (auto simp: brakes_def Let_def case_prod_beta split: option.splits if_splits)

lemma limits_live_weaker:
  assumes "fst (fst (limits d r False recent)) = ModeAct"
  shows "fst (fst (limits d r True recent)) = ModeAct"
proof -
  have "fst (brakes d cfg r False recent) = [] \<Longrightarrow> fst (brakes d cfg r True recent) = []" for cfg
    by (rule brakes_fails_live_subset)
  then show ?thesis
    using assms
    by (auto simp: limits_def Let_def case_prod_beta split: option.splits if_splits)
qed

lemma limits_ActD:
  assumes "fst (fst (limits d r live recent)) = ModeAct" "movesMoney (r_class r)"
  obtains cfg where "d_cfg d = Some cfg"
    "r_provider r = [] \<or> CheckPermission cfg (r_provider r) (r_account r)
       (if r_class r = ClassFunds then ScopeTransfer else ScopeTrade) = None"
    "r_reduce_only r \<or> r_protective r \<or> fst (brakes d cfg r live recent) = []"
  using assms by (auto simp: limits_def Let_def case_prod_beta split: option.splits if_splits)

lemma countsTowardBrakesE:
  assumes "countsTowardBrakes r"
  obtains ord where "r_order r = Some ord" "o_placing ord" "movesMoney (r_class r)"
    "\<not> r_reduce_only r" "\<not> r_protective r"
  using assms by (auto simp: countsTowardBrakes_def split: option.splits)

section \<open>Lemmas: the shape of a live decision\<close>

lemma Enforce_early:
  assumes "\<not> (columnOf r \<noteq> colUser \<and> killed d \<and> movesMoney (r_class r) \<and> \<not> (r_reduce_only r \<or> r_protective r))"
    and "fst (provenance r (tierOf r (covered d r))) = ModeAct"
    and "fst (fst (limits d r True recent)) = ModeAct"
    and "\<not> countsTowardBrakes r"
  shows "Enforce d r recent =
    (let t = tierOf r (covered d r); (m, w) = gate_c d r t (covered d r)
     in (\<lparr>v_mode = m, v_tier = t, v_reason = (GateC, w)\<rparr>, recent))"
  using assms limits_live [of d r recent]
  by (auto simp: Enforce_def evaluate_def Let_def case_prod_beta)

text \<open>A verdict "act" of a live decision passed every gate.\<close>

lemma Enforce_ActD:
  assumes "v_mode (fst (Enforce d r recent)) = ModeAct"
  shows "columnOf r = colUser \<or> \<not> killed d \<or> \<not> movesMoney (r_class r) \<or> r_reduce_only r \<or> r_protective r"
    and "fst (provenance r (tierOf r (covered d r))) = ModeAct"
    and "fst (fst (limits d r True recent)) = ModeAct"
    and "fst (gate_c d r (tierOf r (covered d r)) (covered d r)) = ModeAct"
  using assms
  by (auto simp: Enforce_def evaluate_def Let_def case_prod_beta split: if_splits option.splits)

lemma Authorize_ActD:
  assumes "v_mode (fst (Authorize d r recent)) = ModeAct"
  shows "fst (legacy d r) = ModeAct"
    and "columnOf r = colUser \<or> \<not> killed d \<or> \<not> movesMoney (r_class r) \<or> r_reduce_only r \<or> r_protective r"
    and "fst (provenance r (tierOf r (covered d r))) = ModeAct"
    and "fst (fst (limits d r False recent)) = ModeAct"
    and "fst (gate_c d r (tierOf r (covered d r)) (covered d r)) = ModeAct"
  using assms
  by (auto simp: Authorize_def evaluate_def Let_def case_prod_beta split: if_splits option.splits)

text \<open>What a live decision does to the memory of recent orders.\<close>

lemma Enforce_counted:
  assumes "v_mode (fst (Enforce d r recent)) = ModeAct" "countsTowardBrakes r"
  obtains cfg ord where "d_cfg d = Some cfg" "r_order r = Some ord"
    "recentFailsLocked (d_now d) (tr_max_orders_per_10min (cfg_risk cfg)) ord (trimLocked (d_now d) recent) = []"
    "snd (Enforce d r recent) = push_stamp (stamp_of (d_now d) ord) (trimLocked (d_now d) recent)"
proof -
  obtain ord where ord: "r_order r = Some ord" "movesMoney (r_class r)"
    using assms(2) by (rule countsTowardBrakesE)
  obtain cfg where cfg: "d_cfg d = Some cfg"
    using limits_ActD [OF Enforce_ActD(3) [OF assms(1)] ord(2)] by blast
  have lim: "limits d r True recent = ((ModeAct, snd (fst (limits d r True recent))), recent)"
    using Enforce_ActD(3) [OF assms(1)] limits_live [of d r recent]
    by (metis prod.collapse)
  have "recentFailsLocked (d_now d) (tr_max_orders_per_10min (cfg_risk cfg)) ord (trimLocked (d_now d) recent) = [] \<and>
    snd (Enforce d r recent) = push_stamp (stamp_of (d_now d) ord) (trimLocked (d_now d) recent)"
    using assms Enforce_ActD [OF assms(1)] cfg ord lim
    by (auto simp: Enforce_def evaluate_def Let_def case_prod_beta appendLocked_def split: if_splits)
  with cfg ord that show thesis by blast
qed

lemma Enforce_not_counted:
  assumes "\<not> (v_mode (fst (Enforce d r recent)) = ModeAct \<and> countsTowardBrakes r)"
  shows "snd (Enforce d r recent) = recent \<or> snd (Enforce d r recent) = trimLocked (d_now d) recent"
  using assms limits_live [of d r recent]
  by (auto simp: Enforce_def evaluate_def Let_def case_prod_beta split: if_splits option.splits)

section \<open>The rate brake as a sliding window\<close>

text \<open>
  A run of live decisions, with the orders they let through as a ghost log. The configuration, the
  mandates, the kill switch and the dial may change between two decisions.
\<close>

fun enforce_step :: "deps \<times> action_request \<Rightarrow> stamp list \<times> (go_time \<times> order) list \<Rightarrow> stamp list \<times> (go_time \<times> order) list" where
  "enforce_step (d, r) (recent, placed) =
     (let (v, recent') = Enforce d r recent
      in (recent',
          case r_order r of
            Some ord \<Rightarrow> if v_mode v = ModeAct \<and> countsTowardBrakes r then placed @ [(d_now d, ord)] else placed
          | None \<Rightarrow> placed))"

definition enforce_run :: "(deps \<times> action_request) list \<Rightarrow> stamp list \<times> (go_time \<times> order) list" where
  "enforce_run es = fold enforce_step es ([], [])"

definition order_fresh :: "go_time \<Rightarrow> stamp \<Rightarrow> bool" where
  "order_fresh now s \<longleftrightarrow> now - st_at s \<le> rateWindow"

definition stamps_of :: "(go_time \<times> order) list \<Rightarrow> stamp list" where
  "stamps_of placed = map (\<lambda>(t, ord). stamp_of t ord) placed"

text \<open>Every decision of the run sees the same positive rate limit.\<close>

definition rate_limited :: "int \<Rightarrow> (deps \<times> action_request) list \<Rightarrow> bool" where
  "rate_limited n es \<longleftrightarrow> (\<forall>(d, r) \<in> set es.
     case d_cfg d of None \<Rightarrow> True | Some cfg \<Rightarrow> tr_max_orders_per_10min (cfg_risk cfg) = n)"

definition clock_of :: "deps \<times> action_request \<Rightarrow> go_time" where
  "clock_of e = d_now (fst e)"

interpretation orders: sliding_window st_at order_fresh trimLocked push_stamp "min n maxRecentKept"
  for n :: nat
proof
  show "trimLocked now es = filter (order_fresh now) es" for now es
    by (simp add: trimLocked_def order_fresh_def [abs_def])
  show "order_fresh t' e \<Longrightarrow> t \<le> t' \<Longrightarrow> order_fresh t e" for t t' e
    by (simp add: order_fresh_def)
  show "length es < min n maxRecentKept \<Longrightarrow> push_stamp e es = es @ [e]" for es e
    by (simp add: push_stamp_def)
qed

definition no_duplicates :: "(go_time \<times> order) list \<Rightarrow> bool" where
  "no_duplicates placed \<longleftrightarrow>
     sorted_wrt (\<lambda>(t1, o1) (t2, o2). \<not> (t2 - t1 \<le> dupWindow \<and> same_order (stamp_of t1 o1) o2)) placed"

definition run_ok :: "nat \<Rightarrow> go_time \<Rightarrow> stamp list \<times> (go_time \<times> order) list \<Rightarrow> bool" where
  "run_ok n t st \<longleftrightarrow> orders.agrees n t (fst st, stamps_of (snd st)) \<and> no_duplicates (snd st)"

lemma order_fresh_of_dup: "now - st_at s \<le> dupWindow \<Longrightarrow> order_fresh now s"
  by (simp add: order_fresh_def dupWindow_def rateWindow_def)

lemma run_ok_step:
  assumes ok: "run_ok (nat n) t st" and t: "t \<le> d_now d"
    and lim: "rate_limited n [(d, r)]" and n: "0 < n" "n \<le> int maxRecentKept"
  shows "run_ok (nat n) (d_now d) (enforce_step (d, r) st)"
proof -
  obtain recent placed where st: "st = (recent, placed)" by (cases st)
  let ?now = "d_now d" and ?E = "Enforce d r recent"
  have ag: "orders.agrees (nat n) t (recent, stamps_of placed)" and nd: "no_duplicates placed"
    using ok st by (simp_all add: run_ok_def)
  have trim: "orders.agrees (nat n) ?now (trimLocked ?now recent, stamps_of placed)"
    "trimLocked ?now recent = filter (order_fresh ?now) (stamps_of placed)"
    using orders.agrees_trim [OF orders.agrees_later [OF ag t]] by auto
  show ?thesis
  proof (cases "v_mode (fst ?E) = ModeAct \<and> countsTowardBrakes r")
    case False
    then have "enforce_step (d, r) st = (snd ?E, placed)"
      by (auto simp: st case_prod_beta split: option.splits)
    with Enforce_not_counted [OF False] trim(1) orders.agrees_later [OF ag t] nd show ?thesis
      by (auto simp: run_ok_def)
  next
    case True
    then obtain cfg ord where c: "d_cfg d = Some cfg" "r_order r = Some ord"
      "recentFailsLocked ?now (tr_max_orders_per_10min (cfg_risk cfg)) ord (trimLocked ?now recent) = []"
      "snd ?E = push_stamp (stamp_of ?now ord) (trimLocked ?now recent)"
      using Enforce_counted by metis
    have step: "enforce_step (d, r) st = (push_stamp (stamp_of ?now ord) (trimLocked ?now recent), placed @ [(?now, ord)])"
      using True c by (simp add: st case_prod_beta)
    have n_eq: "tr_max_orders_per_10min (cfg_risk cfg) = n"
      using lim c(1) by (simp add: rate_limited_def)
    have len: "length (trimLocked ?now recent) < min (nat n) maxRecentKept"
      using c(3) n n_eq by (auto simp: recentFailsLocked_def split: if_splits)
    have at: "st_at (stamp_of ?now ord) = ?now" by (simp add: stamp_of_def)
    have "orders.agrees (nat n) ?now
        (push_stamp (stamp_of ?now ord) (trimLocked ?now recent), stamps_of (placed @ [(?now, ord)]))"
      using orders.agrees_admit_one [OF ag, of "stamp_of ?now ord"] t len
      by (simp add: at Let_def stamps_of_def)
    moreover have "\<not> (?now - t1 \<le> dupWindow \<and> same_order (stamp_of t1 o1) ord)"
      if "(t1, o1) \<in> set placed" for t1 o1
    proof
      assume h: "?now - t1 \<le> dupWindow \<and> same_order (stamp_of t1 o1) ord"
      have at1: "st_at (stamp_of t1 o1) = t1" by (simp add: stamp_of_def)
      have "stamp_of t1 o1 \<in> set (trimLocked ?now recent)"
        unfolding trim(2) using that h order_fresh_of_dup [of ?now "stamp_of t1 o1"] at1
        by (force simp: stamps_of_def)
      with c(3) h at1 show False by (auto simp: recentFailsLocked_def split: if_splits)
    qed
    then have "no_duplicates (placed @ [(?now, ord)])"
      using nd by (auto simp: no_duplicates_def sorted_wrt_append)
    ultimately show ?thesis by (simp add: step run_ok_def)
  qed
qed

lemma run_ok_fold:
  assumes "run_ok (nat n) t st" "sorted (map clock_of es)" "\<forall>e \<in> set es. t \<le> clock_of e"
    "rate_limited n es" "0 < n" "n \<le> int maxRecentKept"
  shows "\<exists>t'. t \<le> t' \<and> (es \<noteq> [] \<longrightarrow> t' = clock_of (last es)) \<and> run_ok (nat n) t' (fold enforce_step es st)"
  using assms
proof (induction es arbitrary: t st)
  case Nil
  then show ?case by auto
next
  case (Cons e es)
  obtain d r where e: "e = (d, r)" by (cases e)
  have one: "run_ok (nat n) (clock_of e) (enforce_step e st)"
    using Cons.prems by (auto simp: e clock_of_def rate_limited_def intro!: run_ok_step)
  have "\<exists>t'. clock_of e \<le> t' \<and> (es \<noteq> [] \<longrightarrow> t' = clock_of (last es)) \<and>
      run_ok (nat n) t' (fold enforce_step es (enforce_step e st))"
    using Cons.prems by (intro Cons.IH [OF one]) (auto simp: rate_limited_def)
  with Cons.prems(3) one show ?case by (cases "es = []") (auto intro: order_trans)
qed

lemma enforce_run_ok:
  assumes "sorted (map clock_of es)" "es \<noteq> []" "rate_limited n es" "0 < n" "n \<le> int maxRecentKept"
  shows "run_ok (nat n) (clock_of (last es)) (enforce_run es)"
proof -
  have start: "run_ok (nat n) (clock_of (hd es)) ([], [])"
    using orders.agrees_empty by (simp add: run_ok_def stamps_of_def no_duplicates_def)
  have "\<forall>e \<in> set es. clock_of (hd es) \<le> clock_of e"
    using assms(1,2) by (cases es) auto
  then show ?thesis
    using run_ok_fold [OF start assms(1) _ assms(3-5)] assms(2) by (auto simp: enforce_run_def)
qed

section \<open>Properties\<close>

text \<open>
  C1. The rate brake holds in every run of live decisions. With \<open>max_orders_per_10min\<close> at \<open>n\<close> (and \<open>n\<close> no
  more than the 1024 orders the engine remembers), at no later moment do more than \<open>n\<close> of the
  risk-increasing orders the engine let through lie in the last ten minutes.
\<close>

theorem order_rate_bounded:
  assumes "sorted (map clock_of es)" "rate_limited n es" "0 < n" "n \<le> int maxRecentKept"
    and "\<forall>e \<in> set es. clock_of e \<le> now"
  shows "int (length (filter (\<lambda>(t, _). now - t \<le> rateWindow) (snd (enforce_run es)))) \<le> n"
proof (cases "es = []")
  case True
  with assms(3) show ?thesis by (simp add: enforce_run_def)
next
  case False
  let ?placed = "snd (enforce_run es)"
  have "orders.agrees (nat n) (clock_of (last es)) (fst (enforce_run es), stamps_of ?placed)"
    using enforce_run_ok [OF assms(1) False assms(2-4)] by (simp add: run_ok_def)
  then have "orders.agrees (nat n) now (fst (enforce_run es), stamps_of ?placed)"
    by (rule orders.agrees_later) (use assms(5) False in auto)
  then have "length (filter (order_fresh now) (stamps_of ?placed)) \<le> nat n"
    by (simp add: orders.agrees_def)
  moreover have "length (filter (order_fresh now) (stamps_of ps)) =
      length (filter (\<lambda>(t, _). now - t \<le> rateWindow) ps)" for ps
    by (induction ps) (auto simp: stamps_of_def stamp_of_def order_fresh_def)
  ultimately show ?thesis using assms(3) by simp
qed


text \<open>
  C3. With the kill switch engaged, no turn but the owner's own can place a risk-increasing money action:
  the live decision is a denial at gate K that leaves the engine's memory alone, and the shadow
  decision is never "act".
\<close>

theorem kill_switch_denies:
  assumes "d_killed d = Some True" "columnOf r \<noteq> colUser" "movesMoney (r_class r)"
    "\<not> r_reduce_only r" "\<not> r_protective r"
  shows "v_mode (fst (Enforce d r recent)) = ModeDeny \<and> fst (v_reason (fst (Enforce d r recent))) = GateK \<and>
    snd (Enforce d r recent) = recent \<and> v_mode (fst (Authorize d r recent)) \<noteq> ModeAct"
proof -
  have "killed d" using assms(1) by (simp add: killed_def)
  with assms(2-5) show ?thesis
    using Authorize_ActD(2) [of d r recent] by (auto simp: Enforce_def evaluate_def Let_def)
qed

text \<open>
  An action that moves money on the strength of inputs below exchange trust is never let through, not even on
  the owner's own turn; a proposal built on such inputs is at most mentioned, and moving funds is denied.
\<close>

theorem tainted_turn_never_acts:
  assumes "movesMoney (r_class r)" "r_trust r < TrustExchange"
  shows "v_mode (fst (Enforce d r recent)) \<noteq> ModeAct \<and> v_mode (fst (Authorize d r recent)) \<noteq> ModeAct \<and>
    (r_is_proposal r \<longrightarrow> Rank (v_mode (fst (Enforce d r recent))) \<ge> Rank ModeNotifyOnly) \<and>
    (r_class r = ClassFunds \<and> \<not> r_is_proposal r \<longrightarrow> v_mode (fst (Enforce d r recent)) = ModeDeny)"
proof -
  let ?t = "tierOf r (covered d r)"
  have A: "fst (provenance r ?t) \<noteq> ModeAct" using assms by (simp add: provenance_def Let_def)
  have P: "r_is_proposal r \<Longrightarrow> fst (provenance r ?t) = ModeNotifyOnly"
    using assms by (simp add: provenance_def Let_def)
  have F: "r_class r = ClassFunds \<Longrightarrow> \<not> r_is_proposal r \<Longrightarrow> fst (provenance r ?t) = ModeDeny"
    using assms by (simp add: provenance_def tierOf_def Let_def)
  have E: "v_mode (fst (Enforce d r recent)) = ModeDeny \<or>
      v_mode (fst (Enforce d r recent)) = fst (provenance r ?t)"
    using A by (auto simp: Enforce_def evaluate_def Let_def case_prod_beta)
  with A P F show ?thesis
    using Enforce_ActD(2) [of d r recent] Authorize_ActD(3) [of d r recent] by auto
qed

text \<open>
  Only the owner's own turn moves funds: on any other turn a funds action is denied outright (a proposal of
  one is at most mentioned), whatever the mandates, the dial and the configuration say.
\<close>

theorem autonomous_never_moves_funds:
  assumes "r_class r = ClassFunds" "columnOf r \<noteq> colUser"
  shows "Rank (v_mode (fst (Enforce d r recent))) \<ge> Rank ModeNotifyOnly \<and>
    v_mode (fst (Authorize d r recent)) \<noteq> ModeAct \<and>
    (\<not> r_is_proposal r \<longrightarrow> v_mode (fst (Enforce d r recent)) = ModeDeny)"
proof -
  have t: "tierOf r (covered d r) = T4Funds" using assms(1) by (simp add: tierOf_def)
  have C: "fst (gate_c d r T4Funds (covered d r)) = ModeDeny"
    using assms(2) by (simp add: gate_c_def dial_def baseMode_def ownerChoice_def proposal_def Let_def
        split: option.splits)
  have L: "fst (fst (limits d r True recent)) \<in> {ModeAct, ModeDeny}"
    by (simp add: limits_def Let_def case_prod_beta split: option.splits)
  have A: "fst (provenance r T4Funds) \<in> {ModeAct, ModeDeny, ModeNotifyOnly}"
    "\<not> r_is_proposal r \<Longrightarrow> fst (provenance r T4Funds) \<in> {ModeAct, ModeDeny}"
    by (simp_all add: provenance_def Let_def)
  have E: "v_mode (fst (Enforce d r recent)) \<in>
      {ModeDeny, fst (provenance r T4Funds), fst (fst (limits d r True recent))} - {ModeAct}"
    using t C by (auto simp: Enforce_def evaluate_def Let_def case_prod_beta split: option.splits)
  then have "v_mode (fst (Enforce d r recent)) \<in> {ModeDeny, ModeNotifyOnly}"
    "\<not> r_is_proposal r \<Longrightarrow> v_mode (fst (Enforce d r recent)) = ModeDeny"
    using A L by auto
  then show ?thesis using Authorize_ActD(5) [of d r recent] t C by auto
qed

text \<open>
  C4. What the assistant trades on its own: a live "act" for a risk-increasing trade that is not a proposal, on a
  turn that is not the owner's, needs an active mandate that covers it, inputs of exchange trust or
  better, nobody else behind the turn, a disengaged kill switch, an owner's dial that asks for no more,
  a configured account with the trade permission, and every brake of gate B open.
\<close>

theorem autonomous_trade_needs_mandate:
  assumes "v_mode (fst (Enforce d r recent)) = ModeAct" "r_class r = ClassTrade" "columnOf r \<noteq> colUser"
    "\<not> r_reduce_only r" "\<not> r_protective r" "\<not> r_is_proposal r"
  shows "(\<exists>f. d_mandates d = Some f \<and> f r \<noteq> None) \<and> r_trust r \<ge> TrustExchange \<and> r_actor r = ActorNone \<and>
    \<not> killed d \<and> ownerChoice d r T2Mandated = None \<and>
    (\<exists>cfg. d_cfg d = Some cfg \<and> fst (brakes d cfg r True recent) = [] \<and>
       (r_provider r = [] \<or> CheckPermission cfg (r_provider r) (r_account r) ScopeTrade = None))"
proof -
  let ?cov = "covered d r" and ?t = "tierOf r (covered d r)"
  have gc: "fst (gate_c d r ?t ?cov) = ModeAct" by (rule Enforce_ActD(4) [OF assms(1)])
  have oc: "ownerChoice d r t = Some (m, l) \<Longrightarrow> 0 < Rank m" for t m l
    by (auto simp: ownerChoice_def DialMode_def Let_def split: option.splits if_splits)
  have "fst (gate_c d r ?t ?cov) = (case ownerChoice d r ?t of None \<Rightarrow> fst (dial r ?t ?cov)
      | Some (m, l) \<Rightarrow> Tighten (fst (dial r ?t ?cov)) m)"
    using assms(6) by (simp add: gate_c_def proposal_def case_prod_beta split: option.splits)
  with gc have dial: "fst (dial r ?t ?cov) = ModeAct" and own: "ownerChoice d r ?t = None"
    using oc by (force simp: Tighten_def split: option.splits if_splits)+
  have t: "?t = (if ?cov then T2Mandated else T3Discretionary)"
    using assms(2,4,5) by (simp add: tierOf_def)
  have cov: "?cov" and col: "columnOf r = colTrusted"
    using dial assms(3) t by (auto simp: dial_def baseMode_def Let_def split: if_splits)
  have mm: "movesMoney (r_class r)" using assms(2) by (simp add: movesMoney_def)
  obtain cfg where "d_cfg d = Some cfg" "fst (brakes d cfg r True recent) = []"
    "r_provider r = [] \<or> CheckPermission cfg (r_provider r) (r_account r) ScopeTrade = None"
    using limits_ActD [OF Enforce_ActD(3) [OF assms(1)] mm] assms(2,4,5) by auto
  moreover have "\<exists>f. d_mandates d = Some f \<and> f r \<noteq> None"
    using cov by (auto simp: covered_def split: option.splits)
  moreover have "r_trust r \<ge> TrustExchange" "r_actor r = ActorNone"
    using col by (auto simp: columnOf_def split: if_splits)
  moreover have "\<not> killed d" using Enforce_ActD(1) [OF assms(1)] mm assms(3-5) by blast
  ultimately show ?thesis using own cov t by simp
qed

text \<open>
  C6. A safety brake never blocks an exit. A reduce-only or protective money action with inputs of exchange
  trust, a configuration and the account's permission reaches gate C in a live decision whatever the
  kill switch, the loss guard, the caps and the recent orders are; on the owner's own turn it acts.
\<close>

theorem exits_are_never_braked:
  assumes "r_reduce_only r \<or> r_protective r" "movesMoney (r_class r)" "r_trust r \<ge> TrustExchange"
    and "d_cfg d = Some cfg"
    and "r_provider r = [] \<or> CheckPermission cfg (r_provider r) (r_account r)
       (if r_class r = ClassFunds then ScopeTransfer else ScopeTrade) = None"
  shows "v_mode (fst (Enforce d r recent)) = fst (gate_c d r (tierOf r (covered d r)) (covered d r)) \<and>
    snd (Enforce d r recent) = recent \<and>
    (columnOf r = colUser \<longrightarrow> v_mode (fst (Enforce d r recent)) = ModeAct)"
proof -
  have L: "fst (fst (limits d r True recent)) = ModeAct"
    using assms by (auto simp: limits_def Let_def)
  have A: "fst (provenance r (tierOf r (covered d r))) = ModeAct"
    using assms(3) by (simp add: provenance_def)
  have "\<not> countsTowardBrakes r" using assms(1) by (auto simp: countsTowardBrakes_def)
  then have E: "v_mode (fst (Enforce d r recent)) = fst (gate_c d r (tierOf r (covered d r)) (covered d r))"
    "snd (Enforce d r recent) = recent"
    using Enforce_early [OF _ A L] assms(1) by (auto simp: Let_def case_prod_beta)
  moreover have "columnOf r = colUser \<Longrightarrow> fst (gate_c d r t c) = ModeAct" for t c
    by (simp add: gate_c_def dial_def baseMode_def ownerChoice_def proposal_def Let_def split: option.splits)
  ultimately show ?thesis by simp
qed

text \<open>
  C5. The engine is never looser than the checks it runs beside. What the shadow decision lets through, today's
  ceiling and policy rows let through as well; and on the same memory of recent orders the live
  decision, which leaves those out, lets it through too.
\<close>

theorem shadow_never_looser:
  assumes "v_mode (fst (Authorize d r recent)) = ModeAct"
  shows "Ceiling d (r_tool r) \<and>
    (case d_row d of None \<Rightarrow> True | Some f \<Rightarrow> fst (f (r_tool r)) = RowPass) \<and>
    v_mode (fst (Enforce d r recent)) = ModeAct"
proof (intro conjI)
  note A = Authorize_ActD [OF assms]
  show "Ceiling d (r_tool r)" using A(1) by (auto simp: legacy_def split: if_splits)
  show "case d_row d of None \<Rightarrow> True | Some f \<Rightarrow> fst (f (r_tool r)) = RowPass"
    using A(1) by (auto simp: legacy_def split: if_splits option.splits prod.splits row_result.splits)
  have L: "fst (fst (limits d r True recent)) = ModeAct" by (rule limits_live_weaker [OF A(4)])
  show "v_mode (fst (Enforce d r recent)) = ModeAct"
  proof (cases "countsTowardBrakes r")
    case False
    then show ?thesis using A(2,3,5) L Enforce_early [OF _ A(3) L False]
      by (auto simp: Let_def case_prod_beta)
  next
    case True
    then obtain ord where ord: "r_order r = Some ord" "o_placing ord" "movesMoney (r_class r)"
      "\<not> r_reduce_only r" "\<not> r_protective r" by (rule countsTowardBrakesE)
    then obtain cfg where cfg: "d_cfg d = Some cfg" "fst (brakes d cfg r False recent) = []"
      using limits_ActD [OF A(4)] by metis
    then have "recentFailsLocked (d_now d) (tr_max_orders_per_10min (cfg_risk cfg)) ord
        (trimLocked (d_now d) recent) = []"
      using ord by (simp add: brakes_def Let_def recentFails_def)
    moreover obtain w where "limits d r True recent = ((ModeAct, w), recent)"
      using L limits_live [of d r recent] by (metis prod.collapse)
    ultimately show ?thesis
      using A(2,3,5) cfg ord True by (auto simp: Enforce_def evaluate_def Let_def case_prod_beta)
  qed
qed

text \<open>
  The owner's dial is tighten-only: with any dial, readable or not, a decision is at least as restrictive
  as with none; on the owner's own turn the dial changes nothing.
\<close>

theorem dial_is_tighten_only:
  "Rank (v_mode (fst (evaluate (d\<lparr>d_owner_dial := None\<rparr>) r live recent)))
     \<le> Rank (v_mode (fst (evaluate d r live recent))) \<and>
   (columnOf r = colUser \<longrightarrow> evaluate (d\<lparr>d_owner_dial := None\<rparr>) r live recent = evaluate d r live recent)"
proof -
  let ?d = "d\<lparr>d_owner_dial := None\<rparr>"
  have vu: "value_usd ?d = value_usd d" and ex: "d_exposure ?d = d_exposure d"
    by (simp_all add: fun_eq_iff value_usd_def)
  have "brakes_order ?d = brakes_order d" unfolding fun_eq_iff brakes_order_def vu ex by simp
  moreover have "brakes_account ?d = brakes_account d"
    by (simp add: fun_eq_iff brakes_account_def Let_def)
  ultimately have brk: "brakes ?d = brakes d"
    by (simp add: fun_eq_iff brakes_def Let_def case_prod_beta split: option.split)
  have same: "covered ?d = covered d" "legacy ?d = legacy d" "killed ?d = killed d" "limits ?d = limits d"
    by (simp_all add: fun_eq_iff covered_def legacy_def Ceiling_def killed_def limits_def brk split: option.split)
  have none: "ownerChoice ?d r t = None" for t by (simp add: ownerChoice_def)
  have mono: "Rank (fst (proposal r m w)) \<le> Rank (fst (proposal r (Tighten m m') w'))" for m m' w w'
    by (auto simp: proposal_def Tighten_def)
  have C: "Rank (fst (gate_c ?d r t c)) \<le> Rank (fst (gate_c d r t c))" for t c
    using mono by (simp add: gate_c_def none case_prod_beta split: option.splits)
  have own: "columnOf r = colUser \<Longrightarrow> gate_c ?d r t c = gate_c d r t c" for t c
    by (simp add: gate_c_def none ownerChoice_def split: option.splits)
  show ?thesis using C own by (simp add: evaluate_def same Let_def case_prod_beta split: option.splits)
qed

section \<open>Witnesses\<close>

definition example_order :: "string \<Rightarrow> order" where
  "example_order s =
     \<lparr>o_symbol = s, o_side = ''buy'', o_amount = Fin 1, o_price = None, o_usd = Fin 100, o_usd_known = True,
      o_placing = True\<rparr>"

definition example_request :: "tool_class \<Rightarrow> actor \<Rightarrow> trust \<Rightarrow> string \<Rightarrow> action_request" where
  "example_request c a tr s =
     \<lparr>r_tool = ''create_order'', r_class = c, r_turn_kind = TurnUser, r_actor = a, r_trust = tr,
      r_provider = [], r_account = [], r_order = Some (example_order s), r_reduce_only = False,
      r_protective = False, r_futures = False, r_is_proposal = False, r_plan_id = 0\<rparr>"

definition example_deps :: "go_time \<Rightarrow> deps" where
  "example_deps t =
     \<lparr>d_cfg = Some example_config, d_killed = Some False, d_may_call = Some (\<lambda>_. True), d_row = None,
      d_mandates = Some (\<lambda>_. Some ''m1''), d_valuer = None, d_exposure = None,
      d_loss_check = (\<lambda>_ _. False), d_now = t, d_owner_dial = None\<rparr>"

lemmas example_defs = example_deps_def example_request_def example_order_def example_config_def

definition example_events :: "(deps \<times> action_request) list" where
  "example_events =
     [(example_deps 0, example_request ClassTrade ActorOwner TrustUserAuthored ''BTC/USDT''),
      (example_deps (30 * second), example_request ClassTrade ActorOwner TrustUserAuthored ''ETH/USDT''),
      (example_deps (45 * second), example_request ClassTrade ActorOwner TrustUserAuthored ''BTC/USDT'')]"

lemma example_events_ok:
  "sorted (map clock_of example_events)" "rate_limited 2 example_events"
  by (simp_all add: example_events_def clock_of_def rate_limited_def example_deps_def example_config_def Let_def)

lemma example_run:
  "enforce_run example_events =
     ([stamp_of 0 (example_order ''BTC/USDT''), stamp_of (30 * second) (example_order ''ETH/USDT'')],
      [(0, example_order ''BTC/USDT''), (30 * second, example_order ''ETH/USDT'')])"
  by code_simp

theorem order_rate_bounded_witness:
  "int (length (filter (\<lambda>(t, _). 100 * second - t \<le> rateWindow) (snd (enforce_run example_events)))) \<le> 2 \<and>
   length (snd (enforce_run example_events)) = 2"
  using order_rate_bounded [OF example_events_ok, of "100 * second"] example_run
  by (simp add: maxRecentKept_def example_events_def clock_of_def example_deps_def)


theorem kill_switch_denies_witness:
  "v_mode (fst (Enforce ((example_deps 0)\<lparr>d_killed := Some True\<rparr>)
     (example_request ClassTrade ActorNone TrustSystem ''BTC/USDT'') [])) = ModeDeny"
  using kill_switch_denies [of "(example_deps 0)\<lparr>d_killed := Some True\<rparr>"
      "example_request ClassTrade ActorNone TrustSystem ''BTC/USDT''" "[]"]
  by (simp add: example_request_def columnOf_def movesMoney_def)

theorem tainted_turn_never_acts_witness:
  "v_mode (fst (Enforce (example_deps 0) (example_request ClassFunds ActorOwner TrustUntrusted ''BTC/USDT'') [])) = ModeDeny"
  using tainted_turn_never_acts [of "example_request ClassFunds ActorOwner TrustUntrusted ''BTC/USDT''" "example_deps 0" "[]"]
  by (simp add: example_request_def movesMoney_def)

theorem autonomous_never_moves_funds_witness:
  "v_mode (fst (Enforce (example_deps 0) (example_request ClassFunds ActorNone TrustSystem ''BTC/USDT'') [])) = ModeDeny"
  using autonomous_never_moves_funds [of "example_request ClassFunds ActorNone TrustSystem ''BTC/USDT''" "example_deps 0" "[]"]
  by (simp add: example_request_def columnOf_def)

theorem autonomous_trade_needs_mandate_witness:
  "\<exists>f. d_mandates (example_deps 0) = Some f \<and> f (example_request ClassTrade ActorNone TrustSystem ''BTC/USDT'') \<noteq> None"
proof -
  have "v_mode (fst (Enforce (example_deps 0) (example_request ClassTrade ActorNone TrustSystem ''BTC/USDT'') [])) = ModeAct"
    by code_simp
  from autonomous_trade_needs_mandate [OF this] show ?thesis
    by (simp add: example_request_def columnOf_def)
qed

theorem exits_are_never_braked_witness:
  "v_mode (fst (Enforce ((example_deps 0)\<lparr>d_killed := Some True\<rparr>)
     ((example_request ClassTrade ActorOwner TrustSystem ''BTC/USDT'')\<lparr>r_protective := True\<rparr>) [])) = ModeAct"
  by (rule exits_are_never_braked [where cfg = example_config, THEN conjunct2, THEN conjunct2, rule_format])
    (simp_all add: example_request_def example_deps_def columnOf_def movesMoney_def)

theorem shadow_never_looser_witness:
  "v_mode (fst (Enforce (example_deps 0) (example_request ClassTrade ActorOwner TrustSystem ''BTC/USDT'') [])) = ModeAct"
proof -
  have "v_mode (fst (Authorize (example_deps 0) (example_request ClassTrade ActorOwner TrustSystem ''BTC/USDT'') [])) = ModeAct"
    by code_simp
  from shadow_never_looser [OF this] show ?thesis by simp
qed

theorem dial_is_tighten_only_witness:
  "evaluate (example_deps 0) (example_request ClassTrade ActorOwner TrustSystem ''BTC/USDT'') True [] =
   evaluate ((example_deps 0)\<lparr>d_owner_dial := Some (\<lambda>_. Some ''off'')\<rparr>)
     (example_request ClassTrade ActorOwner TrustSystem ''BTC/USDT'') True []"
  using dial_is_tighten_only [of "(example_deps 0)\<lparr>d_owner_dial := Some (\<lambda>_. Some ''off'')\<rparr>"
      "example_request ClassTrade ActorOwner TrustSystem ''BTC/USDT''" True "[]"]
  by (simp add: columnOf_def example_request_def example_deps_def)

end
