(* ===== verification/Journal.thy ===== *)
theory Journal
  imports Proactive
begin

text \<open>
  The store of the durable workflow journal (\<open>pkg/journal/store.go\<close>): the two tables as lists of rows
  and one function per statement group of the code, each a transaction that returns the new database
  or an error and then leaves the database alone. Every write of a runner goes through \<open>fenced\<close>. An
  error is one the statements themselves can give (a lost lease, a missing row, a violated key);
  failures of the disk are not modelled. \<open>jop\<close> and \<open>run_ops\<close> are the histories the store can have;
  the lemmas show the invariant of the tables, that epochs only grow and that a finished workflow
  stays as it is.
\<close>

section \<open>Rows\<close>

datatype wf_status = WfPending | WfRunning | WfWaiting | WfSucceeded | WfFailed | WfCancelled

definition Terminal :: "wf_status \<Rightarrow> bool" where
  "Terminal s \<longleftrightarrow> s = WfSucceeded \<or> s = WfFailed \<or> s = WfCancelled"

record wf_row =
  w_id :: string
  w_kind :: string
  w_input :: string
  w_status :: wf_status
  w_protective :: bool
  w_wake :: "int option"
  w_error :: string
  w_cancel_requested :: bool
  w_cancel_reason :: string
  w_runner :: string
  w_epoch :: int
  w_lease_until :: int
  w_created :: int
  w_updated :: int
  w_finished :: "int option"

record step_row =
  s_wf :: string
  s_seq :: nat
  s_name :: string
  s_attempts :: nat
  s_failures :: nat
  s_started :: int
  s_first :: int
  s_finished :: "int option"
  s_wake :: "int option"
  s_output :: "string option"
  s_error :: string

record jdb =
  wfs :: "wf_row list"
  steps :: "step_row list"

record fence =
  f_id :: string
  f_runner :: string
  f_epoch :: int

datatype jerr = ErrLeaseLost | ErrNotFound | ErrConstraint | ErrNoRow | ErrUnknownKind | ErrInvalidName
  | ErrInputTooLarge | ErrInvalidInput | ErrIDInUse | ErrAlreadyFinished wf_status

definition MaxStepAttempts :: nat where "MaxStepAttempts = 10"
definition maxErrorBytes :: nat where "maxErrorBytes = 4 * 1024"
definition maxReasonBytes :: nat where "maxReasonBytes = 1024"
definition maxNameLen :: nat where "maxNameLen = 64"
definition MaxInputBytes :: nat where "MaxInputBytes = 64 * 1024"
definition MaxOutputBytes :: nat where "MaxOutputBytes = 64 * 1024"

text \<open>\<open>truncate\<close> does not cut a multi-byte rune in half: it steps back over continuation bytes.\<close>

definition continuation_byte :: "char \<Rightarrow> bool" where
  "continuation_byte c \<longleftrightarrow> (of_char c :: nat) div 64 = 2"

fun rune_start :: "string \<Rightarrow> nat \<Rightarrow> nat" where
  "rune_start s 0 = 0"
| "rune_start s (Suc n) = (if Suc n < length s \<and> continuation_byte (s ! Suc n) then rune_start s n else Suc n)"

definition truncate_bytes :: "string \<Rightarrow> nat \<Rightarrow> string" where
  "truncate_bytes s n = (if length s \<le> n then s else take (rune_start s n) s)"

section \<open>Transactions\<close>

definition on_wf :: "string \<Rightarrow> (wf_row \<Rightarrow> wf_row) \<Rightarrow> jdb \<Rightarrow> jdb" where
  "on_wf wid f db = db\<lparr>wfs := sql_update (\<lambda>w. w_id w = wid) f (wfs db)\<rparr>"

definition is_step :: "string \<Rightarrow> nat \<Rightarrow> step_row \<Rightarrow> bool" where
  "is_step wid n s \<longleftrightarrow> s_wf s = wid \<and> s_seq s = n"

definition on_step :: "string \<Rightarrow> nat \<Rightarrow> (step_row \<Rightarrow> step_row) \<Rightarrow> jdb \<Rightarrow> jdb" where
  "on_step wid n f db = db\<lparr>steps := sql_update (is_step wid n) f (steps db)\<rparr>"

definition owns :: "fence \<Rightarrow> int \<Rightarrow> wf_row \<Rightarrow> bool" where
  "owns f now_ms w \<longleftrightarrow> w_id w = f_id f \<and> w_runner w = f_runner f \<and> w_epoch w = f_epoch f \<and>
     w_status w = WfRunning \<and> w_lease_until w > now_ms"

definition fenced :: "fence \<Rightarrow> go_time \<Rightarrow> (jdb \<Rightarrow> jerr + jdb \<times> 'a) \<Rightarrow> jdb \<Rightarrow> jerr + jdb \<times> 'a" where
  "fenced f now body db =
     (if sql_count (owns f (unix_ms now)) (wfs db) \<noteq> 1 then Inl ErrLeaseLost
      else body (db\<lparr>wfs := sql_update (owns f (unix_ms now)) (\<lambda>w. w\<lparr>w_updated := unix_ms now\<rparr>) (wfs db)\<rparr>))"

definition new_row :: "string \<Rightarrow> string \<Rightarrow> string \<Rightarrow> bool \<Rightarrow> int \<Rightarrow> wf_row" where
  "new_row wid kind input prot now_ms =
     \<lparr>w_id = wid, w_kind = kind, w_input = input, w_status = WfPending, w_protective = prot, w_wake = None,
      w_error = [], w_cancel_requested = False, w_cancel_reason = [], w_runner = [], w_epoch = 0,
      w_lease_until = 0, w_created = now_ms, w_updated = now_ms, w_finished = None\<rparr>"

definition insertWorkflow :: "string \<Rightarrow> string \<Rightarrow> string \<Rightarrow> bool \<Rightarrow> go_time \<Rightarrow> jdb \<Rightarrow> jerr + jdb" where
  "insertWorkflow wid kind input prot now db =
     (if wid \<in> w_id ` set (wfs db) then Inl ErrConstraint
      else Inr (db\<lparr>wfs := wfs db @ [new_row wid kind input prot (unix_ms now)]\<rparr>))"

definition insertWorkflowOnce :: "string \<Rightarrow> string \<Rightarrow> string \<Rightarrow> bool \<Rightarrow> go_time \<Rightarrow> jdb \<Rightarrow> jdb \<times> bool" where
  "insertWorkflowOnce wid kind input prot now db =
     (if wid \<in> w_id ` set (wfs db) then (db, False)
      else (db\<lparr>wfs := wfs db @ [new_row wid kind input prot (unix_ms now)]\<rparr>, True))"

definition getWorkflow :: "string \<Rightarrow> jdb \<Rightarrow> jerr + wf_row" where
  "getWorkflow wid db =
     (case sql_first (\<lambda>w. w_id w = wid) (wfs db) of None \<Rightarrow> Inl ErrNotFound | Some w \<Rightarrow> Inr w)"

definition loadSteps :: "string \<Rightarrow> jdb \<Rightarrow> step_row list" where
  "loadSteps wid db = sort_key s_seq (filter (\<lambda>s. s_wf s = wid) (steps db))"

text \<open>The condition under which a runner may take a workflow: the WHERE clause of \<open>due\<close> and \<open>claim\<close>.\<close>

definition claimable :: "string list \<Rightarrow> int \<Rightarrow> int \<Rightarrow> wf_row \<Rightarrow> bool" where
  "claimable kinds now_ms grace_ms w \<longleftrightarrow> w_kind w \<in> set kinds \<and>
     (w_status w = WfPending \<or>
      w_status w = WfWaiting \<and> (case w_wake w of None \<Rightarrow> False | Some t \<Rightarrow> t \<le> now_ms) \<or>
      w_status w = WfRunning \<and> now_ms \<ge> w_lease_until w + grace_ms)"

definition due :: "string list \<Rightarrow> go_time \<Rightarrow> duration \<Rightarrow> nat \<Rightarrow> jdb \<Rightarrow> string list" where
  "due kinds now grace limit db =
     map w_id (take limit (sort_key w_created (filter (claimable kinds (unix_ms now) (dur_ms grace)) (wfs db))))"

definition claim :: "string \<Rightarrow> string \<Rightarrow> string list \<Rightarrow> go_time \<Rightarrow> duration \<Rightarrow> duration \<Rightarrow> jdb \<Rightarrow> jdb \<times> int option" where
  "claim wid runner kinds now lease grace db =
     (let can = (\<lambda>w. w_id w = wid \<and> claimable kinds (unix_ms now) (dur_ms grace) w)
      in if sql_count can (wfs db) \<noteq> 1 then (db, None)
         else let db' = db\<lparr>wfs := sql_update can
                (\<lambda>w. w\<lparr>w_status := WfRunning, w_runner := runner, w_epoch := w_epoch w + 1,
                       w_lease_until := unix_ms (now + lease), w_wake := None, w_updated := unix_ms now\<rparr>) (wfs db)\<rparr>
              in (db', map_option w_epoch (sql_first (\<lambda>w. w_id w = wid) (wfs db'))))"

definition renew :: "fence \<Rightarrow> go_time \<Rightarrow> duration \<Rightarrow> jdb \<Rightarrow> jdb \<times> bool" where
  "renew f now lease db =
     (db\<lparr>wfs := sql_update (owns f (unix_ms now))
        (\<lambda>w. w\<lparr>w_lease_until := unix_ms (now + lease), w_updated := unix_ms now\<rparr>) (wfs db)\<rparr>,
      sql_count (owns f (unix_ms now)) (wfs db) = 1)"

definition releasedByOwner :: "fence \<Rightarrow> jdb \<Rightarrow> bool" where
  "releasedByOwner f db \<longleftrightarrow> (\<exists>w \<in> set (wfs db). w_id w = f_id f \<and> w_epoch w = f_epoch f \<and> w_runner w = [])"

definition release :: "fence \<Rightarrow> go_time \<Rightarrow> jdb \<Rightarrow> jdb" where
  "release f now db =
     db\<lparr>wfs := sql_update
        (\<lambda>w. w_id w = f_id f \<and> w_runner w = f_runner f \<and> w_epoch w = f_epoch f \<and> w_status w = WfRunning)
        (\<lambda>w. w\<lparr>w_status := WfPending, w_runner := [], w_lease_until := 0, w_updated := unix_ms now\<rparr>) (wfs db)\<rparr>"

definition terminalTx :: "string \<Rightarrow> wf_status \<Rightarrow> string \<Rightarrow> go_time \<Rightarrow> jdb \<Rightarrow> jdb" where
  "terminalTx wid status msg now db =
     on_wf wid (\<lambda>w. w\<lparr>w_status := status, w_error := truncate_bytes msg maxErrorBytes, w_runner := [],
       w_lease_until := 0, w_wake := None, w_cancel_requested := False, w_updated := unix_ms now,
       w_finished := Some (unix_ms now)\<rparr>) db"

definition suspendTx :: "string \<Rightarrow> go_time \<Rightarrow> go_time \<Rightarrow> jdb \<Rightarrow> jdb" where
  "suspendTx wid wake now db =
     on_wf wid (\<lambda>w. w\<lparr>w_status := WfWaiting, w_wake := Some (unix_ms wake), w_runner := [], w_lease_until := 0,
       w_updated := unix_ms now\<rparr>) db"

definition finishWorkflow :: "fence \<Rightarrow> go_time \<Rightarrow> wf_status \<Rightarrow> string \<Rightarrow> jdb \<Rightarrow> jerr + jdb \<times> unit" where
  "finishWorkflow f now status msg db =
     fenced f now (\<lambda>db. Inr (terminalTx (f_id f) status msg now db, ())) db"

text \<open>\<open>cancelBoundary\<close>: the database and whether the workflow was cancelled here.\<close>

definition cancelBoundary :: "string \<Rightarrow> go_time \<Rightarrow> jdb \<Rightarrow> jerr + jdb \<times> bool" where
  "cancelBoundary wid now db =
     (case sql_first (\<lambda>w. w_id w = wid) (wfs db) of
        None \<Rightarrow> Inl ErrNoRow
      | Some w \<Rightarrow> if \<not> w_cancel_requested w then Inr (db, False)
                 else Inr (terminalTx wid WfCancelled (w_cancel_reason w) now db, True))"

datatype begin_result = Began nat nat go_time \<comment> \<open>attempt, failures, first start\<close>
  | BeginCancelled | BeginFailed string

definition new_step :: "string \<Rightarrow> nat \<Rightarrow> string \<Rightarrow> int \<Rightarrow> step_row" where
  "new_step wid n name now_ms =
     \<lparr>s_wf = wid, s_seq = n, s_name = name, s_attempts = 1, s_failures = 0, s_started = now_ms, s_first = now_ms,
      s_finished = None, s_wake = None, s_output = None, s_error = []\<rparr>"

text \<open>An insert fails on the primary key of the steps, \<open>(workflow_id, seq)\<close>.\<close>

definition insert_step :: "step_row \<Rightarrow> jdb \<Rightarrow> jerr + jdb" where
  "insert_step s db =
     (if sql_count (is_step (s_wf s) (s_seq s)) (steps db) \<noteq> 0 then Inl ErrConstraint
      else Inr (db\<lparr>steps := steps db @ [s]\<rparr>))"

definition give_up_text :: "string \<Rightarrow> nat \<Rightarrow> string" where
  "give_up_text name attempts =
     ''step '' @ [CHR 0x22] @ name @ [CHR 0x22] @ '' was started '' @ itoa (int attempts) @
     '' times without finishing; giving up''"

text \<open>The three branches of \<open>beginStep\<close> after the fence and the cancel boundary.\<close>

definition at_boundary :: "string \<Rightarrow> go_time \<Rightarrow> 'a \<Rightarrow> (jdb \<Rightarrow> jerr + jdb \<times> 'a) \<Rightarrow> jdb \<Rightarrow> jerr + jdb \<times> 'a" where
  "at_boundary wid now cancelled_result body db =
     try_ok (cancelBoundary wid now db)
       (\<lambda>(db, cancelled). if cancelled then Inr (db, cancelled_result) else body db)"

definition begin_new :: "string \<Rightarrow> go_time \<Rightarrow> nat \<Rightarrow> string \<Rightarrow> jdb \<Rightarrow> jerr + jdb \<times> begin_result" where
  "begin_new wid now n name db =
     try_ok (insert_step (new_step wid n name (unix_ms now)) db)
       (\<lambda>db. Inr (db, Began 1 0 (from_ms (unix_ms now))))"

definition begin_again :: "string \<Rightarrow> go_time \<Rightarrow> nat \<Rightarrow> string \<Rightarrow> jdb \<Rightarrow> jerr + jdb \<times> begin_result" where
  "begin_again wid now n name db =
     (case sql_first (\<lambda>s. is_step wid n s \<and> s_name s = name) (steps db) of
        None \<Rightarrow> Inl ErrNoRow
      | Some s \<Rightarrow>
          if s_attempts s \<ge> MaxStepAttempts then
            (let msg = give_up_text name (s_attempts s)
             in Inr (terminalTx wid WfFailed msg now db, BeginFailed msg))
          else Inr (on_step wid n
                (\<lambda>s. s\<lparr>s_attempts := s_attempts s + 1, s_started := unix_ms now, s_wake := None\<rparr>) db,
              Began (s_attempts s + 1) (s_failures s) (from_ms (s_first s))))"

definition beginStep :: "fence \<Rightarrow> go_time \<Rightarrow> nat \<Rightarrow> string \<Rightarrow> bool \<Rightarrow> jdb \<Rightarrow> jerr + jdb \<times> begin_result" where
  "beginStep f now n name existing =
     fenced f now (at_boundary (f_id f) now BeginCancelled
       (if existing then begin_again (f_id f) now n name else begin_new (f_id f) now n name))"

definition finishStep :: "fence \<Rightarrow> go_time \<Rightarrow> nat \<Rightarrow> string \<Rightarrow> string \<Rightarrow> string \<Rightarrow> jdb \<Rightarrow> jerr + jdb \<times> unit" where
  "finishStep f now n output errText failWorkflow =
     fenced f now (\<lambda>db.
       let db' = on_step (f_id f) n
             (\<lambda>s. s\<lparr>s_output := (if errText = [] then Some output else None),
                    s_error := truncate_bytes errText maxErrorBytes,
                    s_finished := Some (unix_ms now), s_wake := None\<rparr>) db
       in Inr (if failWorkflow \<noteq> [] then terminalTx (f_id f) WfFailed failWorkflow now db' else db', ()))"

definition retryStep :: "fence \<Rightarrow> go_time \<Rightarrow> nat \<Rightarrow> string \<Rightarrow> go_time \<Rightarrow> bool \<Rightarrow> jdb \<Rightarrow> jerr + jdb \<times> unit" where
  "retryStep f now n errText retryAt suspend =
     fenced f now (\<lambda>db.
       let db' = on_step (f_id f) n
             (\<lambda>s. s\<lparr>s_error := truncate_bytes errText maxErrorBytes, s_failures := s_failures s + 1,
                    s_wake := Some (unix_ms retryAt)\<rparr>) db
       in Inr (if suspend then suspendTx (f_id f) retryAt now db' else db', ()))"

definition suspend :: "fence \<Rightarrow> go_time \<Rightarrow> go_time \<Rightarrow> jdb \<Rightarrow> jerr + jdb \<times> unit" where
  "suspend f now wake = fenced f now (\<lambda>db. Inr (suspendTx (f_id f) wake now db, ()))"

datatype sleep_outcome = SleepDone | SleepSuspended | SleepCancelled

definition sleep_journal :: "string \<Rightarrow> go_time \<Rightarrow> nat \<Rightarrow> bool \<Rightarrow> go_time \<Rightarrow> jdb \<Rightarrow> jerr + jdb" where
  "sleep_journal wid now n existing wake db =
     (let is_due = wake \<le> now;
          fresh = (new_step wid n ''$sleep'' (unix_ms now))\<lparr>s_wake := Some (unix_ms wake)\<rparr>
      in if \<not> existing then
           insert_step (if is_due then fresh\<lparr>s_finished := Some (unix_ms now), s_output := Some ''null''\<rparr>
                        else fresh) db
         else if is_due then
           Inr (on_step wid n (\<lambda>s. s\<lparr>s_finished := Some (unix_ms now), s_output := Some ''null''\<rparr>) db)
         else Inr db)"

definition sleepStep :: "fence \<Rightarrow> go_time \<Rightarrow> nat \<Rightarrow> bool \<Rightarrow> go_time \<Rightarrow> jdb \<Rightarrow> jerr + jdb \<times> sleep_outcome" where
  "sleepStep f now n existing wake =
     fenced f now (at_boundary (f_id f) now SleepCancelled (\<lambda>db.
       try_ok (sleep_journal (f_id f) now n existing wake db)
         (\<lambda>db. if wake \<le> now then Inr (db, SleepDone)
               else Inr (suspendTx (f_id f) wake now db, SleepSuspended))))"

definition nowStep :: "fence \<Rightarrow> go_time \<Rightarrow> nat \<Rightarrow> jdb \<Rightarrow> jerr + jdb \<times> unit" where
  "nowStep f now n =
     fenced f now (\<lambda>db.
       try_ok (insert_step ((new_step (f_id f) n ''$now'' (unix_ms now))
           \<lparr>s_finished := Some (unix_ms now), s_output := Some (itoa (unix_ms now))\<rparr>) db)
         (\<lambda>db. Inr (db, ())))"

definition cancel :: "string \<Rightarrow> string \<Rightarrow> go_time \<Rightarrow> jdb \<Rightarrow> jerr + jdb \<times> wf_status \<times> bool" where
  "cancel wid reason now db =
     (case sql_first (\<lambda>w. w_id w = wid) (wfs db) of
        None \<Rightarrow> Inl ErrNotFound
      | Some w \<Rightarrow>
          if w_status w = WfPending \<or> w_status w = WfWaiting then
            Inr (on_wf wid (\<lambda>w. w\<lparr>w_cancel_reason := truncate_bytes reason maxReasonBytes\<rparr>)
                   (terminalTx wid WfCancelled reason now db), WfCancelled, True)
          else if w_status w = WfRunning then
            Inr (on_wf wid (\<lambda>w. w\<lparr>w_cancel_requested := True,
                     w_cancel_reason := truncate_bytes reason maxReasonBytes, w_updated := unix_ms now\<rparr>) db,
                 w_status w, False)
          else Inr (db, w_status w, False))"

definition prunable :: "int \<Rightarrow> wf_row \<Rightarrow> bool" where
  "prunable cutoff_ms w \<longleftrightarrow> Terminal (w_status w) \<and> (case w_finished w of None \<Rightarrow> False | Some t \<Rightarrow> t < cutoff_ms)"

definition prune_order :: "wf_row \<Rightarrow> int \<times> string" where
  "prune_order w = ((case w_finished w of None \<Rightarrow> 0 | Some t \<Rightarrow> t), w_id w)"

text \<open>\<open>ORDER BY finished_at_ms, wid\<close> as two stable sorts.\<close>

definition prune :: "go_time \<Rightarrow> nat \<Rightarrow> jdb \<Rightarrow> jdb \<times> nat" where
  "prune cutoff limit db =
     (let ids = map w_id (take limit (sort_key (fst \<circ> prune_order) (sort_key (snd \<circ> prune_order)
                  (filter (prunable (unix_ms cutoff)) (wfs db)))))
      in (\<lparr>wfs = sql_delete (\<lambda>w. w_id w \<in> set ids) (wfs db),
           steps = sql_delete (\<lambda>s. s_wf s \<in> set ids) (steps db)\<rparr>, length ids))"

section \<open>Histories\<close>

datatype jop =
    JInsert string string string bool go_time
  | JInsertOnce string string string bool go_time
  | JClaim string string "string list" go_time duration duration
  | JRenew fence go_time duration
  | JRelease fence go_time
  | JFinish fence go_time wf_status string
  | JBegin fence go_time nat string bool
  | JFinishStep fence go_time nat string string string
  | JRetry fence go_time nat string go_time bool
  | JSuspend fence go_time go_time
  | JSleep fence go_time nat bool go_time
  | JNow fence go_time nat
  | JCancel string string go_time
  | JPrune go_time go_time nat \<comment> \<open>when it runs, and its cutoff and limit\<close>

definition committed :: "jdb \<Rightarrow> jerr + jdb \<times> 'a \<Rightarrow> jdb" where
  "committed db res = (case res of Inl _ \<Rightarrow> db | Inr (db', _) \<Rightarrow> db')"

fun apply_op :: "jop \<Rightarrow> jdb \<Rightarrow> jdb" where
  "apply_op (JInsert i k inp prot now) db =
     (case insertWorkflow i k inp prot now db of Inl _ \<Rightarrow> db | Inr db' \<Rightarrow> db')"
| "apply_op (JInsertOnce i k inp prot now) db = fst (insertWorkflowOnce i k inp prot now db)"
| "apply_op (JClaim i runner kinds now lease grace) db = fst (claim i runner kinds now lease grace db)"
| "apply_op (JRenew f now lease) db = fst (renew f now lease db)"
| "apply_op (JRelease f now) db = release f now db"
| "apply_op (JFinish f now status msg) db = committed db (finishWorkflow f now status msg db)"
| "apply_op (JBegin f now n name existing) db = committed db (beginStep f now n name existing db)"
| "apply_op (JFinishStep f now n out err failwf) db = committed db (finishStep f now n out err failwf db)"
| "apply_op (JRetry f now n err ra susp) db = committed db (retryStep f now n err ra susp db)"
| "apply_op (JSuspend f now wake) db = committed db (suspend f now wake db)"
| "apply_op (JSleep f now n existing wake) db = committed db (sleepStep f now n existing wake db)"
| "apply_op (JNow f now n) db = committed db (nowStep f now n db)"
| "apply_op (JCancel i reason now) db = committed db (cancel i reason now db)"
| "apply_op (JPrune now cutoff lmt) db = fst (prune cutoff lmt db)"

fun op_time :: "jop \<Rightarrow> go_time" where
  "op_time (JInsert _ _ _ _ now) = now"
| "op_time (JInsertOnce _ _ _ _ now) = now"
| "op_time (JClaim _ _ _ now _ _) = now"
| "op_time (JRenew _ now _) = now"
| "op_time (JRelease _ now) = now"
| "op_time (JFinish _ now _ _) = now"
| "op_time (JBegin _ now _ _ _) = now"
| "op_time (JFinishStep _ now _ _ _ _) = now"
| "op_time (JRetry _ now _ _ _ _) = now"
| "op_time (JSuspend _ now _) = now"
| "op_time (JSleep _ now _ _ _) = now"
| "op_time (JNow _ now _) = now"
| "op_time (JCancel _ _ now) = now"
| "op_time (JPrune now _ _) = now"

text \<open>
  What the callers guarantee: an engine has a non-empty runner id, and a workflow is finished with a
  terminal status.
\<close>

fun op_ok :: "jop \<Rightarrow> bool" where
  "op_ok (JClaim _ runner _ _ _ _) = (runner \<noteq> [])"
| "op_ok (JFinish _ _ status _) = Terminal status"
| "op_ok _ = True"

fun is_prune :: "jop \<Rightarrow> bool" where
  "is_prune (JPrune _ _ _) = True"
| "is_prune _ = False"

definition run_ops :: "jop list \<Rightarrow> jdb \<Rightarrow> jdb" where
  "run_ops ops db = fold apply_op ops db"

section \<open>The invariant of the tables\<close>

definition row_ok :: "wf_row \<Rightarrow> bool" where
  "row_ok w \<longleftrightarrow> (w_status w = WfRunning \<longleftrightarrow> w_runner w \<noteq> []) \<and> (w_status w = WfWaiting \<longleftrightarrow> w_wake w \<noteq> None) \<and>
     (Terminal (w_status w) \<longleftrightarrow> w_finished w \<noteq> None) \<and> (Terminal (w_status w) \<longrightarrow> \<not> w_cancel_requested w) \<and>
     0 \<le> w_epoch w"

definition step_ok :: "step_row \<Rightarrow> bool" where
  "step_ok s \<longleftrightarrow> 1 \<le> s_attempts s \<and> s_attempts s \<le> MaxStepAttempts"

definition step_key :: "step_row \<Rightarrow> string \<times> nat" where
  "step_key s = (s_wf s, s_seq s)"

definition jwf :: "jdb \<Rightarrow> bool" where
  "jwf db \<longleftrightarrow> distinct (map w_id (wfs db)) \<and> (\<forall>w \<in> set (wfs db). row_ok w) \<and>
     distinct (map step_key (steps db)) \<and> (\<forall>s \<in> set (steps db). step_ok s \<and> s_wf s \<in> w_id ` set (wfs db))"

lemma jwf_empty: "jwf \<lparr>wfs = [], steps = []\<rparr>"
  by (simp add: jwf_def)

definition running_at :: "string \<Rightarrow> jdb \<Rightarrow> bool" where
  "running_at wid db \<longleftrightarrow> wid \<in> w_id ` set (wfs db) \<and> (\<forall>w \<in> set (wfs db). w_id w = wid \<longrightarrow> w_status w = WfRunning)"

text \<open>
  How one statement group at time \<open>t\<close> may change a row: a finished row not at all, the epoch never
  down, no row out of its invariant, and a row that runs under the same epoch ran before, for the same runner, with its lease
  as it was unless it had not run out.
\<close>

definition evolve :: "int \<Rightarrow> wf_row \<Rightarrow> wf_row \<Rightarrow> bool" where
  "evolve t w w' \<longleftrightarrow> w_id w' = w_id w \<and> w_kind w' = w_kind w \<and> w_input w' = w_input w \<and>
     w_epoch w \<le> w_epoch w' \<and> (row_ok w \<longrightarrow> row_ok w') \<and> (Terminal (w_status w) \<longrightarrow> w' = w) \<and>
     (w_status w' = WfRunning \<and> w_epoch w' = w_epoch w \<longrightarrow>
        w_status w = WfRunning \<and> w_runner w' = w_runner w \<and> (w_lease_until w' = w_lease_until w \<or> w_lease_until w > t))"

definition patch :: "int \<Rightarrow> jdb \<Rightarrow> jdb \<Rightarrow> bool" where
  "patch t db db' \<longleftrightarrow> (\<exists>g. wfs db' = map g (wfs db) \<and> (\<forall>w \<in> set (wfs db). evolve t w (g w)))"

lemma evolve_refl [simp]: "evolve t w w"
  by (simp add: evolve_def)

lemma evolve_id: "evolve t w w' \<Longrightarrow> w_id w' = w_id w"
  and evolve_row_ok: "evolve t w w' \<Longrightarrow> row_ok w \<Longrightarrow> row_ok w'"
  and evolve_terminal_eq: "evolve t w w' \<Longrightarrow> Terminal (w_status w) \<Longrightarrow> w' = w"
  and evolve_epoch: "evolve t w w' \<Longrightarrow> w_epoch w \<le> w_epoch w'"
  and evolve_const: "evolve t w w' \<Longrightarrow> w_kind w' = w_kind w \<and> w_input w' = w_input w"
  unfolding evolve_def by blast+

lemma evolve_running:
  "evolve t w w' \<Longrightarrow> w_status w' = WfRunning \<Longrightarrow> w_epoch w' = w_epoch w \<Longrightarrow>
   w_status w = WfRunning \<and> w_runner w' = w_runner w \<and> (w_lease_until w' = w_lease_until w \<or> w_lease_until w > t)"
  by (simp add: evolve_def)

lemma evolve_trans:
  assumes a: "evolve t u v" and b: "evolve t v w"
  shows "evolve t u w"
proof -
  have run: "w_status u = WfRunning \<and> w_runner w = w_runner u \<and>
      (w_lease_until w = w_lease_until u \<or> t < w_lease_until u)"
    if s: "w_status w = WfRunning" "w_epoch w = w_epoch u"
  proof -
    have e: "w_epoch v = w_epoch u" using evolve_epoch [OF a] evolve_epoch [OF b] s(2) by simp
    with s(2) have "w_epoch w = w_epoch v" by simp
    note v = evolve_running [OF b s(1) this]
    note u = evolve_running [OF a conjunct1 [OF v] e]
    from u v show ?thesis by metis
  qed
  have fin: "w = u" if "Terminal (w_status u)"
    using that evolve_terminal_eq [OF a] evolve_terminal_eq [OF b] by metis
  have "row_ok u \<Longrightarrow> row_ok w" using evolve_row_ok [OF a] evolve_row_ok [OF b] by blast
  with run fin show ?thesis
    using evolve_id [OF a] evolve_id [OF b] evolve_epoch [OF a] evolve_epoch [OF b]
      evolve_const [OF a] evolve_const [OF b]
    unfolding evolve_def by (metis order_trans)
qed

lemma patch_refl [simp]: "patch t db db"
  unfolding patch_def by (rule exI [of _ "\<lambda>w. w"]) simp

lemma patch_same: "wfs db' = wfs db \<Longrightarrow> patch t db db'"
  unfolding patch_def by (rule exI [of _ "\<lambda>w. w"]) simp

lemma patch_trans:
  assumes "patch t a b" "patch t b c"
  shows "patch t a c"
proof -
  obtain g h where g: "wfs b = map g (wfs a)" "\<forall>w \<in> set (wfs a). evolve t w (g w)"
    and h: "wfs c = map h (wfs b)" "\<forall>w \<in> set (wfs b). evolve t w (h w)"
    using assms unfolding patch_def by blast
  have "\<forall>w \<in> set (wfs a). evolve t w (h (g w))"
    using g h by (auto intro: evolve_trans)
  with g(1) h(1) show ?thesis unfolding patch_def by (intro exI [of _ "h \<circ> g"]) simp
qed

lemma patch_update:
  assumes "\<And>w. w \<in> set (wfs db) \<Longrightarrow> P w \<Longrightarrow> evolve t w (f w)" "wfs db' = sql_update P f (wfs db)"
  shows "patch t db db'"
  unfolding patch_def using assms
  by (intro exI [of _ "\<lambda>w. if P w then f w else w"]) (simp add: sql_update_def)

lemma patch_ids: "patch t db db' \<Longrightarrow> map w_id (wfs db') = map w_id (wfs db)"
  using evolve_id by (fastforce simp: patch_def)

lemma patch_row:
  assumes "patch t db db'" "w' \<in> set (wfs db')"
  obtains w where "w \<in> set (wfs db)" "evolve t w w'"
proof -
  obtain g where "wfs db' = map g (wfs db)" "\<forall>w \<in> set (wfs db). evolve t w (g w)"
    using assms(1) unfolding patch_def by blast
  with assms(2) that show thesis by auto
qed

lemma patch_row_fwd:
  assumes "patch t db db'" "w \<in> set (wfs db)"
  obtains w' where "w' \<in> set (wfs db')" "evolve t w w'"
proof -
  obtain g where "wfs db' = map g (wfs db)" "\<forall>w \<in> set (wfs db). evolve t w (g w)"
    using assms(1) unfolding patch_def by blast
  with assms(2) that show thesis by auto
qed

definition steps_ok :: "jdb \<Rightarrow> bool" where
  "steps_ok db \<longleftrightarrow> distinct (map step_key (steps db)) \<and>
     (\<forall>s \<in> set (steps db). step_ok s \<and> s_wf s \<in> w_id ` set (wfs db))"

lemma jwf_iff: "jwf db \<longleftrightarrow> distinct (map w_id (wfs db)) \<and> (\<forall>w \<in> set (wfs db). row_ok w) \<and> steps_ok db"
  by (auto simp: jwf_def steps_ok_def)

lemma patch_jwf: "jwf db \<Longrightarrow> patch t db db' \<Longrightarrow> steps_ok db' \<Longrightarrow> jwf db'"
  using patch_ids [of t db db'] unfolding jwf_iff by (metis evolve_row_ok patch_row)

lemma ids_image: "map w_id (wfs db') = map w_id (wfs db) \<Longrightarrow> w_id ` set (wfs db') = w_id ` set (wfs db)"
  by (metis set_map)

lemma steps_ok_same:
  "steps_ok db \<Longrightarrow> steps db' = steps db \<Longrightarrow> map w_id (wfs db') = map w_id (wfs db) \<Longrightarrow> steps_ok db'"
  using ids_image [of db' db] by (simp add: steps_ok_def)

lemma steps_ok_on_step:
  assumes "steps_ok db" "\<And>s. s \<in> set (steps db) \<Longrightarrow> is_step wid n s \<Longrightarrow> step_key (f s) = step_key s \<and> step_ok (f s)"
  shows "steps_ok (on_step wid n f db)"
proof -
  have "map step_key (sql_update (is_step wid n) f (steps db)) = map step_key (steps db)"
    using assms(2) by (auto simp: sql_update_def)
  moreover have "step_ok s \<and> s_wf s \<in> w_id ` set (wfs db)"
    if "s \<in> set (sql_update (is_step wid n) f (steps db))" for s
    using that assms by (elim in_sql_updateE) (auto simp: steps_ok_def step_key_def)
  ultimately show ?thesis using assms(1) by (simp add: steps_ok_def on_step_def)
qed

lemma steps_ok_insert:
  assumes "steps_ok db" "insert_step s db = Inr db'" "step_ok s" "s_wf s \<in> w_id ` set (wfs db)"
  shows "steps_ok db' \<and> wfs db' = wfs db"
proof -
  have "\<forall>r \<in> set (steps db). \<not> is_step (s_wf s) (s_seq s) r"
    using assms(2) by (auto simp: insert_step_def sql_count_0_iff split: if_splits)
  then have "step_key s \<notin> step_key ` set (steps db)" by (auto simp: step_key_def is_step_def)
  with assms show ?thesis by (auto simp: insert_step_def steps_ok_def split: if_splits)
qed

section \<open>Every statement group keeps the rows in order\<close>

lemma evolve_terminal:
  assumes "w_status w = WfRunning \<or> w_status w = WfPending \<or> w_status w = WfWaiting" "Terminal status"
  shows "evolve t w (w\<lparr>w_status := status, w_error := msg, w_runner := [], w_lease_until := 0, w_wake := None,
    w_cancel_requested := False, w_updated := u, w_finished := Some v\<rparr>)"
  using assms by (auto simp: evolve_def row_ok_def Terminal_def)

lemma evolve_suspend:
  assumes "w_status w = WfRunning"
  shows "evolve t w (w\<lparr>w_status := WfWaiting, w_wake := Some v, w_runner := [], w_lease_until := 0, w_updated := u\<rparr>)"
  using assms by (auto simp: evolve_def row_ok_def Terminal_def)

lemma patch_terminalTx:
  assumes "running_at wid db" "Terminal status"
  shows "patch t db (terminalTx wid status msg now db)"
  by (rule patch_update [where P = "\<lambda>w. w_id w = wid"])
    (use assms in \<open>auto simp: terminalTx_def on_wf_def running_at_def intro!: evolve_terminal\<close>)

lemma patch_suspendTx: "running_at wid db \<Longrightarrow> patch t db (suspendTx wid wake now db)"
  by (rule patch_update [where P = "\<lambda>w. w_id w = wid"])
    (auto simp: suspendTx_def on_wf_def running_at_def intro!: evolve_suspend)

lemma steps_terminalTx [simp]: "steps (terminalTx wid status msg now db) = steps db"
  by (simp add: terminalTx_def on_wf_def)

lemma steps_suspendTx [simp]: "steps (suspendTx wid wake now db) = steps db"
  by (simp add: suspendTx_def on_wf_def)

lemma wfs_on_step [simp]: "wfs (on_step wid n f db) = wfs db"
  by (simp add: on_step_def)

lemma running_on_step [simp]: "running_at wid (on_step wid' n f db) \<longleftrightarrow> running_at wid db"
  by (simp add: running_at_def)

text \<open>What a body of \<open>fenced\<close> has to keep, and that \<open>fenced\<close> then keeps it too.\<close>

definition txn :: "int \<Rightarrow> string \<Rightarrow> (jdb \<Rightarrow> jerr + jdb \<times> 'a) \<Rightarrow> bool" where
  "txn t wid body \<longleftrightarrow> (\<forall>db db' x. running_at wid db \<longrightarrow> steps_ok db \<longrightarrow> body db = Inr (db', x) \<longrightarrow>
     patch t db db' \<and> steps_ok db')"

lemma txnI:
  "(\<And>db db' x. running_at wid db \<Longrightarrow> steps_ok db \<Longrightarrow> body db = Inr (db', x) \<Longrightarrow> patch t db db' \<and> steps_ok db')
   \<Longrightarrow> txn t wid body"
  by (simp add: txn_def)

lemma steps_ok_patch: "patch t db db' \<Longrightarrow> steps db' = steps db \<Longrightarrow> steps_ok db \<Longrightarrow> steps_ok db'"
  using steps_ok_same patch_ids by blast

lemma fenced_txn:
  assumes "txn (unix_ms now) (f_id f) body" "jwf db"
  shows "patch (unix_ms now) db (committed db (fenced f now body db)) \<and>
    steps_ok (committed db (fenced f now body db))"
proof (cases "fenced f now body db")
  case (Inl e)
  with assms(2) show ?thesis by (simp add: committed_def jwf_iff)
next
  case (Inr r)
  obtain db' x where r: "r = (db', x)" by (cases r)
  let ?t = "unix_ms now"
  let ?db = "db\<lparr>wfs := sql_update (owns f ?t) (\<lambda>w. w\<lparr>w_updated := ?t\<rparr>) (wfs db)\<rparr>"
  have c: "sql_count (owns f ?t) (wfs db) = 1" and b: "body ?db = Inr (db', x)"
    using Inr r by (auto simp: fenced_def split: if_splits)
  from c obtain w where w: "w \<in> set (wfs db)" "owns f ?t w"
    using sql_count_pos_iff [of "owns f ?t" "wfs db"] by auto
  have touch: "patch ?t db ?db"
    by (rule patch_update [where P = "owns f ?t"]) (auto simp: evolve_def row_ok_def owns_def Terminal_def)
  have uniq: "v = w" if "v \<in> set (wfs db)" "w_id v = f_id f" for v
    using that w assms(2) by (auto simp: jwf_def owns_def dest: key_row_unique)
  have "running_at (f_id f) ?db"
    unfolding running_at_def
  proof (intro conjI ballI impI)
    show "f_id f \<in> w_id ` set (wfs ?db)"
    proof -
      have "w_id ` set (wfs ?db) = w_id ` set (wfs db)" by (rule ids_image [OF patch_ids [OF touch]])
      moreover have "f_id f = w_id w" using w(2) by (simp add: owns_def)
      then have "f_id f \<in> w_id ` set (wfs db)" using w(1) by blast
      ultimately show ?thesis by simp
    qed
    show "w_status v = WfRunning" if "v \<in> set (wfs ?db)" "w_id v = f_id f" for v
    proof -
      from that(1) show ?thesis
      proof (simp, elim in_sql_updateE)
        show "w_status v = WfRunning" if "owns f ?t r" "v = r\<lparr>w_updated := ?t\<rparr>" for r
          using that by (simp add: owns_def)
        show "w_status v = WfRunning" if "v \<in> set (wfs db)" "\<not> owns f ?t v"
          using that \<open>w_id v = f_id f\<close> uniq w by blast
      qed
    qed
  qed
  moreover have "steps_ok ?db" using steps_ok_patch [OF touch] assms(2) by (simp add: jwf_iff)
  ultimately have "patch ?t ?db db' \<and> steps_ok db'" using assms(1) b by (simp add: txn_def)
  with touch Inr r show ?thesis by (auto simp: committed_def intro: patch_trans)
qed

lemma steps_ok_terminalTx: "steps_ok db \<Longrightarrow> steps_ok (terminalTx wid status msg now db)"
  by (rule steps_ok_same) (auto simp: terminalTx_def on_wf_def intro!: map_key_sql_update)

lemma steps_ok_suspendTx: "steps_ok db \<Longrightarrow> steps_ok (suspendTx wid wake now db)"
  by (rule steps_ok_same) (auto simp: suspendTx_def on_wf_def intro!: map_key_sql_update)

lemmas txn_intros = patch_terminalTx patch_suspendTx steps_ok_terminalTx steps_ok_suspendTx patch_same

lemma cancelBoundary_patch:
  assumes "running_at wid db" "steps_ok db" "cancelBoundary wid now db = Inr (db', c)"
  shows "patch t db db' \<and> steps_ok db' \<and> (c \<or> db' = db)"
  using assms by (auto simp: cancelBoundary_def Terminal_def split: option.splits if_splits intro: txn_intros)

lemma running_wf: "running_at wid db \<Longrightarrow> wid \<in> w_id ` set (wfs db)"
  by (simp add: running_at_def)

lemma step_ok_new [simp]: "step_ok (new_step wid n name v)" "step_ok (s\<lparr>s_finished := a\<rparr>) = step_ok s"
  "step_ok (s\<lparr>s_output := b\<rparr>) = step_ok s" "step_ok (s\<lparr>s_wake := a\<rparr>) = step_ok s"
  by (simp_all add: step_ok_def new_step_def MaxStepAttempts_def)

lemma step_key_new [simp]: "s_wf (new_step wid n name v) = wid" "s_seq (new_step wid n name v) = n"
  by (simp_all add: new_step_def)

lemma step_unique:
  assumes "steps_ok db" "r \<in> set (steps db)" "s \<in> set (steps db)" "is_step wid n r" "is_step wid n s"
  shows "r = s"
  using assms by (auto simp: steps_ok_def is_step_def step_key_def intro: key_row_unique [where key = step_key])

lemma steps_ok_mem: "steps_ok db \<Longrightarrow> s \<in> set (steps db) \<Longrightarrow> step_ok s"
  by (simp add: steps_ok_def)

lemma txn_boundary:
  assumes "txn t wid body"
  shows "txn t wid (at_boundary wid now z body)"
proof (rule txnI)
  fix db db' x
  assume run: "running_at wid db" and ok: "steps_ok db" and "at_boundary wid now z body db = Inr (db', x)"
  then obtain db1 c where c: "cancelBoundary wid now db = Inr (db1, c)"
    and rest: "(if c then Inr (db1, z) else body db1) = Inr (db', x)"
    unfolding at_boundary_def try_ok_eq_Inr by auto
  note cb = cancelBoundary_patch [OF run ok c, of t]
  show "patch t db db' \<and> steps_ok db'"
    using cb rest assms run ok by (cases c) (auto simp: txn_def)
qed

lemma txn_begin_new: "txn t wid (begin_new wid now n name)"
proof (rule txnI)
  fix db db' x
  assume "running_at wid db" "steps_ok db" "begin_new wid now n name db = Inr (db', x)"
  then have "insert_step (new_step wid n name (unix_ms now)) db = Inr db'" "steps_ok db" "wid \<in> w_id ` set (wfs db)"
    by (auto simp: begin_new_def running_at_def)
  from steps_ok_insert [OF this(2,1)] this(3) show "patch t db db' \<and> steps_ok db'" by (auto intro: patch_same)
qed

lemma txn_begin_again: "txn t wid (begin_again wid now n name)"
proof (rule txnI)
  fix db db' x
  assume run: "running_at wid db" and ok: "steps_ok db" and r: "begin_again wid now n name db = Inr (db', x)"
  then obtain s where s: "sql_first (\<lambda>s. is_step wid n s \<and> s_name s = name) (steps db) = Some s"
    by (auto simp: begin_again_def split: option.splits)
  then have mem: "s \<in> set (steps db)" "is_step wid n s" by (auto dest: sql_first_Some)
  show "patch t db db' \<and> steps_ok db'"
  proof (cases "s_attempts s \<ge> MaxStepAttempts")
    case True
    then have "db' = terminalTx wid WfFailed (give_up_text name (s_attempts s)) now db"
      using r s by (simp add: begin_again_def Let_def)
    with run ok show ?thesis by (auto simp: Terminal_def intro: txn_intros)
  next
    case False
    have "steps_ok (on_step wid n
        (\<lambda>s. s\<lparr>s_attempts := s_attempts s + 1, s_started := unix_ms now, s_wake := None\<rparr>) db)"
      using False step_unique [OF ok _ mem(1) _ mem(2)] steps_ok_mem [OF ok]
      by (intro steps_ok_on_step ok) (auto simp: step_ok_def step_key_def)
    with False r s show ?thesis by (auto simp: begin_again_def intro: patch_same)
  qed
qed

lemma sleep_journal_ok:
  assumes "running_at wid db" "steps_ok db" "sleep_journal wid now n existing wake db = Inr db'"
  shows "wfs db' = wfs db \<and> steps_ok db'"
proof (cases existing)
  case True
  have "steps_ok (on_step wid n (\<lambda>s. s\<lparr>s_finished := Some (unix_ms now), s_output := Some ''null''\<rparr>) db)"
    using steps_ok_mem [OF assms(2)] by (intro steps_ok_on_step assms) (auto simp: step_ok_def step_key_def)
  with True assms show ?thesis by (auto simp: sleep_journal_def Let_def split: if_splits)
next
  case False
  then obtain s where "insert_step s db = Inr db'" "step_ok s" "s_wf s = wid"
    using assms(3) by (auto simp: sleep_journal_def Let_def split: if_splits)
  with steps_ok_insert [OF assms(2)] running_wf [OF assms(1)] show ?thesis by blast
qed

lemma txn_sleep:
  "txn t wid (\<lambda>db. try_ok (sleep_journal wid now n existing wake db)
     (\<lambda>db. if wake \<le> now then Inr (db, SleepDone) else Inr (suspendTx wid wake now db, SleepSuspended)))"
proof (rule txnI)
  fix db db' x
  assume run: "running_at wid db" and ok: "steps_ok db"
    and "try_ok (sleep_journal wid now n existing wake db)
      (\<lambda>db. if wake \<le> now then Inr (db, SleepDone) else Inr (suspendTx wid wake now db, SleepSuspended)) = Inr (db', x)"
  then obtain d where d: "sleep_journal wid now n existing wake db = Inr d"
    and rest: "db' = d \<or> db' = suspendTx wid wake now d"
    by (auto split: if_splits)
  have j: "wfs d = wfs db" "steps_ok d" using sleep_journal_ok [OF run ok d] by simp_all
  then have "running_at wid d" using run by (simp add: running_at_def)
  then have "patch t d (suspendTx wid wake now d)" by (rule patch_suspendTx)
  moreover have "patch t db d" using j(1) by (rule patch_same)
  ultimately show "patch t db db' \<and> steps_ok db'"
    using rest j(2) by (auto intro: patch_trans steps_ok_suspendTx)
qed

lemma txn_finishStep:
  "txn t wid (\<lambda>db. let db' = on_step wid n (\<lambda>s. s\<lparr>s_output := a, s_error := b, s_finished := Some v, s_wake := None\<rparr>) db
     in Inr (if failWorkflow \<noteq> [] then terminalTx wid WfFailed failWorkflow now db' else db', ()))"
proof (rule txnI)
  fix db db' x
  let ?d = "on_step wid n (\<lambda>s. s\<lparr>s_output := a, s_error := b, s_finished := Some v, s_wake := None\<rparr>) db"
  assume run: "running_at wid db" and ok: "steps_ok db"
    and r: "(let db' = ?d in Inr (if failWorkflow \<noteq> [] then terminalTx wid WfFailed failWorkflow now db' else db', ())) = Inr (db', x)"
  have "steps_ok ?d" using steps_ok_mem [OF ok] by (intro steps_ok_on_step ok) (auto simp: step_ok_def step_key_def)
  moreover have "patch t db ?d" by (simp add: patch_same)
  moreover have "patch t ?d (terminalTx wid WfFailed failWorkflow now ?d)"
    using run by (intro patch_terminalTx) (simp_all add: Terminal_def)
  ultimately show "patch t db db' \<and> steps_ok db'"
    using r by (auto simp: Let_def split: if_splits intro: patch_trans steps_ok_terminalTx)
qed

lemma txn_retryStep:
  "txn t wid (\<lambda>db. let db' = on_step wid n (\<lambda>s. s\<lparr>s_error := b, s_failures := s_failures s + 1, s_wake := Some v\<rparr>) db
     in Inr (if susp then suspendTx wid ra now db' else db', ()))"
proof (rule txnI)
  fix db db' x
  let ?d = "on_step wid n (\<lambda>s. s\<lparr>s_error := b, s_failures := s_failures s + 1, s_wake := Some v\<rparr>) db"
  assume run: "running_at wid db" and ok: "steps_ok db"
    and r: "(let db' = ?d in Inr (if susp then suspendTx wid ra now db' else db', ())) = Inr (db', x)"
  have "steps_ok ?d" using steps_ok_mem [OF ok] by (intro steps_ok_on_step ok) (auto simp: step_ok_def step_key_def)
  moreover have "patch t db ?d" by (simp add: patch_same)
  moreover have "patch t ?d (suspendTx wid ra now ?d)" using run by (intro patch_suspendTx) simp
  ultimately show "patch t db db' \<and> steps_ok db'"
    using r by (auto simp: Let_def split: if_splits intro: patch_trans steps_ok_suspendTx)
qed

lemma txn_nowStep:
  "txn t wid (\<lambda>db. try_ok (insert_step ((new_step wid n ''$now'' v)\<lparr>s_finished := a, s_output := b\<rparr>) db) (\<lambda>db. Inr (db, ())))"
proof (rule txnI)
  fix db db' x
  assume "running_at wid db" "steps_ok db"
    "try_ok (insert_step ((new_step wid n ''$now'' v)\<lparr>s_finished := a, s_output := b\<rparr>) db) (\<lambda>db. Inr (db, ())) = Inr (db', x)"
  then show "patch t db db' \<and> steps_ok db'"
    using steps_ok_insert [of db "(new_step wid n ''$now'' v)\<lparr>s_finished := a, s_output := b\<rparr>" db'] running_wf
    by (auto intro: patch_same)
qed

lemma fenced_op_ok:
  assumes "jwf db"
  shows "Terminal status \<Longrightarrow> patch (unix_ms now) db (committed db (finishWorkflow f now status msg db)) \<and>
      steps_ok (committed db (finishWorkflow f now status msg db))"
    and "patch (unix_ms now) db (committed db (beginStep f now n name existing db)) \<and>
      steps_ok (committed db (beginStep f now n name existing db))"
    and "patch (unix_ms now) db (committed db (finishStep f now n out err failwf db)) \<and>
      steps_ok (committed db (finishStep f now n out err failwf db))"
    and "patch (unix_ms now) db (committed db (retryStep f now n err ra susp db)) \<and>
      steps_ok (committed db (retryStep f now n err ra susp db))"
    and "patch (unix_ms now) db (committed db (suspend f now wake db)) \<and>
      steps_ok (committed db (suspend f now wake db))"
    and "patch (unix_ms now) db (committed db (sleepStep f now n existing wake db)) \<and>
      steps_ok (committed db (sleepStep f now n existing wake db))"
    and "patch (unix_ms now) db (committed db (nowStep f now n db)) \<and>
      steps_ok (committed db (nowStep f now n db))"
proof -
  have b: "txn t (f_id f) (if existing then begin_again (f_id f) now n name else begin_new (f_id f) now n name)" for t
    by (simp add: txn_begin_again txn_begin_new)
  show "Terminal status \<Longrightarrow> patch (unix_ms now) db (committed db (finishWorkflow f now status msg db)) \<and>
      steps_ok (committed db (finishWorkflow f now status msg db))"
    unfolding finishWorkflow_def by (rule fenced_txn [OF _ assms]) (auto intro!: txnI intro: txn_intros)
  show "patch (unix_ms now) db (committed db (beginStep f now n name existing db)) \<and>
      steps_ok (committed db (beginStep f now n name existing db))"
    unfolding beginStep_def by (rule fenced_txn [OF txn_boundary [OF b] assms])
  show "patch (unix_ms now) db (committed db (finishStep f now n out err failwf db)) \<and>
      steps_ok (committed db (finishStep f now n out err failwf db))"
    unfolding finishStep_def by (rule fenced_txn [OF txn_finishStep assms])
  show "patch (unix_ms now) db (committed db (retryStep f now n err ra susp db)) \<and>
      steps_ok (committed db (retryStep f now n err ra susp db))"
    unfolding retryStep_def by (rule fenced_txn [OF txn_retryStep assms])
  show "patch (unix_ms now) db (committed db (suspend f now wake db)) \<and> steps_ok (committed db (suspend f now wake db))"
    unfolding suspend_def by (rule fenced_txn [OF _ assms]) (auto intro!: txnI intro: txn_intros)
  show "patch (unix_ms now) db (committed db (sleepStep f now n existing wake db)) \<and>
      steps_ok (committed db (sleepStep f now n existing wake db))"
    unfolding sleepStep_def by (rule fenced_txn [OF txn_boundary [OF txn_sleep] assms])
  show "patch (unix_ms now) db (committed db (nowStep f now n db)) \<and> steps_ok (committed db (nowStep f now n db))"
    unfolding nowStep_def by (rule fenced_txn [OF txn_nowStep assms])
qed

section \<open>The statements outside the fence\<close>

lemma claim_patch:
  assumes "runner \<noteq> []"
  shows "patch t db (fst (claim wid runner kinds now lease grace db))"
proof -
  let ?can = "\<lambda>w. w_id w = wid \<and> claimable kinds (unix_ms now) (dur_ms grace) w"
  let ?f = "\<lambda>w. w\<lparr>w_status := WfRunning, w_runner := runner, w_epoch := w_epoch w + 1,
    w_lease_until := unix_ms (now + lease), w_wake := None, w_updated := unix_ms now\<rparr>"
  have "patch t db (db\<lparr>wfs := sql_update ?can ?f (wfs db)\<rparr>)"
    by (rule patch_update [where P = ?can])
      (use assms in \<open>auto simp: evolve_def row_ok_def claimable_def Terminal_def\<close>)
  then show ?thesis by (simp add: claim_def Let_def)
qed

lemma renew_patch: "patch (unix_ms now) db (fst (renew f now lease db))"
  by (rule patch_update [where P = "owns f (unix_ms now)"])
    (auto simp: renew_def evolve_def row_ok_def owns_def Terminal_def)

lemma release_patch: "patch t db (release f now db)"
  by (rule patch_update [where P = "\<lambda>w. w_id w = f_id f \<and> w_runner w = f_runner f \<and> w_epoch w = f_epoch f \<and>
        w_status w = WfRunning"])
    (auto simp: release_def evolve_def row_ok_def Terminal_def)

lemma row_of:
  assumes "distinct (map w_id (wfs db))" "sql_first (\<lambda>w. w_id w = wid) (wfs db) = Some w"
    "v \<in> set (wfs db)" "w_id v = wid"
  shows "v = w"
proof -
  from assms(2) have "w \<in> set (wfs db)" "w_id w = wid" by (auto dest: sql_first_Some)
  with assms key_row_unique [of w_id "wfs db" v w] show ?thesis by simp
qed

lemma cancel_patch:
  assumes "jwf db"
  shows "patch t db (committed db (cancel wid reason now db))"
proof (cases "sql_first (\<lambda>w. w_id w = wid) (wfs db)")
  case None
  then show ?thesis by (simp add: cancel_def committed_def)
next
  case (Some w)
  note only = row_of [OF _ Some]
  have d: "distinct (map w_id (wfs db))" using assms by (simp add: jwf_def)
  show ?thesis
  proof (cases "w_status w = WfPending \<or> w_status w = WfWaiting")
    case True
    let ?f = "\<lambda>w. w\<lparr>w_status := WfCancelled, w_error := truncate_bytes reason maxErrorBytes, w_runner := [],
       w_lease_until := 0, w_wake := None, w_cancel_requested := False, w_updated := unix_ms now,
       w_finished := Some (unix_ms now), w_cancel_reason := truncate_bytes reason maxReasonBytes\<rparr>"
    have "wfs (on_wf wid (\<lambda>w. w\<lparr>w_cancel_reason := truncate_bytes reason maxReasonBytes\<rparr>)
        (terminalTx wid WfCancelled reason now db)) = sql_update (\<lambda>w. w_id w = wid) ?f (wfs db)"
      by (simp add: on_wf_def terminalTx_def sql_update_def)
    moreover have "evolve t v (?f v)" if "v \<in> set (wfs db)" "w_id v = wid" for v
      using only [OF d that] True by (auto simp: evolve_def row_ok_def Terminal_def)
    ultimately show ?thesis using True Some
      by (intro patch_update [where P = "\<lambda>w. w_id w = wid" and f = ?f]) (auto simp: cancel_def committed_def)
  next
    case False
    have "patch t db (on_wf wid (\<lambda>w. w\<lparr>w_cancel_requested := True,
        w_cancel_reason := truncate_bytes reason maxReasonBytes, w_updated := unix_ms now\<rparr>) db)"
      if "w_status w = WfRunning"
      by (rule patch_update [where P = "\<lambda>w. w_id w = wid"])
        (use only [OF d] that in \<open>auto simp: on_wf_def evolve_def row_ok_def Terminal_def\<close>)
    with False Some show ?thesis by (auto simp: cancel_def committed_def)
  qed
qed

lemma cancel_steps: "steps (committed db (cancel wid reason now db)) = steps db"
  by (auto simp: cancel_def committed_def on_wf_def terminalTx_def split: option.splits)

section \<open>Every operation\<close>

definition appended :: "jdb \<Rightarrow> jdb \<Rightarrow> bool" where
  "appended db db' \<longleftrightarrow> (\<exists>w. wfs db' = wfs db @ [w] \<and> w_id w \<notin> w_id ` set (wfs db) \<and> row_ok w \<and>
     w_status w = WfPending \<and> steps db' = steps db)"

lemma row_ok_new: "row_ok (new_row wid kind input prot v)"
  by (simp add: row_ok_def new_row_def Terminal_def)

text \<open>Every operation but the pruning either patches the rows or appends a fresh one.\<close>

lemma op_cases:
  assumes "jwf db" "op_ok op" "\<not> is_prune op"
  shows "patch (unix_ms (op_time op)) db (apply_op op db) \<and> steps_ok (apply_op op db) \<or> appended db (apply_op op db)"
proof -
  have so: "steps_ok db" using assms(1) by (simp add: jwf_iff)
  have keep: "steps_ok db'" if "patch t db db'" "steps db' = steps db" for t db'
    using steps_ok_patch that so by blast
  show ?thesis
  proof (cases op)
    case (JInsert wid k inp prot now)
    then show ?thesis using so row_ok_new [of wid k inp prot]
      by (auto simp: insertWorkflow_def appended_def) (auto simp: new_row_def)
  next
    case (JInsertOnce wid k inp prot now)
    then show ?thesis using so row_ok_new [of wid k inp prot]
      by (auto simp: insertWorkflowOnce_def appended_def) (auto simp: new_row_def)
  next
    case (JClaim wid runner kinds now lease grace)
    then have "patch (unix_ms now) db (fst (claim wid runner kinds now lease grace db))"
      using assms(2) claim_patch by simp
    moreover have "steps (fst (claim wid runner kinds now lease grace db)) = steps db"
      by (simp add: claim_def Let_def)
    ultimately show ?thesis using JClaim keep by auto
  next
    case (JRenew f now lease)
    have "steps (fst (renew f now lease db)) = steps db" by (simp add: renew_def)
    with JRenew keep [OF renew_patch] renew_patch show ?thesis by simp
  next
    case (JRelease f now)
    have "steps (release f now db) = steps db" by (simp add: release_def)
    with JRelease keep [OF release_patch] release_patch show ?thesis by simp
  next
    case (JCancel wid reason now)
    with keep [OF cancel_patch [OF assms(1)]] cancel_patch [OF assms(1)] cancel_steps show ?thesis by simp
  next
    case (JPrune now cutoff lmt)
    with assms(3) show ?thesis by simp
  qed (use fenced_op_ok [OF assms(1)] assms(2) in simp_all)
qed

lemma prune_jwf: "jwf db \<Longrightarrow> jwf (fst (prune cutoff lmt db))"
  by (auto simp: jwf_def prune_def Let_def sql_delete_def distinct_map_filter)

lemma apply_op_jwf:
  assumes "jwf db" "op_ok op"
  shows "jwf (apply_op op db)"
proof (cases "is_prune op")
  case True
  then show ?thesis using prune_jwf [OF assms(1)] by (cases op) auto
next
  case False
  from op_cases [OF assms False] show ?thesis
  proof
    assume "patch (unix_ms (op_time op)) db (apply_op op db) \<and> steps_ok (apply_op op db)"
    then show ?thesis using patch_jwf [OF assms(1)] by blast
  next
    assume "appended db (apply_op op db)"
    then show ?thesis using assms(1) by (auto simp: appended_def jwf_def)
  qed
qed

lemma run_ops_jwf: "jwf db \<Longrightarrow> \<forall>op \<in> set ops. op_ok op \<Longrightarrow> jwf (run_ops ops db)"
  unfolding run_ops_def by (induction ops arbitrary: db) (auto intro: apply_op_jwf)

text \<open>A row of the later database comes from the same workflow's row before, unless it is fresh.\<close>

lemma op_row:
  assumes "jwf db" "op_ok op" "\<not> is_prune op" "w' \<in> set (wfs (apply_op op db))" "w_id w' \<in> w_id ` set (wfs db)"
  obtains w where "w \<in> set (wfs db)" "evolve (unix_ms (op_time op)) w w'"
  using op_cases [OF assms(1-3)] assms(4,5) that
  by (auto simp: appended_def elim!: patch_row)

lemma op_row_fwd:
  assumes "jwf db" "op_ok op" "\<not> is_prune op" "w \<in> set (wfs db)"
  obtains w' where "w' \<in> set (wfs (apply_op op db))" "evolve (unix_ms (op_time op)) w w'"
  using op_cases [OF assms(1-3)]
proof
  assume "patch (unix_ms (op_time op)) db (apply_op op db) \<and> steps_ok (apply_op op db)"
  then show thesis using patch_row_fwd assms(4) that by blast
next
  assume "appended db (apply_op op db)"
  then have "w \<in> set (wfs (apply_op op db))" using assms(4) by (auto simp: appended_def)
  with that show thesis using evolve_refl by blast
qed

section \<open>Fences\<close>

text \<open>A fence that was issued for a workflow and does not own it at time \<open>t\<close>.\<close>

definition fenced_out :: "fence \<Rightarrow> go_time \<Rightarrow> jdb \<Rightarrow> bool" where
  "fenced_out f t db \<longleftrightarrow> (\<exists>w \<in> set (wfs db). w_id w = f_id f \<and> f_epoch f \<le> w_epoch w \<and> \<not> owns f (unix_ms t) w)"

lemma fenced_out_count:
  assumes "jwf db" "fenced_out f t db"
  shows "sql_count (owns f (unix_ms t)) (wfs db) = 0"
proof -
  obtain w where w: "w \<in> set (wfs db)" "w_id w = f_id f" "\<not> owns f (unix_ms t) w"
    using assms(2) by (auto simp: fenced_out_def)
  have "\<not> owns f (unix_ms t) v" if "v \<in> set (wfs db)" for v
    using that w assms(1) key_row_unique [of w_id "wfs db" v w] by (auto simp: jwf_def owns_def)
  then show ?thesis by (simp only: sql_count_0_iff) blast
qed

lemma fenced_out_error: "jwf db \<Longrightarrow> fenced_out f t db \<Longrightarrow> fenced f t body db = Inl ErrLeaseLost"
  using fenced_out_count by (simp add: fenced_def)

lemma owns_evolve_back:
  assumes "evolve t w w'" "owns f s w'" "t \<le> s" "f_epoch f \<le> w_epoch w"
  shows "owns f t w"
proof -
  have o: "w_id w' = f_id f" "w_runner w' = f_runner f" "w_epoch w' = f_epoch f" "w_status w' = WfRunning"
    "s < w_lease_until w'"
    using assms(2) by (simp_all add: owns_def)
  have e: "w_epoch w' = w_epoch w" using evolve_epoch [OF assms(1)] assms(4) o(3) by simp
  from evolve_running [OF assms(1) o(4) e] o evolve_id [OF assms(1)] e assms(3) show ?thesis
    by (auto simp: owns_def)
qed

lemma fenced_out_op:
  assumes "jwf db" "op_ok op" "\<not> is_prune op" "fenced_out f t db" "t \<le> op_time op"
  shows "fenced_out f (op_time op) (apply_op op db)"
proof -
  obtain w where w: "w \<in> set (wfs db)" "w_id w = f_id f" "f_epoch f \<le> w_epoch w" "\<not> owns f (unix_ms t) w"
    using assms(4) by (auto simp: fenced_out_def)
  obtain w' where w': "w' \<in> set (wfs (apply_op op db))" "evolve (unix_ms (op_time op)) w w'"
    using op_row_fwd [OF assms(1-3) w(1)] .
  have "\<not> owns f (unix_ms (op_time op)) w'"
  proof
    assume "owns f (unix_ms (op_time op)) w'"
    from owns_evolve_back [OF w'(2) this order_refl w(3)] have "owns f (unix_ms (op_time op)) w" .
    then have "owns f (unix_ms t) w" using unix_ms_mono [OF assms(5)] by (auto simp: owns_def)
    with w(4) show False ..
  qed
  moreover have "w_id w' = f_id f" "f_epoch f \<le> w_epoch w'"
    using evolve_id [OF w'(2)] evolve_epoch [OF w'(2)] w by simp_all
  ultimately show ?thesis using w'(1) unfolding fenced_out_def by blast
qed

lemma fenced_out_later: "fenced_out f t db \<Longrightarrow> t \<le> s \<Longrightarrow> fenced_out f s db"
  using unix_ms_mono [of t s] by (fastforce simp: fenced_out_def owns_def)

lemma fenced_out_run:
  assumes "jwf db" "\<forall>op \<in> set ops. op_ok op \<and> \<not> is_prune op" "fenced_out f t db"
    "sorted (t # map op_time ops)" "\<forall>op \<in> set ops. op_time op \<le> s" "t \<le> s"
  shows "fenced_out f s (run_ops ops db)"
  using assms
proof (induction ops arbitrary: t db)
  case Nil
  then show ?case by (auto simp: run_ops_def intro: fenced_out_later)
next
  case (Cons op ops)
  have "fenced_out f (op_time op) (apply_op op db)"
    using Cons.prems by (intro fenced_out_op [where t = t]) auto
  moreover have "jwf (apply_op op db)" using Cons.prems by (intro apply_op_jwf) auto
  ultimately have "fenced_out f s (run_ops ops (apply_op op db))"
    using Cons.prems by (intro Cons.IH [where t = "op_time op"]) auto
  then show ?case by (simp add: run_ops_def)
qed

text \<open>What a successful claim found and left.\<close>

lemma claim_SomeD:
  assumes "jwf db" "claim wid runner kinds now lease grace db = (db', Some e)"
  obtains w where "w \<in> set (wfs db)" "w_id w = wid" "claimable kinds (unix_ms now) (dur_ms grace) w" "e = w_epoch w + 1"
    "w\<lparr>w_status := WfRunning, w_runner := runner, w_epoch := e, w_lease_until := unix_ms (now + lease),
       w_wake := None, w_updated := unix_ms now\<rparr> \<in> set (wfs db')"
proof -
  let ?can = "\<lambda>w. w_id w = wid \<and> claimable kinds (unix_ms now) (dur_ms grace) w"
  let ?f = "\<lambda>w. w\<lparr>w_status := WfRunning, w_runner := runner, w_epoch := w_epoch w + 1,
    w_lease_until := unix_ms (now + lease), w_wake := None, w_updated := unix_ms now\<rparr>"
  have c: "sql_count ?can (wfs db) = 1" and db': "db' = db\<lparr>wfs := sql_update ?can ?f (wfs db)\<rparr>"
    and e: "map_option w_epoch (sql_first (\<lambda>w. w_id w = wid) (wfs db')) = Some e"
    using assms(2) by (auto simp: claim_def Let_def split: if_splits)
  from c obtain w where w: "w \<in> set (wfs db)" "?can w"
    using sql_count_pos_iff [of ?can "wfs db"] by auto
  have d: "distinct (map w_id (wfs db))" using assms(1) by (simp add: jwf_def)
  have in': "?f w \<in> set (wfs db')" using w db' by (force simp: sql_update_def)
  have "distinct (map w_id (wfs db'))"
    using d db' by (simp add: map_key_sql_update)
  then have "sql_first (\<lambda>w. w_id w = wid) (wfs db') = Some (?f w)"
    by (rule sql_first_key [OF _ in']) (use w in simp)
  with e have "e = w_epoch w + 1" by simp
  with that [OF w(1)] w(2) in' show thesis by simp
qed

section \<open>Properties\<close>

definition empty_jdb :: jdb where
  "empty_jdb = \<lparr>wfs = [], steps = []\<rparr>"

text \<open>
  C9. The tables keep their invariant through every history of the store: workflow ids and step slots are
  unique, steps belong to a workflow and were started between one and ten times, a runner is recorded
  exactly while the workflow runs, a wake time exactly while it waits and a finish time exactly once
  it ended, and an ended workflow has no pending cancel request.
\<close>

theorem journal_tables_invariant:
  assumes "\<forall>op \<in> set ops. op_ok op"
  shows "jwf (run_ops ops empty_jdb)"
  using run_ops_jwf [OF jwf_empty assms] by (simp add: empty_jdb_def)

text \<open>
  C7. A lost lease is final. A runner whose fence does not hold the workflow at some time (its lease ran
  out, it gave the workflow up, or another claim raised the epoch) fails every later fenced write with
  \<open>ErrLeaseLost\<close>, whatever any runner does in between.
\<close>

theorem lost_lease_is_final:
  assumes "jwf db" "\<forall>op \<in> set ops. op_ok op \<and> \<not> is_prune op" "fenced_out f t db"
    "sorted (t # map op_time ops)" "\<forall>op \<in> set ops. op_time op \<le> s" "t \<le> s"
  shows "fenced f s body (run_ops ops db) = Inl ErrLeaseLost"
proof -
  have "jwf (run_ops ops db)" using run_ops_jwf assms(1,2) by blast
  then show ?thesis by (rule fenced_out_error [OF _ fenced_out_run [OF assms]])
qed

text \<open>
  Leases are exclusive. A claim succeeds only on a workflow that waits for a runner or whose lease ran out
  at least the grace period ago; it raises the epoch by one, and from then on every older fence of
  the workflow, of whatever runner, is out.
\<close>

theorem claim_is_exclusive:
  assumes "jwf db" "claim wid runner kinds now lease grace db = (db', Some e)" "0 \<le> grace" "0 \<le> e0" "e0 < e"
  shows "(\<exists>w \<in> set (wfs db). w_id w = wid \<and> w_epoch w = e - 1 \<and> \<not> Terminal (w_status w) \<and>
      (w_status w = WfRunning \<longrightarrow> w_lease_until w + dur_ms grace \<le> unix_ms now)) \<and>
    fenced_out \<lparr>f_id = wid, f_runner = r0, f_epoch = e0\<rparr> now db'"
proof -
  obtain w where w: "w \<in> set (wfs db)" "w_id w = wid" "claimable kinds (unix_ms now) (dur_ms grace) w" "e = w_epoch w + 1"
    and in': "w\<lparr>w_status := WfRunning, w_runner := runner, w_epoch := e, w_lease_until := unix_ms (now + lease),
       w_wake := None, w_updated := unix_ms now\<rparr> \<in> set (wfs db')"
    by (rule claim_SomeD [OF assms(1,2)])
  have "\<not> Terminal (w_status w) \<and> (w_status w = WfRunning \<longrightarrow> w_lease_until w + dur_ms grace \<le> unix_ms now)"
    using w(3) by (auto simp: claimable_def Terminal_def)
  moreover have "fenced_out \<lparr>f_id = wid, f_runner = r0, f_epoch = e0\<rparr> now db'"
    unfolding fenced_out_def using in' w(2) assms(5) by (intro bexI [OF _ in']) (auto simp: owns_def)
  ultimately show ?thesis using w by auto
qed

text \<open>
  An ended workflow is immutable: no operation short of the pruning of old rows changes anything in its row.
\<close>

theorem ended_workflow_is_immutable:
  assumes "jwf db" "w \<in> set (wfs db)" "Terminal (w_status w)" "\<forall>op \<in> set ops. op_ok op \<and> \<not> is_prune op"
  shows "w \<in> set (wfs (run_ops ops db))"
  using assms
proof (induction ops arbitrary: db)
  case Nil
  then show ?case by (simp add: run_ops_def)
next
  case (Cons op ops)
  obtain w' where w': "w' \<in> set (wfs (apply_op op db))" "evolve (unix_ms (op_time op)) w w'"
    using op_row_fwd [OF Cons.prems(1) _ _ Cons.prems(2)] Cons.prems(4) by auto
  then have "w \<in> set (wfs (apply_op op db))" using evolve_terminal_eq Cons.prems(3) by metis
  then have "w \<in> set (wfs (run_ops ops (apply_op op db)))"
    using Cons.prems apply_op_jwf by (intro Cons.IH) auto
  then show ?case by (simp add: run_ops_def)
qed

section \<open>Witnesses\<close>

definition example_ops :: "jop list" where
  "example_ops =
     [JInsert ''wf1'' ''demo'' ''null'' False 0,
      JClaim ''wf1'' ''A'' [''demo''] 0 (30 * second) (10 * second),
      JBegin \<lparr>f_id = ''wf1'', f_runner = ''A'', f_epoch = 1\<rparr> second 0 ''buy'' False,
      JClaim ''wf1'' ''B'' [''demo''] (40 * second) (30 * second) (10 * second)]"

definition fence_A :: fence where
  "fence_A = \<lparr>f_id = ''wf1'', f_runner = ''A'', f_epoch = 1\<rparr>"

definition example_jdb :: jdb where
  "example_jdb = run_ops example_ops empty_jdb"

lemma example_ops_ok: "\<forall>op \<in> set example_ops. op_ok op"
  by (simp add: example_ops_def)

theorem journal_tables_invariant_witness: "jwf example_jdb \<and> map s_attempts (steps example_jdb) = [1]"
proof
  show "jwf example_jdb" unfolding example_jdb_def by (rule journal_tables_invariant [OF example_ops_ok])
  show "map s_attempts (steps example_jdb) = [1]" by code_simp
qed

lemma example_jdb_eq:
  "example_jdb =
     \<lparr>wfs = [(new_row ''wf1'' ''demo'' ''null'' False 0)\<lparr>w_status := WfRunning, w_runner := ''B'', w_epoch := 2,
        w_lease_until := 70000, w_updated := 40000\<rparr>],
      steps = [new_step ''wf1'' 0 ''buy'' 1000]\<rparr>"
  by code_simp

lemma example_jdb_jwf: "jwf example_jdb"
  unfolding example_jdb_def empty_jdb_def by (rule run_ops_jwf [OF jwf_empty example_ops_ok])

theorem lost_lease_is_final_witness:
  "finishStep fence_A (50 * second) 0 ''1'' [] []
     (run_ops [JRenew fence_A (45 * second) (30 * second)] example_jdb) = Inl ErrLeaseLost"
  unfolding finishStep_def
  by (rule lost_lease_is_final [OF example_jdb_jwf, where t = "40 * second"])
    (auto simp: fenced_out_def example_jdb_eq new_row_def fence_A_def owns_def)

theorem claim_is_exclusive_witness:
  "fenced_out fence_A (40 * second) example_jdb"
proof -
  have j: "jwf (run_ops (take 3 example_ops) empty_jdb)"
    unfolding empty_jdb_def by (rule run_ops_jwf [OF jwf_empty]) (simp add: example_ops_def)
  have "claim ''wf1'' ''B'' [''demo''] (40 * second) (30 * second) (10 * second) (run_ops (take 3 example_ops) empty_jdb)
      = (example_jdb, Some 2)"
    by code_simp
  from claim_is_exclusive [OF j this, of 1 "''A''"] show ?thesis by (simp add: fence_A_def)
qed

definition ended_row :: wf_row where
  "ended_row = (new_row ''wf0'' ''demo'' ''null'' False 0)\<lparr>w_status := WfSucceeded, w_finished := Some 5\<rparr>"

theorem ended_workflow_is_immutable_witness:
  "ended_row \<in> set (wfs (run_ops [JCancel ''wf0'' ''stop'' second, JClaim ''wf0'' ''A'' [''demo''] second second 0]
     \<lparr>wfs = [ended_row], steps = []\<rparr>))"
  by (rule ended_workflow_is_immutable)
    (auto simp: jwf_def row_ok_def ended_row_def new_row_def Terminal_def)

end
