(* ===== verification/JournalCtx.thy ===== *)
theory JournalCtx
  imports Journal
begin

text \<open>
  What a workflow function may do (\<open>pkg/journal/ctx.go\<close>), the end of a run (\<open>run.go\<close>) and the starting
  and cancelling of workflows (\<open>engine.go\<close>). A \<open>ctx\<close> is one execution of the function: the journal rows it
  was resumed with, the next slot, the halt that ended it and whether the lease is known to be lost.
  What happens outside during one round of a step (clock readings, stop signals, the result of the step
  function) is a \<open>step_env\<close>; the endless \<open>for\<close> of \<open>runStep\<close> has fuel, and ten rounds are shown to be enough.
  JSON text is carried as it is stored; decoding it into a Go value is left to the caller on the first
  run and on a replay alike.
\<close>

section \<open>Names and options\<close>

definition name_char :: "char \<Rightarrow> bool" where
  "name_char c \<longleftrightarrow> (let n = (of_char c :: nat) in (48 \<le> n \<and> n \<le> 57) \<or> (65 \<le> n \<and> n \<le> 90) \<or> (97 \<le> n \<and> n \<le> 122))"

definition checkName :: "string \<Rightarrow> bool" where
  "checkName name \<longleftrightarrow> length name \<le> maxNameLen \<and>
     (case name of [] \<Rightarrow> False
      | c # cs \<Rightarrow> name_char c \<and> (\<forall>d \<in> set cs. name_char d \<or> d \<in> {CHR ''_'', CHR ''.'', CHR ''-''}))"

record step_opts =
  so_retries :: int
  so_backoff :: duration

definition Retries :: "int \<Rightarrow> int" where
  "Retries n = (let n = (if n < 0 then 0 else n)
     in if n > int MaxStepAttempts - 1 then int MaxStepAttempts - 1 else n)"

text \<open>Durations are signed 64-bit integers, and the doubling wraps.\<close>

definition wrap64 :: "int \<Rightarrow> int" where
  "wrap64 x = (x + 9223372036854775808) mod 18446744073709551616 - 9223372036854775808"

definition maxBackoff :: duration where "maxBackoff = hour"

fun backoff_loop :: "nat \<Rightarrow> duration \<Rightarrow> duration" where
  "backoff_loop 0 d = (if d > maxBackoff then maxBackoff else d)"
| "backoff_loop (Suc k) d =
     (let d = wrap64 (d * 2) in if d \<ge> maxBackoff \<or> d \<le> 0 then maxBackoff else backoff_loop k d)"

definition backoffFor :: "duration \<Rightarrow> nat \<Rightarrow> duration" where
  "backoffFor base failures = (if base \<le> 0 then 0 else backoff_loop (failures - 1) base)"

section \<open>The context\<close>

datatype ctx_err = CStore jerr | CSuspended | CCancelled | CLeaseLost | CInterrupted | CTooManySteps nat
  | CNonDeterministic nat | CTooManyAttempts string | CStepError string nat nat string | COutput string | CInvalidName

datatype halt_kind = HSuspend | HCancel | HFailed | HFailNow | HLost | HInterrupt | HStore

record ctx =
  c_fence :: fence
  c_rows :: "step_row list"
  c_seq :: nat
  c_halt :: "(halt_kind \<times> ctx_err) option"
  c_lost :: bool

datatype step_res = SOk string | SErr ctx_err

definition halted :: "halt_kind \<Rightarrow> ctx_err \<Rightarrow> ctx \<Rightarrow> step_res \<times> ctx" where
  "halted kind err c =
     (case c_halt c of Some (_, e) \<Rightarrow> (SErr e, c) | None \<Rightarrow> (SErr err, c\<lparr>c_halt := Some (kind, err)\<rparr>))"

definition pre :: "bool \<Rightarrow> ctx \<Rightarrow> (step_res \<times> ctx) option" where
  "pre interrupted c =
     (if c_lost c then Some (halted HLost CLeaseLost c)
      else if interrupted then Some (halted HInterrupt CInterrupted c)
      else None)"

definition storeErr :: "jerr \<Rightarrow> ctx \<Rightarrow> step_res \<times> ctx" where
  "storeErr e c =
     (if e = ErrLeaseLost then halted HLost CLeaseLost (c\<lparr>c_lost := True\<rparr>) else halted HStore (CStore e) c)"

datatype slot = SlotRow nat step_row | SlotNew nat

definition nextSlot :: "nat \<Rightarrow> string \<Rightarrow> ctx \<Rightarrow> (step_res + slot) \<times> ctx" where
  "nextSlot maxSteps name c =
     (if c_seq c \<ge> maxSteps then
        (let (r, c) = halted HFailNow (CTooManySteps maxSteps) c in (Inl r, c))
      else let n = c_seq c; c = c\<lparr>c_seq := n + 1\<rparr>
        in if n < length (c_rows c) then
             (if s_name (c_rows c ! n) \<noteq> name
              then (let (r, c) = halted HFailNow (CNonDeterministic n) c in (Inl r, c))
              else (Inr (SlotRow n (c_rows c ! n)), c))
           else (Inr (SlotNew n), c))"

section \<open>Running a step\<close>

datatype fn_outcome = FnVal string | FnNotJSON string | FnErr string bool \<comment> \<open>redacted text, non-retryable\<close>
  | FnPanic string

record step_env =
  e_interrupted :: bool \<comment> \<open>at the boundary: the engine is stopping\<close>
  e_now :: go_time
  e_fn :: "nat \<Rightarrow> fn_outcome" \<comment> \<open>by attempt\<close>
  e_cancelled :: bool \<comment> \<open>the step context ended before the function returned\<close>
  e_lost :: bool \<comment> \<open>because the lease was lost\<close>
  e_done :: go_time

definition not_json_text :: "string \<Rightarrow> string \<Rightarrow> string" where
  "not_json_text name why = ''journal: the output of step '' @ name @ '' is not JSON-serialisable: '' @ why"

definition too_large_text :: "string \<Rightarrow> string \<Rightarrow> string" where
  "too_large_text name b =
     ''journal: step output too large: step '' @ name @ '' returned '' @ itoa (int (length b)) @ '' bytes''"

definition stored :: "jerr + jdb \<times> 'a \<Rightarrow> ctx \<Rightarrow> jdb \<Rightarrow> (jdb \<Rightarrow> (step_res \<times> ctx) \<times> jdb) \<Rightarrow> (step_res \<times> ctx) \<times> jdb" where
  "stored res c db k = (case res of Inl e \<Rightarrow> (storeErr e c, db) | Inr (db', _) \<Rightarrow> k db')"

text \<open>
  An output that cannot be stored, or a panic: the step and the workflow fail together, so that nothing
  ever runs the step again.
\<close>

definition fail_step :: "fence \<Rightarrow> go_time \<Rightarrow> nat \<Rightarrow> string \<Rightarrow> string \<Rightarrow> ctx_err \<Rightarrow> ctx \<Rightarrow> jdb \<Rightarrow> (step_res \<times> ctx) \<times> jdb" where
  "fail_step f done n msg failwf err c db =
     stored (finishStep f done n [] msg failwf db) c db (\<lambda>db. (halted HFailed err c, db))"

text \<open>After the step function returned: \<open>Inr\<close> with the database when the loop goes on at once.\<close>

definition after_fn ::
  "step_opts \<Rightarrow> step_env \<Rightarrow> nat \<Rightarrow> string \<Rightarrow> nat \<Rightarrow> nat \<Rightarrow> ctx \<Rightarrow> jdb \<Rightarrow> ((step_res \<times> ctx) \<times> jdb) + jdb" where
  "after_fn opts e n name attempt failures c db =
     (case e_fn e attempt of
        FnPanic txt \<Rightarrow>
          (let msg = ''panic in step: '' @ txt
           in Inl (fail_step (c_fence c) (e_done e) n msg (''step '' @ name @ '' panicked'')
                (CStepError name n attempt msg) c db))
      | FnErr txt nonretryable \<Rightarrow>
          if e_cancelled e then
            Inl (if e_lost e then halted HLost CLeaseLost (c\<lparr>c_lost := True\<rparr>) else halted HInterrupt CInterrupted c, db)
          else if int (failures + 1) \<le> so_retries opts \<and> attempt < MaxStepAttempts \<and> \<not> nonretryable then
            (let delay = backoffFor (so_backoff opts) (failures + 1)
             in case retryStep (c_fence c) (e_done e) n txt (e_done e + delay) (delay > 0) db of
                  Inl err \<Rightarrow> Inl (storeErr err c, db)
                | Inr (db', _) \<Rightarrow> if delay > 0 then Inl (halted HSuspend CSuspended c, db') else Inr db')
          else Inl (stored (finishStep (c_fence c) (e_done e) n [] txt [] db) c db
                 (\<lambda>db. ((SErr (CStepError name n attempt (truncate_bytes txt maxErrorBytes)), c), db)))
      | FnNotJSON why \<Rightarrow>
          (let msg = not_json_text name why
           in Inl (fail_step (c_fence c) (e_done e) n msg msg (COutput msg) c db))
      | FnVal b \<Rightarrow>
          if length b > MaxOutputBytes then
            (let msg = too_large_text name b
             in Inl (fail_step (c_fence c) (e_done e) n msg msg (COutput msg) c db))
          else Inl (stored (finishStep (c_fence c) (e_done e) n b [] [] db) c db (\<lambda>db. ((SOk b, c), db))))"

text \<open>
  One round of the loop. \<open>wake\<close> is the stored wake time of a failed attempt waiting out its backoff; the
  persisted time is kept.
\<close>

definition step_round ::
  "step_opts \<Rightarrow> step_env \<Rightarrow> nat \<Rightarrow> string \<Rightarrow> bool \<Rightarrow> go_time option \<Rightarrow> ctx \<Rightarrow> jdb \<Rightarrow> ((step_res \<times> ctx) \<times> jdb) + jdb" where
  "step_round opts e n name existing wake c db =
     (case pre (e_interrupted e) c of
        Some r \<Rightarrow> Inl (r, db)
      | None \<Rightarrow>
        (case (case wake of None \<Rightarrow> None | Some w \<Rightarrow> if e_now e < w then Some w else None) of
           Some w \<Rightarrow> Inl (stored (suspend (c_fence c) (e_now e) w db) c db (\<lambda>db. (halted HSuspend CSuspended c, db)))
         | None \<Rightarrow>
           (case beginStep (c_fence c) (e_now e) n name existing db of
              Inl err \<Rightarrow> Inl (storeErr err c, db)
            | Inr (db, BeginCancelled) \<Rightarrow> Inl (halted HCancel CCancelled c, db)
            | Inr (db, BeginFailed msg) \<Rightarrow> Inl (halted HFailed (CTooManyAttempts msg) c, db)
            | Inr (db, Began attempt failures first) \<Rightarrow> after_fn opts e n name attempt failures c db)))"

text \<open>The list holds what happens in each round: \<open>None\<close> is a loop that needs more rounds than it has.\<close>

fun runStep ::
  "step_opts \<Rightarrow> step_env list \<Rightarrow> nat \<Rightarrow> string \<Rightarrow> bool \<Rightarrow> go_time option \<Rightarrow> ctx \<Rightarrow> jdb \<Rightarrow> ((step_res \<times> ctx) \<times> jdb) option" where
  "runStep opts [] n name existing wake c db = None"
| "runStep opts (e # envs) n name existing wake c db =
     (case step_round opts e n name existing wake c db of
        Inl r \<Rightarrow> Some r
      | Inr db' \<Rightarrow> runStep opts envs n name True None c db')"

definition replay_result :: "string \<Rightarrow> nat \<Rightarrow> step_row \<Rightarrow> step_res" where
  "replay_result name n r =
     (if s_error r \<noteq> [] then SErr (CStepError name n (s_attempts r) (s_error r))
      else SOk (case s_output r of None \<Rightarrow> [] | Some b \<Rightarrow> b))"

definition Step :: "nat \<Rightarrow> string \<Rightarrow> step_opts \<Rightarrow> step_env list \<Rightarrow> ctx \<Rightarrow> jdb \<Rightarrow> ((step_res \<times> ctx) \<times> jdb) option" where
  "Step maxSteps name opts envs c db =
     (case c_halt c of
        Some (_, err) \<Rightarrow> Some ((SErr err, c), db)
      | None \<Rightarrow>
        if \<not> checkName name then Some ((SErr CInvalidName, c), db)
        else case nextSlot maxSteps name c of
               (Inl r, c) \<Rightarrow> Some ((r, c), db)
             | (Inr (SlotNew n), c) \<Rightarrow> runStep opts envs n name False None c db
             | (Inr (SlotRow n r), c) \<Rightarrow>
                 if s_finished r \<noteq> None then Some ((replay_result name n r, c), db)
                 else runStep opts envs n name True (map_option from_ms (s_wake r)) c db)"

section \<open>Reading the time and sleeping\<close>

text \<open>\<open>Now\<close> reads a stored time back with \<open>strconv.ParseInt\<close>; only text \<open>Now\<close> itself stored is expected there.\<close>

fun digits_val :: "string \<Rightarrow> int \<Rightarrow> int option" where
  "digits_val [] acc = Some acc"
| "digits_val (c # cs) acc =
     (let n = (of_char c :: nat) in if 48 \<le> n \<and> n \<le> 57 then digits_val cs (acc * 10 + int (n - 48)) else None)"

definition ParseInt :: "string \<Rightarrow> int option" where
  "ParseInt s =
     (let (neg, ds) = (case s of [] \<Rightarrow> (False, []) | c # cs \<Rightarrow>
            if c = CHR ''-'' then (True, cs) else if c = CHR ''+'' then (False, cs) else (False, s))
      in if ds = [] then None
         else case digits_val ds 0 of
                None \<Rightarrow> None
              | Some v \<Rightarrow> (let v = (if neg then - v else v)
                  in if - 9223372036854775808 \<le> v \<and> v \<le> 9223372036854775807 then Some v else None))"

definition Now :: "nat \<Rightarrow> bool \<Rightarrow> go_time \<Rightarrow> ctx \<Rightarrow> jdb \<Rightarrow> (go_time \<times> ctx) \<times> jdb" where
  "Now maxSteps interrupted now c db =
     (if c_halt c \<noteq> None then ((now, c), db)
      else case nextSlot maxSteps ''$now'' c of
             (Inl _, c) \<Rightarrow> ((now, c), db)
           | (Inr (SlotRow n r), c) \<Rightarrow>
               (case (if s_finished r \<noteq> None then s_output r else None) of
                  None \<Rightarrow> ((now, snd (halted HFailNow (CNonDeterministic n) c)), db)
                | Some b \<Rightarrow>
                    (case ParseInt b of
                       Some v \<Rightarrow> ((from_ms v, c), db)
                     | None \<Rightarrow> ((now, snd (halted HFailNow (CNonDeterministic n) c)), db)))
           | (Inr (SlotNew n), c) \<Rightarrow>
               (case pre interrupted c of
                  Some (_, c) \<Rightarrow> ((now, c), db)
                | None \<Rightarrow>
                    (case nowStep (c_fence c) now n db of
                       Inl err \<Rightarrow> ((now, snd (storeErr err c)), db)
                     | Inr (db, _) \<Rightarrow> ((from_ms (unix_ms now), c), db))))"

text \<open>\<open>SleepUntil\<close>: \<open>None\<close> is the nil error. \<open>t\<close> is the wake time asked for.\<close>

definition SleepUntil :: "nat \<Rightarrow> bool \<Rightarrow> go_time \<Rightarrow> go_time \<Rightarrow> ctx \<Rightarrow> jdb \<Rightarrow> (step_res option \<times> ctx) \<times> jdb" where
  "SleepUntil maxSteps interrupted now t c db =
     (case c_halt c of
        Some (_, err) \<Rightarrow> ((Some (SErr err), c), db)
      | None \<Rightarrow>
        (case nextSlot maxSteps ''$sleep'' c of
           (Inl r, c) \<Rightarrow> ((Some r, c), db)
         | (Inr sl, c) \<Rightarrow>
           (let (n, row) = (case sl of SlotRow n r \<Rightarrow> (n, Some r) | SlotNew n \<Rightarrow> (n, None))
            in if (case row of None \<Rightarrow> False | Some r \<Rightarrow> s_finished r \<noteq> None) then ((None, c), db)
               else case pre interrupted c of
                      Some (r, c) \<Rightarrow> ((Some r, c), db)
                    | None \<Rightarrow>
                      (let wake = (case row of None \<Rightarrow> t | Some r \<Rightarrow> (case s_wake r of None \<Rightarrow> t | Some w \<Rightarrow> from_ms w))
                       in case sleepStep (c_fence c) now n (row \<noteq> None) (trunc_ms wake) db of
                            Inl err \<Rightarrow> (let (r, c) = storeErr err c in ((Some r, c), db))
                          | Inr (db, SleepDone) \<Rightarrow> ((None, c), db)
                          | Inr (db, SleepSuspended) \<Rightarrow> (let (r, c) = halted HSuspend CSuspended c in ((Some r, c), db))
                          | Inr (db, SleepCancelled) \<Rightarrow> (let (r, c) = halted HCancel CCancelled c in ((Some r, c), db))))))"

section \<open>Claiming, running to the end, starting and cancelling\<close>

datatype fn_end = EndNil | EndErr string | EndPanic string

definition halt_text :: "ctx_err \<Rightarrow> string" where
  "halt_text e = (case e of CTooManySteps _ \<Rightarrow> ''journal: workflow exceeded its step limit''
     | _ \<Rightarrow> ''journal: workflow is not deterministic: it no longer matches its journal'')"

text \<open>The context of a freshly claimed workflow; a gap in the journal halts it at once.\<close>

definition resume_ctx :: "fence \<Rightarrow> jdb \<Rightarrow> ctx" where
  "resume_ctx f db =
     (let rows = loadSteps (f_id f) db
      in \<lparr>c_fence = f, c_rows = rows, c_seq = 0,
          c_halt = (case List.find (\<lambda>(i, r). s_seq r \<noteq> i) (List.enumerate 0 rows) of
                      None \<Rightarrow> None | Some (i, _) \<Rightarrow> Some (HFailNow, CNonDeterministic i)),
          c_lost = False\<rparr>)"

definition finalize :: "go_time \<Rightarrow> fn_end \<Rightarrow> ctx \<Rightarrow> jdb \<Rightarrow> jdb" where
  "finalize now fe c db =
     (let finish = (\<lambda>status msg. committed db (finishWorkflow (c_fence c) now status msg db))
      in case c_halt c of
           Some (HFailNow, err) \<Rightarrow> finish WfFailed (halt_text err)
         | Some (HInterrupt, _) \<Rightarrow> release (c_fence c) now db
         | Some _ \<Rightarrow> db
         | None \<Rightarrow>
             (case fe of
                EndPanic txt \<Rightarrow> finish WfFailed (''panic in the workflow function: '' @ txt)
              | EndErr txt \<Rightarrow> finish WfFailed txt
              | EndNil \<Rightarrow>
                  if length (c_rows c) > c_seq c then finish WfFailed (halt_text (CNonDeterministic (c_seq c)))
                  else finish WfSucceeded []))"

text \<open>\<open>json.Valid\<close> is the standard library's check of JSON syntax, a parameter of the model.\<close>

definition encodeInput :: "(string \<Rightarrow> bool) \<Rightarrow> string \<Rightarrow> jerr + string" where
  "encodeInput json_valid raw =
     (let raw = (if raw = [] then ''null'' else raw)
      in if \<not> json_valid raw then Inl ErrInvalidInput
         else if length raw > MaxInputBytes then Inl ErrInputTooLarge
         else Inr raw)"

definition StartWithID ::
  "(string \<Rightarrow> bool) \<Rightarrow> (string \<rightharpoonup> bool) \<Rightarrow> string \<Rightarrow> string \<Rightarrow> string \<Rightarrow> go_time \<Rightarrow> jdb \<Rightarrow> jerr + jdb \<times> bool" where
  "StartWithID json_valid defs kind wid input now db =
     (case defs kind of
        None \<Rightarrow> Inl ErrUnknownKind
      | Some prot \<Rightarrow>
        if \<not> checkName wid then Inl ErrInvalidName
        else try_ok (encodeInput json_valid input) (\<lambda>raw.
          let (db', created) = insertWorkflowOnce wid kind raw prot now db
          in if created then Inr (db', True)
             else try_ok (getWorkflow wid db') (\<lambda>w.
               if w_kind w \<noteq> kind \<or> w_input w \<noteq> raw then Inl ErrIDInUse else Inr (db', False))))"

definition Cancel :: "string \<Rightarrow> string \<Rightarrow> go_time \<Rightarrow> jdb \<Rightarrow> jerr option \<times> jdb" where
  "Cancel wid reason now db =
     (case cancel wid reason now db of
        Inl e \<Rightarrow> (Some e, db)
      | Inr (db', status, changed) \<Rightarrow>
          (if status = WfSucceeded \<or> status = WfFailed then Some (ErrAlreadyFinished status) else None, db'))"

section \<open>Lemmas: the slot of a step\<close>

lemma wrap64_small: "- 9223372036854775808 \<le> x \<Longrightarrow> x < 9223372036854775808 \<Longrightarrow> wrap64 x = x"
  by (simp add: wrap64_def)

lemma wrap64_double:
  assumes "4611686018427387904 \<le> d" "d < 9223372036854775808"
  shows "wrap64 (d * 2) \<le> 0"
proof -
  have "d * 2 + 9223372036854775808 = (d * 2 - 9223372036854775808) + 18446744073709551616" by simp
  then have "(d * 2 + 9223372036854775808) mod 18446744073709551616 = d * 2 - 9223372036854775808"
    using assms by (simp only: mod_add_self2) simp
  then show ?thesis using assms by (simp add: wrap64_def)
qed

lemma backoff_loop_min:
  "0 < d \<Longrightarrow> d < 9223372036854775808 \<Longrightarrow> backoff_loop k d = min maxBackoff (d * 2 ^ k)"
proof (induction k arbitrary: d)
  case 0
  then show ?case by simp
next
  case (Suc k)
  show ?case
  proof (cases "d < 4611686018427387904")
    case True
    then have w: "wrap64 (d * 2) = d * 2" using Suc.prems by (intro wrap64_small) auto
    show ?thesis
    proof (cases "d * 2 \<ge> maxBackoff")
      case True
      have "d * 2 * 1 \<le> d * 2 * 2 ^ k" using Suc.prems by (intro mult_left_mono) auto
      with True w show ?thesis by (simp add: Let_def mult.assoc)
    next
      case False
      then have "d * 2 < 9223372036854775808" by (simp add: maxBackoff_def)
      with False w Suc show ?thesis by (simp add: Let_def mult.assoc)
    qed
  next
    case False
    then have w: "wrap64 (d * 2) \<le> 0" using Suc.prems wrap64_double by simp
    have "d * 1 \<le> d * 2 ^ Suc k" using Suc.prems by (intro mult_left_mono one_le_power) auto
    moreover have "maxBackoff \<le> d" using False by (simp add: maxBackoff_def)
    ultimately show ?thesis using w by (simp add: Let_def)
  qed
qed

text \<open>Every row journaled at the slot was started at least \<open>a\<close> times.\<close>

definition started_times :: "string \<Rightarrow> nat \<Rightarrow> nat \<Rightarrow> jdb \<Rightarrow> bool" where
  "started_times wid n a db \<longleftrightarrow> (\<forall>r \<in> set (steps db). is_step wid n r \<longrightarrow> a \<le> s_attempts r)"

lemma fenced_InrD:
  assumes "fenced f now body db = Inr (db', x)"
  obtains dbt where "body dbt = Inr (db', x)" "steps dbt = steps db" "map w_id (wfs dbt) = map w_id (wfs db)"
  using assms that [of "db\<lparr>wfs := sql_update (owns f (unix_ms now)) (\<lambda>w. w\<lparr>w_updated := unix_ms now\<rparr>) (wfs db)\<rparr>"]
  by (auto simp: fenced_def map_key_sql_update split: if_splits)

text \<open>The row a started step has, and what starting it did to the count of attempts.\<close>

lemma at_boundary_InrD:
  assumes "at_boundary wid now z body db = Inr (db', x)"
  shows "x = z \<or> body db = Inr (db', x)"
  using assms
  by (auto simp: at_boundary_def cancelBoundary_def split: option.splits if_splits)

lemma beginStep_BeganD:
  assumes "beginStep f now n name existing db = Inr (db', Began a fl first)" "started_times (f_id f) n k db"
  shows "\<exists>r \<in> set (steps db'). is_step (f_id f) n r \<and> s_name r = name \<and> s_attempts r = a \<and> s_failures r = fl"
    and "started_times (f_id f) n (if existing then Suc k else 1) db'"
    and "(if existing then Suc k else 1) \<le> a"
proof -
  let ?body = "if existing then begin_again (f_id f) now n name else begin_new (f_id f) now n name"
  obtain dbt where ab: "at_boundary (f_id f) now BeginCancelled ?body dbt = Inr (db', Began a fl first)"
    and st: "steps dbt = steps db"
    using assms(1) unfolding beginStep_def by (rule fenced_InrD)
  from at_boundary_InrD [OF ab] have b: "?body dbt = Inr (db', Began a fl first)" by simp
  have *: "(\<exists>r \<in> set (steps db'). is_step (f_id f) n r \<and> s_name r = name \<and> s_attempts r = a \<and> s_failures r = fl) \<and>
    started_times (f_id f) n (if existing then Suc k else 1) db' \<and> (if existing then Suc k else 1) \<le> a"
  proof (cases existing)
    case False
    with b obtain d where "insert_step (new_step (f_id f) n name (unix_ms now)) dbt = Inr d" "db' = d" "a = 1" "fl = 0"
      by (auto simp: begin_new_def)
    then have s': "steps db' = steps db @ [new_step (f_id f) n name (unix_ms now)]"
      and none: "\<forall>r \<in> set (steps db). \<not> is_step (f_id f) n r"
      using st by (auto simp: insert_step_def sql_count_0_iff split: if_splits)
    have "is_step (f_id f) n (new_step (f_id f) n name (unix_ms now))"
      "s_name (new_step (f_id f) n name (unix_ms now)) = name"
      "s_attempts (new_step (f_id f) n name (unix_ms now)) = 1"
      "s_failures (new_step (f_id f) n name (unix_ms now)) = 0"
      by (simp_all add: new_step_def is_step_def)
    with s' none False \<open>a = 1\<close> \<open>fl = 0\<close> show ?thesis by (auto simp: started_times_def)
  next
    case True
    with b obtain s where s: "sql_first (\<lambda>s. is_step (f_id f) n s \<and> s_name s = name) (steps dbt) = Some s"
      and a: "a = s_attempts s + 1" "fl = s_failures s"
      and db': "db' = on_step (f_id f) n
         (\<lambda>s. s\<lparr>s_attempts := s_attempts s + 1, s_started := unix_ms now, s_wake := None\<rparr>) dbt"
      by (auto simp: begin_again_def Let_def split: option.splits if_splits)
    from s have mem: "s \<in> set (steps db)" "is_step (f_id f) n s" "s_name s = name"
      using st by (auto dest: sql_first_Some)
    have "k \<le> s_attempts s" using assms(2) mem by (simp add: started_times_def)
    moreover have "s\<lparr>s_attempts := s_attempts s + 1, s_started := unix_ms now, s_wake := None\<rparr> \<in> set (steps db')"
      using mem st db' by (force simp: on_step_def sql_update_def)
    moreover have "started_times (f_id f) n (Suc k) db'"
      using assms(2) st db' by (auto simp: started_times_def on_step_def is_step_def elim!: in_sql_updateE)
    ultimately show ?thesis using True a mem
      by (auto simp: is_step_def intro!: bexI [of _ "s\<lparr>s_attempts := s_attempts s + 1, s_started := unix_ms now, s_wake := None\<rparr>"])
  qed
  then show "\<exists>r \<in> set (steps db'). is_step (f_id f) n r \<and> s_name r = name \<and> s_attempts r = a \<and> s_failures r = fl"
    and "started_times (f_id f) n (if existing then Suc k else 1) db'"
    and "(if existing then Suc k else 1) \<le> a" by simp_all
qed

lemma retryStep_started:
  assumes "retryStep f now n txt ra susp db = Inr (db', x)" "started_times (f_id f) n k db"
  shows "started_times (f_id f) n k db'"
  using assms unfolding retryStep_def
  by (elim fenced_InrD)
    (auto simp: started_times_def on_step_def is_step_def suspendTx_def on_wf_def Let_def elim!: in_sql_updateE split: if_splits)

section \<open>Lemmas: the loop ends\<close>

text \<open>The loop goes on only after a retry, and a retry needs an attempt below the limit.\<close>

lemma step_round_InrD:
  assumes "step_round opts e n name existing wake c db = Inr db'" "started_times (f_id (c_fence c)) n k db"
  shows "(if existing then Suc k else 1) < MaxStepAttempts \<and>
    started_times (f_id (c_fence c)) n (if existing then Suc k else 1) db'"
proof -
  obtain db1 a fl first where b: "beginStep (c_fence c) (e_now e) n name existing db = Inr (db1, Began a fl first)"
    and r: "after_fn opts e n name a fl c db1 = Inr db'"
    using assms(1) by (auto simp: step_round_def split: option.splits sum.splits prod.splits begin_result.splits if_splits)
  note B = beginStep_BeganD [OF b assms(2)]
  from r have "a < MaxStepAttempts" and "\<exists>tx ra susp x. retryStep (c_fence c) (e_done e) n tx ra susp db1 = Inr (db', x)"
    by (auto simp: after_fn_def Let_def split: fn_outcome.splits if_splits sum.splits prod.splits)
  with B retryStep_started show ?thesis by (metis order_le_less_trans)
qed

lemma runStep_ends:
  assumes "started_times (f_id (c_fence c)) n k db" "envs \<noteq> []" "MaxStepAttempts \<le> k + length envs"
  shows "runStep opts envs n name True wake c db \<noteq> None"
  using assms
proof (induction envs arbitrary: k db wake)
  case Nil
  then show ?case by simp
next
  case (Cons e envs)
  show ?case
  proof (cases "step_round opts e n name True wake c db")
    case (Inl r)
    then show ?thesis by simp
  next
    case (Inr db')
    note S = step_round_InrD [OF Inr Cons.prems(1)]
    have "runStep opts envs n name True None c db' \<noteq> None"
      using S Cons.prems(3) by (intro Cons.IH [where k = "Suc k"]) auto
    with Inr show ?thesis by simp
  qed
qed

section \<open>Lemmas: a finished step replays\<close>

lemma halted_False: "halted k e c = (r, c') \<Longrightarrow> c_halt c' = None \<Longrightarrow> False"
  by (auto simp: halted_def split: option.splits)

lemma storeErr_False: "storeErr e c = (r, c') \<Longrightarrow> c_halt c' = None \<Longrightarrow> False"
  by (auto simp: storeErr_def dest: halted_False split: if_splits)

lemmas no_halt = halted_False storeErr_False

lemma stored_cases:
  assumes "stored res c db k = ((r, c'), db')" "c_halt c' = None"
  obtains db1 x where "res = Inr (db1, x)" "k db1 = ((r, c'), db')"
  using assms by (auto simp: stored_def dest: no_halt split: sum.splits prod.splits)

lemma finishStep_row:
  assumes "finishStep f now n out err fw db = Inr (db', x)" "r \<in> set (steps db)" "is_step (f_id f) n r"
  shows "r\<lparr>s_output := (if err = [] then Some out else None), s_error := truncate_bytes err maxErrorBytes,
     s_finished := Some (unix_ms now), s_wake := None\<rparr> \<in> set (steps db')"
proof -
  let ?g = "\<lambda>s. s\<lparr>s_output := (if err = [] then Some out else None), s_error := truncate_bytes err maxErrorBytes,
     s_finished := Some (unix_ms now), s_wake := None\<rparr>"
  obtain dbt where "steps dbt = steps db" "steps db' = steps (on_step (f_id f) n ?g dbt)"
    using assms(1) unfolding finishStep_def by (elim fenced_InrD) (auto simp: Let_def split: if_splits)
  then have "steps db' = sql_update (is_step (f_id f) n) ?g (steps db)" by (simp add: on_step_def)
  with assms(2,3) show ?thesis by (force simp: sql_update_def)
qed

definition texts_kept :: "step_env list \<Rightarrow> bool" where
  "texts_kept envs \<longleftrightarrow> (\<forall>e \<in> set envs. \<forall>a tx nr. e_fn e a = FnErr tx nr \<longrightarrow> truncate_bytes tx maxErrorBytes \<noteq> [])"

text \<open>What the journal holds for a step that returned without halting the workflow.\<close>

definition journaled :: "string \<Rightarrow> nat \<Rightarrow> string \<Rightarrow> step_res \<Rightarrow> jdb \<Rightarrow> bool" where
  "journaled wid n name res db \<longleftrightarrow>
     (\<exists>r \<in> set (steps db). is_step wid n r \<and> s_name r = name \<and> s_finished r \<noteq> None \<and> replay_result name n r = res)"

lemma truncate_Nil [simp]: "truncate_bytes [] n = []"
  by (simp add: truncate_bytes_def)

lemma finished_row_journaled:
  assumes "finishStep f now n out err fw db = Inr (db', x)"
    and "r \<in> set (steps db)" "is_step (f_id f) n r" "s_name r = name"
    and "res = (if truncate_bytes err maxErrorBytes \<noteq> []
      then SErr (CStepError name n (s_attempts r) (truncate_bytes err maxErrorBytes)) else SOk out)"
    and "err = [] \<or> truncate_bytes err maxErrorBytes \<noteq> []"
  shows "journaled (f_id f) n name res db'"
  unfolding journaled_def using finishStep_row [OF assms(1-3)] assms
  by (intro bexI [OF _ finishStep_row [OF assms(1-3)]]) (auto simp: is_step_def replay_result_def)

lemma step_round_journaled:
  assumes "step_round opts e n name existing wake c db = Inl ((res, c'), db')" "c_halt c' = None" "texts_kept [e]"
  shows "journaled (f_id (c_fence c)) n name res db' \<and> c' = c"
proof -
  have p: "pre (e_interrupted e) c = None"
    using assms(1,2) by (auto simp: step_round_def pre_def dest: no_halt split: if_splits)
  have w: "(case wake of None \<Rightarrow> None | Some w \<Rightarrow> if e_now e < w then Some w else None) = None"
  proof (rule ccontr)
    assume "(case wake of None \<Rightarrow> None | Some w \<Rightarrow> if e_now e < w then Some w else None) \<noteq> None"
    then obtain w where "stored (suspend (c_fence c) (e_now e) w db) c db (\<lambda>db. (halted HSuspend CSuspended c, db)) = ((res, c'), db')"
      using assms(1) p by (auto simp: step_round_def)
    then obtain db1 where "(halted HSuspend CSuspended c, db1) = ((res, c'), db')"
      using assms(2) by (elim stored_cases) auto
    then show False using assms(2) by (auto dest: no_halt)
  qed
  obtain db1 a fl first where b: "beginStep (c_fence c) (e_now e) n name existing db = Inr (db1, Began a fl first)"
    and r: "after_fn opts e n name a fl c db1 = Inl ((res, c'), db')"
    using assms(1,2) p w
    by (auto simp: step_round_def dest: no_halt split: sum.splits prod.splits begin_result.splits)
  obtain row where row: "row \<in> set (steps db1)" "is_step (f_id (c_fence c)) n row" "s_name row = name" "s_attempts row = a"
    using beginStep_BeganD(1) [OF b, of 0] by (auto simp: started_times_def)
  have fs: "fail_step f d n m fw err c db1 \<noteq> ((res, c'), db')" for f d m fw err
    using assms(2) unfolding fail_step_def by (auto dest: no_halt elim!: stored_cases)
  from r show ?thesis
  proof (cases "e_fn e a")
    case (FnVal out)
    have "length out \<le> MaxOutputBytes" using FnVal r by (simp add: after_fn_def Let_def fs not_less split: if_splits)
    then have "stored (finishStep (c_fence c) (e_done e) n out [] [] db1) c db1 (\<lambda>db. ((SOk out, c), db)) = ((res, c'), db')"
      using FnVal r by (simp add: after_fn_def)
    then obtain db2 x where f: "finishStep (c_fence c) (e_done e) n out [] [] db1 = Inr (db2, x)"
      and "((SOk out, c), db2) = ((res, c'), db')"
      by (rule stored_cases [OF _ assms(2)])
    with finished_row_journaled [OF f row(1-3), of res] show ?thesis by simp
  next
    case (FnNotJSON why)
    with r show ?thesis by (simp add: after_fn_def Let_def fs)
  next
    case (FnPanic tx)
    with r show ?thesis by (simp add: after_fn_def Let_def fs)
  next
    case (FnErr tx nr)
    have nc: "\<not> e_cancelled e"
      using FnErr r assms(2) by (auto simp: after_fn_def dest: no_halt split: if_splits)
    have nr: "\<not> (int (fl + 1) \<le> so_retries opts \<and> a < MaxStepAttempts \<and> \<not> nr)"
    proof
      assume "int (fl + 1) \<le> so_retries opts \<and> a < MaxStepAttempts \<and> \<not> nr"
      then show False using FnErr nc r assms(2)
        by (auto simp: after_fn_def Let_def dest: no_halt split: sum.splits prod.splits if_splits)
    qed
    then have "stored (finishStep (c_fence c) (e_done e) n [] tx [] db1) c db1
        (\<lambda>db. ((SErr (CStepError name n a (truncate_bytes tx maxErrorBytes)), c), db)) = ((res, c'), db')"
      using FnErr nc r by (auto simp: after_fn_def)
    then obtain db2 x where f: "finishStep (c_fence c) (e_done e) n [] tx [] db1 = Inr (db2, x)"
      and "((SErr (CStepError name n a (truncate_bytes tx maxErrorBytes)), c), db2) = ((res, c'), db')"
      by (rule stored_cases [OF _ assms(2)])
    moreover have "truncate_bytes tx maxErrorBytes \<noteq> []" using assms(3) FnErr by (auto simp: texts_kept_def)
    ultimately show ?thesis using finished_row_journaled [OF f row(1-3), of res] row(4) by simp
  qed
qed

lemma runStep_journaled:
  assumes "runStep opts envs n name existing wake c db = Some ((res, c'), db')" "c_halt c' = None" "texts_kept envs"
  shows "journaled (f_id (c_fence c)) n name res db' \<and> c' = c"
  using assms
proof (induction envs arbitrary: existing wake db)
  case Nil
  then show ?case by simp
next
  case (Cons e envs)
  have k: "texts_kept [e]" "texts_kept envs" using Cons.prems(3) by (auto simp: texts_kept_def)
  show ?case
  proof (cases "step_round opts e n name existing wake c db")
    case (Inl z)
    with Cons.prems(1) have "step_round opts e n name existing wake c db = Inl ((res, c'), db')" by simp
    then show ?thesis by (rule step_round_journaled [OF _ Cons.prems(2) k(1)])
  next
    case (Inr db1)
    with Cons.prems(1) have "runStep opts envs n name True None c db1 = Some ((res, c'), db')" by simp
    then show ?thesis by (rule Cons.IH [OF _ Cons.prems(2) k(2)])
  qed
qed

text \<open>The tables stay in order while a step runs, so a slot names one row.\<close>

lemma store_jwf:
  assumes "jwf db"
  shows "beginStep f now n name existing db = Inr (d1, x1) \<Longrightarrow> jwf d1"
    and "finishStep f now n out err fw db = Inr (d2, x2) \<Longrightarrow> jwf d2"
    and "retryStep f now n err ra susp db = Inr (d3, x3) \<Longrightarrow> jwf d3"
    and "suspend f now wake db = Inr (d4, x4) \<Longrightarrow> jwf d4"
  using fenced_op_ok(2,3,4,5) [OF assms] patch_jwf [OF assms] by (metis committed_def old.sum.simps(6) case_prod_conv)+

lemma stored_jwf:
  assumes "stored res c db k = (rc, db')" "jwf db" "\<And>d x. res = Inr (d, x) \<Longrightarrow> jwf d" "\<And>d. snd (k d) = d"
  shows "jwf db'"
  using assms by (auto simp: stored_def split: sum.splits prod.splits) (metis snd_conv)

lemma after_fn_jwf:
  assumes "jwf db"
  shows "after_fn opts e n name a fl c db = Inl (rc, db') \<Longrightarrow> jwf db'"
    and "after_fn opts e n name a fl c db = Inr db' \<Longrightarrow> jwf db'"
proof -
  have st: "jwf db'" if "stored (finishStep f d n out err fw db) c db (\<lambda>d. (k, d)) = (rc, db')" for f d out err fw k
    using stored_jwf [OF that assms] store_jwf(2) [OF assms] by auto
  show "after_fn opts e n name a fl c db = Inl (rc, db') \<Longrightarrow> jwf db'"
    using st assms
    by (auto simp: after_fn_def fail_step_def Let_def dest: store_jwf(3) [OF assms]
        split: fn_outcome.splits if_splits sum.splits prod.splits)
  show "after_fn opts e n name a fl c db = Inr db' \<Longrightarrow> jwf db'"
    by (auto simp: after_fn_def Let_def dest: store_jwf(3) [OF assms]
        split: fn_outcome.splits if_splits sum.splits prod.splits)
qed

lemma step_round_jwf:
  assumes "jwf db"
  shows "step_round opts e n name existing wake c db = Inl (rc, db') \<Longrightarrow> jwf db'"
    and "step_round opts e n name existing wake c db = Inr db' \<Longrightarrow> jwf db'"
proof -
  have s: "jwf db'" if "stored (suspend f d w db) c db (\<lambda>d. (k, d)) = (rc, db')" for f d w k
    using stored_jwf [OF that assms] store_jwf(4) [OF assms] by auto
  have b: "jwf d" if "beginStep f now n name existing db = Inr (d, x)" for f now d x
    using store_jwf(1) [OF assms that] .
  have af: "jwf d \<Longrightarrow> after_fn opts e n name a fl c d = Inl (rc, db') \<Longrightarrow> jwf db'" for a fl d
    by (rule after_fn_jwf(1))
  have ab: "beginStep f now n name existing db = Inr (d, x) \<Longrightarrow> after_fn opts e n name a fl c d = Inl (rc, db') \<Longrightarrow> jwf db'"
    and ac: "beginStep f now n name existing db = Inr (d, x) \<Longrightarrow> after_fn opts e n name a fl c d = Inr db' \<Longrightarrow> jwf db'"
    for f now d x a fl using b af after_fn_jwf(2) by blast+
  show "step_round opts e n name existing wake c db = Inl (rc, db') \<Longrightarrow> jwf db'"
    using s assms
    by (auto simp: step_round_def dest: ab b split: option.splits sum.splits prod.splits begin_result.splits if_splits)
  show "step_round opts e n name existing wake c db = Inr db' \<Longrightarrow> jwf db'"
    by (auto simp: step_round_def dest: ac split: option.splits sum.splits prod.splits begin_result.splits if_splits)
qed

lemma runStep_jwf:
  "runStep opts envs n name existing wake c db = Some (rc, db') \<Longrightarrow> jwf db \<Longrightarrow> jwf db'"
  by (induction envs arbitrary: existing wake db)
    (auto split: sum.splits dest: step_round_jwf(1) step_round_jwf(2))

lemma loadSteps_nth:
  assumes "jwf db" "r \<in> set (steps db)" "is_step wid n r"
    and "map s_seq (loadSteps wid db) = [0..<length (loadSteps wid db)]"
  shows "n < length (loadSteps wid db) \<and> loadSteps wid db ! n = r"
proof -
  let ?L = "loadSteps wid db"
  have "r \<in> set ?L" using assms(2,3) by (auto simp: loadSteps_def is_step_def)
  then have "n \<in> set (map s_seq ?L)" using assms(3) by (auto simp: is_step_def)
  then have n: "n < length ?L" using assms(4) by simp
  then have "s_seq (?L ! n) = n" using assms(4) by (metis add_0 length_map map_nth nth_map nth_upt)
  moreover have "?L ! n \<in> set ?L" using n by simp
  then have "?L ! n \<in> set (steps db)" "s_wf (?L ! n) = wid" by (auto simp: loadSteps_def)
  ultimately have "?L ! n = r"
    using step_unique [of db "?L ! n" r wid n] assms(1-3) by (auto simp: is_step_def jwf_iff)
  with n show ?thesis by simp
qed

text \<open>The row the context holds for its next slot is still the row of the table.\<close>

definition in_sync :: "ctx \<Rightarrow> jdb \<Rightarrow> bool" where
  "in_sync c db \<longleftrightarrow> (c_seq c < length (c_rows c) \<longrightarrow>
     c_rows c ! c_seq c \<in> set (steps db) \<and> is_step (f_id (c_fence c)) (c_seq c) (c_rows c ! c_seq c))"

lemma Step_journaled:
  assumes "Step M name opts envs c db = Some ((res, c'), db')" "c_halt c' = None" "checkName name"
    "texts_kept envs" "jwf db" "in_sync c db"
  shows "journaled (f_id (c_fence c)) (c_seq c) name res db' \<and> jwf db' \<and> c_seq c < M \<and> c_halt c = None"
proof -
  have h: "c_halt c = None" using assms(1,2) by (auto simp: Step_def split: option.splits)
  have M: "c_seq c < M"
    using assms(1-3) h by (auto simp: Step_def nextSlot_def Let_def dest: no_halt split: if_splits prod.splits)
  let ?c = "c\<lparr>c_seq := c_seq c + 1\<rparr>"
  show ?thesis
  proof (cases "c_seq c < length (c_rows c)")
    case False
    then have "runStep opts envs (c_seq c) name False None ?c db = Some ((res, c'), db')"
      using assms(1,3) h M by (simp add: Step_def nextSlot_def Let_def)
    from runStep_journaled [OF this assms(2,4)] runStep_jwf [OF this assms(5)] M h show ?thesis by simp
  next
    case True
    let ?r = "c_rows c ! c_seq c"
    have nm: "s_name ?r = name"
      using assms(1-3) h M True by (auto simp: Step_def nextSlot_def Let_def dest: no_halt split: if_splits prod.splits)
    show ?thesis
    proof (cases "s_finished ?r = None")
      case True
      then have "runStep opts envs (c_seq c) name True (map_option from_ms (s_wake ?r)) ?c db = Some ((res, c'), db')"
        using assms(1,3) h M nm \<open>c_seq c < length (c_rows c)\<close> by (simp add: Step_def nextSlot_def Let_def)
      from runStep_journaled [OF this assms(2,4)] runStep_jwf [OF this assms(5)] M h show ?thesis by simp
    next
      case False
      then have "res = replay_result name (c_seq c) ?r" "db' = db"
        using assms(1,3) h M nm True by (auto simp: Step_def nextSlot_def Let_def)
      with False nm True assms(5,6) M h show ?thesis by (auto simp: journaled_def in_sync_def)
    qed
  qed
qed

section \<open>Properties\<close>


text \<open>
  C10. The retry loop of a step always returns: ten rounds are enough, whatever the step function does and
  however often the process was restarted in between.
\<close>

theorem step_returns:
  assumes "MaxStepAttempts \<le> length envs"
  shows "Step M name opts envs c db \<noteq> None"
proof -
  have ne: "envs \<noteq> []" using assms by (auto simp: MaxStepAttempts_def)
  have old: "runStep opts envs n name True wake c db \<noteq> None" for n wake c
    by (rule runStep_ends [where k = 0]) (use assms ne in \<open>auto simp: started_times_def\<close>)
  have new: "runStep opts envs n name False None c db \<noteq> None" for n c
  proof (cases "step_round opts (hd envs) n name False None c db")
    case (Inl r)
    with ne show ?thesis by (cases envs) simp_all
  next
    case (Inr db')
    have "started_times (f_id (c_fence c)) n 1 db'"
      using step_round_InrD [OF Inr, of 0] by (simp add: started_times_def)
    moreover have "tl envs \<noteq> []" "MaxStepAttempts \<le> 1 + length (tl envs)"
      using assms by (cases envs; auto simp: MaxStepAttempts_def)+
    ultimately have "runStep opts (tl envs) n name True None c db' \<noteq> None" by (rule runStep_ends)
    with Inr ne show ?thesis by (cases envs) simp_all
  qed
  show ?thesis using old new by (auto simp: Step_def split: option.splits sum.splits prod.splits slot.splits)
qed

text \<open>
  The wait before a retry is the base doubled for every failure after the first, capped at an hour, for
  every 64-bit duration: the doubling never overflows into a short wait.
\<close>

theorem backoff_exact:
  assumes "base < 9223372036854775808" "0 < failures"
  shows "backoffFor base failures = (if base \<le> 0 then 0 else min hour (base * 2 ^ (failures - 1)))"
  using backoff_loop_min [of base "failures - 1"] assms by (simp add: backoffFor_def maxBackoff_def)

text \<open>
  A halted workflow function can do nothing more, whatever it goes on to call: steps, sleeps and time reads
  leave the journal and the context alone, and the run is never recorded as a success.
\<close>

theorem halted_context_is_inert:
  assumes "c_halt c = Some (k, err)" "jwf db"
    and "\<forall>w \<in> set (wfs db). w_id w = f_id (c_fence c) \<longrightarrow> w_status w \<noteq> WfSucceeded"
  shows "Step M name opts envs c db = Some ((SErr err, c), db) \<and>
    snd (Now M b now c db) = db \<and> snd (fst (Now M b now c db)) = c \<and>
    SleepUntil M b now t c db = ((Some (SErr err), c), db) \<and>
    (\<forall>w \<in> set (wfs (finalize now fe c db)). w_id w = f_id (c_fence c) \<longrightarrow> w_status w \<noteq> WfSucceeded)"
proof (intro conjI)
  show "\<forall>w \<in> set (wfs (finalize now fe c db)). w_id w = f_id (c_fence c) \<longrightarrow> w_status w \<noteq> WfSucceeded"
  proof (intro ballI impI)
    fix w assume w: "w \<in> set (wfs (finalize now fe c db))" "w_id w = f_id (c_fence c)"
    have fin: "w_status w \<noteq> WfSucceeded"
      if "w \<in> set (wfs (committed db (finishWorkflow (c_fence c) now WfFailed msg db)))" for msg
      using that w(2) assms(3)
      by (auto simp: committed_def finishWorkflow_def fenced_def terminalTx_def on_wf_def elim!: in_sql_updateE
          split: if_splits)
    have "w_status w \<noteq> WfSucceeded" if "w \<in> set (wfs (release (c_fence c) now db))"
      using that w(2) assms(3) by (auto simp: release_def elim!: in_sql_updateE)
    with fin w assms(1,3) show "w_status w \<noteq> WfSucceeded"
      by (cases k) (auto simp: finalize_def Let_def)
  qed
qed (use assms(1) in \<open>auto simp: Step_def Now_def SleepUntil_def\<close>)

text \<open>
  A sleep keeps the wake time it first stored: when a resumed workflow reaches an unfinished sleep, it goes
  on only once the stored time has come, whatever time it asks for now.
\<close>

theorem sleep_keeps_its_wake_time:
  assumes "c_halt c = None" "c_seq c < M" "c_seq c < length (c_rows c)"
    and "s_name (c_rows c ! c_seq c) = ''$sleep''" "s_finished (c_rows c ! c_seq c) = None"
    and "s_wake (c_rows c ! c_seq c) = Some w" "SleepUntil M b now t c db = ((None, c1), db1)"
  shows "from_ms w \<le> now"
proof -
  let ?c = "c\<lparr>c_seq := c_seq c + 1\<rparr>"
  have p: "pre b ?c = None"
    using assms by (auto simp: SleepUntil_def nextSlot_def Let_def split: option.splits)
  have "sleepStep (c_fence c) now (c_seq c) True (from_ms w) db = Inr (db1, SleepDone)"
    using assms p
    by (auto simp: SleepUntil_def nextSlot_def Let_def split: sum.splits prod.splits sleep_outcome.splits)
  then show ?thesis
    unfolding sleepStep_def
    by (elim fenced_InrD) (auto dest!: at_boundary_InrD split: if_splits)
qed

text \<open>
  Starting a workflow under a derived id is idempotent: when a start was accepted, the same start at any later
  point of the history changes nothing and reports that nothing was created, whatever became of the workflow.
\<close>

theorem start_with_id_idempotent:
  assumes "StartWithID V defs kind wid input now db = Inr (db1, cr)" "jwf db"
    and "\<forall>op \<in> set ops. op_ok op \<and> \<not> is_prune op"
  shows "StartWithID V defs kind wid input now2 (run_ops ops db1) = Inr (run_ops ops db1, False)"
proof -
  obtain raw w where enc: "encodeInput V input = Inr raw" "checkName wid" "defs kind \<noteq> None"
    and w: "w \<in> set (wfs db1)" "w_id w = wid" "w_kind w = kind" "w_input w = raw" and j: "jwf db1"
  proof -
    obtain prot raw where s: "defs kind = Some prot" "checkName wid" "encodeInput V input = Inr raw"
      using assms(1) by (auto simp: StartWithID_def split: option.splits if_splits)
    show thesis
    proof (cases "wid \<in> w_id ` set (wfs db)")
      case False
      then have "db1 = db\<lparr>wfs := wfs db @ [new_row wid kind raw prot (unix_ms now)]\<rparr>"
        using assms(1) s by (simp add: StartWithID_def insertWorkflowOnce_def)
      moreover from this have "jwf db1"
        using apply_op_jwf [OF assms(2), of "JInsertOnce wid kind raw prot now"] False
        by (simp add: insertWorkflowOnce_def)
      ultimately show thesis using that [of raw "new_row wid kind raw prot (unix_ms now)"] s by (simp add: new_row_def)
    next
      case True
      then have "try_ok (getWorkflow wid db) (\<lambda>w.
          if w_kind w \<noteq> kind \<or> w_input w \<noteq> raw then Inl ErrIDInUse else Inr (db, False)) = Inr (db1, cr)"
        using assms(1) s by (simp add: StartWithID_def insertWorkflowOnce_def)
      then obtain w where "getWorkflow wid db = Inr w" "w_kind w = kind" "w_input w = raw" "db1 = db"
        unfolding try_ok_eq_Inr by (metis Inl_not_Inr Inr_inject prod.inject)
      moreover from this have "w \<in> set (wfs db)" "w_id w = wid"
        by (auto simp: getWorkflow_def dest: sql_first_Some split: option.splits)
      ultimately show thesis using that s assms(2) by auto
    qed
  qed
  have "\<exists>w'. w' \<in> set (wfs (run_ops ops d)) \<and> w_id w' = wid \<and> w_kind w' = kind \<and> w_input w' = raw"
    if "jwf d" "v \<in> set (wfs d)" "w_id v = wid" "w_kind v = kind" "w_input v = raw"
      "\<forall>op \<in> set ops. op_ok op \<and> \<not> is_prune op" for d v
    using that
  proof (induction ops arbitrary: d v)
    case Nil
    then show ?case by (auto simp: run_ops_def)
  next
    case (Cons op ops)
    obtain v' where v': "v' \<in> set (wfs (apply_op op d))" "evolve (unix_ms (op_time op)) v v'"
      using op_row_fwd [OF Cons.prems(1) _ _ Cons.prems(2)] Cons.prems(6) by auto
    have "jwf (apply_op op d)" using Cons.prems by (intro apply_op_jwf) auto
    with Cons.IH [of "apply_op op d" v'] v' Cons.prems evolve_id [OF v'(2)] evolve_const [OF v'(2)]
    show ?case by (auto simp: run_ops_def)
  qed
  from this [OF j w assms(3)] obtain w' where w': "w' \<in> set (wfs (run_ops ops db1))" "w_id w' = wid"
    "w_kind w' = kind" "w_input w' = raw" by blast
  have "distinct (map w_id (wfs (run_ops ops db1)))" using run_ops_jwf [OF j, of ops] assms(3) by (simp add: jwf_def)
  from sql_first_key [where key = w_id, OF this w'(1,2)] have "getWorkflow wid (run_ops ops db1) = Inr w'"
    by (simp add: getWorkflow_def)
  with enc w' show ?thesis by (auto simp: StartWithID_def insertWorkflowOnce_def)
qed

section \<open>The empty error text\<close>

definition live_ctx :: ctx where
  "live_ctx = \<lparr>c_fence = \<lparr>f_id = ''wf1'', f_runner = ''B'', f_epoch = 2\<rparr>, c_rows = [], c_seq = 1, c_halt = None, c_lost = False\<rparr>"

definition round_of :: "fn_outcome \<Rightarrow> step_env" where
  "round_of out = \<lparr>e_interrupted = False, e_now = 50 * second, e_fn = (\<lambda>_. out), e_cancelled = False, e_lost = False,
     e_done = 51 * second\<rparr>"

definition no_retries :: step_opts where
  "no_retries = \<lparr>so_retries = 0, so_backoff = 0\<rparr>"

definition replay_after :: "step_env list \<Rightarrow> step_res option" where
  "replay_after envs =
     (case Step 200 ''sell'' no_retries envs live_ctx example_jdb of
        None \<Rightarrow> None
      | Some (_, db) \<Rightarrow>
          map_option (fst \<circ> fst) (Step 200 ''sell'' no_retries [] (live_ctx\<lparr>c_rows := loadSteps ''wf1'' db\<rparr>) db))"

text \<open>
  The one way a step's result is not what a replay gives: a step whose error has an empty text. It fails when
  it runs, and the replay of the same slot takes it for a success with no output.
\<close>

theorem empty_error_replays_as_success:
  "map_option (fst \<circ> fst) (Step 200 ''sell'' no_retries [round_of (FnErr [] False)] live_ctx example_jdb)
     = Some (SErr (CStepError ''sell'' 1 1 [])) \<and>
   replay_after [round_of (FnErr [] False)] = Some (SOk [])"
  by code_simp

section \<open>Witnesses\<close>

definition sold_jdb :: jdb where
  "sold_jdb = example_jdb\<lparr>
     wfs := [(new_row ''wf1'' ''demo'' ''null'' False 0)\<lparr>w_status := WfRunning, w_runner := ''B'', w_epoch := 2,
        w_lease_until := 70000, w_updated := 51000\<rparr>],
     steps := [new_step ''wf1'' 0 ''buy'' 1000,
        (new_step ''wf1'' 1 ''sell'' 50000)\<lparr>s_finished := Some 51000, s_output := Some ''7''\<rparr>]\<rparr>"

lemma sold_run:
  "Step 200 ''sell'' no_retries [round_of (FnVal ''7'')] live_ctx example_jdb =
     Some ((SOk ''7'', live_ctx\<lparr>c_seq := 2\<rparr>), sold_jdb)"
  by code_simp


theorem step_returns_witness:
  "Step 200 ''sell'' \<lparr>so_retries = 9, so_backoff = 0\<rparr> (replicate 10 (round_of (FnErr ''busy'' False))) live_ctx example_jdb \<noteq> None"
  by (rule step_returns) (simp add: MaxStepAttempts_def)

theorem backoff_exact_witness: "backoffFor (2 * second) 3 = 8 * second"
  using backoff_exact [of "2 * second" 3] by simp

theorem halted_context_is_inert_witness:
  "Step 200 ''sell'' no_retries [] (live_ctx\<lparr>c_halt := Some (HSuspend, CSuspended)\<rparr>) example_jdb =
     Some ((SErr CSuspended, live_ctx\<lparr>c_halt := Some (HSuspend, CSuspended)\<rparr>), example_jdb)"
  using halted_context_is_inert [OF _ example_jdb_jwf, of "live_ctx\<lparr>c_halt := Some (HSuspend, CSuspended)\<rparr>" HSuspend CSuspended]
  by (simp add: example_jdb_eq new_row_def)

definition sleeping_jdb :: jdb where
  "sleeping_jdb = example_jdb\<lparr>steps := [(new_step ''wf1'' 0 ''$sleep'' 1000)\<lparr>s_wake := Some 45000\<rparr>]\<rparr>"

definition sleeping_ctx :: ctx where
  "sleeping_ctx = live_ctx\<lparr>c_rows := steps sleeping_jdb, c_seq := 0\<rparr>"

theorem sleep_keeps_its_wake_time_witness:
  "from_ms 45000 \<le> 50 * second"
proof -
  obtain c1 db1 where "SleepUntil 200 False (50 * second) (20 * second) sleeping_ctx sleeping_jdb = ((None, c1), db1)"
  proof -
    have "fst (fst (SleepUntil 200 False (50 * second) (20 * second) sleeping_ctx sleeping_jdb)) = None" by code_simp
    with that show thesis by (metis prod.collapse)
  qed
  from sleep_keeps_its_wake_time [OF _ _ _ _ _ _ this, of 45000] show ?thesis
    by (simp add: sleeping_ctx_def sleeping_jdb_def live_ctx_def new_step_def)
qed

theorem start_with_id_idempotent_witness:
  "\<exists>db1. StartWithID (\<lambda>_. True) [''demo'' \<mapsto> False] ''demo'' ''wf1'' ''null'' 0 empty_jdb = Inr (db1, True) \<and>
     StartWithID (\<lambda>_. True) [''demo'' \<mapsto> False] ''demo'' ''wf1'' ''null'' (60 * second)
       (run_ops [JCancel ''wf1'' ''stop'' second] db1) = Inr (run_ops [JCancel ''wf1'' ''stop'' second] db1, False)"
proof -
  let ?db = "\<lparr>wfs = [new_row ''wf1'' ''demo'' ''null'' False 0], steps = []\<rparr>"
  have j: "jwf empty_jdb" using jwf_empty by (simp add: empty_jdb_def)
  have "checkName ''wf1''" by code_simp
  then have s: "StartWithID (\<lambda>_. True) [''demo'' \<mapsto> False] ''demo'' ''wf1'' ''null'' 0 empty_jdb = Inr (?db, True)"
    by (simp add: StartWithID_def encodeInput_def MaxInputBytes_def insertWorkflowOnce_def empty_jdb_def unix_ms_def)
  show ?thesis using start_with_id_idempotent [OF s j, of "[JCancel ''wf1'' ''stop'' second]"] s by auto
qed

section \<open>Idempotency keys\<close>

text \<open>\<open>StepKey\<close> (\<open>list.go\<close>): the key under which a step acts on the outside, the same for every attempt.\<close>

definition StepKey :: "string \<Rightarrow> nat \<Rightarrow> string \<Rightarrow> string" where
  "StepKey wid n name = wid @ '':'' @ itoa (int n) @ '':'' @ name"

end
