(* ===== verification/Utf8.thy ===== *)
theory Utf8
  imports GoBase
begin

text \<open>
  Go strings as text: decoding of UTF-8 the way a \<open>range\<close> loop and \<open>utf8.ValidString\<close> see it (overlong
  forms, surrogates and stray bytes are not valid and read as U+FFFD, one byte each), the encoding,
  the classes of the \<open>unicode\<close> package that the code asks for, and \<open>strings.Fields\<close> joined by single
  spaces. A rune is a natural number.
\<close>

section \<open>Decoding\<close>

definition cont :: "nat \<Rightarrow> bool" where
  "cont b \<longleftrightarrow> 128 \<le> b \<and> b < 192"

definition bad_rune :: "nat \<times> nat \<times> bool" where
  "bad_rune = (0xFFFD, 1, False)"

definition rune2 :: "nat \<Rightarrow> nat list \<Rightarrow> nat \<times> nat \<times> bool" where
  "rune2 b0 rest =
     (case rest of b1 # _ \<Rightarrow> if cont b1 then ((b0 - 192) * 64 + (b1 - 128), 2, True) else bad_rune | _ \<Rightarrow> bad_rune)"

definition rune3 :: "nat \<Rightarrow> nat list \<Rightarrow> nat \<times> nat \<times> bool" where
  "rune3 b0 rest =
     (case rest of b1 # b2 # _ \<Rightarrow>
        if (if b0 = 0xE0 then 0xA0 else 0x80) \<le> b1 \<and> b1 \<le> (if b0 = 0xED then 0x9F else 0xBF) \<and> cont b2
        then ((b0 - 224) * 4096 + (b1 - 128) * 64 + (b2 - 128), 3, True) else bad_rune
      | _ \<Rightarrow> bad_rune)"

definition rune4 :: "nat \<Rightarrow> nat list \<Rightarrow> nat \<times> nat \<times> bool" where
  "rune4 b0 rest =
     (case rest of b1 # b2 # b3 # _ \<Rightarrow>
        if (if b0 = 0xF0 then 0x90 else 0x80) \<le> b1 \<and> b1 \<le> (if b0 = 0xF4 then 0x8F else 0xBF) \<and> cont b2 \<and> cont b3
        then ((b0 - 240) * 262144 + (b1 - 128) * 4096 + (b2 - 128) * 64 + (b3 - 128), 4, True) else bad_rune
      | _ \<Rightarrow> bad_rune)"

text \<open>The first rune, its width in bytes, and whether it is valid.\<close>

definition next_rune :: "nat list \<Rightarrow> nat \<times> nat \<times> bool" where
  "next_rune bs =
     (case bs of
        [] \<Rightarrow> bad_rune
      | b0 # rest \<Rightarrow>
          if b0 < 128 then (b0, 1, True)
          else if 0xC2 \<le> b0 \<and> b0 \<le> 0xDF then rune2 b0 rest
          else if 0xE0 \<le> b0 \<and> b0 \<le> 0xEF then rune3 b0 rest
          else if 0xF0 \<le> b0 \<and> b0 \<le> 0xF4 then rune4 b0 rest
          else bad_rune)"

lemmas rune_defs = next_rune_def rune2_def rune3_def rune4_def bad_rune_def cont_def

lemma next_rune_width: "1 \<le> fst (snd (next_rune bs))"
  by (auto simp: rune_defs split: list.split)

function decode_bytes :: "nat list \<Rightarrow> (nat \<times> bool) list" where
  "decode_bytes bs =
     (if bs = [] then []
      else let (r, w, ok) = next_rune bs in (r, ok) # decode_bytes (drop w bs))"
  by pat_completeness auto
termination
proof (relation "measure length")
  fix bs :: "nat list" and x r y w ok
  assume "bs \<noteq> []" "x = next_rune bs" "(r, y) = x" "(w, ok) = y"
  then have "w = fst (snd (next_rune bs))" by (metis fst_conv snd_conv)
  with next_rune_width [of bs] \<open>bs \<noteq> []\<close> show "(drop w bs, bs) \<in> measure length" by simp
qed simp

declare decode_bytes.simps [simp del]

definition bytes_of :: "string \<Rightarrow> nat list" where
  "bytes_of s = map of_char s"

definition string_of :: "nat list \<Rightarrow> string" where
  "string_of bs = map char_of bs"

definition runes :: "string \<Rightarrow> nat list" where
  "runes s = map fst (decode_bytes (bytes_of s))"

definition valid_utf8 :: "string \<Rightarrow> bool" where
  "valid_utf8 s \<longleftrightarrow> (\<forall>(_, ok) \<in> set (decode_bytes (bytes_of s)). ok)"

section \<open>Encoding\<close>

definition scalar :: "nat \<Rightarrow> bool" where
  "scalar r \<longleftrightarrow> r < 0xD800 \<or> (0xE000 \<le> r \<and> r < 0x110000)"

definition encode_rune :: "nat \<Rightarrow> nat list" where
  "encode_rune r =
     (if r < 0x80 then [r]
      else if r < 0x800 then [192 + r div 64, 128 + r mod 64]
      else if r < 0x10000 then [224 + r div 4096, 128 + r div 64 mod 64, 128 + r mod 64]
      else [240 + r div 262144, 128 + r div 4096 mod 64, 128 + r div 64 mod 64, 128 + r mod 64])"

definition encode :: "nat list \<Rightarrow> string" where
  "encode rs = string_of (concat (map encode_rune rs))"

lemma split64: "(r::nat) div 64 * 64 + r mod 64 = r"
  by simp

lemma split4096: "(r::nat) div 4096 * 4096 + r div 64 mod 64 * 64 + r mod 64 = r"
proof -
  have "r div 4096 * 64 + r div 64 mod 64 = r div 64"
    using div_mult_mod_eq [of "r div 64" 64] by (simp add: div_mult2_eq [symmetric])
  then have "(r div 4096 * 64 + r div 64 mod 64) * 64 + r mod 64 = r" by simp
  then show ?thesis by (simp add: algebra_simps)
qed

lemma split262144: "(r::nat) div 262144 * 262144 + r div 4096 mod 64 * 4096 + r div 64 mod 64 * 64 + r mod 64 = r"
proof -
  have "r div 262144 * 64 + r div 4096 mod 64 = r div 4096"
    using div_mult_mod_eq [of "r div 4096" 64] by (simp add: div_mult2_eq [symmetric])
  then have "(r div 262144 * 64 + r div 4096 mod 64) * 4096 + r div 64 mod 64 * 64 + r mod 64 = r"
    using split4096 [of r] by simp
  then show ?thesis by (simp add: algebra_simps)
qed

lemma next_encode: "scalar r \<Longrightarrow> next_rune (encode_rune r @ bs) = (r, length (encode_rune r), True)"
proof -
  assume s: "scalar r"
  consider "r < 0x80" | "0x80 \<le> r" "r < 0x800" | "0x800 \<le> r" "r < 0x10000" | "0x10000 \<le> r" "r < 0x110000"
    using s by (fastforce simp: scalar_def)
  then show ?thesis
  proof cases
    case 1
    then show ?thesis by (simp add: encode_rune_def rune_defs)
  next
    case 2
    have "r div 64 < 32" "2 \<le> r div 64" using 2 by (simp_all add: less_mult_imp_div_less div_le_mono [of 128 r 64, simplified])
    with 2 show ?thesis by (simp add: encode_rune_def rune_defs split64)
  next
    case 3
    have a: "r div 4096 < 16" using 3 by (simp add: less_mult_imp_div_less)
    have e0: "32 \<le> r div 64 mod 64" if "r div 4096 = 0"
    proof -
      have "r < 4096" using that by (simp add: div_eq_0_iff)
      then have "r div 64 < 64" by (simp add: less_mult_imp_div_less)
      moreover have "32 \<le> r div 64" using div_le_mono [of 2048 r 64] 3 by simp
      ultimately show ?thesis by simp
    qed
    have ed: "r div 64 mod 64 < 32" if "r div 4096 = 13"
    proof -
      have "r < 0xD800"
      proof (rule ccontr)
        assume "\<not> r < 0xD800"
        with s have "0xE000 \<le> r" by (auto simp: scalar_def)
        from div_le_mono [OF this, of 4096] that show False by simp
      qed
      then have "r div 64 < 864" by (simp add: less_mult_imp_div_less)
      moreover have "r div 64 div 64 = 13" using that by (simp add: div_mult2_eq [symmetric])
      then have "r div 64 = 13 * 64 + r div 64 mod 64" using div_mult_mod_eq [of "r div 64" 64] by simp
      ultimately show ?thesis by simp
    qed
    have "r div 64 mod 64 < 64" "r mod 64 < 64" "r div 64 mod 64 \<le> 63" "r mod 64 \<le> 63"
      by (simp_all add: less_Suc_eq_le [symmetric])
    with 3 a e0 ed split4096 [of r] show ?thesis
      by (auto simp: encode_rune_def rune_defs)
  next
    case 4
    have a: "r div 262144 < 5" using 4 by (simp add: less_mult_imp_div_less)
    have f0: "16 \<le> r div 4096 mod 64" if "r div 262144 = 0"
    proof -
      have "r < 262144" using that by (simp add: div_eq_0_iff)
      then have "r div 4096 < 64" by (simp add: less_mult_imp_div_less)
      moreover have "16 \<le> r div 4096" using div_le_mono [of 65536 r 4096] 4 by simp
      ultimately show ?thesis by simp
    qed
    have f4: "r div 4096 mod 64 < 16" if "r div 262144 = 4"
    proof -
      have "r div 4096 < 272" using 4 by (simp add: less_mult_imp_div_less)
      moreover have "r div 4096 div 64 = 4" using that by (simp add: div_mult2_eq [symmetric])
      then have "r div 4096 = 4 * 64 + r div 4096 mod 64" using div_mult_mod_eq [of "r div 4096" 64] by simp
      ultimately show ?thesis by simp
    qed
    have "r div 4096 mod 64 < 64" "r div 64 mod 64 < 64" "r mod 64 < 64"
      "r div 4096 mod 64 \<le> 63" "r div 64 mod 64 \<le> 63" "r mod 64 \<le> 63"
      by (simp_all add: less_Suc_eq_le [symmetric])
    with 4 a f0 f4 split262144 [of r] show ?thesis
      by (auto simp: encode_rune_def rune_defs)
  qed
qed

lemma encode_rune_bytes: "scalar r \<Longrightarrow> b \<in> set (encode_rune r) \<Longrightarrow> b < 256"
proof -
  assume s: "scalar r" and b: "b \<in> set (encode_rune r)"
  have m: "x mod 64 < 64" for x :: nat by simp
  have "r < 0x800 \<Longrightarrow> r div 64 < 32" "r < 0x10000 \<Longrightarrow> r div 4096 < 16" "r < 0x110000 \<Longrightarrow> r div 262144 < 5"
    by (simp_all add: less_mult_imp_div_less)
  with s b m [of r] m [of "r div 64"] m [of "r div 4096"] show ?thesis
    by (auto simp: encode_rune_def scalar_def split: if_splits)
qed

lemma encode_rune_ne: "encode_rune r \<noteq> []"
  by (simp add: encode_rune_def)

lemma decode_encode_bytes:
  "\<forall>r \<in> set rs. scalar r \<Longrightarrow> decode_bytes (concat (map encode_rune rs)) = map (\<lambda>r. (r, True)) rs"
proof (induction rs)
  case Nil
  then show ?case by (simp add: decode_bytes.simps)
next
  case (Cons r rs)
  then show ?case
    by (subst decode_bytes.simps) (simp add: encode_rune_ne next_encode)
qed

lemma bytes_of_string_of: "\<forall>b \<in> set bs. b < 256 \<Longrightarrow> bytes_of (string_of bs) = bs"
  by (induction bs) (simp_all add: bytes_of_def string_of_def)

lemma decode_encode:
  assumes "\<forall>r \<in> set rs. scalar r"
  shows "runes (encode rs) = rs" and "valid_utf8 (encode rs)"
proof -
  have "\<forall>b \<in> set (concat (map encode_rune rs)). b < 256" using assms encode_rune_bytes by auto
  then have "decode_bytes (bytes_of (encode rs)) = map (\<lambda>r. (r, True)) rs"
    by (simp add: encode_def bytes_of_string_of decode_encode_bytes [OF assms])
  then show "runes (encode rs) = rs" "valid_utf8 (encode rs)"
    by (auto simp: runes_def valid_utf8_def comp_def)
qed

lemma scalar3:
  fixes b0 b1 b2 :: nat
  assumes "224 \<le> b0" "b0 \<le> 239" "128 \<le> b1" "b1 \<le> 191" "b0 = 237 \<Longrightarrow> b1 \<le> 159" "128 \<le> b2" "b2 < 192"
  shows "scalar ((b0 - 224) * 4096 + (b1 - 128) * 64 + (b2 - 128))"
proof -
  define a c d where "a = b0 - 224" and "c = b1 - 128" and "d = b2 - 128"
  have "c \<le> 31" if "a = 13"
  proof -
    have "b0 = 237" using that assms(1) by (simp add: a_def)
    with assms(5) show ?thesis by (simp add: c_def)
  qed
  moreover have "a \<le> 15" "c \<le> 63" "d \<le> 63" using assms by (simp_all add: a_def c_def d_def)
  ultimately have "scalar (a * 4096 + c * 64 + d)" by (cases "a = 13"; cases "a < 13") (auto simp: scalar_def)
  then show ?thesis by (simp add: a_def c_def d_def)
qed

lemma scalar4:
  fixes b0 b1 b2 b3 :: nat
  assumes "240 \<le> b0" "b0 \<le> 244" "b0 = 240 \<Longrightarrow> 144 \<le> b1" "128 \<le> b1" "b1 \<le> 191" "b0 = 244 \<Longrightarrow> b1 \<le> 143"
    "128 \<le> b2" "b2 < 192" "128 \<le> b3" "b3 < 192"
  shows "scalar ((b0 - 240) * 262144 + (b1 - 128) * 4096 + (b2 - 128) * 64 + (b3 - 128))"
proof -
  define a c d e where "a = b0 - 240" and "c = b1 - 128" and "d = b2 - 128" and "e = b3 - 128"
  have "c \<le> 15" if "a = 4"
  proof -
    have "b0 = 244" using that assms(1) by (simp add: a_def)
    with assms(6) show ?thesis by (simp add: c_def)
  qed
  moreover have "16 \<le> c" if "a = 0"
  proof -
    have "b0 = 240" using that assms(1) by (simp add: a_def)
    with assms(3) show ?thesis by (simp add: c_def)
  qed
  moreover have "a \<le> 4" "c \<le> 63" "d \<le> 63" "e \<le> 63" using assms by (simp_all add: a_def c_def d_def e_def)
  ultimately have "scalar (a * 262144 + c * 4096 + d * 64 + e)"
    by (cases "a = 4"; cases "a = 0") (auto simp: scalar_def)
  then show ?thesis by (simp add: a_def c_def d_def e_def)
qed

lemma bad_rune_scalar: "scalar (fst bad_rune)"
  by (simp add: bad_rune_def scalar_def)

lemma rune2_scalar: "194 \<le> b0 \<Longrightarrow> b0 \<le> 223 \<Longrightarrow> scalar (fst (rune2 b0 rest))"
  using bad_rune_scalar by (auto simp: rune2_def scalar_def cont_def split: list.split)

lemma rune3_scalar:
  assumes "224 \<le> b0" "b0 \<le> 239"
  shows "scalar (fst (rune3 b0 rest))"
proof (cases rest)
  case (Cons b1 rest1)
  note r1 = Cons
  show ?thesis
  proof (cases rest1)
    case (Cons b2 rest2)
    let ?C = "(if b0 = 0xE0 then 0xA0 else 0x80) \<le> b1 \<and> b1 \<le> (if b0 = 0xED then 0x9F else 0xBF) \<and> cont b2"
    let ?v = "(b0 - 224) * 4096 + (b1 - 128) * 64 + (b2 - 128)"
    have "rune3 b0 rest = (if ?C then (?v, 3, True) else bad_rune)"
      unfolding rune3_def r1 Cons list.case ..
    moreover have "scalar ?v" if ?C
      by (rule scalar3) (use that assms in \<open>auto simp: cont_def split: if_splits\<close>)
    ultimately show ?thesis using bad_rune_scalar by (metis fst_conv)
  qed (simp add: rune3_def r1 bad_rune_scalar)
qed (simp add: rune3_def bad_rune_scalar)

lemma rune4_scalar:
  assumes "240 \<le> b0" "b0 \<le> 244"
  shows "scalar (fst (rune4 b0 rest))"
proof (cases "\<exists>b1 b2 b3 r. rest = b1 # b2 # b3 # r")
  case True
  then obtain b1 b2 b3 r where r: "rest = b1 # b2 # b3 # r" by blast
  let ?C = "(if b0 = 0xF0 then 0x90 else 0x80) \<le> b1 \<and> b1 \<le> (if b0 = 0xF4 then 0x8F else 0xBF) \<and> cont b2 \<and> cont b3"
  let ?v = "(b0 - 240) * 262144 + (b1 - 128) * 4096 + (b2 - 128) * 64 + (b3 - 128)"
  have "rune4 b0 rest = (if ?C then (?v, 4, True) else bad_rune)"
    unfolding rune4_def r list.case ..
  moreover have "scalar ?v" if ?C
    by (rule scalar4) (use that assms in \<open>auto simp: cont_def split: if_splits\<close>)
  ultimately show ?thesis using bad_rune_scalar by (metis fst_conv)
next
  case False
  then have "rune4 b0 rest = bad_rune" by (simp add: rune4_def split: list.split)
  then show ?thesis by (simp add: bad_rune_scalar)
qed

lemma next_rune_scalar: "scalar (fst (next_rune bs))"
  using bad_rune_scalar rune2_scalar rune3_scalar rune4_scalar
  by (auto simp: next_rune_def split: list.split) (simp add: scalar_def)

lemma decode_bytes_step:
  "bs \<noteq> [] \<Longrightarrow> next_rune bs = (q, w, k) \<Longrightarrow> decode_bytes bs = (q, k) # decode_bytes (drop w bs)"
  by (subst decode_bytes.simps) simp

lemma decode_scalar: "(r, ok) \<in> set (decode_bytes bs) \<Longrightarrow> scalar r"
proof (induction "length bs" arbitrary: bs rule: less_induct)
  case less
  show ?case
  proof (cases "bs = []")
    case True
    with less show ?thesis by (simp add: decode_bytes.simps)
  next
    case False
    obtain q w k where n: "next_rune bs = (q, w, k)" by (cases "next_rune bs")
    with next_rune_width [of bs] False have "length (drop w bs) < length bs" by simp
    from less(1) [OF this] less(2) decode_bytes_step [OF False n] next_rune_scalar [of bs] n
    show ?thesis by auto
  qed
qed

lemma runes_scalar: "r \<in> set (runes s) \<Longrightarrow> scalar r"
  using decode_scalar by (fastforce simp: runes_def)

section \<open>Classes of the unicode package\<close>

definition IsSpace :: "nat \<Rightarrow> bool" where
  "IsSpace r \<longleftrightarrow> (9 \<le> r \<and> r \<le> 13) \<or> r \<in> {0x20, 0x85, 0xA0, 0x1680, 0x2028, 0x2029, 0x202F, 0x205F, 0x3000} \<or>
     (0x2000 \<le> r \<and> r \<le> 0x200A)"

definition IsControl :: "nat \<Rightarrow> bool" where
  "IsControl r \<longleftrightarrow> r < 0x20 \<or> (0x7F \<le> r \<and> r < 0xA0)"

text \<open>The category Cf (format characters) as ranges.\<close>

definition Cf_ranges :: "(nat \<times> nat) list" where
  "Cf_ranges =
     [(0xAD, 0xAD), (0x600, 0x605), (0x61C, 0x61C), (0x6DD, 0x6DD), (0x70F, 0x70F), (0x890, 0x891), (0x8E2, 0x8E2),
      (0x180E, 0x180E), (0x200B, 0x200F), (0x202A, 0x202E), (0x2060, 0x2064), (0x2066, 0x206F), (0xFEFF, 0xFEFF),
      (0xFFF9, 0xFFFB), (0x110BD, 0x110BD), (0x110CD, 0x110CD), (0x13430, 0x1343F), (0x1BCA0, 0x1BCA3),
      (0x1D173, 0x1D17A), (0xE0001, 0xE0001), (0xE0020, 0xE007F)]"

definition IsCf :: "nat \<Rightarrow> bool" where
  "IsCf r \<longleftrightarrow> (\<exists>(a, b) \<in> set Cf_ranges. a \<le> r \<and> r \<le> b)"

section \<open>Fields joined by single spaces\<close>

fun words :: "nat list \<Rightarrow> nat list \<Rightarrow> nat list list" where
  "words acc [] = (if acc = [] then [] else [acc])"
| "words acc (r # rs) =
     (if IsSpace r then (if acc = [] then words [] rs else acc # words [] rs) else words (acc @ [r]) rs)"

fun join_words :: "nat list list \<Rightarrow> nat list" where
  "join_words [] = []"
| "join_words [w] = w"
| "join_words (w # v # ws) = w @ 0x20 # join_words (v # ws)"

definition squeeze :: "nat list \<Rightarrow> nat list" where
  "squeeze rs = join_words (words [] rs)"

definition is_word :: "nat list \<Rightarrow> bool" where
  "is_word w \<longleftrightarrow> w \<noteq> [] \<and> (\<forall>r \<in> set w. \<not> IsSpace r)"

lemma words_are_words:
  "\<forall>r \<in> set acc. \<not> IsSpace r \<Longrightarrow> w \<in> set (words acc rs) \<Longrightarrow> is_word w"
proof (induction rs arbitrary: acc)
  case Nil
  then show ?case by (auto simp: is_word_def split: if_splits)
next
  case (Cons r rs)
  show ?case
  proof (cases "IsSpace r")
    case True
    then have "w \<in> set (words [] rs) \<or> acc \<noteq> [] \<and> w = acc"
      using Cons.prems(2) by (cases "acc = []") auto
    with Cons.IH [of "[]"] Cons.prems(1) show ?thesis by (auto simp: is_word_def)
  next
    case False
    with Cons.IH [of "acc @ [r]"] Cons.prems show ?thesis by simp
  qed
qed

lemma words_append: "is_word w \<Longrightarrow> words acc (w @ rs) = words (acc @ w) rs"
proof -
  have "\<forall>r \<in> set w. \<not> IsSpace r \<Longrightarrow> words acc (w @ rs) = words (acc @ w) rs"
    by (induction w arbitrary: acc) auto
  then show "is_word w \<Longrightarrow> words acc (w @ rs) = words (acc @ w) rs" by (simp add: is_word_def)
qed

lemma space_20: "IsSpace 0x20"
  by (simp add: IsSpace_def)

lemma words_join: "\<forall>w \<in> set ws. is_word w \<Longrightarrow> words [] (join_words ws) = ws"
proof (induction ws rule: join_words.induct)
  case 1
  then show ?case by simp
next
  case (2 w)
  then have "is_word w" by simp
  from words_append [OF this, of "[]" "[]"] \<open>is_word w\<close> show ?case by (simp add: is_word_def)
next
  case (3 w v ws)
  then have "is_word w" by simp
  then have "w \<noteq> []" by (simp add: is_word_def)
  with 3 words_append [OF \<open>is_word w\<close>, of "[]" "0x20 # join_words (v # ws)"] space_20 show ?case by simp
qed

lemma squeeze_squeeze [simp]: "squeeze (squeeze rs) = squeeze rs"
  using words_join [of "words [] rs"] words_are_words [of "[]"] by (auto simp: squeeze_def)

lemma set_join_words: "set (join_words ws) \<subseteq> (\<Union>w \<in> set ws. set w) \<union> {0x20}"
  by (induction ws rule: join_words.induct) auto

lemma set_words: "w \<in> set (words acc rs) \<Longrightarrow> set w \<subseteq> set acc \<union> set rs"
proof (induction rs arbitrary: acc)
  case Nil
  then show ?case by (auto split: if_splits)
next
  case (Cons r rs)
  show ?case
  proof (cases "IsSpace r")
    case True
    then have "w \<in> set (words [] rs) \<or> acc \<noteq> [] \<and> w = acc"
      using Cons.prems by (cases "acc = []") auto
    with Cons.IH [of "[]"] show ?thesis by auto
  next
    case False
    with Cons.IH [of "acc @ [r]"] Cons.prems show ?thesis by auto
  qed
qed

lemma set_squeeze: "r \<in> set (squeeze rs) \<Longrightarrow> r = 0x20 \<or> r \<in> set rs \<and> \<not> IsSpace r"
proof -
  assume "r \<in> set (squeeze rs)"
  then have "r = 0x20 \<or> (\<exists>w \<in> set (words [] rs). r \<in> set w)"
    using set_join_words [of "words [] rs"] by (auto simp: squeeze_def)
  then show ?thesis
    using set_words [of _ "[]" rs] words_are_words [of "[]" _ rs] by (auto simp: is_word_def)
qed

section \<open>Trimming\<close>

text \<open>\<open>bytes.TrimSpace\<close> and \<open>strings.TrimSpace\<close>: white space of every kind at both ends.\<close>

function chunks :: "nat list \<Rightarrow> (nat \<times> nat list) list" where
  "chunks bs = (if bs = [] then [] else let (r, w, ok) = next_rune bs in (r, take w bs) # chunks (drop w bs))"
  by pat_completeness auto
termination
proof (relation "measure length")
  fix bs :: "nat list" and x r y w ok
  assume "bs \<noteq> []" "x = next_rune bs" "(r, y) = x" "(w, ok) = y"
  then have "w = fst (snd (next_rune bs))" by (metis fst_conv snd_conv)
  with next_rune_width [of bs] \<open>bs \<noteq> []\<close> show "(drop w bs, bs) \<in> measure length" by simp
qed simp

declare chunks.simps [simp del]

definition trim_bytes :: "string \<Rightarrow> string" where
  "trim_bytes s =
     (let sp = (\<lambda>(r, _). IsSpace r)
      in string_of (concat (map snd (rev (dropWhile sp (rev (dropWhile sp (chunks (bytes_of s)))))))))"

section \<open>ASCII\<close>

lemma decode_ascii: "\<forall>b \<in> set bs. b < 128 \<Longrightarrow> decode_bytes bs = map (\<lambda>b. (b, True)) bs"
proof (induction bs)
  case (Cons b bs)
  have "next_rune (b # bs) = (b, 1, True)" using Cons.prems by (simp add: next_rune_def)
  from decode_bytes_step [OF _ this] Cons show ?case by simp
qed (simp add: decode_bytes.simps)

lemma runes_ascii: "\<forall>c \<in> set s. (of_char c :: nat) < 128 \<Longrightarrow> runes s = map of_char s"
  by (simp add: runes_def bytes_of_def decode_ascii o_def)

lemma valid_ascii: "\<forall>c \<in> set s. (of_char c :: nat) < 128 \<Longrightarrow> valid_utf8 s"
  by (auto simp: valid_utf8_def bytes_of_def decode_ascii)

lemma encode_ascii: "\<forall>r \<in> set rs. r < 128 \<Longrightarrow> encode rs = map char_of rs"
  by (induction rs) (simp_all add: encode_def string_of_def encode_rune_def)

end
