(* ===== verification/Intent.thy ===== *)
theory Intent
  imports Proactive Utf8 "HOL-Library.Product_Lexorder"
begin

text \<open>
  The intent ledger (\<open>pkg/intent/intent.go\<close>, \<open>ledger.go\<close>, \<open>autonomy.go\<close>): what the owner wants the
  assistant to keep doing, as typed rows with a history of events. \<open>normalizeNew\<close> is the validation of a
  new intent, the operations are transactions over the two tables (an error leaves the ledger as it
  was). JSON columns hold the typed value; the JSON functions of the standard library that the
  validation calls are the record \<open>json_lib\<close>. Ids of new intents are arguments.
\<close>

section \<open>Types\<close>

datatype intent_type = TypeGoal | TypeStandingOrder | TypeWatch | TypeReminder | TypePreference | TypeOther string

definition IntentTypes :: "intent_type list" where
  "IntentTypes = [TypeGoal, TypeStandingOrder, TypeWatch, TypeReminder, TypePreference]"

definition type_valid :: "intent_type \<Rightarrow> bool" where
  "type_valid t \<longleftrightarrow> t \<in> set IntentTypes"

datatype intent_status = StatusProposed | StatusActive | StatusPaused | StatusDone | StatusCancelled
  | StatusExpired | StatusOther string

definition Statuses :: "intent_status list" where
  "Statuses = [StatusProposed, StatusActive, StatusPaused, StatusDone, StatusCancelled, StatusExpired]"

definition status_valid :: "intent_status \<Rightarrow> bool" where
  "status_valid s \<longleftrightarrow> s \<in> set Statuses"

definition Open :: "intent_status \<Rightarrow> bool" where
  "Open s \<longleftrightarrow> s = StatusProposed \<or> s = StatusActive \<or> s = StatusPaused"

datatype intent_source = SourceExplicit | SourceInferred | SourceReflection | SourceOther string

record trigger_spec =
  ts_kind :: string
  ts_params :: "string option"

record expectation =
  x_expr :: string
  x_description :: string
  x_severity :: severity
  x_consecutive :: int
  x_every_minutes :: int

record prov =
  p_session :: string
  p_message :: string
  p_sender :: string
  p_trust :: trust
  p_turn_kind :: turn_kind

record intent =
  n_id :: string
  n_type :: intent_type
  n_title :: string
  n_params :: "string option"
  n_trigger :: "trigger_spec option"
  n_expected :: "expectation option"
  n_mandate :: string
  n_status :: intent_status
  n_source :: intent_source
  n_prov :: prov
  n_budget :: int
  n_used :: int
  n_cooldown :: duration
  n_lifetime :: duration
  n_expires :: "go_time option"
  n_valid_from :: go_time
  n_invalid :: "go_time option"
  n_superseded :: string
  n_created :: go_time
  n_updated :: go_time

text \<open>A row of the table \<open>intents\<close>: times and durations in milliseconds.\<close>

record intent_row =
  i_id :: string
  i_type :: intent_type
  i_title :: string
  i_params :: "string option"
  i_trigger :: "trigger_spec option"
  i_expected :: "expectation option"
  i_mandate :: string
  i_status :: intent_status
  i_source :: intent_source
  i_prov :: prov
  i_budget :: int
  i_used :: int
  i_cooldown :: int
  i_lifetime :: int
  i_expires :: "int option"
  i_valid_from :: int
  i_invalid :: "int option"
  i_superseded :: string
  i_created :: int
  i_updated :: int

record intent_event =
  v_intent :: string
  v_at :: int
  v_from :: "intent_status option" \<comment> \<open>None: a creation\<close>
  v_to :: intent_status
  v_by :: string
  v_reason :: string

record ledger =
  l_rows :: "intent_row list"
  l_events :: "intent_event list" \<comment> \<open>in the order of their auto-increment ids\<close>

definition MaxTitleRunes :: nat where "MaxTitleRunes = 120"
definition MaxParamsBytes :: nat where "MaxParamsBytes = 4 * 1024"
definition MaxFireBudget :: int where "MaxFireBudget = 1000"
definition MaxCooldown :: duration where "MaxCooldown = 30 * 24 * hour"
definition MinLifetime :: duration where "MinLifetime = minute"
definition MaxLifetime :: duration where "MaxLifetime = 365 * 24 * hour"
definition ProposalTTL :: duration where "ProposalTTL = 14 * 24 * hour"
definition MaxOpenIntents :: int where "MaxOpenIntents = 100"
definition MaxProposedIntents :: int where "MaxProposedIntents = 20"
definition MaxListLimit :: int where "MaxListLimit = 500"
definition MaxExpectConsecutive :: int where "MaxExpectConsecutive = 10"
definition MaxExpectEveryMinutes :: int where "MaxExpectEveryMinutes = 24 * 60"
definition maxExprBytes :: nat where "maxExprBytes = 500"
definition maxDescriptionRunes :: nat where "maxDescriptionRunes = 200"
definition maxReasonRunes :: nat where "maxReasonRunes = 200"
definition maxUpdatedByRunes :: nat where "maxUpdatedByRunes = 128"
definition maxJSONDepth :: nat where "maxJSONDepth = 8"

fun transitions :: "intent_status \<Rightarrow> intent_status list" where
  "transitions StatusProposed = [StatusActive, StatusCancelled, StatusExpired]"
| "transitions StatusActive = [StatusPaused, StatusDone, StatusCancelled, StatusExpired]"
| "transitions StatusPaused = [StatusActive, StatusCancelled, StatusExpired]"
| "transitions _ = []"

definition CanTransition :: "intent_status \<Rightarrow> intent_status \<Rightarrow> bool" where
  "CanTransition from to \<longleftrightarrow> to \<in> set (transitions from)"

datatype ierr = BadText | ControlCharacter nat | TextRequired | TextTooLong nat | JSONTooLarge | JSONInvalid
  | JSONNotObject | JSONTooDeep | UnknownTrust | BadTurnKind | UnknownType | BadTriggerKind | BadSeverity
  | BadConsecutive | BadEveryMinutes | ErrInferredMandate | ErrMandatesUnavailable | BadNewStatus | UnknownSource
  | ErrNotOwnerAuthored | BadFireBudget | NewUsedFires | BadCooldown | BadLifetime | NewEnded
  | ErrIntentNotFound | ErrBadTransition | ErrTooManyOpen | ErrTooManyProposed | ErrNotActive | ErrBudgetSpent
  | UnknownStatus | ErrDuplicateId

section \<open>Texts\<close>

definition normalizeText :: "string \<Rightarrow> nat \<Rightarrow> bool \<Rightarrow> ierr + string" where
  "normalizeText s maxRunes required =
     (if \<not> valid_utf8 s then Inl BadText
      else let rs = map (\<lambda>r. if IsSpace r then 0x20 else r) (runes s);
               hidden = (\<lambda>r. IsControl r \<or> IsBidiControl r \<or> (IsCf r \<and> r \<noteq> 0x200C \<and> r \<noteq> 0x200D))
        in case List.find hidden rs of
             Some r \<Rightarrow> Inl (ControlCharacter r)
           | None \<Rightarrow>
               (let t = squeeze rs
                in if t = [] \<and> required then Inl TextRequired
                   else if length t > maxRunes then Inl (TextTooLong (length t))
                   else Inr (encode t)))"

definition cleanAuthor :: "string \<Rightarrow> string" where
  "cleanAuthor s =
     (let t = squeeze (map (\<lambda>r. if IsControl r \<or> IsCf r then 0x20 else r) (runes s))
      in encode (if length t > maxUpdatedByRunes then take maxUpdatedByRunes t else t))"

definition cleanReason :: "string \<Rightarrow> string" where
  "cleanReason s =
     (let t = runes (cleanAuthor s)
      in if length t > maxReasonRunes then encode (take maxReasonRunes t) else cleanAuthor s)"

text \<open>A regular expression \<open>^[a-z][a-z0-9_]{0,n}$\<close>.\<close>

definition plain_token :: "nat \<Rightarrow> string \<Rightarrow> bool" where
  "plain_token n s \<longleftrightarrow>
     (let lower = (\<lambda>c. 97 \<le> (of_char c :: nat) \<and> (of_char c :: nat) \<le> 122);
          digit = (\<lambda>c. 48 \<le> (of_char c :: nat) \<and> (of_char c :: nat) \<le> 57)
      in case s of [] \<Rightarrow> False
         | c # cs \<Rightarrow> lower c \<and> length cs \<le> n \<and> (\<forall>d \<in> set cs. lower d \<or> digit d \<or> d = CHR ''_''))"

section \<open>JSON objects\<close>

datatype jvalue = JObj "(string \<times> jvalue) list" | JArr "jvalue list" | JAtom

record json_lib =
  jl_valid :: "string \<Rightarrow> bool"
  jl_compact :: "string \<Rightarrow> string option"
  jl_decode :: "string \<Rightarrow> jvalue option" \<comment> \<open>None: a number out of range\<close>

fun depth :: "jvalue \<Rightarrow> nat" where
  "depth (JObj kvs) = foldr (\<lambda>kv d. max (depth (snd kv)) d) kvs 0 + 1"
| "depth (JArr vs) = foldr (\<lambda>v d. max (depth v) d) vs 0 + 1"
| "depth JAtom = 0"

definition normalizeJSONObject :: "json_lib \<Rightarrow> string option \<Rightarrow> nat \<Rightarrow> ierr + string option" where
  "normalizeJSONObject lib raw mx =
     (let raw = trim_bytes (case raw of None \<Rightarrow> [] | Some r \<Rightarrow> r)
      in if raw = [] \<or> raw = ''null'' then Inr None
         else if length raw > mx * 4 then Inl JSONTooLarge
         else if \<not> jl_valid lib raw then Inl JSONInvalid
         else case jl_compact lib raw of
                None \<Rightarrow> Inl JSONInvalid
              | Some c \<Rightarrow>
                  if length c > mx then Inl JSONTooLarge
                  else case jl_decode lib c of
                         None \<Rightarrow> Inl JSONInvalid
                       | Some (JObj kvs) \<Rightarrow> if depth (JObj kvs) > maxJSONDepth then Inl JSONTooDeep else Inr (Some c)
                       | Some _ \<Rightarrow> Inl JSONNotObject)"

section \<open>Provenance and validation\<close>

definition cleanProvenance :: "prov \<Rightarrow> ierr + prov" where
  "cleanProvenance p =
     (let p = p\<lparr>p_session := cleanAuthor (p_session p), p_message := cleanAuthor (p_message p),
                p_sender := cleanAuthor (p_sender p)\<rparr>
      in if p_trust p < TrustUntrusted \<or> p_trust p > TrustUserAuthored then Inl UnknownTrust
         else if \<not> plain_token 31 (turn_kind_string (p_turn_kind p)) then Inl BadTurnKind
         else Inr p)"

definition ownerAuthored :: "prov \<Rightarrow> bool" where
  "ownerAuthored p \<longleftrightarrow> p_turn_kind p = TurnUser \<and> p_trust p = TrustUserAuthored \<and> p_sender p \<noteq> []"

definition check :: "bool \<Rightarrow> ierr \<Rightarrow> ierr + unit" where
  "check ok e = (if ok then Inr () else Inl e)"

definition normalizeTrigger :: "json_lib \<Rightarrow> trigger_spec option \<Rightarrow> ierr + trigger_spec option" where
  "normalizeTrigger lib t =
     (case t of
        None \<Rightarrow> Inr None
      | Some ts \<Rightarrow>
          if \<not> plain_token 39 (ts_kind ts) then Inl BadTriggerKind
          else try_ok (normalizeJSONObject lib (ts_params ts) MaxParamsBytes)
                 (\<lambda>tp. Inr (Some \<lparr>ts_kind = ts_kind ts, ts_params = tp\<rparr>)))"

definition normalizeExpected :: "expectation option \<Rightarrow> ierr + expectation option" where
  "normalizeExpected x =
     (case x of
        None \<Rightarrow> Inr None
      | Some e \<Rightarrow>
          try_ok (normalizeText (x_expr e) maxExprBytes True) (\<lambda>expr.
          try_ok (normalizeText (x_description e) maxDescriptionRunes False) (\<lambda>desc.
          if x_severity e < SeverityInfo \<or> x_severity e > SeverityWarning then Inl BadSeverity
          else if x_consecutive e < 0 \<or> x_consecutive e > MaxExpectConsecutive then Inl BadConsecutive
          else if x_every_minutes e < 0 \<or> x_every_minutes e > MaxExpectEveryMinutes then Inl BadEveryMinutes
          else Inr (Some (e\<lparr>x_expr := expr, x_description := desc\<rparr>)))))"

definition new_status :: "intent_status \<Rightarrow> ierr + intent_status" where
  "new_status s =
     (if s = StatusOther [] then Inr StatusProposed
      else if s = StatusProposed \<or> s = StatusActive then Inr s else Inl BadNewStatus)"

definition new_source :: "intent_source \<Rightarrow> ierr + intent_source" where
  "new_source s =
     (case s of SourceOther t \<Rightarrow> if t = [] then Inr SourceInferred else Inl UnknownSource | _ \<Rightarrow> Inr s)"

definition normalizeNew :: "json_lib \<Rightarrow> intent \<Rightarrow> ierr + intent" where
  "normalizeNew lib n =
     try_ok (check (type_valid (n_type n)) UnknownType) (\<lambda>_.
     try_ok (normalizeText (n_title n) MaxTitleRunes True) (\<lambda>title.
     try_ok (normalizeJSONObject lib (n_params n) MaxParamsBytes) (\<lambda>params.
     try_ok (normalizeTrigger lib (n_trigger n)) (\<lambda>trig.
     try_ok (normalizeExpected (n_expected n)) (\<lambda>expected.
     try_ok (if n_mandate n \<noteq> [] then Inl (if n_source n \<noteq> SourceExplicit then ErrInferredMandate else ErrMandatesUnavailable)
             else Inr ()) (\<lambda>_.
     try_ok (new_status (n_status n)) (\<lambda>status.
     try_ok (new_source (n_source n)) (\<lambda>source.
     try_ok (cleanProvenance (n_prov n)) (\<lambda>pv.
     try_ok (check (\<not> (status = StatusActive \<and> (source \<noteq> SourceExplicit \<or> \<not> ownerAuthored pv))) ErrNotOwnerAuthored) (\<lambda>_.
     try_ok (check (0 \<le> n_budget n \<and> n_budget n \<le> MaxFireBudget) BadFireBudget) (\<lambda>_.
     try_ok (check (n_used n = 0) NewUsedFires) (\<lambda>_.
     try_ok (check (0 \<le> n_cooldown n \<and> n_cooldown n \<le> MaxCooldown) BadCooldown) (\<lambda>_.
     try_ok (check (n_lifetime n = 0 \<or> (MinLifetime \<le> n_lifetime n \<and> n_lifetime n \<le> MaxLifetime)) BadLifetime) (\<lambda>_.
     try_ok (check (n_expires n = None \<and> n_invalid n = None \<and> n_superseded n = []) NewEnded) (\<lambda>_.
     Inr (n\<lparr>n_title := title, n_params := params, n_trigger := trig, n_expected := expected, n_status := status,
            n_source := source, n_prov := pv\<rparr>))))))))))))))))"

section \<open>The ledger\<close>

definition byName :: "prov \<Rightarrow> string" where
  "byName p = (if p_sender p \<noteq> [] then p_sender p else ''turn:'' @ turn_kind_string (p_turn_kind p))"

definition initialExpiry :: "intent_status \<Rightarrow> duration \<Rightarrow> go_time \<Rightarrow> go_time option" where
  "initialExpiry st life now =
     (let d = (if st = StatusActive then life
               else if st = StatusProposed then (if life > 0 \<and> life < ProposalTTL then life else ProposalTTL)
               else 0)
      in if d \<le> 0 then None else Some (now + d))"

definition to_row :: "intent \<Rightarrow> intent_row" where
  "to_row n =
     \<lparr>i_id = n_id n, i_type = n_type n, i_title = n_title n, i_params = n_params n, i_trigger = n_trigger n,
      i_expected = n_expected n, i_mandate = n_mandate n, i_status = n_status n, i_source = n_source n,
      i_prov = n_prov n, i_budget = n_budget n, i_used = n_used n, i_cooldown = dur_ms (n_cooldown n),
      i_lifetime = dur_ms (n_lifetime n), i_expires = map_option unix_ms (n_expires n),
      i_valid_from = unix_ms (n_valid_from n), i_invalid = map_option unix_ms (n_invalid n),
      i_superseded = n_superseded n, i_created = unix_ms (n_created n), i_updated = unix_ms (n_updated n)\<rparr>"

definition lapsed :: "int \<Rightarrow> intent_row \<Rightarrow> bool" where
  "lapsed now_ms r \<longleftrightarrow> Open (i_status r) \<and> (case i_expires r of None \<Rightarrow> False | Some t \<Rightarrow> t \<le> now_ms)"

definition scanIntent :: "go_time \<Rightarrow> intent_row \<Rightarrow> intent" where
  "scanIntent now r =
     (let ex = map_option from_ms (i_expires r);
          past = Open (i_status r) \<and> (case ex of None \<Rightarrow> False | Some t \<Rightarrow> t \<le> now)
      in \<lparr>n_id = i_id r, n_type = i_type r, n_title = i_title r, n_params = i_params r, n_trigger = i_trigger r,
          n_expected = i_expected r, n_mandate = i_mandate r,
          n_status = (if past then StatusExpired else i_status r), n_source = i_source r, n_prov = i_prov r,
          n_budget = i_budget r, n_used = i_used r, n_cooldown = ms_dur (i_cooldown r),
          n_lifetime = ms_dur (i_lifetime r), n_expires = ex, n_valid_from = from_ms (i_valid_from r),
          n_invalid = (if past then ex else map_option from_ms (i_invalid r)), n_superseded = i_superseded r,
          n_created = from_ms (i_created r), n_updated = from_ms (i_updated r)\<rparr>)"

definition insertEvent ::
  "string \<Rightarrow> intent_status option \<Rightarrow> intent_status \<Rightarrow> string \<Rightarrow> string \<Rightarrow> go_time \<Rightarrow> ledger \<Rightarrow> ledger" where
  "insertEvent iid from to by reason at_time l =
     l\<lparr>l_events := l_events l @ [\<lparr>v_intent = iid, v_at = unix_ms at_time, v_from = from, v_to = to,
        v_by = cleanAuthor by, v_reason = cleanReason reason\<rparr>]\<rparr>"

definition insertIntent :: "intent \<Rightarrow> ledger \<Rightarrow> ierr + ledger" where
  "insertIntent n l =
     (if n_id n \<in> i_id ` set (l_rows l) then Inl ErrDuplicateId
      else Inr (insertEvent (n_id n) None (n_status n) (byName (n_prov n)) ''created'' (n_created n)
                 (l\<lparr>l_rows := l_rows l @ [to_row n]\<rparr>)))"

definition getTx :: "string \<Rightarrow> go_time \<Rightarrow> ledger \<Rightarrow> ierr + intent" where
  "getTx iid now l =
     (case sql_first (\<lambda>r. i_id r = iid) (l_rows l) of
        None \<Rightarrow> Inl ErrIntentNotFound | Some r \<Rightarrow> Inr (scanIntent now r))"

text \<open>One due row: its id, the status it has, and its expiry.\<close>

definition expire_one :: "go_time \<Rightarrow> string \<times> intent_status \<times> int \<Rightarrow> ledger \<Rightarrow> ledger" where
  "expire_one now d l =
     (case d of (iid, from, ex) \<Rightarrow>
        (let hit = (\<lambda>r. i_id r = iid \<and> i_status r = from)
         in if sql_count hit (l_rows l) = 0 then l
            else insertEvent iid (Some from) StatusExpired ''system:expiry'' ''reached its expiry'' now
                   (l\<lparr>l_rows := sql_update hit
                        (\<lambda>r. r\<lparr>i_status := StatusExpired, i_invalid := Some ex, i_updated := unix_ms now\<rparr>) (l_rows l)\<rparr>)))"

definition due_order :: "intent_row \<Rightarrow> int \<times> string" where
  "due_order r = ((case i_expires r of None \<Rightarrow> 0 | Some t \<Rightarrow> t), i_id r)"

definition due_list :: "go_time \<Rightarrow> ledger \<Rightarrow> (string \<times> intent_status \<times> int) list" where
  "due_list now l =
     map (\<lambda>r. (i_id r, i_status r, fst (due_order r)))
       (sort_key (fst \<circ> due_order) (sort_key (snd \<circ> due_order) (filter (lapsed (unix_ms now)) (l_rows l))))"

definition expireDueTx :: "go_time \<Rightarrow> ledger \<Rightarrow> ledger \<times> nat" where
  "expireDueTx now l = (fold (expire_one now) (due_list now l) l, length (due_list now l))"

definition open_count :: "ledger \<Rightarrow> int" where
  "open_count l = int (sql_count (\<lambda>r. Open (i_status r)) (l_rows l))"

definition proposed_count :: "ledger \<Rightarrow> int" where
  "proposed_count l = int (sql_count (\<lambda>r. i_status r = StatusProposed) (l_rows l))"

definition checkCaps :: "intent_status \<Rightarrow> int \<Rightarrow> int \<Rightarrow> ledger \<Rightarrow> ierr + unit" where
  "checkCaps adding releaseOpen releaseProposed l =
     (if open_count l - releaseOpen + 1 > MaxOpenIntents then Inl ErrTooManyOpen
      else if adding = StatusProposed \<and> proposed_count l - releaseProposed + 1 > MaxProposedIntents
           then Inl ErrTooManyProposed
      else Inr ())"

definition stamped :: "string \<Rightarrow> go_time \<Rightarrow> intent \<Rightarrow> intent" where
  "stamped new_id now n =
     n\<lparr>n_id := new_id, n_created := now, n_updated := now, n_valid_from := now,
       n_expires := initialExpiry (n_status n) (n_lifetime n) now\<rparr>"

text \<open>In the operations \<open>clk\<close> is the clock reading; \<open>clock\<close> truncates it to milliseconds.\<close>

definition CreateIntent :: "json_lib \<Rightarrow> string \<Rightarrow> go_time \<Rightarrow> intent \<Rightarrow> ledger \<Rightarrow> ierr + ledger \<times> intent" where
  "CreateIntent lib new_id clk n l =
     try_ok (normalizeNew lib n) (\<lambda>it.
       let now = trunc_ms clk; it = stamped new_id now it; l = fst (expireDueTx now l)
       in try_ok (checkCaps (n_status it) 0 0 l) (\<lambda>_.
          try_ok (insertIntent it l) (\<lambda>l. Inr (l, it))))"

definition GetIntent :: "string \<Rightarrow> go_time \<Rightarrow> ledger \<Rightarrow> ierr + intent" where
  "GetIntent iid clk l = getTx iid (trunc_ms clk) l"

record intent_filter =
  fl_statuses :: "intent_status list"
  fl_types :: "intent_type list"
  fl_limit :: int
  fl_newest_first :: bool

definition effective_status :: "int \<Rightarrow> intent_row \<Rightarrow> intent_status" where
  "effective_status now_ms r = (if lapsed now_ms r then StatusExpired else i_status r)"

definition filterSQL :: "intent_filter \<Rightarrow> go_time \<Rightarrow> ierr + (intent_row \<Rightarrow> bool)" where
  "filterSQL f now =
     (if \<exists>s \<in> set (fl_statuses f). \<not> status_valid s then Inl UnknownStatus
      else if \<exists>t \<in> set (fl_types f). \<not> type_valid t then Inl UnknownType
      else Inr (\<lambda>r. (fl_statuses f = [] \<or> effective_status (unix_ms now) r \<in> set (fl_statuses f)) \<and>
                    (fl_types f = [] \<or> i_type r \<in> set (fl_types f))))"

definition ListIntents :: "intent_filter \<Rightarrow> go_time \<Rightarrow> ledger \<Rightarrow> ierr + intent list" where
  "ListIntents f clk l =
     (let now = trunc_ms clk
      in try_ok (filterSQL f now) (\<lambda>wh.
        let lmt = (if fl_limit f < 1 \<or> fl_limit f > MaxListLimit then MaxListLimit else fl_limit f);
            sorted_rows = sort_key i_created (sort_key i_id (filter wh (l_rows l)))
        in Inr (map (scanIntent now)
             (take (nat lmt) (if fl_newest_first f then rev sorted_rows else sorted_rows)))))"

definition CountIntents :: "intent_filter \<Rightarrow> go_time \<Rightarrow> ledger \<Rightarrow> ierr + nat" where
  "CountIntents f clk l = try_ok (filterSQL f (trunc_ms clk)) (\<lambda>wh. Inr (sql_count wh (l_rows l)))"

definition Events :: "string \<Rightarrow> ledger \<Rightarrow> intent_event list" where
  "Events iid l = filter (\<lambda>e. v_intent e = iid) (l_events l)"

definition Transition :: "string \<Rightarrow> intent_status \<Rightarrow> prov \<Rightarrow> string \<Rightarrow> go_time \<Rightarrow> ledger \<Rightarrow> ierr + ledger" where
  "Transition iid to by reason clk l =
     (if \<not> status_valid to then Inl UnknownStatus
      else try_ok (cleanProvenance by) (\<lambda>by.
        let now = trunc_ms clk; l = fst (expireDueTx now l)
        in try_ok (getTx iid now l) (\<lambda>cur.
          if \<not> CanTransition (n_status cur) to then Inl ErrBadTransition
          else if n_status cur = StatusProposed \<and> to = StatusActive \<and> \<not> ownerAuthored by then Inl ErrNotOwnerAuthored
          else let hit = (\<lambda>r. i_id r = iid \<and> i_status r = n_status cur);
                   set_cols = (\<lambda>r. let r = r\<lparr>i_status := to, i_updated := unix_ms now\<rparr>
                     in if \<not> Open to then r\<lparr>i_invalid := Some (unix_ms now)\<rparr>
                        else if n_status cur = StatusProposed \<and> to = StatusActive
                        then r\<lparr>i_expires := (if n_lifetime cur > 0 then Some (unix_ms (now + n_lifetime cur)) else None)\<rparr>
                        else r)
               in if sql_count hit (l_rows l) \<noteq> 1 then Inl ErrBadTransition
                  else Inr (insertEvent iid (Some (n_status cur)) to (byName by) reason now
                         (l\<lparr>l_rows := sql_update hit set_cols (l_rows l)\<rparr>)))))"

definition Supersede :: "json_lib \<Rightarrow> string \<Rightarrow> string \<Rightarrow> intent \<Rightarrow> prov \<Rightarrow> go_time \<Rightarrow> ledger \<Rightarrow> ierr + ledger \<times> intent" where
  "Supersede lib new_id iid next_intent by clk l =
     try_ok (normalizeNew lib next_intent) (\<lambda>it.
     try_ok (cleanProvenance by) (\<lambda>by.
       let now = trunc_ms clk; it = stamped new_id now it; l = fst (expireDueTx now l)
       in try_ok (getTx iid now l) (\<lambda>old.
         if \<not> CanTransition (n_status old) StatusCancelled then Inl ErrBadTransition
         else try_ok (checkCaps (n_status it) 1 (if n_status old = StatusProposed then 1 else 0) l) (\<lambda>_.
           let l = l\<lparr>l_rows := sql_update (\<lambda>r. i_id r = iid \<and> i_status r = n_status old)
                 (\<lambda>r. r\<lparr>i_status := StatusCancelled, i_invalid := Some (unix_ms now), i_superseded := new_id,
                        i_updated := unix_ms now\<rparr>) (l_rows l)\<rparr>;
               l = insertEvent iid (Some (n_status old)) StatusCancelled (byName by) (''superseded by '' @ new_id) now l
           in try_ok (insertIntent it l) (\<lambda>l. Inr (l, it))))))"

definition RecordFire :: "string \<Rightarrow> go_time \<Rightarrow> ledger \<Rightarrow> ierr + ledger \<times> intent" where
  "RecordFire iid clk l =
     (let now = trunc_ms clk; l = fst (expireDueTx now l);
          can = (\<lambda>r. i_id r = iid \<and> i_status r = StatusActive \<and> (i_budget r = 0 \<or> i_used r < i_budget r))
      in if sql_count can (l_rows l) = 0
         then try_ok (getTx iid now l) (\<lambda>cur.
                Inl (if n_status cur \<noteq> StatusActive then ErrNotActive else ErrBudgetSpent))
         else let l = l\<lparr>l_rows := sql_update can (\<lambda>r. r\<lparr>i_used := i_used r + 1, i_updated := unix_ms now\<rparr>) (l_rows l)\<rparr>
           in try_ok (getTx iid now l) (\<lambda>cur.
                if n_budget cur > 0 \<and> n_used cur \<ge> n_budget cur
                then let l = l\<lparr>l_rows := sql_update (\<lambda>r. i_id r = iid \<and> i_status r = StatusActive)
                           (\<lambda>r. r\<lparr>i_status := StatusDone, i_invalid := Some (unix_ms now), i_updated := unix_ms now\<rparr>) (l_rows l)\<rparr>
                  in Inr (insertEvent iid (Some StatusActive) StatusDone ''system:budget''
                            (''spent its '' @ itoa (n_budget cur) @ '' fires'') now l,
                          cur\<lparr>n_status := StatusDone, n_invalid := Some now\<rparr>)
                else Inr (l, cur)))"

definition ExpireDue :: "go_time \<Rightarrow> ledger \<Rightarrow> ledger \<times> nat" where
  "ExpireDue clk l = expireDueTx (trunc_ms clk) l"

section \<open>The autonomy dial\<close>

definition AutonomyRank :: "string \<Rightarrow> nat option" where
  "AutonomyRank setting =
     (if setting = ''default'' then Some 0 else if setting = ''ask'' then Some 1
      else if setting = ''notify'' then Some 2 else if setting = ''off'' then Some 3 else None)"

definition AutonomyTiers :: "string list" where
  "AutonomyTiers = [''T1'', ''T2'', ''T3'']"

text \<open>A map is its list of entries with distinct keys; the error is the first offending key in order.\<close>

fun normalize_entries :: "(string \<times> string) list \<Rightarrow> string + (string \<times> string) list" where
  "normalize_entries [] = Inr []"
| "normalize_entries ((k, v) # es) =
     (if k \<notin> set AutonomyTiers \<or> AutonomyRank v = None then Inl k
      else try_ok (normalize_entries es) (\<lambda>out. Inr (if v \<noteq> ''default'' then (k, v) # out else out)))"

definition NormalizeAutonomy :: "(string \<times> string) list \<Rightarrow> string + (string \<times> string) list" where
  "NormalizeAutonomy entries = normalize_entries (sort_key fst entries)"

definition AutonomyOf :: "(string \<times> string) list \<Rightarrow> string \<Rightarrow> string" where
  "AutonomyOf dial_entries tier = (case map_of dial_entries tier of Some v \<Rightarrow> v | None \<Rightarrow> ''default'')"

section \<open>Steps of the ledger\<close>

text \<open>
  What the operations are made of: an intent is created within the caps, moves to another status with
  an event, or fires. \<open>may_activate\<close> is the floor under every activation.
\<close>

definition same_owner :: "intent_row \<Rightarrow> intent_row \<Rightarrow> bool" where
  "same_owner r r' \<longleftrightarrow> i_id r' = i_id r \<and> i_source r' = i_source r \<and> i_prov r' = i_prov r \<and>
     i_budget r' = i_budget r \<and> i_used r' = i_used r"

definition hits :: "string \<Rightarrow> intent_status \<Rightarrow> intent_row \<Rightarrow> bool" where
  "hits iid s r \<longleftrightarrow> i_id r = iid \<and> i_status r = s"

definition may_fire :: "string \<Rightarrow> intent_row \<Rightarrow> bool" where
  "may_fire iid r \<longleftrightarrow> i_id r = iid \<and> i_status r = StatusActive \<and> (i_budget r = 0 \<or> i_used r < i_budget r)"

definition end_row :: "int \<Rightarrow> intent_row \<Rightarrow> intent_row" where
  "end_row v r = r\<lparr>i_status := StatusDone, i_invalid := Some v, i_updated := v\<rparr>"

inductive lstep :: "ledger \<Rightarrow> ledger \<Rightarrow> bool" where
  created: "n_id n \<notin> i_id ` set (l_rows l) \<Longrightarrow> n_status n \<in> {StatusProposed, StatusActive} \<Longrightarrow>
     (n_status n = StatusActive \<Longrightarrow> n_source n = SourceExplicit \<and> ownerAuthored (n_prov n)) \<Longrightarrow>
     n_used n = 0 \<Longrightarrow> 0 \<le> n_budget n \<Longrightarrow> n_invalid n = None \<Longrightarrow>
     open_count l + 1 \<le> MaxOpenIntents \<Longrightarrow>
     (n_status n = StatusProposed \<Longrightarrow> proposed_count l + 1 \<le> MaxProposedIntents) \<Longrightarrow>
     lstep l (insertEvent (n_id n) None (n_status n) (byName (n_prov n)) ''created'' at_time
       (l\<lparr>l_rows := l_rows l @ [to_row n]\<rparr>))"
| moved: "r0 \<in> set (l_rows l) \<Longrightarrow> hits iid s r0 \<Longrightarrow> CanTransition s t \<Longrightarrow>
     (s = StatusProposed \<and> t = StatusActive \<Longrightarrow> ownerAuthored pv \<and> by = byName pv) \<Longrightarrow>
     (\<And>r. hits iid s r \<Longrightarrow> same_owner r (f r) \<and> i_status (f r) = t \<and>
        (if Open t then i_invalid (f r) = i_invalid r else i_invalid (f r) \<noteq> None)) \<Longrightarrow>
     lstep l (insertEvent iid (Some s) t by reason at_time (l\<lparr>l_rows := sql_update (hits iid s) f (l_rows l)\<rparr>))"
| fired: "\<forall>r \<in> set (l_rows l). may_fire iid r \<longrightarrow> i_budget r = 0 \<or> i_used r + 1 < i_budget r \<Longrightarrow>
     lstep l (l\<lparr>l_rows := sql_update (may_fire iid) (\<lambda>r. r\<lparr>i_used := i_used r + 1, i_updated := v\<rparr>) (l_rows l)\<rparr>)"
| fired_last: "r0 \<in> set (l_rows l) \<Longrightarrow> may_fire iid r0 \<Longrightarrow> i_budget r0 > 0 \<Longrightarrow> i_used r0 + 1 = i_budget r0 \<Longrightarrow>
     lstep l (insertEvent iid (Some StatusActive) StatusDone by reason at_time
       (l\<lparr>l_rows := sql_update (hits iid StatusActive) (end_row v)
         (sql_update (may_fire iid) (\<lambda>r. r\<lparr>i_used := i_used r + 1, i_updated := v\<rparr>) (l_rows l))\<rparr>))"

section \<open>The invariant of the ledger\<close>

definition irow_ok :: "intent_row \<Rightarrow> bool" where
  "irow_ok r \<longleftrightarrow> status_valid (i_status r) \<and> 0 \<le> i_used r \<and> 0 \<le> i_budget r \<and>
     (0 < i_budget r \<longrightarrow> i_used r \<le> i_budget r \<and> (Open (i_status r) \<longrightarrow> i_used r < i_budget r)) \<and>
     (Open (i_status r) \<longleftrightarrow> i_invalid r = None)"

text \<open>The history of an intent is a path of allowed moves from its creation to its status.\<close>

fun history :: "intent_status option \<Rightarrow> intent_event list \<Rightarrow> intent_status \<Rightarrow> bool" where
  "history prev [] cur = (prev = Some cur)"
| "history prev (e # es) cur =
     (v_from e = prev \<and> (case prev of None \<Rightarrow> True | Some s \<Rightarrow> CanTransition s (v_to e)) \<and>
      history (Some (v_to e)) es cur)"

definition authorised :: "ledger \<Rightarrow> intent_row \<Rightarrow> bool" where
  "authorised l r \<longleftrightarrow> (i_source r = SourceExplicit \<and> ownerAuthored (i_prov r)) \<or>
     (\<exists>e \<in> set (Events (i_id r) l). v_from e = Some StatusProposed \<and> v_to e = StatusActive \<and>
        (\<exists>pv. ownerAuthored pv \<and> v_by e = cleanAuthor (p_sender pv)))"

definition lwf :: "ledger \<Rightarrow> bool" where
  "lwf l \<longleftrightarrow> distinct (map i_id (l_rows l)) \<and> (\<forall>r \<in> set (l_rows l). irow_ok r) \<and>
     (\<forall>e \<in> set (l_events l). v_intent e \<in> i_id ` set (l_rows l)) \<and>
     (\<forall>r \<in> set (l_rows l). history None (Events (i_id r) l) (i_status r)) \<and>
     (\<forall>r \<in> set (l_rows l). i_status r \<in> {StatusActive, StatusPaused, StatusDone} \<longrightarrow> authorised l r) \<and>
     open_count l \<le> MaxOpenIntents \<and> proposed_count l \<le> MaxProposedIntents"

lemma lwf_empty: "lwf \<lparr>l_rows = [], l_events = []\<rparr>"
  by (simp add: lwf_def open_count_def proposed_count_def MaxOpenIntents_def MaxProposedIntents_def)

lemma CanTransition_cases:
  "CanTransition s t \<Longrightarrow> Open s \<and> t \<noteq> StatusProposed \<and> status_valid t \<and> (t = StatusActive \<or> t = StatusPaused \<longrightarrow> Open t) \<and>
     (t = StatusDone \<or> t = StatusPaused \<longrightarrow> s = StatusActive) \<and> (t = StatusActive \<longrightarrow> s = StatusProposed \<or> s = StatusPaused)"
  by (cases s) (auto simp: CanTransition_def Open_def status_valid_def Statuses_def)

lemma history_snoc:
  "history prev es cur \<Longrightarrow> v_from e = Some cur \<Longrightarrow> CanTransition cur (v_to e) \<Longrightarrow> history prev (es @ [e]) (v_to e)"
  by (induction prev es cur rule: history.induct) auto

lemma Events_insertEvent:
  "Events i (insertEvent j from to by reason t l) =
     Events i l @ (if i = j then [\<lparr>v_intent = j, v_at = unix_ms t, v_from = from, v_to = to,
        v_by = cleanAuthor by, v_reason = cleanReason reason\<rparr>] else [])"
  by (simp add: Events_def insertEvent_def)

lemma Events_rows [simp]: "Events i (l\<lparr>l_rows := rs\<rparr>) = Events i l"
  by (simp add: Events_def)

lemma rows_insertEvent [simp]: "l_rows (insertEvent j from to by reason t l) = l_rows l"
  by (simp add: insertEvent_def)

lemma counts_insertEvent [simp]:
  "open_count (insertEvent j from to by reason t l) = open_count l"
  "proposed_count (insertEvent j from to by reason t l) = proposed_count l"
  by (simp_all add: open_count_def proposed_count_def)

lemma authorised_mono:
  "authorised l r \<Longrightarrow> same_owner r r' \<Longrightarrow> set (Events (i_id r) l) \<subseteq> set (Events (i_id r) l') \<Longrightarrow> authorised l' r'"
  by (auto simp: authorised_def same_owner_def)

lemma count_update_le:
  "(\<And>r. P r \<Longrightarrow> Q (f r) \<Longrightarrow> Q r) \<Longrightarrow> sql_count Q (sql_update P f rs) \<le> sql_count Q rs"
  by (induction rs) (auto intro: le_SucI)

lemma lwf_unique: "lwf l \<Longrightarrow> r \<in> set (l_rows l) \<Longrightarrow> q \<in> set (l_rows l) \<Longrightarrow> i_id q = i_id r \<Longrightarrow> q = r"
  by (auto simp: lwf_def dest: key_row_unique)

lemma history_of: "lwf l \<Longrightarrow> r \<in> set (l_rows l) \<Longrightarrow> history None (Events (i_id r) l) (i_status r)"
  by (simp add: lwf_def)

lemma authorised_of:
  "lwf l \<Longrightarrow> r \<in> set (l_rows l) \<Longrightarrow> i_status r \<in> {StatusActive, StatusPaused, StatusDone} \<Longrightarrow> authorised l r"
  unfolding lwf_def by blast

lemma irow_ok_of: "lwf l \<Longrightarrow> r \<in> set (l_rows l) \<Longrightarrow> irow_ok r"
  by (simp add: lwf_def)

lemma lwf_created:
  assumes "lwf l" "n_id n \<notin> i_id ` set (l_rows l)" "n_status n \<in> {StatusProposed, StatusActive}"
    "n_status n = StatusActive \<Longrightarrow> n_source n = SourceExplicit \<and> ownerAuthored (n_prov n)"
    "n_used n = 0" "0 \<le> n_budget n" "n_invalid n = None" "open_count l + 1 \<le> MaxOpenIntents"
    "n_status n = StatusProposed \<Longrightarrow> proposed_count l + 1 \<le> MaxProposedIntents"
  shows "lwf (insertEvent (n_id n) None (n_status n) by reason t (l\<lparr>l_rows := l_rows l @ [to_row n]\<rparr>))"
    (is "lwf ?l")
proof -
  have row: "i_id (to_row n) = n_id n" "i_status (to_row n) = n_status n" "i_source (to_row n) = n_source n"
    "i_prov (to_row n) = n_prov n"
    by (simp_all add: to_row_def)
  have op: "Open (n_status n)" "status_valid (n_status n)"
    using assms(3) by (auto simp: Open_def status_valid_def Statuses_def)
  then have ok: "irow_ok (to_row n)" using assms(5,6,7) by (simp add: irow_ok_def to_row_def)
  have ev: "Events i ?l = Events i l" if "i \<in> i_id ` set (l_rows l)" for i
  proof -
    have "i \<noteq> n_id n" using that assms(2) by blast
    then show ?thesis by (simp add: Events_insertEvent)
  qed
  have "\<forall>e \<in> set (l_events l). v_intent e \<in> i_id ` set (l_rows l)" using assms(1) by (simp add: lwf_def)
  then have none: "Events (n_id n) l = []"
    using assms(2) unfolding Events_def filter_empty_conv by metis
  have "history None (Events (i_id (to_row n)) ?l) (i_status (to_row n))"
    by (simp add: row Events_insertEvent none)
  moreover have "authorised ?l r" if "r \<in> set (l_rows l)" "i_status r \<in> {StatusActive, StatusPaused, StatusDone}" for r
    using authorised_of [OF assms(1) that] by (rule authorised_mono) (auto simp: same_owner_def Events_insertEvent)
  moreover have "authorised ?l (to_row n)" if "n_status n = StatusActive"
    using assms(4) [OF that] by (simp add: authorised_def row)
  moreover have "history None (Events (i_id r) ?l) (i_status r)" if "r \<in> set (l_rows l)" for r
    using history_of [OF assms(1) that] ev that by simp
  moreover have "open_count ?l = open_count l + 1" "proposed_count ?l = proposed_count l + (if n_status n = StatusProposed then 1 else 0)"
    using op by (simp_all add: open_count_def proposed_count_def row)
  moreover have "\<forall>e \<in> set (l_events ?l). v_intent e \<in> i_id ` set (l_rows ?l)"
    using assms(1) by (auto simp: insertEvent_def lwf_def row)
  ultimately show ?thesis using assms ok row by (auto simp: lwf_def)
qed

lemma lwf_moved:
  assumes "lwf l" "r0 \<in> set (l_rows l)" "hits iid s r0" "CanTransition s t"
    "s = StatusProposed \<and> t = StatusActive \<Longrightarrow> ownerAuthored pv \<and> by = byName pv"
    "\<And>r. hits iid s r \<Longrightarrow> same_owner r (f r) \<and> i_status (f r) = t \<and>
        (if Open t then i_invalid (f r) = i_invalid r else i_invalid (f r) \<noteq> None)"
  shows "lwf (insertEvent iid (Some s) t by reason at_time (l\<lparr>l_rows := sql_update (hits iid s) f (l_rows l)\<rparr>))"
    (is "lwf ?l")
proof -
  note ct = CanTransition_cases [OF assms(4)]
  have ids: "map i_id (l_rows ?l) = map i_id (l_rows l)"
    using assms(6) by (auto simp: same_owner_def intro: map_key_sql_update)
  have row: "(\<exists>r \<in> set (l_rows l). r' = f r \<and> hits iid s r) \<or> (r' \<in> set (l_rows l) \<and> i_id r' \<noteq> iid)"
    if "r' \<in> set (l_rows ?l)" for r'
  proof -
    from that have "r' \<in> set (sql_update (hits iid s) f (l_rows l))" by simp
    then show ?thesis
      by (rule in_sql_updateE) (use assms(3) lwf_unique [OF assms(1,2)] in \<open>auto simp: hits_def\<close>)
  qed
  have good: "irow_ok r' \<and> history None (Events (i_id r') ?l) (i_status r') \<and>
      (i_status r' \<in> {StatusActive, StatusPaused, StatusDone} \<longrightarrow> authorised ?l r')"
    if r': "r' \<in> set (l_rows ?l)" for r'
    using row [OF r']
  proof
    assume "\<exists>r \<in> set (l_rows l). r' = f r \<and> hits iid s r"
    then obtain r where r: "r \<in> set (l_rows l)" "r' = f r" "hits iid s r" by blast
    note f = assms(6) [OF r(3)]
    have id: "i_id r' = iid" "i_id r = iid" "i_status r = s" using f r by (simp_all add: same_owner_def hits_def)
    have "irow_ok r'" using f r(2) irow_ok_of [OF assms(1) r(1)] ct id(3)
      by (auto simp: irow_ok_def same_owner_def split: if_splits)
    moreover have "history None (Events (i_id r') ?l) (i_status r')"
    proof -
      let ?e = "\<lparr>v_intent = iid, v_at = unix_ms at_time, v_from = Some s, v_to = t,
         v_by = cleanAuthor by, v_reason = cleanReason reason\<rparr>"
      have "history None (Events iid l) s" using history_of [OF assms(1) r(1)] id by simp
      from history_snoc [OF this, of ?e] show ?thesis using assms(4) f r(2) id by (simp add: Events_insertEvent)
    qed
    moreover have "authorised ?l r'" if "i_status r' \<in> {StatusActive, StatusPaused, StatusDone}"
    proof (cases "s = StatusProposed \<and> t = StatusActive")
      case True
      with assms(5) have "ownerAuthored pv" "by = p_sender pv" by (auto simp: byName_def ownerAuthored_def)
      with True id show ?thesis by (auto simp: authorised_def Events_insertEvent)
    next
      case False
      have "i_status r \<in> {StatusActive, StatusPaused, StatusDone}" using that ct False f r(2) id(3) by auto
      from authorised_of [OF assms(1) r(1) this] show ?thesis
        by (rule authorised_mono) (use f r(2) in \<open>auto simp: Events_insertEvent\<close>)
    qed
    ultimately show ?thesis by blast
  next
    assume r: "r' \<in> set (l_rows l) \<and> i_id r' \<noteq> iid"
    then have "Events (i_id r') ?l = Events (i_id r') l" by (simp add: Events_insertEvent)
    then show ?thesis using r irow_ok_of [OF assms(1)] history_of [OF assms(1)] authorised_of [OF assms(1)]
      by (auto simp: authorised_def)
  qed
  have "open_count ?l \<le> open_count l" "proposed_count ?l \<le> proposed_count l"
    using ct assms(6) by (auto simp: open_count_def proposed_count_def hits_def intro!: count_update_le)
  moreover have "iid \<in> i_id ` set (l_rows l)" using assms(2,3) by (auto simp: hits_def)
  then have "\<forall>e \<in> set (l_events ?l). v_intent e \<in> i_id ` set (l_rows ?l)"
    using assms(1) ids by (auto simp: insertEvent_def lwf_def) (metis image_eqI set_map)+
  ultimately show ?thesis using good assms(1) ids unfolding lwf_def by (auto simp del: rows_insertEvent)
qed

end
