(* ===== verification/IntentLedger.thy ===== *)
theory IntentLedger
  imports Intent Machine
begin

text \<open>
  What the intent ledger guarantees: every operation is a sequence of the steps of \<open>Intent\<close>, every step
  keeps the invariant \<open>lwf\<close>, so after any sequence of operations an active intent is backed by the
  owner, the caps and the fire budgets hold and each history is a path of allowed moves. The reads
  that judge expiry lazily see what the sweep would write.
\<close>

section \<open>Every step keeps the invariant\<close>

lemma lwfI:
  assumes "distinct (map i_id (l_rows l))" "\<And>r. r \<in> set (l_rows l) \<Longrightarrow> irow_ok r"
    "\<And>e. e \<in> set (l_events l) \<Longrightarrow> v_intent e \<in> i_id ` set (l_rows l)"
    "\<And>r. r \<in> set (l_rows l) \<Longrightarrow> history None (Events (i_id r) l) (i_status r)"
    "\<And>r. r \<in> set (l_rows l) \<Longrightarrow> i_status r \<in> {StatusActive, StatusPaused, StatusDone} \<Longrightarrow> authorised l r"
    "open_count l \<le> MaxOpenIntents" "proposed_count l \<le> MaxProposedIntents"
  shows "lwf l"
  using assms by (simp add: lwf_def)

lemma lwf_events_of: "lwf l \<Longrightarrow> e \<in> set (l_events l) \<Longrightarrow> v_intent e \<in> i_id ` set (l_rows l)"
  by (simp add: lwf_def)

lemma lwf_distinct: "lwf l \<Longrightarrow> distinct (map i_id (l_rows l))"
  by (simp add: lwf_def)

lemma lwf_counts: "lwf l \<Longrightarrow> open_count l \<le> MaxOpenIntents \<and> proposed_count l \<le> MaxProposedIntents"
  by (simp add: lwf_def)

lemma authorised_cong:
  "authorised l r \<Longrightarrow> i_id r' = i_id r \<Longrightarrow> i_source r' = i_source r \<Longrightarrow> i_prov r' = i_prov r \<Longrightarrow>
   set (Events (i_id r) l) \<subseteq> set (Events (i_id r) l') \<Longrightarrow> authorised l' r'"
  by (auto simp: authorised_def)

lemma lwf_fired:
  assumes "lwf l" "\<forall>r \<in> set (l_rows l). may_fire iid r \<longrightarrow> i_budget r = 0 \<or> i_used r + 1 < i_budget r"
  shows "lwf (l\<lparr>l_rows := sql_update (may_fire iid) (\<lambda>r. r\<lparr>i_used := i_used r + 1, i_updated := v\<rparr>) (l_rows l)\<rparr>)"
    (is "lwf ?l")
proof (rule lwfI)
  have ids: "map i_id (l_rows ?l) = map i_id (l_rows l)" by (simp add: map_key_sql_update)
  then show "distinct (map i_id (l_rows ?l))" using assms(1) by (simp add: lwf_def)
  have ids': "i_id ` set (l_rows ?l) = i_id ` set (l_rows l)" using ids by (metis set_map)
  show "v_intent e \<in> i_id ` set (l_rows ?l)" if "e \<in> set (l_events ?l)" for e
    using that lwf_events_of [OF assms(1)] unfolding ids' by simp
  have "open_count ?l = open_count l \<and> proposed_count ?l = proposed_count l"
    by (simp add: open_count_def proposed_count_def sql_count_def sql_update_def filter_map o_def if_distrib
        cong: if_cong)
  then show "open_count ?l \<le> MaxOpenIntents" "proposed_count ?l \<le> MaxProposedIntents"
    using lwf_counts [OF assms(1)] by simp_all
  fix r' assume r': "r' \<in> set (l_rows ?l)"
  then obtain r where r: "r \<in> set (l_rows l)" "i_id r' = i_id r" "i_status r' = i_status r"
    "i_source r' = i_source r" "i_prov r' = i_prov r"
    and row: "r' = r \<or> (may_fire iid r \<and> r' = r\<lparr>i_used := i_used r + 1, i_updated := v\<rparr>)"
    by (auto simp: sql_update_def split: if_splits)
  show "irow_ok r'" using row irow_ok_of [OF assms(1) r(1)] assms(2) r(1)
    by (auto simp: irow_ok_def may_fire_def)
  show "history None (Events (i_id r') ?l) (i_status r')" using history_of [OF assms(1) r(1)] r by simp
  show "authorised ?l r'" if "i_status r' \<in> {StatusActive, StatusPaused, StatusDone}"
    using authorised_of [OF assms(1) r(1)] that r by (auto intro: authorised_cong)
qed

lemma lwf_fired_last:
  assumes "lwf l" "r0 \<in> set (l_rows l)" "may_fire iid r0" "i_budget r0 > 0" "i_used r0 + 1 = i_budget r0"
  shows "lwf (insertEvent iid (Some StatusActive) StatusDone by reason at_time
       (l\<lparr>l_rows := sql_update (hits iid StatusActive) (end_row v)
         (sql_update (may_fire iid) (\<lambda>r. r\<lparr>i_used := i_used r + 1, i_updated := v\<rparr>) (l_rows l))\<rparr>))"
    (is "lwf ?l")
proof (rule lwfI)
  let ?f = "\<lambda>r. end_row v (r\<lparr>i_used := i_used r + 1, i_updated := v\<rparr>)"
  have r0: "i_id r0 = iid" "i_status r0 = StatusActive" using assms(3) by (simp_all add: may_fire_def)
  have uniq: "r = r0" if "r \<in> set (l_rows l)" "i_id r = iid" for r
    using lwf_unique [OF assms(1,2) that(1)] that(2) r0 by simp
  have rows: "l_rows ?l = sql_update (\<lambda>r. i_id r = iid) ?f (l_rows l)"
    using uniq assms(3) r0 by (auto simp: sql_update_def hits_def may_fire_def)
  have ids: "map i_id (l_rows ?l) = map i_id (l_rows l)"
    unfolding rows by (simp add: map_key_sql_update end_row_def)
  then show "distinct (map i_id (l_rows ?l))" using lwf_distinct [OF assms(1)] by simp
  have ids': "i_id ` set (l_rows ?l) = i_id ` set (l_rows l)" using ids by (metis set_map)
  show "v_intent e \<in> i_id ` set (l_rows ?l)" if "e \<in> set (l_events ?l)" for e
    using that lwf_events_of [OF assms(1)] assms(2) r0 unfolding ids' by (auto simp: insertEvent_def)
  have "open_count ?l \<le> open_count l" "proposed_count ?l \<le> proposed_count l"
    unfolding open_count_def proposed_count_def rows
    by (auto intro!: count_update_le simp: end_row_def Open_def)
  then show "open_count ?l \<le> MaxOpenIntents" "proposed_count ?l \<le> MaxProposedIntents"
    using lwf_counts [OF assms(1)] by simp_all
  fix r' assume "r' \<in> set (l_rows ?l)"
  then have "r' \<in> set (sql_update (\<lambda>r. i_id r = iid) ?f (l_rows l))" unfolding rows .
  then have "r' = ?f r0 \<or> (r' \<in> set (l_rows l) \<and> i_id r' \<noteq> iid)"
  proof (rule in_sql_updateE)
    fix r assume "r \<in> set (l_rows l)" "i_id r = iid" and r': "r' = ?f r"
    then have "r = r0" by (intro uniq)
    then show ?thesis unfolding r' by (intro disjI1 refl arg_cong [of r r0 ?f])
  qed blast
  then consider (hit) "r' = ?f r0" | (other) "r' \<in> set (l_rows l)" "i_id r' \<noteq> iid" by blast
  then have "irow_ok r' \<and> history None (Events (i_id r') ?l) (i_status r') \<and>
      (i_status r' \<in> {StatusActive, StatusPaused, StatusDone} \<longrightarrow> authorised ?l r')"
  proof cases
    case hit
    have "irow_ok r'" using hit irow_ok_of [OF assms(1,2)] assms(4,5)
      by (auto simp: irow_ok_def end_row_def Open_def status_valid_def Statuses_def)
    moreover have "history None (Events (i_id r') ?l) (i_status r')"
    proof -
      let ?e = "\<lparr>v_intent = iid, v_at = unix_ms at_time, v_from = Some StatusActive, v_to = StatusDone,
         v_by = cleanAuthor by, v_reason = cleanReason reason\<rparr>"
      have "history None (Events iid l) StatusActive" using history_of [OF assms(1,2)] r0 by simp
      from history_snoc [OF this, of ?e] show ?thesis
        using hit r0 by (simp add: Events_insertEvent end_row_def CanTransition_def)
    qed
    moreover have "authorised l r0" using authorised_of [OF assms(1,2)] r0 by simp
    then have "authorised ?l r'"
      by (rule authorised_cong) (auto simp: hit end_row_def r0 Events_insertEvent)
    ultimately show ?thesis by blast
  next
    case other
    then have "Events (i_id r') ?l = Events (i_id r') l" by (simp add: Events_insertEvent)
    then show ?thesis using other irow_ok_of [OF assms(1)] history_of [OF assms(1)] authorised_of [OF assms(1)]
      by (auto simp: authorised_def)
  qed
  then show "irow_ok r'" "history None (Events (i_id r') ?l) (i_status r')"
    "i_status r' \<in> {StatusActive, StatusPaused, StatusDone} \<Longrightarrow> authorised ?l r'" by blast+
qed

lemma lstep_lwf: "lstep l l' \<Longrightarrow> lwf l \<Longrightarrow> lwf l'"
  by (induction rule: lstep.induct)
    (rule lwf_created lwf_moved lwf_fired lwf_fired_last; assumption | blast)+

lemma lsteps_lwf: "lstep\<^sup>*\<^sup>* l l' \<Longrightarrow> lwf l \<Longrightarrow> lwf l'"
  by (induction rule: rtranclp_induct) (auto intro: lstep_lwf)

section \<open>The sweep\<close>

definition exp_row :: "go_time \<Rightarrow> int \<Rightarrow> intent_row \<Rightarrow> intent_row" where
  "exp_row now ex r = r\<lparr>i_status := StatusExpired, i_invalid := Some ex, i_updated := unix_ms now\<rparr>"

definition swept :: "go_time \<Rightarrow> intent_row \<Rightarrow> intent_row" where
  "swept now r = (if lapsed (unix_ms now) r then exp_row now (the (i_expires r)) r else r)"

definition due_step :: "go_time \<Rightarrow> string \<times> intent_status \<times> int \<Rightarrow> intent_row \<Rightarrow> intent_row" where
  "due_step now d r = (if hits (fst d) (fst (snd d)) r then exp_row now (snd (snd d)) r else r)"

lemma hits_lambda: "(\<lambda>r. i_id r = iid \<and> i_status r = s) = hits iid s"
  by (simp add: hits_def fun_eq_iff)

lemma may_fire_lambda:
  "(\<lambda>r. i_id r = iid \<and> i_status r = StatusActive \<and> (i_budget r = 0 \<or> i_used r < i_budget r)) = may_fire iid"
  by (simp add: may_fire_def fun_eq_iff)

lemma expire_one_eq:
  "expire_one now (iid, s, ex) l =
     (if sql_count (hits iid s) (l_rows l) = 0 then l
      else insertEvent iid (Some s) StatusExpired ''system:expiry'' ''reached its expiry'' now
             (l\<lparr>l_rows := sql_update (hits iid s) (exp_row now ex) (l_rows l)\<rparr>))"
  unfolding expire_one_def prod.case hits_lambda Let_def exp_row_def [abs_def] by (rule refl)

lemma expire_one_rows: "l_rows (expire_one now d l) = map (due_step now d) (l_rows l)"
proof (cases d)
  case (fields iid s ex)
  have "map (due_step now d) (l_rows l) = sql_update (hits iid s) (exp_row now ex) (l_rows l)"
    by (simp add: fields due_step_def sql_update_def)
  then show ?thesis by (simp add: fields expire_one_eq sql_update_none)
qed

lemma expire_fold_rows:
  "l_rows (fold (expire_one now) ds l) = map (\<lambda>r. fold (due_step now) ds r) (l_rows l)"
  by (induction ds arbitrary: l) (simp_all add: expire_one_rows)

lemma due_fold_closed:
  "\<not> Open (i_status r) \<Longrightarrow> (\<forall>d \<in> set ds. Open (fst (snd d))) \<Longrightarrow> fold (due_step now) ds r = r"
  by (induction ds) (auto simp: due_step_def hits_def)

lemma due_fold:
  "(\<forall>d \<in> set ds. Open (fst (snd d)) \<and> (fst d = i_id r \<longrightarrow> fst (snd d) = i_status r \<and> i_expires r = Some (snd (snd d)))) \<Longrightarrow>
   fold (due_step now) ds r = (if i_id r \<in> fst ` set ds then exp_row now (the (i_expires r)) r else r)"
proof (induction ds)
  case (Cons d ds)
  show ?case
  proof (cases "fst d = i_id r")
    case True
    then have "due_step now d r = exp_row now (the (i_expires r)) r"
      using Cons.prems by (simp add: due_step_def hits_def)
    moreover have "fold (due_step now) ds (exp_row now (the (i_expires r)) r) = exp_row now (the (i_expires r)) r"
      by (rule due_fold_closed) (use Cons.prems in \<open>auto simp: exp_row_def Open_def\<close>)
    ultimately show ?thesis using True by simp
  next
    case False
    then have "due_step now d r = r" by (simp add: due_step_def hits_def)
    then show ?thesis using Cons False by auto
  qed
qed simp

lemma due_list_entries:
  "set (due_list now l) = (\<lambda>r. (i_id r, i_status r, fst (due_order r))) ` {r \<in> set (l_rows l). lapsed (unix_ms now) r}"
  by (simp add: due_list_def)

lemma lapsed_facts: "lapsed v r \<Longrightarrow> Open (i_status r) \<and> i_expires r = Some (fst (due_order r)) \<and> fst (due_order r) \<le> v"
  by (auto simp: lapsed_def due_order_def split: option.splits)

lemma sweep_rows:
  assumes "distinct (map i_id (l_rows l))"
  shows "l_rows (fst (expireDueTx now l)) = map (swept now) (l_rows l)"
proof -
  have "fold (due_step now) (due_list now l) r = swept now r" if "r \<in> set (l_rows l)" for r
  proof -
    have uniq: "q = r" if "q \<in> set (l_rows l)" "i_id q = i_id r" for q
      using key_row_unique [OF assms \<open>q \<in> _\<close> \<open>r \<in> _\<close>] that by simp
    have "\<forall>d \<in> set (due_list now l). Open (fst (snd d)) \<and>
        (fst d = i_id r \<longrightarrow> fst (snd d) = i_status r \<and> i_expires r = Some (snd (snd d)))"
      by (auto simp: due_list_entries dest: lapsed_facts uniq)
    moreover have "i_id r \<in> fst ` set (due_list now l) \<longleftrightarrow> lapsed (unix_ms now) r"
      using that by (auto simp: due_list_entries image_iff dest: uniq)
    ultimately show ?thesis by (simp add: due_fold swept_def)
  qed
  then show ?thesis by (simp add: expireDueTx_def expire_fold_rows)
qed

lemma expire_one_lsteps:
  assumes "Open (fst (snd d))"
  shows "lstep\<^sup>*\<^sup>* l (expire_one now d l)"
proof (cases d)
  case (fields iid s ex)
  show ?thesis
  proof (cases "sql_count (hits iid s) (l_rows l) = 0")
    case False
    then obtain r0 where "r0 \<in> set (l_rows l)" "hits iid s r0" by (auto simp: sql_count_0_iff)
    then have "lstep l (insertEvent iid (Some s) StatusExpired ''system:expiry'' ''reached its expiry'' now
        (l\<lparr>l_rows := sql_update (hits iid s) (exp_row now ex) (l_rows l)\<rparr>))"
      by (rule lstep.moved)
        (use assms fields in \<open>auto simp: Open_def CanTransition_def exp_row_def same_owner_def\<close>)
    then show ?thesis using False by (simp add: fields expire_one_eq)
  qed (simp add: fields expire_one_eq)
qed

lemma sweep_lsteps: "lstep\<^sup>*\<^sup>* l (fst (expireDueTx now l))"
proof -
  have "lstep\<^sup>*\<^sup>* l (fold (expire_one now) ds l)" if "\<forall>d \<in> set ds. Open (fst (snd d))" for ds l
    using that by (induction ds arbitrary: l) (auto intro: rtranclp_trans [OF expire_one_lsteps])
  moreover have "\<forall>d \<in> set (due_list now l). Open (fst (snd d))"
    by (auto simp: due_list_entries dest: lapsed_facts)
  ultimately show ?thesis by (simp add: expireDueTx_def)
qed

lemma swept_not_lapsed: "\<not> lapsed (unix_ms now) (swept now r)"
  by (simp add: swept_def exp_row_def lapsed_def Open_def)

lemma swept_key [simp]: "i_id (swept now r) = i_id r" "i_created (swept now r) = i_created r"
  "i_type (swept now r) = i_type r"
  by (simp_all add: swept_def exp_row_def)

lemma scan_id [simp]: "n_id (scanIntent now r) = i_id r" "n_budget (scanIntent now r) = i_budget r"
  "n_used (scanIntent now r) = i_used r"
  by (simp_all add: scanIntent_def Let_def)

lemma scan_status: "n_status (scanIntent now r) = effective_status (unix_ms now) r"
  by (auto simp: scanIntent_def effective_status_def lapsed_def Let_def from_ms_le_unix_ms split: option.splits)

lemma getTx_Inr: "getTx iid now l = Inr n \<Longrightarrow>
  \<exists>r. r \<in> set (l_rows l) \<and> i_id r = iid \<and> n = scanIntent now r"
  by (auto simp: getTx_def dest: sql_first_Some split: option.splits)

section \<open>The operations are sequences of steps\<close>

lemma check_Inr [simp]: "check ok e = Inr u \<longleftrightarrow> ok"
  by (simp add: check_def)

lemma normalizeNew_facts:
  assumes "normalizeNew lib n = Inr it"
  shows "n_status it \<in> {StatusProposed, StatusActive}" "n_used it = 0" "0 \<le> n_budget it" "n_budget it \<le> MaxFireBudget"
    "n_invalid it = None" "n_mandate it = []" "n_lifetime it = 0 \<or> MinLifetime \<le> n_lifetime it"
    "n_status it = StatusActive \<Longrightarrow> n_source it = SourceExplicit \<and> ownerAuthored (n_prov it)"
    "\<exists>p. cleanProvenance p = Inr (n_prov it)" "normalizeText (n_title n) MaxTitleRunes True = Inr (n_title it)"
  using assms unfolding normalizeNew_def
  by (auto simp: new_status_def split: if_splits)

lemma created_lstep:
  assumes "insertIntent (stamped new_id now it) l = Inr l'" "checkCaps (n_status it) 0 0 l = Inr ()"
    and "n_status it \<in> {StatusProposed, StatusActive}" "n_used it = 0" "0 \<le> n_budget it" "n_invalid it = None"
    and "n_status it = StatusActive \<Longrightarrow> n_source it = SourceExplicit \<and> ownerAuthored (n_prov it)"
  shows "lstep l l'"
proof -
  let ?n = "stamped new_id now it"
  have "lstep l (insertEvent (n_id ?n) None (n_status ?n) (byName (n_prov ?n)) ''created'' (n_created ?n)
       (l\<lparr>l_rows := l_rows l @ [to_row ?n]\<rparr>))"
    by (rule lstep.created) (use assms in \<open>auto simp: insertIntent_def checkCaps_def stamped_def split: if_splits\<close>)
  then show ?thesis using assms(1) by (simp add: insertIntent_def split: if_splits)
qed

lemma CreateIntent_lsteps:
  assumes "CreateIntent lib new_id clk n l = Inr (l', it)"
  shows "lstep\<^sup>*\<^sup>* l l'"
proof -
  from assms obtain jt where jt: "normalizeNew lib n = Inr jt"
    "checkCaps (n_status jt) 0 0 (fst (expireDueTx (trunc_ms clk) l)) = Inr ()"
    "insertIntent (stamped new_id (trunc_ms clk) jt) (fst (expireDueTx (trunc_ms clk) l)) = Inr l'"
    by (auto simp: CreateIntent_def Let_def stamped_def)
  have "lstep (fst (expireDueTx (trunc_ms clk) l)) l'"
    by (rule created_lstep [OF jt(3,2)]) (use normalizeNew_facts [OF jt(1)] in auto)
  with sweep_lsteps show ?thesis by (rule rtranclp.rtrancl_into_rtrancl)
qed

lemma effective_open: "Open (effective_status v r) \<Longrightarrow> effective_status v r = i_status r"
  by (auto simp: effective_status_def Open_def split: if_splits)

definition moved_row :: "intent_status \<Rightarrow> intent_status \<Rightarrow> duration \<Rightarrow> go_time \<Rightarrow> intent_row \<Rightarrow> intent_row" where
  "moved_row s t life now r =
     (let r = r\<lparr>i_status := t, i_updated := unix_ms now\<rparr>
      in if \<not> Open t then r\<lparr>i_invalid := Some (unix_ms now)\<rparr>
         else if s = StatusProposed \<and> t = StatusActive
         then r\<lparr>i_expires := (if life > 0 then Some (unix_ms (now + life)) else None)\<rparr> else r)"

lemma Transition_Inr:
  assumes "Transition iid to by reason clk l = Inr l'"
  defines "now \<equiv> trunc_ms clk"
  defines "k \<equiv> fst (expireDueTx now l)"
  obtains r pv where "r \<in> set (l_rows k)" "i_id r = iid" "CanTransition (i_status r) to"
    "cleanProvenance by = Inr pv" "i_status r = StatusProposed \<Longrightarrow> to = StatusActive \<Longrightarrow> ownerAuthored pv"
    "l' = insertEvent iid (Some (i_status r)) to (byName pv) reason now
       (k\<lparr>l_rows := sql_update (hits iid (i_status r)) (moved_row (i_status r) to (ms_dur (i_lifetime r)) now) (l_rows k)\<rparr>)"
proof -
  from assms(1) obtain pv cur where pv: "cleanProvenance by = Inr pv" and cur: "getTx iid now k = Inr cur"
    and can: "CanTransition (n_status cur) to"
    and own: "\<not> (n_status cur = StatusProposed \<and> to = StatusActive \<and> \<not> ownerAuthored pv)"
    and l': "l' = insertEvent iid (Some (n_status cur)) to (byName pv) reason now
       (k\<lparr>l_rows := sql_update (hits iid (n_status cur)) (moved_row (n_status cur) to (n_lifetime cur) now) (l_rows k)\<rparr>)"
    unfolding Transition_def k_def now_def hits_lambda Let_def moved_row_def [abs_def]
    by (force split: if_splits)
  from getTx_Inr [OF cur] obtain r where r: "r \<in> set (l_rows k)" "i_id r = iid" "cur = scanIntent now r" by blast
  have "Open (n_status cur)" using CanTransition_cases [OF can] by blast
  then have s: "n_status cur = i_status r" unfolding r(3) scan_status by (rule effective_open)
  have life: "n_lifetime cur = ms_dur (i_lifetime r)" by (simp add: r(3) scanIntent_def Let_def)
  from that [OF r(1,2)] show thesis using pv can own l' unfolding s life by blast
qed

lemma moved_row_facts:
  "same_owner r (moved_row s t life now r) \<and> i_status (moved_row s t life now r) = t \<and>
   (if Open t then i_invalid (moved_row s t life now r) = i_invalid r else i_invalid (moved_row s t life now r) \<noteq> None)"
  by (simp add: moved_row_def same_owner_def Let_def)

lemma Transition_lsteps:
  assumes "Transition iid to by reason clk l = Inr l'"
  shows "lstep\<^sup>*\<^sup>* l l'"
proof -
  let ?k = "fst (expireDueTx (trunc_ms clk) l)"
  from assms obtain r pv where r: "r \<in> set (l_rows ?k)" "i_id r = iid" "CanTransition (i_status r) to"
    "cleanProvenance by = Inr pv" and own: "i_status r = StatusProposed \<Longrightarrow> to = StatusActive \<Longrightarrow> ownerAuthored pv"
    and l': "l' = insertEvent iid (Some (i_status r)) to (byName pv) reason (trunc_ms clk)
       (?k\<lparr>l_rows := sql_update (hits iid (i_status r))
          (moved_row (i_status r) to (ms_dur (i_lifetime r)) (trunc_ms clk)) (l_rows ?k)\<rparr>)"
    by (rule Transition_Inr) (rule that)
  have "lstep ?k l'" unfolding l'
    by (rule lstep.moved [OF r(1) _ r(3)]) (use r(2) own moved_row_facts in \<open>auto simp: hits_def\<close>)
  with sweep_lsteps show ?thesis by (rule rtranclp.rtrancl_into_rtrancl)
qed

lemma count_after_update:
  "(\<And>r. P r \<Longrightarrow> Q r \<and> \<not> Q (f r)) \<Longrightarrow> sql_count Q (sql_update P f rs) + sql_count P rs = sql_count Q rs"
  by (induction rs) auto

lemma Supersede_lsteps:
  assumes "Supersede lib new_id iid n by clk l = Inr (l', it)"
  shows "lstep\<^sup>*\<^sup>* l l'"
proof -
  define now where "now = trunc_ms clk"
  define k where "k = fst (expireDueTx now l)"
  define cancel where "cancel = (\<lambda>r::intent_row. r\<lparr>i_status := StatusCancelled, i_invalid := Some (unix_ms now),
      i_superseded := new_id, i_updated := unix_ms now\<rparr>)"
  from assms obtain jt pv old where jt: "normalizeNew lib n = Inr jt" and old: "getTx iid now k = Inr old"
    and can: "CanTransition (n_status old) StatusCancelled"
    and caps: "checkCaps (n_status jt) 1 (if n_status old = StatusProposed then 1 else 0) k = Inr ()"
    and ins: "insertIntent (stamped new_id now jt)
       (insertEvent iid (Some (n_status old)) StatusCancelled (byName pv) (''superseded by '' @ new_id) now
         (k\<lparr>l_rows := sql_update (hits iid (n_status old)) cancel (l_rows k)\<rparr>)) = Inr l'"
    unfolding Supersede_def k_def now_def hits_lambda Let_def cancel_def
    by (auto simp: stamped_def split: if_splits)
  from getTx_Inr [OF old] obtain r where r: "r \<in> set (l_rows k)" "i_id r = iid" "old = scanIntent now r" by blast
  have op: "Open (n_status old)" using CanTransition_cases [OF can] by blast
  then have s: "n_status old = i_status r" unfolding r(3) scan_status by (rule effective_open)
  define m where "m = insertEvent iid (Some (n_status old)) StatusCancelled (byName pv) (''superseded by '' @ new_id) now
         (k\<lparr>l_rows := sql_update (hits iid (n_status old)) cancel (l_rows k)\<rparr>)"
  have "lstep k m" unfolding m_def
    by (rule lstep.moved [OF r(1) _ can]) (use r(2) s in \<open>auto simp: hits_def cancel_def same_owner_def Open_def\<close>)
  have one: "0 < sql_count (hits iid (n_status old)) (l_rows k)"
    unfolding sql_count_pos_iff using r(1,2) s by (auto simp: hits_def)
  have "sql_count (\<lambda>r. Open (i_status r)) (l_rows m) + sql_count (hits iid (n_status old)) (l_rows k)
      = sql_count (\<lambda>r. Open (i_status r)) (l_rows k)"
    unfolding m_def rows_insertEvent
    by (simp, rule count_after_update) (use op in \<open>auto simp: hits_def cancel_def Open_def\<close>)
  with one have o: "open_count m + 1 \<le> open_count k" by (simp add: open_count_def)
  have "proposed_count m + (if n_status old = StatusProposed then 1 else 0) \<le> proposed_count k"
  proof (cases "n_status old = StatusProposed")
    case True
    have "sql_count (\<lambda>r. i_status r = StatusProposed) (l_rows m) + sql_count (hits iid (n_status old)) (l_rows k)
      = sql_count (\<lambda>r. i_status r = StatusProposed) (l_rows k)"
      unfolding m_def rows_insertEvent
      by (simp, rule count_after_update) (use True in \<open>auto simp: hits_def cancel_def\<close>)
    with one True show ?thesis by (simp add: proposed_count_def)
  next
    case False
    then show ?thesis by (simp add: m_def proposed_count_def) (rule count_update_le, simp add: cancel_def)
  qed
  with o caps have "checkCaps (n_status jt) 0 0 m = Inr ()" by (auto simp: checkCaps_def split: if_splits)
  then have "lstep m l'"
    using created_lstep [OF ins [folded m_def]] normalizeNew_facts [OF jt] by auto
  with \<open>lstep k m\<close> sweep_lsteps [of l now] show ?thesis unfolding k_def by (meson rtranclp.rtrancl_into_rtrancl)
qed

lemma sweep_distinct: "distinct (map i_id (l_rows l)) \<Longrightarrow> distinct (map i_id (l_rows (fst (expireDueTx now l))))"
  by (simp add: sweep_rows o_def)

lemma end_row_lambda: "(\<lambda>r. r\<lparr>i_status := StatusDone, i_invalid := Some v, i_updated := v\<rparr>) = end_row v"
  by (simp add: end_row_def fun_eq_iff)

lemma RecordFire_eq:
  fixes l l' :: ledger and clk :: go_time and iid :: string and n :: intent
  assumes "distinct (map i_id (l_rows l))"
  defines "now \<equiv> trunc_ms clk"
  defines "k \<equiv> fst (expireDueTx now l)"
  defines "m \<equiv> k\<lparr>l_rows := sql_update (may_fire iid) (\<lambda>r. r\<lparr>i_used := i_used r + 1, i_updated := unix_ms now\<rparr>) (l_rows k)\<rparr>"
  assumes "RecordFire iid clk l = Inr (l', n)"
  obtains r where "r \<in> set (l_rows k)" "may_fire iid r" "n_id n = iid" "n_used n = i_used r + 1"
    "n_budget n = i_budget r"
    "l' = (if i_budget r > 0 \<and> i_used r + 1 \<ge> i_budget r
       then insertEvent iid (Some StatusActive) StatusDone ''system:budget''
              (''spent its '' @ itoa (i_budget r) @ '' fires'') now
              (m\<lparr>l_rows := sql_update (hits iid StatusActive) (end_row (unix_ms now)) (l_rows m)\<rparr>)
       else m)"
proof -
  have dk: "distinct (map i_id (l_rows k))" using assms(1) by (simp add: k_def sweep_distinct)
  from assms(5) have pos: "sql_count (may_fire iid) (l_rows k) \<noteq> 0"
    unfolding RecordFire_def may_fire_lambda Let_def k_def now_def by (auto split: if_splits)
  then obtain r where r: "r \<in> set (l_rows k)" "may_fire iid r" by (auto simp: sql_count_0_iff)
  have ids: "map i_id (l_rows m) = map i_id (l_rows k)" by (simp add: m_def map_key_sql_update)
  let ?r = "r\<lparr>i_used := i_used r + 1, i_updated := unix_ms now\<rparr>"
  have "?r \<in> set (l_rows m)" using r by (auto simp: m_def sql_update_def intro: rev_image_eqI)
  then have "sql_first (\<lambda>r. i_id r = iid) (l_rows m) = Some ?r"
    by (intro sql_first_key [where key = i_id]) (use dk ids r(2) in \<open>auto simp: may_fire_def\<close>)
  then have cur: "getTx iid now m = Inr (scanIntent now ?r)" by (simp add: getTx_def)
  have "RecordFire iid clk l = (if n_budget (scanIntent now ?r) > 0 \<and> n_used (scanIntent now ?r) \<ge> n_budget (scanIntent now ?r)
       then Inr (insertEvent iid (Some StatusActive) StatusDone ''system:budget''
              (''spent its '' @ itoa (n_budget (scanIntent now ?r)) @ '' fires'') now
              (m\<lparr>l_rows := sql_update (hits iid StatusActive) (end_row (unix_ms now)) (l_rows m)\<rparr>),
              (scanIntent now ?r)\<lparr>n_status := StatusDone, n_invalid := Some now\<rparr>)
       else Inr (m, scanIntent now ?r))"
    unfolding RecordFire_def may_fire_lambda hits_lambda end_row_lambda Let_def
      now_def [symmetric] k_def [symmetric] m_def [symmetric]
    by (simp add: pos cur del: scan_id)
  with assms(5) r(2) show thesis
    by (intro that [OF r]) (auto simp: may_fire_def split: if_splits)
qed

lemma RecordFire_lsteps:
  assumes "lwf l" "RecordFire iid clk l = Inr (l', n)"
  shows "lstep\<^sup>*\<^sup>* l l'"
proof -
  let ?k = "fst (expireDueTx (trunc_ms clk) l)"
  have lk: "lwf ?k" by (rule lsteps_lwf [OF sweep_lsteps assms(1)])
  from lwf_distinct [OF assms(1)] assms(2) obtain r where r: "r \<in> set (l_rows ?k)" "may_fire iid r"
    and l': "l' = (if i_budget r > 0 \<and> i_used r + 1 \<ge> i_budget r
       then insertEvent iid (Some StatusActive) StatusDone ''system:budget''
              (''spent its '' @ itoa (i_budget r) @ '' fires'') (trunc_ms clk)
              (?k\<lparr>l_rows := sql_update (hits iid StatusActive) (end_row (unix_ms (trunc_ms clk)))
                (sql_update (may_fire iid) (\<lambda>r. r\<lparr>i_used := i_used r + 1, i_updated := unix_ms (trunc_ms clk)\<rparr>) (l_rows ?k))\<rparr>)
       else ?k\<lparr>l_rows := sql_update (may_fire iid) (\<lambda>r. r\<lparr>i_used := i_used r + 1, i_updated := unix_ms (trunc_ms clk)\<rparr>) (l_rows ?k)\<rparr>)"
    by (rule RecordFire_eq) (auto intro: that)
  have "lstep ?k l'"
  proof (cases "i_budget r > 0 \<and> i_used r + 1 \<ge> i_budget r")
    case True
    then have "i_used r + 1 = i_budget r" using r(2) by (auto simp: may_fire_def)
    with True show ?thesis unfolding l' if_P [OF True] by (intro lstep.fired_last [OF r]) blast+
  next
    case False
    have "q = r" if "q \<in> set (l_rows ?k)" "may_fire iid q" for q
      using lwf_unique [OF lk r(1) that(1)] that(2) r(2) by (simp add: may_fire_def)
    moreover have "i_budget r = 0 \<or> i_used r + 1 < i_budget r"
      using False irow_ok_of [OF lk r(1)] by (auto simp: irow_ok_def)
    ultimately have "\<forall>q \<in> set (l_rows ?k). may_fire iid q \<longrightarrow> i_budget q = 0 \<or> i_used q + 1 < i_budget q"
      by metis
    then show ?thesis unfolding l' if_not_P [OF False] by (rule lstep.fired)
  qed
  with sweep_lsteps show ?thesis by (rule rtranclp.rtrancl_into_rtrancl)
qed

datatype iop = OpCreate string go_time intent | OpTransition string intent_status prov string go_time
  | OpSupersede string string intent prov go_time | OpFire string go_time | OpExpire go_time

definition apply_iop :: "json_lib \<Rightarrow> iop \<Rightarrow> ledger \<Rightarrow> ledger" where
  "apply_iop lib op l =
     (case op of
        OpCreate new_id clk n \<Rightarrow> (case CreateIntent lib new_id clk n l of Inl _ \<Rightarrow> l | Inr (l', _) \<Rightarrow> l')
      | OpTransition iid to by reason clk \<Rightarrow> (case Transition iid to by reason clk l of Inl _ \<Rightarrow> l | Inr l' \<Rightarrow> l')
      | OpSupersede new_id iid n by clk \<Rightarrow> (case Supersede lib new_id iid n by clk l of Inl _ \<Rightarrow> l | Inr (l', _) \<Rightarrow> l')
      | OpFire iid clk \<Rightarrow> (case RecordFire iid clk l of Inl _ \<Rightarrow> l | Inr (l', _) \<Rightarrow> l')
      | OpExpire clk \<Rightarrow> fst (ExpireDue clk l))"

definition run_iops :: "json_lib \<Rightarrow> iop list \<Rightarrow> ledger \<Rightarrow> ledger" where
  "run_iops lib ops l = fold (apply_iop lib) ops l"

definition empty_ledger :: ledger where
  "empty_ledger = \<lparr>l_rows = [], l_events = []\<rparr>"

lemma apply_iop_lsteps:
  assumes "lwf l"
  shows "lstep\<^sup>*\<^sup>* l (apply_iop lib op l)"
  using RecordFire_lsteps [OF assms]
  by (auto simp: apply_iop_def ExpireDue_def sweep_lsteps
      split: iop.split sum.split intro: CreateIntent_lsteps Transition_lsteps Supersede_lsteps)

interpretation ledger: stepwise "\<lambda>_. True" "apply_iop lib" lwf lstep for lib
  by unfold_locales (use apply_iop_lsteps lstep_lwf in blast)+

lemma run_iops_lsteps: "lwf l \<Longrightarrow> lstep\<^sup>*\<^sup>* l (run_iops lib ops l)"
  unfolding run_iops_def by (rule ledger.run_simulates) (simp_all add: list_all_iff)

lemma run_iops_lwf: "lwf (run_iops lib ops empty_ledger)"
  unfolding run_iops_def by (rule ledger.run_keeps) (use lwf_empty in \<open>simp_all add: list_all_iff empty_ledger_def\<close>)

section \<open>An ended intent never changes\<close>

lemma sql_update_keeps: "r \<in> set rs \<Longrightarrow> \<not> P r \<Longrightarrow> r \<in> set (sql_update P f rs)"
  by (auto simp: set_sql_update)

lemma lstep_ended:
  assumes "lstep l l'" "lwf l" "r \<in> set (l_rows l)" "\<not> Open (i_status r)"
  shows "r \<in> set (l_rows l') \<and> Events (i_id r) l' = Events (i_id r) l"
  using assms
proof (induction rule: lstep.induct)
  case (created n l at_time)
  then have "n_id n \<noteq> i_id r" by (metis image_eqI)
  then show ?case using created(10) by (simp add: Events_insertEvent)
next
  case (moved r0 l iid s t pv "by" f reason at_time)
  have "\<not> hits iid s r" using CanTransition_cases [OF moved(3)] moved(8) by (auto simp: hits_def)
  moreover have "iid \<noteq> i_id r"
    using lwf_unique [OF moved(6) moved(1) moved(7)] moved(2) calculation unfolding hits_def by metis
  ultimately show ?case unfolding rows_insertEvent
    by (simp add: Events_insertEvent sql_update_keeps [OF moved(7)])
next
  case (fired l iid v)
  have "\<not> may_fire iid r" using fired(4) by (auto simp: may_fire_def Open_def)
  then show ?case using fired(3) by (simp add: sql_update_keeps)
next
  case (fired_last r0 l iid "by" reason at_time v)
  have n: "\<not> may_fire iid r" "\<not> hits iid StatusActive r"
    using fired_last(7) by (auto simp: may_fire_def hits_def Open_def)
  have "iid \<noteq> i_id r"
    using lwf_unique [OF fired_last(5) fired_last(1) fired_last(6)] fired_last(2) n(1) unfolding may_fire_def by metis
  moreover have "r \<in> set (sql_update (may_fire iid) f (l_rows l))" for f
    by (rule sql_update_keeps [where P = "may_fire iid", OF fired_last(6) n(1)])
  then have "r \<in> set (sql_update (hits iid StatusActive) g (sql_update (may_fire iid) f (l_rows l)))" for f g
    by (rule sql_update_keeps [where P = "hits iid StatusActive", OF _ n(2)])
  ultimately show ?case unfolding rows_insertEvent by (simp add: Events_insertEvent)
qed

text \<open>An ended row and its history: a fact that lasts.\<close>

definition ended_with :: "ledger \<Rightarrow> intent_row \<times> intent_event list \<Rightarrow> bool" where
  "ended_with l rh \<longleftrightarrow> fst rh \<in> set (l_rows l) \<and> \<not> Open (i_status (fst rh)) \<and> Events (i_id (fst rh)) l = snd rh"

interpretation ended: lasting "\<lambda>_. True" "apply_iop lib" lwf lstep ended_with for lib
  by unfold_locales (use lstep_ended in \<open>auto simp: ended_with_def\<close>)

lemma lsteps_ended:
  assumes "lstep\<^sup>*\<^sup>* l l'" "lwf l" "r \<in> set (l_rows l)" "\<not> Open (i_status r)"
  shows "r \<in> set (l_rows l') \<and> Events (i_id r) l' = Events (i_id r) l"
  using ended.asteps_fact [OF assms(1,2), of "(r, Events (i_id r) l)"] assms(3,4) by (simp add: ended_with_def)

section \<open>Reads judge expiry lazily\<close>

lemma scan_swept:
  "(scanIntent now (swept now r))\<lparr>n_updated := t\<rparr> = (scanIntent now r)\<lparr>n_updated := t\<rparr>"
  by (auto simp: scanIntent_def swept_def exp_row_def lapsed_def Let_def from_ms_le_unix_ms Open_def
      split: option.splits)

lemma effective_swept: "effective_status v r = effective_status v (swept now r)" if "v = unix_ms now"
  using that swept_not_lapsed [of now r] by (auto simp: effective_status_def) (auto simp: swept_def exp_row_def)

lemma sql_first_map: "sql_first P (map g rs) = map_option g (sql_first (P \<circ> g) rs)"
  by (induction rs) (auto simp: sql_first_def)

lemma insort_map: "insort_key f (g x) (map g xs) = map g (insort_key (f \<circ> g) x xs)"
  by (induction xs) auto

lemma sort_map: "sort_key f (map g xs) = map g (sort_key (f \<circ> g) xs)"
  by (induction xs) (simp_all add: insort_map o_def)

lemma getTx_swept:
  assumes "distinct (map i_id (l_rows l))"
  shows "map_sum id (\<lambda>n. n\<lparr>n_updated := t\<rparr>) (getTx iid now (fst (expireDueTx now l))) =
    map_sum id (\<lambda>n. n\<lparr>n_updated := t\<rparr>) (getTx iid now l)"
  by (simp add: getTx_def sweep_rows [OF assms] sql_first_map o_def scan_swept split: option.split)

lemma filterSQL_swept:
  "filterSQL f now = Inr wh \<Longrightarrow> wh (swept now r) = wh r"
  by (auto simp: filterSQL_def effective_swept [symmetric] split: if_splits)

lemma CountIntents_swept:
  assumes "distinct (map i_id (l_rows l))"
  shows "CountIntents f clk (fst (ExpireDue clk l)) = CountIntents f clk l"
proof (cases "filterSQL f (trunc_ms clk)")
  case (Inr wh)
  then show ?thesis
    by (simp add: CountIntents_def ExpireDue_def sweep_rows [OF assms] sql_count_def filter_map o_def filterSQL_swept)
qed (simp add: CountIntents_def)

lemma ListIntents_swept:
  assumes "distinct (map i_id (l_rows l))"
  shows "map_sum id (map (\<lambda>n. n\<lparr>n_updated := t\<rparr>)) (ListIntents f clk (fst (ExpireDue clk l))) =
    map_sum id (map (\<lambda>n. n\<lparr>n_updated := t\<rparr>)) (ListIntents f clk l)"
proof (cases "filterSQL f (trunc_ms clk)")
  case (Inr wh)
  have "filter wh (l_rows (fst (ExpireDue clk l))) = map (swept (trunc_ms clk)) (filter wh (l_rows l))"
    by (simp add: ExpireDue_def sweep_rows [OF assms] filter_map o_def filterSQL_swept [OF Inr])
  then show ?thesis
    by (auto simp: ListIntents_def Inr sort_map o_def take_map rev_map Let_def scan_swept)
qed (simp add: ListIntents_def)

section \<open>What the ledger promises\<close>


text \<open>The ledger never holds more than 100 open intents, nor more than 20 proposals.\<close>

theorem intent_caps:
  "open_count (run_iops lib ops empty_ledger) \<le> 100 \<and> proposed_count (run_iops lib ops empty_ledger) \<le> 20"
  using lwf_counts [OF run_iops_lwf] by (simp add: MaxOpenIntents_def MaxProposedIntents_def)

text \<open>A fire budget is never overspent: the fires of an intent with a budget stay within it, and an
  intent that has spent its budget is no longer open.\<close>

theorem fire_budget_bounds_fires:
  assumes "r \<in> set (l_rows (run_iops lib ops empty_ledger))" "0 < i_budget r"
  shows "0 \<le> i_used r \<and> i_used r \<le> i_budget r \<and> (i_used r = i_budget r \<longrightarrow> \<not> Open (i_status r))"
  using irow_ok_of [OF run_iops_lwf assms(1)] assms(2) by (auto simp: irow_ok_def)

text \<open>An ended intent is immutable: whatever operations follow, its row stays as it is and its history
  gets no further event.\<close>

theorem ended_intent_is_immutable:
  assumes "r \<in> set (l_rows (run_iops lib ops empty_ledger))" "\<not> Open (i_status r)"
  shows "r \<in> set (l_rows (run_iops lib (ops @ later) empty_ledger)) \<and>
    Events (i_id r) (run_iops lib (ops @ later) empty_ledger) = Events (i_id r) (run_iops lib ops empty_ledger)"
  using lsteps_ended [OF run_iops_lsteps [OF run_iops_lwf] run_iops_lwf assms, of lib later]
  by (simp add: run_iops_def)

text \<open>The events of an intent are a faithful history: they start with its creation, each one starts at
  the status where the previous one ended, follows the transition table, and the last one is at the
  status of the row.\<close>

theorem events_are_the_history:
  assumes "r \<in> set (l_rows (run_iops lib ops empty_ledger))"
  shows "history None (Events (i_id r) (run_iops lib ops empty_ledger)) (i_status r)"
  using history_of [OF run_iops_lwf assms] .

text \<open>Reading judges expiry the way the sweep writes it: \<open>Get\<close>, \<open>List\<close> and \<open>Count\<close> answer the same
  before and after \<open>ExpireDue\<close> at the same clock, the column \<open>updated_at\<close> aside.\<close>

theorem reads_agree_with_the_sweep:
  assumes "distinct (map i_id (l_rows l))"
  shows "map_sum id (\<lambda>n. n\<lparr>n_updated := t\<rparr>) (GetIntent iid clk (fst (ExpireDue clk l))) =
      map_sum id (\<lambda>n. n\<lparr>n_updated := t\<rparr>) (GetIntent iid clk l) \<and>
    map_sum id (map (\<lambda>n. n\<lparr>n_updated := t\<rparr>)) (ListIntents f clk (fst (ExpireDue clk l))) =
      map_sum id (map (\<lambda>n. n\<lparr>n_updated := t\<rparr>)) (ListIntents f clk l) \<and>
    CountIntents f clk (fst (ExpireDue clk l)) = CountIntents f clk l"
  using getTx_swept [OF assms] ListIntents_swept [OF assms] CountIntents_swept [OF assms]
  by (simp add: GetIntent_def ExpireDue_def)

section \<open>Normal form of owner-visible text\<close>

definition hidden :: "nat \<Rightarrow> bool" where
  "hidden r \<longleftrightarrow> IsControl r \<or> IsBidiControl r \<or> (IsCf r \<and> r \<noteq> 0x200C \<and> r \<noteq> 0x200D)"

lemma normalizeText_Inr:
  assumes "normalizeText s m required = Inr t"
  obtains rs where "t = encode rs" "squeeze rs = rs" "\<forall>r \<in> set rs. scalar r \<and> \<not> hidden r \<and> (IsSpace r \<longrightarrow> r = 0x20)"
    "length rs \<le> m" "required \<Longrightarrow> rs \<noteq> []"
proof -
  let ?in = "map (\<lambda>r. if IsSpace r then 0x20 else r) (runes s)"
  have eq: "t = encode (squeeze ?in)" "length (squeeze ?in) \<le> m" "required \<Longrightarrow> squeeze ?in \<noteq> []"
    and none: "List.find hidden ?in = None"
    using assms unfolding normalizeText_def hidden_def [abs_def] by (auto simp: Let_def split: if_splits option.splits)
  have "scalar r \<and> \<not> hidden r \<and> (IsSpace r \<longrightarrow> r = 0x20)" if "r \<in> set (squeeze ?in)" for r
  proof (cases "r = 0x20")
    case True
    then show ?thesis by (simp add: hidden_def scalar_def IsControl_def IsBidiControl_def IsCf_def Cf_ranges_def)
  next
    case False
    with set_squeeze [OF that] have r: "r \<in> set ?in" "\<not> IsSpace r" by auto
    then have "r \<in> set (runes s)" using False by auto
    then show ?thesis using none r runes_scalar by (auto simp: find_None_iff)
  qed
  then show thesis by (intro that [OF eq(1)]) (use eq in auto)
qed

text \<open>What \<open>normalizeText\<close> accepts is in normal form: valid UTF-8 within the rune bound, not empty where
  a text is required, no control or invisible character, and normalising it again changes nothing, so
  the ledger stores exactly what a reader sees.\<close>

theorem normalizeText_normal_form:
  assumes "normalizeText s m required = Inr t"
  shows "valid_utf8 t \<and> length (runes t) \<le> m \<and> (required \<longrightarrow> runes t \<noteq> []) \<and>
    (\<forall>r \<in> set (runes t). \<not> IsControl r \<and> \<not> IsBidiControl r \<and> (IsSpace r \<longrightarrow> r = 0x20)) \<and>
    normalizeText t m required = Inr t"
proof -
  from assms obtain rs where rs: "t = encode rs" "squeeze rs = rs" "length rs \<le> m" "required \<Longrightarrow> rs \<noteq> []"
    and ok: "\<forall>r \<in> set rs. scalar r \<and> \<not> hidden r \<and> (IsSpace r \<longrightarrow> r = 0x20)"
    by (rule normalizeText_Inr) (rule that)
  then have u: "runes t = rs" "valid_utf8 t" using decode_encode [of rs] by auto
  have sp: "map (\<lambda>r. if IsSpace r then 0x20 else r) rs = rs"
    by (rule map_idI) (use ok in auto)
  have "List.find hidden rs = None" using ok by (auto simp: find_None_iff)
  then have "normalizeText t m required = Inr t"
    using u rs sp unfolding normalizeText_def hidden_def [abs_def] by (auto simp: Let_def)
  then show ?thesis using u rs ok by (auto simp: hidden_def)
qed

section \<open>Witnesses\<close>

definition sample_lib :: json_lib where
  "sample_lib = \<lparr>jl_valid = (\<lambda>_. True), jl_compact = Some, jl_decode = (\<lambda>_. Some (JObj []))\<rparr>"

definition sample_owner :: prov where
  "sample_owner = \<lparr>p_session = ''s'', p_message = ''m'', p_sender = ''o'', p_trust = TrustUserAuthored,
     p_turn_kind = TurnUser\<rparr>"

definition sample_intent :: intent where
  "sample_intent = \<lparr>n_id = [], n_type = TypeWatch, n_title = '' BTC '', n_params = None, n_trigger = None,
     n_expected = None, n_mandate = [], n_status = StatusActive, n_source = SourceExplicit, n_prov = sample_owner,
     n_budget = 2, n_used = 0, n_cooldown = 0, n_lifetime = 0, n_expires = None, n_valid_from = 0,
     n_invalid = None, n_superseded = [], n_created = 0, n_updated = 0\<rparr>"

definition sample_iops :: "iop list" where
  "sample_iops = [OpCreate ''a'' 5000000 sample_intent, OpFire ''a'' 6000000, OpFire ''a'' 7000000]"

lemmas text_eval = runes_ascii valid_ascii encode_ascii char_of_def bit_0 squeeze_def IsSpace_def IsControl_def IsCf_def
  Cf_ranges_def IsBidiControl_def cleanAuthor_def maxUpdatedByRunes_def normalizeText_def

lemma sample_texts:
  "cleanAuthor ''o'' = ''o''" "cleanAuthor ''s'' = ''s''" "cleanAuthor ''m'' = ''m''"
  "normalizeText '' BTC '' 120 True = Inr ''BTC''"
  by (simp_all add: text_eval)


lemma sample_new: "normalizeNew sample_lib sample_intent = Inr (sample_intent\<lparr>n_title := ''BTC''\<rparr>)"
  by (simp add: normalizeNew_def sample_intent_def sample_owner_def check_def type_valid_def IntentTypes_def MaxTitleRunes_def
     sample_texts normalizeJSONObject_def trim_bytes_def chunks.simps bytes_of_def string_of_def normalizeTrigger_def normalizeExpected_def new_status_def new_source_def cleanProvenance_def
     TrustUntrusted_def TrustUserAuthored_def turn_kind_string.simps plain_token_def ownerAuthored_def MaxFireBudget_def MaxCooldown_def)

lemma sample_fields: "n_status sample_intent = StatusActive" "n_budget sample_intent = 2" "n_used sample_intent = 0"
  "n_lifetime sample_intent = 0"
  by (simp_all add: sample_intent_def)

definition sample_ledger :: "int \<Rightarrow> intent_status \<Rightarrow> ledger \<Rightarrow> bool" where
  "sample_ledger u s l \<longleftrightarrow> (\<exists>r. l_rows l = [r] \<and> i_id r = ''a'' \<and> i_status r = s \<and> i_used r = u \<and> i_budget r = 2 \<and>
     i_expires r = None)"

lemma sweep_nothing: "(\<And>r. r \<in> set (l_rows l) \<Longrightarrow> i_expires r = None) \<Longrightarrow> fst (expireDueTx now l) = l"
  by (simp add: expireDueTx_def due_list_def lapsed_def)

lemma sample_create: "\<exists>l n. CreateIntent sample_lib ''a'' 5000000 sample_intent empty_ledger = Inr (l, n) \<and>
    sample_ledger 0 StatusActive l"
  by (simp add: CreateIntent_def sample_new expireDueTx_def due_list_def empty_ledger_def checkCaps_def open_count_def proposed_count_def
      MaxOpenIntents_def insertIntent_def stamped_def Let_def sample_ledger_def to_row_def initialExpiry_def sample_fields)

lemma sample_fire:
  assumes "sample_ledger u StatusActive l" "0 \<le> u" "u < 2"
  shows "\<exists>k n. RecordFire ''a'' clk l = Inr (k, n) \<and>
    sample_ledger (u + 1) (if u + 1 = 2 then StatusDone else StatusActive) k"
proof -
  from assms(1) obtain r where r: "l_rows l = [r]" "i_id r = ''a''" "i_status r = StatusActive" "i_used r = u"
    "i_budget r = 2" "i_expires r = None" unfolding sample_ledger_def by blast
  then have sweep: "fst (expireDueTx now l) = l" for now by (intro sweep_nothing) simp
  from assms(2,3) have "u = 0 \<or> u = 1" by arith
  then show ?thesis
    by (auto simp: RecordFire_def sweep r getTx_def sql_first_def scanIntent_def insertEvent_def Let_def sample_ledger_def)
qed

lemma sample_rows: "sample_ledger 2 StatusDone (run_iops sample_lib sample_iops empty_ledger)"
proof -
  obtain l1 n1 where l1: "CreateIntent sample_lib ''a'' 5000000 sample_intent empty_ledger = Inr (l1, n1)"
    "sample_ledger 0 StatusActive l1" using sample_create by blast
  obtain l2 n2 where l2: "RecordFire ''a'' 6000000 l1 = Inr (l2, n2)" "sample_ledger 1 StatusActive l2"
    using sample_fire [OF l1(2), of 6000000] by auto
  obtain l3 n3 where "RecordFire ''a'' 7000000 l2 = Inr (l3, n3)" "sample_ledger 2 StatusDone l3"
    using sample_fire [OF l2(2), of 7000000] by auto
  with l1 l2 show ?thesis by (simp add: run_iops_def sample_iops_def apply_iop_def)
qed

definition sample_row :: intent_row where
  "sample_row = hd (l_rows (run_iops sample_lib sample_iops empty_ledger))"

lemma sample_row_facts:
  "sample_row \<in> set (l_rows (run_iops sample_lib sample_iops empty_ledger))" "i_status sample_row = StatusDone"
  "i_budget sample_row = 2"
  using sample_rows by (auto simp: sample_row_def sample_ledger_def)


theorem fire_budget_bounds_fires_witness: "i_used sample_row \<le> i_budget sample_row"
  using fire_budget_bounds_fires [OF sample_row_facts(1)] by (simp add: sample_row_facts)

theorem ended_intent_is_immutable_witness:
  "sample_row \<in> set (l_rows (run_iops sample_lib (sample_iops @ [OpFire ''a'' 8000000, OpExpire 9000000]) empty_ledger))"
  using ended_intent_is_immutable [OF sample_row_facts(1)] by (simp add: sample_row_facts Open_def)

theorem events_are_the_history_witness:
  "history None (Events (i_id sample_row) (run_iops sample_lib sample_iops empty_ledger)) StatusDone"
  using events_are_the_history [OF sample_row_facts(1)] by (simp add: sample_row_facts)

theorem reads_agree_with_the_sweep_witness:
  "CountIntents \<lparr>fl_statuses = [StatusDone], fl_types = [], fl_limit = 0, fl_newest_first = False\<rparr> 8000000
     (fst (ExpireDue 8000000 empty_ledger)) =
   CountIntents \<lparr>fl_statuses = [StatusDone], fl_types = [], fl_limit = 0, fl_newest_first = False\<rparr> 8000000 empty_ledger"
  using reads_agree_with_the_sweep [of empty_ledger] by (simp add: empty_ledger_def)

theorem normalizeText_normal_form_witness: "normalizeText ''BTC'' 120 True = Inr ''BTC''"
  using normalizeText_normal_form [OF sample_texts(4)] by simp

end
