(* ===== verification/CognitionBudget.thy ===== *)
theory CognitionBudget
  imports Proactive Windows
begin

text \<open>
  The budget of background model work (\<open>pkg/cognition/budget.go\<close>): a rolling hour of wakes kept in
  memory and a token total per owner-local day kept in the table \<open>cognition_usage\<close>. \<open>dayKey\<close> depends on
  the time zone of the owner and is an argument; whether the table could be read or written is told
  by the environment. The log of exhaustions is left out.
\<close>

record cognition_config =
  MaxConcurrentLLM :: int
  TokensPerDay :: int
  WakesPerHour :: int

record usage =
  InputTokens :: int
  OutputTokens :: int

text \<open>A row of \<open>cognition_usage\<close>; \<open>(day, kind)\<close> is the primary key.\<close>

record usage_row =
  u_day :: string
  u_kind :: string
  u_wakes :: int
  u_input :: int
  u_output :: int

record budget =
  b_wakes :: "go_time list"
  b_usage :: "usage_row list"

definition empty_budget :: budget where
  "empty_budget = \<lparr>b_wakes = [], b_usage = []\<rparr>"

datatype reason = ReasonNone | ReasonBudgetExhausted | ReasonDeadline

definition pruneLocked :: "go_time \<Rightarrow> budget \<Rightarrow> budget" where
  "pruneLocked now b = b\<lparr>b_wakes := dropWhile (\<lambda>w. \<not> w > now - hour) (b_wakes b)\<rparr>"

definition dayTokens :: "budget \<Rightarrow> string \<Rightarrow> int" where
  "dayTokens b day = sum_list (map (\<lambda>r. u_input r + u_output r) (filter (\<lambda>r. u_day r = day) (b_usage b)))"

definition check_budget ::
  "cognition_config \<Rightarrow> (go_time \<Rightarrow> string) \<Rightarrow> bool \<Rightarrow> go_time \<Rightarrow> budget \<Rightarrow> budget \<times> string \<times> reason" where
  "check_budget cfg dayKey readable now b =
     (let day = dayKey now; b = pruneLocked now b; lmt = max (TokensPerDay cfg) 0
      in if int (length (b_wakes b)) \<ge> max (WakesPerHour cfg) 0 then (b, day, ReasonBudgetExhausted)
         else if lmt = 0 then (b, day, ReasonBudgetExhausted)
         else if \<not> readable then (b, day, ReasonBudgetExhausted)
         else if dayTokens b day \<ge> lmt then (b, day, ReasonBudgetExhausted)
         else (b\<lparr>b_wakes := b_wakes b @ [now]\<rparr>, day, ReasonNone))"

definition add_usage :: "bool \<Rightarrow> string \<Rightarrow> string \<Rightarrow> usage \<Rightarrow> budget \<Rightarrow> budget" where
  "add_usage writable day kind u b =
     (if \<not> writable then b
      else let inp = max (InputTokens u) 0; outp = max (OutputTokens u) 0;
               hit = (\<lambda>r. u_day r = day \<and> u_kind r = kind)
           in if sql_count hit (b_usage b) = 0
              then b\<lparr>b_usage := b_usage b @ [\<lparr>u_day = day, u_kind = kind, u_wakes = 1, u_input = inp, u_output = outp\<rparr>]\<rparr>
              else b\<lparr>b_usage := sql_update hit (\<lambda>r. r\<lparr>u_wakes := u_wakes r + 1, u_input := u_input r + inp,
                     u_output := u_output r + outp\<rparr>) (b_usage b)\<rparr>)"

definition snapshot ::
  "(go_time \<Rightarrow> string) \<Rightarrow> bool \<Rightarrow> go_time \<Rightarrow> budget \<Rightarrow> budget \<times> string \<times> nat \<times> usage_row list" where
  "snapshot dayKey readable now b =
     (let b = pruneLocked now b
      in (b, dayKey now, length (b_wakes b),
          if readable then filter (\<lambda>r. u_day r = dayKey now) (b_usage b) else []))"

section \<open>The token total\<close>

lemma check_budget_usage [simp]: "b_usage (fst (check_budget cfg dayKey rd now b)) = b_usage b"
  by (simp add: check_budget_def pruneLocked_def Let_def)

lemma snapshot_usage [simp]: "b_usage (fst (snapshot dayKey rd now b)) = b_usage b"
  by (simp add: snapshot_def pruneLocked_def Let_def)

lemma add_usage_wakes [simp]: "b_wakes (add_usage wr day kind u b) = b_wakes b"
  by (simp add: add_usage_def Let_def)

lemma dayTokens_usage: "b_usage b = b_usage c \<Longrightarrow> dayTokens b day = dayTokens c day"
  by (simp add: dayTokens_def)

lemma check_budget_day [simp]: "fst (snd (check_budget cfg dayKey rd now b)) = dayKey now"
  by (simp add: check_budget_def Let_def)

lemma check_budget_granted:
  "snd (snd (check_budget cfg dayKey rd now b)) = ReasonNone \<Longrightarrow> dayTokens b (dayKey now) < TokensPerDay cfg"
  by (auto simp: check_budget_def pruneLocked_def Let_def dayTokens_def split: if_splits)

definition usage_ok :: "budget \<Rightarrow> bool" where
  "usage_ok b \<longleftrightarrow> distinct (map (\<lambda>r. (u_day r, u_kind r)) (b_usage b))"

definition charge :: "usage \<Rightarrow> int" where
  "charge u = max (InputTokens u) 0 + max (OutputTokens u) 0"

lemma sum_update_one:
  assumes "distinct (map key rs)" "r0 \<in> set rs"
    and "\<And>r. key r = key r0 \<Longrightarrow> val (f r) = val r + (d :: int)"
  shows "sum_list (map val (sql_update (\<lambda>r. key r = key r0) f rs)) = sum_list (map val rs) + d"
  using assms(1,2)
proof (induction rs)
  case (Cons r rs)
  show ?case
  proof (cases "key r = key r0")
    case True
    then have "\<forall>q \<in> set rs. key q \<noteq> key r0" using Cons.prems(1) by (metis distinct.simps(2) image_eqI list.set_map list.simps(9))
    then have "sql_update (\<lambda>r. key r = key r0) f rs = rs" by (intro sql_update_none) (simp add: sql_count_0_iff)
    then show ?thesis using True assms(3) [of r] by simp
  next
    case False
    then have "r0 \<in> set rs" using Cons.prems(2) by auto
    then show ?thesis using Cons False by simp
  qed
qed simp

lemma dayTokens_add:
  assumes "usage_ok b"
  shows "dayTokens (add_usage True day kind u b) d = dayTokens b d + (if d = day then charge u else 0)"
proof (cases "sql_count (\<lambda>r. u_day r = day \<and> u_kind r = kind) (b_usage b) = 0")
  case True
  then show ?thesis by (simp add: add_usage_def dayTokens_def charge_def Let_def)
next
  case False
  then obtain r0 where r0: "r0 \<in> set (b_usage b)" "u_day r0 = day" "u_kind r0 = kind"
    by (auto simp: sql_count_0_iff)
  let ?val = "\<lambda>r. if u_day r = d then u_input r + u_output r else 0"
  let ?f = "\<lambda>r. r\<lparr>u_wakes := u_wakes r + 1, u_input := u_input r + max (InputTokens u) 0,
                     u_output := u_output r + max (OutputTokens u) 0\<rparr>"
  have val: "dayTokens c d = sum_list (map ?val (b_usage c))" for c
    by (simp add: dayTokens_def sum_list_map_filter' [symmetric])
  have upd: "sql_update (\<lambda>r. u_day r = day \<and> u_kind r = kind) ?f (b_usage b) =
      sql_update (\<lambda>r. (u_day r, u_kind r) = (u_day r0, u_kind r0)) ?f (b_usage b)"
    using r0 by simp
  have "sum_list (map ?val (sql_update (\<lambda>r. (u_day r, u_kind r) = (u_day r0, u_kind r0)) ?f (b_usage b))) =
      sum_list (map ?val (b_usage b)) + (if d = day then charge u else 0)"
    by (rule sum_update_one) (use assms r0 in \<open>auto simp: usage_ok_def charge_def\<close>)
  then show ?thesis using False unfolding upd [symmetric] by (simp add: val add_usage_def Let_def)
qed

lemma add_usage_ok: "usage_ok b \<Longrightarrow> usage_ok (add_usage wr day kind u b)"
  by (auto simp: usage_ok_def add_usage_def Let_def sql_count_0_iff map_key_sql_update)

section \<open>The rolling hour of wakes\<close>

text \<open>The prune drops a prefix, which is the window because the wakes are in order.\<close>

lemma dropWhile_sorted:
  "sorted ws \<Longrightarrow> dropWhile (\<lambda>w. \<not> w > c) ws = filter (\<lambda>w. w > (c::int)) ws"
  by (induction ws) (auto intro!: filter_True [symmetric])

interpretation wakes: sliding_window "\<lambda>w. w" "\<lambda>now w. w > now - hour"
  "\<lambda>now ws. dropWhile (\<lambda>w. \<not> w > now - hour) ws" "\<lambda>w ws. ws @ [w]" n for n
  by unfold_locales (auto simp: dropWhile_sorted)

text \<open>Runs of the budget: checks, charges and snapshots; the log collects the wakes that were granted.\<close>

datatype bop = BCheck go_time bool | BAdd bool string string usage | BSnapshot go_time bool

fun bop_time :: "bop \<Rightarrow> go_time option" where
  "bop_time (BCheck now _) = Some now"
| "bop_time (BSnapshot now _) = Some now"
| "bop_time (BAdd _ _ _ _) = None"

fun budget_step ::
  "cognition_config \<Rightarrow> (go_time \<Rightarrow> string) \<Rightarrow> bop \<Rightarrow> budget \<times> go_time list \<Rightarrow> budget \<times> go_time list" where
  "budget_step cfg dayKey (BCheck now readable) (b, granted) =
     (case check_budget cfg dayKey readable now b of
        (b', _, r) \<Rightarrow> (b', if r = ReasonNone then granted @ [now] else granted))"
| "budget_step cfg dayKey (BAdd writable day kind u) (b, granted) = (add_usage writable day kind u b, granted)"
| "budget_step cfg dayKey (BSnapshot now readable) (b, granted) = (fst (snapshot dayKey readable now b), granted)"

definition granted_wakes :: "cognition_config \<Rightarrow> (go_time \<Rightarrow> string) \<Rightarrow> bop list \<Rightarrow> go_time list" where
  "granted_wakes cfg dayKey ops = snd (fold (budget_step cfg dayKey) ops (empty_budget, []))"

definition wake_limit :: "cognition_config \<Rightarrow> nat" where
  "wake_limit cfg = nat (max (WakesPerHour cfg) 0)"

abbreviation (input) wakes_agree where
  "wakes_agree cfg t b granted \<equiv> wakes.agrees (wake_limit cfg) t (b_wakes b, granted)"

lemma budget_step_agrees:
  assumes "wakes_agree cfg t b granted" "case bop_time op of None \<Rightarrow> t' = t | Some now \<Rightarrow> t \<le> now \<and> t' = now"
    "budget_step cfg dayKey op (b, granted) = (b', granted')"
  shows "wakes_agree cfg t' b' granted'"
proof (cases op)
  case (BCheck now readable)
  let ?es = "dropWhile (\<lambda>w. \<not> w > now - hour) (b_wakes b)"
  have t': "t' = now" "t \<le> now" using assms(2) BCheck by simp_all
  have tr: "wakes.agrees (wake_limit cfg) now (?es, granted)"
    by (rule wakes.agrees_trim [OF wakes.agrees_later [OF assms(1)]]) (rule t'(2))
  have admit: "wakes.agrees (wake_limit cfg) now (?es @ [now], granted @ [now])"
    if "int (length ?es) < max (WakesPerHour cfg) 0"
    proof -
    have "length ?es < wake_limit cfg" using that by (auto simp: wake_limit_def)
    then show ?thesis using wakes.agrees_admit_one [OF assms(1), of now] t'(2) by (simp add: Let_def)
  qed
  show ?thesis
    using assms(3) tr admit unfolding BCheck t'
    by (auto simp: check_budget_def pruneLocked_def Let_def split: if_splits)
next
  case (BAdd writable day kind u)
  then show ?thesis using assms by auto
next
  case (BSnapshot now readable)
  have "wakes.agrees (wake_limit cfg) now (dropWhile (\<lambda>w. \<not> w > now - hour) (b_wakes b), granted)"
    by (rule wakes.agrees_trim [OF wakes.agrees_later [OF assms(1)]]) (use assms(2) BSnapshot in simp)
  then show ?thesis using assms(2,3) BSnapshot by (auto simp: snapshot_def pruneLocked_def Let_def)
qed

lemma budget_run_agrees:
  assumes "wakes_agree cfg t (fst st) (snd st)" "sorted (List.map_filter bop_time ops)"
    "\<forall>u \<in> set (List.map_filter bop_time ops). t \<le> u" "\<forall>u \<in> set (List.map_filter bop_time ops). u \<le> t'" "t \<le> t'"
  shows "wakes_agree cfg t' (fst (fold (budget_step cfg dayKey) ops st)) (snd (fold (budget_step cfg dayKey) ops st))"
  using assms
proof (induction ops arbitrary: t st)
  case Nil
  show ?case using wakes.agrees_later [OF Nil(1) Nil(5)] by simp
next
  case (Cons op ops)
  obtain b granted where st: "st = (b, granted)" by (cases st)
  obtain b' granted' where step: "budget_step cfg dayKey op (b, granted) = (b', granted')" by fastforce
  define u where "u = (case bop_time op of None \<Rightarrow> t | Some now \<Rightarrow> now)"
  have "wakes_agree cfg u b' granted'"
    by (rule budget_step_agrees [OF _ _ step, where t = t])
      (use Cons.prems st in \<open>auto simp: u_def map_filter_simps split: option.splits\<close>)
  then show ?case using Cons.prems step st
    by (auto intro!: Cons.IH [of u] simp: u_def map_filter_simps split: option.splits)
qed

text \<open>However checks, charges and snapshots interleave, the wakes granted within any hour never
  exceed \<open>WakesPerHour\<close>; a limit of zero or less grants none.\<close>

theorem wakes_per_hour_bounded:
  assumes "sorted (List.map_filter bop_time ops)" "\<forall>u \<in> set (List.map_filter bop_time ops). u \<le> now"
  shows "int (length (filter (\<lambda>w. w > now - hour) (granted_wakes cfg dayKey ops))) \<le> max (WakesPerHour cfg) 0"
proof -
  define t where "t = Min (set (now # List.map_filter bop_time ops))"
  have "wakes_agree cfg now (fst (fold (budget_step cfg dayKey) ops (empty_budget, [])))
      (snd (fold (budget_step cfg dayKey) ops (empty_budget, [])))"
    by (rule budget_run_agrees [where t = t])
      (use assms wakes.agrees_empty in \<open>auto simp: t_def empty_budget_def\<close>)
  then have "length (filter (\<lambda>w. w > now - hour) (granted_wakes cfg dayKey ops)) \<le> wake_limit cfg"
    by (simp add: wakes.agrees_def granted_wakes_def)
  then show ?thesis unfolding wake_limit_def by linarith
qed

theorem wakes_per_hour_bounded_witness:
  "length (filter (\<lambda>w. w > 20 - hour) (granted_wakes \<lparr>MaxConcurrentLLM = 1, TokensPerDay = 5, WakesPerHour = 1\<rparr>
     (\<lambda>_. ''d'') [BCheck 10 True, BAdd True ''d'' ''k'' \<lparr>InputTokens = 1, OutputTokens = 1\<rparr>, BCheck 20 True])) \<le> 1"
  using wakes_per_hour_bounded [of "[BCheck 10 True, BAdd True ''d'' ''k'' \<lparr>InputTokens = 1, OutputTokens = 1\<rparr>, BCheck 20 True]"
    20 "\<lparr>MaxConcurrentLLM = 1, TokensPerDay = 5, WakesPerHour = 1\<rparr>" "\<lambda>_. ''d''"]
  by (simp add: map_filter_simps)

end
