(* ===== verification/Cognition.thy ===== *)
theory Cognition
  imports CognitionBudget Machine "HOL-Library.Multiset"
begin

text \<open>
  The scheduler of language-model turns (\<open>pkg/cognition/scheduler.go\<close>): seven priority queues, the set
  of busy sessions, the running jobs and the workers. What is done under the lock is one step; a worker
  goes through the phases of its loop, so the steps of several workers, of submitters and of a cancel
  interleave freely. The outcomes of the functions \<open>Run\<close> and \<open>Fallback\<close> of a job, the ends of contexts
  and the clock are arguments of the steps. Pointers to items are tickets.
\<close>

section \<open>Jobs, results and errors\<close>

datatype cerr = ErrStopped | ErrCancelledFor string | ErrBudgetExhausted | ErrDeadline | ErrQueueFull
  | ErrNoRun | ErrPriority int | ErrRunTwice | CtxErr | JobErr string
  | Joined cerr cerr | CausedBy cerr cerr \<comment> \<open>\<open>errors.Join\<close>; \<open>"%w (job: %w)"\<close>\<close>

fun errors_is :: "cerr \<Rightarrow> cerr \<Rightarrow> bool" where
  "errors_is (Joined a b) t = (Joined a b = t \<or> errors_is a t \<or> errors_is b t)"
| "errors_is (CausedBy a b) t = (CausedBy a b = t \<or> errors_is a t \<or> errors_is b t)"
| "errors_is e t = (e = t)"

record job =
  j_kind :: turn_kind
  j_priority :: int
  j_session :: string
  j_deadline :: duration
  j_budgeted :: bool
  j_has_run :: bool
  j_has_fallback :: bool

record result =
  r_usage :: usage
  r_err :: "cerr option"
  r_fallback :: bool

definition no_usage :: usage where
  "no_usage = \<lparr>InputTokens = 0, OutputTokens = 0\<rparr>"

record item =
  t_ticket :: nat
  t_job :: job

text \<open>A worker is idle, has picked an item, is inside its \<open>Run\<close>, has sent its result, or has returned.\<close>

datatype wphase = WIdle | WPicked item | WRunning item string | WSent item | WExited

definition numPriorities :: int where "numPriorities = 7"
definition PriUser :: int where "PriUser = 0"
definition maxQueued :: int where "maxQueued = 512"

record sched =
  c_queues :: "item list list"
  c_queued :: int
  c_busy :: "string set"
  c_running :: "nat set"
  c_budgeted :: int
  c_started :: bool
  c_stopped :: bool
  c_workers :: "wphase list"
  c_budget :: budget
  c_next :: nat
  c_gone :: "nat set" \<comment> \<open>items whose submit context has ended\<close>
  c_cause :: "nat \<rightharpoonup> cerr" \<comment> \<open>the cause of the ended base contexts\<close>
  c_results :: "(nat \<times> result) list" \<comment> \<open>what was sent on the result channels\<close>

definition new_sched :: sched where
  "new_sched = \<lparr>c_queues = replicate (nat numPriorities) [], c_queued = 0, c_busy = {}, c_running = {},
     c_budgeted = 0, c_started = False, c_stopped = False, c_workers = [], c_budget = empty_budget,
     c_next = 0, c_gone = {}, c_cause = Map.empty, c_results = []\<rparr>"

definition finish :: "item \<Rightarrow> result \<Rightarrow> sched \<Rightarrow> sched" where
  "finish it r s = s\<lparr>c_results := c_results s @ [(t_ticket it, r)]\<rparr>"

definition error_result :: "cerr \<Rightarrow> result" where
  "error_result e = \<lparr>r_usage = no_usage, r_err = Some e, r_fallback = False\<rparr>"

text \<open>The deadline a job gets (the time out itself is an outcome of \<open>Run\<close>).\<close>

definition deadline :: "job \<Rightarrow> duration" where
  "deadline j =
     (if j_deadline j > 0 then j_deadline j
      else if j_kind j = TurnUser then 10 * minute
      else if j_kind j = TurnReflection then 3 * minute
      else 60 * second)"

section \<open>Submitting and cancelling\<close>

definition Submit :: "job \<Rightarrow> sched \<Rightarrow> cerr + sched" where
  "Submit j s =
     (if \<not> j_has_run j then Inl ErrNoRun
      else if j_priority j < 0 \<or> j_priority j \<ge> numPriorities then Inl (ErrPriority (j_priority j))
      else if c_stopped s then Inl ErrStopped
      else if c_queued s \<ge> maxQueued \<and> j_priority j \<noteq> PriUser then Inl ErrQueueFull
      else let it = \<lparr>t_ticket = c_next s, t_job = j\<rparr>; p = nat (j_priority j)
           in Inr (s\<lparr>c_next := c_next s + 1, c_queues := (c_queues s)[p := (c_queues s ! p) @ [it]],
                     c_queued := c_queued s + 1\<rparr>))"

definition drainQueuesLocked :: "sched \<Rightarrow> sched \<times> item list" where
  "drainQueuesLocked s =
     (s\<lparr>c_queues := map (\<lambda>_. []) (c_queues s), c_queued := 0\<rparr>, concat (c_queues s))"

text \<open>Cancelling a base context: the first cause stays.\<close>

definition cancel_running :: "cerr \<Rightarrow> sched \<Rightarrow> sched" where
  "cancel_running cause s =
     s\<lparr>c_cause := (\<lambda>t. if t \<in> c_running s \<and> c_cause s t = None then Some cause else c_cause s t)\<rparr>"

definition CancelAll :: "string \<Rightarrow> sched \<Rightarrow> sched" where
  "CancelAll text s =
     (let cause = ErrCancelledFor text; (s, dropped) = drainQueuesLocked s
      in fold (\<lambda>it. finish it (error_result cause)) dropped (cancel_running cause s))"

definition Run_start :: "cognition_config \<Rightarrow> sched \<Rightarrow> cerr + sched" where
  "Run_start cfg s =
     (if c_started s then Inl ErrRunTwice
      else Inr (s\<lparr>c_started := True, c_workers := replicate (nat (max (MaxConcurrentLLM cfg) 1)) WIdle\<rparr>))"

definition Run_stop :: "sched \<Rightarrow> sched" where
  "Run_stop s =
     (let (s, dropped) = drainQueuesLocked (s\<lparr>c_stopped := True\<rparr>)
      in fold (\<lambda>it. finish it (error_result ErrStopped)) dropped (cancel_running ErrStopped s))"

text \<open>The submit context of an item ends: the base context derived from it ends with it.\<close>

definition abandon :: "nat \<Rightarrow> sched \<Rightarrow> sched" where
  "abandon t s =
     s\<lparr>c_gone := insert t (c_gone s),
       c_cause := (if t \<in> c_running s \<and> c_cause s t = None then (c_cause s)(t \<mapsto> CtxErr) else c_cause s)\<rparr>"

section \<open>Picking\<close>

definition blocked :: "sched \<Rightarrow> item \<Rightarrow> bool" where
  "blocked s it \<longleftrightarrow> (j_session (t_job it) \<noteq> [] \<and> j_session (t_job it) \<in> c_busy s) \<or>
     (j_budgeted (t_job it) \<and> c_budgeted s > 0)"

text \<open>One queue: what is dropped, what is picked, what stays.\<close>

fun scan_queue ::
  "(item \<Rightarrow> bool) \<Rightarrow> (item \<Rightarrow> bool) \<Rightarrow> item list \<Rightarrow> item list \<times> item option \<times> item list" where
  "scan_queue gone blk [] = ([], None, [])"
| "scan_queue gone blk (c # q) =
     (if gone c then (case scan_queue gone blk q of (d, p, q') \<Rightarrow> (c # d, p, q'))
      else if blk c then (case scan_queue gone blk q of (d, p, q') \<Rightarrow> (d, p, c # q'))
      else ([], Some c, q))"

fun scan_queues ::
  "(item \<Rightarrow> bool) \<Rightarrow> (item \<Rightarrow> bool) \<Rightarrow> item list list \<Rightarrow> item list \<times> item option \<times> item list list" where
  "scan_queues gone blk [] = ([], None, [])"
| "scan_queues gone blk (q # qs) =
     (case scan_queue gone blk q of
        (d, Some c, q') \<Rightarrow> (d, Some c, q' # qs)
      | (d, None, q') \<Rightarrow> (case scan_queues gone blk qs of (d', p, qs') \<Rightarrow> (d @ d', p, q' # qs')))"

definition mark_picked :: "item \<Rightarrow> sched \<Rightarrow> sched" where
  "mark_picked it s =
     s\<lparr>c_queued := c_queued s - 1,
       c_busy := (if j_session (t_job it) \<noteq> [] then insert (j_session (t_job it)) (c_busy s) else c_busy s),
       c_budgeted := (if j_budgeted (t_job it) then c_budgeted s + 1 else c_budgeted s),
       c_running := insert (t_ticket it) (c_running s),
       c_cause := (c_cause s)(t_ticket it := None)\<rparr>"

text \<open>The result of \<open>next\<close>: stop, or the picked item if there is one.\<close>

definition next_item :: "sched \<Rightarrow> sched \<times> item option \<times> bool" where
  "next_item s =
     (if c_stopped s then (s, None, True)
      else case scan_queues (\<lambda>it. t_ticket it \<in> c_gone s) (blocked s) (c_queues s) of
             (dropped, pick, qs) \<Rightarrow>
               let s = s\<lparr>c_queues := qs, c_queued := c_queued s - int (length dropped)\<rparr>;
                   s = (case pick of None \<Rightarrow> s | Some it \<Rightarrow> mark_picked it s);
                   s = fold (\<lambda>d. finish d (error_result CtxErr)) dropped s
               in (s, pick, False))"

section \<open>Running one job\<close>

definition cancelErr :: "item \<Rightarrow> cerr \<Rightarrow> sched \<Rightarrow> cerr" where
  "cancelErr it err s =
     (case c_cause s (t_ticket it) of
        None \<Rightarrow> err
      | Some cause \<Rightarrow> if errors_is err cause then err else CausedBy cause err)"

text \<open>\<open>fb\<close> is what the \<open>Fallback\<close> of the job returns; a panic of it is an error.\<close>

definition fallback_result :: "item \<Rightarrow> cerr \<Rightarrow> cerr option \<Rightarrow> sched \<Rightarrow> result" where
  "fallback_result it sentinel fb s =
     (if c_cause s (t_ticket it) \<noteq> None then error_result (cancelErr it CtxErr s)
      else if \<not> j_has_fallback (t_job it) then error_result sentinel
      else \<lparr>r_usage = no_usage,
            r_err = (case fb of None \<Rightarrow> None | Some e \<Rightarrow> Some (Joined sentinel e)), r_fallback = True\<rparr>)"

text \<open>\<open>runItem\<close> up to the call of \<open>Run\<close>: a result at once, or the day the job is charged to.\<close>

definition run_enter ::
  "cognition_config \<Rightarrow> (go_time \<Rightarrow> string) \<Rightarrow> bool \<Rightarrow> go_time \<Rightarrow> cerr option \<Rightarrow> item \<Rightarrow> sched \<Rightarrow> sched \<times> (result + string)" where
  "run_enter cfg dayKey readable now fb it s =
     (case (if j_budgeted (t_job it)
            then (case check_budget cfg dayKey (readable \<and> c_cause s (t_ticket it) = None) now (c_budget s) of
                    (b, day, r) \<Rightarrow> (s\<lparr>c_budget := b\<rparr>, day, r))
            else (s, [], ReasonNone)) of
        (s, day, r) \<Rightarrow>
          if r \<noteq> ReasonNone then (s, Inl (fallback_result it ErrBudgetExhausted fb s))
          else if c_cause s (t_ticket it) \<noteq> None then (s, Inl (error_result (cancelErr it CtxErr s)))
          else (s, Inr day))"

record run_outcome =
  o_usage :: usage
  o_err :: "cerr option" \<comment> \<open>a panic of \<open>Run\<close> is an error\<close>
  o_late :: bool \<comment> \<open>the context of the job ended by its deadline\<close>
  o_fallback :: "cerr option"
  o_writable :: bool

definition run_leave :: "run_outcome \<Rightarrow> item \<Rightarrow> string \<Rightarrow> sched \<Rightarrow> sched \<times> result" where
  "run_leave out it day s =
     (let s = (if j_budgeted (t_job it)
               then s\<lparr>c_budget := add_usage (o_writable out) day (turn_kind_string (j_kind (t_job it))) (o_usage out) (c_budget s)\<rparr>
               else s);
          live = (c_cause s (t_ticket it) = None)
      in if o_err out \<noteq> None \<and> live \<and> o_late out
         then (s, (fallback_result it ErrDeadline (o_fallback out) s)\<lparr>r_usage := o_usage out\<rparr>)
         else (s, \<lparr>r_usage = o_usage out,
                   r_err = (case o_err out of None \<Rightarrow> None
                            | Some e \<Rightarrow> Some (if live then e else cancelErr it e s)),
                   r_fallback = False\<rparr>))"

text \<open>The end of \<open>execute\<close>, under the lock.\<close>

definition release_item :: "item \<Rightarrow> sched \<Rightarrow> sched" where
  "release_item it s =
     s\<lparr>c_running := c_running s - {t_ticket it},
       c_busy := (if j_session (t_job it) \<noteq> [] then c_busy s - {j_session (t_job it)} else c_busy s),
       c_budgeted := (if j_budgeted (t_job it) then c_budgeted s - 1 else c_budgeted s)\<rparr>"

definition Pending :: "sched \<Rightarrow> int" where
  "Pending s = c_queued s + int (card (c_running s))"

section \<open>The machine\<close>

record env =
  e_now :: go_time
  e_readable :: bool
  e_done :: bool \<comment> \<open>the context of the scheduler's \<open>Run\<close> has ended\<close>
  e_out :: run_outcome

definition worker_step ::
  "cognition_config \<Rightarrow> (go_time \<Rightarrow> string) \<Rightarrow> nat \<Rightarrow> env \<Rightarrow> sched \<Rightarrow> sched" where
  "worker_step cfg dayKey w e s =
     (if w \<ge> length (c_workers s) then s
      else let goto = (\<lambda>ph s. s\<lparr>c_workers := (c_workers s)[w := ph]\<rparr>)
        in case c_workers s ! w of
             WIdle \<Rightarrow>
               (case next_item s of
                  (s, pick, stop) \<Rightarrow>
                    if stop then goto WExited s
                    else (case pick of None \<Rightarrow> if e_done e then goto WExited s else s | Some it \<Rightarrow> goto (WPicked it) s))
           | WPicked it \<Rightarrow>
               (case run_enter cfg dayKey (e_readable e) (e_now e) (o_fallback (e_out e)) it s of
                  (s, Inl r) \<Rightarrow> goto (WSent it) (finish it r s)
                | (s, Inr day) \<Rightarrow> goto (WRunning it day) s)
           | WRunning it day \<Rightarrow>
               (case run_leave (e_out e) it day s of (s, r) \<Rightarrow> goto (WSent it) (finish it r s))
           | WSent it \<Rightarrow> goto WIdle (release_item it s)
           | WExited \<Rightarrow> s)"

datatype sop = OpSubmit job | OpCancelAll string | OpStart | OpStop | OpAbandon nat | OpWorker nat env
  | OpStats go_time

definition sched_step :: "cognition_config \<Rightarrow> (go_time \<Rightarrow> string) \<Rightarrow> sop \<Rightarrow> sched \<Rightarrow> sched" where
  "sched_step cfg dayKey op s =
     (case op of
        OpSubmit j \<Rightarrow> (case Submit j s of Inl _ \<Rightarrow> s | Inr s' \<Rightarrow> s')
      | OpCancelAll text \<Rightarrow> CancelAll text s
      | OpStart \<Rightarrow> (case Run_start cfg s of Inl _ \<Rightarrow> s | Inr s' \<Rightarrow> s')
      | OpStop \<Rightarrow> if c_started s then Run_stop s else s
      | OpAbandon t \<Rightarrow> abandon t s
      | OpWorker w e \<Rightarrow> worker_step cfg dayKey w e s
      | OpStats now \<Rightarrow> s\<lparr>c_budget := pruneLocked now (c_budget s)\<rparr>)"

definition sched_run :: "cognition_config \<Rightarrow> (go_time \<Rightarrow> string) \<Rightarrow> sop list \<Rightarrow> sched" where
  "sched_run cfg dayKey ops = fold (sched_step cfg dayKey) ops new_sched"

section \<open>The invariant\<close>

fun held_of :: "wphase \<Rightarrow> item list" where
  "held_of (WPicked it) = [it]"
| "held_of (WRunning it _) = [it]"
| "held_of (WSent it) = [it]"
| "held_of _ = []"

fun active_of :: "wphase \<Rightarrow> item list" where
  "active_of (WPicked it) = [it]"
| "active_of (WRunning it _) = [it]"
| "active_of _ = []"

definition held :: "sched \<Rightarrow> item list" where
  "held s = concat (map held_of (c_workers s))"

definition active :: "sched \<Rightarrow> item list" where
  "active s = concat (map active_of (c_workers s))"

definition waiting :: "sched \<Rightarrow> item list" where
  "waiting s = concat (c_queues s)"

abbreviation "sess it \<equiv> j_session (t_job it)"
abbreviation "budgeted it \<equiv> j_budgeted (t_job it)"

text \<open>The items that workers hold, against the fields that sum them up.\<close>

definition pool_ok :: "item list \<Rightarrow> nat set \<Rightarrow> string set \<Rightarrow> int \<Rightarrow> bool" where
  "pool_ok h running busy bud \<longleftrightarrow> distinct (map t_ticket h) \<and> running = t_ticket ` set h \<and>
     busy = {sess it | it. it \<in> set h \<and> sess it \<noteq> []} \<and> distinct (map sess (filter (\<lambda>it. sess it \<noteq> []) h)) \<and>
     bud = int (length (filter budgeted h)) \<and> bud \<le> 1"

text \<open>Every ticket is in exactly one place: waiting, active, or answered.\<close>

definition tickets :: "sched \<Rightarrow> nat list" where
  "tickets s = map t_ticket (waiting s) @ map t_ticket (active s) @ map fst (c_results s)"

definition queues_ok :: "sched \<Rightarrow> bool" where
  "queues_ok s \<longleftrightarrow> length (c_queues s) = nat numPriorities \<and> c_queued s = int (length (waiting s)) \<and>
     (\<forall>p < length (c_queues s). \<forall>it \<in> set (c_queues s ! p). j_priority (t_job it) = int p) \<and>
     (\<forall>q \<in> set (c_queues s). sorted (map t_ticket q))"

definition spend_ok :: "cognition_config \<Rightarrow> sched \<Rightarrow> bool" where
  "spend_ok cfg s \<longleftrightarrow> usage_ok (c_budget s) \<and>
     (\<forall>it day. WRunning it day \<in> set (c_workers s) \<and> budgeted it \<longrightarrow> dayTokens (c_budget s) day < TokensPerDay cfg)"

definition sched_ok :: "cognition_config \<Rightarrow> sched \<Rightarrow> bool" where
  "sched_ok cfg s \<longleftrightarrow> queues_ok s \<and> pool_ok (held s) (c_running s) (c_busy s) (c_budgeted s) \<and>
     mset (tickets s) = mset [0..<c_next s] \<and>
     (\<forall>it. WSent it \<in> set (c_workers s) \<longrightarrow> t_ticket it \<in> fst ` set (c_results s)) \<and>
     int (length (c_workers s)) \<le> max (MaxConcurrentLLM cfg) 1 \<and>
     (c_started s \<or> c_workers s = []) \<and> spend_ok cfg s"

lemma pool_perm: "mset h = mset k \<Longrightarrow> pool_ok h = pool_ok k"
proof -
  assume p: "mset h = mset k"
  have "set h = set k" using p by (rule mset_eq_setD)
  moreover have "distinct (map f h) = distinct (map f k)" for f :: "item \<Rightarrow> nat"
    by (rule mset_eq_imp_distinct_iff) (simp add: p)
  moreover have "distinct (map f (filter P h)) = distinct (map f (filter P k))" for P and f :: "item \<Rightarrow> string"
    by (rule mset_eq_imp_distinct_iff) (simp add: p)
  moreover have "length (filter P h) = length (filter P k)" for P using p by (metis mset_filter size_mset)
  ultimately show ?thesis by (simp add: pool_ok_def fun_eq_iff)
qed

lemma pool_add:
  assumes "pool_ok h running busy bud" "t_ticket it \<notin> running" "sess it \<noteq> [] \<Longrightarrow> sess it \<notin> busy"
    "budgeted it \<Longrightarrow> \<not> bud > 0"
  shows "pool_ok (it # h) (insert (t_ticket it) running)
    (if sess it \<noteq> [] then insert (sess it) busy else busy) (if budgeted it then bud + 1 else bud)"
  using assms by (auto simp: pool_ok_def)

lemma pool_remove:
  assumes "pool_ok (it # h) running busy bud"
  shows "pool_ok h (running - {t_ticket it}) (if sess it \<noteq> [] then busy - {sess it} else busy)
    (if budgeted it then bud - 1 else bud)"
  using assms by (cases "sess it = []"; cases "budgeted it") (auto simp: pool_ok_def image_iff)

lemma mset_concat_update:
  assumes "w < length ws"
  shows "mset (concat (map f (ws[w := ph]))) + mset (f (ws ! w)) = mset (concat (map f ws)) + mset (f ph)"
  using assms by (subst (3) id_take_nth_drop [OF assms]) (simp add: upd_conv_take_nth_drop)

lemma held_update:
  "w < length (c_workers s) \<Longrightarrow> c_workers s' = (c_workers s)[w := ph] \<Longrightarrow>
   mset (held s') + mset (held_of (c_workers s ! w)) = mset (held s) + mset (held_of ph)"
  by (simp add: held_def mset_concat_update)

lemma active_update:
  "w < length (c_workers s) \<Longrightarrow> c_workers s' = (c_workers s)[w := ph] \<Longrightarrow>
   mset (active s') + mset (active_of (c_workers s ! w)) = mset (active s) + mset (active_of ph)"
  by (simp add: active_def mset_concat_update)

lemma fold_finish:
  "fold (\<lambda>d. finish d r) ds s = s\<lparr>c_results := c_results s @ map (\<lambda>d. (t_ticket d, r)) ds\<rparr>"
  by (induction ds arbitrary: s) (simp_all add: finish_def)

text \<open>What a scan does to the queues.\<close>

lemma scan_queue_parts:
  "scan_queue gone blk q = (d, p, q') \<Longrightarrow>
   mset q = mset d + mset (case p of None \<Rightarrow> [] | Some c \<Rightarrow> [c]) + mset q' \<and>
   (case p of None \<Rightarrow> True | Some c \<Rightarrow> \<not> gone c \<and> \<not> blk c) \<and> (sorted (map t_ticket q) \<longrightarrow> sorted (map t_ticket q'))"
proof (induction q arbitrary: d p q')
  case (Cons c q)
  obtain e r u where rec: "scan_queue gone blk q = (e, r, u)" by (cases "scan_queue gone blk q")
  have "set u \<subseteq> set q" using Cons.IH [OF rec] by (metis mset_subset_eq_add_right set_mset_mono set_mset_mset)
  then show ?case using Cons.IH [OF rec] Cons.prems rec
    by (auto split: if_splits option.splits) (blast dest: subsetD)+
qed simp

lemma scan_queues_parts:
  "scan_queues gone blk qs = (d, p, qs') \<Longrightarrow>
   mset (concat qs) = mset d + mset (case p of None \<Rightarrow> [] | Some c \<Rightarrow> [c]) + mset (concat qs') \<and>
   (case p of None \<Rightarrow> True | Some c \<Rightarrow> \<not> gone c \<and> \<not> blk c) \<and> length qs' = length qs \<and>
   (\<forall>i < length qs. set (qs' ! i) \<subseteq> set (qs ! i)) \<and>
   ((\<forall>q \<in> set qs. sorted (map t_ticket q)) \<longrightarrow> (\<forall>q \<in> set qs'. sorted (map t_ticket q)))"
proof (induction qs arbitrary: d p qs')
  case (Cons q qs)
  obtain e r u where one: "scan_queue gone blk q = (e, r, u)" by (cases "scan_queue gone blk q")
  obtain e' r' us where rest: "scan_queues gone blk qs = (e', r', us)" by (cases "scan_queues gone blk qs")
  have "set u \<subseteq> set q" using scan_queue_parts [OF one] by (metis mset_subset_eq_add_right set_mset_mono set_mset_mset)
  note parts = scan_queue_parts [OF one] Cons.IH [OF rest]
  show ?case
  proof (cases r)
    case None
    then have "d = e @ e'" "p = r'" "qs' = u # us" using Cons.prems one rest by simp_all
    then show ?thesis using parts \<open>set u \<subseteq> set q\<close> None by (auto simp: nth_Cons')
  next
    case (Some c)
    then have "d = e" "p = Some c" "qs' = u # qs" using Cons.prems one rest by simp_all
    then show ?thesis using parts \<open>set u \<subseteq> set q\<close> Some by (auto simp: nth_Cons')
  qed
qed simp

section \<open>Every step keeps the invariant\<close>

lemma tickets_distinct: "mset (tickets s) = mset [0..<n] \<Longrightarrow> distinct (tickets s) \<and> set (tickets s) = {0..<n}"
  using mset_eq_imp_distinct_iff [of "tickets s" "[0..<n]"] mset_eq_setD [of "tickets s" "[0..<n]"] by simp

lemma sched_tickets: "sched_ok cfg s \<Longrightarrow> distinct (tickets s) \<and> set (tickets s) = {0..<c_next s}"
  unfolding sched_ok_def by (blast dest: tickets_distinct)

lemma sched_okD:
  assumes "sched_ok cfg s"
  shows "queues_ok s" "pool_ok (held s) (c_running s) (c_busy s) (c_budgeted s)"
    "mset (tickets s) = mset [0..<c_next s]" "\<And>it. WSent it \<in> set (c_workers s) \<Longrightarrow> t_ticket it \<in> fst ` set (c_results s)"
    "int (length (c_workers s)) \<le> max (MaxConcurrentLLM cfg) 1" "c_workers s \<noteq> [] \<Longrightarrow> c_started s" "spend_ok cfg s"
  using assms unfolding sched_ok_def by blast+

lemma held_cong: "c_workers s' = c_workers s \<Longrightarrow> held s' = held s \<and> active s' = active s"
  by (simp add: held_def active_def)

lemma spend_cong: "c_budget s' = c_budget s \<Longrightarrow> c_workers s' = c_workers s \<Longrightarrow> spend_ok cfg s' = spend_ok cfg s"
  by (simp add: spend_ok_def)

lemma drained_ok:
  assumes "sched_ok cfg s" "c_queues s' = map (\<lambda>_. []) (c_queues s)" "c_queued s' = 0" "c_workers s' = c_workers s"
    "c_running s' = c_running s" "c_busy s' = c_busy s" "c_budgeted s' = c_budgeted s" "c_next s' = c_next s"
    "c_results s' = c_results s @ map (\<lambda>d. (t_ticket d, r)) (waiting s)" "c_budget s' = c_budget s"
    "c_started s' = c_started s"
  shows "sched_ok cfg s'"
proof -
  have w: "waiting s' = []" by (auto simp: waiting_def assms(2))
  have h: "held s' = held s" "active s' = active s" using held_cong [OF assms(4)] by simp_all
  have "queues_ok s'" using assms(1) by (auto simp: sched_ok_def queues_ok_def w assms(2,3))
  moreover have "mset (tickets s') = mset (tickets s)"
    by (simp add: tickets_def w h assms(9) o_def)
  ultimately show ?thesis using assms(1) h spend_cong [OF assms(10,4)] unfolding sched_ok_def assms(4-8,11)
    by (auto simp: assms(9))
qed

lemma CancelAll_ok: "sched_ok cfg s \<Longrightarrow> sched_ok cfg (CancelAll text s)"
  unfolding CancelAll_def drainQueuesLocked_def
  by (erule drained_ok [where r = "error_result (ErrCancelledFor text)"]) (simp_all add: fold_finish cancel_running_def Let_def waiting_def)

lemma Run_stop_ok: "sched_ok cfg s \<Longrightarrow> sched_ok cfg (Run_stop s)"
  unfolding Run_stop_def drainQueuesLocked_def
  by (erule drained_ok [where r = "error_result ErrStopped"]) (simp_all add: fold_finish cancel_running_def Let_def waiting_def)

lemma same_ok:
  assumes "sched_ok cfg s" "c_queues s' = c_queues s" "c_queued s' = c_queued s" "c_workers s' = c_workers s"
    "c_running s' = c_running s" "c_busy s' = c_busy s" "c_budgeted s' = c_budgeted s" "c_next s' = c_next s"
    "c_results s' = c_results s" "b_usage (c_budget s') = b_usage (c_budget s)" "c_started s' = c_started s"
  shows "sched_ok cfg s'"
proof -
  have "held s' = held s" "active s' = active s" "waiting s' = waiting s"
    using held_cong [OF assms(4)] by (simp_all add: waiting_def assms(2))
  then show ?thesis using assms(1) dayTokens_usage [OF assms(10)]
    by (simp add: sched_ok_def queues_ok_def tickets_def spend_ok_def usage_ok_def assms)
qed

lemma abandon_ok: "sched_ok cfg s \<Longrightarrow> sched_ok cfg (abandon t s)"
  by (erule same_ok) (simp_all add: abandon_def)

lemma Submit_ok:
  assumes "sched_ok cfg s" "Submit j s = Inr s'"
  shows "sched_ok cfg s'"
proof -
  let ?it = "\<lparr>t_ticket = c_next s, t_job = j\<rparr>"
  let ?p = "nat (j_priority j)"
  have p: "0 \<le> j_priority j" "j_priority j < numPriorities"
    and s': "s' = s\<lparr>c_next := c_next s + 1, c_queues := (c_queues s)[?p := (c_queues s ! ?p) @ [?it]],
                     c_queued := c_queued s + 1\<rparr>"
    using assms(2) by (auto simp: Submit_def Let_def split: if_splits)
  have q: "queues_ok s" and t: "mset (tickets s) = mset [0..<c_next s]" using assms(1) by (simp_all add: sched_ok_def)
  have len: "?p < length (c_queues s)" using q p by (simp add: queues_ok_def numPriorities_def)
  have w: "mset (waiting s') = mset (waiting s) + {#?it#}"
    using mset_concat_update [OF len, of "\<lambda>x. x" "(c_queues s ! ?p) @ [?it]"] by (simp add: waiting_def s')
  then have lw: "length (waiting s') = length (waiting s) + 1" by (metis size_mset size_add_mset union_mset_add_mset_right add.right_neutral Suc_eq_plus1)
  have old: "t_ticket it < c_next s" if "it \<in> set (c_queues s ! ?p)" for it
  proof -
    have "it \<in> set (waiting s)" using that len by (auto simp: waiting_def)
    then have "t_ticket it \<in> set (tickets s)" by (simp add: tickets_def)
    then show ?thesis using tickets_distinct [OF t] by simp
  qed
  have "sorted (map t_ticket (c_queues s ! ?p))" using q len by (simp add: queues_ok_def)
  then have so: "sorted (map t_ticket ((c_queues s ! ?p) @ [?it]))"
    using old by (auto simp: sorted_append intro: less_imp_le)
  have "queues_ok s'"
    using q lw p so len unfolding queues_ok_def s'
    by (auto simp: nth_list_update dest!: subsetD [OF set_update_subset_insert] split: if_splits)
  moreover have h: "held s' = held s" "active s' = active s" using held_cong [of s' s] by (simp_all add: s')
  moreover have "mset (tickets s') = mset [0..<c_next s']"
  proof -
    have "c_results s' = c_results s" "c_next s' = Suc (c_next s)" by (simp_all add: s')
    then show ?thesis using t w by (simp add: tickets_def h)
  qed
  moreover have "spend_ok cfg s'" using assms(1) spend_cong [of s' s cfg] by (simp add: s' sched_ok_def)
  ultimately show ?thesis using assms(1) by (simp add: sched_ok_def s')
qed

lemma Run_start_ok:
  assumes "sched_ok cfg s" "Run_start cfg s = Inr s'"
  shows "sched_ok cfg s'"
proof -
  let ?n = "nat (max (MaxConcurrentLLM cfg) 1)"
  have s': "s' = s\<lparr>c_started := True, c_workers := replicate ?n WIdle\<rparr>" and "c_workers s = []"
    using assms by (auto simp: Run_start_def sched_ok_def split: if_splits)
  then have h: "held s = []" "active s = []" by (simp_all add: held_def active_def)
  have h': "held s' = []" "active s' = []" by (auto simp: held_def active_def s')
  have w: "waiting s' = waiting s" by (simp add: waiting_def s')
  have "spend_ok cfg s'" "queues_ok s'"
    using assms(1) w by (auto simp: s' spend_ok_def sched_ok_def queues_ok_def)
  then show ?thesis using assms(1) unfolding sched_ok_def h h' tickets_def w by (auto simp: s')
qed

lemma new_sched_ok: "sched_ok cfg new_sched"
  by (auto simp: sched_ok_def new_sched_def queues_ok_def pool_ok_def tickets_def waiting_def active_def held_def
      spend_ok_def usage_ok_def empty_budget_def numPriorities_def)

text \<open>A worker picks an item.\<close>

lemma next_item_facts:
  assumes "next_item s = (s', pick, False)"
  obtains dropped qs where
    "scan_queues (\<lambda>it. t_ticket it \<in> c_gone s) (blocked s) (c_queues s) = (dropped, pick, qs)"
    "c_queues s' = qs" "c_workers s' = c_workers s" "c_next s' = c_next s" "c_budget s' = c_budget s"
    "c_started s' = c_started s"
    "c_queued s' = c_queued s - int (length dropped) - (if pick = None then 0 else 1)"
    "c_results s' = c_results s @ map (\<lambda>d. (t_ticket d, error_result CtxErr)) dropped"
    "case pick of None \<Rightarrow> c_running s' = c_running s \<and> c_busy s' = c_busy s \<and> c_budgeted s' = c_budgeted s
       | Some it \<Rightarrow> c_running s' = insert (t_ticket it) (c_running s) \<and>
           c_busy s' = (if sess it \<noteq> [] then insert (sess it) (c_busy s) else c_busy s) \<and>
           c_budgeted s' = (if budgeted it then c_budgeted s + 1 else c_budgeted s)"
proof -
  obtain dropped p qs where scan: "scan_queues (\<lambda>it. t_ticket it \<in> c_gone s) (blocked s) (c_queues s) = (dropped, p, qs)"
    by (cases "scan_queues (\<lambda>it. t_ticket it \<in> c_gone s) (blocked s) (c_queues s)")
  have "p = pick" and s': "s' = fold (\<lambda>d. finish d (error_result CtxErr)) dropped
      (case p of None \<Rightarrow> s\<lparr>c_queues := qs, c_queued := c_queued s - int (length dropped)\<rparr>
       | Some it \<Rightarrow> mark_picked it (s\<lparr>c_queues := qs, c_queued := c_queued s - int (length dropped)\<rparr>))"
    using assms by (auto simp: next_item_def scan Let_def split: if_splits)
  then show thesis
    by (intro that [OF scan [unfolded \<open>p = pick\<close>]])
      (simp_all add: fold_finish mark_picked_def split: option.split)
qed

definition opt_list :: "'a option \<Rightarrow> 'a list" where
  "opt_list p = (case p of None \<Rightarrow> [] | Some x \<Rightarrow> [x])"

lemma opt_list_simps [simp]: "opt_list None = []" "opt_list (Some x) = [x]"
  by (simp_all add: opt_list_def)

lemma next_item_keeps:
  assumes "sched_ok cfg s" "next_item s = (s', pick, False)"
  shows "queues_ok s'" "mset (tickets s') + mset (map t_ticket (opt_list pick)) = mset (tickets s)"
    "c_workers s' = c_workers s" "c_next s' = c_next s" "c_budget s' = c_budget s" "c_started s' = c_started s"
    "fst ` set (c_results s) \<subseteq> fst ` set (c_results s')"
    "case pick of None \<Rightarrow> pool_ok (held s') (c_running s') (c_busy s') (c_budgeted s')
      | Some it \<Rightarrow> pool_ok (it # held s') (c_running s') (c_busy s') (c_budgeted s')"
proof -
  obtain dropped qs where
    scan: "scan_queues (\<lambda>it. t_ticket it \<in> c_gone s) (blocked s) (c_queues s) = (dropped, pick, qs)"
    and f: "c_queues s' = qs" "c_workers s' = c_workers s" "c_next s' = c_next s" "c_budget s' = c_budget s"
      "c_started s' = c_started s" "c_queued s' = c_queued s - int (length dropped) - (if pick = None then 0 else 1)"
      "c_results s' = c_results s @ map (\<lambda>d. (t_ticket d, error_result CtxErr)) dropped"
      "case pick of None \<Rightarrow> c_running s' = c_running s \<and> c_busy s' = c_busy s \<and> c_budgeted s' = c_budgeted s
       | Some it \<Rightarrow> c_running s' = insert (t_ticket it) (c_running s) \<and>
           c_busy s' = (if sess it \<noteq> [] then insert (sess it) (c_busy s) else c_busy s) \<and>
           c_budgeted s' = (if budgeted it then c_budgeted s + 1 else c_budgeted s)"
    using assms(2) by (rule next_item_facts)
  note parts = scan_queues_parts [OF scan]
  have w: "mset (waiting s) = mset dropped + mset (opt_list pick) + mset (waiting s')"
    using parts by (simp add: waiting_def f opt_list_def)
  then have "size (mset (waiting s)) = size (mset dropped + mset (opt_list pick) + mset (waiting s'))" by simp
  then have len: "length (waiting s) = length dropped + length (opt_list pick) + length (waiting s')" by simp
  have q: "queues_ok s" using assms(1) by (simp add: sched_ok_def)
  show "queues_ok s'" unfolding queues_ok_def
  proof (intro conjI)
    show "c_queued s' = int (length (waiting s'))" using q len f(6) by (cases pick) (simp_all add: queues_ok_def)
    show "\<forall>p < length (c_queues s'). \<forall>it \<in> set (c_queues s' ! p). j_priority (t_job it) = int p"
      using q parts f(1) unfolding queues_ok_def by (metis subsetD)
  qed (use q parts f(1) in \<open>auto simp: queues_ok_def\<close>)
  have h: "held s' = held s" "active s' = active s" using held_cong [OF f(2)] by simp_all
  show t: "mset (tickets s') + mset (map t_ticket (opt_list pick)) = mset (tickets s)"
    using w by (simp add: tickets_def h f(7) o_def)
  show "fst ` set (c_results s) \<subseteq> fst ` set (c_results s')" by (auto simp: f(7))
  show "c_workers s' = c_workers s" "c_next s' = c_next s" "c_budget s' = c_budget s" "c_started s' = c_started s"
    using f by simp_all
  show "case pick of None \<Rightarrow> pool_ok (held s') (c_running s') (c_busy s') (c_budgeted s')
      | Some it \<Rightarrow> pool_ok (it # held s') (c_running s') (c_busy s') (c_budgeted s')"
  proof (cases pick)
    case None
    then show ?thesis using assms(1) f(8) h by (simp add: sched_ok_def)
  next
    case (Some it)
    have pool: "pool_ok (held s) (c_running s) (c_busy s) (c_budgeted s)" using assms(1) by (simp add: sched_ok_def)
    have fresh: "t_ticket it \<notin> c_running s"
    proof
      assume "t_ticket it \<in> c_running s"
      then obtain jt where jt: "jt \<in> set (held s)" "t_ticket jt = t_ticket it" using pool by (auto simp: pool_ok_def)
      have d: "distinct (tickets s)" using sched_tickets [OF assms(1)] by blast
      have "it \<in># mset (waiting s)" unfolding w Some by simp
      then have "t_ticket it \<in> t_ticket ` set (waiting s)" by simp
      moreover from jt(1) obtain ph where ph: "ph \<in> set (c_workers s)" "jt \<in> set (held_of ph)" by (auto simp: held_def)
      then have "jt \<in> set (active_of ph) \<or> ph = WSent jt" by (cases ph rule: wphase.exhaust) auto
      then have "t_ticket jt \<in> t_ticket ` set (active s) \<union> fst ` set (c_results s)"
        using ph(1) sched_okD(4) [OF assms(1)] by (auto simp: active_def)
      ultimately show False using d jt(2) by (auto simp: tickets_def)
    qed
    have b: "\<not> blocked s it" using parts Some by simp
    have "pool_ok (it # held s) (insert (t_ticket it) (c_running s))
        (if sess it \<noteq> [] then insert (sess it) (c_busy s) else c_busy s) (if budgeted it then c_budgeted s + 1 else c_budgeted s)"
      by (rule pool_add [OF pool fresh]) (use b in \<open>auto simp: blocked_def\<close>)
    moreover have "c_running s' = insert (t_ticket it) (c_running s)"
      "c_busy s' = (if sess it \<noteq> [] then insert (sess it) (c_busy s) else c_busy s)"
      "c_budgeted s' = (if budgeted it then c_budgeted s + 1 else c_budgeted s)"
      using f(8) unfolding Some option.case by blast+
    ultimately show ?thesis by (simp only: Some option.case h(1))
  qed
qed

text \<open>The phases of a worker.\<close>

lemma goto_ok:
  assumes "w < length (c_workers s)" "c_workers s' = (c_workers s)[w := ph]" "queues_ok s'"
    "pool_ok (held s') (c_running s') (c_busy s') (c_budgeted s')"
    "mset (tickets s') = mset [0..<c_next s']" "spend_ok cfg s'" "c_started s'"
    "\<And>it. WSent it \<in> set (c_workers s) \<Longrightarrow> t_ticket it \<in> fst ` set (c_results s')"
    "\<And>it. ph = WSent it \<Longrightarrow> t_ticket it \<in> fst ` set (c_results s')"
    "int (length (c_workers s)) \<le> max (MaxConcurrentLLM cfg) 1"
  shows "sched_ok cfg s'"
proof -
  have "t_ticket it \<in> fst ` set (c_results s')" if "WSent it \<in> set (c_workers s')" for it
    using that assms(2,8,9) set_update_subset_insert [of "c_workers s" w ph] by (metis insertE subsetD)
  moreover have "length (c_workers s') = length (c_workers s)" by (simp add: assms(2))
  ultimately show ?thesis using assms(3-7,10) unfolding sched_ok_def by simp
qed

lemma spend_goto:
  assumes "spend_ok cfg s" "b_usage (c_budget s') = b_usage (c_budget s)" "c_workers s' = (c_workers s)[w := ph]"
    "\<And>it day. ph = WRunning it day \<Longrightarrow> budgeted it \<Longrightarrow> dayTokens (c_budget s) day < TokensPerDay cfg"
  shows "spend_ok cfg s'"
  using assms dayTokens_usage [OF assms(2)] unfolding spend_ok_def usage_ok_def
  by (auto dest!: subsetD [OF set_update_subset_insert])

lemma idle_pick_ok:
  assumes "sched_ok cfg s" "w < length (c_workers s)" "c_workers s ! w = WIdle" "next_item s = (s', Some it, False)"
  shows "sched_ok cfg (s'\<lparr>c_workers := (c_workers s')[w := WPicked it]\<rparr>)" (is "sched_ok cfg ?s")
proof -
  note k = next_item_keeps [OF assms(1,4)]
  have ws: "c_workers ?s = (c_workers s)[w := WPicked it]" by (simp add: k(3))
  have h: "mset (held ?s) = mset (it # held s)" "mset (active ?s) = mset (it # active s)"
    using held_update [OF assms(2) ws] active_update [OF assms(2) ws] assms(3) by simp_all
  have h': "held s' = held s" "active s' = active s" using held_cong [OF k(3)] by simp_all
  have "waiting ?s = waiting s'" by (simp add: waiting_def)
  then have t: "mset (tickets ?s) = mset (tickets s)"
    using k(2) h(2) h'(2) by (simp add: tickets_def)
  show ?thesis
  proof (rule goto_ok [OF assms(2) ws])
    show "queues_ok ?s" using k(1) by (simp add: queues_ok_def waiting_def)
    show "pool_ok (held ?s) (c_running ?s) (c_busy ?s) (c_budgeted ?s)"
      using k(8) pool_perm [OF h(1)] by (simp add: h'(1))
    show "mset (tickets ?s) = mset [0..<c_next ?s]" unfolding t sched_okD(3) [OF assms(1)] by (simp add: k(4))
    show "spend_ok cfg ?s" by (rule spend_goto [OF sched_okD(7) [OF assms(1)], where w = w and ph = "WPicked it"]) (simp_all add: k(3,5))
    show "c_started ?s" using sched_okD(6) [OF assms(1)] assms(2) k(6) by fastforce
    show "t_ticket jt \<in> fst ` set (c_results ?s)" if "WSent jt \<in> set (c_workers s)" for jt
      using sched_okD(4) [OF assms(1) that] k(7) by auto
    show "int (length (c_workers s)) \<le> max (MaxConcurrentLLM cfg) 1" by (rule sched_okD(5) [OF assms(1)])
  qed simp
qed

lemma idle_none_ok:
  assumes "sched_ok cfg s" "next_item s = (s', None, False)"
  shows "sched_ok cfg s'"
proof -
  note k = next_item_keeps [OF assms]
  have "spend_ok cfg s'" using assms(1) spend_cong [OF k(5,3)] by (simp add: sched_ok_def)
  moreover have "mset (tickets s') = mset (tickets s)" using k(2) by simp
  ultimately show ?thesis using assms(1) k unfolding sched_ok_def by (auto simp: k(3,4,6))
qed

lemma exit_ok:
  assumes "sched_ok cfg s" "w < length (c_workers s)" "held_of (c_workers s ! w) = []"
  shows "sched_ok cfg (s\<lparr>c_workers := (c_workers s)[w := WExited]\<rparr>)" (is "sched_ok cfg ?s")
proof -
  have a: "active_of (c_workers s ! w) = []" using assms(3) by (cases "c_workers s ! w") auto
  have h: "mset (held ?s) = mset (held s)" "mset (active ?s) = mset (active s)"
    using held_update [OF assms(2), of ?s WExited] active_update [OF assms(2), of ?s WExited] assms(3) a by simp_all
  have t: "mset (tickets ?s) = mset (tickets s)" using h(2) by (simp add: tickets_def waiting_def)
  show ?thesis
  proof (rule goto_ok [OF assms(2), of _ WExited])
    show "pool_ok (held ?s) (c_running ?s) (c_busy ?s) (c_budgeted ?s)"
      using sched_okD(2) [OF assms(1)] pool_perm [OF h(1)] by simp
    show "mset (tickets ?s) = mset [0..<c_next ?s]" unfolding t sched_okD(3) [OF assms(1)] by simp
    show "spend_ok cfg ?s" by (rule spend_goto [OF sched_okD(7) [OF assms(1)], where w = w and ph = WExited]) simp_all
    show "c_started ?s" using sched_okD(6) [OF assms(1)] assms(2) by fastforce
    show "queues_ok ?s" using sched_okD(1) [OF assms(1)] by (simp add: queues_ok_def waiting_def)
    show "t_ticket jt \<in> fst ` set (c_results ?s)" if "WSent jt \<in> set (c_workers s)" for jt
      using sched_okD(4) [OF assms(1) that] by simp
    show "int (length (c_workers s)) \<le> max (MaxConcurrentLLM cfg) 1" by (rule sched_okD(5) [OF assms(1)])
  qed simp_all
qed

lemma run_enter_fields:
  assumes "run_enter cfg dayKey readable now fb it s = (s', r)"
  shows "b_usage (c_budget s') = b_usage (c_budget s)" "s' = s\<lparr>c_budget := c_budget s'\<rparr>"
    "r = Inr day \<Longrightarrow> budgeted it \<Longrightarrow> dayTokens (c_budget s) day < TokensPerDay cfg"
proof -
  obtain b d q where chk: "check_budget cfg dayKey (readable \<and> c_cause s (t_ticket it) = None) now (c_budget s) = (b, d, q)"
    by (cases "check_budget cfg dayKey (readable \<and> c_cause s (t_ticket it) = None) now (c_budget s)")
  have u: "b_usage b = b_usage (c_budget s)"
    using check_budget_usage [of cfg dayKey "readable \<and> c_cause s (t_ticket it) = None" now "c_budget s"] by (simp add: chk)
  show "b_usage (c_budget s') = b_usage (c_budget s)" "s' = s\<lparr>c_budget := c_budget s'\<rparr>"
    using assms u by (auto simp: run_enter_def chk split: if_splits)
  show "dayTokens (c_budget s) day < TokensPerDay cfg" if "r = Inr day" "budgeted it"
    using check_budget_granted [of cfg dayKey "readable \<and> c_cause s (t_ticket it) = None" now "c_budget s"]
      check_budget_day [of cfg dayKey "readable \<and> c_cause s (t_ticket it) = None" now "c_budget s"] assms that
    by (auto simp: run_enter_def chk split: if_splits)
qed

lemma run_leave_fields:
  assumes "run_leave out it day s = (s', r)"
  shows "s' = s\<lparr>c_budget := c_budget s'\<rparr>" "usage_ok (c_budget s) \<Longrightarrow> usage_ok (c_budget s')"
    "c_budget s' = (if budgeted it then add_usage (o_writable out) day (turn_kind_string (j_kind (t_job it))) (o_usage out) (c_budget s)
       else c_budget s)"
  using assms by (auto simp: run_leave_def Let_def add_usage_ok split: if_splits)

text \<open>Sending the result moves the ticket from the active ones to the answered ones.\<close>

lemma sent_ok:
  assumes "sched_ok cfg s" "w < length (c_workers s)" "held_of (c_workers s ! w) = [it]"
    "active_of (c_workers s ! w) = [it]" "s' = s\<lparr>c_budget := b\<rparr>"
    "spend_ok cfg ((finish it r s')\<lparr>c_workers := (c_workers s)[w := WSent it]\<rparr>)"
  shows "sched_ok cfg ((finish it r s')\<lparr>c_workers := (c_workers s)[w := WSent it]\<rparr>)" (is "sched_ok cfg ?s")
proof -
  have ws: "c_workers ?s = (c_workers s)[w := WSent it]" by simp
  have h: "mset (held ?s) = mset (held s)" "mset (active ?s) + {#it#} = mset (active s)"
    using held_update [OF assms(2) ws] active_update [OF assms(2) ws] assms(3,4) by simp_all
  from h(2) have "mset (map t_ticket (active ?s)) + {#t_ticket it#} = mset (map t_ticket (active s))"
    by (metis (no_types, lifting) image_mset_add_mset image_mset_single image_mset_union mset_map)
  then have t: "mset (tickets ?s) = mset (tickets s)"
    by (simp add: tickets_def waiting_def finish_def assms(5))
  have f: "c_queues ?s = c_queues s" "c_queued ?s = c_queued s" "c_running ?s = c_running s" "c_busy ?s = c_busy s"
    "c_budgeted ?s = c_budgeted s" "c_next ?s = c_next s" "c_started ?s = c_started s"
    "c_results ?s = c_results s @ [(t_ticket it, r)]"
    by (simp_all add: finish_def assms(5))
  show ?thesis
  proof (rule goto_ok [OF assms(2) ws _ _ _ assms(6)])
    show "queues_ok ?s" using sched_okD(1) [OF assms(1)] by (simp add: queues_ok_def waiting_def f)
    show "pool_ok (held ?s) (c_running ?s) (c_busy ?s) (c_budgeted ?s)"
      using sched_okD(2) [OF assms(1)] pool_perm [OF h(1)] by (simp add: f)
    show "mset (tickets ?s) = mset [0..<c_next ?s]" unfolding t sched_okD(3) [OF assms(1)] by (simp add: f)
    show "c_started ?s" using sched_okD(6) [OF assms(1)] assms(2) f(7) by fastforce
    show "t_ticket jt \<in> fst ` set (c_results ?s)" if "WSent jt \<in> set (c_workers s)" for jt
      using sched_okD(4) [OF assms(1) that] by (simp add: f)
    show "int (length (c_workers s)) \<le> max (MaxConcurrentLLM cfg) 1" by (rule sched_okD(5) [OF assms(1)])
    show "t_ticket jt \<in> fst ` set (c_results ?s)" if "WSent it = WSent jt" for jt
      using that f(8) by simp
  qed
qed

lemma running_ok:
  assumes "sched_ok cfg s" "w < length (c_workers s)" "c_workers s ! w = WPicked it"
    "s' = s\<lparr>c_budget := b\<rparr>" "b_usage b = b_usage (c_budget s)"
    "budgeted it \<Longrightarrow> dayTokens (c_budget s) day < TokensPerDay cfg"
  shows "sched_ok cfg (s'\<lparr>c_workers := (c_workers s)[w := WRunning it day]\<rparr>)" (is "sched_ok cfg ?s")
proof -
  have ws: "c_workers ?s = (c_workers s)[w := WRunning it day]" by simp
  have h: "mset (held ?s) = mset (held s)" "mset (active ?s) = mset (active s)"
    using held_update [OF assms(2) ws] active_update [OF assms(2) ws] assms(3) by simp_all
  have t: "mset (tickets ?s) = mset (tickets s)" using h(2) by (simp add: tickets_def waiting_def assms(4))
  show ?thesis
  proof (rule goto_ok [OF assms(2) ws])
    show "queues_ok ?s" using sched_okD(1) [OF assms(1)] by (simp add: queues_ok_def waiting_def assms(4))
    show "pool_ok (held ?s) (c_running ?s) (c_busy ?s) (c_budgeted ?s)"
      using sched_okD(2) [OF assms(1)] pool_perm [OF h(1)] by (simp add: assms(4))
    show "mset (tickets ?s) = mset [0..<c_next ?s]" unfolding t sched_okD(3) [OF assms(1)] by (simp add: assms(4))
    show "spend_ok cfg ?s"
      by (rule spend_goto [OF sched_okD(7) [OF assms(1)], where w = w and ph = "WRunning it day"])
        (use assms(5,6) in \<open>auto simp: assms(4)\<close>)
    show "c_started ?s" using sched_okD(6) [OF assms(1)] assms(2) by (fastforce simp: assms(4))
    show "t_ticket jt \<in> fst ` set (c_results ?s)" if "WSent jt \<in> set (c_workers s)" for jt
      using sched_okD(4) [OF assms(1) that] by (simp add: assms(4))
    show "int (length (c_workers s)) \<le> max (MaxConcurrentLLM cfg) 1" by (rule sched_okD(5) [OF assms(1)])
  qed simp
qed

lemma released_ok:
  assumes "sched_ok cfg s" "w < length (c_workers s)" "c_workers s ! w = WSent it"
  shows "sched_ok cfg ((release_item it s)\<lparr>c_workers := (c_workers s)[w := WIdle]\<rparr>)" (is "sched_ok cfg ?s")
proof -
  have ws: "c_workers ?s = (c_workers s)[w := WIdle]" by simp
  have h: "mset (held s) = mset (it # held ?s)" "mset (active ?s) = mset (active s)"
    using held_update [OF assms(2) ws] active_update [OF assms(2) ws] assms(3) by simp_all
  have t: "mset (tickets ?s) = mset (tickets s)" using h(2) by (simp add: tickets_def waiting_def release_item_def)
  show ?thesis
  proof (rule goto_ok [OF assms(2) ws])
    show "queues_ok ?s" using sched_okD(1) [OF assms(1)] by (simp add: queues_ok_def waiting_def release_item_def)
    show "pool_ok (held ?s) (c_running ?s) (c_busy ?s) (c_budgeted ?s)"
      using pool_remove [of it "held ?s" "c_running s" "c_busy s" "c_budgeted s"] sched_okD(2) [OF assms(1)] pool_perm [OF h(1)]
      by (simp add: release_item_def)
    show "mset (tickets ?s) = mset [0..<c_next ?s]" unfolding t sched_okD(3) [OF assms(1)] by (simp add: release_item_def)
    show "spend_ok cfg ?s"
      by (rule spend_goto [OF sched_okD(7) [OF assms(1)], where w = w and ph = WIdle]) (simp_all add: release_item_def)
    show "c_started ?s" using sched_okD(6) [OF assms(1)] assms(2) by (fastforce simp: release_item_def)
    show "t_ticket jt \<in> fst ` set (c_results ?s)" if "WSent jt \<in> set (c_workers s)" for jt
      using sched_okD(4) [OF assms(1) that] by (simp add: release_item_def)
    show "int (length (c_workers s)) \<le> max (MaxConcurrentLLM cfg) 1" by (rule sched_okD(5) [OF assms(1)])
  qed simp
qed

text \<open>Two workers hold two different entries of the pool.\<close>

lemma two_held:
  assumes "w < length (c_workers s)" "v < length (c_workers s)" "w \<noteq> v"
    "held_of (c_workers s ! w) = [it]" "held_of (c_workers s ! v) = [jt]"
  obtains h where "mset (held s) = mset (it # jt # h)"
proof -
  let ?s = "s\<lparr>c_workers := (c_workers s)[w := WIdle]\<rparr>"
  have one: "mset (held s) = mset (held ?s) + {#it#}"
    using held_update [OF assms(1), of ?s WIdle] assms(4) by simp
  have "mset (held ?s) = mset (held (s\<lparr>c_workers := (c_workers ?s)[v := WIdle]\<rparr>)) + {#jt#}"
    using held_update [of v ?s "s\<lparr>c_workers := (c_workers ?s)[v := WIdle]\<rparr>" WIdle] assms(2,3,5) by simp
  with one show thesis by (intro that) (simp add: add_mset_commute)
qed

lemma one_each:
  assumes "sched_ok cfg s" "w < length (c_workers s)" "v < length (c_workers s)" "w \<noteq> v"
    "held_of (c_workers s ! w) = [it]" "held_of (c_workers s ! v) = [jt]"
  shows "\<not> (budgeted it \<and> budgeted jt)" "sess it \<noteq> [] \<Longrightarrow> sess it \<noteq> sess jt" "t_ticket it \<noteq> t_ticket jt"
proof -
  obtain h where "mset (held s) = mset (it # jt # h)" using two_held [OF assms(2-6)] .
  from pool_perm [OF this] have "pool_ok (it # jt # h) (c_running s) (c_busy s) (c_budgeted s)"
    using sched_okD(2) [OF assms(1)] by simp
  then show "\<not> (budgeted it \<and> budgeted jt)" "sess it \<noteq> [] \<Longrightarrow> sess it \<noteq> sess jt" "t_ticket it \<noteq> t_ticket jt"
    by (auto simp: pool_ok_def split: if_splits)
qed

lemma spend_leave:
  assumes "sched_ok cfg s" "w < length (c_workers s)" "c_workers s ! w = WRunning it day"
    "run_leave out it day s = (s', r)"
  shows "spend_ok cfg ((finish it q s')\<lparr>c_workers := (c_workers s)[w := WSent it]\<rparr>)"
proof -
  note f = run_leave_fields [OF assms(4)]
  have b: "usage_ok (c_budget s')" using f(2) sched_okD(7) [OF assms(1)] by (simp add: spend_ok_def)
  have "dayTokens (c_budget s') d < TokensPerDay cfg"
    if "WRunning jt d \<in> set ((c_workers s)[w := WSent it])" "budgeted jt" for jt d
  proof -
    from that(1) obtain v where v: "v < length (c_workers s)" "(c_workers s)[w := WSent it] ! v = WRunning jt d"
      by (auto simp: in_set_conv_nth)
    then have "v \<noteq> w" using assms(2) by auto
    with v have v: "v < length (c_workers s)" "v \<noteq> w" "c_workers s ! v = WRunning jt d" by simp_all
    then have "\<not> budgeted it" using one_each(1) [OF assms(1,2) v(1), of it jt] assms(3) that(2) by auto
    then have "c_budget s' = c_budget s" using f(3) by simp
    moreover have "WRunning jt d \<in> set (c_workers s)" using v by (metis nth_mem)
    ultimately show ?thesis using sched_okD(7) [OF assms(1)] that(2) by (simp add: spend_ok_def)
  qed
  with b show ?thesis unfolding spend_ok_def finish_def by simp blast
qed

lemma worker_step_ok:
  assumes "sched_ok cfg s"
  shows "sched_ok cfg (worker_step cfg dayKey w e s)"
proof (cases "w < length (c_workers s)")
  case w: True
  show ?thesis
  proof (cases "c_workers s ! w")
    case WIdle
    obtain s' pick stop where n: "next_item s = (s', pick, stop)" by (cases "next_item s")
    show ?thesis
    proof (cases stop)
      case True
      then have "s' = s" using n by (auto simp: next_item_def Let_def split: if_splits prod.splits)
      then show ?thesis using exit_ok [OF assms w] WIdle n True w by (simp add: worker_step_def)
    next
      case False
      show ?thesis
      proof (cases pick)
        case None
        have ok: "sched_ok cfg s'" using idle_none_ok [OF assms] n None False by simp
        have "c_workers s' = c_workers s" using next_item_keeps(3) [OF assms, of s' pick] n False by simp
        then show ?thesis using exit_ok [OF ok, of w] ok WIdle n None False w by (simp add: worker_step_def)
      next
        case (Some it)
        then show ?thesis using idle_pick_ok [OF assms w WIdle] n False WIdle w by (simp add: worker_step_def)
      qed
    qed
  next
    case (WPicked it)
    obtain s' r where r: "run_enter cfg dayKey (e_readable e) (e_now e) (o_fallback (e_out e)) it s = (s', r)"
      by (cases "run_enter cfg dayKey (e_readable e) (e_now e) (o_fallback (e_out e)) it s")
    note f = run_enter_fields [OF r]
    have "c_workers s' = c_workers (s\<lparr>c_budget := c_budget s'\<rparr>)" using f(2) by (rule arg_cong)
    then have ws: "c_workers s' = c_workers s" by simp
    show ?thesis
    proof (cases r)
      case (Inl res)
      have "spend_ok cfg ((finish it res s')\<lparr>c_workers := (c_workers s)[w := WSent it]\<rparr>)"
        by (rule spend_goto [OF sched_okD(7) [OF assms], where w = w and ph = "WSent it"]) (simp_all add: finish_def f(1))
      then show ?thesis using sent_ok [OF assms w _ _ f(2)] WPicked r Inl w ws
        by (simp add: worker_step_def finish_def)
    next
      case (Inr day)
      show ?thesis using running_ok [OF assms w WPicked f(2,1), of day] f(3) [of day] WPicked r Inr w ws
        by (simp add: worker_step_def)
    qed
  next
    case (WRunning it day)
    obtain s' r where r: "run_leave (e_out e) it day s = (s', r)" by (cases "run_leave (e_out e) it day s")
    note f = run_leave_fields [OF r]
    have "c_workers s' = c_workers (s\<lparr>c_budget := c_budget s'\<rparr>)" using f(1) by (rule arg_cong)
    then have ws: "c_workers s' = c_workers s" by simp
    show ?thesis using sent_ok [OF assms w _ _ f(1) spend_leave [OF assms w WRunning r]] WRunning r w ws
      by (simp add: worker_step_def finish_def)
  next
    case (WSent it)
    then show ?thesis using released_ok [OF assms w WSent] w by (simp add: worker_step_def release_item_def)
  next
    case WExited
    then show ?thesis using assms w by (simp add: worker_step_def)
  qed
qed (use assms in \<open>simp add: worker_step_def\<close>)

lemma sched_step_ok:
  assumes "sched_ok cfg s"
  shows "sched_ok cfg (sched_step cfg dayKey op s)"
proof (cases op)
  case (OpSubmit j)
  then show ?thesis using Submit_ok [OF assms] assms by (auto simp: sched_step_def split: sum.split)
next
  case (OpCancelAll m)
  then show ?thesis using CancelAll_ok [OF assms] by (simp add: sched_step_def)
next
  case OpStart
  then show ?thesis using Run_start_ok [OF assms] assms by (auto simp: sched_step_def split: sum.split)
next
  case OpStop
  then show ?thesis using Run_stop_ok [OF assms] assms by (simp add: sched_step_def)
next
  case (OpAbandon t)
  then show ?thesis using abandon_ok [OF assms] by (simp add: sched_step_def)
next
  case (OpWorker w e)
  then show ?thesis using worker_step_ok [OF assms] by (simp add: sched_step_def)
next
  case (OpStats now)
  have "sched_ok cfg (s\<lparr>c_budget := pruneLocked now (c_budget s)\<rparr>)"
    using assms by (rule same_ok) (simp_all add: pruneLocked_def)
  then show ?thesis by (simp add: sched_step_def OpStats)
qed

interpretation scheduler: machine "\<lambda>_. True" "sched_step cfg dayKey" "sched_ok cfg" for cfg dayKey
  by unfold_locales (rule sched_step_ok)

lemma sched_run_ok: "sched_ok cfg (sched_run cfg dayKey ops)"
  unfolding sched_run_def by (rule scheduler.run_keeps [OF _ new_sched_ok]) (simp add: list_all_iff)

section \<open>Which job is next\<close>

definition eligible :: "sched \<Rightarrow> item \<Rightarrow> bool" where
  "eligible s it \<longleftrightarrow> t_ticket it \<notin> c_gone s \<and> \<not> blocked s it"

lemma scan_queue_find: "fst (snd (scan_queue gone blk q)) = List.find (\<lambda>it. \<not> gone it \<and> \<not> blk it) q"
  by (induction q) (auto split: prod.split)

lemma find_append: "List.find P (xs @ ys) = (case List.find P xs of None \<Rightarrow> List.find P ys | Some x \<Rightarrow> Some x)"
  by (induction xs) auto

lemma scan_queues_find: "fst (snd (scan_queues gone blk qs)) = List.find (\<lambda>it. \<not> gone it \<and> \<not> blk it) (concat qs)"
proof (induction qs)
  case (Cons q qs)
  obtain d p q' where one: "scan_queue gone blk q = (d, p, q')" by (cases "scan_queue gone blk q")
  then have "p = List.find (\<lambda>it. \<not> gone it \<and> \<not> blk it) q" using scan_queue_find [of gone blk q] by simp
  then show ?case using Cons one by (auto simp: find_append split: option.split prod.split)
qed simp

lemma next_item_find:
  assumes "next_item s = (s', pick, False)"
  shows "pick = List.find (eligible s) (waiting s)"
proof -
  obtain d p qs where scan: "scan_queues (\<lambda>it. t_ticket it \<in> c_gone s) (blocked s) (c_queues s) = (d, p, qs)"
    by (cases "scan_queues (\<lambda>it. t_ticket it \<in> c_gone s) (blocked s) (c_queues s)")
  then have "p = pick" using assms by (auto simp: next_item_def Let_def split: if_splits)
  then show ?thesis using scan_queues_find [of "\<lambda>it. t_ticket it \<in> c_gone s" "blocked s" "c_queues s"] scan
    by (simp add: eligible_def [abs_def] waiting_def)
qed

definition before :: "item \<Rightarrow> item \<Rightarrow> bool" where
  "before it jt \<longleftrightarrow> j_priority (t_job it) < j_priority (t_job jt) \<or>
     (j_priority (t_job it) = j_priority (t_job jt) \<and> t_ticket it \<le> t_ticket jt)"

lemma queues_ordered:
  assumes "\<forall>p < length qs. \<forall>it \<in> set (qs ! p). j_priority (t_job it) = int (p + k)"
    "\<forall>q \<in> set qs. sorted (map t_ticket q)"
  shows "sorted_wrt before (concat qs)"
  using assms
proof (induction qs arbitrary: k)
  case (Cons q qs)
  have q: "\<forall>it \<in> set q. j_priority (t_job it) = int k" using Cons.prems(1) by force
  have tl: "\<forall>p < length qs. \<forall>it \<in> set (qs ! p). j_priority (t_job it) = int (p + (k + 1))"
    using Cons.prems(1) by fastforce
  then have "sorted_wrt before (concat qs)" using Cons.IH [of "k + 1"] Cons.prems(2) by simp
  moreover have "sorted_wrt before q"
  proof -
    have "sorted_wrt (\<lambda>a b. t_ticket a \<le> t_ticket b) q" using Cons.prems(2) by (simp add: sorted_map)
    then show ?thesis by (rule sorted_wrt_mono_rel [rotated]) (use q in \<open>auto simp: before_def\<close>)
  qed
  moreover have "before it jt" if "it \<in> set q" "jt \<in> set (concat qs)" for it jt
  proof -
    from that(2) obtain u where "u \<in> set qs" "jt \<in> set u" by auto
    then obtain p where "p < length qs" "jt \<in> set (qs ! p)" unfolding in_set_conv_nth [of u] by blast
    then have "j_priority (t_job jt) = int (p + (k + 1))" using tl by blast
    then show ?thesis using q that(1) by (simp add: before_def)
  qed
  ultimately show ?case by (simp add: sorted_wrt_append)
qed simp

lemma find_sorted:
  "sorted_wrt R xs \<Longrightarrow> List.find P xs = Some x \<Longrightarrow> (\<And>x. R x x) \<Longrightarrow> x \<in> set xs \<and> P x \<and> (\<forall>y \<in> set xs. P y \<longrightarrow> R x y)"
  by (induction xs) (auto split: if_splits)

section \<open>What the scheduler promises\<close>

text \<open>C12. However submissions, cancels and the steps of the workers interleave, at most
  \<open>MaxConcurrentLLM\<close> (at least one) jobs run, two running jobs never belong to the same session, and
  at most one of them is budgeted.\<close>

theorem turns_never_interleave:
  assumes "v < length (c_workers (sched_run cfg dayKey ops))" "w < length (c_workers (sched_run cfg dayKey ops))" "v \<noteq> w"
    "held_of (c_workers (sched_run cfg dayKey ops) ! v) = [it]" "held_of (c_workers (sched_run cfg dayKey ops) ! w) = [jt]"
  shows "int (length (c_workers (sched_run cfg dayKey ops))) \<le> max (MaxConcurrentLLM cfg) 1 \<and>
    (sess it \<noteq> [] \<longrightarrow> sess it \<noteq> sess jt) \<and> \<not> (budgeted it \<and> budgeted jt)"
  using one_each [OF sched_run_ok assms] sched_okD(5) [OF sched_run_ok] by blast

text \<open>C13. No job is lost and none is answered twice: after any run each accepted job is waiting, or in the
  hands of a worker, or has exactly one result, and only one of the three.\<close>

theorem every_job_answered_once:
  "mset (map t_ticket (waiting (sched_run cfg dayKey ops))) + mset (map t_ticket (active (sched_run cfg dayKey ops))) +
     mset (map fst (c_results (sched_run cfg dayKey ops))) = mset [0..<c_next (sched_run cfg dayKey ops)]"
  using sched_okD(3) [OF sched_run_ok, of cfg dayKey ops] by (simp add: tickets_def add.assoc)

text \<open>The day's token budget is overrun by at most one job: when a budgeted job is charged, the day
  stood below \<open>TokensPerDay\<close> before it, whatever ran since its budget check.\<close>

theorem budget_overrun_by_one_job:
  assumes "WRunning it day \<in> set (c_workers (sched_run cfg dayKey ops))" "budgeted it"
    "run_leave out it day (sched_run cfg dayKey ops) = (s', r)" "o_writable out"
  shows "dayTokens (c_budget s') day < TokensPerDay cfg + charge (o_usage out)"
proof -
  let ?s = "sched_run cfg dayKey ops"
  have ok: "spend_ok cfg ?s" by (rule sched_okD(7) [OF sched_run_ok])
  then have "dayTokens (c_budget ?s) day < TokensPerDay cfg" using assms(1,2) by (auto simp: spend_ok_def)
  then show ?thesis
    using run_leave_fields(3) [OF assms(3)] assms(2,4) ok by (simp add: dayTokens_add spend_ok_def)
qed

text \<open>C14. \<open>next\<close> takes the first job that may run: by priority, then by submission, among the waiting jobs
  whose submitter is still there, whose session is free and, for a budgeted one, while no budgeted job
  runs; it takes none only when there is none.\<close>

theorem next_takes_the_first_eligible:
  assumes "next_item (sched_run cfg dayKey ops) = (s', pick, False)"
  shows "case pick of
      None \<Rightarrow> \<forall>jt \<in> set (waiting (sched_run cfg dayKey ops)). \<not> eligible (sched_run cfg dayKey ops) jt
    | Some it \<Rightarrow> it \<in> set (waiting (sched_run cfg dayKey ops)) \<and> eligible (sched_run cfg dayKey ops) it \<and>
        (\<forall>jt \<in> set (waiting (sched_run cfg dayKey ops)). eligible (sched_run cfg dayKey ops) jt \<longrightarrow> before it jt)"
proof -
  let ?s = "sched_run cfg dayKey ops"
  have find: "List.find (eligible ?s) (waiting ?s) = pick" using next_item_find [OF assms] by simp
  have "sorted_wrt before (waiting ?s)"
    using queues_ordered [where k = 0] sched_okD(1) [OF sched_run_ok, of cfg dayKey ops]
    by (auto simp: queues_ok_def waiting_def)
  then show ?thesis
    using find find_sorted [of before "waiting ?s" "eligible ?s"]
    by (cases pick) (auto simp: find_None_iff before_def)
qed

section \<open>Witnesses\<close>

definition sample_job :: "int \<Rightarrow> string \<Rightarrow> bool \<Rightarrow> job" where
  "sample_job p k b = \<lparr>j_kind = TurnUser, j_priority = p, j_session = k, j_deadline = 0, j_budgeted = b,
     j_has_run = True, j_has_fallback = False\<rparr>"

definition sample_out :: run_outcome where
  "sample_out = \<lparr>o_usage = \<lparr>InputTokens = 3, OutputTokens = 4\<rparr>, o_err = None, o_late = False, o_fallback = None,
     o_writable = True\<rparr>"

definition sample_env :: env where
  "sample_env = \<lparr>e_now = 10, e_readable = True, e_done = False, e_out = sample_out\<rparr>"

definition sample_cfg :: cognition_config where
  "sample_cfg = \<lparr>MaxConcurrentLLM = 2, TokensPerDay = 5, WakesPerHour = 1\<rparr>"

definition sample_sops :: "sop list" where
  "sample_sops = [OpSubmit (sample_job 4 ''b'' True), OpSubmit (sample_job 0 ''a'' False), OpStart,
     OpWorker 0 sample_env, OpWorker 1 sample_env, OpWorker 1 sample_env]"

lemmas sched_eval = sched_run_def sched_step_def worker_step_def next_item_def run_enter_def check_budget_def
  pruneLocked_def dayTokens_def Submit_def Run_start_def mark_picked_def blocked_def finish_def new_sched_def
  empty_budget_def numPriorities_def maxQueued_def PriUser_def Let_def

lemma sample_workers:
  "c_workers (sched_run sample_cfg (\<lambda>_. ''d'') sample_sops) =
     [WPicked \<lparr>t_ticket = 1, t_job = sample_job 0 ''a'' False\<rparr>,
      WRunning \<lparr>t_ticket = 0, t_job = sample_job 4 ''b'' True\<rparr> ''d'']"
  by (simp add: sched_eval sample_sops_def sample_cfg_def sample_job_def sample_env_def numeral_eq_Suc)

theorem turns_never_interleave_witness: "sess \<lparr>t_ticket = 1, t_job = sample_job 0 ''a'' False\<rparr> \<noteq> ''b''"
  using turns_never_interleave [of 0 sample_cfg "\<lambda>_. ''d''" sample_sops 1
      "\<lparr>t_ticket = 1, t_job = sample_job 0 ''a'' False\<rparr>" "\<lparr>t_ticket = 0, t_job = sample_job 4 ''b'' True\<rparr>"]
  by (simp add: sample_workers) (simp add: sample_job_def)

theorem budget_overrun_by_one_job_witness:
  "dayTokens (c_budget (fst (run_leave sample_out \<lparr>t_ticket = 0, t_job = sample_job 4 ''b'' True\<rparr> ''d''
     (sched_run sample_cfg (\<lambda>_. ''d'') sample_sops)))) ''d'' < 5 + 7"
  using budget_overrun_by_one_job [of "\<lparr>t_ticket = 0, t_job = sample_job 4 ''b'' True\<rparr>" "''d''" sample_cfg "\<lambda>_. ''d''"
      sample_sops sample_out, OF _ _ prod.collapse [symmetric]]
  by (simp add: sample_workers) (simp add: sample_job_def sample_out_def sample_cfg_def charge_def)

lemma sample_next: "next_item (sched_run sample_cfg (\<lambda>_. ''d'') (take 2 sample_sops)) =
  (fst (next_item (sched_run sample_cfg (\<lambda>_. ''d'') (take 2 sample_sops))),
   Some \<lparr>t_ticket = 1, t_job = sample_job 0 ''a'' False\<rparr>, False)"
  by (simp add: sched_eval sample_sops_def sample_cfg_def sample_job_def sample_env_def numeral_eq_Suc)

theorem next_takes_the_first_eligible_witness:
  "\<lparr>t_ticket = 1, t_job = sample_job 0 ''a'' False\<rparr> \<in> set (waiting (sched_run sample_cfg (\<lambda>_. ''d'') (take 2 sample_sops)))"
  using next_takes_the_first_eligible [OF sample_next] by simp

end
