(* ===== verification/Identity.thy ===== *)
theory Identity
  imports GoBase
begin

text \<open>
  Who the owner is: canonical sender ids \<open>platform:id\<close> (\<open>pkg/identity\<close>), the configured owner route
  (\<open>pkg/config/proactive.go\<close>) and the web launcher chat as a second route
  (\<open>pkg/config/web_owner.go\<close>). The launcher's own gate is an argument.
\<close>

section \<open>Canonical ids\<close>

definition BuildCanonicalID :: "string \<Rightarrow> string \<Rightarrow> string" where
  "BuildCanonicalID platform platformID =
     (let p = to_lower (trim_space platform); i = trim_space platformID
      in if p = [] \<or> i = [] then [] else p @ '':'' @ i)"

definition not_colon :: "char \<Rightarrow> bool" where
  "not_colon c \<longleftrightarrow> c \<noteq> CHR '':''"

definition ParseCanonicalID :: "string \<Rightarrow> (string \<times> string) option" where
  "ParseCanonicalID canonical =
     (let c = trim_space canonical; p = takeWhile not_colon c; rest = dropWhile not_colon c
      in if rest = [] \<or> p = [] \<or> length rest = 1 then None else Some (p, tl rest))"

definition CanonicalSender :: "string \<Rightarrow> string \<Rightarrow> string" where
  "CanonicalSender sender fallbackPlatform =
     (case ParseCanonicalID sender of
        Some (platform, i) \<Rightarrow> BuildCanonicalID platform i
      | None \<Rightarrow> BuildCanonicalID fallbackPlatform sender)"

definition SameSender :: "string \<Rightarrow> string \<Rightarrow> bool" where
  "SameSender a b \<longleftrightarrow> a \<noteq> [] \<and> b \<noteq> [] \<and> equal_fold a b"

definition IsOwner :: "string \<Rightarrow> string \<Rightarrow> string \<Rightarrow> bool" where
  "IsOwner sender fallbackPlatform ownerID \<longleftrightarrow> SameSender (CanonicalSender sender fallbackPlatform) ownerID"

definition WebOwner :: string where
  "WebOwner = ''web''"

definition digit :: "char \<Rightarrow> bool" where
  "digit c \<longleftrightarrow> 48 \<le> (of_char c :: nat) \<and> (of_char c :: nat) \<le> 57"

definition isNumeric :: "string \<Rightarrow> bool" where
  "isNumeric s \<longleftrightarrow> s \<noteq> [] \<and> (\<forall>c \<in> set (if hd s = CHR ''-'' \<and> length s > 1 then tl s else s). digit c)"

record sender_info =
  si_platform :: string
  si_platform_id :: string
  si_canonical :: string
  si_username :: string

definition MatchAllowed :: "sender_info \<Rightarrow> string \<Rightarrow> bool" where
  "MatchAllowed sender allowed0 =
     (let allowed = trim_space allowed0
      in if allowed = [] then False
         else case (case ParseCanonicalID allowed of Some (p, i) \<Rightarrow> if isNumeric p then None else Some (p, i) | None \<Rightarrow> None) of
           Some (platform, i) \<Rightarrow>
             (let candidate = BuildCanonicalID platform i
              in if candidate \<noteq> [] \<and> si_canonical sender \<noteq> [] then equal_fold (si_canonical sender) candidate
                 else equal_fold platform (si_platform sender) \<and> si_platform_id sender = i)
         | None \<Rightarrow>
             (let isAt = has_prefix allowed ''@''; trimmed = (if isAt then tl allowed else allowed);
                  bar = (\<lambda>c. c \<noteq> CHR ''|''); p = takeWhile bar trimmed; rest = dropWhile bar trimmed;
                  (allowedID, allowedUser) = (if rest \<noteq> [] \<and> p \<noteq> [] then (p, tl rest) else (trimmed, []))
              in (si_platform_id sender \<noteq> [] \<and> si_platform_id sender = allowedID) \<or>
                 (isAt \<and> si_username sender \<noteq> [] \<and> si_username sender = trimmed) \<or>
                 (allowedUser \<noteq> [] \<and> si_platform_id sender \<noteq> [] \<and> si_platform_id sender = allowedID) \<or>
                 (allowedUser \<noteq> [] \<and> si_username sender \<noteq> [] \<and> si_username sender = allowedUser)))"

section \<open>The owner of the configuration\<close>

record owner_config =
  oc_channel :: string
  oc_chat_id :: string
  oc_sender_id :: string
  oc_web_is_owner :: "bool option"

record owner_route =
  rt_channel :: string
  rt_chat_id :: string
  rt_sender_id :: string
  rt_peer_id :: string

text \<open>\<open>strconv.ParseInt(s, 10, 64)\<close>.\<close>

definition digits_value :: "string \<Rightarrow> int" where
  "digits_value s = foldl (\<lambda>n c. n * 10 + (of_char c - 48)) 0 s"

definition parse_int64 :: "string \<Rightarrow> int option" where
  "parse_int64 s =
     (let neg = has_prefix s ''-''; ds = (if neg \<or> has_prefix s ''+'' then tl s else s);
          v = (if neg then - digits_value ds else digits_value ds)
      in if ds = [] \<or> \<not> (\<forall>c \<in> set ds. digit c) \<or> v < - (2 ^ 63) \<or> v \<ge> 2 ^ 63 then None else Some v)"

definition normMode :: "string \<Rightarrow> string" where
  "normMode s = to_lower (trim_space s)"

datatype owner_error = NotCanonical | PlatformMismatch | TelegramSender | ChatNotNumeric | ChatNotDirect | ChatZero

definition validateOwner :: "owner_config \<Rightarrow> owner_error list" where
  "validateOwner oc =
     (let channel = normMode (oc_channel oc); chatID = trim_space (oc_chat_id oc); sender = trim_space (oc_sender_id oc);
          parsed = ParseCanonicalID sender;
          senderPlatform = (if sender = [] then [] else case parsed of Some (p, _) \<Rightarrow> to_lower p | None \<Rightarrow> []);
          e1 = (if sender = [] then []
                else case parsed of
                  None \<Rightarrow> [NotCanonical]
                | Some (_, i) \<Rightarrow>
                    (if channel \<noteq> [] \<and> senderPlatform \<noteq> channel then [PlatformMismatch] else []) @
                    (if senderPlatform = ''telegram'' \<and>
                        (case parse_int64 i of None \<Rightarrow> True | Some n \<Rightarrow> n \<le> 0) then [TelegramSender] else []));
          e2 = (if chatID \<noteq> [] \<and> (channel = ''telegram'' \<or> (channel = [] \<and> senderPlatform = ''telegram''))
                then (case parse_int64 chatID of
                        None \<Rightarrow> [ChatNotNumeric]
                      | Some n \<Rightarrow> if n < 0 then [ChatNotDirect] else if n = 0 then [ChatZero] else [])
                else [])
      in e1 @ e2)"

definition OwnerRoute :: "owner_config \<Rightarrow> owner_route option" where
  "OwnerRoute oc =
     (let channel = normMode (oc_channel oc); chatID = trim_space (oc_chat_id oc); sender = trim_space (oc_sender_id oc)
      in if channel = [] \<or> chatID = [] \<or> sender = [] then None
         else if validateOwner oc \<noteq> [] then None
         else case ParseCanonicalID sender of
           None \<Rightarrow> None
         | Some (platform, i) \<Rightarrow>
             Some \<lparr>rt_channel = channel, rt_chat_id = chatID, rt_sender_id = BuildCanonicalID platform i, rt_peer_id = i\<rparr>)"

text \<open>The launcher's gate is None until the gateway arms it; it answers for the gateway's host.\<close>

record owner_env =
  oe_owner :: owner_config
  oe_host :: string
  oe_gate :: "(string \<Rightarrow> bool) option"

definition WebIsOwnerEnabled :: "owner_config \<Rightarrow> bool" where
  "WebIsOwnerEnabled oc = (case oc_web_is_owner oc of None \<Rightarrow> True | Some b \<Rightarrow> b)"

definition WebOwnerActive :: "owner_env \<Rightarrow> bool" where
  "WebOwnerActive c \<longleftrightarrow>
     OwnerRoute (oe_owner c) \<noteq> None \<and> WebIsOwnerEnabled (oe_owner c) \<and>
     (case oe_gate c of None \<Rightarrow> False | Some g \<Rightarrow> g (trim_space (oe_host c)))"

definition IsWebOwnerTurn :: "owner_env \<Rightarrow> string \<Rightarrow> bool \<Rightarrow> bool" where
  "IsWebOwnerTurn c channel authenticated \<longleftrightarrow> authenticated \<and> channel = ''pico'' \<and> WebOwnerActive c"

definition OwnerDecider :: "owner_env \<Rightarrow> string \<Rightarrow> string option" where
  "OwnerDecider c decidedBy =
     (case OwnerRoute (oe_owner c) of
        None \<Rightarrow> None
      | Some route \<Rightarrow> if decidedBy = WebOwner \<and> WebOwnerActive c then Some WebOwner else Some (rt_sender_id route))"

section \<open>Canonical ids are canonical\<close>

lemma lower_char_colon: "lower_char c = CHR '':'' \<longleftrightarrow> c = CHR '':''"
proof
  assume l: "lower_char c = CHR '':''"
  show "c = CHR '':''"
  proof (cases "65 \<le> (of_char c :: nat) \<and> (of_char c :: nat) \<le> 90")
    case True
    then have "(of_char (lower_char c) :: nat) = of_char c + 32"
      by (simp add: lower_char_def of_char_mod_256)
    then show ?thesis using True l by simp
  qed (use l in \<open>simp add: lower_char_def Let_def split: if_splits\<close>)
qed (simp add: lower_char_def)

lemma canonical_has_colon: "CanonicalSender s f = [] \<or> CHR '':'' \<in> set (CanonicalSender s f)"
  by (auto simp: CanonicalSender_def BuildCanonicalID_def Let_def split: option.splits)

lemma equal_fold_colon: "equal_fold a b \<Longrightarrow> CHR '':'' \<in> set a \<Longrightarrow> CHR '':'' \<in> set b"
proof -
  assume "equal_fold a b" and c: "CHR '':'' \<in> set a"
  then have "map lower_char a = map lower_char b" by (simp add: equal_fold_def to_lower_def)
  then have "lower_char ` set a = lower_char ` set b" by (metis list.set_map)
  moreover have "lower_char (CHR '':'') \<in> lower_char ` set a" using c by blast
  ultimately obtain d where "d \<in> set b" "lower_char d = lower_char (CHR '':'')" by auto
  then show "CHR '':'' \<in> set b" using lower_char_colon [of d] lower_char_colon [of "CHR '':''"] by simp
qed

lemma sender_is_never_web: "\<not> SameSender (CanonicalSender s f) WebOwner"
proof
  assume "SameSender (CanonicalSender s f) WebOwner"
  then have "CHR '':'' \<in> set WebOwner"
    using canonical_has_colon [of s f] equal_fold_colon by (auto simp: SameSender_def)
  then show False by (simp add: WebOwner_def)
qed

end
