(* ===== verification/Approval.thy ===== *)
theory Approval
  imports Proactive Utf8 Float64 Identity
begin

text \<open>
  The data of approvals (\<open>pkg/approval/types.go\<close>, \<open>canon.go\<close>, and the parameters of \<open>mandate.go\<close>,
  \<open>memory.go\<close>, \<open>reflection.go\<close>): what a proposal proposes, the rules its parameters obey, its code and
  buttons, and the proof that a stored proposal is exactly what was hashed. The encodings of the
  standard library (JSON, SHA-256, the tables of letters and of time zones) are the record \<open>alib\<close>.
\<close>

section \<open>Kinds, origins and statuses\<close>

datatype kind = KindOrder | KindMandate | KindMemory | KindTriggerParam | KindIntentCleanup | KindMute | KindOther string

datatype origin = OriginOwner | OriginProactive | OriginMandate | OriginSuggestion | OriginReflection | OriginOther string

datatype pstatus = PPending | PApproved | PRejected | PExpired | PExecuting | PExecuted | PFailed | PCancelled

definition Finished :: "pstatus \<Rightarrow> bool" where
  "Finished s \<longleftrightarrow> s \<in> {PRejected, PExpired, PExecuted, PFailed, PCancelled}"

definition IsReflectionKind :: "kind \<Rightarrow> bool" where
  "IsReflectionKind k \<longleftrightarrow> k = KindTriggerParam \<or> k = KindIntentCleanup \<or> k = KindMute"

definition ModeLive :: string where "ModeLive = ''live''"
definition ModePaper :: string where "ModePaper = ''paper''"

section \<open>Parameters\<close>

record order_params =
  op_provider :: string
  op_account :: string
  op_market :: string
  op_symbol :: string
  op_side :: string
  op_type :: string
  op_amount :: f64
  op_price :: "f64 option"
  op_reduce_only :: bool
  op_position_side :: string
  op_margin_mode :: string
  op_ref_price :: f64
  op_notional_usd :: f64
  op_collar_pct :: f64

record mandate_params =
  mp_kind :: string
  mp_plan :: int
  mp_provider :: string
  mp_account :: string
  mp_symbol :: string
  mp_side :: string
  mp_quote :: string
  mp_run_quote :: f64
  mp_period_quote :: f64
  mp_run_usd :: f64
  mp_period_usd :: f64
  mp_rate :: f64
  mp_rate_source :: string
  mp_period :: string
  mp_timezone :: string
  mp_expires :: int

record memory_params =
  me_fact :: string
  me_category :: string
  me_source :: string

record trigger_params =
  tg_spec :: string
  tg_kind :: string
  tg_param :: string
  tg_from :: f64
  tg_to :: f64

record cleanup_params =
  cu_intent :: string
  cu_action :: string
  cu_title :: string

record mute_params =
  mu_prefix :: string
  mu_days :: int

datatype payload = POrder order_params | PMandate mandate_params | PMemory memory_params
  | PTrigger trigger_params | PCleanup cleanup_params | PMute mute_params

text \<open>
  \<open>hashOf\<close> is SHA-256 of the JSON document of kind and parameters; \<open>al_decode\<close> is the strict decoding
  into the type of the kind (no unknown field, nothing after the document).
\<close>

record alib =
  al_hash :: "kind \<Rightarrow> string \<Rightarrow> string"
  al_encode :: "payload \<Rightarrow> string option"
  al_decode :: "kind \<Rightarrow> string \<Rightarrow> payload option"
  al_zone :: "string \<Rightarrow> bool"
  al_letter :: "nat \<Rightarrow> bool" \<comment> \<open>\<open>unicode.IsLetter\<close> or \<open>unicode.IsDigit\<close>\<close>

section \<open>Codes and buttons\<close>

definition codeAlphabet :: string where
  "codeAlphabet = ''ABCDEFGHJKLMNPQRSTUVWXYZ23456789''"

definition CodeLen :: nat where "CodeLen = 4"

definition newCode :: "nat list \<Rightarrow> string" where
  "newCode raw = map (\<lambda>b. codeAlphabet ! (b mod 32)) raw"

definition NormalizeCode :: "string \<Rightarrow> string" where
  "NormalizeCode code = to_upper (trim_bytes code)"

definition ValidCode :: "string \<Rightarrow> bool" where
  "ValidCode s \<longleftrightarrow> length s = CodeLen \<and> (\<forall>c \<in> set s. c \<in> set codeAlphabet)"

definition ButtonPayload :: "string \<Rightarrow> string \<Rightarrow> string" where
  "ButtonPayload code nonce = code @ ''.'' @ nonce"

definition ParseButtonPayload :: "string \<Rightarrow> (string \<times> string) option" where
  "ParseButtonPayload payload =
     (let dot = (\<lambda>c. c \<noteq> CHR ''.''); code = takeWhile dot payload; rest = dropWhile dot payload
      in if rest = [] \<or> \<not> ValidCode code \<or> tl rest = [] then None else Some (code, tl rest))"

section \<open>Validation\<close>

datatype aerr = ErrNotFound | ErrNotOwner | ErrUntrustedOrigin | ErrNotDeliverNow | ErrNotRiskReducing | ErrKilled
  | ErrHourlyLimit | ErrUnavailable | ErrPending "string list" | ErrStatus string pstatus | ErrHashMismatch
  | ErrParams string | ErrUnsupportedKind | ErrRationale | ErrUnknownOrigin | ErrNoMandate | ErrBackend string
  | ErrCodeTaken | ErrBounds bool | ErrNoEngine | ErrNoSink | ErrReflectionDuplicate | ErrModeChanged
  | ErrMemoryDaily | ErrMemoryUnavailable | ErrReflectionUnavailable | ErrMandateTooLong | ErrOneChange | ErrRender
  | ErrNotExitAnyMore | ErrNotApproved pstatus | ErrNotDecidedByOwner | ErrStale | ErrRateLimited | ErrSink

definition finitePositive :: "f64 \<Rightarrow> bool" where
  "finitePositive v \<longleftrightarrow> \<not> is_nan v \<and> \<not> is_inf v \<and> f_lt (Fin 0) v"

definition has_colon :: "string \<Rightarrow> bool" where
  "has_colon s \<longleftrightarrow> CHR '':'' \<in> set s"

text \<open>Each case of the switch in order; the first that holds is the error.\<close>

fun first_problem :: "(bool \<times> string) list \<Rightarrow> aerr + unit" where
  "first_problem [] = Inr ()"
| "first_problem ((bad, m) # ps) = (if bad then Inl (ErrParams m) else first_problem ps)"

definition validateOrderParams :: "order_params \<Rightarrow> aerr + unit" where
  "validateOrderParams p = first_problem
     [(trim_bytes (op_provider p) = [] \<or> trim_bytes (op_symbol p) = [], ''provider and symbol are required''),
      (op_market p \<noteq> ''spot'' \<and> op_market p \<noteq> ''futures'', ''market must be spot or futures''),
      (op_side p \<noteq> ''buy'' \<and> op_side p \<noteq> ''sell'', ''side must be buy or sell''),
      (op_type p \<noteq> ''market'' \<and> op_type p \<noteq> ''limit'', ''type must be market or limit''),
      (\<not> finitePositive (op_amount p), ''amount must be a positive, finite number''),
      (\<not> finitePositive (op_ref_price p), ''reference price must be a positive, finite number''),
      (\<not> finitePositive (op_notional_usd p), ''USD notional must be a positive, finite number''),
      (\<not> finitePositive (op_collar_pct p) \<or> f_lt (Fin 50) (op_collar_pct p),
         ''price collar must be a positive percentage of at most 50''),
      (op_type p = ''limit'' \<and> (case op_price p of None \<Rightarrow> True | Some v \<Rightarrow> \<not> finitePositive v),
         ''a limit order needs a positive, finite price''),
      (op_type p = ''market'' \<and> op_price p \<noteq> None, ''a market order carries no price''),
      (op_market p = ''spot'' \<and> (op_reduce_only p \<or> op_position_side p \<noteq> [] \<or> op_margin_mode p \<noteq> []),
         ''futures-only fields set on a spot order''),
      (op_market p = ''futures'' \<and> \<not> has_colon (op_symbol p), ''a futures symbol is a contract symbol''),
      (op_market p = ''spot'' \<and> has_colon (op_symbol p), ''a contract symbol is not a spot symbol'')]"

definition validateMandateParams :: "alib \<Rightarrow> mandate_params \<Rightarrow> aerr + unit" where
  "validateMandateParams lib m = first_problem
     [(mp_kind m \<noteq> ''dca'', ''mandate kind must be dca''),
      (mp_plan m \<le> 0, ''a mandate belongs to a plan''),
      (trim_bytes (mp_provider m) = [] \<or> trim_bytes (mp_symbol m) = [], ''provider and symbol are required''),
      (mp_side m \<noteq> ''buy'', ''only a buy mandate exists in this change''),
      (trim_bytes (mp_quote m) = [], ''the quote currency is required''),
      (has_colon (mp_symbol m), ''a mandate covers spot symbols''),
      (\<not> finitePositive (mp_run_quote m) \<or> \<not> finitePositive (mp_period_quote m) \<or> \<not> finitePositive (mp_run_usd m) \<or>
         \<not> finitePositive (mp_period_usd m) \<or> \<not> finitePositive (mp_rate m),
         ''every cap and the rate must be a positive, finite number''),
      (f_lt (mp_period_usd m) (mp_run_usd m), ''the per-period cap is smaller than the per-run cap''),
      (mp_period m \<noteq> ''week'' \<and> mp_period m \<noteq> ''month'', ''period must be week or month''),
      (mp_expires m \<le> 0, ''a mandate needs an expiry''),
      (\<not> al_zone lib (mp_timezone m) \<or> mp_timezone m = [], ''the time zone of the owner is unknown'')]"

subsection \<open>Texts\<close>

definition IsHidden :: "nat \<Rightarrow> bool" where
  "IsHidden r \<longleftrightarrow> IsControl r \<or> IsCf r \<or> r = 0x2028 \<or> r = 0x2029"

text \<open>\<open>strings.ToValidUTF8(s, "")\<close>: the runes that decode.\<close>

definition valid_runes :: "string \<Rightarrow> nat list" where
  "valid_runes s = map fst (filter snd (decode_bytes (bytes_of s)))"

definition MaxRationaleRunes :: nat where "MaxRationaleRunes = 300"
definition MaxFactRunes :: nat where "MaxFactRunes = 500"

definition CleanRationale :: "string \<Rightarrow> aerr + string" where
  "CleanRationale s0 =
     (let s = trim_bytes s0
      in if s = [] then Inr []
         else if length (runes s) > MaxRationaleRunes then Inl ErrRationale
         else if \<exists>r \<in> set (runes s). IsHidden r then Inl ErrRationale
         else Inr s)"

text \<open>\<open>strings.ReplaceAll\<close> for a non-empty pattern, on runes.\<close>

fun replace_all :: "nat list \<Rightarrow> nat list \<Rightarrow> nat \<Rightarrow> nat list \<Rightarrow> nat list" where
  "replace_all old new k [] = []"
| "replace_all old new (Suc k) (c # cs) = replace_all old new k cs"
| "replace_all old new 0 (c # cs) =
     (if take (length old) (c # cs) = old then new @ replace_all old new (length old - 1) cs
      else c # replace_all old new 0 cs)"

definition comment_open :: "nat list" where "comment_open = [0x3C, 0x21, 0x2D, 0x2D]"
definition comment_close :: "nat list" where "comment_close = [0x2D, 0x2D, 0x3E]"

definition CleanFact :: "string \<Rightarrow> aerr + string" where
  "CleanFact s =
     (let b = map (\<lambda>r. if IsSpace r then 0x20 else r) (filter (\<lambda>r. IsSpace r \<or> \<not> (IsControl r \<or> IsCf r)) (valid_runes s));
          w = squeeze b;
          w = replace_all comment_open [0x3C, 0x20, 0x21, 0x2D, 0x2D] 0 w;
          w = replace_all comment_close [0x2D, 0x2D, 0x20, 0x3E] 0 w
      in if w = [] then Inl (ErrParams ''the fact is empty'')
         else if length w > MaxFactRunes then Inl (ErrParams ''the fact is too long'')
         else Inr (encode w))"

definition cleanLine :: "string \<Rightarrow> nat \<Rightarrow> string" where
  "cleanLine s mx =
     (let w = squeeze (map (\<lambda>r. if IsHidden r then 0x20 else r) (valid_runes s))
      in if length w > mx then encode (take (mx - 1) w @ [0x2026]) else encode w)"

definition ValidCategory :: "string \<Rightarrow> bool" where
  "ValidCategory c \<longleftrightarrow> c = ''preference'' \<or> c = ''fact'' \<or> c = ''plan_note''"

definition validateMemoryParams :: "memory_params \<Rightarrow> aerr + unit" where
  "validateMemoryParams m = first_problem
     [(CleanFact (me_fact m) \<noteq> Inr (me_fact m), ''the fact is not a clean single line''),
      (\<not> ValidCategory (me_category m), ''category must be preference, fact or plan_note''),
      (trim_bytes (me_source m) = [] \<or> length (me_source m) > 32, ''a memory suggestion names the kind of turn that made it'')]"

definition okToken :: "alib \<Rightarrow> string \<Rightarrow> nat \<Rightarrow> bool" where
  "okToken lib s mx \<longleftrightarrow> s \<noteq> [] \<and> length s \<le> mx \<and>
     (\<forall>r \<in> set (runes s). al_letter lib r \<or> r \<in> {0x5F, 0x2D, 0x2E, 0x3A, 0x2F, 0x40})"

definition validateTrigger :: "alib \<Rightarrow> trigger_params \<Rightarrow> aerr + unit" where
  "validateTrigger lib p = first_problem
     [(\<not> okToken lib (tg_spec p) 64 \<or> \<not> okToken lib (tg_kind p) 48 \<or> \<not> okToken lib (tg_param p) 48,
         ''the trigger, kind and parameter must be plain tokens''),
      (\<not> f_finite (tg_from p) \<or> \<not> f_finite (tg_to p), ''from and to must be finite numbers''),
      (f_eq (tg_from p) (tg_to p), ''the change does not change anything'')]"

definition validateCleanup :: "alib \<Rightarrow> cleanup_params \<Rightarrow> aerr + unit" where
  "validateCleanup lib p = first_problem
     [(\<not> okToken lib (cu_intent p) 64, ''the intent id must be a plain token''),
      (cu_action p \<noteq> ''pause'' \<and> cu_action p \<noteq> ''cancel'', ''action must be pause or cancel''),
      (cleanLine (cu_title p) 60 \<noteq> cu_title p, ''the title is not a clean short line'')]"

definition validateMute :: "alib \<Rightarrow> mute_params \<Rightarrow> aerr + unit" where
  "validateMute lib p = first_problem
     [(\<not> okToken lib (mu_prefix p) 64 \<or> length (mu_prefix p) < 3 \<or> mu_days p < 1 \<or> mu_days p > 30,
         ''a mute needs a prefix of at least 3 plain characters and 1 to 30 days'')]"

fun validate :: "alib \<Rightarrow> payload \<Rightarrow> aerr + unit" where
  "validate lib (POrder p) = validateOrderParams p"
| "validate lib (PMandate m) = validateMandateParams lib m"
| "validate lib (PMemory m) = validateMemoryParams m"
| "validate lib (PTrigger p) = validateTrigger lib p"
| "validate lib (PCleanup p) = validateCleanup lib p"
| "validate lib (PMute p) = validateMute lib p"

fun payload_kind :: "payload \<Rightarrow> kind" where
  "payload_kind (POrder _) = KindOrder"
| "payload_kind (PMandate _) = KindMandate"
| "payload_kind (PMemory _) = KindMemory"
| "payload_kind (PTrigger _) = KindTriggerParam"
| "payload_kind (PCleanup _) = KindIntentCleanup"
| "payload_kind (PMute _) = KindMute"

section \<open>Proposals\<close>

text \<open>A row of the table \<open>proposals\<close>, times in milliseconds.\<close>

record proposal_row =
  p_id :: string
  p_code :: string
  p_nonce :: string
  p_kind :: kind
  p_params :: string
  p_hash :: string
  p_summary :: string
  p_rationale :: string
  p_origin :: origin
  p_mode :: string
  p_reducing :: bool
  p_candidate :: string
  p_intent :: string
  p_intervention :: string
  p_lang :: string
  p_status :: pstatus
  p_created :: int
  p_expires :: int
  p_decided :: "int option"
  p_decided_by :: string
  p_workflow :: string
  p_card_channel :: string
  p_card_chat :: string
  p_card_msgs :: "string list"
  p_outcome :: string
  p_notified :: bool
  p_finished :: "int option"

text \<open>\<open>canonicalOrder\<close>, \<open>canonicalMandate\<close>, \<open>canonicalMemory\<close>, \<open>canonicalReflection\<close>.\<close>

definition canonical :: "alib \<Rightarrow> payload \<Rightarrow> aerr + string" where
  "canonical lib v =
     try_ok (validate lib v) (\<lambda>_. case al_encode lib v of None \<Rightarrow> Inl (ErrParams ''encode params'') | Some b \<Rightarrow> Inr b)"

text \<open>
  \<open>decodeVerified\<close>, \<open>VerifiedMandate\<close>, \<open>VerifiedMemory\<close> and \<open>verifiedReflection\<close>: the same proof for each
  kind, \<open>k\<close> the kind that is asked for.
\<close>

definition verified :: "alib \<Rightarrow> kind \<Rightarrow> proposal_row \<Rightarrow> aerr + payload" where
  "verified lib k p =
     (if p_kind p \<noteq> k then Inl ErrUnsupportedKind
      else if al_hash lib k (p_params p) \<noteq> p_hash p then Inl ErrHashMismatch
      else case al_decode lib k (p_params p) of
             None \<Rightarrow> Inl ErrHashMismatch
           | Some v \<Rightarrow>
               if payload_kind v \<noteq> k \<or> al_encode lib v \<noteq> Some (p_params p) then Inl ErrHashMismatch
               else (case validate lib v of Inl _ \<Rightarrow> Inl ErrHashMismatch | Inr _ \<Rightarrow> Inr v))"

definition decodeVerified :: "alib \<Rightarrow> proposal_row \<Rightarrow> aerr + order_params" where
  "decodeVerified lib p =
     (case verified lib KindOrder p of
        Inl e \<Rightarrow> Inl e
      | Inr (POrder v) \<Rightarrow> Inr v
      | Inr _ \<Rightarrow> Inl ErrHashMismatch)"

definition verifyProposal :: "alib \<Rightarrow> proposal_row \<Rightarrow> aerr + unit" where
  "verifyProposal lib p =
     (if p_kind p = KindMandate \<or> p_kind p = KindMemory \<or> IsReflectionKind (p_kind p)
      then try_ok (verified lib (p_kind p) p) (\<lambda>_. Inr ())
      else try_ok (decodeVerified lib p) (\<lambda>_. Inr ()))"

section \<open>Codes\<close>

lemma newCode_valid: "length raw = CodeLen \<Longrightarrow> ValidCode (newCode raw)"
proof -
  have "length codeAlphabet = 32" by (simp add: codeAlphabet_def)
  then have "codeAlphabet ! (b mod 32) \<in> set codeAlphabet" for b by simp
  then show "length raw = CodeLen \<Longrightarrow> ValidCode (newCode raw)" by (auto simp: ValidCode_def newCode_def)
qed

lemma dot_not_in_alphabet: "CHR ''.'' \<notin> set codeAlphabet"
  by (simp add: codeAlphabet_def)

lemma button_roundtrip:
  assumes "ValidCode code" "nonce \<noteq> []"
  shows "ParseButtonPayload (ButtonPayload code nonce) = Some (code, nonce)"
proof -
  have "\<forall>c \<in> set code. c \<noteq> CHR ''.''" using assms(1) dot_not_in_alphabet by (auto simp: ValidCode_def)
  then show ?thesis using assms by (simp add: ParseButtonPayload_def ButtonPayload_def)
qed

lemma verified_canonical:
  "verified lib k p = Inr v \<Longrightarrow> canonical lib v = Inr (p_params p) \<and> payload_kind v = k \<and> p_kind p = k \<and>
     p_hash p = al_hash lib k (p_params p)"
  by (auto simp: verified_def canonical_def split: if_splits option.splits sum.splits)

end
