(* ===== verification/ApprovalStore.thy ===== *)
theory ApprovalStore
  imports Approval Machine
begin

text \<open>
  The table \<open>proposals\<close> and its statements (\<open>pkg/approval/store.go\<close>). A proposal never changes what it
  proposes: after the insert only status, decider, workflow id, card ids and outcome move, each by a
  conditional update. The step relation \<open>pstep\<close> is the abstract life of a table.
\<close>

section \<open>Bounds per class\<close>

datatype prop_class = classOrder | classMandate | classMemory | classReflection

text \<open>The SQL conditions of \<open>propClass.sql\<close> and the decision of \<open>classOf\<close>.\<close>

definition class_sql :: "prop_class \<Rightarrow> proposal_row \<Rightarrow> bool" where
  "class_sql c p =
     (case c of
        classMandate \<Rightarrow> p_kind p = KindMandate \<or> p_origin p = OriginMandate
      | classMemory \<Rightarrow> p_kind p = KindMemory
      | classReflection \<Rightarrow> p_kind p \<in> {KindTriggerParam, KindIntentCleanup, KindMute}
      | classOrder \<Rightarrow> \<not> (p_kind p \<in> {KindMandate, KindMemory, KindTriggerParam, KindIntentCleanup, KindMute} \<or>
                          p_origin p = OriginMandate))"

definition classOf :: "kind \<Rightarrow> origin \<Rightarrow> prop_class" where
  "classOf k orig =
     (if k = KindMemory then classMemory
      else if IsReflectionKind k then classReflection
      else if k = KindMandate \<or> orig = OriginMandate then classMandate
      else classOrder)"

text \<open>How many may be pending, how many may be created in the window, and the window.\<close>

definition bounds :: "prop_class \<Rightarrow> nat \<times> nat \<times> duration" where
  "bounds c =
     (case c of
        classMandate \<Rightarrow> (8, 30, hour)
      | classMemory \<Rightarrow> (5, 10, 24 * hour)
      | classReflection \<Rightarrow> (5, 10, 24 * hour)
      | classOrder \<Rightarrow> (3, 10, hour))"

type_synonym pdb = "proposal_row list"

definition live_pending :: "int \<Rightarrow> proposal_row \<Rightarrow> bool" where
  "live_pending now_ms p \<longleftrightarrow> p_status p = PPending \<and> p_expires p > now_ms"

section \<open>Statements\<close>

definition insert_proposal :: "proposal_row \<Rightarrow> go_time \<Rightarrow> pdb \<Rightarrow> aerr + pdb" where
  "insert_proposal p now db =
     (let c = classOf (p_kind p) (p_origin p); (maxPending, maxWindow, window) = bounds c;
          pending = sql_count (\<lambda>r. live_pending (unix_ms now) r \<and> class_sql c r) db
      in if pending < maxPending \<and>
            sql_count (\<lambda>r. p_created r > unix_ms (now - window) \<and> class_sql c r) db < maxWindow
         then if p_id p \<in> p_id ` set db \<or> (\<exists>r \<in> set db. p_status r = PPending \<and> p_code r = p_code p)
              then Inl ErrCodeTaken
              else Inr (db @ [p\<lparr>p_status := PPending, p_decided := None, p_decided_by := [], p_workflow := [],
                 p_card_channel := [], p_card_chat := [], p_card_msgs := [], p_outcome := [], p_notified := False,
                 p_finished := None\<rparr>])
         else Inl (ErrBounds (pending < maxPending)))"

definition get_proposal :: "string \<Rightarrow> pdb \<Rightarrow> aerr + proposal_row" where
  "get_proposal i db = (case sql_first (\<lambda>r. p_id r = i) db of None \<Rightarrow> Inl ErrNotFound | Some r \<Rightarrow> Inr r)"

definition pendingByCode :: "string \<Rightarrow> pdb \<Rightarrow> aerr + proposal_row" where
  "pendingByCode code db =
     (case sql_first (\<lambda>r. p_code r = code \<and> p_status r = PPending) db of None \<Rightarrow> Inl ErrNotFound | Some r \<Rightarrow> Inr r)"

definition pendingWithHash :: "string \<Rightarrow> go_time \<Rightarrow> pdb \<Rightarrow> bool" where
  "pendingWithHash h now db \<longleftrightarrow> sql_count (\<lambda>r. p_hash r = h \<and> live_pending (unix_ms now) r) db > 0"

definition pendingCodes :: "go_time \<Rightarrow> prop_class \<Rightarrow> pdb \<Rightarrow> string list" where
  "pendingCodes now c db = map p_code (sort_key p_created (filter (\<lambda>r. live_pending (unix_ms now) r \<and> class_sql c r) db))"

text \<open>\<open>transition\<close>: one conditional update and whether it changed a row.\<close>

definition transition :: "(proposal_row \<Rightarrow> bool) \<Rightarrow> (proposal_row \<Rightarrow> proposal_row) \<Rightarrow> pdb \<Rightarrow> pdb \<times> bool" where
  "transition P f db = (sql_update P f db, sql_count P db = 1)"

definition decide :: "string \<Rightarrow> pstatus \<Rightarrow> string \<Rightarrow> go_time \<Rightarrow> pdb \<Rightarrow> pdb \<times> bool" where
  "decide i to by now db = transition (\<lambda>r. p_id r = i \<and> live_pending (unix_ms now) r)
     (\<lambda>r. r\<lparr>p_status := to, p_decided := Some (unix_ms now), p_decided_by := by,
            p_finished := (if to = PRejected then Some (unix_ms now) else None)\<rparr>) db"

definition expire :: "string \<Rightarrow> go_time \<Rightarrow> pdb \<Rightarrow> pdb \<times> bool" where
  "expire i now db = transition (\<lambda>r. p_id r = i \<and> p_status r = PPending \<and> p_expires r \<le> unix_ms now)
     (\<lambda>r. r\<lparr>p_status := PExpired, p_finished := Some (unix_ms now)\<rparr>) db"

definition cancel_proposal :: "string \<Rightarrow> string \<Rightarrow> go_time \<Rightarrow> pdb \<Rightarrow> pdb \<times> bool" where
  "cancel_proposal i outcome now db = transition (\<lambda>r. p_id r = i \<and> p_status r = PPending)
     (\<lambda>r. r\<lparr>p_status := PCancelled, p_outcome := outcome, p_finished := Some (unix_ms now)\<rparr>) db"

definition markExecuting :: "string \<Rightarrow> string \<Rightarrow> pdb \<Rightarrow> pdb \<times> bool" where
  "markExecuting i wfid db = transition (\<lambda>r. p_id r = i \<and> p_status r = PApproved)
     (\<lambda>r. r\<lparr>p_status := PExecuting, p_workflow := wfid\<rparr>) db"

definition finish_proposal :: "string \<Rightarrow> pstatus \<Rightarrow> string \<Rightarrow> go_time \<Rightarrow> pdb \<Rightarrow> pdb \<times> bool" where
  "finish_proposal i to outcome now db = transition (\<lambda>r. p_id r = i \<and> p_status r = PExecuting)
     (\<lambda>r. r\<lparr>p_status := to, p_outcome := outcome, p_finished := Some (unix_ms now)\<rparr>) db"

definition markNotified :: "string \<Rightarrow> pdb \<Rightarrow> pdb" where
  "markNotified i db = sql_update (\<lambda>r. p_id r = i \<and> \<not> p_notified r) (\<lambda>r. r\<lparr>p_notified := True\<rparr>) db"

definition setCard :: "string \<Rightarrow> string \<Rightarrow> string \<Rightarrow> string list \<Rightarrow> pdb \<Rightarrow> pdb" where
  "setCard i channel chat msgs db = sql_update (\<lambda>r. p_id r = i)
     (\<lambda>r. r\<lparr>p_card_channel := channel, p_card_chat := chat, p_card_msgs := msgs\<rparr>) db"

text \<open>The subquery of the delete has no order; the rows are taken in the order of the table.\<close>

definition pruneProposals :: "go_time \<Rightarrow> nat \<Rightarrow> pdb \<Rightarrow> pdb \<times> nat" where
  "pruneProposals cutoff limit db =
     (let old = take limit (filter (\<lambda>r. case p_finished r of None \<Rightarrow> False | Some t \<Rightarrow> t < unix_ms cutoff) db)
      in (filter (\<lambda>r. p_id r \<notin> p_id ` set old) db, length old))"

section \<open>The life of the table\<close>

text \<open>What a proposal proposes and was stored with; only the rest of a row ever changes.\<close>

definition terms :: "proposal_row \<Rightarrow> (string \<times> string \<times> string \<times> kind \<times> string \<times> string) \<times> (string \<times> string \<times> origin \<times> string \<times> bool)
    \<times> string \<times> string \<times> string \<times> string \<times> int \<times> int" where
  "terms p = ((p_id p, p_code p, p_nonce p, p_kind p, p_params p, p_hash p),
     (p_summary p, p_rationale p, p_origin p, p_mode p, p_reducing p),
     p_candidate p, p_intent p, p_intervention p, p_lang p, p_created p, p_expires p)"

fun may_move :: "pstatus \<Rightarrow> pstatus \<Rightarrow> bool" where
  "may_move PPending t = (t \<in> {PApproved, PRejected, PExpired, PCancelled})"
| "may_move PApproved t = (t = PExecuting)"
| "may_move PExecuting t = (t \<in> {PExecuted, PFailed})"
| "may_move _ _ = False"

text \<open>
  A move of a row: a decision, before its expiry and by an authorised decider, or another allowed move
  that keeps the decision; moves without a change of status keep all of it. \<open>auth\<close> says who may decide.
\<close>

definition row_move :: "(string \<Rightarrow> bool) \<Rightarrow> proposal_row \<Rightarrow> proposal_row \<Rightarrow> bool" where
  "row_move auth r r' \<longleftrightarrow> terms r' = terms r \<and>
     ((p_status r' = p_status r \<and> p_decided r' = p_decided r \<and> p_decided_by r' = p_decided_by r \<and> p_finished r' = p_finished r) \<or>
      (may_move (p_status r) (p_status r') \<and>
       (p_finished r' \<noteq> None \<longleftrightarrow> Finished (p_status r')) \<and>
       (if p_status r' \<in> {PApproved, PRejected}
        then auth (p_decided_by r') \<and> (\<exists>t. p_decided r' = Some t \<and> t < p_expires r)
        else p_decided r' = p_decided r \<and> p_decided_by r' = p_decided_by r)))"

definition pnew :: "proposal_row \<Rightarrow> bool" where
  "pnew p \<longleftrightarrow> p_status p = PPending \<and> p_decided p = None \<and> p_decided_by p = [] \<and> p_finished p = None"

definition prow_ok :: "(string \<Rightarrow> bool) \<Rightarrow> proposal_row \<Rightarrow> bool" where
  "prow_ok auth r \<longleftrightarrow> (p_finished r \<noteq> None \<longleftrightarrow> Finished (p_status r)) \<and>
     (if p_status r \<in> {PPending, PExpired, PCancelled} then p_decided r = None \<and> p_decided_by r = []
      else auth (p_decided_by r) \<and> (\<exists>t. p_decided r = Some t \<and> t < p_expires r))"

definition pdb_ok :: "(string \<Rightarrow> bool) \<Rightarrow> pdb \<Rightarrow> bool" where
  "pdb_ok auth db \<longleftrightarrow> distinct (map p_id db) \<and> (\<forall>r \<in> set db. prow_ok auth r) \<and>
     distinct (map p_code (filter (\<lambda>r. p_status r = PPending) db))"

text \<open>The table moves by inserts, by moves of single rows and by deletes of finished rows.\<close>

inductive pquiet :: "(string \<Rightarrow> bool) \<Rightarrow> pdb \<Rightarrow> pdb \<Rightarrow> bool" for auth where
  moved: "(\<And>r. r \<in> set db \<Longrightarrow> P r \<Longrightarrow> row_move auth r (f r)) \<Longrightarrow> pquiet auth db (sql_update P f db)"
| deleted: "(\<And>r. r \<in> set db \<Longrightarrow> \<not> Q r \<Longrightarrow> p_finished r \<noteq> None) \<Longrightarrow> pquiet auth db (filter Q db)"

inductive pstep :: "(string \<Rightarrow> bool) \<Rightarrow> pdb \<Rightarrow> pdb \<Rightarrow> bool" for auth where
  inserted: "pnew p \<Longrightarrow> p_id p \<notin> p_id ` set db \<Longrightarrow>
     (\<And>r. r \<in> set db \<Longrightarrow> p_status r = PPending \<Longrightarrow> p_code r \<noteq> p_code p) \<Longrightarrow> pstep auth db (db @ [p])"
| quiet: "pquiet auth db db' \<Longrightarrow> pstep auth db db'"

lemma terms_eq: "terms p = terms q \<Longrightarrow> p_id p = p_id q \<and> p_code p = p_code q \<and> p_nonce p = p_nonce q \<and> p_kind p = p_kind q \<and>
  p_params p = p_params q \<and> p_hash p = p_hash q \<and> p_origin p = p_origin q \<and> p_mode p = p_mode q \<and>
  p_reducing p = p_reducing q \<and> p_created p = p_created q \<and> p_expires p = p_expires q"
  by (simp add: terms_def)

lemma row_move_terms: "row_move auth r r' \<Longrightarrow> terms r' = terms r"
  by (simp add: row_move_def)

lemma row_move_ok: "row_move auth r r' \<Longrightarrow> prow_ok auth r \<Longrightarrow> prow_ok auth r'"
proof -
  assume m: "row_move auth r r'" and ok: "prow_ok auth r"
  have e: "p_expires r' = p_expires r" using m terms_eq [of r' r] by (simp add: row_move_def)
  from m have "(p_status r' = p_status r \<and> p_decided r' = p_decided r \<and> p_decided_by r' = p_decided_by r \<and> p_finished r' = p_finished r) \<or>
      (may_move (p_status r) (p_status r') \<and> (p_finished r' \<noteq> None \<longleftrightarrow> Finished (p_status r')) \<and>
       (if p_status r' \<in> {PApproved, PRejected} then auth (p_decided_by r') \<and> (\<exists>t. p_decided r' = Some t \<and> t < p_expires r)
        else p_decided r' = p_decided r \<and> p_decided_by r' = p_decided_by r))"
    unfolding row_move_def by blast
  then show ?thesis
  proof (elim disjE conjE)
    assume "p_status r' = p_status r" "p_decided r' = p_decided r" "p_decided_by r' = p_decided_by r" "p_finished r' = p_finished r"
    then show ?thesis using ok by (simp add: prow_ok_def e)
  next
    assume "may_move (p_status r) (p_status r')" "p_finished r' \<noteq> None \<longleftrightarrow> Finished (p_status r')"
      "if p_status r' \<in> {PApproved, PRejected} then auth (p_decided_by r') \<and> (\<exists>t. p_decided r' = Some t \<and> t < p_expires r)
        else p_decided r' = p_decided r \<and> p_decided_by r' = p_decided_by r"
    then show ?thesis using ok by (cases "p_status r"; cases "p_status r'") (simp_all add: prow_ok_def e)
  qed
qed

lemma row_move_pending: "row_move auth r r' \<Longrightarrow> p_status r' = PPending \<Longrightarrow> p_status r = PPending"
  by (cases "p_status r") (auto simp: row_move_def)

lemma map_update_keeps: "(\<And>r. r \<in> set db \<Longrightarrow> P r \<Longrightarrow> g (f r) = g r) \<Longrightarrow> map g (sql_update P f db) = map g db"
  by (induction db) auto

lemma distinct_filter_map:
  assumes "\<And>r. r \<in> set xs \<Longrightarrow> c (g r) = c r" "\<And>r. r \<in> set xs \<Longrightarrow> A (g r) \<Longrightarrow> A r" "distinct (map c (filter A xs))"
  shows "distinct (map c (filter A (map g xs)))"
proof -
  have "map c (filter A (map g xs)) = map c (filter (\<lambda>r. A (g r)) xs)"
    using assms(1) by (simp add: filter_map o_def)
  also have "filter (\<lambda>r. A (g r)) xs = filter (\<lambda>r. A (g r)) (filter A xs)"
    unfolding filter_filter using assms(2) by (intro filter_cong) auto
  finally show ?thesis using distinct_map_filter [OF assms(3)] by simp
qed

lemma pending_codes_update:
  assumes "\<And>r. r \<in> set db \<Longrightarrow> P r \<Longrightarrow> row_move auth r (f r)" "distinct (map p_code (filter (\<lambda>r. p_status r = PPending) db))"
  shows "distinct (map p_code (filter (\<lambda>r. p_status r = PPending) (sql_update P f db)))"
  unfolding sql_update_def
proof (rule distinct_filter_map)
  show "p_code (if P r then f r else r) = p_code r" if "r \<in> set db" for r
    using assms(1) [OF that] terms_eq [OF row_move_terms, of auth r "f r"] by (cases "P r") simp_all
  show "p_status r = PPending" if "r \<in> set db" "p_status (if P r then f r else r) = PPending" for r
    using assms(1) [OF that(1)] row_move_pending [of auth r "f r"] that(2) by (cases "P r") simp_all
qed (rule assms(2))

lemma pquiet_ok: "pquiet auth db db' \<Longrightarrow> pdb_ok auth db \<Longrightarrow> pdb_ok auth db'"
proof (induction rule: pquiet.induct)
  case (moved db P f)
  have "map p_id (sql_update P f db) = map p_id db"
    by (rule map_update_keeps) (use moved.hyps terms_eq row_move_terms in blast)
  moreover have "prow_ok auth r" if "r \<in> set (sql_update P f db)" for r
    using that
  proof (rule in_sql_updateE)
    fix q assume "q \<in> set db" "P q" "r = f q"
    then show "prow_ok auth r" using moved.prems row_move_ok [OF moved.hyps] by (simp add: pdb_ok_def)
  next
    assume "r \<in> set db"
    then show "prow_ok auth r" using moved.prems by (simp add: pdb_ok_def)
  qed
  moreover have "distinct (map p_code (filter (\<lambda>r. p_status r = PPending) (sql_update P f db)))"
    using pending_codes_update [OF moved.hyps] moved.prems by (simp add: pdb_ok_def)
  ultimately show ?case using moved.prems by (simp add: pdb_ok_def)
next
  case (deleted db Q)
  have "distinct (map p_code (filter (\<lambda>r. p_status r = PPending) (filter Q db)))"
    using deleted.prems distinct_map_filter [of p_code "filter (\<lambda>r. p_status r = PPending) db" Q]
    by (simp add: pdb_ok_def conj_commute)
  then show ?case using deleted.prems by (auto simp: pdb_ok_def distinct_map_filter)
qed

lemma pstep_ok: "pstep auth db db' \<Longrightarrow> pdb_ok auth db \<Longrightarrow> pdb_ok auth db'"
proof (induction rule: pstep.induct)
  case (inserted p db)
  have "p_code p \<notin> p_code ` set (filter (\<lambda>r. p_status r = PPending) db)" using inserted.hyps(3) by force
  then show ?case using inserted.hyps inserted.prems by (simp add: pdb_ok_def pnew_def prow_ok_def Finished_def)
qed (rule pquiet_ok)

section \<open>The statements are moves\<close>

text \<open>Every statement that writes, as a value; what each caller has to see to, \<open>stmt_legal\<close>.\<close>

datatype stmt = QInsert proposal_row go_time | QDecide string bool string go_time | QExpire string go_time
  | QCancel string string go_time | QMarkExecuting string string | QFinish string bool string go_time
  | QMarkNotified string | QSetCard string string string "string list" | QPrune go_time nat

fun run_stmt :: "stmt \<Rightarrow> pdb \<Rightarrow> pdb" where
  "run_stmt (QInsert p now) db = (case insert_proposal p now db of Inl _ \<Rightarrow> db | Inr db' \<Rightarrow> db')"
| "run_stmt (QDecide i approve by now) db = fst (decide i (if approve then PApproved else PRejected) by now db)"
| "run_stmt (QExpire i now) db = fst (expire i now db)"
| "run_stmt (QCancel i outcome now) db = fst (cancel_proposal i outcome now db)"
| "run_stmt (QMarkExecuting i wfid) db = fst (markExecuting i wfid db)"
| "run_stmt (QFinish i done outcome now) db = fst (finish_proposal i (if done then PExecuted else PFailed) outcome now db)"
| "run_stmt (QMarkNotified i) db = markNotified i db"
| "run_stmt (QSetCard i channel chat msgs) db = setCard i channel chat msgs db"
| "run_stmt (QPrune cutoff limit) db = fst (pruneProposals cutoff limit db)"

fun stmt_legal :: "(string \<Rightarrow> bool) \<Rightarrow> stmt \<Rightarrow> bool" where
  "stmt_legal auth (QDecide i approve by now) = auth by"
| "stmt_legal auth _ = True"

lemma insert_steps:
  assumes "insert_proposal p now db = Inr db'"
  shows "pstep auth db db'"
proof -
  let ?p = "p\<lparr>p_status := PPending, p_decided := None, p_decided_by := [], p_workflow := [],
                 p_card_channel := [], p_card_chat := [], p_card_msgs := [], p_outcome := [], p_notified := False,
                 p_finished := None\<rparr>"
  have "db' = db @ [?p]" "p_id p \<notin> p_id ` set db" "\<not> (\<exists>r \<in> set db. p_status r = PPending \<and> p_code r = p_code p)"
    using assms by (auto simp: insert_proposal_def Let_def split: prod.splits if_splits)
  then show ?thesis by (auto intro!: pstep.inserted simp: pnew_def)
qed

lemma transition_steps:
  "(\<And>r. r \<in> set db \<Longrightarrow> P r \<Longrightarrow> row_move auth r (f r)) \<Longrightarrow> pquiet auth db (fst (transition P f db))"
  by (simp add: transition_def pquiet.moved)

lemmas row_move_simps = row_move_def terms_def Finished_def

lemma decide_steps:
  "auth by \<Longrightarrow> to \<in> {PApproved, PRejected} \<Longrightarrow> pquiet auth db (fst (decide i to by now db))"
  unfolding decide_def by (rule transition_steps) (auto simp: row_move_simps live_pending_def)

lemma expire_steps: "pquiet auth db (fst (expire i now db))"
  unfolding expire_def by (rule transition_steps) (auto simp: row_move_simps)

lemma cancel_proposal_steps: "pquiet auth db (fst (cancel_proposal i outcome now db))"
  unfolding cancel_proposal_def by (rule transition_steps) (auto simp: row_move_simps)

lemma markExecuting_steps: "pdb_ok auth db \<Longrightarrow> pquiet auth db (fst (markExecuting i wfid db))"
  unfolding markExecuting_def by (rule transition_steps) (auto simp: row_move_simps pdb_ok_def prow_ok_def)

lemma finish_steps: "to \<in> {PExecuted, PFailed} \<Longrightarrow> pquiet auth db (fst (finish_proposal i to outcome now db))"
  unfolding finish_proposal_def by (rule transition_steps) (auto simp: row_move_simps)

lemma markNotified_steps: "pquiet auth db (markNotified i db)"
  unfolding markNotified_def by (rule pquiet.moved) (simp add: row_move_simps)

lemma setCard_steps: "pquiet auth db (setCard i channel chat msgs db)"
  unfolding setCard_def by (rule pquiet.moved) (simp add: row_move_simps)

lemma prune_steps:
  assumes "pdb_ok auth db"
  shows "pquiet auth db (fst (pruneProposals cutoff limit db))"
proof -
  let ?old = "take limit (filter (\<lambda>r. case p_finished r of None \<Rightarrow> False | Some t \<Rightarrow> t < unix_ms cutoff) db)"
  have old: "q \<in> set db \<and> p_finished q \<noteq> None" if "q \<in> set ?old" for q
    using in_set_takeD [OF that] by (auto split: option.splits)
  have "p_finished r \<noteq> None" if r: "r \<in> set db" and i: "p_id r \<in> p_id ` set ?old" for r
  proof -
    from i obtain q where q: "q \<in> set ?old" "p_id q = p_id r" by auto
    have "q = r" using key_row_unique [of p_id db q r] assms r q old [OF q(1)] by (simp add: pdb_ok_def)
    then show ?thesis using old [OF q(1)] by simp
  qed
  then show ?thesis unfolding pruneProposals_def Let_def fst_conv by (intro pquiet.deleted) blast
qed

lemmas statement_steps = decide_steps expire_steps cancel_proposal_steps markExecuting_steps finish_steps markNotified_steps
  setCard_steps prune_steps

fun is_insert :: "stmt \<Rightarrow> bool" where
  "is_insert (QInsert p now) = True"
| "is_insert _ = False"

lemma stmt_quiet:
  "stmt_legal auth q \<Longrightarrow> pdb_ok auth db \<Longrightarrow> \<not> is_insert q \<Longrightarrow> pquiet auth db (run_stmt q db)"
  by (cases q) (auto intro!: statement_steps)

lemma stmt_steps:
  assumes "stmt_legal auth q" "pdb_ok auth db"
  shows "(pstep auth)\<^sup>*\<^sup>* db (run_stmt q db)"
proof (cases "is_insert q")
  case True
  then obtain p now where "q = QInsert p now" by (cases q) auto
  then show ?thesis by (cases "insert_proposal p now db") (auto intro: insert_steps)
qed (use stmt_quiet [OF assms] in \<open>blast intro: pstep.quiet\<close>)

interpretation table: stepwise "stmt_legal auth" run_stmt "pdb_ok auth" "pstep auth" for auth
  by unfold_locales (use stmt_steps pstep_ok in blast)+

section \<open>The bounds hold\<close>

definition in_bounds :: "go_time \<Rightarrow> pdb \<Rightarrow> bool" where
  "in_bounds now db \<longleftrightarrow> (\<forall>c. let (maxPending, maxWindow, window) = bounds c in
     sql_count (\<lambda>r. live_pending (unix_ms now) r \<and> class_sql c r) db \<le> maxPending \<and>
     sql_count (\<lambda>r. p_created r > unix_ms (now - window) \<and> class_sql c r) db \<le> maxWindow)"

text \<open>What the service sees to when it inserts: the time of creation, and origins that fit the kinds.\<close>

definition insert_fit :: "proposal_row \<Rightarrow> go_time \<Rightarrow> bool" where
  "insert_fit p now \<longleftrightarrow> p_created p = unix_ms now \<and>
     (p_kind p = KindMemory \<or> IsReflectionKind (p_kind p) \<longrightarrow> p_origin p \<noteq> OriginMandate)"

fun insert_time :: "stmt \<Rightarrow> go_time option" where
  "insert_time (QInsert p now) = Some now"
| "insert_time _ = None"

fun timely :: "go_time \<Rightarrow> stmt list \<Rightarrow> bool" where
  "timely t [] = True"
| "timely t (QInsert p now # qs) = (t \<le> now \<and> insert_fit p now \<and> timely now qs)"
| "timely t (q # qs) = timely t qs"

lemma class_of_fit: "insert_fit p now \<Longrightarrow> class_sql c p \<longleftrightarrow> c = classOf (p_kind p) (p_origin p)"
  by (cases c) (auto simp: insert_fit_def class_sql_def classOf_def IsReflectionKind_def)

lemma in_bounds_later:
  assumes "in_bounds t db" "t \<le> t'"
  shows "in_bounds t' db"
proof -
  have "sql_count (\<lambda>r. live_pending (unix_ms t') r \<and> class_sql c r) db \<le> sql_count (\<lambda>r. live_pending (unix_ms t) r \<and> class_sql c r) db"
    and "sql_count (\<lambda>r. p_created r > unix_ms (t' - w) \<and> class_sql c r) db \<le> sql_count (\<lambda>r. p_created r > unix_ms (t - w) \<and> class_sql c r) db"
    for c w
    using unix_ms_mono [OF assms(2)] unix_ms_mono [of "t - w" "t' - w"] assms(2)
    by (auto simp: live_pending_def intro!: sql_count_mono)
  then show ?thesis using assms(1) unfolding in_bounds_def Let_def split_beta by (meson order_trans)
qed

lemma sql_count_filter_le: "sql_count A (filter Q db) \<le> sql_count A db"
  by (induction db) (auto intro: le_SucI)

lemma sql_count_update_le:
  "(\<And>r. r \<in> set db \<Longrightarrow> P r \<Longrightarrow> A (f r) \<Longrightarrow> A r) \<Longrightarrow> sql_count A (sql_update P f db) \<le> sql_count A db"
  by (induction db) (auto intro: le_SucI)

lemma quiet_counts:
  assumes "pquiet auth db db'" "\<And>r r'. row_move auth r r' \<Longrightarrow> A r' \<Longrightarrow> A r"
  shows "sql_count A db' \<le> sql_count A db"
  using assms by (induction rule: pquiet.induct) (auto intro!: sql_count_filter_le sql_count_update_le)

lemma class_move: "row_move auth r r' \<Longrightarrow> class_sql c r' = class_sql c r"
  using terms_eq [OF row_move_terms, of auth r r'] by (cases c) (simp_all add: class_sql_def)

lemma quiet_bounds:
  assumes "pquiet auth db db'" "in_bounds t db"
  shows "in_bounds t db'"
proof -
  have "sql_count (\<lambda>r. live_pending (unix_ms t) r \<and> class_sql c r) db' \<le> sql_count (\<lambda>r. live_pending (unix_ms t) r \<and> class_sql c r) db"
    and "sql_count (\<lambda>r. p_created r > unix_ms (t - w) \<and> class_sql c r) db' \<le> sql_count (\<lambda>r. p_created r > unix_ms (t - w) \<and> class_sql c r) db"
    for c w
    using quiet_counts [OF assms(1)] class_move row_move_pending terms_eq [OF row_move_terms]
    by (metis (mono_tags, lifting) live_pending_def)+
  then show ?thesis using assms(2) unfolding in_bounds_def Let_def split_beta by (meson order_trans)
qed

lemma insert_bounds:
  assumes "in_bounds now db" "insert_fit p now"
  shows "in_bounds now (run_stmt (QInsert p now) db)"
proof (cases "insert_proposal p now db")
  case (Inr db')
  let ?c = "classOf (p_kind p) (p_origin p)"
  obtain mp mw w where b: "bounds ?c = (mp, mw, w)" by (cases "bounds ?c") auto
  obtain q where q: "db' = db @ [q]" "p_kind q = p_kind p" "p_origin q = p_origin p"
    and room: "sql_count (\<lambda>r. live_pending (unix_ms now) r \<and> class_sql ?c r) db < mp"
      "sql_count (\<lambda>r. p_created r > unix_ms (now - w) \<and> class_sql ?c r) db < mw"
    using Inr b by (auto simp: insert_proposal_def Let_def split: if_splits)
  have cls: "class_sql c q \<longleftrightarrow> c = ?c" for c
    using class_of_fit [OF assms(2), of c] q by (cases c) (simp_all add: class_sql_def)
  show ?thesis unfolding in_bounds_def
  proof (intro allI)
    fix c
    show "let (maxPending, maxWindow, window) = bounds c in
      sql_count (\<lambda>r. live_pending (unix_ms now) r \<and> class_sql c r) (run_stmt (QInsert p now) db) \<le> maxPending \<and>
      sql_count (\<lambda>r. p_created r > unix_ms (now - window) \<and> class_sql c r) (run_stmt (QInsert p now) db) \<le> maxWindow"
    proof (cases "c = ?c")
      case True
      then show ?thesis using room by (simp add: Inr q(1) b)
    next
      case False
      then show ?thesis using assms(1) cls [of c] by (simp add: Inr q(1) in_bounds_def Let_def split_beta)
    qed
  qed
qed (simp add: assms)

abbreviation anyone :: "string \<Rightarrow> bool" where
  "anyone \<equiv> \<lambda>_. True"

lemma legal_anyone [simp]: "stmt_legal anyone q"
  by (cases q) simp_all

lemma run_in_bounds:
  "timely t qs \<Longrightarrow> pdb_ok anyone db \<Longrightarrow> in_bounds t db \<Longrightarrow> list_all (\<lambda>q. \<forall>u. insert_time q = Some u \<longrightarrow> u \<le> now) qs \<Longrightarrow> t \<le> now \<Longrightarrow>
   in_bounds now (fold run_stmt qs db)"
proof (induction qs arbitrary: t db)
  case Nil
  then show ?case by (simp add: in_bounds_later)
next
  case (Cons q qs)
  have ok: "pdb_ok anyone (run_stmt q db)" using Cons.prems(2) by (rule table.keeps [rotated]) simp
  show ?case
  proof (cases "is_insert q")
    case True
    then obtain p u where q: "q = QInsert p u" by (cases q) auto
    have "in_bounds u (run_stmt q db)" unfolding q
      by (rule insert_bounds [OF in_bounds_later [OF Cons.prems(3)]]) (use Cons.prems(1) q in simp_all)
    then show ?thesis using Cons.IH [OF _ ok, of u] Cons.prems q by simp
  next
    case False
    have "pquiet anyone db (run_stmt q db)" by (rule stmt_quiet) (use Cons.prems(2) False in simp_all)
    then have "in_bounds t (run_stmt q db)" using Cons.prems(3) by (rule quiet_bounds)
    moreover have "timely t qs" using Cons.prems(1) False by (cases q) simp_all
    ultimately show ?thesis using Cons.IH [OF _ ok, of t] Cons.prems by simp
  qed
qed

section \<open>What the table promises\<close>

text \<open>However the statements of proposers, deciders and sweepers interleave, as long as clocks do not
  run backwards, a class never has more live proposals than its bound, nor more created within its window:
  three and ten an hour for orders, eight and thirty for mandates, five and ten a day for memories and for
  reflections.\<close>

theorem proposal_bounds:
  assumes "timely 0 qs" "\<forall>q \<in> set qs. \<forall>u. insert_time q = Some u \<longrightarrow> u \<le> now" "0 \<le> now"
  shows "sql_count (\<lambda>r. live_pending (unix_ms now) r \<and> class_sql c r) (fold run_stmt qs []) \<le> fst (bounds c) \<and>
    sql_count (\<lambda>r. p_created r > unix_ms (now - snd (snd (bounds c))) \<and> class_sql c r) (fold run_stmt qs []) \<le> fst (snd (bounds c))"
proof -
  have "in_bounds now (fold run_stmt qs [])"
    by (rule run_in_bounds [OF assms(1)])
      (use assms in \<open>simp_all add: pdb_ok_def in_bounds_def Let_def split_beta list_all_iff\<close>)
  then show ?thesis by (simp add: in_bounds_def Let_def split_beta)
qed

section \<open>Witness\<close>

definition card_row :: "string \<Rightarrow> kind \<Rightarrow> go_time \<Rightarrow> proposal_row" where
  "card_row i k t = \<lparr>p_id = i, p_code = i, p_nonce = ''n'', p_kind = k, p_params = ''{}'', p_hash = i, p_summary = [], p_rationale = [],
     p_origin = OriginOwner, p_mode = ''live'', p_reducing = False, p_candidate = [], p_intent = [], p_intervention = [], p_lang = [],
     p_status = PPending, p_created = unix_ms t, p_expires = unix_ms t + 60000, p_decided = None, p_decided_by = [], p_workflow = [],
     p_card_channel = [], p_card_chat = [], p_card_msgs = [], p_outcome = [], p_notified = False, p_finished = None\<rparr>"

definition busy_hour :: "stmt list" where
  "busy_hour = map (\<lambda>(i, t). QInsert (card_row i KindMemory t) t) [(''a'', 10), (''b'', 20), (''c'', 30), (''d'', 40), (''e'', 50), (''f'', 60)]"

theorem proposal_bounds_witness:
  "length (fold run_stmt busy_hour []) = 5 \<and>
   sql_count (\<lambda>r. live_pending (unix_ms 70) r \<and> class_sql classMemory r) (fold run_stmt busy_hour []) \<le> 5"
proof
  show "length (fold run_stmt busy_hour []) = 5" by code_simp
  have "timely 0 busy_hour" by (simp add: busy_hour_def insert_fit_def card_row_def)
  moreover have "\<forall>q \<in> set busy_hour. \<forall>u. insert_time q = Some u \<longrightarrow> u \<le> 70" by (simp add: busy_hour_def)
  ultimately show "sql_count (\<lambda>r. live_pending (unix_ms 70) r \<and> class_sql classMemory r) (fold run_stmt busy_hour []) \<le> 5"
    using proposal_bounds [of busy_hour 70 classMemory] by (simp add: bounds_def)
qed

end
