(* ===== verification/PlaceOrder.thy ===== *)
theory PlaceOrder
  imports Float64 GoBase "HOL-Library.State_Monad"
begin

text \<open>
  Placing an order once (\<open>pkg/providers/broker/idempotent.go\<close>, \<open>orderfail.go\<close>, \<open>clientorder.go\<close>): the
  first attempt places, a retry first looks for what an earlier attempt may have placed and places again
  only where the absence is believed. The exchange behind the adapter is not part of the program: the
  record \<open>venue\<close> holds its calls as state transformers of an unknown world \<open>'w\<close>, and what the theorems
  need of it is a hypothesis. The hash of the client order id is an argument.
\<close>

section \<open>Orders, requests and errors\<close>

record ccxt_order =
  od_id :: "string option"
  od_client :: "string option"
  od_symbol :: "string option"
  od_side :: "string option"
  od_type :: "string option"
  od_status :: "string option"
  od_timestamp :: "int option"
  od_amount :: "f64 option"
  od_price :: "f64 option"
  od_filled :: "f64 option"
  od_remaining :: "f64 option"
  od_average :: "f64 option"
  od_cost :: "f64 option"

record trade =
  td_id :: "string option"
  td_order :: "string option"
  td_symbol :: "string option"
  td_side :: "string option"
  td_timestamp :: "int option"
  td_amount :: "f64 option"
  td_price :: "f64 option"
  td_cost :: "f64 option"

record position =
  po_symbol :: "string option"
  po_side :: "string option"
  po_contracts :: "f64 option"

text \<open>Parameters map a name to a value; the value may be nil.\<close>

record order_req =
  rq_market :: string
  rq_symbol :: string
  rq_type :: string
  rq_side :: string
  rq_amount :: f64
  rq_price :: "f64 option"
  rq_tick :: f64
  rq_reduce_only :: bool
  rq_margin_mode :: string
  rq_position_side :: string
  rq_position_before :: "f64 option"
  rq_params :: "string \<rightharpoonup> string option"

text \<open>The error of a call: a ccxt error in its chain, its text, and the two ends of a context.\<close>

record call_err =
  ce_ccxt :: "string option"
  ce_text :: string
  ce_canceled :: bool
  ce_deadline :: bool
  ce_net :: "bool option" \<comment> \<open>a network error, and whether it timed out\<close>

datatype order_err_kind = ErrOutcomeUnknown | ErrReconcileUnavailable | ErrReconcileAmbiguous | ErrReconcileUnproven
  | ErrInvalidOrderRequest

text \<open>What a placement fails with: an \<open>OrderError\<close>, the exchange's own refusal, a context that had
  ended before anything was sent, or an error of the caller's own.\<close>

datatype place_err = OrderError order_err_kind string nat string | Refusal call_err | NotSent | PaperModeUnsupported
  | OtherError string

definition Retryable :: "place_err \<Rightarrow> bool" where
  "Retryable err = (case err of OrderError k _ _ _ \<Rightarrow> k = ErrOutcomeUnknown \<or> k = ErrReconcileUnavailable | _ \<Rightarrow> False)"

subsection \<open>The exchange's own refusals\<close>

definition ascii_letter :: "char \<Rightarrow> bool" where
  "ascii_letter c \<longleftrightarrow> (let n = (of_char c :: nat) in (97 \<le> n \<and> n \<le> 122) \<or> (65 \<le> n \<and> n \<le> 90))"

definition sanitizeErrType :: "string \<Rightarrow> string option" where
  "sanitizeErrType s = (if s = [] \<or> length s > 40 \<or> \<not> list_all ascii_letter s then None else Some s)"

text \<open>\<open>strings.Index\<close>, as the text after the first occurrence.\<close>

fun after_first :: "string \<Rightarrow> string \<Rightarrow> string option" where
  "after_first pat [] = (if pat = [] then Some [] else None)"
| "after_first pat (c # cs) = (if take (length pat) (c # cs) = pat then Some (drop (length pat) (c # cs)) else after_first pat cs)"

definition ccxtErrorMarker :: string where "ccxtErrorMarker = ''[ccxtError]::[''"

definition CCXTErrorType :: "call_err \<Rightarrow> string option" where
  "CCXTErrorType err =
     (case ce_ccxt err of
        Some t \<Rightarrow> sanitizeErrType t
      | None \<Rightarrow>
          (case after_first ccxtErrorMarker (ce_text err) of
             None \<Rightarrow> None
           | Some rest \<Rightarrow>
               if CHR '']'' \<notin> set rest then None else sanitizeErrType (takeWhile (\<lambda>c. c \<noteq> CHR '']'') rest)))"

definition IsOrderNotFound :: "call_err \<Rightarrow> bool" where
  "IsOrderNotFound err \<longleftrightarrow> CCXTErrorType err = Some ''OrderNotFound''"

definition definiteRejections :: "string list" where
  "definiteRejections = [''InsufficientFunds'', ''InvalidOrder'', ''BadSymbol'', ''BadRequest'', ''PermissionDenied'',
     ''AuthenticationError'', ''AccountSuspended'', ''AccountNotEnabled'', ''ArgumentsRequired'', ''OperationRejected'',
     ''MarketClosed'', ''RestrictedLocation'', ''NotSupported'', ''OrderImmediatelyFillable'', ''OrderNotFillable'',
     ''ContractUnavailable'']"

definition isDefiniteRejection :: "call_err \<Rightarrow> bool" where
  "isDefiniteRejection err \<longleftrightarrow> (case CCXTErrorType err of None \<Rightarrow> False | Some t \<Rightarrow> t \<in> set definiteRejections)"

definition causeLabel :: "call_err \<Rightarrow> string" where
  "causeLabel err =
     (if ce_canceled err then ''context canceled''
      else if ce_deadline err then ''deadline exceeded''
      else case CCXTErrorType err of
        Some t \<Rightarrow> ''ccxt '' @ t
      | None \<Rightarrow> (case ce_net err of
            Some timeout \<Rightarrow> if timeout then ''network timeout'' else ''network error''
          | None \<Rightarrow> ''unclassified error''))"

section \<open>The client order id\<close>

definition OrderMarketSpot :: string where "OrderMarketSpot = ''spot''"
definition OrderMarketFutures :: string where "OrderMarketFutures = ''futures''"
definition MinClientIDLen :: int where "MinClientIDLen = 16"

definition clientIDKeys :: "string list" where
  "clientIDKeys = [''clientOrderId'', ''newClientOrderId'', ''origClientOrderId'', ''clientAlgoId'',
     ''newClientStrategyId'', ''clOrdId'', ''algoClOrdId'', ''client_order_id'']"

definition triggerKeys :: "string list" where
  "triggerKeys = [''stopPrice'', ''triggerPrice'', ''stopLossPrice'', ''takeProfitPrice'', ''trailingPercent'',
     ''trailingTriggerPrice'', ''trailingPrice'', ''callbackRatio'', ''callbackSpread'', ''stop'', ''trigger'',
     ''conditional'', ''stopLoss'', ''takeProfit'', ''tpTriggerPx'', ''slTriggerPx'', ''triggerPx'', ''oco'']"

text \<open>\<open>digest\<close> is the lower-case base32 of SHA-256.\<close>

definition ClientOrderID :: "(string \<Rightarrow> string) \<Rightarrow> string \<Rightarrow> int \<Rightarrow> string" where
  "ClientOrderID digest idemKey maxLen = (if maxLen \<le> 0 then [] else take (nat maxLen) (''kq'' @ digest idemKey))"

definition carries :: "(string \<rightharpoonup> string option) \<Rightarrow> string list \<Rightarrow> bool" where
  "carries params keys \<longleftrightarrow> (\<exists>k \<in> set keys. case params k of Some (Some _) \<Rightarrow> True | _ \<Rightarrow> False)"

section \<open>The adapter\<close>

type_synonym ('w, 'a) call = "'w \<Rightarrow> (call_err + 'a) \<times> 'w"

text \<open>
  What the adapter implements, and its calls. \<open>vn_lookup\<close> is the fetch by client order id, \<open>vn_paged\<close> the
  two listings that say themselves whether they were cut.
\<close>

record 'w venue =
  vn_spot :: bool
  vn_futures :: bool
  vn_simulation :: bool
  vn_id_key :: "string \<Rightarrow> (string \<times> int) option"
  vn_create :: "order_req \<Rightarrow> (string \<rightharpoonup> string option) \<Rightarrow> ('w, ccxt_order) call"
  vn_lookup :: "(string \<Rightarrow> string \<Rightarrow> string \<Rightarrow> ('w, ccxt_order option) call) option"
  vn_open :: "string \<Rightarrow> ('w, ccxt_order list) call"
  vn_closed :: "string \<Rightarrow> int option \<Rightarrow> nat \<Rightarrow> ('w, ccxt_order list) call"
  vn_paged :: "((string \<Rightarrow> ('w, ccxt_order list \<times> bool) call) \<times> (string \<Rightarrow> int option \<Rightarrow> nat \<Rightarrow> ('w, ccxt_order list \<times> bool) call)) option"
  vn_trades :: "string \<Rightarrow> int option \<Rightarrow> nat \<Rightarrow> ('w, trade list) call"
  vn_positions :: "string \<Rightarrow> ('w, position list) call"

text \<open>One call of \<open>PlaceOrderIdempotent\<close>: the clock, the options, and whether the context has ended.\<close>

record place_env =
  pe_now :: go_time
  pe_settle :: duration
  pe_slack :: duration
  pe_limit :: nat
  pe_ended_before :: bool
  pe_ended_after :: bool
  pe_digest :: "string \<Rightarrow> string"

abbreviation reply :: "'a \<Rightarrow> ('w, 'a) state" where "reply \<equiv> State_Monad.return"

definition plainOrder :: "order_req \<Rightarrow> bool" where
  "plainOrder req \<longleftrightarrow> (rq_type req = ''market'' \<or> rq_type req = ''limit'') \<and> \<not> carries (rq_params req) triggerKeys"

definition clientIDSpec :: "'w venue \<Rightarrow> order_req \<Rightarrow> (string \<times> int) option" where
  "clientIDSpec v req =
     (if \<not> plainOrder req then None
      else case vn_id_key v (rq_market req) of
        None \<Rightarrow> None
      | Some (key, maxLen) \<Rightarrow> if key = [] \<or> maxLen < MinClientIDLen then None else Some (key, maxLen))"

text \<open>Is the order placed through the futures side of the adapter?\<close>

definition resolveTarget :: "'w venue \<Rightarrow> order_req \<Rightarrow> place_err + bool" where
  "resolveTarget v req =
     (if rq_market req = OrderMarketFutures then
        if vn_simulation v then Inl PaperModeUnsupported
        else if \<not> vn_futures v then Inl (OrderError ErrInvalidOrderRequest [] 0 ''provider does not trade futures'')
        else Inr True
      else if \<not> vn_spot v then Inl (OrderError ErrInvalidOrderRequest [] 0 ''provider cannot place orders'')
      else Inr False)"

fun first_bad :: "(bool \<times> string) list \<Rightarrow> place_err + unit" where
  "first_bad [] = Inr ()"
| "first_bad ((bad, why) # cs) = (if bad then Inl (OrderError ErrInvalidOrderRequest [] 0 why) else first_bad cs)"

definition positive :: "f64 \<Rightarrow> bool" where
  "positive x \<longleftrightarrow> f_finite x \<and> f_lt (Fin 0) x"

definition validateRequest :: "order_req \<Rightarrow> string \<Rightarrow> int \<Rightarrow> place_err + unit" where
  "validateRequest req idemKey attempt = first_bad
     [(trim_space idemKey = [], ''an idempotency key is required''),
      (attempt < 1, ''attempt must be at least 1''),
      (rq_market req \<noteq> OrderMarketSpot \<and> rq_market req \<noteq> OrderMarketFutures, ''market must be spot or futures''),
      (rq_symbol req = [], ''symbol is required''),
      (rq_side req \<noteq> ''buy'' \<and> rq_side req \<noteq> ''sell'', ''side must be buy or sell''),
      (rq_type req = [], ''order type is required''),
      (\<not> positive (rq_amount req), ''amount must be a positive, finite number''),
      (case rq_price req of None \<Rightarrow> False | Some p \<Rightarrow> \<not> positive p, ''price must be a positive, finite number''),
      (rq_type req = ''limit'' \<and> rq_price req = None, ''a limit order needs a price''),
      (\<not> f_finite (rq_tick req) \<or> f_lt (rq_tick req) (Fin 0), ''price tick must be a finite, non-negative number''),
      (case rq_position_before req of None \<Rightarrow> False | Some b \<Rightarrow> \<not> f_finite b, ''position baseline must be finite''),
      (rq_market req = OrderMarketSpot \<and> (rq_reduce_only req \<or> rq_margin_mode req \<noteq> [] \<or> rq_position_side req \<noteq> [] \<or>
         rq_position_before req \<noteq> None), ''futures-only fields set on a spot order''),
      (carries (rq_params req) clientIDKeys, ''params must not carry a client order ID: it is derived from the idempotency key'')]"

section \<open>Matching\<close>

definition amountTolerance :: f64 where "amountTolerance = f_round (5 / 1000)"
definition priceTolerance :: f64 where "priceTolerance = f_round (1 / 1000)"

definition within_rel :: "f64 \<Rightarrow> f64 \<Rightarrow> f64 \<Rightarrow> bool" where
  "within_rel a b rel \<longleftrightarrow> f_lt (Fin 0) b \<and> f_le (f_abs (f_sub a b)) (f_mul rel b)"

definition windowMs :: "go_time option \<Rightarrow> int" where
  "windowMs windowStart = (case windowStart of None \<Rightarrow> - (2 ^ 63) | Some t \<Rightarrow> unix_ms t)"

definition differs :: "string option \<Rightarrow> string \<Rightarrow> bool" where
  "differs field v = (case field of None \<Rightarrow> False | Some x \<Rightarrow> \<not> equal_fold x v)"

definition disagrees :: "order_req \<Rightarrow> ccxt_order \<Rightarrow> bool" where
  "disagrees req od \<longleftrightarrow> differs (od_symbol od) (rq_symbol req) \<or> differs (od_side od) (rq_side req)"

definition older :: "int option \<Rightarrow> go_time option \<Rightarrow> bool" where
  "older ts windowStart = (case ts of None \<Rightarrow> False | Some t \<Rightarrow> t < windowMs windowStart)"

definition shapeMatches :: "order_req \<Rightarrow> ccxt_order \<Rightarrow> go_time option \<Rightarrow> bool" where
  "shapeMatches req od windowStart \<longleftrightarrow>
     \<not> differs (od_symbol od) (rq_symbol req) \<and> \<not> differs (od_side od) (rq_side req) \<and> \<not> differs (od_type od) (rq_type req) \<and>
     \<not> older (od_timestamp od) windowStart \<and>
     (case od_amount od of None \<Rightarrow> True | Some a \<Rightarrow> within_rel a (rq_amount req) amountTolerance) \<and>
     (case (rq_price req, od_price od) of
        (Some p, Some q) \<Rightarrow> rq_type req = ''limit'' \<longrightarrow>
           \<not> f_lt (f_max (rq_tick req) (f_mul priceTolerance p)) (f_abs (f_sub q p))
      | _ \<Rightarrow> True)"

text \<open>Trades that no listed order accounts for, summed by their order; a trade without one stands alone.\<close>

record tgroup =
  g_key :: "string option"
  g_id :: string
  g_amount :: f64
  g_cost :: f64
  g_ts :: int

definition add_trade :: "trade \<Rightarrow> f64 \<Rightarrow> tgroup \<Rightarrow> tgroup" where
  "add_trade t amount g = g\<lparr>g_amount := f_add (g_amount g) amount,
     g_cost := (case td_cost t of
          Some c \<Rightarrow> f_add (g_cost g) c
        | None \<Rightarrow> (case td_price t of Some p \<Rightarrow> f_add (g_cost g) (f_mul p amount) | None \<Rightarrow> g_cost g)),
     g_ts := (case td_timestamp t of Some ts \<Rightarrow> if ts > g_ts g then ts else g_ts g | None \<Rightarrow> g_ts g)\<rparr>"

definition new_group :: "string option \<Rightarrow> string \<Rightarrow> tgroup" where
  "new_group key i = \<lparr>g_key = key, g_id = i, g_amount = Fin 0, g_cost = Fin 0, g_ts = 0\<rparr>"

definition group_trade :: "order_req \<Rightarrow> string list \<Rightarrow> go_time option \<Rightarrow> trade \<Rightarrow> tgroup list \<Rightarrow> tgroup list" where
  "group_trade req listed windowStart t gs =
     (if differs (td_symbol t) (rq_symbol req) \<or> differs (td_side t) (rq_side req) \<or> older (td_timestamp t) windowStart then gs
      else case td_amount t of
        None \<Rightarrow> gs
      | Some amount \<Rightarrow>
          (case td_order t of
             Some i \<Rightarrow>
               if i = [] then gs @ [add_trade t amount (new_group None (case td_id t of None \<Rightarrow> [] | Some j \<Rightarrow> j))]
               else if i \<in> set listed then gs
               else if \<exists>g \<in> set gs. g_key g = Some i
                 then map (\<lambda>g. if g_key g = Some i then add_trade t amount g else g) gs
               else gs @ [add_trade t amount (new_group (Some i) i)]
           | None \<Rightarrow> gs @ [add_trade t amount (new_group None (case td_id t of None \<Rightarrow> [] | Some j \<Rightarrow> j))]))"

definition group_order :: "order_req \<Rightarrow> tgroup \<Rightarrow> ccxt_order" where
  "group_order req g =
     \<lparr>od_id = Some (g_id g), od_client = None, od_symbol = Some (rq_symbol req), od_side = Some (rq_side req), od_type = None,
      od_status = Some ''closed'', od_timestamp = (if g_ts g > 0 then Some (g_ts g) else None),
      od_amount = Some (g_amount g), od_price = None, od_filled = Some (g_amount g), od_remaining = Some (Fin 0),
      od_average = (if f_lt (Fin 0) (g_cost g) \<and> f_lt (Fin 0) (g_amount g) then Some (f_div (g_cost g) (g_amount g)) else None),
      od_cost = (if f_lt (Fin 0) (g_cost g) \<and> f_lt (Fin 0) (g_amount g) then Some (g_cost g) else None)\<rparr>"

definition tradeMatches :: "order_req \<Rightarrow> ccxt_order list \<Rightarrow> trade list \<Rightarrow> go_time option \<Rightarrow> ccxt_order list" where
  "tradeMatches req orders trades windowStart =
     (let listed = concat (map (\<lambda>od. case od_id od of None \<Rightarrow> [] | Some i \<Rightarrow> [i]) orders);
          groups = fold (group_trade req listed windowStart) trades []
      in map (group_order req) (filter (\<lambda>g. within_rel (g_amount g) (rq_amount req) amountTolerance) groups))"

fun dedupe_from :: "string list \<Rightarrow> ccxt_order list \<Rightarrow> ccxt_order list" where
  "dedupe_from seen [] = []"
| "dedupe_from seen (od # ods) =
     (case od_id od of
        None \<Rightarrow> od # dedupe_from seen ods
      | Some i \<Rightarrow> if i \<in> set seen then dedupe_from seen ods else od # dedupe_from (i # seen) ods)"

definition dedupeOrders :: "ccxt_order list \<Rightarrow> ccxt_order list" where
  "dedupeOrders ods = dedupe_from [] ods"

section \<open>Reconciling\<close>

definition unavailable :: "string \<Rightarrow> string \<Rightarrow> place_err" where
  "unavailable cid why = OrderError ErrReconcileUnavailable cid 0 why"

text \<open>Is an empty answer to be believed yet? The text leaves the two durations out.\<close>

definition settled :: "place_env \<Rightarrow> string \<Rightarrow> go_time option \<Rightarrow> place_err + unit" where
  "settled e cid first =
     (case first of
        None \<Rightarrow> Inl (unavailable cid ''the time the first attempt began is unknown'')
      | Some t \<Rightarrow>
          if pe_now e - t < pe_settle e
          then Inl (unavailable cid ''too little time since the first attempt began before an empty answer is believed'')
          else Inr ())"

record listing =
  ls_orders :: "ccxt_order list"
  ls_trades :: "trade list"
  ls_truncated :: bool

definition open_page :: "'w venue \<Rightarrow> bool \<Rightarrow> string \<Rightarrow> ('w, ccxt_order list \<times> bool) call" where
  "open_page v futures symbol =
     (case (if futures then None else vn_paged v) of
        Some (page, _) \<Rightarrow> page symbol
      | None \<Rightarrow> (\<lambda>w. case vn_open v symbol w of (Inl err, w) \<Rightarrow> (Inl err, w) | (Inr ods, w) \<Rightarrow> (Inr (ods, False), w)))"

definition closed_page :: "'w venue \<Rightarrow> string \<Rightarrow> int option \<Rightarrow> nat \<Rightarrow> ('w, ccxt_order list \<times> bool) call" where
  "closed_page v symbol since limit =
     (case vn_paged v of
        Some (_, page) \<Rightarrow> page symbol since limit
      | None \<Rightarrow> (\<lambda>w. case vn_closed v symbol since limit w of (Inl err, w) \<Rightarrow> (Inl err, w) | (Inr ods, w) \<Rightarrow> (Inr (ods, False), w)))"

text \<open>Open orders first, then closed ones, then (when wanted) the trades.\<close>

definition list_orders :: "'w venue \<Rightarrow> place_env \<Rightarrow> bool \<Rightarrow> order_req \<Rightarrow> go_time option \<Rightarrow> bool \<Rightarrow> ('w, call_err + listing) state" where
  "list_orders v e futures req windowStart wantTrades = do {
     opened \<leftarrow> State (open_page v futures (rq_symbol req));
     case opened of
       Inl err \<Rightarrow> reply (Inl err)
     | Inr (open_ods, short) \<Rightarrow>
         if futures then reply (Inr \<lparr>ls_orders = dedupeOrders open_ods, ls_trades = [], ls_truncated = short\<rparr>)
         else let since = map_option unix_ms windowStart in do {
           closed \<leftarrow> State (closed_page v (rq_symbol req) since (pe_limit e));
           case closed of
             Inl err \<Rightarrow> reply (Inl err)
           | Inr (closed_ods, short') \<Rightarrow>
               let ods = dedupeOrders (open_ods @ closed_ods); full = (short \<or> short' \<or> length closed_ods \<ge> pe_limit e) in
               if \<not> wantTrades then reply (Inr \<lparr>ls_orders = ods, ls_trades = [], ls_truncated = full\<rparr>)
               else do {
                 trades \<leftarrow> State (vn_trades v (rq_symbol req) since (pe_limit e));
                 case trades of
                   Inl err \<Rightarrow> reply (Inl err)
                 | Inr ts \<Rightarrow> reply (Inr \<lparr>ls_orders = ods, ls_trades = ts, ls_truncated = full \<or> length ts \<ge> pe_limit e\<rparr>)
               }
         }
   }"

definition held_contracts :: "order_req \<Rightarrow> position list \<Rightarrow> f64" where
  "held_contracts req ps =
     fold (\<lambda>p total.
        (case (po_symbol p, po_contracts p) of
           (Some s, Some n) \<Rightarrow>
             if \<not> equal_fold s (rq_symbol req) then total
             else if rq_position_side req \<noteq> [] \<and> (case po_side p of None \<Rightarrow> True | Some d \<Rightarrow> \<not> equal_fold d (rq_position_side req))
               then total
             else f_add total (f_abs n)
         | _ \<Rightarrow> total)) ps (Fin 0)"

definition positionMoved :: "'w venue \<Rightarrow> bool \<Rightarrow> order_req \<Rightarrow> ('w, call_err + bool) state" where
  "positionMoved v futures req =
     (case rq_position_before req of
        None \<Rightarrow> reply (Inr False)
      | Some before \<Rightarrow>
          if \<not> futures then reply (Inr False)
          else do {
            ps \<leftarrow> State (vn_positions v (rq_symbol req));
            case ps of
              Inl err \<Rightarrow> reply (Inl err)
            | Inr ps \<Rightarrow> reply (Inr (within_rel (f_abs (f_sub (held_contracts req ps) (f_abs before))) (rq_amount req) amountTolerance))
          })"

text \<open>Nothing matched: what an empty answer is worth.\<close>

definition nothing_matched :: "'w venue \<Rightarrow> place_env \<Rightarrow> bool \<Rightarrow> order_req \<Rightarrow> string \<Rightarrow> go_time option \<Rightarrow> bool
    \<Rightarrow> ('w, place_err + ccxt_order option) state" where
  "nothing_matched v e futures req cid first truncated =
     (if rq_market req = OrderMarketFutures then do {
        moved \<leftarrow> positionMoved v futures req;
        case moved of
          Inl err \<Rightarrow> reply (Inl (unavailable cid (''the position lookup failed ('' @ causeLabel err @ '')'')))
        | Inr True \<Rightarrow> reply (Inl (OrderError ErrReconcileAmbiguous cid 0
            ''no open order matches but the position changed by about the order amount since the first attempt; a person must decide''))
        | Inr False \<Rightarrow> reply (Inl (OrderError ErrReconcileUnproven cid 0
            ''futures have no closed-orders listing here, so the absence of the order cannot be shown; nothing was placed''))
      }
      else if cid = [] then
        (case settled e cid first of
           Inl err \<Rightarrow> reply (Inl err)
         | Inr _ \<Rightarrow> reply (Inl (OrderError ErrReconcileUnproven cid 0
             (if truncated
              then ''no order of this shape was found in a listing that may be truncated; the earlier attempt may or may not have reached the exchange; nothing was placed''
              else ''no order of this shape was found; the earlier attempt may or may not have reached the exchange; nothing was placed''))))
      else if truncated then reply (Inl (unavailable cid ''a listing may be truncated, so the order may be beyond it''))
      else (case settled e cid first of Inl err \<Rightarrow> reply (Inl err) | Inr _ \<Rightarrow> reply (Inr None)))"

definition reconcileByListing :: "'w venue \<Rightarrow> place_env \<Rightarrow> bool \<Rightarrow> order_req \<Rightarrow> string \<Rightarrow> go_time option
    \<Rightarrow> ('w, place_err + ccxt_order option) state" where
  "reconcileByListing v e futures req cid first =
     (let byShape = (cid = []); windowStart = map_option (\<lambda>t. t - pe_slack e) first in
      if windowStart = None \<and> byShape then reply (Inl (OrderError ErrReconcileUnproven cid 0
        ''the time the first attempt began is unknown, so no window can be searched; nothing was placed''))
      else do {
        lst \<leftarrow> list_orders v e futures req windowStart byShape;
        case lst of
          Inl err \<Rightarrow> reply (Inl (unavailable cid (''a listing call failed ('' @ causeLabel err @ '')'')))
        | Inr l \<Rightarrow>
            let matches = filter (\<lambda>od. if byShape then shapeMatches req od windowStart else od_client od = Some cid) (ls_orders l) @
                  (if byShape \<and> ls_trades l \<noteq> [] then tradeMatches req (ls_orders l) (ls_trades l) windowStart else []) in
            (case matches of
               [] \<Rightarrow> nothing_matched v e futures req cid first (ls_truncated l)
             | [od] \<Rightarrow>
                 if \<not> byShape \<and> disagrees req od then reply (Inl (OrderError ErrReconcileAmbiguous cid 1
                   ''an order with this client order ID has a different symbol or side''))
                 else reply (Inr (Some od))
             | _ \<Rightarrow> reply (Inl (OrderError ErrReconcileAmbiguous cid (length matches)
                 ''more than one order matches; a person must decide which, if any, is this order'')))
      })"

definition reconcile :: "'w venue \<Rightarrow> place_env \<Rightarrow> bool \<Rightarrow> order_req \<Rightarrow> string \<Rightarrow> go_time option \<Rightarrow> ('w, place_err + ccxt_order option) state" where
  "reconcile v e futures req cid first =
     (case (if cid = [] then None else vn_lookup v) of
        Some lookup \<Rightarrow> do {
          r \<leftarrow> State (lookup (rq_market req) (rq_symbol req) cid);
          case r of
            Inl err \<Rightarrow> reply (Inl (unavailable cid (''the lookup by client order ID failed ('' @ causeLabel err @ '')'')))
          | Inr (Some od) \<Rightarrow>
              if disagrees req od then reply (Inl (OrderError ErrReconcileAmbiguous cid 1
                ''an order with this client order ID has a different symbol or side''))
              else reply (Inr (Some od))
          | Inr None \<Rightarrow> (case settled e cid first of Inl err \<Rightarrow> reply (Inl err) | Inr _ \<Rightarrow> reply (Inr None))
        }
      | None \<Rightarrow> reconcileByListing v e futures req cid first)"

text \<open>The single lookup after a failed place call: None when it could not be made.\<close>

definition findByClientID :: "'w venue \<Rightarrow> place_env \<Rightarrow> bool \<Rightarrow> order_req \<Rightarrow> string \<Rightarrow> ('w, ccxt_order option option) state" where
  "findByClientID v e futures req cid =
     (case vn_lookup v of
        Some lookup \<Rightarrow> do {
          r \<leftarrow> State (lookup (rq_market req) (rq_symbol req) cid);
          case r of Inl _ \<Rightarrow> reply None | Inr found \<Rightarrow> reply (Some found)
        }
      | None \<Rightarrow> do {
          lst \<leftarrow> list_orders v e futures req None False;
          case lst of
            Inl _ \<Rightarrow> reply None
          | Inr l \<Rightarrow> reply (Some (List.find (\<lambda>od. od_client od = Some cid) (ls_orders l)))
        })"

section \<open>Placing\<close>

datatype place_outcome = OutcomePlaced | OutcomeFoundExisting | OutcomePlacedAfterReconcile

definition afterPlaceError :: "'w venue \<Rightarrow> place_env \<Rightarrow> bool \<Rightarrow> order_req \<Rightarrow> string \<Rightarrow> int \<Rightarrow> call_err
    \<Rightarrow> ('w, place_err + ccxt_order) state" where
  "afterPlaceError v e futures req cid attempt err = do {
     again \<leftarrow> (if cid \<noteq> [] \<and> attempt > 1 then findByClientID v e futures req cid else reply None);
     case again of
       Some (Some od) \<Rightarrow> reply (Inr od)
     | _ \<Rightarrow>
         if pe_ended_after e \<or> ce_canceled err \<or> ce_deadline err
         then reply (Inl (OrderError ErrOutcomeUnknown cid 0
           (''the context ended during the place call; the order may exist ('' @ causeLabel err @ '')'')))
         else if CCXTErrorType err = Some ''DuplicateOrderId'' \<and> cid \<noteq> []
         then reply (Inl (OrderError ErrReconcileAmbiguous cid 0
           ''the exchange reports a duplicate client order ID but no order with it was found''))
         else if isDefiniteRejection err then reply (Inl (Refusal err))
         else reply (Inl (OrderError ErrOutcomeUnknown cid 0
           (''the place call failed and the order may exist ('' @ causeLabel err @ '')'')))
   }"

definition normalise_req :: "order_req \<Rightarrow> order_req" where
  "normalise_req req = req\<lparr>rq_side := to_lower (trim_space (rq_side req)), rq_type := to_lower (trim_space (rq_type req)),
     rq_market := to_lower (trim_space (rq_market req))\<rparr>"

text \<open>The send: what every attempt that gets so far does.\<close>

definition send_order :: "'w venue \<Rightarrow> place_env \<Rightarrow> bool \<Rightarrow> order_req \<Rightarrow> (string \<times> int) option \<Rightarrow> string \<Rightarrow> int
    \<Rightarrow> ('w, place_err + ccxt_order \<times> place_outcome \<times> string) state" where
  "send_order v e futures req spec cid attempt =
     (if pe_ended_before e then reply (Inl NotSent)
      else do {
        r \<leftarrow> State (vn_create v req (case spec of None \<Rightarrow> rq_params req | Some (key, _) \<Rightarrow> (rq_params req)(key \<mapsto> Some cid)));
        case r of
          Inr od \<Rightarrow> reply (Inr (od, (if attempt > 1 then OutcomePlacedAfterReconcile else OutcomePlaced), cid))
        | Inl err \<Rightarrow> do {
            r \<leftarrow> afterPlaceError v e futures req cid attempt err;
            case r of Inr od \<Rightarrow> reply (Inr (od, OutcomeFoundExisting, cid)) | Inl err \<Rightarrow> reply (Inl err)
          }
      })"

definition PlaceOrderIdempotent :: "'w venue \<Rightarrow> place_env \<Rightarrow> order_req \<Rightarrow> string \<Rightarrow> int \<Rightarrow> go_time option
    \<Rightarrow> ('w, place_err + ccxt_order \<times> place_outcome \<times> string) state" where
  "PlaceOrderIdempotent v e req0 idemKey attempt first =
     (let req = normalise_req req0 in
      case validateRequest req idemKey attempt of
        Inl err \<Rightarrow> reply (Inl err)
      | Inr _ \<Rightarrow>
      (case resolveTarget v req of
        Inl err \<Rightarrow> reply (Inl err)
      | Inr futures \<Rightarrow>
        let spec = clientIDSpec v req; cid = (case spec of None \<Rightarrow> [] | Some (_, maxLen) \<Rightarrow> ClientOrderID (pe_digest e) idemKey maxLen) in
        if attempt \<le> 1 then send_order v e futures req spec cid attempt
        else do {
          r \<leftarrow> reconcile v e futures req cid first;
          case r of
            Inl err \<Rightarrow> reply (Inl err)
          | Inr (Some od) \<Rightarrow> reply (Inr (od, OutcomeFoundExisting, cid))
          | Inr None \<Rightarrow> send_order v e futures req spec cid attempt
        }))"

text \<open>\<open>FindOrder\<close>: the same lookup, which never places; the settle delay is zero.\<close>

definition FindOrder :: "'w venue \<Rightarrow> place_env \<Rightarrow> order_req \<Rightarrow> string \<Rightarrow> go_time option \<Rightarrow> ('w, place_err + ccxt_order option) state" where
  "FindOrder v e req0 idemKey first =
     (let req = normalise_req req0 in
      case validateRequest req idemKey 2 of
        Inl err \<Rightarrow> reply (Inl err)
      | Inr _ \<Rightarrow>
      (case resolveTarget v req of
        Inl err \<Rightarrow> reply (Inl err)
      | Inr futures \<Rightarrow>
          reconcile v (e\<lparr>pe_settle := 0\<rparr>) futures req
            (case clientIDSpec v req of None \<Rightarrow> [] | Some (_, maxLen) \<Rightarrow> ClientOrderID (pe_digest e) idemKey maxLen) first))"

section \<open>A retry that cannot tag its order never sends\<close>

text \<open>No lookup asks what a create call would do.\<close>

lemma venue_create:
  "vn_spot (v\<lparr>vn_create := f\<rparr>) = vn_spot v" "vn_futures (v\<lparr>vn_create := f\<rparr>) = vn_futures v"
  "vn_simulation (v\<lparr>vn_create := f\<rparr>) = vn_simulation v" "vn_id_key (v\<lparr>vn_create := f\<rparr>) = vn_id_key v"
  "vn_lookup (v\<lparr>vn_create := f\<rparr>) = vn_lookup v" "vn_open (v\<lparr>vn_create := f\<rparr>) = vn_open v"
  "vn_closed (v\<lparr>vn_create := f\<rparr>) = vn_closed v" "vn_paged (v\<lparr>vn_create := f\<rparr>) = vn_paged v"
  "vn_trades (v\<lparr>vn_create := f\<rparr>) = vn_trades v" "vn_positions (v\<lparr>vn_create := f\<rparr>) = vn_positions v"
  by simp_all

lemma lookups_create:
  "list_orders (v\<lparr>vn_create := f\<rparr>) = list_orders v" "positionMoved (v\<lparr>vn_create := f\<rparr>) = positionMoved v"
  "resolveTarget (v\<lparr>vn_create := f\<rparr>) = resolveTarget v" "clientIDSpec (v\<lparr>vn_create := f\<rparr>) = clientIDSpec v"
  by (intro ext; unfold list_orders_def open_page_def closed_page_def positionMoved_def resolveTarget_def clientIDSpec_def
        venue_create; rule refl)+

lemma reconcile_create: "reconcile (v\<lparr>vn_create := f\<rparr>) = reconcile v"
  by (intro ext; unfold reconcile_def reconcileByListing_def nothing_matched_def lookups_create venue_create; rule refl)

lemma nothing_matched_untagged: "fst (run_state (nothing_matched v e futures req [] first cut_off) w) \<noteq> Inr None"
  by (auto simp: nothing_matched_def split: prod.split sum.split bool.split)

lemma reconcile_untagged: "fst (run_state (reconcile v e futures req [] first) w) \<noteq> Inr None"
proof -
  have "fst (run_state (reconcileByListing v e futures req [] first) w) \<noteq> Inr None"
    unfolding reconcileByListing_def Let_def
    by (auto simp: nothing_matched_untagged split: prod.split sum.split list.split)
  then show ?thesis by (simp add: reconcile_def)
qed

text \<open>On a retry, an order that the adapter cannot tag with a client order id is never sent again: whatever the
  listings say, the answer and the world are the same for every behaviour of the create call, so it is not
  called.\<close>

theorem untagged_retry_never_sends:
  assumes "1 < attempt" "clientIDSpec v (normalise_req req) = None"
  shows "run_state (PlaceOrderIdempotent (v\<lparr>vn_create := f\<rparr>) e req key attempt first) w =
    run_state (PlaceOrderIdempotent v e req key attempt first) w"
proof -
  have "run_state (reconcile v e futures r [] first \<bind> (\<lambda>x. case x of Inl err \<Rightarrow> reply (Inl err)
      | Inr (Some od) \<Rightarrow> reply (Inr (od, OutcomeFoundExisting, [])) | Inr None \<Rightarrow> m)) w =
    run_state (reconcile v e futures r [] first \<bind> (\<lambda>x. case x of Inl err \<Rightarrow> reply (Inl err)
      | Inr (Some od) \<Rightarrow> reply (Inr (od, OutcomeFoundExisting, [])) | Inr None \<Rightarrow> n)) w" for m n futures r
    using reconcile_untagged [of v e futures r first w]
    by (auto split: prod.split sum.split option.split)
  then show ?thesis
    using assms unfolding PlaceOrderIdempotent_def Let_def reconcile_create lookups_create
    by (auto split: sum.split simp del: run_state_bind)
qed

section \<open>At most one order\<close>

text \<open>
  What the exchange promises to a tagged order: a create call accepts the order under its tag or does not,
  lookups change nothing, and from \<open>deadline\<close> on a lookup that says \<open>no such order\<close> is right. \<open>held\<close> is the
  list of the tags of the orders the exchange has accepted, \<open>time\<close> the clock of the world.
\<close>

definition reads_only :: "(string \<Rightarrow> string \<Rightarrow> string \<Rightarrow> ('w, ccxt_order option) call) \<Rightarrow> ('w \<Rightarrow> string list) \<Rightarrow> bool" where
  "reads_only lookup held \<longleftrightarrow> (\<forall>m s c w. held (snd (lookup m s c w)) = held w)"

definition trustworthy ::
  "'w venue \<Rightarrow> (string \<Rightarrow> string \<Rightarrow> string \<Rightarrow> ('w, ccxt_order option) call) \<Rightarrow> ('w \<Rightarrow> string list) \<Rightarrow> ('w \<Rightarrow> go_time) \<Rightarrow> string \<Rightarrow> string \<Rightarrow> go_time \<Rightarrow> bool" where
  "trustworthy v lookup held time key cid deadline \<longleftrightarrow>
     (\<forall>req params w. params key = Some (Some cid) \<longrightarrow>
        held (snd (vn_create v req params w)) = held w \<or> held (snd (vn_create v req params w)) = held w @ [cid]) \<and>
     reads_only lookup held \<and>
     (\<forall>m s w. fst (lookup m s cid w) = Inr None \<longrightarrow> deadline \<le> time w \<longrightarrow> cid \<notin> set (held w))"

text \<open>The attempts of one step, with what else happens in the world before each.\<close>

fun attempts :: "'w venue \<Rightarrow> ('w \<Rightarrow> go_time) \<Rightarrow> order_req \<Rightarrow> string \<Rightarrow> go_time \<Rightarrow> int \<Rightarrow> (('w \<Rightarrow> 'w) \<times> place_env) list \<Rightarrow> 'w \<Rightarrow> 'w" where
  "attempts v time req key first n [] w = w"
| "attempts v time req key first n ((others, e) # as) w =
     (let w = others w
      in attempts v time req key first (n + 1) as
           (snd (run_state (PlaceOrderIdempotent v (e\<lparr>pe_now := time w\<rparr>) req key n (Some first)) w)))"

lemma findByClientID_held:
  assumes "vn_lookup v = Some lookup" "reads_only lookup held"
  shows "held (snd (run_state (findByClientID v e futures req cid) w)) = held w"
proof -
  obtain r w' where lw: "lookup (rq_market req) (rq_symbol req) cid w = (r, w')" by fastforce
  have "held w' = held w" using assms(2) lw unfolding reads_only_def by (metis snd_conv)
  then show ?thesis using lw by (simp add: findByClientID_def assms(1) split: sum.split)
qed

lemma afterPlaceError_held:
  assumes "vn_lookup v = Some lookup" "reads_only lookup held"
  shows "held (snd (run_state (afterPlaceError v e futures req cid attempt err) w)) = held w"
proof (cases "cid \<noteq> [] \<and> attempt > 1")
  case True
  obtain r w' where lw: "run_state (findByClientID v e futures req cid) w = (r, w')" by fastforce
  then have "held w' = held w" using findByClientID_held [OF assms, where e = e and futures = futures and req = req and cid = cid and w = w] by simp
  then show ?thesis using lw True by (simp add: afterPlaceError_def split: option.split)
next
  case False
  then show ?thesis by (simp only: afterPlaceError_def if_False) simp
qed

lemma send_order_held:
  assumes "trustworthy v lookup held time key cid deadline" "vn_lookup v = Some lookup"
  shows "held (snd (run_state (send_order v e futures req (Some (key, n)) cid attempt) w)) \<in> {held w, held w @ [cid]}"
proof -
  let ?p = "(rq_params req)(key \<mapsto> Some cid)"
  obtain r w' where cr: "vn_create v req ?p w = (r, w')" by fastforce
  have "?p key = Some (Some cid)" by simp
  then have c: "held w' \<in> {held w, held w @ [cid]}"
    using assms(1) cr unfolding trustworthy_def by (metis insert_iff snd_conv)
  have l: "reads_only lookup held" using assms(1) by (simp add: trustworthy_def)
  show ?thesis
  proof (cases r)
    case (Inl err)
    obtain q u where au: "run_state (afterPlaceError v e futures req cid attempt err) w' = (q, u)" by fastforce
    then have "held u = held w'" using afterPlaceError_held [OF assms(2) l, where e = e and futures = futures and req = req and cid = cid and w = w' and attempt = attempt and err = err] by simp
    then show ?thesis using c cr Inl au by (simp add: send_order_def split: sum.split)
  next
    case (Inr od)
    then show ?thesis using c cr by (simp add: send_order_def)
  qed
qed

lemma ClientOrderID_nonempty: "MinClientIDLen \<le> n \<Longrightarrow> ClientOrderID d k n \<noteq> []"
  by (simp add: ClientOrderID_def MinClientIDLen_def)

lemma clientIDSpec_len: "clientIDSpec v req = Some (key, n) \<Longrightarrow> MinClientIDLen \<le> n"
  by (auto simp: clientIDSpec_def split: if_splits option.splits)

text \<open>One attempt: it accepts at most one order, and a retry only where none is held.\<close>

lemma attempt_held:
  assumes spec: "clientIDSpec v (normalise_req req) = Some (key, n)" and look: "vn_lookup v = Some lookup"
    and cid: "cid = ClientOrderID (pe_digest e) idemKey n"
    and law: "trustworthy v lookup held time key cid deadline" and deadline: "deadline \<le> first + pe_settle e"
    and now: "pe_now e = time w"
    and start: "count_list (held w) cid \<le> 1" "attempt \<le> 1 \<Longrightarrow> count_list (held w) cid = 0"
  shows "count_list (held (snd (run_state (PlaceOrderIdempotent v e req idemKey attempt (Some first)) w))) cid \<le> 1"
proof -
  let ?r = "normalise_req req"
  have ne: "cid \<noteq> []" using ClientOrderID_nonempty [OF clientIDSpec_len [OF spec]] cid by simp
  have sent: "count_list (held (snd (run_state (send_order v e futures ?r (Some (key, n)) cid attempt) w'))) cid \<le> 1"
    if "count_list (held w') cid = 0" for futures w'
    using send_order_held [OF law look, of e futures ?r n attempt w'] that by auto
  show ?thesis
  proof (cases "validateRequest ?r idemKey attempt")
    case (Inr u)
    show ?thesis
    proof (cases "resolveTarget v ?r")
      case f: (Inr futures)
      show ?thesis
      proof (cases "attempt \<le> 1")
        case True
        then show ?thesis using Inr f spec cid sent [OF start(2)] by (simp add: PlaceOrderIdempotent_def Let_def)
      next
        case False
        obtain r w' where lw: "lookup (rq_market ?r) (rq_symbol ?r) cid w = (r, w')" by fastforce
        have hw: "held w' = held w" using law lw unfolding trustworthy_def reads_only_def by (metis snd_conv)
        have truth: "count_list (held w') cid = 0" if "r = Inr None" "settled e cid (Some first) = Inr ()"
        proof -
          have "deadline \<le> time w" using that(2) deadline now by (auto simp: settled_def split: if_splits)
          then have "cid \<notin> set (held w)" using law lw that(1) unfolding trustworthy_def by (metis fst_conv)
          then show ?thesis by (simp add: hw count_list_0_iff)
        qed
        show ?thesis
          using Inr f spec cid False ne look lw hw truth sent start(1)
          by (auto simp: PlaceOrderIdempotent_def Let_def reconcile_def split: sum.splits option.splits)
      qed
    qed (use Inr start in \<open>simp add: PlaceOrderIdempotent_def Let_def\<close>)
  qed (use start in \<open>simp add: PlaceOrderIdempotent_def Let_def\<close>)
qed


section \<open>Witnesses\<close>

text \<open>An exchange that takes the order and loses the answer; its world is the tags it holds and the clock.\<close>

definition timeout_err :: call_err where
  "timeout_err = \<lparr>ce_ccxt = Some ''RequestTimeout'', ce_text = [], ce_canceled = False, ce_deadline = False, ce_net = None\<rparr>"

definition tagged_order :: "string \<Rightarrow> ccxt_order" where
  "tagged_order cid = \<lparr>od_id = Some ''77'', od_client = Some cid, od_symbol = Some ''BTC/USDT'', od_side = Some ''buy'',
     od_type = Some ''market'', od_status = Some ''closed'', od_timestamp = None, od_amount = None, od_price = None,
     od_filled = None, od_remaining = None, od_average = None, od_cost = None\<rparr>"

definition lossy_lookup :: "string \<Rightarrow> string \<Rightarrow> string \<Rightarrow> (string list \<times> int, ccxt_order option) call" where
  "lossy_lookup m s c = (\<lambda>w. (Inr (if c \<in> set (fst w) then Some (tagged_order c) else None), w))"

definition lossy_venue :: "(string list \<times> int) venue" where
  "lossy_venue = \<lparr>vn_spot = True, vn_futures = False, vn_simulation = False,
     vn_id_key = (\<lambda>m. if m = ''spot'' then Some (''clientOrderId'', 32) else None),
     vn_create = (\<lambda>req params w. (Inl timeout_err, (fst w @ [the (the (params ''clientOrderId''))], snd w + 1))),
     vn_lookup = Some lossy_lookup, vn_open = (\<lambda>s w. (Inr [], w)), vn_closed = (\<lambda>s since l w. (Inr [], w)),
     vn_paged = None, vn_trades = (\<lambda>s since l w. (Inr [], w)), vn_positions = (\<lambda>s w. (Inr [], w))\<rparr>"

definition one_btc :: order_req where
  "one_btc = \<lparr>rq_market = ''spot'', rq_symbol = ''BTC/USDT'', rq_type = ''market'', rq_side = ''buy'', rq_amount = Fin 1,
     rq_price = None, rq_tick = Fin 0, rq_reduce_only = False, rq_margin_mode = [], rq_position_side = [],
     rq_position_before = None, rq_params = Map.empty\<rparr>"

definition quiet_env :: place_env where
  "quiet_env = \<lparr>pe_now = 0, pe_settle = 5 * second, pe_slack = 2 * minute, pe_limit = 100, pe_ended_before = False,
     pe_ended_after = False, pe_digest = (\<lambda>k. ''abcdefghijklmnopqrstuvwxyz234567'')\<rparr>"

definition later :: "int \<Rightarrow> string list \<times> int \<Rightarrow> string list \<times> int" where
  "later d w = (fst w, snd w + d)"

lemma one_btc_spec: "clientIDSpec lossy_venue (normalise_req one_btc) = Some (''clientOrderId'', 32)"
proof -
  have "to_lower (trim_space ''market'') = ''market''" "to_lower (trim_space ''buy'') = ''buy''" "to_lower (trim_space ''spot'') = ''spot''"
    by code_simp+
  then have "normalise_req one_btc = one_btc" by (simp add: normalise_req_def one_btc_def)
  then show ?thesis
    by (simp add: clientIDSpec_def plainOrder_def carries_def one_btc_def lossy_venue_def MinClientIDLen_def)
qed

lemma lossy_trustworthy: "trustworthy lossy_venue lossy_lookup fst snd ''clientOrderId'' cid 0"
  by (auto simp: trustworthy_def reads_only_def lossy_venue_def lossy_lookup_def)


definition untagged_venue :: "(string list \<times> int) venue" where
  "untagged_venue = lossy_venue\<lparr>vn_id_key := (\<lambda>m. None), vn_lookup := None\<rparr>"

theorem untagged_retry_never_sends_witness:
  "run_state (PlaceOrderIdempotent (untagged_venue\<lparr>vn_create := \<lambda>req params w. (Inr (tagged_order []), w)\<rparr>) quiet_env one_btc
      ''wf1:1:place'' 2 (Some 0)) ([], 0) =
   run_state (PlaceOrderIdempotent untagged_venue quiet_env one_btc ''wf1:1:place'' 2 (Some 0)) ([], 0)"
  by (rule untagged_retry_never_sends) (simp_all add: untagged_venue_def clientIDSpec_def)

end
