(* ===== verification/ApprovalService.thy ===== *)
theory ApprovalService
  imports ApprovalStore JournalCtx PlaceOrder "HOL-Library.State_Monad"
begin

text \<open>
  The approval service (\<open>pkg/approval/service.go\<close>, \<open>mandate.go\<close>, \<open>memory.go\<close>, \<open>reflection.go\<close>,
  \<open>stop.go\<close>, \<open>list.go\<close>): who may propose, how a card reaches the owner, the owner's decision, and what an
  approval starts. The state is the table of proposals, the tables of the workflow journal and, in order,
  what the service asked of the outside. Every access to a table is one statement; between two of them
  other callers may do what they like, the argument \<open>v_gap\<close>, so an operation is an interleaving.
\<close>

section \<open>State, environment and statements\<close>

text \<open>The answers of the order backend.\<close>

record rechecked =
  rc_reducing :: bool
  rc_mode :: string
  rc_notional :: f64
  rc_last :: f64
  rc_pnl :: "f64 option"
  rc_position :: f64

record fill =
  fl_known :: bool
  fl_status :: string
  fl_filled :: f64
  fl_avg :: f64
  fl_fee :: f64
  fl_ccy :: string
  fl_done :: bool

record placed =
  pl_order :: string
  pl_client :: string
  pl_status :: string
  pl_outcome :: string
  pl_fill :: fill

text \<open>
  What leaves the service: events, cards, edits of cards, digest entries, calls of the sinks, outcomes told to
  the owner, and the calls of the order backend that do something: a token spent, an order placed (under
  its key, by the attempt, for the proposal), a placement recorded.
\<close>

datatype afx = FxCreated string | FxDecided string pstatus | FxExpired string | FxCard proposal_row
  | FxEdit string string | FxDigest string string string | FxMandate proposal_row | FxMemory proposal_row
  | FxReflect proposal_row | FxOutcome string pstatus string
  | FxThrottle order_params | FxPlace string order_params string nat rechecked | FxRecord order_params rechecked placed fill

record svc =
  sv_table :: pdb
  sv_journal :: jdb
  sv_log :: "afx list"

datatype sink_answer = SinkDone | SinkRefused string | SinkFailed

text \<open>
  The configuration, what is wired (\<open>Options\<close>), and the answers of the outside during one operation: the
  clock by reading, random codes by attempt, the delivery of the card, the digest, the sinks. Paths of
  numbers name the statements and the readings of nested calls.
\<close>

record svc_env =
  v_lib :: alib
  v_owner :: owner_env
  v_minutes :: int
  v_lang :: string
  v_zone :: string
  v_mandates :: bool
  v_memories :: bool
  v_reflections :: bool
  v_digest :: bool
  v_engine :: bool
  v_editor :: bool
  v_defs :: "string \<rightharpoonup> bool"
  v_json_valid :: "string \<Rightarrow> bool"
  v_killed :: bool
  v_clock :: "nat list \<Rightarrow> go_time"
  v_gap :: "nat list \<Rightarrow> svc \<Rightarrow> svc"
  v_codes :: "nat \<Rightarrow> nat list"
  v_card :: "proposal_row \<Rightarrow> string option" \<comment> \<open>the headline of the card; None: the template failed\<close>
  v_thai :: "string \<Rightarrow> string"
  v_delivered :: "(string \<times> string \<times> string list) option" \<comment> \<open>channel, chat, message ids\<close>
  v_queued :: bool
  v_sink :: "proposal_row \<Rightarrow> sink_answer"
  v_add_months :: "go_time \<Rightarrow> go_time" \<comment> \<open>\<open>AddDate(0, MaxMandateMonths, 1)\<close>\<close>
  b_recheck :: "order_params \<Rightarrow> aerr + rechecked"
  b_throttle :: "order_params \<Rightarrow> bool"
  b_place :: "order_params \<Rightarrow> string \<Rightarrow> nat \<Rightarrow> rechecked \<Rightarrow> place_err + placed"
  b_fetch :: "nat \<Rightarrow> fill option"
  b_text :: "place_err \<Rightarrow> string"
  v_polls :: nat
  v_told :: bool \<comment> \<open>the outcome message was delivered\<close>
  v_describe :: "payload \<Rightarrow> string" \<comment> \<open>the sentence of \<open>DescribeReflection\<close>\<close>

definition sub :: "nat \<Rightarrow> svc_env \<Rightarrow> svc_env" where
  "sub k e = e\<lparr>v_clock := \<lambda>p. v_clock e (k # p), v_gap := \<lambda>p. v_gap e (k # p)\<rparr>"

abbreviation now_at :: "svc_env \<Rightarrow> nat \<Rightarrow> go_time" where
  "now_at e k \<equiv> v_clock e [k]"

text \<open>The \<open>k\<close>-th statement of an operation: whatever others did before it, then the statement.\<close>

definition sql :: "svc_env \<Rightarrow> nat \<Rightarrow> (pdb \<Rightarrow> pdb \<times> 'a) \<Rightarrow> (svc, 'a) state" where
  "sql e k f = State (\<lambda>s0. let s = v_gap e [k] s0; (db, x) = f (sv_table s) in (x, s\<lparr>sv_table := db\<rparr>))"

definition query :: "svc_env \<Rightarrow> nat \<Rightarrow> (pdb \<Rightarrow> 'a) \<Rightarrow> (svc, 'a) state" where
  "query e k f = State (\<lambda>s0. let s = v_gap e [k] s0 in (f (sv_table s), s))"

definition journal_query :: "svc_env \<Rightarrow> nat \<Rightarrow> (jdb \<Rightarrow> 'a) \<Rightarrow> (svc, 'a) state" where
  "journal_query e k f = State (\<lambda>s0. let s = v_gap e [k] s0 in (f (sv_journal s), s))"

definition start_workflow :: "svc_env \<Rightarrow> nat \<Rightarrow> string \<Rightarrow> string \<Rightarrow> string \<Rightarrow> (svc, jerr + bool) state" where
  "start_workflow e k kd wid input = State (\<lambda>s0. let s = v_gap e [k] s0 in
     case StartWithID (v_json_valid e) (v_defs e) kd wid input (now_at e k) (sv_journal s) of
       Inl err \<Rightarrow> (Inl err, s)
     | Inr (j, created) \<Rightarrow> (Inr created, s\<lparr>sv_journal := j\<rparr>))"

definition tell :: "afx \<Rightarrow> (svc, unit) state" where
  "tell x = State (\<lambda>s. ((), s\<lparr>sv_log := sv_log s @ [x]\<rparr>))"

abbreviation ret :: "'a \<Rightarrow> (svc, 'a) state" where "ret \<equiv> State_Monad.return"

definition owner :: "owner_env \<Rightarrow> string option" where
  "owner c = map_option rt_sender_id (OwnerRoute (oe_owner c))"

definition expiry_of :: "svc_env \<Rightarrow> duration" where
  "expiry_of e = (if v_minutes e > 0 then v_minutes e * minute else 10 * minute)"

definition langOf :: "string \<Rightarrow> string" where
  "langOf l = (if l = ''en'' \<or> l = ''th'' then l else ''en'')"

section \<open>Cards\<close>

definition OutcomeText :: "(string \<Rightarrow> string) \<Rightarrow> string \<Rightarrow> pstatus \<Rightarrow> string" where
  "OutcomeText thai lang s =
     (let w = (\<lambda>key en. if langOf lang = ''th'' then thai key else en)
      in case s of
        PApproved \<Rightarrow> w ''approved'' ''APPROVED - the order is being checked and placed.''
      | PExecuting \<Rightarrow> w ''approved'' ''APPROVED - the order is being checked and placed.''
      | PRejected \<Rightarrow> w ''rejected'' ''REJECTED - nothing was placed.''
      | PExpired \<Rightarrow> w ''expired'' ''EXPIRED - nothing was placed.''
      | PCancelled \<Rightarrow> w ''cancelled'' ''CANCELLED - nothing was placed.''
      | _ \<Rightarrow> [])"

text \<open>\<open>editCard\<close>: the card of a suggestion is part of a digest, and a row that fails its proof gets no card.\<close>

definition editCard :: "svc_env \<Rightarrow> proposal_row \<Rightarrow> string \<Rightarrow> (svc, unit) state" where
  "editCard e p outcome =
     (if \<not> v_editor e \<or> p_card_msgs p = [] then ret ()
      else if p_kind p = KindMemory \<or> IsReflectionKind (p_kind p) then ret ()
      else case verified (v_lib e) (if p_kind p = KindMandate then KindMandate else KindOrder) p of
        Inl _ \<Rightarrow> ret ()
      | Inr _ \<Rightarrow> if p_kind p \<noteq> KindMandate \<and> v_card e p = None then ret () else tell (FxEdit (p_id p) outcome))"

text \<open>A card that did not reach the owner gives its slot back.\<close>

definition deliverCard :: "svc_env \<Rightarrow> proposal_row \<Rightarrow> (svc, aerr + proposal_row) state" where
  "deliverCard e p = do {
     tell (FxCard p);
     case v_delivered e of
       None \<Rightarrow> do {
         _ \<leftarrow> sql e 0 (cancel_proposal (p_id p) ''card not delivered'' (now_at e 0));
         ret (Inl ErrUnavailable)
       }
     | Some (channel, chat, ids) \<Rightarrow> do {
         sql e 1 (\<lambda>db. (setCard (p_id p) channel chat ids db, ()));
         ret (Inr (p\<lparr>p_card_channel := channel, p_card_chat := chat, p_card_msgs := ids\<rparr>))
       }
   }"

section \<open>Proposing\<close>

text \<open>
  The loop over random codes: twelve more attempts when another pending proposal holds the code. \<open>summary\<close>
  gives the headline for a code, an error when the card cannot be rendered.
\<close>

definition maxCodeAttempts :: nat where "maxCodeAttempts = 12"

definition insert_stmt :: "proposal_row \<Rightarrow> go_time \<Rightarrow> pdb \<Rightarrow> pdb \<times> (aerr + unit)" where
  "insert_stmt p now db = (case insert_proposal p now db of Inl err \<Rightarrow> (db, Inl err) | Inr db' \<Rightarrow> (db', Inr ()))"

fun insert_coded :: "nat \<Rightarrow> nat \<Rightarrow> svc_env \<Rightarrow> (proposal_row \<Rightarrow> aerr + string) \<Rightarrow> proposal_row \<Rightarrow> go_time
    \<Rightarrow> (svc, aerr + proposal_row) state" where
  "insert_coded left k e summary p now =
     (let p = p\<lparr>p_code := newCode (v_codes e k)\<rparr>
      in case summary p of
           Inl err \<Rightarrow> ret (Inl err)
         | Inr headline \<Rightarrow> (let p = p\<lparr>p_summary := headline\<rparr> in do {
             r \<leftarrow> sql e k (insert_stmt p now);
             case r of
               Inr _ \<Rightarrow> ret (Inr p)
             | Inl err \<Rightarrow>
                 (case left of
                    Suc m \<Rightarrow> if err = ErrCodeTaken then insert_coded m (Suc k) e summary p now else ret (Inl err)
                  | 0 \<Rightarrow> ret (Inl err))
           }))"

declare insert_coded.simps [simp del]

text \<open>What a refused insert says: the rate bound its own error, the pending bound the codes that wait.\<close>

definition explain_bounds :: "svc_env \<Rightarrow> prop_class \<Rightarrow> go_time \<Rightarrow> aerr \<Rightarrow> aerr \<Rightarrow> (svc, aerr) state" where
  "explain_bounds e c now limit_err err =
     (case err of
        ErrBounds hourly \<Rightarrow> if hourly then ret limit_err else do {
          codes \<leftarrow> query e 100 (pendingCodes now c);
          ret (ErrPending codes)
        }
      | _ \<Rightarrow> ret err)"

definition new_proposal :: "svc_env \<Rightarrow> string \<Rightarrow> string \<Rightarrow> kind \<Rightarrow> string \<Rightarrow> origin \<Rightarrow> go_time \<Rightarrow> duration \<Rightarrow> proposal_row" where
  "new_proposal e i nonce k params orig now life =
     \<lparr>p_id = i, p_code = [], p_nonce = nonce, p_kind = k, p_params = params, p_hash = al_hash (v_lib e) k params,
      p_summary = [], p_rationale = [], p_origin = orig, p_mode = ModeLive, p_reducing = False,
      p_candidate = [], p_intent = [], p_intervention = [], p_lang = langOf (v_lang e), p_status = PPending,
      p_created = unix_ms now, p_expires = unix_ms (now + life), p_decided = None, p_decided_by = [], p_workflow = [],
      p_card_channel = [], p_card_chat = [], p_card_msgs = [], p_outcome = [], p_notified = False, p_finished = None\<rparr>"

record prepared =
  pr_params :: order_params
  pr_reducing :: bool
  pr_mode :: string

record propose_request =
  rq_rationale :: string
  rq_origin :: origin
  rq_trust :: trust
  rq_deliver_now :: bool
  rq_candidate :: string
  rq_intervention :: string
  rq_mandate :: string
  rq_expiry :: duration

definition minProactiveTrust :: trust where "minProactiveTrust = TrustExchange"

text \<open>Gate A: who may propose.\<close>

definition may_propose :: "propose_request \<Rightarrow> aerr + unit" where
  "may_propose r =
     (case rq_origin r of
        OriginOwner \<Rightarrow> Inr ()
      | OriginProactive \<Rightarrow>
          if rq_trust r < minProactiveTrust then Inl ErrUntrustedOrigin
          else if \<not> rq_deliver_now r \<or> rq_candidate r = [] then Inl ErrNotDeliverNow else Inr ()
      | OriginMandate \<Rightarrow> if rq_mandate r = [] then Inl ErrNoMandate else Inr ()
      | _ \<Rightarrow> Inl ErrUnknownOrigin)"

text \<open>
  The end of every proposal: the insert, and the announcement. An order or a mandate goes to the owner as a
  card; a suggestion is queued for the digest, and gives its slot back when it was not.
\<close>

definition insert_and_deliver :: "svc_env \<Rightarrow> prop_class \<Rightarrow> (proposal_row \<Rightarrow> aerr + string) \<Rightarrow> proposal_row \<Rightarrow> go_time
    \<Rightarrow> (svc, aerr + proposal_row) state" where
  "insert_and_deliver e c summary p now = do {
     ins \<leftarrow> insert_coded maxCodeAttempts 0 e summary p now;
     case ins of
       Inl err \<Rightarrow> do { err \<leftarrow> explain_bounds e c now ErrHourlyLimit err; ret (Inl err) }
     | Inr p \<Rightarrow> do {
         card \<leftarrow> deliverCard (sub 1 e) p;
         case card of
           Inl err \<Rightarrow> ret (Inl err)
         | Inr p \<Rightarrow> do { tell (FxCreated (p_id p)); ret (Inr p) }
       }
   }"

definition insert_and_queue :: "svc_env \<Rightarrow> prop_class \<Rightarrow> (proposal_row \<Rightarrow> aerr + string) \<Rightarrow> proposal_row \<Rightarrow> go_time
    \<Rightarrow> string \<Rightarrow> string \<Rightarrow> aerr \<Rightarrow> (svc, aerr + proposal_row) state" where
  "insert_and_queue e c summary p now trigger quote refusal = do {
     ins \<leftarrow> insert_coded maxCodeAttempts 0 e summary p now;
     case ins of
       Inl err \<Rightarrow> do { err \<leftarrow> explain_bounds e c now ErrMemoryDaily err; ret (Inl err) }
     | Inr p \<Rightarrow> do {
         tell (FxDigest (trigger @ p_code p) (p_summary p) quote);
         if v_queued e then do { tell (FxCreated (p_id p)); ret (Inr p) }
         else do {
           _ \<leftarrow> sql e 101 (cancel_proposal (p_id p) ''not queued for the digest'' (now_at e 1));
           ret (Inl refusal)
         }
       }
   }"

text \<open>\<open>prep\<close> is the answer of the backend's dry gates; \<open>i\<close> and \<open>nonce\<close> are fresh random strings.\<close>

definition Propose :: "svc_env \<Rightarrow> propose_request \<Rightarrow> aerr + prepared \<Rightarrow> string \<Rightarrow> string \<Rightarrow> (svc, aerr + proposal_row) state" where
  "Propose e r prep i nonce =
     (case CleanRationale (rq_rationale r) of
        Inl err \<Rightarrow> ret (Inl err)
      | Inr rationale \<Rightarrow>
      (case may_propose r of
        Inl err \<Rightarrow> ret (Inl err)
      | Inr _ \<Rightarrow>
        if owner (v_owner e) = None then ret (Inl ErrUnavailable)
        else let now = now_at e 0; c = classOf KindOrder (rq_origin r) in do {
          codes \<leftarrow> query e 200 (pendingCodes now c);
          if length codes \<ge> fst (bounds c) then ret (Inl (ErrPending codes))
          else (case prep of
            Inl err \<Rightarrow> ret (Inl err)
          | Inr pr \<Rightarrow>
            if rq_origin r = OriginProactive \<and> \<not> pr_reducing pr then ret (Inl ErrNotRiskReducing)
            else if v_killed e \<and> \<not> pr_reducing pr then ret (Inl ErrKilled)
            else (case canonical (v_lib e) (POrder (pr_params pr)) of
              Inl err \<Rightarrow> ret (Inl err)
            | Inr params \<Rightarrow>
              let life = (if rq_expiry r > 0 then rq_expiry r else expiry_of e);
                  p = (new_proposal e i nonce KindOrder params (rq_origin r) now life)
                    \<lparr>p_rationale := rationale, p_mode := pr_mode pr, p_reducing := pr_reducing pr,
                     p_candidate := rq_candidate r, p_intervention := rq_intervention r\<rparr>
              in insert_and_deliver e c (\<lambda>p. case v_card e p of None \<Rightarrow> Inl ErrRender | Some h \<Rightarrow> Inr h) p now))
        }))"

definition ProposeMandate :: "svc_env \<Rightarrow> mandate_params \<Rightarrow> string \<Rightarrow> string \<Rightarrow> (svc, aerr + proposal_row) state" where
  "ProposeMandate e m0 i nonce =
     (if owner (v_owner e) = None then ret (Inl ErrUnavailable)
      else if \<not> v_mandates e then ret (Inl ErrUnavailable)
      else let m = (if mp_timezone m0 = [] then m0\<lparr>mp_timezone := v_zone e\<rparr> else m0) in
      (case canonical (v_lib e) (PMandate m) of
        Inl err \<Rightarrow> ret (Inl err)
      | Inr params \<Rightarrow>
        if from_ms (mp_expires m) > v_add_months e (now_at e 0) then ret (Inl ErrMandateTooLong)
        else let now = now_at e 1 in do {
          codes \<leftarrow> query e 200 (pendingCodes now classMandate);
          if length codes \<ge> fst (bounds classMandate) then ret (Inl (ErrPending codes))
          else insert_and_deliver e classMandate (\<lambda>p. Inr (case v_card e p of None \<Rightarrow> [] | Some h \<Rightarrow> h))
                 (new_proposal e i nonce KindMandate params OriginOwner now (72 * hour)) now
        }))"

definition ProposeMemory :: "svc_env \<Rightarrow> memory_params \<Rightarrow> duration \<Rightarrow> string \<Rightarrow> string \<Rightarrow> (svc, aerr + proposal_row) state" where
  "ProposeMemory e r life i nonce =
     (if owner (v_owner e) = None then ret (Inl ErrMemoryUnavailable)
      else if \<not> v_memories e \<or> \<not> v_digest e then ret (Inl ErrMemoryUnavailable)
      else case CleanFact (me_fact r) of
        Inl err \<Rightarrow> ret (Inl err)
      | Inr clean \<Rightarrow>
      (case canonical (v_lib e) (PMemory (r\<lparr>me_fact := clean\<rparr>)) of
        Inl err \<Rightarrow> ret (Inl err)
      | Inr params \<Rightarrow> let now = now_at e 0 in do {
          codes \<leftarrow> query e 200 (pendingCodes now classMemory);
          if length codes \<ge> fst (bounds classMemory) then ret (Inl (ErrPending codes))
          else insert_and_queue e classMemory
                 (\<lambda>p. Inr (''Memory suggestion '' @ p_code p @ '' ('' @ me_category r @ '')''))
                 (new_proposal e i nonce KindMemory params OriginSuggestion now (if life > 0 then life else 7 * 24 * hour))
                 now ''memory:'' clean ErrMemoryUnavailable
        }))"

definition DescribeReflection :: "svc_env \<Rightarrow> proposal_row \<Rightarrow> aerr + string" where
  "DescribeReflection e p =
     (if IsReflectionKind (p_kind p) then try_ok (verified (v_lib e) (p_kind p) p) (\<lambda>v. Inr (v_describe e v))
      else Inl ErrUnsupportedKind)"

definition kind_text :: "kind \<Rightarrow> string" where
  "kind_text k = (case k of KindOrder \<Rightarrow> ''order'' | KindMandate \<Rightarrow> ''mandate'' | KindMemory \<Rightarrow> ''memory''
     | KindTriggerParam \<Rightarrow> ''trigger_param'' | KindIntentCleanup \<Rightarrow> ''intent_cleanup'' | KindMute \<Rightarrow> ''mute'' | KindOther s \<Rightarrow> s)"

text \<open>A request carries exactly one of the three changes.\<close>

definition kindAndParams :: "alib \<Rightarrow> trigger_params option \<Rightarrow> cleanup_params option \<Rightarrow> mute_params option \<Rightarrow> aerr + kind \<times> string \<times> payload" where
  "kindAndParams lib t c m =
     (case (case (t, c, m) of
              (Some v, None, None) \<Rightarrow> Some (PTrigger v)
            | (None, Some v, None) \<Rightarrow> Some (PCleanup v)
            | (None, None, Some v) \<Rightarrow> Some (PMute v)
            | _ \<Rightarrow> None) of
        None \<Rightarrow> Inl ErrOneChange
      | Some v \<Rightarrow> try_ok (canonical lib v) (\<lambda>params. Inr (payload_kind v, params, v)))"

definition ProposeReflection :: "svc_env \<Rightarrow> trigger_params option \<Rightarrow> cleanup_params option \<Rightarrow> mute_params option \<Rightarrow> string
    \<Rightarrow> string \<Rightarrow> string \<Rightarrow> (svc, aerr + proposal_row) state" where
  "ProposeReflection e t cl m rationale i nonce =
     (if owner (v_owner e) = None then ret (Inl ErrReflectionUnavailable)
      else if \<not> v_reflections e \<or> \<not> v_digest e then ret (Inl ErrReflectionUnavailable)
      else case kindAndParams (v_lib e) t cl m of
        Inl err \<Rightarrow> ret (Inl err)
      | Inr (k, params, v) \<Rightarrow> let now = now_at e 0 in do {
          codes \<leftarrow> query e 200 (pendingCodes now classReflection);
          if length codes \<ge> fst (bounds classReflection) then ret (Inl (ErrPending codes))
          else do {
            dup \<leftarrow> query e 201 (pendingWithHash (al_hash (v_lib e) k params) now);
            if dup then ret (Inl ErrReflectionDuplicate)
            else insert_and_queue e classReflection
                   (\<lambda>p. case DescribeReflection e p of
                       Inl err \<Rightarrow> Inl err
                     | Inr _ \<Rightarrow> Inr (''Suggestion '' @ p_code p @ '' ('' @ kind_text k @ '')''))
                   ((new_proposal e i nonce k params OriginReflection now (48 * hour))
                      \<lparr>p_rationale := cleanLine rationale MaxRationaleRunes\<rparr>)
                   now ''reflection:'' (v_describe e v) ErrReflectionUnavailable
          }
        })"

section \<open>Executing an approval\<close>

definition WorkflowKind :: string where "WorkflowKind = ''approval.order''"

definition WorkflowID :: "string \<Rightarrow> string" where
  "WorkflowID i = ''ap_'' @ i"

text \<open>The JSON of \<open>workflowInput\<close>; ids are ULIDs, which JSON writes as they are.\<close>

definition workflow_input :: "string \<Rightarrow> string" where
  "workflow_input i = [CHR ''{'', CHR 0x22] @ ''proposal_id'' @ [CHR 0x22, CHR '':'', CHR 0x22] @ i @ [CHR 0x22, CHR ''}'']"

definition mandateOutcome :: "(string \<Rightarrow> string) \<Rightarrow> string \<Rightarrow> string" where
  "mandateOutcome thai lang = (if langOf lang = ''th'' then thai ''mandate''
     else ''APPROVED - the mandate is active. Nothing was bought by this approval.'')"

definition executeMandate :: "svc_env \<Rightarrow> proposal_row \<Rightarrow> (svc, aerr + unit) state" where
  "executeMandate e p =
     (if \<not> v_mandates e then ret (Inl ErrNoSink)
      else do {
        _ \<leftarrow> sql e 0 (markExecuting (p_id p) ''mandate'');
        r \<leftarrow> query e 1 (get_proposal (p_id p));
        case r of
          Inl err \<Rightarrow> ret (Inl err)
        | Inr cur \<Rightarrow>
            if p_status cur \<noteq> PExecuting then ret (Inr ())
            else do {
              tell (FxMandate cur);
              if v_sink e cur \<noteq> SinkDone then ret (Inl ErrSink)
              else do {
                changed \<leftarrow> sql e 2 (finish_proposal (p_id cur) PExecuted (mandateOutcome (v_thai e) (p_lang cur)) (now_at e 0));
                if changed then do {
                  sql e 3 (\<lambda>db. (markNotified (p_id cur) db, ()));
                  editCard e cur (mandateOutcome (v_thai e) (p_lang cur));
                  ret (Inr ())
                } else ret (Inr ())
              }
            }
      })"

definition executeMemory :: "svc_env \<Rightarrow> proposal_row \<Rightarrow> (svc, aerr + unit) state" where
  "executeMemory e p =
     (if \<not> v_memories e then ret (Inl ErrNoSink)
      else do {
        _ \<leftarrow> sql e 0 (markExecuting (p_id p) ''memory'');
        r \<leftarrow> query e 1 (get_proposal (p_id p));
        case r of
          Inl err \<Rightarrow> ret (Inl err)
        | Inr cur \<Rightarrow>
            if p_status cur \<noteq> PExecuting then ret (Inr ())
            else do {
              tell (FxMemory cur);
              if v_sink e cur \<noteq> SinkDone then ret (Inl ErrSink)
              else do {
                changed \<leftarrow> sql e 2 (finish_proposal (p_id cur) PExecuted
                   (if langOf (p_lang cur) = ''th'' then v_thai e ''memory'' else ''Saved to memory.'') (now_at e 0));
                if changed then do { sql e 3 (\<lambda>db. (markNotified (p_id cur) db, ())); ret (Inr ()) }
                else ret (Inr ())
              }
            }
      })"

definition executeReflection :: "svc_env \<Rightarrow> proposal_row \<Rightarrow> (svc, aerr + unit) state" where
  "executeReflection e p =
     (if \<not> v_reflections e then ret (Inl ErrNoSink)
      else do {
        _ \<leftarrow> sql e 0 (markExecuting (p_id p) ''reflection'');
        r \<leftarrow> query e 1 (get_proposal (p_id p));
        case r of
          Inl err \<Rightarrow> ret (Inl err)
        | Inr cur \<Rightarrow>
            if p_status cur \<noteq> PExecuting then ret (Inr ())
            else do {
              tell (FxReflect cur);
              case v_sink e cur of
                SinkFailed \<Rightarrow> ret (Inl ErrSink)
              | SinkRefused why \<Rightarrow> do {
                  changed \<leftarrow> sql e 2 (finish_proposal (p_id cur) PFailed (''Not applied: '' @ cleanLine why 200) (now_at e 0));
                  if changed then do { sql e 3 (\<lambda>db. (markNotified (p_id cur) db, ())); ret (Inr ()) }
                  else ret (Inr ())
                }
              | SinkDone \<Rightarrow> do {
                  changed \<leftarrow> sql e 4 (finish_proposal (p_id cur) PExecuted ''Applied.'' (now_at e 0));
                  if changed then do { sql e 5 (\<lambda>db. (markNotified (p_id cur) db, ())); ret (Inr ()) }
                  else ret (Inr ())
                }
            }
      })"

definition startExecution :: "svc_env \<Rightarrow> proposal_row \<Rightarrow> (svc, aerr + unit) state" where
  "startExecution e p =
     (if p_kind p = KindMandate then executeMandate e p
      else if p_kind p = KindMemory then executeMemory e p
      else if IsReflectionKind (p_kind p) then executeReflection e p
      else if \<not> v_engine e then ret (Inl ErrNoEngine)
      else do {
        r \<leftarrow> start_workflow e 10 WorkflowKind (WorkflowID (p_id p)) (workflow_input (p_id p));
        case r of
          Inl _ \<Rightarrow> ret (Inl (ErrBackend ''start''))
        | Inr _ \<Rightarrow> do { _ \<leftarrow> sql e 11 (markExecuting (p_id p) (WorkflowID (p_id p))); ret (Inr ()) }
      })"

section \<open>The owner's decision\<close>

text \<open>The decider that is recorded: the owner's own canonical id, or the web for a message of the web chat.\<close>

definition decider :: "owner_env \<Rightarrow> string \<Rightarrow> bool \<Rightarrow> string option" where
  "decider c sender web =
     (case owner c of
        None \<Rightarrow> None
      | Some ownerID \<Rightarrow>
          let canonical = CanonicalSender sender [] in
          if \<not> SameSender canonical ownerID \<and> web \<and> WebOwnerActive c then Some WebOwner
          else if SameSender canonical ownerID then Some canonical else None)"

definition expireOne :: "svc_env \<Rightarrow> proposal_row \<Rightarrow> (svc, unit) state" where
  "expireOne e p = do {
     changed \<leftarrow> sql e 0 (expire (p_id p) (now_at e 0));
     if \<not> changed then ret ()
     else do {
       tell (FxExpired (p_id p));
       editCard e (p\<lparr>p_status := PExpired\<rparr>) (OutcomeText (v_thai e) (p_lang p) PExpired)
     }
   }"

definition Decide :: "svc_env \<Rightarrow> string \<Rightarrow> string \<Rightarrow> bool \<Rightarrow> string \<Rightarrow> bool \<Rightarrow> (svc, aerr + proposal_row) state" where
  "Decide e code nonce approve sender web =
     (case decider (v_owner e) sender web of
        None \<Rightarrow> ret (Inl ErrNotOwner)
      | Some by \<Rightarrow> do {
          found \<leftarrow> query e 0 (pendingByCode (NormalizeCode code));
          case found of
            Inl err \<Rightarrow> ret (Inl err)
          | Inr p \<Rightarrow> let now = now_at e 0 in
              if \<not> now < from_ms (p_expires p) then do { expireOne (sub 1 e) p; ret (Inl aerr.ErrNotFound) }
              else if nonce \<noteq> [] \<and> p_nonce p \<noteq> nonce then ret (Inl aerr.ErrNotFound)
              else if verifyProposal (v_lib e) p \<noteq> Inr () then do {
                _ \<leftarrow> sql e 2 (cancel_proposal (p_id p) ''integrity check failed'' now);
                ret (Inl aerr.ErrNotFound)
              }
              else if approve \<and> v_killed e \<and> \<not> p_reducing p \<and> p_kind p \<noteq> KindMemory \<and> \<not> IsReflectionKind (p_kind p)
                then ret (Inl ErrKilled)
              else if approve \<and> (p_kind p = KindMandate \<and> \<not> v_mandates e \<or> p_kind p = KindMemory \<and> \<not> v_memories e \<or>
                                 IsReflectionKind (p_kind p) \<and> \<not> v_reflections e) then ret (Inl ErrUnavailable)
              else do {
                changed \<leftarrow> sql e 3 (decide (p_id p) (if approve then PApproved else PRejected) by now);
                cur \<leftarrow> query e 4 (get_proposal (p_id p));
                if \<not> changed then
                  (case cur of
                     Inl _ \<Rightarrow> ret (Inl aerr.ErrNotFound)
                   | Inr cur \<Rightarrow> ret (Inl (ErrStatus (p_code cur) (p_status cur))))
                else
                  (case cur of
                     Inl err \<Rightarrow> ret (Inl err)
                   | Inr p \<Rightarrow> do {
                       tell (FxDecided (p_id p) (p_status p));
                       editCard e p (OutcomeText (v_thai e) (p_lang p) (p_status p));
                       if \<not> approve then ret (Inr p)
                       else do {
                         _ \<leftarrow> startExecution (sub 5 e) p;
                         cur \<leftarrow> query e 6 (get_proposal (p_id p));
                         case cur of Inl _ \<Rightarrow> ret (Inr p) | Inr cur \<Rightarrow> ret (Inr cur)
                       }
                     })
              }
        })"

end
