(* ===== verification/ApprovalExecute.thy ===== *)
theory ApprovalExecute
  imports ApprovalService
begin

text \<open>
  The execution of an approved order (\<open>pkg/approval/execute.go\<close>): the step functions of the workflow
  \<open>approval.order\<close>, each of which reads the row again and proves it again, the final status and how the owner
  is told; the healing sweep of \<open>service.go\<close>, and the kill switch's cancellations and view of a workflow
  (\<open>stop.go\<close>). The wording of outcomes is an argument.
\<close>

section \<open>What a step may act on\<close>

text \<open>\<open>executable\<close>: approved or executing, decided by the current owner, and exactly what was hashed.\<close>

definition executable_row :: "svc_env \<Rightarrow> proposal_row \<Rightarrow> aerr + order_params" where
  "executable_row e p =
     (if p_status p \<noteq> PApproved \<and> p_status p \<noteq> PExecuting then Inl (ErrNotApproved (p_status p))
      else case OwnerDecider (v_owner e) (p_decided_by p) of
        None \<Rightarrow> Inl ErrNotDecidedByOwner
      | Some ownerID \<Rightarrow>
          if p_decided p = None \<or> \<not> SameSender (p_decided_by p) ownerID then Inl ErrNotDecidedByOwner
          else decodeVerified (v_lib e) p)"

definition executable :: "svc_env \<Rightarrow> nat \<Rightarrow> string \<Rightarrow> (svc, aerr + proposal_row \<times> order_params) state" where
  "executable e k i = do {
     r \<leftarrow> query e k (get_proposal i);
     ret (case r of
        Inl err \<Rightarrow> Inl err
      | Inr p \<Rightarrow> try_ok (executable_row e p) (\<lambda>op. Inr (p, op)))
   }"

text \<open>An approval is good for as long as the proposal was open.\<close>

definition stale :: "go_time \<Rightarrow> proposal_row \<Rightarrow> aerr + unit" where
  "stale now p =
     (let window = from_ms (p_expires p) - from_ms (p_created p);
          age = now - (case p_decided p of None \<Rightarrow> 0 | Some t \<Rightarrow> from_ms t)
      in if age \<le> window then Inr () else Inl ErrStale)"

section \<open>The steps\<close>

definition stepRecheck :: "svc_env \<Rightarrow> string \<Rightarrow> (svc, aerr + rechecked) state" where
  "stepRecheck e i = do {
     r \<leftarrow> executable e 0 i;
     ret (try_ok r (\<lambda>(p, op).
       try_ok (stale (now_at e 0) p) (\<lambda>_.
       try_ok (b_recheck e op) (\<lambda>rc.
         if rc_mode rc \<noteq> p_mode p then Inl ErrModeChanged
         else if p_reducing p \<and> \<not> rc_reducing rc then Inl ErrNotExitAnyMore
         else if p_origin p = OriginProactive \<and> \<not> rc_reducing rc then Inl ErrNotRiskReducing
         else if v_killed e \<and> \<not> rc_reducing rc then Inl ErrKilled
         else Inr rc))))
   }"

definition stepThrottle :: "svc_env \<Rightarrow> string \<Rightarrow> (svc, aerr + unit) state" where
  "stepThrottle e i = do {
     r \<leftarrow> executable e 0 i;
     case try_ok r (\<lambda>(p, op). try_ok (stale (now_at e 0) p) (\<lambda>_. Inr op)) of
       Inl err \<Rightarrow> ret (Inl err)
     | Inr op \<Rightarrow> do { tell (FxThrottle op); ret (if b_throttle e op then Inr () else Inl ErrRateLimited) }
   }"

text \<open>
  A refusal of the place step carries a tag that says whether the order may exist: a refusal before this
  attempt sent anything is \<open>tagNone\<close> on the first attempt and \<open>tagMaybe\<close> on a later one, a failed placement
  is \<open>tagMaybe\<close> for the four errors that leave it open.
\<close>

definition tagNone :: string where "tagNone = ''[order-not-placed] ''"
definition tagMaybe :: string where "tagMaybe = ''[order-may-exist] ''"

datatype step_failure = StepRefused string aerr | StepFailed string place_err

fun failure_tag :: "step_failure \<Rightarrow> string" where
  "failure_tag (StepRefused tag _) = tag"
| "failure_tag (StepFailed tag _) = tag"

definition place_tag :: "place_err \<Rightarrow> string" where
  "place_tag err =
     (case err of
        OrderError k _ _ _ \<Rightarrow>
          if k \<in> {ErrOutcomeUnknown, ErrReconcileUnavailable, ErrReconcileAmbiguous, ErrReconcileUnproven} then tagMaybe else tagNone
      | _ \<Rightarrow> tagNone)"

definition stepPlace :: "svc_env \<Rightarrow> string \<Rightarrow> string \<Rightarrow> nat \<Rightarrow> rechecked \<Rightarrow> (svc, step_failure + placed) state" where
  "stepPlace e i key attempt rc = (
     let refuse = (\<lambda>err. ret (Inl (StepRefused (if attempt > 1 then tagMaybe else tagNone) err))) in do {
       r \<leftarrow> executable e 0 i;
       case r of
         Inl err \<Rightarrow> refuse err
       | Inr (p, op) \<Rightarrow>
         (case stale (now_at e 0) p of
            Inl err \<Rightarrow> refuse err
          | Inr _ \<Rightarrow>
            if v_killed e \<and> \<not> rc_reducing rc then refuse ErrKilled
            else do {
              tell (FxPlace i op key attempt rc);
              case b_place e op key attempt rc of
                Inr placed \<Rightarrow> ret (Inr placed)
              | Inl err \<Rightarrow> ret (Inl (StepFailed (place_tag err) err))
            })
     })"

text \<open>The place step is retried on these failures only (\<open>journal.NonRetryable\<close>).\<close>

fun place_retryable :: "step_failure \<Rightarrow> bool" where
  "place_retryable (StepRefused _ _) = False"
| "place_retryable (StepFailed _ err) = Retryable err"

definition empty_fill :: fill where
  "empty_fill = \<lparr>fl_known = False, fl_status = [], fl_filled = Fin 0, fl_avg = Fin 0, fl_fee = Fin 0, fl_ccy = [], fl_done = False\<rparr>"

text \<open>
  The polls of the verify step: the last answer, until one says the order is over, the order rests, or the
  context ends during the wait after a poll (\<open>ended\<close>).
\<close>

fun poll_fill :: "svc_env \<Rightarrow> order_params \<Rightarrow> nat \<Rightarrow> nat \<Rightarrow> (nat \<Rightarrow> bool) \<Rightarrow> fill \<Rightarrow> fill" where
  "poll_fill e op 0 i ended last_fill = last_fill"
| "poll_fill e op (Suc n) i ended last_fill =
     (let (last_fill, stop) = (case b_fetch e i of
            None \<Rightarrow> (last_fill, False)
          | Some f \<Rightarrow> (f, fl_done f \<or> op_type op = ''limit''))
      in if stop \<or> n = 0 \<or> ended i then last_fill else poll_fill e op n (Suc i) ended last_fill)"

definition stepVerify :: "svc_env \<Rightarrow> (nat \<Rightarrow> bool) \<Rightarrow> string \<Rightarrow> placed \<Rightarrow> (svc, fill) state" where
  "stepVerify e ended i pl = do {
     r \<leftarrow> query e 0 (get_proposal i);
     ret (case r of
        Inl _ \<Rightarrow> empty_fill
      | Inr p \<Rightarrow>
          if pl_order pl = [] then empty_fill
          else case decodeVerified (v_lib e) p of
            Inl _ \<Rightarrow> empty_fill
          | Inr op \<Rightarrow> poll_fill e op (v_polls e) 0 ended (pl_fill pl))
   }"

definition stepRecord :: "svc_env \<Rightarrow> string \<Rightarrow> rechecked \<Rightarrow> placed \<Rightarrow> fill \<Rightarrow> (svc, unit) state" where
  "stepRecord e i rc pl f = do {
     r \<leftarrow> query e 0 (get_proposal i);
     case r of
       Inl _ \<Rightarrow> ret ()
     | Inr p \<Rightarrow> (case decodeVerified (v_lib e) p of Inl _ \<Rightarrow> ret () | Inr op \<Rightarrow> tell (FxRecord op rc pl f))
   }"

section \<open>The end of an execution\<close>

text \<open>The owner is told once; a message that was not delivered leaves the row unmarked.\<close>

definition notifyOutcome :: "svc_env \<Rightarrow> proposal_row \<Rightarrow> (svc, unit) state" where
  "notifyOutcome e p = do {
     cur \<leftarrow> query e 0 (get_proposal (p_id p));
     if (case cur of Inr c \<Rightarrow> p_notified c | Inl _ \<Rightarrow> False) then ret ()
     else do {
       tell (FxOutcome (p_id p) (p_status p) (p_outcome p));
       if \<not> v_told e then ret () else sql e 1 (\<lambda>db. (markNotified (p_id p) db, ()))
     }
   }"

definition settleExecuted :: "svc_env \<Rightarrow> proposal_row \<Rightarrow> string \<Rightarrow> (svc, unit) state" where
  "settleExecuted e p txt = do {
     changed \<leftarrow> sql e 0 (finish_proposal (p_id p) PExecuted txt (now_at e 0));
     notifyOutcome (sub 1 e) (if changed then p\<lparr>p_status := PExecuted, p_outcome := txt\<rparr> else p)
   }"

record failure =
  fa_reason :: string
  fa_may_exist :: bool

text \<open>Only the call that moves the row out of executing writes the outcome and tells it.\<close>

definition settleFailed :: "svc_env \<Rightarrow> (failure \<Rightarrow> string) \<Rightarrow> proposal_row \<Rightarrow> failure \<Rightarrow> (svc, unit) state" where
  "settleFailed e wording p f = do {
     changed \<leftarrow> sql e 0 (finish_proposal (p_id p) PFailed (wording f) (now_at e 0));
     if \<not> changed then ret ()
     else notifyOutcome (sub 1 e) (p\<lparr>p_status := PFailed, p_outcome := wording f\<rparr>)
   }"

definition contains :: "string \<Rightarrow> string \<Rightarrow> bool" where
  "contains s pat \<longleftrightarrow> after_first pat s \<noteq> None"

text \<open>
  Why an execution ended, from the journal alone. The tag without its trailing blank is what is looked for;
  \<open>summarize\<close> words an error, \<open>wf_err\<close> is the error of the workflow.
\<close>

definition describe_steps :: "(string \<Rightarrow> string) \<Rightarrow> string \<Rightarrow> string \<Rightarrow> step_row list \<Rightarrow> string \<Rightarrow> failure" where
  "describe_steps summarize while_placing before_placing rows wf_err =
     (case filter (\<lambda>r. s_error r \<noteq> [] \<and> s_output r = None \<and> s_name r \<noteq> ''settle_failure'') rows of
        [] \<Rightarrow>
          if \<exists>r \<in> set rows. s_name r = ''place'' then \<lparr>fa_reason = while_placing, fa_may_exist = True\<rparr>
          else \<lparr>fa_reason = summarize (if wf_err = [] then before_placing else wf_err), fa_may_exist = False\<rparr>
      | failed \<Rightarrow>
          let r = last failed in
          \<lparr>fa_reason = summarize (s_error r),
           fa_may_exist = (s_name r = ''place'' \<and> \<not> contains (s_error r) ''[order-not-placed]'')\<rparr>)"

definition describeFailure :: "svc_env \<Rightarrow> nat \<Rightarrow> (string \<Rightarrow> string) \<Rightarrow> string \<Rightarrow> string \<Rightarrow> proposal_row \<Rightarrow> string \<Rightarrow> (svc, failure) state" where
  "describeFailure e k summarize while_placing before_placing p wf_err = do {
     rows \<leftarrow> (if v_engine e
             then journal_query e k (loadSteps (if p_workflow p \<noteq> [] then p_workflow p else WorkflowID (p_id p)))
             else ret []);
     ret (describe_steps summarize while_placing before_placing rows wf_err)
   }"

definition stepReceipt :: "svc_env \<Rightarrow> (proposal_row \<Rightarrow> order_params \<Rightarrow> string) \<Rightarrow> string \<Rightarrow> (svc, unit) state" where
  "stepReceipt e wording i = do {
     r \<leftarrow> query e 0 (get_proposal i);
     case r of
       Inl _ \<Rightarrow> ret ()
     | Inr p \<Rightarrow> (case decodeVerified (v_lib e) p of Inl _ \<Rightarrow> ret () | Inr op \<Rightarrow> settleExecuted (sub 1 e) p (wording p op))
   }"

section \<open>Healing and sweeping\<close>

text \<open>Each of a list of rows in turn, other callers in between.\<close>

fun each :: "svc_env \<Rightarrow> nat \<Rightarrow> (svc_env \<Rightarrow> proposal_row \<Rightarrow> (svc, 'a) state) \<Rightarrow> proposal_row list \<Rightarrow> (svc, 'a list) state" where
  "each e k f [] = ret []"
| "each e k f (p # ps) = do { x \<leftarrow> f (sub k e) p; xs \<leftarrow> each e (Suc k) f ps; ret (x # xs) }"

definition with_status :: "pstatus list \<Rightarrow> nat \<Rightarrow> pdb \<Rightarrow> proposal_row list" where
  "with_status ss limit db = take limit (filter (\<lambda>r. p_status r \<in> set ss) db)"

text \<open>The outcomes of the last day that the owner was not told.\<close>

definition renotify :: "svc_env \<Rightarrow> (svc, unit) state" where
  "renotify e = do {
     rows \<leftarrow> query e 0 (\<lambda>db. take 20 (filter (\<lambda>r. (p_status r = PExecuted \<or> p_status r = PFailed) \<and> \<not> p_notified r \<and>
        (case p_finished r of None \<Rightarrow> False | Some t \<Rightarrow> t > unix_ms (now_at e 0 - 24 * hour))) db));
     _ \<leftarrow> each e 1 notifyOutcome rows;
     ret ()
   }"

text \<open>
  One executing proposal whose workflow may have ended. A workflow that the journal does not know is started
  again, by the proposal's id alone.
\<close>

definition heal_executing :: "(failure \<Rightarrow> proposal_row \<Rightarrow> string) \<Rightarrow> (string \<Rightarrow> string) \<Rightarrow> string \<Rightarrow> string \<Rightarrow> string
    \<Rightarrow> svc_env \<Rightarrow> proposal_row \<Rightarrow> (svc, aerr + unit) state" where
  "heal_executing wording summarize while_placing before_placing generic e p =
     (if p_kind p = KindMandate then executeMandate e p
      else if p_kind p = KindMemory then executeMemory e p
      else if IsReflectionKind (p_kind p) then executeReflection e p
      else do {
        w \<leftarrow> journal_query e 0 (getWorkflow (p_workflow p));
        case w of
          Inl err \<Rightarrow>
            if err = jerr.ErrNotFound then startExecution (sub 1 e) (p\<lparr>p_kind := KindOther []\<rparr>)
            else ret (Inl (ErrBackend ''journal''))
        | Inr w \<Rightarrow>
            if \<not> Terminal (w_status w) then ret (Inr ())
            else if w_status w = WfSucceeded then do { settleExecuted (sub 2 e) p generic; ret (Inr ()) }
            else do {
              f \<leftarrow> describeFailure e 3 summarize while_placing before_placing p (Journal.w_error w);
              settleFailed (sub 4 e) (\<lambda>f. wording f p) p f;
              ret (Inr ())
            }
      })"

definition Recover :: "(failure \<Rightarrow> proposal_row \<Rightarrow> string) \<Rightarrow> (string \<Rightarrow> string) \<Rightarrow> string \<Rightarrow> string \<Rightarrow> string
    \<Rightarrow> svc_env \<Rightarrow> (svc, (aerr + unit) list) state" where
  "Recover wording summarize while_placing before_placing generic e = do {
     approved \<leftarrow> query e 0 (with_status [PApproved] 50);
     errs \<leftarrow> each (sub 1 e) 0 startExecution approved;
     if \<not> v_engine e then ret errs
     else do {
       executing \<leftarrow> query e 2 (with_status [PExecuting] 50);
       errs' \<leftarrow> each (sub 3 e) 0 (heal_executing wording summarize while_placing before_placing generic) executing;
       renotify (sub 4 e);
       ret (errs @ errs')
     }
   }"

text \<open>Expiring: how many of the rows that were due are expired afterwards.\<close>

definition expire_one_due :: "svc_env \<Rightarrow> proposal_row \<Rightarrow> (svc, bool) state" where
  "expire_one_due e p = do {
     expireOne (sub 0 e) p;
     cur \<leftarrow> query e 1 (get_proposal (p_id p));
     ret (case cur of Inr c \<Rightarrow> p_status c = PExpired | Inl _ \<Rightarrow> False)
   }"

definition ExpireDueProposals :: "svc_env \<Rightarrow> (svc, nat) state" where
  "ExpireDueProposals e = do {
     due \<leftarrow> query e 0 (\<lambda>db. take 50 (filter (\<lambda>r. p_status r = PPending \<and> p_expires r \<le> unix_ms (now_at e 0)) db));
     moved \<leftarrow> each e 1 expire_one_due due;
     ret (length (filter (\<lambda>b. b) moved))
   }"

fun prune_batches :: "nat \<Rightarrow> svc_env \<Rightarrow> go_time \<Rightarrow> (svc, unit) state" where
  "prune_batches 0 e cutoff = ret ()"
| "prune_batches (Suc n) e cutoff = do {
     deleted \<leftarrow> sql e n (pruneProposals cutoff 100);
     if deleted < 100 then ret () else prune_batches n e cutoff
   }"

text \<open>One pass of the sweeper: \<open>due\<close> says whether an hour has passed since the last prune.\<close>

definition sweep :: "(failure \<Rightarrow> proposal_row \<Rightarrow> string) \<Rightarrow> (string \<Rightarrow> string) \<Rightarrow> string \<Rightarrow> string \<Rightarrow> string
    \<Rightarrow> go_time \<Rightarrow> svc_env \<Rightarrow> (svc, go_time) state" where
  "sweep wording summarize while_placing before_placing generic last_prune e = do {
     _ \<leftarrow> ExpireDueProposals (sub 0 e);
     _ \<leftarrow> Recover wording summarize while_placing before_placing generic (sub 1 e);
     if now_at e 0 - last_prune \<ge> hour then do {
       prune_batches 10 (sub 2 e) (now_at e 2 - 180 * 24 * hour);
       ret (now_at e 1)
     } else ret last_prune
   }"

section \<open>The kill switch\<close>

definition cancel_one :: "string \<Rightarrow> (string \<Rightarrow> string) \<Rightarrow> svc_env \<Rightarrow> proposal_row \<Rightarrow> (svc, (string \<times> kind) list) state" where
  "cancel_one why line e p = do {
     changed \<leftarrow> sql e 0 (cancel_proposal (p_id p) why (now_at e 0));
     if \<not> changed then ret []
     else do { editCard e (p\<lparr>p_status := PCancelled, p_outcome := why\<rparr>) (line (p_lang p)); ret [(p_code p, p_kind p)] }
   }"

text \<open>\<open>cancelAll\<close> and its two callers; the answer names the proposals that were cancelled.\<close>

definition cancelAll :: "svc_env \<Rightarrow> proposal_row list \<Rightarrow> string \<Rightarrow> (string \<Rightarrow> string) \<Rightarrow> (svc, (string \<times> kind) list) state" where
  "cancelAll e ps why line = do { xs \<leftarrow> each e 1 (cancel_one why line) ps; ret (concat xs) }"

definition CancelPending :: "svc_env \<Rightarrow> string \<Rightarrow> (svc, (string \<times> kind) list) state" where
  "CancelPending e why = do {
     pending \<leftarrow> query e 0 (\<lambda>db. take 200 (sort_key p_created (filter (\<lambda>r. p_status r = PPending) db)));
     cancelAll e pending why (\<lambda>lang. OutcomeText (v_thai e) lang PCancelled)
   }"

fun pending_of :: "svc_env \<Rightarrow> nat \<Rightarrow> string list \<Rightarrow> (svc, proposal_row list) state" where
  "pending_of e k [] = ret []"
| "pending_of e k (i # rest) = do {
     r \<leftarrow> query e k (get_proposal i);
     ps \<leftarrow> pending_of e (Suc k) rest;
     ret (case r of Inr p \<Rightarrow> if p_status p = PPending then p # ps else ps | Inl _ \<Rightarrow> ps)
   }"

definition CancelForClosedPlan :: "svc_env \<Rightarrow> string list \<Rightarrow> (svc, (string \<times> kind) list) state" where
  "CancelForClosedPlan e ids = do {
     pending \<leftarrow> pending_of (sub 0 e) 0 ids;
     cancelAll (sub 1 e) pending ''plan closed'' (\<lambda>lang. if langOf lang = ''th'' then v_thai e ''planClosed''
       else ''CANCELLED - the plan was closed, so this close is no longer needed. Nothing was placed.'')
   }"

text \<open>
  \<open>FlowOrders\<close>: what the journal says of the order of one workflow, for the kill switch. A finished place step
  names the order; one that was cut, or that failed leaving it open, describes the request so that it can be
  looked up by its key. The decoders are those of the standard library.
\<close>

record order_ref =
  fo_workflow :: string
  fo_provider :: string
  fo_account :: string
  fo_market :: string
  fo_symbol :: string
  fo_side :: string
  fo_order :: string
  fo_done :: bool
  fo_exit :: bool
  fo_paper :: bool
  fo_request :: "order_req option"
  fo_key :: string
  fo_first :: go_time

record flow_orders =
  fw_orders :: "order_ref list"
  fw_settle :: bool
  fw_protect :: bool

record flow_codec =
  fc_input :: "string \<Rightarrow> string option" \<comment> \<open>the proposal id of a workflow input\<close>
  fc_placed :: "string \<Rightarrow> placed option"
  fc_fill :: "string \<Rightarrow> fill option"

text \<open>The first finished verify step with an output decides.\<close>

definition verifiedDone :: "flow_codec \<Rightarrow> step_row list \<Rightarrow> bool" where
  "verifiedDone fc rows =
     (case List.find (\<lambda>r. s_name r = ''verify'' \<and> s_finished r \<noteq> None \<and> s_error r = [] \<and> s_output r \<noteq> None) rows of
        None \<Rightarrow> False
      | Some r \<Rightarrow> (case fc_fill fc (the (s_output r)) of None \<Rightarrow> False | Some f \<Rightarrow> fl_done f))"

definition order_request_of :: "order_params \<Rightarrow> order_req" where
  "order_request_of op = \<lparr>rq_market = op_market op, rq_symbol = op_symbol op, rq_type = op_type op, rq_side = op_side op,
     rq_amount = op_amount op, rq_price = op_price op, rq_tick = Fin 0, rq_reduce_only = op_reduce_only op,
     rq_margin_mode = op_margin_mode op, rq_position_side = op_position_side op, rq_position_before = None,
     rq_params = Map.empty\<rparr>"

fun flow_refs :: "flow_codec \<Rightarrow> wf_row \<Rightarrow> proposal_row \<Rightarrow> order_params \<Rightarrow> step_row list \<Rightarrow> step_row list \<Rightarrow> flow_orders
    \<Rightarrow> aerr option \<times> flow_orders" where
  "flow_refs fc w p op rows [] fo = (None, fo)"
| "flow_refs fc w p op rows (r # rs) fo =
     (if s_name r \<noteq> ''place'' then flow_refs fc w p op rows rs fo
      else
        let ref = \<lparr>fo_workflow = w_id w, fo_provider = op_provider op, fo_account = op_account op, fo_market = op_market op,
              fo_symbol = op_symbol op, fo_side = op_side op, fo_order = [], fo_done = False,
              fo_exit = (p_reducing p \<or> op_reduce_only op), fo_paper = (p_mode p = ModePaper),
              fo_request = None, fo_key = [], fo_first = 0\<rparr>;
            finished = (s_finished r \<noteq> None) in
        if finished \<and> s_error r = [] then
          (case (case s_output r of None \<Rightarrow> None | Some b \<Rightarrow> fc_placed fc b) of
             None \<Rightarrow> (Some (ErrBackend ''placed''), fo)
           | Some pl \<Rightarrow> flow_refs fc w p op rows rs
               (fo\<lparr>fw_orders := fw_orders fo @ [ref\<lparr>fo_order := pl_order pl, fo_done := fl_done (pl_fill pl) \<or> verifiedDone fc rows\<rparr>],
                  fw_settle := True\<rparr>))
        else if finished \<and> \<not> contains (s_error r) tagMaybe then (None, fo)
        else flow_refs fc w p op rows rs
               (fo\<lparr>fw_orders := fw_orders fo @ [ref\<lparr>fo_request := Some (order_request_of op),
                  fo_key := StepKey (w_id w) (s_seq r) (s_name r), fo_first := from_ms (s_first r)\<rparr>]\<rparr>))"

definition FlowOrders :: "svc_env \<Rightarrow> flow_codec \<Rightarrow> wf_row \<Rightarrow> step_row list \<Rightarrow> (svc, aerr option \<times> flow_orders) state" where
  "FlowOrders e fc w rows =
     (let none = \<lparr>fw_orders = [], fw_settle = False, fw_protect = False\<rparr> in
      if w_kind w \<noteq> WorkflowKind then ret (None, none)
      else case fc_input fc (w_input w) of
        None \<Rightarrow> ret (Some (ErrBackend ''input''), none)
      | Some i \<Rightarrow>
        if i = [] then ret (Some (ErrBackend ''input''), none)
        else do {
          r \<leftarrow> query e 0 (get_proposal i);
          ret (case r of
             Inl err \<Rightarrow> (Some err, none)
           | Inr p \<Rightarrow>
               let fo = none\<lparr>fw_protect := p_reducing p\<rparr> in
               (case decodeVerified (v_lib e) p of
                  Inl err \<Rightarrow> (Some err, fo)
                | Inr op \<Rightarrow> flow_refs fc w p op rows rows fo))
        })"

section \<open>What others may see of a proposal\<close>

record pending_view =
  pv_code :: string
  pv_kind :: kind
  pv_status :: pstatus
  pv_summary :: string
  pv_origin :: origin
  pv_reducing :: bool
  pv_created :: int
  pv_expires :: int
  pv_quote :: string
  pv_quote_kind :: string

text \<open>A memory shows its fact only from verified parameters.\<close>

definition view_of :: "svc_env \<Rightarrow> proposal_row \<Rightarrow> pending_view" where
  "view_of e p =
     (let quoted = (if p_kind p = KindMemory
            then (case verified (v_lib e) KindMemory p of Inr (PMemory m) \<Rightarrow> (me_fact m, ''fact'') | _ \<Rightarrow> ([], []))
            else if p_rationale p \<noteq> [] then (p_rationale p, ''rationale'') else ([], []))
      in \<lparr>pv_code = p_code p, pv_kind = p_kind p, pv_status = p_status p, pv_summary = p_summary p, pv_origin = p_origin p,
          pv_reducing = p_reducing p, pv_created = p_created p, pv_expires = p_expires p,
          pv_quote = fst quoted, pv_quote_kind = snd quoted\<rparr>)"

definition ListPending :: "svc_env \<Rightarrow> (svc, pending_view list) state" where
  "ListPending e = query e 0 (\<lambda>db. map (view_of e)
     (take 100 (sort_key p_expires (filter (live_pending (unix_ms (now_at e 0))) db))))"

text \<open>The pending proposal whose card is a message: in its chat, or in a topic of it.\<close>

definition PendingByCard :: "svc_env \<Rightarrow> string \<Rightarrow> string \<Rightarrow> string \<Rightarrow> (svc, aerr + proposal_row) state" where
  "PendingByCard e channel chat message =
     (if message = [] \<or> chat = [] then ret (Inl aerr.ErrNotFound)
      else query e 0 (\<lambda>db.
        case sql_first (\<lambda>p. live_pending (unix_ms (now_at e 0)) p \<and>
            p_card_chat p \<noteq> [] \<and> equal_fold (p_card_channel p) channel \<and>
            (chat = p_card_chat p \<or> has_prefix chat (p_card_chat p @ ''/'')) \<and>
            message \<in> set (p_card_msgs p)) db of
          None \<Rightarrow> Inl aerr.ErrNotFound
        | Some p \<Rightarrow> Inr p))"

record button =
  bt_id :: string
  bt_label :: string
  bt_payload :: string
  bt_command :: string

text \<open>The Save and Discard buttons of a suggestion, for the owner's language.\<close>

definition buttons :: "svc_env \<Rightarrow> proposal_row \<Rightarrow> button list" where
  "buttons e p =
     (let word = (\<lambda>key en. if langOf (p_lang p) = ''th'' then v_thai e key else en) in
      [\<lparr>bt_id = ''approve'', bt_label = word ''save'' ''Save'' @ '' '' @ p_code p, bt_payload = ButtonPayload (p_code p) (p_nonce p),
        bt_command = ''/approve '' @ p_code p\<rparr>,
       \<lparr>bt_id = ''reject'', bt_label = word ''discard'' ''Discard'' @ '' '' @ p_code p, bt_payload = ButtonPayload (p_code p) (p_nonce p),
        bt_command = ''/reject '' @ p_code p\<rparr>])"

text \<open>A button exists only where the stored, verified change is the one that was shown; \<open>shown\<close> are pairs of
  the code and that text.\<close>

fun MemoryActions :: "svc_env \<Rightarrow> nat \<Rightarrow> (string \<times> string) list \<Rightarrow> button list \<Rightarrow> (svc, button list) state" where
  "MemoryActions e k [] out = ret out"
| "MemoryActions e k ((code, shown) # rest) out =
     (if length out \<ge> 8 then ret out
      else do {
        r \<leftarrow> query e k (pendingByCode (NormalizeCode code));
        MemoryActions e (Suc k) rest
          (case r of
             Inl _ \<Rightarrow> out
           | Inr p \<Rightarrow>
               if p_kind p \<noteq> KindMemory \<or> \<not> now_at e k < from_ms (p_expires p) then out
               else (case verified (v_lib e) KindMemory p of
                   Inr (PMemory m) \<Rightarrow> if me_fact m \<noteq> shown then out else out @ buttons e p
                 | _ \<Rightarrow> out))
      })"

fun ReflectionActions :: "svc_env \<Rightarrow> nat \<Rightarrow> nat \<Rightarrow> (string \<times> string) list \<Rightarrow> button list \<Rightarrow> (svc, button list) state" where
  "ReflectionActions e k mx [] out = ret out"
| "ReflectionActions e k mx ((code, shown) # rest) out =
     (if length out + 2 > mx then ret out
      else do {
        r \<leftarrow> query e k (pendingByCode (NormalizeCode code));
        ReflectionActions e (Suc k) mx rest
          (case r of
             Inl _ \<Rightarrow> out
           | Inr p \<Rightarrow>
               if \<not> IsReflectionKind (p_kind p) \<or> \<not> now_at e k < from_ms (p_expires p) then out
               else if DescribeReflection e p \<noteq> Inr shown then out else out @ buttons e p)
      })"

end
