(* ===== verification/ApprovalSafety.thy ===== *)
theory ApprovalSafety
  imports ApprovalExecute "HOL-Library.Code_Target_Nat"
begin

text \<open>
  What the approval service guarantees, under interference: whatever other callers do between two statements
  of an operation (\<open>v_gap\<close>), as long as they too only make the moves of \<open>pstep\<close>, the operation makes only
  such moves. So every history of proposals, decisions, executions and sweeps, interleaved statement by
  statement, is a run of the abstract table.
\<close>

named_theorems guarantees \<open>operations that make only the moves of the table\<close>

section \<open>Steps of the service\<close>

definition svc_ok :: "(string \<Rightarrow> bool) \<Rightarrow> svc \<Rightarrow> bool" where
  "svc_ok auth s \<longleftrightarrow> pdb_ok auth (sv_table s) \<and> jwf (sv_journal s)"

inductive sstep :: "(string \<Rightarrow> bool) \<Rightarrow> svc \<Rightarrow> svc \<Rightarrow> bool" for auth where
  table: "pstep auth (sv_table s) db \<Longrightarrow> sstep auth s (s\<lparr>sv_table := db\<rparr>)"
| journal: "op_ok op \<Longrightarrow> sstep auth s (s\<lparr>sv_journal := apply_op op (sv_journal s)\<rparr>)"
| logged: "sstep auth s (s\<lparr>sv_log := sv_log s @ [x]\<rparr>)"

definition reach :: "(string \<Rightarrow> bool) \<Rightarrow> svc \<Rightarrow> svc \<Rightarrow> bool" where
  "reach auth s t \<longleftrightarrow> (svc_ok auth s \<longrightarrow> (sstep auth)\<^sup>*\<^sup>* s t)"

lemma sstep_ok: "sstep auth s t \<Longrightarrow> svc_ok auth s \<Longrightarrow> svc_ok auth t"
  by (induction rule: sstep.induct) (auto simp: svc_ok_def intro: pstep_ok apply_op_jwf)

lemma ssteps_ok: "(sstep auth)\<^sup>*\<^sup>* s t \<Longrightarrow> svc_ok auth s \<Longrightarrow> svc_ok auth t"
  by (induction rule: rtranclp_induct) (auto intro: sstep_ok)

lemma reach_refl: "reach auth s s"
  by (simp add: reach_def)

lemma reach_trans: "reach auth s t \<Longrightarrow> reach auth t u \<Longrightarrow> reach auth s u"
  unfolding reach_def using ssteps_ok rtranclp_trans by metis

lemma reach_ok: "reach auth s t \<Longrightarrow> svc_ok auth s \<Longrightarrow> svc_ok auth t"
  unfolding reach_def using ssteps_ok by blast

lemma reach_table:
  assumes "\<And>db. pdb_ok auth db \<Longrightarrow> (pstep auth)\<^sup>*\<^sup>* db (f db)"
  shows "reach auth s (s\<lparr>sv_table := f (sv_table s)\<rparr>)"
  unfolding reach_def
proof
  have *: "(sstep auth)\<^sup>*\<^sup>* s (s\<lparr>sv_table := db\<rparr>)" if "(pstep auth)\<^sup>*\<^sup>* (sv_table s) db" for db
    using that
  proof (induction rule: rtranclp_induct)
    case (step y z)
    have "sstep auth (s\<lparr>sv_table := y\<rparr>) ((s\<lparr>sv_table := y\<rparr>)\<lparr>sv_table := z\<rparr>)" using step.hyps(2) by (intro sstep.table) simp
    with step.IH show ?case by simp
  qed simp
  assume "svc_ok auth s"
  then show "(sstep auth)\<^sup>*\<^sup>* s (s\<lparr>sv_table := f (sv_table s)\<rparr>)" using assms by (intro *) (simp add: svc_ok_def)
qed

section \<open>Legal environments\<close>

text \<open>Other callers keep to the moves of the table as well.\<close>

definition env_legal :: "(string \<Rightarrow> bool) \<Rightarrow> svc_env \<Rightarrow> bool" where
  "env_legal auth e \<longleftrightarrow> (\<forall>p s. reach auth s (v_gap e p s))"

lemma env_legal_sub: "env_legal auth e \<Longrightarrow> env_legal auth (sub k e)"
  by (simp add: env_legal_def sub_def)

lemma env_legal_gap: "env_legal auth e \<Longrightarrow> reach auth s (v_gap e p s)"
  by (simp add: env_legal_def)

section \<open>Guarantees\<close>

abbreviation guar :: "(string \<Rightarrow> bool) \<Rightarrow> (svc, 'a) state \<Rightarrow> bool" where
  "guar auth \<equiv> state_io_rel (reach auth)"

lemma guar_ret [guarantees]: "guar auth (ret x)"
  by (simp add: state_io_rel_def reach_refl)

lemma guar_bind [guarantees]:
  assumes "guar auth m" "\<And>x. guar auth (k x)"
  shows "guar auth (m \<bind> k)"
  unfolding state_io_rel_def
proof
  fix s
  obtain x t where m: "run_state m s = (x, t)" by fastforce
  have "reach auth s t" using assms(1) m by (metis state_io_rel_def snd_conv)
  moreover have "reach auth t (snd (run_state (k x) t))" using assms(2) by (metis state_io_rel_def)
  ultimately show "reach auth s (snd (run_state (m \<bind> k) s))" using m by (auto intro: reach_trans)
qed

lemma guar_tell [guarantees]: "guar auth (tell x)"
  by (auto simp: state_io_rel_def reach_def tell_def intro: sstep.logged)

lemma guar_query [guarantees]: "env_legal auth e \<Longrightarrow> guar auth (query e k f)"
  by (simp add: state_io_rel_def query_def Let_def env_legal_gap)

lemma guar_journal_query [guarantees]: "env_legal auth e \<Longrightarrow> guar auth (journal_query e k f)"
  by (simp add: state_io_rel_def journal_query_def Let_def env_legal_gap)

lemma guar_sql:
  assumes "env_legal auth e" "\<And>db. pdb_ok auth db \<Longrightarrow> (pstep auth)\<^sup>*\<^sup>* db (fst (f db))"
  shows "guar auth (sql e k f)"
  unfolding state_io_rel_def
proof
  fix s
  have "reach auth s (v_gap e [k] s)" using assms(1) by (rule env_legal_gap)
  moreover have "reach auth t (t\<lparr>sv_table := fst (f (sv_table t))\<rparr>)" for t
    by (rule reach_table) (rule assms(2))
  ultimately show "reach auth s (snd (run_state (sql e k f) s))"
    unfolding sql_def by (auto simp: Let_def split_beta intro: reach_trans)
qed

lemma StartWithID_op:
  assumes "StartWithID V defs kd wid input now j = Inr (j', created)"
  shows "j' = j \<or> (\<exists>op. op_ok op \<and> j' = apply_op op j)"
proof -
  obtain prot raw where s: "defs kd = Some prot" "encodeInput V input = Inr raw" "checkName wid"
    using assms by (auto simp: StartWithID_def split: option.splits if_splits)
  show ?thesis
  proof (cases "snd (insertWorkflowOnce wid kd raw prot now j)")
    case True
    then have "j' = fst (insertWorkflowOnce wid kd raw prot now j)" using assms s by (simp add: StartWithID_def split_beta)
    then have "j' = apply_op (JInsertOnce wid kd raw prot now) j" "op_ok (JInsertOnce wid kd raw prot now)" by simp_all
    then show ?thesis by blast
  next
    case False
    then have "fst (insertWorkflowOnce wid kd raw prot now j) = j" by (auto simp: insertWorkflowOnce_def split: if_splits)
    with False show ?thesis using assms s by (auto simp: StartWithID_def split_beta split: if_splits)
  qed
qed

lemma guar_start_workflow [guarantees]:
  assumes "env_legal auth e"
  shows "guar auth (start_workflow e k kd wid input)"
  unfolding state_io_rel_def
proof
  fix s
  let ?t = "v_gap e [k] s"
  have g: "reach auth s ?t" using assms by (rule env_legal_gap)
  show "reach auth s (snd (run_state (start_workflow e k kd wid input) s))"
  proof (cases "StartWithID (v_json_valid e) (v_defs e) kd wid input (now_at e k) (sv_journal ?t)")
    case (Inr r)
    obtain j created where r: "r = (j, created)" by fastforce
    have "reach auth ?t (?t\<lparr>sv_journal := j\<rparr>)"
      using StartWithID_op [OF Inr [unfolded r]]
      by (cases "j = sv_journal ?t") (auto simp: reach_def intro: sstep.journal)
    then show ?thesis using g Inr r by (auto simp: start_workflow_def Let_def intro: reach_trans)
  qed (use g in \<open>simp add: start_workflow_def Let_def\<close>)
qed

section \<open>The statements\<close>

lemma quiet_steps: "pquiet auth db db' \<Longrightarrow> (pstep auth)\<^sup>*\<^sup>* db db'"
  by (simp add: pstep.quiet r_into_rtranclp)

lemma insert_stmt_steps: "(pstep auth)\<^sup>*\<^sup>* db (fst (insert_stmt p now db))"
  by (cases "insert_proposal p now db") (auto simp: insert_stmt_def intro: insert_steps)

lemma guar_statements [guarantees]:
  assumes "env_legal auth e"
  shows "guar auth (sql e k (insert_stmt p now))" "guar auth (sql e k (expire i t))"
    "guar auth (sql e k (cancel_proposal i why t))" "guar auth (sql e k (markExecuting i wid))"
    "guar auth (sql e k (\<lambda>db. (setCard i a b c db, ())))" "guar auth (sql e k (\<lambda>db. (markNotified i db, ())))"
    "guar auth (sql e k (pruneProposals cutoff limit))"
    "guar auth (sql e k (finish_proposal i PExecuted txt t))" "guar auth (sql e k (finish_proposal i PFailed txt t))"
  by (rule guar_sql [OF assms]; auto intro!: insert_stmt_steps quiet_steps statement_steps)+

lemma guar_decide:
  assumes "env_legal auth e" "auth who"
  shows "guar auth (sql e k (decide i PApproved who t))" "guar auth (sql e k (decide i PRejected who t))"
  by (rule guar_sql [OF assms(1)]; use assms(2) in \<open>auto intro!: quiet_steps statement_steps\<close>)+

section \<open>The operations\<close>

lemmas legal_sub [guarantees] = env_legal_sub

lemma guar_editCard [guarantees]: "guar auth (editCard e p outcome)"
  unfolding editCard_def by (auto intro!: guarantees split: sum.split)

lemma guar_deliverCard [guarantees]: "env_legal auth e \<Longrightarrow> guar auth (deliverCard e p)"
  unfolding deliverCard_def by (auto intro!: guarantees split: option.split)

lemma guar_insert_coded [guarantees]: "env_legal auth e \<Longrightarrow> guar auth (insert_coded left k e summary p now)"
proof (induction left arbitrary: k p)
  case 0
  then show ?case by (subst insert_coded.simps) (auto simp: Let_def intro!: guarantees split: sum.split)
next
  case (Suc n)
  then show ?case by (subst insert_coded.simps) (auto simp: Let_def intro!: guarantees split: sum.split)
qed

lemma guar_explain_bounds [guarantees]: "env_legal auth e \<Longrightarrow> guar auth (explain_bounds e c now limit_err err)"
  unfolding explain_bounds_def by (auto intro!: guarantees split: aerr.split)

lemma guar_insert_and_deliver [guarantees]: "env_legal auth e \<Longrightarrow> guar auth (insert_and_deliver e c summary p now)"
  unfolding insert_and_deliver_def by (auto intro!: guarantees split: sum.split)

lemma guar_insert_and_queue [guarantees]:
  "env_legal auth e \<Longrightarrow> guar auth (insert_and_queue e c summary p now trigger quote err)"
  unfolding insert_and_queue_def by (auto intro!: guarantees split: sum.split)

lemma guar_propose [guarantees]:
  assumes "env_legal auth e"
  shows "guar auth (Propose e r prep i nonce)" "guar auth (ProposeMandate e m i nonce)" "guar auth (ProposeMemory e mem life i nonce)"
    "guar auth (ProposeReflection e t cl mu why i nonce)"
  unfolding Propose_def ProposeMandate_def ProposeMemory_def ProposeReflection_def Let_def
  using assms by (auto intro!: guarantees split: sum.split)

lemma guar_execute [guarantees]:
  assumes "env_legal auth e"
  shows "guar auth (executeMandate e p)" "guar auth (executeMemory e p)" "guar auth (executeReflection e p)"
  unfolding executeMandate_def executeMemory_def executeReflection_def
  using assms by (auto intro!: guarantees split: sum.split sink_answer.split)

lemma guar_startExecution [guarantees]: "env_legal auth e \<Longrightarrow> guar auth (startExecution e p)"
  unfolding startExecution_def by (auto intro!: guarantees split: sum.split)

lemma guar_expireOne [guarantees]: "env_legal auth e \<Longrightarrow> guar auth (expireOne e p)"
  unfolding expireOne_def by (auto intro!: guarantees)

lemma guar_Decide:
  assumes "env_legal auth e" "\<And>who. decider (v_owner e) sender web = Some who \<Longrightarrow> auth who"
  shows "guar auth (Decide e code nonce approve sender web)"
proof (cases "decider (v_owner e) sender web")
  case (Some who)
  with assms(2) have "auth who" .
  then show ?thesis unfolding Decide_def Some Let_def option.case
    using assms(1) by (auto intro!: guarantees guar_decide split: sum.split)
qed (simp add: Decide_def guarantees)

lemma guar_executable [guarantees]: "env_legal auth e \<Longrightarrow> guar auth (executable e k i)"
  unfolding executable_def by (auto intro!: guarantees)

lemma guar_steps [guarantees]:
  assumes "env_legal auth e"
  shows "guar auth (stepRecheck e i)" "guar auth (stepThrottle e i)" "guar auth (stepPlace e i key attempt rc)"
    "guar auth (stepVerify e ended i pl)" "guar auth (stepRecord e i rc pl f)"
  unfolding stepRecheck_def stepThrottle_def stepPlace_def stepVerify_def stepRecord_def Let_def
  using assms by (auto intro!: guarantees split: sum.split)

lemma guar_notifyOutcome [guarantees]: "env_legal auth e \<Longrightarrow> guar auth (notifyOutcome e p)"
  unfolding notifyOutcome_def by (auto intro!: guarantees)

lemma guar_settle [guarantees]:
  assumes "env_legal auth e"
  shows "guar auth (settleExecuted e p txt)" "guar auth (settleFailed e wording p f)"
  unfolding settleExecuted_def settleFailed_def using assms by (auto intro!: guarantees)

lemma guar_stepReceipt [guarantees]: "env_legal auth e \<Longrightarrow> guar auth (stepReceipt e wording i)"
  unfolding stepReceipt_def by (auto intro!: guarantees split: sum.split)

lemma guar_describeFailure [guarantees]: "env_legal auth e \<Longrightarrow> guar auth (describeFailure e k summ a b p err)"
  unfolding describeFailure_def by (auto intro!: guarantees)

lemma guar_each [guarantees]:
  "env_legal auth e \<Longrightarrow> (\<And>e p. env_legal auth e \<Longrightarrow> guar auth (f e p)) \<Longrightarrow> guar auth (each e k f ps)"
proof (induction ps arbitrary: k)
  case (Cons p ps)
  show ?case using Cons.IH Cons.prems(1) by (auto intro!: guarantees Cons.prems(2))
qed (simp add: guarantees)

lemma guar_renotify [guarantees]: "env_legal auth e \<Longrightarrow> guar auth (renotify e)"
  unfolding renotify_def by (auto intro!: guarantees)

lemma guar_heal [guarantees]: "env_legal auth e \<Longrightarrow> guar auth (heal_executing wording summ a b generic e p)"
  unfolding heal_executing_def by (auto intro!: guarantees split: sum.split)

lemma guar_Recover [guarantees]: "env_legal auth e \<Longrightarrow> guar auth (Recover wording summ a b generic e)"
  unfolding Recover_def by (auto intro!: guarantees)

lemma guar_expireDue [guarantees]: "env_legal auth e \<Longrightarrow> guar auth (ExpireDueProposals e)"
  unfolding ExpireDueProposals_def expire_one_due_def by (auto intro!: guarantees)

lemma guar_prune_batches [guarantees]: "env_legal auth e \<Longrightarrow> guar auth (prune_batches n e cutoff)"
  by (induction n) (auto intro!: guarantees)

lemma guar_sweep [guarantees]: "env_legal auth e \<Longrightarrow> guar auth (sweep wording summ a b generic lp e)"
  unfolding sweep_def by (auto intro!: guarantees)

lemma guar_cancelAll [guarantees]: "env_legal auth e \<Longrightarrow> guar auth (cancelAll e ps why line)"
  unfolding cancelAll_def cancel_one_def by (auto intro!: guarantees)

lemma guar_pending_of [guarantees]: "env_legal auth e \<Longrightarrow> guar auth (pending_of e k is)"
  by (induction "is" arbitrary: k) (auto intro!: guarantees)

lemma guar_cancel [guarantees]:
  assumes "env_legal auth e"
  shows "guar auth (CancelPending e why)" "guar auth (CancelForClosedPlan e ids)"
  unfolding CancelPending_def CancelForClosedPlan_def using assms by (auto intro!: guarantees)

section \<open>Histories\<close>

text \<open>The calls of the service: proposals, decisions, sweeps, the kill switch's cancellations, workflow steps.\<close>

datatype call =
    CPropose svc_env propose_request "aerr + prepared" string string
  | CMandate svc_env mandate_params string string
  | CMemory svc_env memory_params duration string string
  | CReflection svc_env "trigger_params option" "cleanup_params option" "mute_params option" string string string
  | CDecide svc_env string string bool string bool
  | CSweep svc_env "failure \<Rightarrow> proposal_row \<Rightarrow> string" "string \<Rightarrow> string" string string string go_time
  | CCancelPending svc_env string
  | CClosedPlan svc_env "string list"
  | CRecheck svc_env string
  | CThrottle svc_env string
  | CPlace svc_env string string nat rechecked
  | CVerify svc_env "nat \<Rightarrow> bool" string placed
  | CRecord svc_env string rechecked placed fill
  | CReceipt svc_env "proposal_row \<Rightarrow> order_params \<Rightarrow> string" string
  | CSettleFailed svc_env "failure \<Rightarrow> string" proposal_row failure

definition outcome_of :: "(svc, 'a) state \<Rightarrow> svc \<Rightarrow> svc" where
  "outcome_of m s = snd (run_state m s)"

fun run_call :: "call \<Rightarrow> svc \<Rightarrow> svc" where
  "run_call (CPropose e r prep i nonce) = outcome_of (Propose e r prep i nonce)"
| "run_call (CMandate e m i nonce) = outcome_of (ProposeMandate e m i nonce)"
| "run_call (CMemory e m life i nonce) = outcome_of (ProposeMemory e m life i nonce)"
| "run_call (CReflection e t cl mu why i nonce) = outcome_of (ProposeReflection e t cl mu why i nonce)"
| "run_call (CDecide e code nonce approve sender web) = outcome_of (Decide e code nonce approve sender web)"
| "run_call (CSweep e wording summ a b generic lp) = outcome_of (sweep wording summ a b generic lp e)"
| "run_call (CCancelPending e why) = outcome_of (CancelPending e why)"
| "run_call (CClosedPlan e ids) = outcome_of (CancelForClosedPlan e ids)"
| "run_call (CRecheck e i) = outcome_of (stepRecheck e i)"
| "run_call (CThrottle e i) = outcome_of (stepThrottle e i)"
| "run_call (CPlace e i key attempt rc) = outcome_of (stepPlace e i key attempt rc)"
| "run_call (CVerify e ended i pl) = outcome_of (stepVerify e ended i pl)"
| "run_call (CRecord e i rc pl f) = outcome_of (stepRecord e i rc pl f)"
| "run_call (CReceipt e wording i) = outcome_of (stepReceipt e wording i)"
| "run_call (CSettleFailed e wording p f) = outcome_of (settleFailed e wording p f)"

fun call_env :: "call \<Rightarrow> svc_env" where
  "call_env (CPropose e _ _ _ _) = e" | "call_env (CMandate e _ _ _) = e" | "call_env (CMemory e _ _ _ _) = e"
| "call_env (CReflection e _ _ _ _ _ _) = e" | "call_env (CDecide e _ _ _ _ _) = e" | "call_env (CSweep e _ _ _ _ _ _) = e"
| "call_env (CCancelPending e _) = e" | "call_env (CClosedPlan e _) = e" | "call_env (CRecheck e _) = e"
| "call_env (CThrottle e _) = e" | "call_env (CPlace e _ _ _ _) = e" | "call_env (CVerify e _ _ _) = e"
| "call_env (CRecord e _ _ _ _) = e" | "call_env (CReceipt e _ _) = e" | "call_env (CSettleFailed e _ _ _) = e"

fun call_decider :: "call \<Rightarrow> string option" where
  "call_decider (CDecide e code nonce approve sender web) = decider (v_owner e) sender web"
| "call_decider _ = None"

definition call_legal :: "(string \<Rightarrow> bool) \<Rightarrow> call \<Rightarrow> bool" where
  "call_legal auth c \<longleftrightarrow> env_legal auth (call_env c) \<and> (\<forall>who. call_decider c = Some who \<longrightarrow> auth who)"

lemma outcome_reach: "guar auth m \<Longrightarrow> reach auth s (outcome_of m s)"
  by (simp add: state_io_rel_def outcome_of_def)

lemma call_reach: "call_legal auth c \<Longrightarrow> reach auth s (run_call c s)"
  by (cases c) (auto simp: call_legal_def intro!: outcome_reach guarantees guar_Decide)

interpretation service: stepwise "call_legal auth" run_call "svc_ok auth" "sstep auth" for auth
  by unfold_locales (use call_reach sstep_ok in \<open>auto simp: reach_def\<close>)

definition fresh_service :: svc where
  "fresh_service = \<lparr>sv_table = [], sv_journal = \<lparr>wfs = [], steps = []\<rparr>, sv_log = []\<rparr>"

lemma fresh_ok: "svc_ok auth fresh_service"
  by (simp add: svc_ok_def fresh_service_def pdb_ok_def jwf_empty)

lemma reachable_ok:
  assumes "list_all (call_legal auth) calls"
  shows "svc_ok auth (fold run_call calls fresh_service)"
  by (rule service.run_keeps [OF assms fresh_ok])

text \<open>Who has decided in a history.\<close>

definition asked :: "call list \<Rightarrow> string \<Rightarrow> bool" where
  "asked calls who \<longleftrightarrow> (\<exists>c \<in> set calls. call_decider c = Some who)"

lemma call_decider_iff:
  "call_decider c = Some who \<longleftrightarrow>
   (\<exists>e code nonce approve sender web. c = CDecide e code nonce approve sender web \<and> decider (v_owner e) sender web = Some who)"
  by (cases c) auto

lemma decider_SomeE:
  assumes "decider c sender web = Some who"
  obtains route where "OwnerRoute (oe_owner c) = Some route"
    "(who = CanonicalSender sender [] \<and> SameSender who (rt_sender_id route)) \<or> (who = WebOwner \<and> web \<and> WebOwnerActive c)"
  using assms by (auto simp: decider_def owner_def Let_def split: option.splits if_splits)

section \<open>What approvals promise\<close>

text \<open>C16. However proposals, decisions, sweeps and executions interleave, statement by statement, a proposal that is
  approved, rejected, executing, executed or failed was decided before its expiry, by a call of \<open>Decide\<close> whose
  sender is the configured owner, or that came from the web chat while that route was active.\<close>

theorem approvals_come_from_the_owner:
  assumes "\<forall>c \<in> set calls. env_legal (asked calls) (call_env c)"
    "r \<in> set (sv_table (fold run_call calls fresh_service))" "p_status r \<notin> {PPending, PExpired, PCancelled}"
  shows "\<exists>e code nonce approve sender web route. CDecide e code nonce approve sender web \<in> set calls \<and>
    OwnerRoute (oe_owner (v_owner e)) = Some route \<and>
    ((p_decided_by r = CanonicalSender sender [] \<and> SameSender (p_decided_by r) (rt_sender_id route)) \<or>
     (p_decided_by r = WebOwner \<and> web \<and> WebOwnerActive (v_owner e))) \<and>
    (\<exists>t. p_decided r = Some t \<and> t < p_expires r)"
proof -
  have "list_all (call_legal (asked calls)) calls"
    using assms(1) by (auto simp: list_all_iff call_legal_def asked_def)
  then have "pdb_ok (asked calls) (sv_table (fold run_call calls fresh_service))"
    using reachable_ok by (simp add: svc_ok_def)
  then have r: "asked calls (p_decided_by r)" "\<exists>t. p_decided r = Some t \<and> t < p_expires r"
    using assms(2,3) by (auto simp: pdb_ok_def prow_ok_def)
  from r(1) obtain e code nonce approve sender web where
    c: "CDecide e code nonce approve sender web \<in> set calls" "decider (v_owner e) sender web = Some (p_decided_by r)"
    by (auto simp: asked_def call_decider_iff)
  from c(2) obtain route where "OwnerRoute (oe_owner (v_owner e)) = Some route"
    "(p_decided_by r = CanonicalSender sender [] \<and> SameSender (p_decided_by r) (rt_sender_id route)) \<or>
     (p_decided_by r = WebOwner \<and> web \<and> WebOwnerActive (v_owner e))" by (rule decider_SomeE)
  with c(1) r(2) show ?thesis by blast
qed

lemma get_proposal_Inr: "get_proposal i db = Inr r \<Longrightarrow> r \<in> set db \<and> p_id r = i"
  by (auto simp: get_proposal_def dest: sql_first_Some split: option.splits)

lemma executable_Inr:
  assumes "run_state (executable e k i) s = (Inr (r, op), s')"
  shows "s' = v_gap e [k] s \<and> r \<in> set (sv_table s') \<and> p_id r = i \<and> executable_row e r = Inr op"
  using assms get_proposal_Inr [of i "sv_table (v_gap e [k] s)"]
  by (auto simp: executable_def query_def Let_def split: sum.splits)

lemma executable_row_Inr:
  assumes "executable_row e r = Inr op"
  shows "p_status r \<in> {PApproved, PExecuting} \<and> verified (v_lib e) KindOrder r = Inr (POrder op) \<and>
    (\<exists>ownerID. OwnerDecider (v_owner e) (p_decided_by r) = Some ownerID \<and> SameSender (p_decided_by r) ownerID) \<and> p_decided r \<noteq> None"
  using assms by (auto simp: executable_row_def decodeVerified_def split: if_splits option.splits sum.splits payload.splits)

text \<open>C17. Whenever the place step calls the exchange, in any interleaving, the proposal it places for was decided by
  somebody entitled who is still the owner of the configuration, before its expiry and no longer ago than the
  proposal was open; the order is exactly the one whose hash was stored; and with the kill switch engaged it
  only reduces risk.\<close>

theorem placed_orders_were_approved:
  assumes "list_all (call_legal auth) calls" "env_legal auth e"
    and "run_state (stepPlace e i key attempt rc) (fold run_call calls fresh_service) = (res, s')"
    and "\<forall>tag err. res \<noteq> Inl (StepRefused tag err)"
  shows "\<exists>r op t. r \<in> set (sv_table s') \<and> p_id r = i \<and> p_status r \<in> {PApproved, PExecuting} \<and>
    last (sv_log s') = FxPlace i op key attempt rc \<and> verified (v_lib e) KindOrder r = Inr (POrder op) \<and>
    auth (p_decided_by r) \<and>
    (\<exists>ownerID. OwnerDecider (v_owner e) (p_decided_by r) = Some ownerID \<and> SameSender (p_decided_by r) ownerID) \<and>
    p_decided r = Some t \<and> t < p_expires r \<and> now_at e 0 - from_ms t \<le> from_ms (p_expires r) - from_ms (p_created r) \<and>
    (v_killed e \<longrightarrow> rc_reducing rc)"
proof -
  let ?s = "fold run_call calls fresh_service"
  obtain x u where x: "run_state (executable e 0 i) ?s = (x, u)" by fastforce
  have "\<exists>r op. x = Inr (r, op) \<and> stale (now_at e 0) r = Inr () \<and> (v_killed e \<longrightarrow> rc_reducing rc) \<and>
      s' = u\<lparr>sv_log := sv_log u @ [FxPlace i op key attempt rc]\<rparr>"
    using assms(3,4) x
    by (auto simp: stepPlace_def Let_def tell_def split: sum.splits if_splits)
  then obtain r op where ro: "x = Inr (r, op)" "stale (now_at e 0) r = Inr ()" "v_killed e \<longrightarrow> rc_reducing rc"
    "s' = u\<lparr>sv_log := sv_log u @ [FxPlace i op key attempt rc]\<rparr>" by blast
  have r: "u = v_gap e [0] ?s" "r \<in> set (sv_table u)" "p_id r = i" "executable_row e r = Inr op"
    using executable_Inr [OF x [unfolded ro(1)]] by blast+
  have "svc_ok auth u" unfolding r(1)
    by (rule reach_ok [OF env_legal_gap [OF assms(2)] reachable_ok [OF assms(1)]])
  then have p: "prow_ok auth r" using r(2) by (simp add: svc_ok_def pdb_ok_def)
  note d = executable_row_Inr [OF r(4)]
  obtain t where t: "p_decided r = Some t" "t < p_expires r" "auth (p_decided_by r)"
    using p d by (auto simp: prow_ok_def)
  have "now_at e 0 - from_ms t \<le> from_ms (p_expires r) - from_ms (p_created r)"
    using ro(2) t(1) by (auto simp: stale_def Let_def split: if_splits)
  then show ?thesis using r d t ro by (intro exI [of _ r] exI [of _ op] exI [of _ t]) simp
qed

section \<open>Witnesses\<close>

definition demo_order :: order_params where
  "demo_order = \<lparr>op_provider = ''binance'', op_account = [], op_market = ''spot'', op_symbol = ''BTC/USDT'', op_side = ''sell'',
     op_type = ''market'', op_amount = Fin 1, op_price = None, op_reduce_only = False, op_position_side = [], op_margin_mode = [],
     op_ref_price = Fin 100, op_notional_usd = Fin 100, op_collar_pct = Fin 1\<rparr>"

definition demo_lib :: alib where
  "demo_lib = \<lparr>al_hash = (\<lambda>k p. kind_text k @ p), al_encode = (\<lambda>v. Some ''{}''), al_decode = (\<lambda>k p. Some (POrder demo_order)),
     al_zone = (\<lambda>z. True), al_letter = (\<lambda>r. True)\<rparr>"

definition demo_owner :: owner_env where
  "demo_owner = \<lparr>oe_owner = \<lparr>oc_channel = ''telegram'', oc_chat_id = ''7'', oc_sender_id = ''telegram:7'', oc_web_is_owner = None\<rparr>,
     oe_host = [], oe_gate = None\<rparr>"

definition demo_env :: svc_env where
  "demo_env = \<lparr>v_lib = demo_lib, v_owner = demo_owner, v_minutes = 10, v_lang = ''en'', v_zone = ''UTC'', v_mandates = False,
     v_memories = False, v_reflections = False, v_digest = False, v_engine = True, v_editor = False,
     v_defs = [WorkflowKind \<mapsto> True], v_json_valid = (\<lambda>s. True), v_killed = False, v_clock = (\<lambda>p. minute), v_gap = (\<lambda>p s. s),
     v_codes = (\<lambda>k. [1, 2, 3, 4]), v_card = (\<lambda>p. Some []), v_thai = (\<lambda>s. s), v_delivered = Some (''telegram'', ''7'', [''1'']),
     v_queued = True, v_sink = (\<lambda>p. SinkDone), v_add_months = (\<lambda>t. t),
     b_recheck = (\<lambda>p. Inl ErrStale), b_throttle = (\<lambda>p. True), b_place = (\<lambda>p k n rc. Inl (OtherError ''the account is gone'')),
     b_fetch = (\<lambda>n. None), b_text = (\<lambda>x. []), v_polls = 5, v_told = True, v_describe = (\<lambda>v. [])\<rparr>"

definition demo_request :: propose_request where
  "demo_request = \<lparr>rq_rationale = [], rq_origin = OriginOwner, rq_trust = 3, rq_deliver_now = True, rq_candidate = [],
     rq_intervention = [], rq_mandate = [], rq_expiry = 0\<rparr>"

definition demo_calls :: "call list" where
  "demo_calls = [CPropose demo_env demo_request (Inr \<lparr>pr_params = demo_order, pr_reducing = True, pr_mode = ''live''\<rparr>) ''p1'' ''n1'',
     CDecide demo_env ''BCDE'' [] True ''telegram:7'' False]"

definition demo_rc :: rechecked where
  "demo_rc = \<lparr>rc_reducing = True, rc_mode = ''live'', rc_notional = Fin 100, rc_last = Fin 100, rc_pnl = None, rc_position = Fin 0\<rparr>"

lemma demo_legal: "env_legal auth demo_env"
  by (simp add: env_legal_def demo_env_def reach_refl)

lemma demo_statuses: "map p_status (sv_table (fold run_call demo_calls fresh_service)) = [PExecuting]"
  by code_simp

lemma demo_placed: "fst (run_state (stepPlace demo_env ''p1'' ''ap_p1:3:place'' 1 demo_rc) (fold run_call demo_calls fresh_service))
    = Inl (StepFailed tagNone (OtherError ''the account is gone''))"
  by code_simp

theorem approvals_come_from_the_owner_witness:
  "\<exists>r e code nonce approve sender web route. r \<in> set (sv_table (fold run_call demo_calls fresh_service)) \<and>
    CDecide e code nonce approve sender web \<in> set demo_calls \<and> OwnerRoute (oe_owner (v_owner e)) = Some route \<and>
    ((p_decided_by r = CanonicalSender sender [] \<and> SameSender (p_decided_by r) (rt_sender_id route)) \<or>
     (p_decided_by r = WebOwner \<and> web \<and> WebOwnerActive (v_owner e)))"
proof -
  let ?t = "sv_table (fold run_call demo_calls fresh_service)"
  obtain r where r: "?t = [r]" "p_status r = PExecuting" using demo_statuses by (cases ?t) auto
  have "\<forall>c \<in> set demo_calls. env_legal (asked demo_calls) (call_env c)" by (simp add: demo_calls_def demo_legal)
  from approvals_come_from_the_owner [OF this, of r] r show ?thesis by fastforce
qed

theorem placed_orders_were_approved_witness:
  "\<exists>r op t. r \<in> set (sv_table (snd (run_state (stepPlace demo_env ''p1'' ''ap_p1:3:place'' 1 demo_rc)
       (fold run_call demo_calls fresh_service)))) \<and> p_id r = ''p1'' \<and> p_decided r = Some t \<and> t < p_expires r \<and>
     verified demo_lib KindOrder r = Inr (POrder op)"
proof -
  have "list_all (call_legal anyone) demo_calls" by (simp add: demo_calls_def call_legal_def demo_legal)
  moreover have "v_lib demo_env = demo_lib" by (simp add: demo_env_def)
  ultimately show ?thesis
    using placed_orders_were_approved [OF _ demo_legal surjective_pairing, of anyone demo_calls "''p1''" "''ap_p1:3:place''" 1 demo_rc]
      demo_placed by auto
qed

end
