(* ===== verification/OrderBackend.thy ===== *)
theory OrderBackend
  imports ApprovalSafety
begin

text \<open>
  The order backend of the approvals (\<open>pkg/tools/order_backend.go\<close>): the price collar of the recheck and the
  placing, which joins the place step of the approval service to \<open>PlaceOrderIdempotent\<close>. The gates that value an
  order need the exchange's market data; their answer is the record \<open>evaluation\<close>. What resolves a provider
  for an account is an argument: an error or an adapter.
\<close>

section \<open>The price collar\<close>

record evaluation =
  ev_ref :: f64
  ev_notional :: f64
  ev_reducing :: bool
  ev_mode :: string
  ev_position_side :: string
  ev_margin_mode :: string
  ev_pnl :: "f64 option"
  ev_contracts :: f64

text \<open>How far, in percent of \<open>ref\<close>, the price has moved against a side.\<close>

definition adverseMovePct :: "string \<Rightarrow> f64 \<Rightarrow> f64 \<Rightarrow> f64" where
  "adverseMovePct side ref now =
     (if \<not> positive ref \<or> \<not> positive now then Inf False
      else let move = f_mul (f_div (f_sub now ref) ref) (Fin 100) in
           f_max (if side = ''sell'' then f_sub (Fin 0) move else move) (Fin 0))"

definition Recheck :: "order_params \<Rightarrow> aerr + evaluation \<Rightarrow> aerr + rechecked" where
  "Recheck op gate =
     try_ok gate (\<lambda>ev.
       if \<not> ev_reducing ev \<and> f_lt (op_collar_pct op) (adverseMovePct (op_side op) (op_ref_price op) (ev_ref ev))
       then Inl (ErrBackend ''price collar'')
       else Inr \<lparr>rc_reducing = ev_reducing ev, rc_mode = ev_mode ev, rc_notional = ev_notional ev, rc_last = ev_ref ev,
                 rc_pnl = ev_pnl ev, rc_position = ev_contracts ev\<rparr>)"

section \<open>Placing an approved order\<close>

definition positiveOrZero :: "f64 \<Rightarrow> bool" where
  "positiveOrZero x \<longleftrightarrow> f_finite x \<and> f_le (Fin 0) x"

definition done_statuses :: "string list" where
  "done_statuses = [''closed'', ''filled'', ''canceled'', ''cancelled'', ''expired'', ''rejected'']"

text \<open>What an order says about its own fill; \<open>fee\<close> is its fee, cost and currency.\<close>

definition fillOf :: "ccxt_order \<Rightarrow> (f64 option \<times> string option) \<Rightarrow> fill" where
  "fillOf od fee =
     (let status = to_lower (case od_status od of None \<Rightarrow> [] | Some s \<Rightarrow> s) in
      \<lparr>fl_known = (case od_filled od of None \<Rightarrow> False | Some x \<Rightarrow> positiveOrZero x), fl_status = status,
       fl_filled = (case od_filled od of None \<Rightarrow> Fin 0 | Some x \<Rightarrow> if positiveOrZero x then x else Fin 0),
       fl_avg = (case od_average od of None \<Rightarrow> Fin 0 | Some x \<Rightarrow> if positive x then x else Fin 0),
       fl_fee = (case fst fee of None \<Rightarrow> Fin 0 | Some x \<Rightarrow> if positive x then x else Fin 0),
       fl_ccy = (case fst fee of None \<Rightarrow> [] | Some x \<Rightarrow> if positive x then (case snd fee of None \<Rightarrow> [] | Some c \<Rightarrow> c) else []),
       fl_done = (status \<in> set done_statuses)\<rparr>)"

definition outcome_text :: "place_outcome \<Rightarrow> string" where
  "outcome_text oc = (case oc of OutcomePlaced \<Rightarrow> ''placed'' | OutcomeFoundExisting \<Rightarrow> ''found_existing''
     | OutcomePlacedAfterReconcile \<Rightarrow> ''placed_after_reconcile'')"

text \<open>The request a placement makes of the stored parameters.\<close>

definition approved_request :: "order_params \<Rightarrow> rechecked \<Rightarrow> order_req" where
  "approved_request p rc =
     (let fut = (op_market p = ''futures'') in
      \<lparr>rq_market = op_market p, rq_symbol = op_symbol p, rq_type = op_type p, rq_side = op_side p, rq_amount = op_amount p,
       rq_price = op_price p, rq_tick = Fin 0, rq_reduce_only = fut \<and> op_reduce_only p,
       rq_margin_mode = (if fut then op_margin_mode p else []), rq_position_side = (if fut then op_position_side p else []),
       rq_position_before = (if fut \<and> f_lt (Fin 0) (rc_position rc) then Some (rc_position rc) else None),
       rq_params = Map.empty\<rparr>)"

definition PlaceApprovedOrder :: "bool \<Rightarrow> string + 'w venue \<Rightarrow> (ccxt_order \<Rightarrow> f64 option \<times> string option) \<Rightarrow> place_env
    \<Rightarrow> order_params \<Rightarrow> string \<Rightarrow> int \<Rightarrow> go_time option \<Rightarrow> rechecked \<Rightarrow> ('w, place_err + placed) state" where
  "PlaceApprovedOrder paper provider fee e p key attempt first rc =
     (if op_market p \<noteq> ''spot'' \<and> op_market p \<noteq> ''futures'' then reply (Inl (OtherError ''unknown market''))
      else if op_market p = ''futures'' \<and> paper \<and> \<not> op_reduce_only p then reply (Inl PaperModeUnsupported)
      else case provider of
        Inl why \<Rightarrow> reply (Inl (OtherError why))
      | Inr v \<Rightarrow> do {
          r \<leftarrow> PlaceOrderIdempotent v e (approved_request p rc) key attempt first;
          reply (try_ok r (\<lambda>(od, oc, cid).
            Inr \<lparr>pl_order = (case od_id od of None \<Rightarrow> [] | Some i \<Rightarrow> i), pl_client = cid,
                 pl_status = (case od_status od of None \<Rightarrow> [] | Some s \<Rightarrow> s), pl_outcome = outcome_text oc,
                 pl_fill = fillOf od (fee od)\<rparr>))
        })"

section \<open>What the tags say\<close>

lemma run_reply: "run_state (reply x) w = (x, w)"
  by simp

lemma first_send:
  assumes "\<And>req params w err w'. vn_create v req params w = (Inl err, w') \<Longrightarrow> isDefiniteRejection err \<Longrightarrow> held w' = held w"
    and "run_state (send_order v e futures req spec cid 1) w = (Inl err, w')" "place_tag err = tagNone"
  shows "held w' = held w"
proof (cases "pe_ended_before e")
  case True
  then show ?thesis using assms(2) by (simp add: send_order_def)
next
  case False
  let ?p = "case spec of None \<Rightarrow> rq_params req | Some (key, _) \<Rightarrow> (rq_params req)(key \<mapsto> Some cid)"
  obtain r u where cr: "vn_create v req ?p w = (r, u)" by fastforce
  show ?thesis
  proof (cases r)
    case (Inl c)
    then have "w' = u \<and> isDefiniteRejection c"
      using assms(2,3) cr False
      by (auto simp: send_order_def afterPlaceError_def place_tag_def tagNone_def tagMaybe_def split: if_splits)
    then show ?thesis using assms(1) cr Inl by blast
  qed (use assms(2) cr False in \<open>simp add: send_order_def\<close>)
qed

text \<open>C18. When the first attempt to place an approved order fails with the tag that says nothing was placed, the
  exchange holds no more than before, provided its own definite refusals are refusals.\<close>

theorem first_attempt_tag_is_right:
  assumes "run_state (PlaceApprovedOrder paper provider fee e p key 1 first rc) w = (Inl err, w')" "place_tag err = tagNone"
    and "\<And>v req params w err w'. provider = Inr v \<Longrightarrow> vn_create v req params w = (Inl err, w') \<Longrightarrow> isDefiniteRejection err \<Longrightarrow> held w' = held w"
  shows "held w' = held w"
proof (cases provider)
  case (Inr v)
  obtain r u where pr: "run_state (PlaceOrderIdempotent v e (approved_request p rc) key 1 first) w = (r, u)" by fastforce
  have "w' = w \<or> (r = Inl err \<and> w' = u)"
    using assms(1) pr Inr by (auto simp: PlaceApprovedOrder_def try_ok_eq_Inl split: if_splits)
  moreover have "held u = held w" if r: "r = Inl err"
  proof -
    have "u = w \<or> (\<exists>futures spec cid. run_state (send_order v e futures (normalise_req (approved_request p rc)) spec cid 1) w = (Inl err, u))"
      using pr r by (auto simp: PlaceOrderIdempotent_def Let_def split: sum.splits)
    then show ?thesis using first_send [of v held, OF assms(3) [OF Inr] _ assms(2)] by auto
  qed
  ultimately show ?thesis by auto
qed (use assms(1) in \<open>auto simp: PlaceApprovedOrder_def split: if_splits\<close>)

text \<open>
  A lost answer, then a retry whose account cannot be resolved any more: the exchange holds the order of the
  first attempt, and the journal is told that none was placed.
\<close>

definition buy_params :: order_params where
  "buy_params = demo_order\<lparr>op_side := ''buy''\<rparr>"

definition no_fee :: "ccxt_order \<Rightarrow> f64 option \<times> string option" where
  "no_fee od = (None, None)"

definition cut_attempt :: "(place_err + placed) \<times> string list \<times> int" where
  "cut_attempt = run_state (PlaceApprovedOrder False (Inr lossy_venue) no_fee quiet_env buy_params ''ap_p1:3:place'' 1 (Some 0) demo_rc) ([], 0)"

definition late_attempt :: "(place_err + placed) \<times> string list \<times> int" where
  "late_attempt = run_state (PlaceApprovedOrder False (Inl ''the account is gone'') no_fee quiet_env buy_params ''ap_p1:3:place'' 2 (Some 0) demo_rc)
     (snd cut_attempt)"

definition failed_place :: "place_err \<Rightarrow> step_row" where
  "failed_place err = \<lparr>s_wf = ''ap_p1'', s_seq = 3, s_name = ''place'', s_attempts = 2, s_failures = 2, s_started = 6000, s_first = 0,
     s_finished = Some 6000, s_wake = None, s_output = None, s_error = place_tag err @ ''the account is gone''\<rparr>"


section \<open>Witnesses\<close>

definition refusing_venue :: "(string list \<times> int) venue" where
  "refusing_venue = lossy_venue\<lparr>vn_create := \<lambda>req params w. (Inl (timeout_err\<lparr>ce_ccxt := Some ''BadSymbol''\<rparr>), w)\<rparr>"

definition refused_attempt :: "(place_err + placed) \<times> string list \<times> int" where
  "refused_attempt = run_state (PlaceApprovedOrder False (Inr refusing_venue) no_fee quiet_env buy_params ''ap_p1:3:place'' 1 (Some 0) demo_rc) ([], 0)"

lemma refused_attempt: "refused_attempt = (Inl (Refusal (timeout_err\<lparr>ce_ccxt := Some ''BadSymbol''\<rparr>)), snd refused_attempt)"
proof -
  have "fst refused_attempt = Inl (Refusal (timeout_err\<lparr>ce_ccxt := Some ''BadSymbol''\<rparr>))" by code_simp
  then show ?thesis by (metis prod.collapse)
qed

theorem first_attempt_tag_is_right_witness: "fst (snd refused_attempt) = []"
proof -
  have run: "run_state (PlaceApprovedOrder False (Inr refusing_venue) no_fee quiet_env buy_params ''ap_p1:3:place'' 1 (Some 0) demo_rc) ([], 0)
      = (Inl (Refusal (timeout_err\<lparr>ce_ccxt := Some ''BadSymbol''\<rparr>)), snd refused_attempt)"
    using refused_attempt by (simp add: refused_attempt_def)
  have keeps: "fst w' = fst w" if "Inr refusing_venue = (Inr v :: string + (string list \<times> int) venue)"
    and "vn_create v req params w = (Inl err, w')" for v req params w err w'
    using that by (auto simp: refusing_venue_def)
  have "fst (snd refused_attempt) = fst ([], 0::int)"
    by (rule first_attempt_tag_is_right [where held = fst, OF run]) (simp add: place_tag_def, rule keeps)
  then show ?thesis by simp
qed

end
