(* ===== verification/Dca.thy ===== *)
theory Dca
  imports Float64 Calendar Approval
begin

text \<open>
  The store of the recurring buys (\<open>pkg/dca/store.go\<close>, \<open>mandate.go\<close>, \<open>types.go\<close>): plans, their executions, and the
  mandates under which a plan buys without a question. A time column of the plans and executions holds an
  RFC 3339 text in seconds; it is carried as the instant, None for a text that is no time (nothing here writes
  one). Mandates keep milliseconds. The database computes NULL for a NaN, which no column takes.
\<close>

section \<open>Rows\<close>

record indicator =
  ic_alias :: string
  ic_kind :: string
  ic_params :: string \<comment> \<open>JSON\<close>

record trigger =
  tr_timeframe :: string
  tr_lookback :: int
  tr_indicators :: "indicator list"
  tr_expression :: string

record plan =
  pn_id :: int
  pn_name :: string
  pn_provider :: string
  pn_account :: string
  pn_symbol :: string
  pn_amount :: f64
  pn_unit :: string
  pn_frequency :: string
  pn_timezone :: string
  pn_cron_job :: string
  pn_start :: go_time
  pn_end :: "go_time option"
  pn_enabled :: bool
  pn_invested :: f64
  pn_quantity :: f64
  pn_avg_cost :: f64
  pn_side :: string
  pn_trigger :: "trigger option"
  pn_max_exec :: int
  pn_exec_period :: string
  pn_notify_channel :: string
  pn_notify_chat :: string
  pn_created :: go_time
  pn_updated :: go_time

record execution =
  ex_id :: int
  ex_plan :: int
  ex_at :: "go_time option"
  ex_symbol :: string
  ex_provider :: string
  ex_account :: string
  ex_order :: string
  ex_amount :: f64
  ex_price :: f64
  ex_quantity :: f64
  ex_fee :: f64
  ex_status :: string
  ex_error :: string
  ex_side :: string
  ex_created :: "go_time option"
  ex_workflow :: string

datatype mandate_status = MandateActive | MandateRevoked | MandateExpired

record mandate =
  ma_id :: string
  ma_kind :: string
  ma_plan :: int
  ma_provider :: string
  ma_account :: string
  ma_symbol :: string
  ma_side :: string
  ma_quote :: string
  ma_run_quote :: f64
  ma_period_quote :: f64
  ma_run_usd :: f64
  ma_period_usd :: f64
  ma_period :: string
  ma_timezone :: string
  ma_from :: int
  ma_expires :: int
  ma_status :: mandate_status
  ma_proposal :: string
  ma_reason :: string
  ma_legacy_off :: bool
  ma_created :: int

record mandate_use =
  us_mandate :: string
  us_workflow :: string
  us_usd :: f64
  us_at :: int
  us_paper :: bool

record pending_mandate =
  pm_plan :: int
  pm_proposal :: string
  pm_asked :: int
  pm_reminded :: bool

record slot_ask =
  sa_plan :: int
  sa_slot :: int
  sa_proposal :: string
  sa_bound :: string
  sa_price :: f64
  sa_at :: int

record muted_skip =
  ms_plan :: int
  ms_slot :: int
  ms_told :: bool

text \<open>The tables; \<open>AUTOINCREMENT\<close> ids are never given twice.\<close>

record dca =
  d_plans :: "plan list"
  d_next_plan :: int
  d_execs :: "execution list"
  d_next_exec :: int
  d_mandates :: "mandate list"
  d_uses :: "mandate_use list"
  d_pending :: "pending_mandate list"
  d_unproven :: "(int \<times> string \<times> string) list"
  d_asks :: "slot_ask list"
  d_skips :: "muted_skip list"
  d_skip_day :: "(int \<times> string) list"
  d_days :: "(string \<times> string) list"

definition empty_dca :: dca where
  "empty_dca = \<lparr>d_plans = [], d_next_plan = 1, d_execs = [], d_next_exec = 1, d_mandates = [], d_uses = [], d_pending = [],
     d_unproven = [], d_asks = [], d_skips = [], d_skip_day = [], d_days = []\<rparr>"

datatype derr = DNotFound int | DConstraint string | DBadDelta | DUnknownPeriod string | DNoWorkflow | DZone string
  | DNotMandate | DNotApproved pstatus | DNotDecidedByOwner | DDecidedLate | DProposal aerr | DMandateOver

definition whole_second :: "go_time \<Rightarrow> go_time" where
  "whole_second t = truncate_time second t"

section \<open>Plans\<close>

definition plan_defaults :: "plan \<Rightarrow> plan" where
  "plan_defaults p = p\<lparr>pn_side := (if pn_side p = [] then ''buy'' else pn_side p),
     pn_unit := (if pn_unit p = [] then ''quote'' else pn_unit p), pn_start := whole_second (pn_start p),
     pn_end := map_option whole_second (pn_end p)\<rparr>"

definition plan_numbers :: "plan \<Rightarrow> f64 list" where
  "plan_numbers p = [pn_amount p, pn_invested p, pn_quantity p, pn_avg_cost p]"

definition SavePlan :: "plan \<Rightarrow> dca \<Rightarrow> derr + dca \<times> int" where
  "SavePlan p db =
     (if \<exists>q \<in> set (d_plans db). pn_name q = pn_name p then Inl (DConstraint ''name'')
      else if NaN \<in> set (plan_numbers p) then Inl (DConstraint ''null'')
      else let i = d_next_plan db in
        Inr (db\<lparr>d_plans := d_plans db @ [(plan_defaults p)\<lparr>pn_id := i, pn_created := whole_second (pn_created p),
                 pn_updated := whole_second (pn_updated p)\<rparr>], d_next_plan := i + 1\<rparr>, i))"

text \<open>The update writes every column but the id and the time of creation.\<close>

definition UpdatePlan :: "plan \<Rightarrow> go_time \<Rightarrow> dca \<Rightarrow> derr + dca" where
  "UpdatePlan p now db =
     (if (\<exists>q \<in> set (d_plans db). pn_id q = pn_id p) \<and>
         (\<exists>q \<in> set (d_plans db). pn_name q = pn_name p \<and> pn_id q \<noteq> pn_id p) then Inl (DConstraint ''name'')
      else if (\<exists>q \<in> set (d_plans db). pn_id q = pn_id p) \<and> NaN \<in> set (plan_numbers p) then Inl (DConstraint ''null'')
      else Inr (db\<lparr>d_plans := sql_update (\<lambda>q. pn_id q = pn_id p)
             (\<lambda>q. (plan_defaults p)\<lparr>pn_created := pn_created q, pn_updated := whole_second now\<rparr>) (d_plans db)\<rparr>))"

definition GetPlan :: "int \<Rightarrow> dca \<Rightarrow> derr + plan" where
  "GetPlan i db = (case sql_first (\<lambda>p. pn_id p = i) (d_plans db) of None \<Rightarrow> Inl (DNotFound i) | Some p \<Rightarrow> Inr p)"

text \<open>Deleting a plan takes its executions along (\<open>ON DELETE CASCADE\<close>); its mandates and their usage stay.\<close>

definition DeletePlan :: "int \<Rightarrow> dca \<Rightarrow> dca" where
  "DeletePlan i db = db\<lparr>d_plans := sql_delete (\<lambda>p. pn_id p = i) (d_plans db),
     d_execs := (if \<exists>p \<in> set (d_plans db). pn_id p = i then sql_delete (\<lambda>x. ex_plan x = i) (d_execs db) else d_execs db)\<rparr>"

subsection \<open>The totals of a plan\<close>

record stats_delta =
  sd_side :: string
  sd_amount :: f64
  sd_quantity :: f64

definition invalid_delta :: "f64 \<Rightarrow> bool" where
  "invalid_delta v \<longleftrightarrow> is_nan v \<or> is_inf v \<or> f_lt v (Fin 0)"

definition sell_totals :: "f64 \<Rightarrow> plan \<Rightarrow> plan" where
  "sell_totals qty p = p\<lparr>
     pn_invested := (if f_le (f_sub (pn_quantity p) qty) (Fin 0) then Fin 0
       else f_max (Fin 0) (f_sub (pn_invested p) (f_mul (pn_avg_cost p) qty))),
     pn_quantity := f_max (Fin 0) (f_sub (pn_quantity p) qty)\<rparr>"

definition buy_totals :: "f64 \<Rightarrow> f64 \<Rightarrow> plan \<Rightarrow> plan" where
  "buy_totals amount qty p = p\<lparr>
     pn_invested := f_add (pn_invested p) amount,
     pn_quantity := f_add (pn_quantity p) qty,
     pn_avg_cost := (if f_lt (Fin 0) (f_add (pn_quantity p) qty)
       then f_div (f_add (pn_invested p) amount) (f_add (pn_quantity p) qty) else Fin 0)\<rparr>"

definition applyStats :: "int \<Rightarrow> stats_delta \<Rightarrow> go_time \<Rightarrow> dca \<Rightarrow> derr + dca" where
  "applyStats i d now db =
     (if invalid_delta (sd_amount d) \<or> invalid_delta (sd_quantity d) then Inl DBadDelta
      else let change = (\<lambda>p. (if sd_side d = ''sell'' then sell_totals (sd_quantity d) p
                  else buy_totals (sd_amount d) (sd_quantity d) p)\<lparr>pn_updated := whole_second now\<rparr>)
           in case GetPlan i db of
             Inl err \<Rightarrow> Inl err
           | Inr p \<Rightarrow>
               if NaN \<in> set (plan_numbers (change p)) then Inl (DConstraint ''null'')
               else Inr (db\<lparr>d_plans := sql_update (\<lambda>q. pn_id q = i) change (d_plans db)\<rparr>))"

definition UpdatePlanStats :: "int \<Rightarrow> f64 \<Rightarrow> f64 \<Rightarrow> go_time \<Rightarrow> dca \<Rightarrow> derr + dca" where
  "UpdatePlanStats i amount qty now db =
     try_ok (GetPlan i db) (\<lambda>p. applyStats i \<lparr>sd_side = pn_side p, sd_amount = amount, sd_quantity = qty\<rparr> now db)"

section \<open>Executions\<close>

definition exec_numbers :: "execution \<Rightarrow> f64 list" where
  "exec_numbers x = [ex_amount x, ex_price x, ex_quantity x, ex_fee x]"

text \<open>A new row has no workflow; a foreign key names its plan.\<close>

definition insertExecution :: "execution \<Rightarrow> dca \<Rightarrow> derr + dca \<times> int" where
  "insertExecution x db =
     (if \<forall>p \<in> set (d_plans db). pn_id p \<noteq> ex_plan x then Inl (DConstraint ''plan'')
      else if NaN \<in> set (exec_numbers x) then Inl (DConstraint ''null'')
      else let i = d_next_exec db in
        Inr (db\<lparr>d_execs := d_execs db @ [x\<lparr>ex_id := i, ex_at := map_option whole_second (ex_at x), ex_created := map_option whole_second (ex_created x),
                 ex_side := (if ex_side x = [] then ''buy'' else ex_side x), ex_workflow := []\<rparr>], d_next_exec := i + 1\<rparr>, i))"

definition with_delta :: "execution \<Rightarrow> stats_delta option \<Rightarrow> go_time \<Rightarrow> dca \<Rightarrow> derr + dca" where
  "with_delta x delta now db =
     (case delta of
        None \<Rightarrow> Inr db
      | Some d \<Rightarrow> applyStats (ex_plan x) (if sd_side d = [] then d\<lparr>sd_side := ex_side x\<rparr> else d) now db)"

text \<open>One transaction: both the row and the totals, or neither.\<close>

definition SaveExecutionTx :: "execution \<Rightarrow> stats_delta option \<Rightarrow> go_time \<Rightarrow> dca \<Rightarrow> derr + dca \<times> int" where
  "SaveExecutionTx x delta now db =
     try_ok (insertExecution x db) (\<lambda>(db, i). try_ok (with_delta x delta now db) (\<lambda>db. Inr (db, i)))"

definition CountExecutions :: "int \<Rightarrow> dca \<Rightarrow> nat" where
  "CountExecutions i db = sql_count (\<lambda>x. ex_plan x = i) (d_execs db)"

definition CountExecutionsByStatus :: "int \<Rightarrow> dca \<Rightarrow> string \<Rightarrow> nat" where
  "CountExecutionsByStatus i db s = sql_count (\<lambda>x. ex_plan x = i \<and> ex_status x = s) (d_execs db)"

text \<open>\<open>sumf\<close> is the database's \<open>SUM\<close> of a column of doubles.\<close>

definition SellTotals :: "(f64 list \<Rightarrow> f64) \<Rightarrow> int \<Rightarrow> dca \<Rightarrow> f64 \<times> f64" where
  "SellTotals sumf i db =
     (let xs = filter (\<lambda>x. ex_plan x = i \<and> ex_status x = ''completed'' \<and> ex_side x = ''sell'') (d_execs db)
      in (sumf (map ex_quantity xs), sumf (map ex_amount xs)))"

definition periodStart :: "zone \<Rightarrow> go_time \<Rightarrow> string \<Rightarrow> derr + go_time" where
  "periodStart z now period =
     (if period = ''hour'' then Inr (truncate_time hour now)
      else if period = ''day'' then (case date_of z now of (y, m, d) \<Rightarrow> Inr (midnight z y m d))
      else if period = ''week'' then
        (let wd = (if weekday z now = 0 then 7 else weekday z now)
         in case date_of z (add_days z (- (wd - 1)) now) of (y, m, d) \<Rightarrow> Inr (midnight z y m d))
      else Inl (DUnknownPeriod period))"

definition PaperSkipReason :: string where
  "PaperSkipReason = ''paper mode: simulated, no order placed''"

definition counts_toward_cap :: "bool \<Rightarrow> execution \<Rightarrow> bool" where
  "counts_toward_cap includePaper x \<longleftrightarrow> ex_status x \<in> {''completed'', ''pending'', ''unknown''} \<or>
     (includePaper \<and> ex_status x = ''skipped'' \<and> ex_error x = PaperSkipReason)"

text \<open>A row whose time cannot be read counts: the cap is a safety cap.\<close>

definition CountExecutionsInPeriodAt :: "zone \<Rightarrow> int \<Rightarrow> string \<Rightarrow> go_time \<Rightarrow> bool \<Rightarrow> dca \<Rightarrow> derr + nat" where
  "CountExecutionsInPeriodAt z i period now includePaper db =
     (if period = [] then Inr 0
      else try_ok (periodStart z now period) (\<lambda>since.
        Inr (sql_count (\<lambda>x. ex_plan x = i \<and> counts_toward_cap includePaper x \<and>
               (case ex_at x of None \<Rightarrow> True | Some t \<Rightarrow> t \<ge> since)) (d_execs db))))"

text \<open>\<open>ORDER BY key DESC LIMIT 1\<close>, the later row of two with the same key.\<close>

definition newest :: "('r \<Rightarrow> 'k::linorder) \<Rightarrow> 'r list \<Rightarrow> 'r option" where
  "newest key rs = (case rs of [] \<Rightarrow> None | _ \<Rightarrow> Some (last (sort_key key rs)))"

definition LastCompletedExecution :: "int \<Rightarrow> dca \<Rightarrow> execution option" where
  "LastCompletedExecution i db =
     newest (\<lambda>x. case ex_at x of None \<Rightarrow> - (2 ^ 63) | Some t \<Rightarrow> t)
       (filter (\<lambda>x. ex_plan x = i \<and> ex_status x = ''completed'' \<and> f_lt (Fin 0) (ex_price x)) (d_execs db))"

definition LegacyRunSince :: "int \<Rightarrow> go_time \<Rightarrow> dca \<Rightarrow> bool" where
  "LegacyRunSince i since db \<longleftrightarrow>
     (\<exists>x \<in> set (d_execs db). ex_plan x = i \<and> ex_workflow x = [] \<and> ex_status x \<in> {''completed'', ''pending'', ''unknown''} \<and>
        (case ex_at x of None \<Rightarrow> False | Some t \<Rightarrow> t div second \<ge> since div second))"

definition ExecutionByWorkflow :: "string \<Rightarrow> dca \<Rightarrow> execution option" where
  "ExecutionByWorkflow wid db = sql_first (\<lambda>x. ex_workflow x = wid) (d_execs db)"

section \<open>Mandates\<close>

text \<open>Is the plan still what the mandate was approved for?\<close>

definition Matches :: "mandate \<Rightarrow> plan \<Rightarrow> bool" where
  "Matches m p \<longleftrightarrow> ma_plan m = pn_id p \<and> ma_provider m = pn_provider p \<and> ma_account m = pn_account p \<and>
     ma_symbol m = pn_symbol p \<and> ma_side m = (if pn_side p = [] then ''buy'' else pn_side p)"

definition mandate_over :: "go_time \<Rightarrow> mandate \<Rightarrow> bool" where
  "mandate_over now m \<longleftrightarrow> \<not> from_ms (ma_expires m) > now"

definition Expired :: "go_time \<Rightarrow> mandate \<Rightarrow> bool" where
  "Expired now m \<longleftrightarrow> ma_status m \<noteq> MandateRevoked \<and> mandate_over now m"

definition mandateByProposal :: "string \<Rightarrow> dca \<Rightarrow> mandate option" where
  "mandateByProposal i db = sql_first (\<lambda>m. ma_proposal m = i) (d_mandates db)"

definition mandate_of :: "proposal_row \<Rightarrow> mandate_params \<Rightarrow> go_time \<Rightarrow> mandate" where
  "mandate_of p mp now =
     \<lparr>ma_id = ''mnd_'' @ p_id p, ma_kind = mp_kind mp, ma_plan = mp_plan mp, ma_provider = mp_provider mp,
      ma_account = mp_account mp, ma_symbol = mp_symbol mp, ma_side = mp_side mp, ma_quote = mp_quote mp,
      ma_run_quote = mp_run_quote mp, ma_period_quote = mp_period_quote mp, ma_run_usd = mp_run_usd mp,
      ma_period_usd = mp_period_usd mp, ma_period = mp_period mp, ma_timezone = mp_timezone mp, ma_from = unix_ms now,
      ma_expires = mp_expires mp, ma_status = MandateActive, ma_proposal = p_id p, ma_reason = [], ma_legacy_off = False,
      ma_created = unix_ms now\<rparr>"

definition revoke :: "string \<Rightarrow> mandate \<Rightarrow> mandate" where
  "revoke why m = m\<lparr>ma_status := MandateRevoked, ma_reason := why\<rparr>"

definition lift_block :: "int \<Rightarrow> dca \<Rightarrow> dca" where
  "lift_block i db = db\<lparr>d_unproven := sql_delete (\<lambda>(j, _). j = i) (d_unproven db)\<rparr>"

text \<open>The guards on the proposal, and what it verifies to.\<close>

definition proposal_mandate :: "alib \<Rightarrow> proposal_row \<Rightarrow> string \<Rightarrow> go_time \<Rightarrow> derr + mandate_params" where
  "proposal_mandate lib p ownerID now =
     (if p_kind p \<noteq> KindMandate then Inl DNotMandate
      else if p_status p \<noteq> PApproved \<and> p_status p \<noteq> PExecuting \<and> p_status p \<noteq> PExecuted then Inl (DNotApproved (p_status p))
      else case p_decided p of
        None \<Rightarrow> Inl DNotDecidedByOwner
      | Some decided \<Rightarrow>
          if ownerID = [] \<or> \<not> SameSender (p_decided_by p) ownerID then Inl DNotDecidedByOwner
          else if decided > p_expires p then Inl DDecidedLate
          else (case verified lib KindMandate p of
              Inl err \<Rightarrow> Inl (DProposal err)
            | Inr (PMandate mp) \<Rightarrow> if from_ms (mp_expires mp) > now then Inr mp else Inl DMandateOver
            | Inr _ \<Rightarrow> Inl (DProposal ErrHashMismatch)))"

text \<open>The transaction: supersede, insert, drop the pending request, lift the block. A second insert of the same
  proposal, by a caller that raced this one, fails on its unique column.\<close>

definition create_mandate :: "proposal_row \<Rightarrow> mandate_params \<Rightarrow> go_time \<Rightarrow> dca \<Rightarrow> derr + dca" where
  "create_mandate p mp now db =
     (if \<exists>m \<in> set (d_mandates db). ma_proposal m = p_id p \<or> ma_id m = ''mnd_'' @ p_id p then Inl (DConstraint ''mandate'')
      else Inr (lift_block (mp_plan mp) (db\<lparr>
        d_mandates := sql_update (\<lambda>m. ma_plan m = mp_plan mp \<and> ma_status m = MandateActive)
            (revoke ''superseded by a new mandate'') (d_mandates db) @ [mandate_of p mp now],
        d_pending := sql_delete (\<lambda>q. pm_plan q = mp_plan mp) (d_pending db)\<rparr>)))"

definition CreateMandateFromProposal :: "alib \<Rightarrow> proposal_row \<Rightarrow> string \<Rightarrow> go_time \<Rightarrow> dca \<Rightarrow> derr + dca \<times> mandate" where
  "CreateMandateFromProposal lib p ownerID now db =
     try_ok (proposal_mandate lib p ownerID now) (\<lambda>mp.
       case mandateByProposal (p_id p) db of
         Some m \<Rightarrow> Inr (db, m)
       | None \<Rightarrow> try_ok (create_mandate p mp now db) (\<lambda>db. Inr (db, mandate_of p mp now)))"

definition LatestMandateForPlan :: "int \<Rightarrow> dca \<Rightarrow> mandate option" where
  "LatestMandateForPlan i db =
     newest ma_created (filter (\<lambda>m. ma_plan m = i \<and> ma_status m \<noteq> MandateRevoked) (d_mandates db))"

definition ActiveMandateForPlan :: "int \<Rightarrow> go_time \<Rightarrow> dca \<Rightarrow> mandate option" where
  "ActiveMandateForPlan i now db =
     (case LatestMandateForPlan i db of
        None \<Rightarrow> None
      | Some m \<Rightarrow> if ma_status m \<noteq> MandateActive \<or> mandate_over now m then None else Some m)"

definition GetMandate :: "string \<Rightarrow> dca \<Rightarrow> mandate option" where
  "GetMandate i db = sql_first (\<lambda>m. ma_id m = i) (d_mandates db)"

definition ListMandates :: "mandate_status option \<Rightarrow> dca \<Rightarrow> mandate list" where
  "ListMandates s db = sort_key ma_created (filter (\<lambda>m. s = None \<or> s = Some (ma_status m)) (d_mandates db))"

text \<open>Each of the updates answers how many rows it changed.\<close>

definition on_mandates :: "(mandate \<Rightarrow> bool) \<Rightarrow> (mandate \<Rightarrow> mandate) \<Rightarrow> dca \<Rightarrow> dca \<times> nat" where
  "on_mandates P f db = (db\<lparr>d_mandates := sql_update P f (d_mandates db)\<rparr>, sql_count P (d_mandates db))"

definition ExpireMandates :: "go_time \<Rightarrow> dca \<Rightarrow> dca \<times> nat" where
  "ExpireMandates now = on_mandates (\<lambda>m. ma_status m = MandateActive \<and> ma_expires m \<le> unix_ms now) (\<lambda>m. m\<lparr>ma_status := MandateExpired\<rparr>)"

definition RevokeAll :: "string \<Rightarrow> dca \<Rightarrow> dca \<times> nat" where
  "RevokeAll why = on_mandates (\<lambda>m. ma_status m = MandateActive) (revoke why)"

definition RevokePlanMandate :: "int \<Rightarrow> string \<Rightarrow> dca \<Rightarrow> dca \<times> nat" where
  "RevokePlanMandate i why = on_mandates (\<lambda>m. ma_plan m = i \<and> ma_status m = MandateActive) (revoke why)"

definition SetLegacyOff :: "string \<Rightarrow> bool \<Rightarrow> dca \<Rightarrow> dca" where
  "SetLegacyOff i off db = fst (on_mandates (\<lambda>m. ma_id m = i) (\<lambda>m. m\<lparr>ma_legacy_off := off\<rparr>) db)"

definition ClearLegacyOff :: "int \<Rightarrow> dca \<Rightarrow> dca" where
  "ClearLegacyOff i db = fst (on_mandates (\<lambda>m. ma_plan m = i \<and> ma_legacy_off m) (\<lambda>m. m\<lparr>ma_legacy_off := False\<rparr>) db)"

definition PromotedMandate :: "int \<Rightarrow> dca \<Rightarrow> mandate option" where
  "PromotedMandate i db = newest ma_created (filter (\<lambda>m. ma_plan m = i \<and> ma_legacy_off m) (d_mandates db))"

datatype plan_mandate = StatusMandated | StatusAwaitingMandate | NoMandate

definition MandateStatus :: "int \<Rightarrow> go_time \<Rightarrow> dca \<Rightarrow> plan_mandate" where
  "MandateStatus i now db =
     (if ActiveMandateForPlan i now db \<noteq> None then StatusMandated
      else if sql_count (\<lambda>q. pm_plan q = i) (d_pending db) + sql_count (\<lambda>m. ma_plan m = i) (d_mandates db) > 0
        then StatusAwaitingMandate
      else NoMandate)"

subsection \<open>What a mandate has spent\<close>

definition PeriodStart :: "(string \<rightharpoonup> zone) \<Rightarrow> go_time \<Rightarrow> string \<Rightarrow> string \<Rightarrow> derr + go_time" where
  "PeriodStart zones now period tz =
     (case zones tz of
        None \<Rightarrow> Inl (DZone tz)
      | Some z \<Rightarrow>
          (case date_of z now of (y, m, d) \<Rightarrow>
             if period = ''week'' then
               (let wd = (if weekday z now = 0 then 7 else weekday z now) in Inr (midnight z y m (d - (wd - 1))))
             else if period = ''month'' then Inr (midnight z y m 1)
             else Inl (DUnknownPeriod period)))"

text \<open>\<open>sumf\<close> is the database's \<open>SUM\<close>, 0 for no rows.\<close>

definition uses_since :: "string \<Rightarrow> int \<Rightarrow> bool \<Rightarrow> dca \<Rightarrow> mandate_use list" where
  "uses_since i since_ms includePaper db =
     filter (\<lambda>u. us_mandate u = i \<and> us_at u \<ge> since_ms \<and> (\<not> us_paper u \<or> includePaper)) (d_uses db)"

definition MandateUsage :: "(f64 list \<Rightarrow> f64) \<Rightarrow> string \<Rightarrow> go_time \<Rightarrow> bool \<Rightarrow> dca \<Rightarrow> f64" where
  "MandateUsage sumf i since includePaper db =
     (case uses_since i (unix_ms since) includePaper db of [] \<Rightarrow> Fin 0 | us \<Rightarrow> sumf (map us_usd us))"

definition PeriodUsage :: "(f64 list \<Rightarrow> f64) \<Rightarrow> (string \<rightharpoonup> zone) \<Rightarrow> mandate \<Rightarrow> go_time \<Rightarrow> bool \<Rightarrow> dca \<Rightarrow> derr + f64" where
  "PeriodUsage sumf zones m now includePaper db =
     try_ok (PeriodStart zones now (ma_period m) (ma_timezone m)) (\<lambda>since. Inr (MandateUsage sumf (ma_id m) since includePaper db))"

text \<open>The record of a run: one transaction, keyed by the workflow; False for a replay of it.\<close>

definition set_workflow :: "int \<Rightarrow> string \<Rightarrow> dca \<Rightarrow> dca" where
  "set_workflow i wid db = db\<lparr>d_execs := sql_update (\<lambda>x. ex_id x = i) (\<lambda>x. x\<lparr>ex_workflow := wid\<rparr>) (d_execs db)\<rparr>"

definition insert_use :: "mandate_use \<Rightarrow> dca \<Rightarrow> derr + dca" where
  "insert_use u db =
     (if (\<exists>v \<in> set (d_uses db). us_workflow v = us_workflow u) \<or> us_usd u = NaN then Inl (DConstraint ''usage'')
      else Inr (db\<lparr>d_uses := d_uses db @ [u]\<rparr>))"

definition RecordMandateRun ::
  "execution \<Rightarrow> stats_delta option \<Rightarrow> string \<Rightarrow> string \<Rightarrow> f64 \<Rightarrow> bool \<Rightarrow> go_time \<Rightarrow> go_time \<Rightarrow> dca \<Rightarrow> derr + dca \<times> bool" where
  "RecordMandateRun x delta mandateID wid usd paper now clock db =
     (if wid = [] then Inl DNoWorkflow
      else if sql_count (\<lambda>y. ex_workflow y = wid) (d_execs db) > 0 then Inr (db, False)
      else try_ok (insertExecution x db) (\<lambda>(db, i).
        try_ok (with_delta x delta clock (set_workflow i wid db)) (\<lambda>db.
        if f_lt (Fin 0) usd
        then try_ok (insert_use \<lparr>us_mandate = mandateID, us_workflow = wid, us_usd = usd, us_at = unix_ms now, us_paper = paper\<rparr> db)
               (\<lambda>db. Inr (db, True))
        else Inr (db, True))))"

section \<open>Requests, blocks, questions and notices\<close>

definition SetMandatePending :: "int \<Rightarrow> string \<Rightarrow> go_time \<Rightarrow> dca \<Rightarrow> dca" where
  "SetMandatePending i proposal now db =
     (let row = \<lparr>pm_plan = i, pm_proposal = proposal, pm_asked = unix_ms now, pm_reminded = False\<rparr>
      in db\<lparr>d_pending := (if \<exists>q \<in> set (d_pending db). pm_plan q = i
            then sql_update (\<lambda>q. pm_plan q = i) (\<lambda>_. row) (d_pending db) else d_pending db @ [row])\<rparr>)"

definition ClearMandatePending :: "int \<Rightarrow> dca \<Rightarrow> dca" where
  "ClearMandatePending i db = db\<lparr>d_pending := sql_delete (\<lambda>q. pm_plan q = i) (d_pending db)\<rparr>"

definition PendingMandates :: "dca \<Rightarrow> pending_mandate list" where
  "PendingMandates db = sort_key pm_plan (d_pending db)"

definition MarkReminded :: "int \<Rightarrow> dca \<Rightarrow> dca \<times> bool" where
  "MarkReminded i db =
     (let due = (\<lambda>q. pm_plan q = i \<and> \<not> pm_reminded q)
      in (db\<lparr>d_pending := sql_update due (\<lambda>q. q\<lparr>pm_reminded := True\<rparr>) (d_pending db)\<rparr>, sql_count due (d_pending db) = 1))"

text \<open>The first reason stays.\<close>

definition MarkUnproven :: "int \<Rightarrow> string \<Rightarrow> string \<Rightarrow> dca \<Rightarrow> dca" where
  "MarkUnproven i wid why db =
     (if \<exists>(j, _) \<in> set (d_unproven db). j = i then db else db\<lparr>d_unproven := d_unproven db @ [(i, wid, why)]\<rparr>)"

definition Unproven :: "int \<Rightarrow> dca \<Rightarrow> string" where
  "Unproven i db = (case sql_first (\<lambda>(j, _). j = i) (d_unproven db) of None \<Rightarrow> [] | Some (_, _, why) \<Rightarrow> why)"

definition ClearUnproven :: "int \<Rightarrow> dca \<Rightarrow> dca" where
  "ClearUnproven = lift_block"

definition ReserveSlotAsk :: "int \<Rightarrow> int \<Rightarrow> dca \<Rightarrow> dca \<times> bool" where
  "ReserveSlotAsk i slot db =
     (if \<exists>a \<in> set (d_asks db). sa_plan a = i \<and> sa_slot a = slot then (db, False)
      else (db\<lparr>d_asks := d_asks db @ [\<lparr>sa_plan = i, sa_slot = slot, sa_proposal = [], sa_bound = [], sa_price = Fin 0, sa_at = 0\<rparr>]\<rparr>, True))"

definition SetSlotAsk :: "int \<Rightarrow> int \<Rightarrow> string \<Rightarrow> string \<Rightarrow> f64 \<Rightarrow> go_time \<Rightarrow> dca \<Rightarrow> dca" where
  "SetSlotAsk i slot proposal bound price now db =
     (if price = NaN then db
      else db\<lparr>d_asks := sql_update (\<lambda>a. sa_plan a = i \<and> sa_slot a = slot)
          (\<lambda>a. a\<lparr>sa_proposal := proposal, sa_bound := bound, sa_price := price, sa_at := unix_ms now\<rparr>) (d_asks db)\<rparr>)"

definition LastPriceAsk :: "int \<Rightarrow> dca \<Rightarrow> (f64 \<times> go_time) option" where
  "LastPriceAsk i db =
     map_option (\<lambda>a. (sa_price a, from_ms (sa_at a)))
       (newest sa_at (filter (\<lambda>a. sa_plan a = i \<and> sa_bound a = ''price_move'' \<and> f_lt (Fin 0) (sa_price a)) (d_asks db)))"

definition FirstToday :: "string \<Rightarrow> string \<Rightarrow> dca \<Rightarrow> dca \<times> bool" where
  "FirstToday key day db = (if (key, day) \<in> set (d_days db) then (db, False) else (db\<lparr>d_days := d_days db @ [(key, day)]\<rparr>, True))"

definition note_skip :: "int \<Rightarrow> int \<Rightarrow> muted_skip list \<Rightarrow> muted_skip list" where
  "note_skip i slot ss =
     (if \<exists>s \<in> set ss. ms_plan s = i \<and> ms_slot s = slot then ss else ss @ [\<lparr>ms_plan = i, ms_slot = slot, ms_told = False\<rparr>])"

text \<open>Whether the owner is told now, and of how many earlier slots.\<close>

definition NoteMutedSkip :: "int \<Rightarrow> int \<Rightarrow> string \<Rightarrow> dca \<Rightarrow> dca \<times> bool \<times> nat" where
  "NoteMutedSkip i slot day db =
     (let ss = note_skip i slot (d_skips db);
          told = (\<exists>s \<in> set ss. ms_plan s = i \<and> ms_slot s = slot \<and> ms_told s)
      in if told \<or> (case sql_first (\<lambda>(j, _). j = i) (d_skip_day db) of None \<Rightarrow> day = [] | Some (_, d) \<Rightarrow> d = day) then (db\<lparr>d_skips := ss\<rparr>, False, 0)
         else (db\<lparr>d_skips := sql_update (\<lambda>s. ms_plan s = i) (\<lambda>s. s\<lparr>ms_told := True\<rparr>) ss,
                  d_skip_day := sql_delete (\<lambda>(j, _). j = i) (d_skip_day db) @ [(i, day)]\<rparr>,
               True, sql_count (\<lambda>s. ms_plan s = i \<and> \<not> ms_told s \<and> ms_slot s \<noteq> slot) ss))"

end
