(* ===== verification/DcaRun.thy ===== *)
theory DcaRun
  imports Dca Workflow PlaceOrder JournalCtx "HOL-Library.State_Monad"
begin

text \<open>
  The workflow \<open>dca.execute\<close> (\<open>pkg/dca/workflow.go\<close>): one mandated run of a plan, from the check of the mandate to
  the receipt. The state is the store and, in order, what the run asked of the outside. A step function makes
  several statements; between two of them others may act (\<open>en_gap\<close>), and from a point on the process may be dead
  (\<open>en_dead\<close>), so that a cut attempt leaves any prefix of its effects. The exchange, the asker, the kill flag and
  the owner's dial are the interfaces of \<open>Deps\<close>; wording is an argument.
\<close>

section \<open>Inputs, outputs and the outside\<close>

record exec_input =
  in_plan :: int
  in_due :: int
  in_mandate :: string
  in_origin :: string
  in_sender :: string

record quote =
  qt_price :: f64
  qt_base :: f64
  qt_quote :: f64
  qt_ccy :: string
  qt_usd :: f64
  qt_rate :: f64
  qt_source :: string
  qt_paper :: bool

record dfill =
  df_order :: string
  df_status :: string
  df_filled :: f64
  df_avg :: f64
  df_fee :: f64
  df_known :: bool
  df_done :: bool
  df_paper :: bool

datatype check_verdict = VerdictOK | VerdictAsk | VerdictRefuse

record checkOut =
  ck_verdict :: check_verdict
  ck_reason :: string
  ck_bound :: string
  ck_quiet :: bool
  ck_kill :: bool
  ck_dial :: string
  ck_detail :: string
  ck_quote :: quote
  ck_used :: f64
  ck_period :: string

record gatesOut =
  ga_refused :: string
  ga_usd :: f64

datatype place_result = PlacedOK | PlaceRefused | PlaceUnknown

record placeOut =
  po_outcome :: place_result
  po_reason :: string
  po_fill :: dfill

datatype run_result = ResDone | ResFailed | ResUnproven | ResPending | ResRefused | ResAsked | ResSkipped

record recordOut =
  ro_result :: run_result
  ro_reason :: string
  ro_usd :: f64
  ro_fill :: dfill

definition no_quote :: quote where
  "no_quote = \<lparr>qt_price = Fin 0, qt_base = Fin 0, qt_quote = Fin 0, qt_ccy = [], qt_usd = Fin 0, qt_rate = Fin 0, qt_source = [], qt_paper = False\<rparr>"

definition no_fill :: dfill where
  "no_fill = \<lparr>df_order = [], df_status = [], df_filled = Fin 0, df_avg = Fin 0, df_fee = Fin 0, df_known = False, df_done = False, df_paper = False\<rparr>"

definition no_check :: checkOut where
  "no_check = \<lparr>ck_verdict = VerdictRefuse, ck_reason = [], ck_bound = [], ck_quiet = False, ck_kill = False, ck_dial = [],
     ck_detail = [], ck_quote = no_quote, ck_used = Fin 0, ck_period = []\<rparr>"

definition no_place :: placeOut where
  "no_place = \<lparr>po_outcome = PlaceRefused, po_reason = [], po_fill = no_fill\<rparr>"

definition ended_as :: "run_result \<Rightarrow> string \<Rightarrow> recordOut" where
  "ended_as r why = \<lparr>ro_result = r, ro_reason = why, ro_usd = Fin 0, ro_fill = no_fill\<rparr>"

text \<open>What a run asks of the outside that does something.\<close>

datatype dca_fx = DxThrottle plan | DxPlace string plan quote string nat | DxAsk plan mandate quote string
  | DxTell exec_input checkOut recordOut

record dca_sys =
  y_db :: dca
  y_fx :: "dca_fx list"

text \<open>
  \<open>en_ask\<close> and \<open>en_dial\<close> are None where nothing is wired; the dial answers its word, or that it could not be read.
  \<open>en_due\<close> is the cron library's \<open>IsDue\<close> (an error is no) in the named zone; \<open>en_fmt\<close> is \<open>fmt.Sprintf\<close>.
\<close>

record dca_env =
  en_now :: "nat \<Rightarrow> go_time"
  en_gap :: "nat \<Rightarrow> dca_sys \<Rightarrow> dca_sys"
  en_dead :: "nat \<Rightarrow> bool"
  en_first :: "go_time option"
  en_killed :: bool
  en_dial :: "(string \<times> bool) option"
  en_pct :: "f64 option"
  en_zones :: "string \<rightharpoonup> zone"
  en_sum :: "f64 list \<Rightarrow> f64"
  en_due :: "string \<Rightarrow> string \<Rightarrow> go_time \<Rightarrow> bool"
  en_quote :: "plan \<Rightarrow> string + quote"
  en_gates :: "plan \<Rightarrow> quote \<Rightarrow> string + quote"
  en_throttle :: "plan \<Rightarrow> (string \<times> bool) option"
  en_place :: "plan \<Rightarrow> quote \<Rightarrow> string \<Rightarrow> nat \<Rightarrow> go_time option \<Rightarrow> place_err + dfill"
  en_fetch :: "nat \<Rightarrow> dfill option"
  en_ended :: "nat \<Rightarrow> bool"
  en_rate :: "f64 option"
  en_ask :: "(plan \<Rightarrow> mandate \<Rightarrow> quote \<Rightarrow> string \<Rightarrow> string + string) option"
  en_tell :: bool
  en_fmt :: "string \<Rightarrow> f64 list \<Rightarrow> string"
  en_day :: "string \<Rightarrow> go_time \<Rightarrow> string"
  en_err :: "place_err \<Rightarrow> string"
  en_db_err :: "derr \<Rightarrow> string"

definition stm :: "dca_env \<Rightarrow> nat \<Rightarrow> (dca \<Rightarrow> dca \<times> 'a) \<Rightarrow> (dca_sys, 'a) state" where
  "stm e k f = State (\<lambda>s0. let s = en_gap e k s0; (db, x) = f (y_db s) in (x, if en_dead e k then s else s\<lparr>y_db := db\<rparr>))"

definition qry :: "dca_env \<Rightarrow> nat \<Rightarrow> (dca \<Rightarrow> 'a) \<Rightarrow> (dca_sys, 'a) state" where
  "qry e k f = State (\<lambda>s0. let s = en_gap e k s0 in (f (y_db s), s))"

definition act :: "dca_env \<Rightarrow> nat \<Rightarrow> dca_fx \<Rightarrow> (dca_sys, unit) state" where
  "act e k x = State (\<lambda>s. ((), if en_dead e k then s else s\<lparr>y_fx := y_fx s @ [x]\<rparr>))"

abbreviation yield :: "'a \<Rightarrow> (dca_sys, 'a) state" where "yield \<equiv> State_Monad.return"

text \<open>The error of a step function: its text, and whether the step may be tried again.\<close>

type_synonym 'a step_result = "'a + string \<times> bool"

abbreviation fails :: "string \<Rightarrow> (dca_sys, 'a step_result) state" where "fails why \<equiv> yield (Inr (why, True))"

section \<open>Bounds\<close>

text \<open>The caps are held up to one part in a billion.\<close>

definition over_cap :: "f64 \<Rightarrow> f64 \<Rightarrow> bool" where
  "over_cap v cap \<longleftrightarrow> f_lt (f_mul cap (f_round (1 + 1 / 1000000000))) v"

definition pos_finite :: "f64 \<Rightarrow> bool" where
  "pos_finite v \<longleftrightarrow> f_lt (Fin 0) v \<and> \<not> is_nan v \<and> \<not> is_inf v"

definition pricePct :: "dca_env \<Rightarrow> f64" where
  "pricePct e = (case en_pct e of Some v \<Rightarrow> if f_lt (Fin 0) v then v else Fin 5 | None \<Rightarrow> Fin 5)"

text \<open>An unknown stored word is \<open>off\<close>.\<close>

definition ownerDial :: "dca_env \<Rightarrow> string \<times> bool" where
  "ownerDial e =
     (case en_dial e of
        None \<Rightarrow> (''default'', False)
      | Some (s, failed) \<Rightarrow>
          if s = [] \<or> s = ''default'' then (''default'', failed)
          else if s = ''ask'' \<or> s = ''notify'' \<or> s = ''off'' then (s, failed)
          else (''off'', failed))"

definition dueMaxAge :: duration where "dueMaxAge = 6 * hour"
definition dueMaxAhead :: duration where "dueMaxAhead = 2 * minute"
definition legacyDupWindow :: duration where "legacyDupWindow = 10 * minute"

text \<open>Why a claimed slot is not one of the plan's, or the empty text.\<close>

definition dueRefusal :: "dca_env \<Rightarrow> plan \<Rightarrow> go_time \<Rightarrow> go_time \<Rightarrow> string" where
  "dueRefusal e p slot now =
     (if slot > now + dueMaxAhead then ''the claimed due slot is in the future''
      else if now - slot > dueMaxAge then ''the due slot is too old to buy for''
      else if \<not> en_due e (pn_frequency p) (if en_zones e (pn_timezone p) = None then ''UTC'' else pn_timezone p) (truncate_time minute slot)
        then ''the claimed due slot is not on the plan's schedule''
      else [])"

text \<open>The price a run is compared with: the last completed fill, or the last question about a price, if newer.\<close>

definition priceBaseline :: "execution option \<Rightarrow> (f64 \<times> go_time) option \<Rightarrow> f64 option" where
  "priceBaseline last_fill ask =
     (case (ask, last_fill) of
        (Some (price, _), None) \<Rightarrow> Some price
      | (Some (price, asked_at), Some x) \<Rightarrow>
          if (case ex_at x of None \<Rightarrow> True | Some t \<Rightarrow> asked_at > t) then Some price
          else if f_lt (Fin 0) (ex_price x) then Some (ex_price x) else None
      | (None, Some x) \<Rightarrow> if f_lt (Fin 0) (ex_price x) then Some (ex_price x) else None
      | (None, None) \<Rightarrow> None)"

section \<open>The mandate's check\<close>

definition refusal :: "string \<Rightarrow> checkOut" where
  "refusal why = no_check\<lparr>ck_reason := why\<rparr>"

definition quietly :: "string \<Rightarrow> checkOut" where
  "quietly why = (refusal why)\<lparr>ck_quiet := True\<rparr>"

definition question :: "string \<Rightarrow> string \<Rightarrow> string \<Rightarrow> quote \<Rightarrow> f64 \<Rightarrow> checkOut" where
  "question bound why detail q used =
     no_check\<lparr>ck_verdict := VerdictAsk, ck_bound := bound, ck_reason := why, ck_detail := detail, ck_quote := q, ck_used := used\<rparr>"

text \<open>What is known of the plan alone.\<close>

definition plan_refusal :: "plan \<Rightarrow> go_time \<Rightarrow> checkOut option" where
  "plan_refusal p now =
     (if \<not> pn_enabled p then Some (quietly ''the plan is disabled'')
      else if (case pn_end p of None \<Rightarrow> False | Some t \<Rightarrow> now > t) then Some (quietly ''the plan has ended'')
      else if pn_side p \<noteq> [] \<and> pn_side p \<noteq> ''buy'' then Some (refusal ''a mandate covers buys only'')
      else if pn_trigger p \<noteq> None then Some (refusal ''the plan has an indicator gate, which a mandate does not cover in this change'')
      else if has_colon (pn_symbol p) then Some (refusal ''a mandate covers spot symbols only'')
      else None)"

text \<open>What is known of the mandate that covers the plan.\<close>

definition mandate_refusal :: "exec_input \<Rightarrow> plan \<Rightarrow> mandate option \<Rightarrow> checkOut option" where
  "mandate_refusal i p latest =
     (case latest of
        None \<Rightarrow> Some (refusal ''the plan has no active mandate'')
      | Some m \<Rightarrow>
          if ma_id m \<noteq> in_mandate i \<and> ma_status m \<noteq> MandateActive then Some (refusal ''the plan has no active mandate'')
          else if ma_id m \<noteq> in_mandate i then Some (refusal ''the plan's mandate changed since this run was due'')
          else if \<not> Matches m p then Some (refusal
            ''the plan was edited after its mandate was approved (symbol, side, provider or account): a new mandate is needed'')
          else None)"

definition dial_refusal :: "dca_env \<Rightarrow> checkOut option" where
  "dial_refusal e =
     (case ownerDial e of
        (dial, failed) \<Rightarrow>
          if failed then Some ((refusal ''the owner's autonomy setting for mandated buys could not be read, so the buy was skipped'')\<lparr>ck_dial := ''off''\<rparr>)
          else if dial = ''notify'' \<or> dial = ''off'' then Some ((refusal
            (''the owner's autonomy setting for mandated buys is '' @ dial @ '', so the buy was skipped''))\<lparr>ck_dial := dial\<rparr>)
          else None)"

text \<open>The bounds of the mandate on a valued run, in the order of the code.\<close>

definition price_question :: "dca_env \<Rightarrow> quote \<Rightarrow> f64 option \<Rightarrow> checkOut option" where
  "price_question e q base =
     (case base of
        None \<Rightarrow> None
      | Some b \<Rightarrow>
          let move = f_mul (f_div (f_abs (f_sub (qt_price q) b)) b) (Fin 100) in
          if f_lt (pricePct e) move then Some (question ''price_move''
            (en_fmt e ''the price moved %.1f%% since the last run (limit %.1f%%)'' [move, pricePct e])
            (en_fmt e ''%.8g -> %.8g'' [b, qt_price q]) q (Fin 0))
          else None)"

definition unproven_question :: "dca_env \<Rightarrow> quote \<Rightarrow> string \<Rightarrow> checkOut option" where
  "unproven_question e q why =
     (let asks = (fst (ownerDial e) = ''ask'') in
      if why \<noteq> [] then Some (question ''unproven''
        (''an earlier run could not be proven: '' @ why @ (if asks then '' (the owner's autonomy setting also asks about every mandated buy)'' else []))
        (if asks then ''owner autonomy setting: ask'' else []) q (Fin 0))
      else if asks then Some (question ''owner_dial'' ''the owner's autonomy setting asks about every mandated buy'' [] q (Fin 0))
      else None)"

text \<open>\<open>checkMandate\<close>: the step function, in the order of the code: the kill flag, the plan, its slot and its mandate, the
  owner's dial and the value of the run, the questions about earlier runs and the price, and the caps.\<close>

definition check_caps :: "dca_env \<Rightarrow> mandate \<Rightarrow> quote \<Rightarrow> (dca_sys, checkOut step_result) state" where
  "check_caps e m q =
     (if over_cap (qt_usd q) (ma_run_usd m)
      then yield (Inl (question ''per_run''
        (en_fmt e ''this run is worth $%.2f, over the per-run limit of $%.2f'' [qt_usd q, ma_run_usd m])
        (en_fmt e ''%.2f > %.2f'' [qt_usd q, ma_run_usd m]) q (Fin 0)))
      else do {
        used \<leftarrow> qry e 6 (PeriodUsage (en_sum e) (en_zones e) m (en_now e 0) (qt_paper q));
        case used of
          Inl err \<Rightarrow> fails (en_db_err e err)
        | Inr used \<Rightarrow>
        if over_cap (f_add used (qt_usd q)) (ma_period_usd m)
        then yield (Inl (question ''per_period''
          (en_fmt e ''this month's limit would be exceeded: $%.2f used + $%.2f > $%.2f per '' [used, qt_usd q, ma_period_usd m] @ ma_period m)
          (en_fmt e ''%.2f + %.2f > %.2f'' [used, qt_usd q, ma_period_usd m]) q used))
        else yield (Inl (no_check\<lparr>ck_verdict := VerdictOK, ck_quote := q, ck_used := used, ck_period := ma_period m\<rparr>))
      })"

definition check_bounds :: "dca_env \<Rightarrow> plan \<Rightarrow> mandate \<Rightarrow> quote \<Rightarrow> (dca_sys, checkOut step_result) state" where
  "check_bounds e p m q = do {
     why \<leftarrow> qry e 3 (Unproven (pn_id p));
     case unproven_question e q why of
       Some out \<Rightarrow> yield (Inl out)
     | None \<Rightarrow>
     if ma_status m \<noteq> MandateActive \<or> mandate_over (en_now e 0) m
     then yield (Inl (question ''expired'' (''the mandate expired on '' @ en_day e ''UTC'' (from_ms (ma_expires m))) [] q (Fin 0)))
     else do {
       last_fill \<leftarrow> qry e 4 (LastCompletedExecution (pn_id p));
       asked \<leftarrow> qry e 5 (LastPriceAsk (pn_id p));
       case price_question e q (priceBaseline last_fill asked) of
         Some out \<Rightarrow> yield (Inl out)
       | None \<Rightarrow> check_caps e m q
     }
   }"

definition check_value :: "dca_env \<Rightarrow> plan \<Rightarrow> mandate \<Rightarrow> (dca_sys, checkOut step_result) state" where
  "check_value e p m =
     (case dial_refusal e of
        Some out \<Rightarrow> yield (Inl out)
      | None \<Rightarrow>
      case en_quote e p of
        Inl why \<Rightarrow> yield (Inl (refusal (''the run cannot be valued in USD, so no cap can be checked: '' @ why)))
      | Inr q \<Rightarrow>
      if \<not> pos_finite (qt_price q) \<or> \<not> pos_finite (qt_base q) \<or> \<not> pos_finite (qt_usd q)
      then yield (Inl (refusal ''the run's price or USD value is not usable''))
      else check_bounds e p m q)"

definition check_plan :: "dca_env \<Rightarrow> exec_input \<Rightarrow> plan \<Rightarrow> (dca_sys, checkOut step_result) state" where
  "check_plan e i p = (
     let now = en_now e 0; slot = from_ms (in_due i) in
     case plan_refusal p now of
       Some out \<Rightarrow> yield (Inl out)
     | None \<Rightarrow>
     if dueRefusal e p slot now \<noteq> [] then yield (Inl (quietly (dueRefusal e p slot now)))
     else do {
       ran \<leftarrow> qry e 1 (LegacyRunSince (pn_id p) (slot - legacyDupWindow));
       if ran then yield (Inl (quietly ''the legacy job already ran this slot''))
       else do {
         latest \<leftarrow> qry e 2 (LatestMandateForPlan (pn_id p));
         case mandate_refusal i p latest of
           Some out \<Rightarrow> yield (Inl out)
         | None \<Rightarrow> check_value e p (the latest)
       }
     })"

definition checkMandate :: "dca_env \<Rightarrow> exec_input \<Rightarrow> (dca_sys, checkOut step_result) state" where
  "checkMandate e i =
     (if en_killed e then yield (Inl ((refusal ''the kill switch is engaged'')\<lparr>ck_kill := True\<rparr>))
      else do {
        found \<leftarrow> qry e 0 (GetPlan (in_plan i));
        case found of
          Inl _ \<Rightarrow> yield (Inl (quietly ''the plan no longer exists''))
        | Inr p \<Rightarrow> check_plan e i p
      })"

section \<open>The gates, the throttle and the placement\<close>

text \<open>The step \<open>risk_gates\<close>: the exchange's gates, then the mandate's bounds again on the run valued now.\<close>

definition gates_refused :: "string \<Rightarrow> gatesOut" where
  "gates_refused why = \<lparr>ga_refused = why, ga_usd = Fin 0\<rparr>"

definition gates_verdict :: "dca_env \<Rightarrow> mandate \<Rightarrow> f64 \<Rightarrow> f64 \<Rightarrow> go_time \<Rightarrow> gatesOut" where
  "gates_verdict e m used usd now =
     (if ma_status m \<noteq> MandateActive \<or> mandate_over now m then gates_refused ''the mandate ended while the run was being checked''
      else if over_cap usd (ma_run_usd m) then gates_refused
        (en_fmt e ''the run is now worth $%.2f, over the per-run limit of $%.2f'' [usd, ma_run_usd m])
      else if over_cap (f_add used usd) (ma_period_usd m) then gates_refused
        (en_fmt e (''the run is now worth $%.2f, which would exceed the '' @ ma_period m @ '' limit of $%.2f'') [usd, ma_period_usd m])
      else \<lparr>ga_refused = [], ga_usd = usd\<rparr>)"

definition riskGates :: "dca_env \<Rightarrow> exec_input \<Rightarrow> quote \<Rightarrow> (dca_sys, gatesOut step_result) state" where
  "riskGates e i q = do {
     found \<leftarrow> qry e 0 (GetPlan (in_plan i));
     case found of
       Inl err \<Rightarrow> fails (en_db_err e err)
     | Inr p \<Rightarrow>
     case en_gates e p q of
       Inl why \<Rightarrow> yield (Inl (gates_refused why))
     | Inr fresh \<Rightarrow> do {
         found \<leftarrow> qry e 1 (GetMandate (in_mandate i));
         case found of
           None \<Rightarrow> fails ''sql: no rows in result set''
         | Some m \<Rightarrow> do {
             used \<leftarrow> qry e 2 (PeriodUsage (en_sum e) (en_zones e) m (en_now e 0) (qt_paper fresh));
             case used of
               Inl err \<Rightarrow> fails (en_db_err e err)
             | Inr used \<Rightarrow> do {
                 ran \<leftarrow> qry e 3 (LegacyRunSince (pn_id p) (from_ms (in_due i) - legacyDupWindow));
                 if ran then yield (Inl (gates_refused ''the legacy job bought for this slot while it was being checked''))
                 else yield (Inl (gates_verdict e m used (qt_usd fresh) (en_now e 1)))
               }
           }
       }
   }"

definition throttleStep :: "dca_env \<Rightarrow> exec_input \<Rightarrow> (dca_sys, unit step_result) state" where
  "throttleStep e i = do {
     found \<leftarrow> qry e 0 (GetPlan (in_plan i));
     case found of
       Inl err \<Rightarrow> yield (Inr (en_db_err e err, False))
     | Inr p \<Rightarrow> do {
         act e 1 (DxThrottle p);
         yield (case en_throttle e p of None \<Rightarrow> Inl () | Some (why, limited) \<Rightarrow> Inr (why, limited))
       }
   }"

text \<open>
  The place step. The kill flag is read by every attempt; a refusal of a later attempt is an unknown outcome,
  for an earlier one may have reached the exchange.
\<close>

definition placeStep :: "dca_env \<Rightarrow> exec_input \<Rightarrow> string \<Rightarrow> quote \<Rightarrow> nat \<Rightarrow> (dca_sys, placeOut step_result) state" where
  "placeStep e i key q attempt = (
     let refuse = (\<lambda>why. yield (Inl \<lparr>po_outcome = (if attempt > 1 then PlaceUnknown else PlaceRefused), po_reason = why, po_fill = no_fill\<rparr>)) in
     if en_killed e then refuse (if attempt > 1 then ''the kill switch was engaged during a retry; the earlier attempt may have placed''
       else ''the kill switch is engaged'')
     else do {
       found \<leftarrow> qry e 0 (GetPlan (in_plan i));
       case found of
         Inl err \<Rightarrow> yield (Inr (en_db_err e err, False))
       | Inr p \<Rightarrow> do {
           act e 1 (DxPlace (in_mandate i) p q key attempt);
           case en_place e p q key attempt (en_first e) of
             Inr f \<Rightarrow> yield (Inl \<lparr>po_outcome = PlacedOK, po_reason = [], po_fill = f\<rparr>)
           | Inl err \<Rightarrow>
               (case err of
                  OrderError k _ _ _ \<Rightarrow>
                    if k = ErrReconcileAmbiguous \<or> k = ErrReconcileUnproven
                    then yield (Inl \<lparr>po_outcome = PlaceUnknown, po_reason = en_err e err, po_fill = no_fill\<rparr>)
                    else if Retryable err then yield (Inr (en_err e err, True))
                    else if k = ErrOutcomeUnknown
                    then yield (Inl \<lparr>po_outcome = PlaceUnknown, po_reason = en_err e err, po_fill = no_fill\<rparr>)
                    else refuse (en_err e err)
                | _ \<Rightarrow> refuse (en_err e err))
         }
     })"

section \<open>Reading the order back\<close>

definition mergeFill :: "dfill \<Rightarrow> dfill \<Rightarrow> dfill" where
  "mergeFill prior f = prior\<lparr>
     df_known := df_known prior \<or> df_known f,
     df_filled := (if df_known f then df_filled f else df_filled prior),
     df_avg := (if f_lt (Fin 0) (df_avg f) then df_avg f else df_avg prior),
     df_fee := (if f_lt (Fin 0) (df_fee f) then df_fee f else df_fee prior),
     df_status := (if df_status f \<noteq> [] then df_status f else df_status prior),
     df_done := df_done prior \<or> df_done f\<rparr>"

text \<open>The polls that are left; the wait after each but the last may end with the context.\<close>

fun verify_polls :: "dca_env \<Rightarrow> nat \<Rightarrow> nat \<Rightarrow> dfill \<Rightarrow> dfill" where
  "verify_polls e 0 k last_fill = last_fill"
| "verify_polls e (Suc n) k last_fill =
     (let f = (case en_fetch e k of None \<Rightarrow> last_fill | Some f \<Rightarrow> mergeFill last_fill f)
      in if en_fetch e k \<noteq> None \<and> df_done f then f
         else if n > 0 \<and> en_ended e k then f
         else verify_polls e n (Suc k) f)"

definition verifyPolls :: nat where "verifyPolls = 5"

definition verifyStep :: "dca_env \<Rightarrow> exec_input \<Rightarrow> dfill \<Rightarrow> (dca_sys, dfill step_result) state" where
  "verifyStep e i placed =
     (if df_paper placed \<or> df_order placed = [] then yield (Inl placed)
      else do {
        found \<leftarrow> qry e 0 (GetPlan (in_plan i));
        yield (Inl (case found of Inl _ \<Rightarrow> placed | Inr _ \<Rightarrow> verify_polls e verifyPolls 0 placed))
      })"

text \<open>What the fill makes of the run.\<close>

definition pendingReason :: "dca_env \<Rightarrow> dfill \<Rightarrow> f64 \<Rightarrow> string" where
  "pendingReason e f requested =
     (let status = (if df_status f = [] then ''open'' else df_status f);
          i = (if df_order f \<noteq> [] then ''order '' @ df_order f else ''order'')
      in en_fmt e (i @ '' placed, still '' @ status @ '' (filled %s of %s); counted against the cap until confirmed'') [df_filled f, requested])"

definition larger :: "f64 \<Rightarrow> f64 \<Rightarrow> f64" where
  "larger a b = (if a = NaN \<or> b = NaN then NaN else if f_lt a b then b else a)"

definition fill_result :: "dca_env \<Rightarrow> checkOut \<Rightarrow> gatesOut \<Rightarrow> dfill \<Rightarrow> recordOut" where
  "fill_result e chk gates f =
     (if \<not> df_known f then ended_as ResUnproven ''the order was placed but its fill could not be confirmed''
      else if \<not> df_done f then (ended_as ResPending (pendingReason e f (qt_base (ck_quote chk))))
        \<lparr>ro_usd := larger (qt_usd (ck_quote chk)) (ga_usd gates)\<rparr>
      else if f_le (df_filled f) (Fin 0) then ended_as ResFailed (''the order was placed but nothing filled ('' @ df_status f @ '')'')
      else (ended_as ResDone [])\<lparr>ro_fill := f\<rparr>)"

section \<open>Recording\<close>

definition joinReason :: "string \<Rightarrow> string \<Rightarrow> string" where
  "joinReason a b = (if a = [] then b else a @ ''; '' @ b)"

text \<open>The row of a run, its change of the totals and its usage in USD.\<close>

definition record_row :: "dca_env \<Rightarrow> plan \<Rightarrow> go_time \<Rightarrow> checkOut \<Rightarrow> placeOut \<Rightarrow> recordOut \<Rightarrow> execution \<times> stats_delta option \<times> f64" where
  "record_row e p now chk placed res =
     (let q = ck_quote chk;
          x = \<lparr>ex_id = 0, ex_plan = pn_id p, ex_at = Some now, ex_symbol = pn_symbol p, ex_provider = pn_provider p,
               ex_account = pn_account p, ex_order = [], ex_amount = qt_quote q, ex_price = qt_price q, ex_quantity = Fin 0,
               ex_fee = Fin 0, ex_status = [], ex_error = [], ex_side = ''buy'', ex_created = Some now, ex_workflow = []\<rparr>;
          f = ro_fill res;
          unproven = x\<lparr>ex_status := ''failed'', ex_error := ''unproven: '' @ ro_reason res, ex_order := df_order (po_fill placed)\<rparr>
      in case ro_result res of
           ResDone \<Rightarrow>
             (let avg = (if f_le (df_avg f) (Fin 0) then qt_price q else df_avg f);
                  spent = f_mul (df_filled f) avg;
                  rate = (case en_rate e of Some r \<Rightarrow> if pos_finite r then r else qt_rate q | None \<Rightarrow> qt_rate q);
                  y = x\<lparr>ex_order := df_order f, ex_price := avg, ex_quantity := df_filled f, ex_amount := spent, ex_fee := df_fee f\<rparr>
              in if df_paper f then (y\<lparr>ex_status := ''skipped'', ex_error := PaperSkipReason\<rparr>, None, f_mul spent rate)
                 else (y\<lparr>ex_status := ''completed''\<rparr>, Some \<lparr>sd_side = ''buy'', sd_amount = spent, sd_quantity = df_filled f\<rparr>, f_mul spent rate))
         | ResUnproven \<Rightarrow> (unproven, None, Fin 0)
         | ResPending \<Rightarrow> (unproven, None, ro_usd res)
         | ResSkipped \<Rightarrow> (x\<lparr>ex_status := ''skipped'', ex_error := ro_reason res\<rparr>, None, Fin 0)
         | _ \<Rightarrow> (x\<lparr>ex_status := ''failed'', ex_error := ro_reason res\<rparr>, None, Fin 0))"

definition writeRecord :: "dca_env \<Rightarrow> exec_input \<Rightarrow> string \<Rightarrow> checkOut \<Rightarrow> placeOut \<Rightarrow> recordOut \<Rightarrow> (dca_sys, recordOut step_result) state" where
  "writeRecord e i wid chk placed res = do {
     found \<leftarrow> qry e 0 (GetPlan (in_plan i));
     case found of
       Inl err \<Rightarrow> fails (en_db_err e err)
     | Inr p \<Rightarrow>
       (case record_row e p (en_now e 0) chk placed res of
          (x, delta, usd) \<Rightarrow> do {
            (if ro_result res = ResUnproven \<or> ro_result res = ResPending
             then stm e 1 (\<lambda>db. (MarkUnproven (pn_id p) wid (ro_reason res) db, ())) else yield ());
            r \<leftarrow> stm e 2 (\<lambda>db. case RecordMandateRun x delta (in_mandate i) wid usd (df_paper (ro_fill res)) (en_now e 0) (en_now e 1) db of
                    Inl err \<Rightarrow> (db, Inl err) | Inr (db', b) \<Rightarrow> (db', Inr b));
            case r of
              Inl err \<Rightarrow> fails (en_db_err e err)
            | Inr _ \<Rightarrow> yield (Inl (if ro_result res = ResDone then res\<lparr>ro_usd := usd\<rparr> else res))
          })
   }"

section \<open>Asking and telling\<close>

definition askStep :: "dca_env \<Rightarrow> exec_input \<Rightarrow> checkOut \<Rightarrow> (dca_sys, recordOut step_result) state" where
  "askStep e i chk = do {
     found \<leftarrow> qry e 0 (GetPlan (in_plan i));
     case found of
       Inl err \<Rightarrow> fails (en_db_err e err)
     | Inr p \<Rightarrow> do {
         found \<leftarrow> qry e 1 (GetMandate (in_mandate i));
         case found of
           None \<Rightarrow> fails ''sql: no rows in result set''
         | Some m \<Rightarrow> do {
             reserved \<leftarrow> stm e 2 (ReserveSlotAsk (in_plan i) (in_due i));
             if \<not> reserved then yield (Inl (ended_as ResAsked ''a question for this slot was already made''))
             else case en_ask e of
               None \<Rightarrow> yield (Inl (ended_as ResRefused (''no way to ask the owner: '' @ ck_reason chk)))
             | Some ask \<Rightarrow> do {
                 act e 3 (DxAsk p m (ck_quote chk) (ck_reason chk));
                 case ask p m (ck_quote chk) (ck_reason chk) of
                   Inl why \<Rightarrow> yield (Inl (ended_as ResRefused (ck_reason chk @ '' (and the question could not be sent: '' @ why @ '')'')))
                 | Inr proposal \<Rightarrow> do {
                     stm e 4 (\<lambda>db. (SetSlotAsk (in_plan i) (in_due i) proposal (ck_bound chk) (qt_price (ck_quote chk)) (en_now e 0) db, ()));
                     yield (Inl (ended_as ResAsked proposal))
                   }
               }
           }
       }
   }"

text \<open>
  The receipt. A quiet refusal says nothing; a run the dial skipped is told once a day per plan, one the kill
  switch stopped once a day.
\<close>

definition sendReceipt :: "dca_env \<Rightarrow> exec_input \<Rightarrow> checkOut \<Rightarrow> recordOut \<Rightarrow> (dca_sys, unit) state" where
  "sendReceipt e i chk res =
     (if \<not> en_tell e then yield ()
      else do {
        found \<leftarrow> qry e 0 (GetPlan (in_plan i));
        let tz = (case found of Inl _ \<Rightarrow> ''UTC'' | Inr p \<Rightarrow> if en_zones e (pn_timezone p) = None then ''UTC'' else pn_timezone p);
        if ro_result res = ResRefused \<and> ck_quiet chk then yield ()
        else do {
          first \<leftarrow> (if ro_result res = ResSkipped
                   then stm e 1 (FirstToday (''dial:'' @ itoa (in_plan i)) (en_day e tz (en_now e 0))) else yield True);
          if \<not> first then yield ()
          else do {
            first \<leftarrow> (if ck_kill chk then stm e 2 (FirstToday ''kill'' (en_day e ''UTC'' (en_now e 1))) else yield True);
            if \<not> first then yield () else act e 3 (DxTell i chk res)
          }
        }
      })"

section \<open>The workflow\<close>

datatype dca_step = QCheck | QGates quote | QThrottle | QPlace quote | QVerify dfill
  | QRecord checkOut placeOut recordOut | QAsk checkOut | QReceipt checkOut recordOut

datatype dca_out = VCheck checkOut | VGates gatesOut | VNone | VPlace placeOut | VFill dfill | VRecord recordOut

text \<open>A stored output that does not decode is an error of \<open>Step\<close> that is no \<open>StepError\<close>.\<close>

definition undecoded :: "(dca_step, dca_out) flow" where
  "undecoded = Over (Some ''the journaled output does not decode'')"

definition receipt :: "checkOut \<Rightarrow> recordOut \<Rightarrow> (dca_step, dca_out) flow" where
  "receipt chk res = Ask (QReceipt chk res) (\<lambda>_. Over None)"

definition record_flow :: "checkOut \<Rightarrow> placeOut \<Rightarrow> recordOut \<Rightarrow> (dca_step, dca_out) flow" where
  "record_flow chk placed res = Ask (QRecord chk placed res) (\<lambda>a.
     case a of
       Got (VRecord out) \<Rightarrow> receipt chk out
     | Got _ \<Rightarrow> undecoded
     | Broken why \<Rightarrow> receipt chk (res\<lparr>ro_reason := joinReason (ro_reason res) (''the run could not be recorded: '' @ why),
         ro_result := (if ro_result res = ResDone then ResUnproven else ro_result res)\<rparr>))"

definition ask_flow :: "checkOut \<Rightarrow> (dca_step, dca_out) flow" where
  "ask_flow chk = Ask (QAsk chk) (\<lambda>a.
     case a of
       Got (VRecord out) \<Rightarrow> if ro_result out = ResAsked then Over None else receipt chk out
     | Got _ \<Rightarrow> undecoded
     | Broken why \<Rightarrow> receipt chk (ended_as ResRefused (ck_reason chk)))"

definition verify_flow :: "dca_env \<Rightarrow> checkOut \<Rightarrow> gatesOut \<Rightarrow> placeOut \<Rightarrow> (dca_step, dca_out) flow" where
  "verify_flow e chk gates placed = Ask (QVerify (po_fill placed)) (\<lambda>a.
     case a of
       Got (VFill f) \<Rightarrow> record_flow chk (placed\<lparr>po_fill := f\<rparr>) (fill_result e chk gates f)
     | Got _ \<Rightarrow> undecoded
     | Broken why \<Rightarrow> record_flow chk placed (fill_result e chk gates (po_fill placed)))"

definition placed_flow :: "dca_env \<Rightarrow> checkOut \<Rightarrow> gatesOut \<Rightarrow> placeOut \<Rightarrow> (dca_step, dca_out) flow" where
  "placed_flow e chk gates placed =
     (case po_outcome placed of
        PlaceRefused \<Rightarrow> record_flow chk placed (ended_as ResFailed (po_reason placed))
      | PlaceUnknown \<Rightarrow> record_flow chk placed (ended_as ResUnproven (po_reason placed))
      | PlacedOK \<Rightarrow> verify_flow e chk gates placed)"

definition place_flow :: "dca_env \<Rightarrow> checkOut \<Rightarrow> gatesOut \<Rightarrow> (dca_step, dca_out) flow" where
  "place_flow e chk gates = Ask (QPlace (ck_quote chk)) (\<lambda>a.
     case a of
       Got (VPlace placed) \<Rightarrow> placed_flow e chk gates placed
     | Got _ \<Rightarrow> undecoded
     | Broken why \<Rightarrow> placed_flow e chk gates (no_place\<lparr>po_outcome := PlaceUnknown, po_reason := why\<rparr>))"

definition throttle_flow :: "dca_env \<Rightarrow> checkOut \<Rightarrow> gatesOut \<Rightarrow> (dca_step, dca_out) flow" where
  "throttle_flow e chk gates = Ask QThrottle (\<lambda>a.
     case a of
       Got _ \<Rightarrow> place_flow e chk gates
     | Broken why \<Rightarrow> receipt chk (ended_as ResRefused (''rate limit: '' @ why)))"

definition gates_flow :: "dca_env \<Rightarrow> checkOut \<Rightarrow> (dca_step, dca_out) flow" where
  "gates_flow e chk = Ask (QGates (ck_quote chk)) (\<lambda>a.
     case a of
       Got (VGates gates) \<Rightarrow>
         if ga_refused gates \<noteq> [] then receipt chk (ended_as ResRefused (ga_refused gates)) else throttle_flow e chk gates
     | Got _ \<Rightarrow> undecoded
     | Broken why \<Rightarrow> if why \<noteq> [] then receipt chk (ended_as ResRefused why) else throttle_flow e chk (gates_refused []))"

definition checked_flow :: "dca_env \<Rightarrow> checkOut \<Rightarrow> (dca_step, dca_out) flow" where
  "checked_flow e chk =
     (case ck_verdict chk of
        VerdictRefuse \<Rightarrow>
          if ck_dial chk \<noteq> [] then record_flow chk no_place (ended_as ResSkipped (ck_reason chk))
          else receipt chk (ended_as ResRefused (ck_reason chk))
      | VerdictAsk \<Rightarrow> ask_flow chk
      | VerdictOK \<Rightarrow> gates_flow e chk)"

text \<open>\<open>runExecute\<close>; the wording \<open>en_fmt\<close> is all it takes of the environment.\<close>

definition runExecute :: "dca_env \<Rightarrow> exec_input \<Rightarrow> (dca_step, dca_out) flow" where
  "runExecute e i =
     (if in_plan i \<le> 0 \<or> in_mandate i = [] then Over (Some ''dca.execute: bad input'')
      else Ask QCheck (\<lambda>a.
        case a of
          Got (VCheck chk) \<Rightarrow> checked_flow e chk
        | Got _ \<Rightarrow> undecoded
        | Broken why \<Rightarrow> checked_flow e (refusal (''the mandate check did not complete: '' @ why))))"

definition DcaWorkflowID :: "int \<Rightarrow> int \<Rightarrow> string" where
  "DcaWorkflowID planID dueMS = ''dcax_'' @ itoa planID @ ''_'' @ itoa dueMS"

text \<open>One attempt of a step; the place step is the fourth of its workflow.\<close>

fun dca_exec :: "exec_input \<Rightarrow> string \<Rightarrow> dca_env \<Rightarrow> nat \<Rightarrow> dca_step \<Rightarrow> dca_sys \<Rightarrow> dca_out step_result \<times> dca_sys" where
  "dca_exec i wid e n QCheck s = (case run_state (checkMandate e i) s of (r, s) \<Rightarrow> (map_sum VCheck (\<lambda>x. x) r, s))"
| "dca_exec i wid e n (QGates q) s = (case run_state (riskGates e i q) s of (r, s) \<Rightarrow> (map_sum VGates (\<lambda>x. x) r, s))"
| "dca_exec i wid e n QThrottle s = (case run_state (throttleStep e i) s of (r, s) \<Rightarrow> (map_sum (\<lambda>_. VNone) (\<lambda>x. x) r, s))"
| "dca_exec i wid e n (QPlace q) s =
     (case run_state (placeStep e i (StepKey wid 3 ''place'') q n) s of (r, s) \<Rightarrow> (map_sum VPlace (\<lambda>x. x) r, s))"
| "dca_exec i wid e n (QVerify f) s = (case run_state (verifyStep e i f) s of (r, s) \<Rightarrow> (map_sum VFill (\<lambda>x. x) r, s))"
| "dca_exec i wid e n (QRecord chk placed res) s =
     (case run_state (writeRecord e i wid chk placed res) s of (r, s) \<Rightarrow> (map_sum VRecord (\<lambda>x. x) r, s))"
| "dca_exec i wid e n (QAsk chk) s = (case run_state (askStep e i chk) s of (r, s) \<Rightarrow> (map_sum VRecord (\<lambda>x. x) r, s))"
| "dca_exec i wid e n (QReceipt chk res) s = (case run_state (sendReceipt e i chk res) s of (_, s) \<Rightarrow> (Inl VNone, s))"

text \<open>How often the journal retries each step.\<close>

fun dca_retries :: "dca_step \<Rightarrow> nat" where
  "dca_retries QCheck = 2"
| "dca_retries (QGates _) = 2"
| "dca_retries QThrottle = 5"
| "dca_retries (QPlace _) = 3"
| "dca_retries (QVerify _) = 0"
| "dca_retries (QRecord _ _ _) = 5"
| "dca_retries (QAsk _) = 2"
| "dca_retries (QReceipt _ _) = 2"

end
