(* ===== verification/DcaLedger.thy ===== *)
theory DcaLedger
  imports "HOL-Library.Code_Target_Nat" Dca Machine
begin

text \<open>
  What the tables of the recurring buys promise, whatever operations are applied to them in whatever order: every
  mandate was granted by the owner and never changes its terms, a plan has at most one active mandate, a run is
  recorded and paid for once, and a slot is asked about once.
\<close>

section \<open>The abstract life of the tables\<close>

text \<open>The terms of a mandate: everything but status, reason and the note about the legacy job.\<close>

definition terms_of :: "mandate \<Rightarrow> mandate" where
  "terms_of m = m\<lparr>ma_status := MandateActive, ma_reason := [], ma_legacy_off := False\<rparr>"

definition mandate_move :: "mandate \<Rightarrow> mandate \<Rightarrow> bool" where
  "mandate_move m m' \<longleftrightarrow> terms_of m' = terms_of m \<and> (ma_status m' = ma_status m \<or> ma_status m = MandateActive)"

lemma terms_eqD:
  assumes "terms_of m' = terms_of m"
  shows "ma_id m' = ma_id m" "ma_plan m' = ma_plan m" "ma_proposal m' = ma_proposal m" "ma_run_usd m' = ma_run_usd m"
    "ma_period_usd m' = ma_period_usd m" "ma_expires m' = ma_expires m" "ma_provider m' = ma_provider m"
    "ma_account m' = ma_account m" "ma_symbol m' = ma_symbol m" "ma_side m' = ma_side m"
    "ma_period m' = ma_period m" "ma_timezone m' = ma_timezone m" "ma_created m' = ma_created m"
  by (cases m; cases m'; use assms in \<open>simp add: terms_of_def\<close>)+

lemma mandate_moveD:
  assumes "mandate_move m n"
  shows "ma_id n = ma_id m" "ma_proposal n = ma_proposal m" "terms_of n = terms_of m" "ma_plan n = ma_plan m"
    "ma_status n = MandateActive \<Longrightarrow> ma_status m = MandateActive"
proof -
  have t: "terms_of n = terms_of m" using assms by (simp add: mandate_move_def)
  show "ma_id n = ma_id m" "ma_proposal n = ma_proposal m" "ma_plan n = ma_plan m" using terms_eqD [OF t] by blast+
qed (use assms in \<open>auto simp: mandate_move_def\<close>)

lemma mandate_move_refl: "mandate_move m m"
  by (simp add: mandate_move_def)

lemma mandate_move_trans: "mandate_move a b \<Longrightarrow> mandate_move b c \<Longrightarrow> mandate_move a c"
  by (auto simp: mandate_move_def)

text \<open>Rows move, and at most one new one is granted, for a plan without an active one.\<close>

definition mandates_step :: "(mandate \<Rightarrow> bool) \<Rightarrow> mandate list \<Rightarrow> mandate list \<Rightarrow> bool" where
  "mandates_step granted ms ms' \<longleftrightarrow>
     (\<exists>moved. list_all2 mandate_move ms moved \<and>
        (ms' = moved \<or>
         (\<exists>m. ms' = moved @ [m] \<and> granted (terms_of m) \<and> ma_status m = MandateActive \<and>
              (\<forall>n \<in> set moved. ma_id n \<noteq> ma_id m \<and> ma_proposal n \<noteq> ma_proposal m \<and>
                 (ma_plan n = ma_plan m \<longrightarrow> ma_status n \<noteq> MandateActive)))))"

definition execs_step :: "dca \<Rightarrow> dca \<Rightarrow> bool" where
  "execs_step db db' \<longleftrightarrow>
     (\<exists>Q. d_execs db' = filter Q (d_execs db) \<and> d_next_exec db' = d_next_exec db) \<or>
     (\<exists>x. d_execs db' = d_execs db @ [x] \<and> ex_id x = d_next_exec db \<and> d_next_exec db' = d_next_exec db + 1 \<and>
          (ex_workflow x \<noteq> [] \<longrightarrow> (\<forall>y \<in> set (d_execs db). ex_workflow y \<noteq> ex_workflow x)))"

definition uses_step :: "dca \<Rightarrow> dca \<Rightarrow> bool" where
  "uses_step db db' \<longleftrightarrow> d_uses db' = d_uses db \<or>
     (\<exists>u. d_uses db' = d_uses db @ [u] \<and> (\<forall>v \<in> set (d_uses db). us_workflow v \<noteq> us_workflow u))"

definition ask_key :: "slot_ask \<Rightarrow> int \<times> int" where
  "ask_key a = (sa_plan a, sa_slot a)"

definition asks_step :: "dca \<Rightarrow> dca \<Rightarrow> bool" where
  "asks_step db db' \<longleftrightarrow> map ask_key (d_asks db') = map ask_key (d_asks db) \<or>
     (\<exists>k. map ask_key (d_asks db') = map ask_key (d_asks db) @ [k] \<and> k \<notin> ask_key ` set (d_asks db))"

definition dstep :: "(mandate \<Rightarrow> bool) \<Rightarrow> dca \<Rightarrow> dca \<Rightarrow> bool" where
  "dstep granted db db' \<longleftrightarrow> mandates_step granted (d_mandates db) (d_mandates db') \<and> execs_step db db' \<and>
     uses_step db db' \<and> asks_step db db'"

text \<open>The invariant.\<close>

definition mandates_ok :: "(mandate \<Rightarrow> bool) \<Rightarrow> mandate list \<Rightarrow> bool" where
  "mandates_ok granted ms \<longleftrightarrow> distinct (map ma_id ms) \<and> distinct (map ma_proposal ms) \<and> (\<forall>m \<in> set ms. granted (terms_of m)) \<and>
     distinct (map ma_plan (filter (\<lambda>m. ma_status m = MandateActive) ms))"

definition execs_ok :: "dca \<Rightarrow> bool" where
  "execs_ok db \<longleftrightarrow> distinct (map ex_id (d_execs db)) \<and> (\<forall>x \<in> set (d_execs db). ex_id x < d_next_exec db) \<and>
     distinct (map ex_workflow (filter (\<lambda>x. ex_workflow x \<noteq> []) (d_execs db)))"

definition dca_ok :: "(mandate \<Rightarrow> bool) \<Rightarrow> dca \<Rightarrow> bool" where
  "dca_ok granted db \<longleftrightarrow> mandates_ok granted (d_mandates db) \<and> execs_ok db \<and> distinct (map us_workflow (d_uses db)) \<and>
     distinct (map ask_key (d_asks db))"

lemma moved_keys:
  assumes "list_all2 mandate_move ms moved"
  shows "map ma_id moved = map ma_id ms" "map ma_proposal moved = map ma_proposal ms" "map terms_of moved = map terms_of ms"
    "map ma_plan moved = map ma_plan ms"
  using assms by (induction rule: list_all2_induct) (simp_all add: mandate_moveD)

lemma moved_active:
  assumes "list_all2 mandate_move ms moved" "distinct (map ma_plan (filter (\<lambda>m. ma_status m = MandateActive) ms))"
  shows "distinct (map ma_plan (filter (\<lambda>m. ma_status m = MandateActive) moved)) \<and>
    ma_plan ` set (filter (\<lambda>m. ma_status m = MandateActive) moved) \<subseteq> ma_plan ` set (filter (\<lambda>m. ma_status m = MandateActive) ms)"
  using assms
proof (induction rule: list_all2_induct)
  case (Cons m ms n ns)
  have m: "ma_plan n = ma_plan m" "ma_status n = MandateActive \<Longrightarrow> ma_status m = MandateActive"
    using mandate_moveD [OF Cons.hyps(1)] by blast+
  show ?case
  proof (cases "ma_status m = MandateActive")
    case True
    then have "distinct (map ma_plan (filter (\<lambda>m. ma_status m = MandateActive) ns)) \<and>
      ma_plan ` set (filter (\<lambda>m. ma_status m = MandateActive) ns) \<subseteq> ma_plan ` set (filter (\<lambda>m. ma_status m = MandateActive) ms)"
      and "ma_plan m \<notin> ma_plan ` set (filter (\<lambda>m. ma_status m = MandateActive) ms)"
      using Cons.IH Cons.prems by simp_all
    then show ?thesis using m(1) True by (cases "ma_status n = MandateActive") (simp_all, blast+)
  next
    case False
    moreover have "ma_status n \<noteq> MandateActive" using m(2) False by blast
    ultimately show ?thesis using Cons.IH Cons.prems by simp
  qed
qed simp

lemma mandates_step_ok:
  assumes "mandates_step granted ms ms'" "mandates_ok granted ms"
  shows "mandates_ok granted ms'"
proof -
  obtain moved where mv: "list_all2 mandate_move ms moved"
    and cs: "ms' = moved \<or> (\<exists>m. ms' = moved @ [m] \<and> granted (terms_of m) \<and> ma_status m = MandateActive \<and>
              (\<forall>n \<in> set moved. ma_id n \<noteq> ma_id m \<and> ma_proposal n \<noteq> ma_proposal m \<and>
                 (ma_plan n = ma_plan m \<longrightarrow> ma_status n \<noteq> MandateActive)))"
    using assms(1) by (auto simp: mandates_step_def)
  have "granted (terms_of n)" if "n \<in> set moved" for n
  proof -
    have "terms_of n \<in> set (map terms_of ms)" using that moved_keys(3) [OF mv] by (metis image_eqI list.set_map)
    then show ?thesis using assms(2) by (auto simp: mandates_ok_def)
  qed
  then have "mandates_ok granted moved"
    using assms(2) moved_keys [OF mv] moved_active [OF mv] by (simp add: mandates_ok_def)
  with cs show ?thesis by (fastforce simp: mandates_ok_def)
qed

lemma execs_step_ok: "execs_step db db' \<Longrightarrow> execs_ok db \<Longrightarrow> execs_ok db'"
  unfolding execs_step_def
proof (elim disjE exE conjE)
  fix Q assume ok: "execs_ok db" and e: "d_execs db' = filter Q (d_execs db)" "d_next_exec db' = d_next_exec db"
  have "filter (\<lambda>x. ex_workflow x \<noteq> []) (filter Q (d_execs db)) = filter Q (filter (\<lambda>x. ex_workflow x \<noteq> []) (d_execs db))"
    by (simp add: conj_commute)
  then have "distinct (map ex_workflow (filter (\<lambda>x. ex_workflow x \<noteq> []) (filter Q (d_execs db))))"
    using ok by (simp only: execs_ok_def distinct_map_filter)
  then show "execs_ok db'" using ok e unfolding execs_ok_def by (auto simp only: distinct_map_filter set_filter mem_Collect_eq)
next
  fix x assume "execs_ok db" "d_execs db' = d_execs db @ [x]" "ex_id x = d_next_exec db" "d_next_exec db' = d_next_exec db + 1"
    "ex_workflow x \<noteq> [] \<longrightarrow> (\<forall>y \<in> set (d_execs db). ex_workflow y \<noteq> ex_workflow x)"
  then show "execs_ok db'" by (fastforce simp: execs_ok_def)
qed

lemma dstep_ok: "dstep granted db db' \<Longrightarrow> dca_ok granted db \<Longrightarrow> dca_ok granted db'"
  unfolding dstep_def dca_ok_def
proof (elim conjE, intro conjI)
  assume "asks_step db db'" "distinct (map ask_key (d_asks db))"
  then show "distinct (map ask_key (d_asks db'))" by (auto simp: asks_step_def)
next
  assume "uses_step db db'" "distinct (map us_workflow (d_uses db))"
  then show "distinct (map us_workflow (d_uses db'))" unfolding uses_step_def by force
qed (rule mandates_step_ok execs_step_ok; assumption)+

section \<open>The operations are such steps\<close>

datatype dop = DSavePlan plan | DUpdatePlan plan go_time | DDeletePlan int | DStats int f64 f64 go_time
  | DSaveExecution execution "stats_delta option" go_time | DCreate alib proposal_row string go_time
  | DExpire go_time | DRevokeAll string | DRevokePlan int string | DLegacy string bool | DClearLegacy int
  | DRecord execution "stats_delta option" string string f64 bool go_time go_time
  | DPending int string go_time | DClearPending int | DReminded int | DUnproven int string string | DClearUnproven int
  | DReserve int int | DSetAsk int int string string f64 go_time | DFirst string string | DSkip int int string

definition ok_or :: "dca \<Rightarrow> 'e + dca \<Rightarrow> dca" where
  "ok_or db r = (case r of Inl _ \<Rightarrow> db | Inr db' \<Rightarrow> db')"

fun run_dop :: "dop \<Rightarrow> dca \<Rightarrow> dca" where
  "run_dop (DSavePlan p) db = ok_or db (try_ok (SavePlan p db) (\<lambda>(db, _). Inr db))"
| "run_dop (DUpdatePlan p now) db = ok_or db (UpdatePlan p now db)"
| "run_dop (DDeletePlan i) db = DeletePlan i db"
| "run_dop (DStats i amount qty now) db = ok_or db (UpdatePlanStats i amount qty now db)"
| "run_dop (DSaveExecution x delta now) db = ok_or db (try_ok (SaveExecutionTx x delta now db) (\<lambda>(db, _). Inr db))"
| "run_dop (DCreate lib p ownerID now) db = ok_or db (try_ok (CreateMandateFromProposal lib p ownerID now db) (\<lambda>(db, _). Inr db))"
| "run_dop (DExpire now) db = fst (ExpireMandates now db)"
| "run_dop (DRevokeAll why) db = fst (RevokeAll why db)"
| "run_dop (DRevokePlan i why) db = fst (RevokePlanMandate i why db)"
| "run_dop (DLegacy i off) db = SetLegacyOff i off db"
| "run_dop (DClearLegacy i) db = ClearLegacyOff i db"
| "run_dop (DRecord x delta mid wid usd paper now clock) db =
     ok_or db (try_ok (RecordMandateRun x delta mid wid usd paper now clock db) (\<lambda>(db, _). Inr db))"
| "run_dop (DPending i proposal now) db = SetMandatePending i proposal now db"
| "run_dop (DClearPending i) db = ClearMandatePending i db"
| "run_dop (DReminded i) db = fst (MarkReminded i db)"
| "run_dop (DUnproven i wid why) db = MarkUnproven i wid why db"
| "run_dop (DClearUnproven i) db = ClearUnproven i db"
| "run_dop (DReserve i slot) db = fst (ReserveSlotAsk i slot db)"
| "run_dop (DSetAsk i slot proposal bound price now) db = SetSlotAsk i slot proposal bound price now db"
| "run_dop (DFirst key day) db = fst (FirstToday key day db)"
| "run_dop (DSkip i slot day) db = fst (NoteMutedSkip i slot day db)"

text \<open>A grant: the mandate that an approved proposal verifies to.\<close>

definition grants :: "alib \<Rightarrow> proposal_row \<Rightarrow> string \<Rightarrow> go_time \<Rightarrow> mandate \<Rightarrow> bool" where
  "grants lib p ownerID now m \<longleftrightarrow> (\<exists>mp. proposal_mandate lib p ownerID now = Inr mp \<and> m = mandate_of p mp now)"

fun dop_legal :: "(mandate \<Rightarrow> bool) \<Rightarrow> dop \<Rightarrow> bool" where
  "dop_legal granted (DCreate lib p ownerID now) = (\<forall>m. grants lib p ownerID now m \<longrightarrow> granted m)"
| "dop_legal granted _ = True"

subsection \<open>Nothing but what they touch\<close>

lemma same_execs: "d_execs db' = d_execs db \<Longrightarrow> d_next_exec db' = d_next_exec db \<Longrightarrow> execs_step db db'"
  unfolding execs_step_def by (intro disjI1 exI [of _ "\<lambda>_. True"]) simp

lemma same_mandates: "mandates_step granted ms ms"
  unfolding mandates_step_def by (intro exI [of _ ms] conjI disjI1) (auto simp: list_all2_same mandate_move_refl)

lemma dstep_same:
  assumes "d_mandates db' = d_mandates db" "d_execs db' = d_execs db" "d_next_exec db' = d_next_exec db"
    "d_uses db' = d_uses db" "d_asks db' = d_asks db"
  shows "dstep granted db db'"
  using assms by (simp add: dstep_def same_mandates same_execs uses_step_def asks_step_def)

lemma updated_mandates:
  assumes "\<And>m. P m \<Longrightarrow> mandate_move m (f m)"
  shows "list_all2 mandate_move ms (sql_update P f ms)"
  by (induction ms) (auto simp: assms mandate_move_refl)

lemma dstep_on_mandates:
  assumes "\<And>m. P m \<Longrightarrow> mandate_move m (f m)"
  shows "dstep granted db (fst (on_mandates P f db))"
  using updated_mandates [of P f, OF assms] unfolding on_mandates_def dstep_def mandates_step_def
  by (auto simp: same_execs uses_step_def asks_step_def)

lemma revoke_move: "ma_status m = MandateActive \<Longrightarrow> mandate_move m (revoke why m)"
  by (simp add: mandate_move_def revoke_def terms_of_def)

lemma applyStats_frame:
  assumes "applyStats i d now db = Inr db'"
  shows "d_mandates db' = d_mandates db \<and> d_execs db' = d_execs db \<and> d_next_exec db' = d_next_exec db \<and>
    d_uses db' = d_uses db \<and> d_asks db' = d_asks db"
  using assms by (auto simp: applyStats_def Let_def split: if_splits sum.splits)

lemma applyStats_step: "applyStats i d now db = Inr db' \<Longrightarrow> dstep granted db db'"
  using applyStats_frame [of i d now db db'] by (simp add: dstep_same)

lemma with_delta_frame:
  assumes "with_delta x delta now db = Inr db'"
  shows "d_mandates db' = d_mandates db \<and> d_execs db' = d_execs db \<and> d_next_exec db' = d_next_exec db \<and>
    d_uses db' = d_uses db \<and> d_asks db' = d_asks db"
  using assms by (auto simp: with_delta_def split: option.splits dest: applyStats_frame)

lemma insertExecution_frame:
  assumes "insertExecution x db = Inr (db', i)"
  obtains y where "d_execs db' = d_execs db @ [y]" "ex_id y = d_next_exec db" "ex_workflow y = []" "i = d_next_exec db"
    "d_next_exec db' = d_next_exec db + 1" "d_mandates db' = d_mandates db" "d_uses db' = d_uses db" "d_asks db' = d_asks db"
proof -
  define y where "y = x\<lparr>ex_id := d_next_exec db, ex_at := map_option whole_second (ex_at x), ex_created := map_option whole_second (ex_created x),
    ex_side := (if ex_side x = [] then ''buy'' else ex_side x), ex_workflow := []\<rparr>"
  have eq: "db\<lparr>d_execs := d_execs db @ [y], d_next_exec := d_next_exec db + 1\<rparr> = db'" "d_next_exec db = i"
    using assms unfolding insertExecution_def Let_def y_def [symmetric] by (auto split: if_split_asm)
  show ?thesis by (rule that [of y]) (simp_all add: y_def eq(1) [symmetric] eq(2))
qed

lemma SaveExecutionTx_step:
  assumes "SaveExecutionTx x delta now db = Inr (db', i)"
  shows "dstep granted db db'"
proof -
  obtain db1 j where ins: "insertExecution x db = Inr (db1, j)" and del: "with_delta x delta now db1 = Inr db'"
    using assms by (auto simp: SaveExecutionTx_def)
  obtain y where y: "d_execs db1 = d_execs db @ [y]" "ex_id y = d_next_exec db" "ex_workflow y = []"
    "d_next_exec db1 = d_next_exec db + 1" "d_mandates db1 = d_mandates db" "d_uses db1 = d_uses db" "d_asks db1 = d_asks db"
    using ins by (rule insertExecution_frame) (rule that)
  have "execs_step db db'" unfolding execs_step_def using y with_delta_frame [OF del] by (intro disjI2 exI [of _ y]) simp
  then show ?thesis using y with_delta_frame [OF del] by (simp add: dstep_def same_mandates uses_step_def asks_step_def)
qed

lemma set_workflow_last:
  assumes "d_execs db = xs @ [y]" "ex_id y = i" "\<forall>x \<in> set xs. ex_id x < i"
  shows "d_execs (set_workflow i wid db) = xs @ [y\<lparr>ex_workflow := wid\<rparr>]"
proof -
  have "sql_update (\<lambda>x. ex_id x = i) f xs = xs" for f
    using assms(3) by (intro sql_update_none) (auto simp: sql_count_0_iff)
  then show ?thesis using assms(1,2) by (simp add: set_workflow_def)
qed

lemma set_workflow_frame:
  "d_mandates (set_workflow i wid db) = d_mandates db" "d_next_exec (set_workflow i wid db) = d_next_exec db"
  "d_uses (set_workflow i wid db) = d_uses db" "d_asks (set_workflow i wid db) = d_asks db"
  by (simp_all add: set_workflow_def)

text \<open>What a recorded run adds; the transaction after its guards.\<close>

definition add_run ::
  "execution \<Rightarrow> stats_delta option \<Rightarrow> string \<Rightarrow> string \<Rightarrow> f64 \<Rightarrow> bool \<Rightarrow> go_time \<Rightarrow> go_time \<Rightarrow> dca \<Rightarrow> derr + dca \<times> bool" where
  "add_run x delta mid wid usd paper now clock db =
     try_ok (insertExecution x db) (\<lambda>(db, i). try_ok (with_delta x delta clock (set_workflow i wid db)) (\<lambda>db.
       if f_lt (Fin 0) usd
       then try_ok (insert_use \<lparr>us_mandate = mid, us_workflow = wid, us_usd = usd, us_at = unix_ms now, us_paper = paper\<rparr> db)
              (\<lambda>db. Inr (db, True))
       else Inr (db, True)))"

lemma RecordMandateRun_guards: "RecordMandateRun x delta mid wid usd paper now clock db =
    (if wid = [] then Inl DNoWorkflow else if sql_count (\<lambda>y. ex_workflow y = wid) (d_execs db) > 0 then Inr (db, False)
     else add_run x delta mid wid usd paper now clock db)"
  by (simp only: RecordMandateRun_def add_run_def)

lemma add_run_not_again: "add_run x delta mid wid usd paper now clock db \<noteq> Inr (db', False)"
  unfolding add_run_def try_ok_def by (simp split: sum.split prod.split)

lemma RecordMandateRun_added:
  assumes "RecordMandateRun x delta mid wid usd paper now clock db = Inr (db', True)" "execs_ok db"
  obtains y where "d_execs db' = d_execs db @ [y]" "ex_id y = d_next_exec db" "ex_workflow y = wid" "wid \<noteq> []"
    "d_next_exec db' = d_next_exec db + 1" "d_mandates db' = d_mandates db" "d_asks db' = d_asks db"
    "\<forall>z \<in> set (d_execs db). ex_workflow z \<noteq> wid"
    "d_uses db' = d_uses db \<and> \<not> f_lt (Fin 0) usd \<or> f_lt (Fin 0) usd \<and> (\<forall>v \<in> set (d_uses db). us_workflow v \<noteq> wid) \<and>
      d_uses db' = d_uses db @ [\<lparr>us_mandate = mid, us_workflow = wid, us_usd = usd, us_at = unix_ms now, us_paper = paper\<rparr>]"
proof -
  define row where "row = \<lparr>us_mandate = mid, us_workflow = wid, us_usd = usd, us_at = unix_ms now, us_paper = paper\<rparr>"
  define tail where "tail = (\<lambda>db. if f_lt (Fin 0) usd then try_ok (insert_use row db) (\<lambda>db. Inr (db, True)) else Inr (db, True))"
  have w: "wid \<noteq> []" "sql_count (\<lambda>y. ex_workflow y = wid) (d_execs db) = 0"
    and body: "add_run x delta mid wid usd paper now clock db = Inr (db', True)"
    using assms(1) unfolding RecordMandateRun_guards
    by (cases "wid = []"; cases "sql_count (\<lambda>y. ex_workflow y = wid) (d_execs db)"; simp)+
  obtain db1 j where ins: "insertExecution x db = Inr (db1, j)"
    and rest: "try_ok (with_delta x delta clock (set_workflow j wid db1)) tail = Inr (db', True)"
    using body unfolding add_run_def row_def [symmetric] tail_def [symmetric]
    by (cases "insertExecution x db") (auto simp del: try_ok_eq_Inr)
  obtain db2 where del: "with_delta x delta clock (set_workflow j wid db1) = Inr db2" and last: "tail db2 = Inr (db', True)"
    using rest by (cases "with_delta x delta clock (set_workflow j wid db1)") (simp_all del: try_ok_eq_Inr)
  obtain y where y: "d_execs db1 = d_execs db @ [y]" "ex_id y = d_next_exec db" "j = d_next_exec db"
    "d_next_exec db1 = d_next_exec db + 1" "d_mandates db1 = d_mandates db" "d_uses db1 = d_uses db" "d_asks db1 = d_asks db"
    using ins by (rule insertExecution_frame) (rule that)
  have "d_execs (set_workflow j wid db1) = d_execs db @ [y\<lparr>ex_workflow := wid\<rparr>]"
    by (rule set_workflow_last) (use y assms(2) in \<open>auto simp: execs_ok_def\<close>)
  then have db2: "d_execs db2 = d_execs db @ [y\<lparr>ex_workflow := wid\<rparr>]" "d_mandates db2 = d_mandates db" "d_uses db2 = d_uses db"
    "d_asks db2 = d_asks db" "d_next_exec db2 = d_next_exec db + 1"
    using with_delta_frame [OF del] y by (simp_all add: set_workflow_frame)
  have last': "d_execs db' = d_execs db2 \<and> d_next_exec db' = d_next_exec db2 \<and> d_mandates db' = d_mandates db2 \<and> d_asks db' = d_asks db2 \<and>
      (d_uses db' = d_uses db2 \<and> \<not> f_lt (Fin 0) usd \<or>
       f_lt (Fin 0) usd \<and> (\<forall>v \<in> set (d_uses db2). us_workflow v \<noteq> wid) \<and> d_uses db' = d_uses db2 @ [row])"
  proof (cases "f_lt (Fin 0) usd")
    case True
    then have "insert_use row db2 = Inr db'" using last by (cases "insert_use row db2") (simp_all add: tail_def)
    then show ?thesis using True by (auto simp: insert_use_def row_def split: if_splits)
  qed (use last in \<open>simp add: tail_def\<close>)
  show ?thesis
  proof (rule that [of "y\<lparr>ex_workflow := wid\<rparr>"])
    show "\<forall>z \<in> set (d_execs db). ex_workflow z \<noteq> wid" using w(2) by (simp add: sql_count_0_iff)
    show "d_uses db' = d_uses db \<and> \<not> f_lt (Fin 0) usd \<or> f_lt (Fin 0) usd \<and> (\<forall>v \<in> set (d_uses db). us_workflow v \<noteq> wid) \<and>
      d_uses db' = d_uses db @ [\<lparr>us_mandate = mid, us_workflow = wid, us_usd = usd, us_at = unix_ms now, us_paper = paper\<rparr>]"
      using last' by (simp only: db2 row_def)
  qed (use w db2 last' y in simp_all)
qed

text \<open>Whatever is recorded, again or for the first time.\<close>

lemma RecordMandateRun_again:
  assumes "RecordMandateRun x delta mid wid usd paper now clock db = Inr (db', False)"
  shows "db' = db \<and> (\<exists>y \<in> set (d_execs db). ex_workflow y = wid)"
proof -
  have w: "wid \<noteq> []" by (rule notI) (use assms in \<open>simp add: RecordMandateRun_guards\<close>)
  have c: "0 < sql_count (\<lambda>y. ex_workflow y = wid) (d_execs db)"
    by (rule ccontr) (use assms w in \<open>simp add: RecordMandateRun_guards add_run_not_again\<close>)
  have "db' = db" using assms w c by (simp add: RecordMandateRun_guards)
  moreover have "\<exists>y \<in> set (d_execs db). ex_workflow y = wid"
    by (rule ccontr) (use c in \<open>simp add: sql_count_0_iff [THEN iffD2]\<close>)
  ultimately show ?thesis by blast
qed

lemma RecordMandateRun_step:
  assumes "RecordMandateRun x delta mid wid usd paper now clock db = Inr (db', new)" "execs_ok db"
  shows "dstep granted db db'"
proof (cases new)
  case True
  obtain y where y: "d_execs db' = d_execs db @ [y]" "ex_id y = d_next_exec db" "ex_workflow y = wid"
    "d_next_exec db' = d_next_exec db + 1" "d_mandates db' = d_mandates db" "d_asks db' = d_asks db"
    "\<forall>z \<in> set (d_execs db). ex_workflow z \<noteq> wid"
    and u: "d_uses db' = d_uses db \<and> \<not> f_lt (Fin 0) usd \<or> f_lt (Fin 0) usd \<and> (\<forall>v \<in> set (d_uses db). us_workflow v \<noteq> wid) \<and>
      d_uses db' = d_uses db @ [\<lparr>us_mandate = mid, us_workflow = wid, us_usd = usd, us_at = unix_ms now, us_paper = paper\<rparr>]"
    using assms(1) [unfolded eqTrueI [OF True]] assms(2) by (rule RecordMandateRun_added) (rule that)
  have "execs_step db db'" unfolding execs_step_def using y by (intro disjI2 exI [of _ y]) simp
  moreover have "uses_step db db'" unfolding uses_step_def using u by auto
  ultimately show ?thesis using y by (simp add: dstep_def same_mandates asks_step_def)
next
  case False
  have "db' = db" using RecordMandateRun_again assms(1) [unfolded Eq_FalseI [OF False]] by blast
  then show ?thesis by (simp add: dstep_same)
qed

lemma lift_block_frame:
  "d_mandates (lift_block i db) = d_mandates db" "d_execs (lift_block i db) = d_execs db"
  "d_next_exec (lift_block i db) = d_next_exec db" "d_uses (lift_block i db) = d_uses db" "d_asks (lift_block i db) = d_asks db"
  by (simp_all add: lift_block_def)

lemma terms_of_mandate_of: "terms_of (mandate_of p mp now) = mandate_of p mp now"
  by (simp add: terms_of_def mandate_of_def)

lemma create_mandate_step:
  assumes "create_mandate p mp now db = Inr db'" "granted (mandate_of p mp now)"
  shows "dstep granted db db'"
proof -
  define P :: "mandate \<Rightarrow> bool" where "P = (\<lambda>m. ma_plan m = mp_plan mp \<and> ma_status m = MandateActive)"
  define moved where "moved = sql_update P (revoke ''superseded by a new mandate'') (d_mandates db)"
  have new: "\<forall>m \<in> set (d_mandates db). ma_proposal m \<noteq> p_id p \<and> ma_id m \<noteq> ''mnd_'' @ p_id p"
    and db': "db' = lift_block (mp_plan mp) (db\<lparr>d_mandates := moved @ [mandate_of p mp now],
        d_pending := sql_delete (\<lambda>q. pm_plan q = mp_plan mp) (d_pending db)\<rparr>)"
    using assms(1) unfolding create_mandate_def P_def [symmetric] moved_def [symmetric] by (auto split: if_split_asm)
  have mv: "list_all2 mandate_move (d_mandates db) moved"
    unfolding moved_def by (rule updated_mandates) (simp add: P_def revoke_move)
  have "ma_id n \<noteq> ma_id (mandate_of p mp now) \<and> ma_proposal n \<noteq> ma_proposal (mandate_of p mp now) \<and>
      (ma_plan n = ma_plan (mandate_of p mp now) \<longrightarrow> ma_status n \<noteq> MandateActive)" if n: "n \<in> set moved" for n
  proof -
    obtain m where m: "m \<in> set (d_mandates db)" and n': "n = (if P m then revoke ''superseded by a new mandate'' m else m)"
      using n by (auto simp: moved_def sql_update_def)
    show ?thesis using new m n' by (auto simp: mandate_of_def revoke_def P_def)
  qed
  then have "mandates_step granted (d_mandates db) (moved @ [mandate_of p mp now])"
    unfolding mandates_step_def using mv assms(2)
    by (intro exI [of _ moved] conjI disjI2 exI [of _ "mandate_of p mp now"])
      (simp_all add: terms_of_mandate_of, simp add: mandate_of_def)
  then show ?thesis by (simp add: db' dstep_def lift_block_frame same_execs uses_step_def asks_step_def)
qed

lemma DeletePlan_step: "dstep granted db (DeletePlan i db)"
proof -
  have "execs_step db (DeletePlan i db)"
    by (cases "\<exists>p \<in> set (d_plans db). pn_id p = i") (auto simp: execs_step_def DeletePlan_def sql_delete_def intro: filter_True [symmetric])
  then show ?thesis by (simp add: dstep_def same_mandates uses_step_def asks_step_def DeletePlan_def)
qed

lemma asks_step_keep: "map ask_key (d_asks db') = map ask_key (d_asks db) \<Longrightarrow> asks_step db db'"
  by (simp add: asks_step_def)

lemma dop_step:
  assumes "dop_legal granted op" "dca_ok granted db"
  shows "dstep granted db (run_dop op db)"
proof (cases op)
  case (DSavePlan p)
  then show ?thesis
    by (cases "SavePlan p db") (auto simp: ok_or_def SavePlan_def Let_def intro: dstep_same split: if_split_asm)
next
  case (DUpdatePlan p now)
  then show ?thesis
    by (cases "UpdatePlan p now db") (auto simp: ok_or_def UpdatePlan_def Let_def intro: dstep_same split: if_split_asm)
next
  case (DDeletePlan i)
  then show ?thesis by (simp add: DeletePlan_step)
next
  case (DStats i amount qty now)
  then show ?thesis
    by (cases "UpdatePlanStats i amount qty now db")
      (auto simp: ok_or_def UpdatePlanStats_def intro: dstep_same applyStats_step)
next
  case (DSaveExecution x delta now)
  then show ?thesis
    by (cases "SaveExecutionTx x delta now db") (auto simp: ok_or_def intro: dstep_same SaveExecutionTx_step)
next
  case (DCreate lib p ownerID now)
  then show ?thesis
  proof (cases "proposal_mandate lib p ownerID now")
    case (Inr mp)
    then have "granted (mandate_of p mp now)" using assms(1) DCreate by (simp add: grants_def)
    then show ?thesis using DCreate Inr
      by (cases "create_mandate p mp now db"; cases "mandateByProposal (p_id p) db")
        (auto simp: ok_or_def CreateMandateFromProposal_def intro: dstep_same create_mandate_step)
  qed (simp add: ok_or_def CreateMandateFromProposal_def dstep_same)
next
  case (DRecord x delta mid wid usd paper now clock)
  then show ?thesis
    by (cases "RecordMandateRun x delta mid wid usd paper now clock db")
      (use assms(2) in \<open>auto simp: ok_or_def dca_ok_def intro: dstep_same RecordMandateRun_step\<close>)
next
  case (DReserve i slot)
  then show ?thesis
    by (auto simp: ReserveSlotAsk_def dstep_def same_mandates same_execs uses_step_def asks_step_def ask_key_def)
next
  case (DSetAsk i slot proposal bound price now)
  have "map ask_key (d_asks (SetSlotAsk i slot proposal bound price now db)) = map ask_key (d_asks db)"
    by (simp add: SetSlotAsk_def sql_update_def ask_key_def)
  then show ?thesis using DSetAsk
    by (simp add: dstep_def asks_step_def) (simp add: SetSlotAsk_def same_mandates same_execs uses_step_def)
qed (auto simp: ExpireMandates_def RevokeAll_def RevokePlanMandate_def SetLegacyOff_def ClearLegacyOff_def
    SetMandatePending_def ClearMandatePending_def MarkReminded_def MarkUnproven_def ClearUnproven_def lift_block_def
    FirstToday_def NoteMutedSkip_def Let_def
    intro!: dstep_on_mandates dstep_same simp: revoke_move, auto simp: mandate_move_def terms_of_def)

text \<open>The tables as a state machine, under any idea of what was granted.\<close>

interpretation dca: stepwise "dop_legal granted" run_dop "dca_ok granted" "dstep granted" for granted
  by unfold_locales (blast intro: dop_step r_into_rtranclp dstep_ok)+

text \<open>What stays: a mandate's terms, what was spent, that a slot was asked about.\<close>

lemma terms_stay:
  assumes "mandates_step granted ms ms'" "t \<in> terms_of ` set ms"
  shows "t \<in> terms_of ` set ms'"
proof -
  obtain moved where mv: "list_all2 mandate_move ms moved" and sub: "set moved \<subseteq> set ms'"
    using assms(1) unfolding mandates_step_def by (elim exE conjE disjE) (simp_all add: subset_insertI)
  have "t \<in> set (map terms_of moved)" unfolding moved_keys(3) [OF mv] using assms(2) by simp
  then show ?thesis using sub by auto
qed

interpretation dca_terms: lasting "dop_legal granted" run_dop "dca_ok granted" "dstep granted"
    "\<lambda>db t. t \<in> terms_of ` set (d_mandates db)" for granted
  by unfold_locales (auto simp: dstep_def intro: terms_stay)

interpretation dca_uses: lasting "dop_legal granted" run_dop "dca_ok granted" "dstep granted"
    "\<lambda>db u. u \<in> set (d_uses db)" for granted
  by unfold_locales (auto simp: dstep_def uses_step_def)

interpretation dca_asks: lasting "dop_legal granted" run_dop "dca_ok granted" "dstep granted"
    "\<lambda>db k. k \<in> ask_key ` set (d_asks db)" for granted
proof unfold_locales
  fix s t k assume "dstep granted s t" "k \<in> ask_key ` set (d_asks s)"
  then have "asks_step s t" "k \<in> set (map ask_key (d_asks s))" by (simp_all add: dstep_def)
  then have "k \<in> set (map ask_key (d_asks t))" unfolding asks_step_def by (elim disjE exE conjE) (simp_all only: set_append Un_iff simp_thms)
  then show "k \<in> ask_key ` set (d_asks t)" by simp
qed

text \<open>What a created mandate is.\<close>

lemma grants_owner:
  assumes "grants lib p ownerID now m"
  shows "p_kind p = KindMandate \<and> p_status p \<in> {PApproved, PExecuting, PExecuted} \<and> ownerID \<noteq> [] \<and>
    SameSender (p_decided_by p) ownerID \<and> (\<exists>decided. p_decided p = Some decided \<and> decided \<le> p_expires p) \<and>
    (\<exists>mp. verified lib KindMandate p = Inr (PMandate mp) \<and> from_ms (mp_expires mp) > now \<and> m = mandate_of p mp now)"
  using assms by (auto simp: grants_def proposal_mandate_def split: if_split_asm option.splits sum.splits payload.splits)

section \<open>What holds after any history\<close>

lemma empty_dca_ok: "dca_ok granted empty_dca"
  by (simp add: empty_dca_def dca_ok_def mandates_ok_def execs_ok_def)

lemma recorded_spending:
  assumes "RecordMandateRun x delta mid wid usd paper now clock db = Inr (db', True)" "execs_ok db" "f_lt (Fin 0) usd"
  shows "\<exists>u. d_uses db' = d_uses db @ [u] \<and> us_workflow u = wid \<and> (\<forall>v \<in> set (d_uses db). us_workflow v \<noteq> wid)"
  using assms(1,2) by (rule RecordMandateRun_added) (use assms(3) in auto)

lemma slot_reserved: "(i, slot) \<in> ask_key ` set (d_asks db) \<longleftrightarrow> \<not> snd (ReserveSlotAsk i slot db)"
  by (auto simp: ReserveSlotAsk_def ask_key_def image_iff)

lemma slot_kept: "(i, slot) \<in> ask_key ` set (d_asks (fst (ReserveSlotAsk i slot db)))"
  by (auto simp: ReserveSlotAsk_def ask_key_def image_iff)

lemma one_of_key:
  assumes "u \<in> set us" "distinct (map key us)"
  shows "length (filter (\<lambda>v. key v = key u) us) = 1"
proof -
  obtain xs ys where us: "us = xs @ u # ys" using assms(1) by (meson split_list)
  have "filter (\<lambda>v. key v = key u) xs = []" "filter (\<lambda>v. key v = key u) ys = []"
    using assms(2) by (auto simp: us filter_empty_conv image_iff)
  then show ?thesis by (simp add: us)
qed

text \<open>Everything is legal when granted is what the history's own grants gave.\<close>

definition granted_in :: "dop list \<Rightarrow> mandate \<Rightarrow> bool" where
  "granted_in ops m \<longleftrightarrow> (\<exists>lib p ownerID now. DCreate lib p ownerID now \<in> set ops \<and> grants lib p ownerID now m)"

lemma history_legal: "set ops \<subseteq> set all \<Longrightarrow> list_all (dop_legal (granted_in all)) ops"
  unfolding list_all_iff
proof
  fix op assume "set ops \<subseteq> set all" "op \<in> set ops"
  then show "dop_legal (granted_in all) op" by (cases op) (simp_all add: granted_in_def, blast)
qed

lemma history_ok: "dca_ok (granted_in ops) (fold run_dop ops empty_dca)"
  by (rule dca.run_keeps [OF history_legal empty_dca_ok]) simp

text \<open>C21. Every mandate was granted: whatever operations ran on the tables, a mandate has the terms of a proposal that the
  owner decided in time, that was approved and whose parameters verified against its hash; no two share a
  proposal, and no plan has two active ones.\<close>

theorem mandates_are_granted:
  assumes "db = fold run_dop ops empty_dca"
  shows "(\<forall>m \<in> set (d_mandates db). \<exists>lib p ownerID now mp. DCreate lib p ownerID now \<in> set ops \<and> terms_of m = mandate_of p mp now \<and>
      p_kind p = KindMandate \<and> p_status p \<in> {PApproved, PExecuting, PExecuted} \<and> ownerID \<noteq> [] \<and> SameSender (p_decided_by p) ownerID \<and>
      (\<exists>decided. p_decided p = Some decided \<and> decided \<le> p_expires p) \<and>
      verified lib KindMandate p = Inr (PMandate mp) \<and> from_ms (mp_expires mp) > now) \<and>
    distinct (map ma_proposal (d_mandates db)) \<and>
    distinct (map ma_plan (filter (\<lambda>m. ma_status m = MandateActive) (d_mandates db)))"
proof -
  have ok: "mandates_ok (granted_in ops) (d_mandates db)" using history_ok [of ops] by (simp add: assms dca_ok_def)
  have "\<exists>lib p ownerID now. DCreate lib p ownerID now \<in> set ops \<and> grants lib p ownerID now (terms_of m)"
    if "m \<in> set (d_mandates db)" for m
    using ok that by (auto simp: mandates_ok_def granted_in_def)
  then show ?thesis using ok grants_owner unfolding mandates_ok_def by meson
qed

text \<open>A run is paid once: after a run under a workflow id has been recorded as spending, no later operations let the
  same workflow id be recorded again, and there is one row of spending per workflow.\<close>

theorem run_recorded_once:
  assumes "RecordMandateRun x delta mid wid usd paper now clock (fold run_dop before empty_dca) = Inr (db, True)"
    "f_lt (Fin 0) usd" "f_lt (Fin 0) usd'"
  shows "RecordMandateRun x' delta' mid' wid usd' paper' now' clock' (fold run_dop after db) \<noteq> Inr (db', True) \<and>
    length (filter (\<lambda>u. us_workflow u = wid) (d_uses (fold run_dop after db))) = 1"
proof -
  define all where "all = before @ [DRecord x delta mid wid usd paper now clock] @ after"
  have db: "fold run_dop all empty_dca = fold run_dop after db" using assms(1) by (simp add: all_def ok_or_def)
  have ok0: "dca_ok (granted_in all) (fold run_dop before empty_dca)"
    by (rule dca.run_keeps [OF history_legal empty_dca_ok]) (auto simp: all_def)
  obtain u where u: "u \<in> set (d_uses db)" "us_workflow u = wid"
    using recorded_spending [OF assms(1) _ assms(2)] ok0 unfolding dca_ok_def by (metis in_set_conv_decomp)
  have ok1: "dca_ok (granted_in all) db"
    by (rule dstep_ok [OF RecordMandateRun_step [OF assms(1)] ok0]) (use ok0 in \<open>simp add: dca_ok_def\<close>)
  have stays: "u \<in> set (d_uses (fold run_dop after db))"
    by (rule dca_uses.run_fact [OF history_legal ok1 u(1)]) (auto simp: all_def)
  have ok2: "dca_ok (granted_in all) (fold run_dop after db)" using history_ok [of all] by (simp add: db)
  have "RecordMandateRun x' delta' mid' wid usd' paper' now' clock' (fold run_dop after db) \<noteq> Inr (db', True)"
  proof
    assume "RecordMandateRun x' delta' mid' wid usd' paper' now' clock' (fold run_dop after db) = Inr (db', True)"
    from recorded_spending [OF this _ assms(3)] show False using ok2 stays u(2) by (auto simp: dca_ok_def)
  qed
  moreover have "length (filter (\<lambda>v. us_workflow v = wid) (d_uses (fold run_dop after db))) = 1"
    using one_of_key [OF stays, of us_workflow] ok2 u(2) by (simp add: dca_ok_def)
  ultimately show ?thesis by blast
qed

text \<open>The owner is asked about a slot once: after the first reservation, whatever happens in between, a second one for
  the same slot of the same plan is refused.\<close>

theorem slot_asked_once:
  assumes "db = fold run_dop before empty_dca"
  shows "\<not> snd (ReserveSlotAsk i slot (fold run_dop after (fst (ReserveSlotAsk i slot db))))"
proof -
  define all where "all = before @ [DReserve i slot] @ after"
  have legal: "list_all (dop_legal (granted_in all)) (before @ [DReserve i slot])" "list_all (dop_legal (granted_in all)) after"
    unfolding all_def by (rule history_legal; auto)+
  have ok: "dca_ok (granted_in all) (fst (ReserveSlotAsk i slot db))"
    using dca.run_keeps [OF legal(1) empty_dca_ok] assms by simp
  have "(i, slot) \<in> ask_key ` set (d_asks (fold run_dop after (fst (ReserveSlotAsk i slot db))))"
    by (rule dca_asks.run_fact [OF legal(2) ok slot_kept])
  then show ?thesis using slot_reserved by blast
qed

section \<open>A concrete history\<close>

definition demo_plan :: plan where
  "demo_plan = \<lparr>pn_id = 0, pn_name = ''weekly btc'', pn_provider = ''binance'', pn_account = ''main'', pn_symbol = ''BTC/USDT'',
     pn_amount = Fin 50, pn_unit = ''quote'', pn_frequency = ''0 9 * * 1'', pn_timezone = ''UTC'', pn_cron_job = [], pn_start = 0,
     pn_end = None, pn_enabled = True, pn_invested = Fin 0, pn_quantity = Fin 0, pn_avg_cost = Fin 0, pn_side = ''buy'',
     pn_trigger = None, pn_max_exec = 0, pn_exec_period = [], pn_notify_channel = [], pn_notify_chat = [], pn_created = 0,
     pn_updated = 0\<rparr>"

definition demo_mandate :: mandate_params where
  "demo_mandate = \<lparr>mp_kind = ''dca'', mp_plan = 1, mp_provider = ''binance'', mp_account = ''main'', mp_symbol = ''BTC/USDT'',
     mp_side = ''buy'', mp_quote = ''USDT'', mp_run_quote = Fin 60, mp_period_quote = Fin 100, mp_run_usd = Fin 60,
     mp_period_usd = Fin 100, mp_rate = Fin 1, mp_rate_source = ''feed'', mp_period = ''week'', mp_timezone = ''UTC'', mp_expires = 10000000000\<rparr>"

definition mandate_lib :: alib where
  "mandate_lib = \<lparr>al_hash = (\<lambda>k p. p), al_encode = (\<lambda>v. Some ''{}''), al_decode = (\<lambda>k p. Some (PMandate demo_mandate)),
     al_zone = (\<lambda>z. True), al_letter = (\<lambda>r. True)\<rparr>"

definition demo_proposal :: proposal_row where
  "demo_proposal = \<lparr>p_id = ''p1'', p_code = ''BCDE'', p_nonce = ''n1'', p_kind = KindMandate, p_params = ''{}'',
     p_hash = ''{}'', p_summary = [], p_rationale = [], p_origin = OriginOwner, p_mode = [],
     p_reducing = False, p_candidate = [], p_intent = [], p_intervention = [], p_lang = [], p_status = PApproved, p_created = 0,
     p_expires = 600000, p_decided = Some 60000, p_decided_by = ''telegram:7'', p_workflow = [], p_card_channel = [],
     p_card_chat = [], p_card_msgs = [], p_outcome = [], p_notified = False, p_finished = None\<rparr>"

definition demo_execution :: execution where
  "demo_execution = \<lparr>ex_id = 0, ex_plan = 1, ex_at = Some 0, ex_symbol = ''BTC/USDT'', ex_provider = ''binance'', ex_account = ''main'',
     ex_order = ''o1'', ex_amount = Fin 50, ex_price = Fin 50, ex_quantity = Fin 1, ex_fee = Fin 0, ex_status = ''completed'',
     ex_error = [], ex_side = ''buy'', ex_created = Some 0, ex_workflow = []\<rparr>"

definition demo_history :: "dop list" where
  "demo_history = [DSavePlan demo_plan, DCreate mandate_lib demo_proposal ''telegram:7'' (2 * minute)]"

definition demo_delta :: stats_delta where
  "demo_delta = \<lparr>sd_side = ''buy'', sd_amount = Fin 50, sd_quantity = Fin 1\<rparr>"

definition demo_recorded :: "dca" where
  "demo_recorded = run_dop (DRecord demo_execution (Some demo_delta) ''mnd_p1'' ''dca_1_9'' (Fin 50) False 0 0) (fold run_dop demo_history empty_dca)"

theorem mandates_are_granted_witness:
  "\<exists>m. d_mandates (fold run_dop demo_history empty_dca) = [m] \<and>
    (\<exists>lib p ownerID now. DCreate lib p ownerID now \<in> set demo_history \<and> SameSender (p_decided_by p) ownerID)"
proof -
  have "length (d_mandates (fold run_dop demo_history empty_dca)) = 1" by code_simp
  then obtain m where "d_mandates (fold run_dop demo_history empty_dca) = [m]" by (auto simp: length_Suc_conv)
  with mandates_are_granted [OF refl, of demo_history] show ?thesis by fastforce
qed

theorem run_recorded_once_witness:
  "length (filter (\<lambda>u. us_workflow u = ''dca_1_9'') (d_uses (fold run_dop [DDeletePlan 1, DSavePlan demo_plan] demo_recorded))) = 1"
proof -
  have "RecordMandateRun demo_execution (Some demo_delta) ''mnd_p1'' ''dca_1_9'' (Fin 50) False 0 0 (fold run_dop demo_history empty_dca)
      = Inr (demo_recorded, True)" by code_simp
  moreover have "f_lt (Fin 0) (Fin 50)" by code_simp
  ultimately show ?thesis using run_recorded_once by blast
qed

theorem slot_asked_once_witness:
  "\<not> snd (ReserveSlotAsk 1 9 (fold run_dop [DDeletePlan 1] (fst (ReserveSlotAsk 1 9 (fold run_dop demo_history empty_dca)))))"
  by (rule slot_asked_once [OF refl])

end
