(* ===== verification/DcaSafety.thy ===== *)
theory DcaSafety
  imports "HOL-Library.Code_Target_Nat" DcaRun DcaLedger
begin

text \<open>
  A mandated run, whatever others do meanwhile. The contract \<open>journaled\<close> is met by \<open>runExecute\<close>: what the check and
  the gates answered was true of the tables at a moment of the run. So an order reaches the exchange only after
  its mandate was found active, granted by the owner and wide enough. What is not re-read in between is shown
  by closed runs.
\<close>

section \<open>Legal environments\<close>

text \<open>Others move the tables by their operations and leave no trace in what this run asked for.\<close>

definition dca_reach :: "(mandate \<Rightarrow> bool) \<Rightarrow> dca_sys \<Rightarrow> dca_sys \<Rightarrow> bool" where
  "dca_reach granted s t \<longleftrightarrow> (dca_ok granted (y_db s) \<longrightarrow> (dstep granted)\<^sup>*\<^sup>* (y_db s) (y_db t)) \<and> (\<exists>xs. y_fx t = y_fx s @ xs)"

definition speaks :: "dca_env \<Rightarrow> bool" where
  "speaks e \<longleftrightarrow> (\<forall>err. en_db_err e err \<noteq> []) \<and> (\<forall>w xs. en_fmt e w xs \<noteq> []) \<and> (\<forall>p q why. en_gates e p q = Inl why \<longrightarrow> why \<noteq> [])"

definition fair :: "(mandate \<Rightarrow> bool) \<Rightarrow> dca_env \<Rightarrow> bool" where
  "fair granted e \<longleftrightarrow> (\<forall>k s. dca_reach granted s (en_gap e k s) \<and> y_fx (en_gap e k s) = y_fx s) \<and> speaks e"

lemma dca_reach_refl: "dca_reach granted s s"
  by (simp add: dca_reach_def)

lemma dca_reach_ok: "dca_reach granted s t \<Longrightarrow> dca_ok granted (y_db s) \<Longrightarrow> dca_ok granted (y_db t)"
  unfolding dca_reach_def using dca.asteps_keep by blast

lemma dca_reach_trans:
  assumes "dca_reach granted s t" "dca_reach granted t u"
  shows "dca_reach granted s u"
proof -
  have "(dstep granted)\<^sup>*\<^sup>* (y_db s) (y_db u)" if "dca_ok granted (y_db s)"
    using assms dca_reach_ok [OF assms(1) that] that unfolding dca_reach_def by (meson rtranclp_trans)
  then show ?thesis using assms unfolding dca_reach_def by auto
qed

lemma fair_gap: "fair granted e \<Longrightarrow> dca_reach granted s (en_gap e k s)"
  by (simp add: fair_def)

lemma gap_after: "fair granted e \<Longrightarrow> dca_reach granted s t \<Longrightarrow> dca_reach granted s (en_gap e k t)"
  by (blast intro: dca_reach_trans fair_gap)

lemma gap_fx: "fair granted e \<Longrightarrow> y_fx (en_gap e k s) = y_fx s"
  by (simp add: fair_def)

text \<open>Only the place step asks for a placement.\<close>

definition places :: "dca_fx \<Rightarrow> bool" where
  "places x \<longleftrightarrow> (case x of DxPlace _ _ _ _ _ \<Rightarrow> True | _ \<Rightarrow> False)"

lemma places_iff: "places x \<longleftrightarrow> (\<exists>mid p q key n. x = DxPlace mid p q key n)"
  by (cases x) (simp_all add: places_def)

definition quiet_reach :: "(mandate \<Rightarrow> bool) \<Rightarrow> dca_sys \<Rightarrow> dca_sys \<Rightarrow> bool" where
  "quiet_reach granted s t \<longleftrightarrow> dca_reach granted s t \<and> filter places (y_fx t) = filter places (y_fx s)"

lemma quiet_refl: "quiet_reach granted s s"
  by (simp add: quiet_reach_def dca_reach_refl)

lemma quiet_trans: "quiet_reach granted s t \<Longrightarrow> quiet_reach granted t u \<Longrightarrow> quiet_reach granted s u"
  unfolding quiet_reach_def using dca_reach_trans by metis

lemma quiet_gap: "fair granted e \<Longrightarrow> quiet_reach granted s (en_gap e k s)"
  by (simp add: quiet_reach_def fair_gap gap_fx)

named_theorems keeping \<open>computations that keep to the operations of the tables\<close>

section \<open>Every step function keeps to the operations\<close>

abbreviation keeps :: "(mandate \<Rightarrow> bool) \<Rightarrow> (dca_sys, 'a) state \<Rightarrow> bool" where
  "keeps granted \<equiv> state_io_rel (quiet_reach granted)"

lemma keeps_yield [keeping]: "keeps granted (yield x)"
  by (simp add: state_io_rel_def quiet_refl)

lemma keeps_bind [keeping]:
  assumes "keeps granted m" "\<And>x. keeps granted (k x)"
  shows "keeps granted (m \<bind> k)"
  unfolding state_io_rel_def
proof
  fix s
  obtain x t where m: "run_state m s = (x, t)" by fastforce
  have "quiet_reach granted s t" using assms(1) m by (metis state_io_rel_def snd_conv)
  moreover have "quiet_reach granted t (snd (run_state (k x) t))" using assms(2) by (metis state_io_rel_def)
  ultimately show "quiet_reach granted s (snd (run_state (m \<bind> k) s))" using m by (auto intro: quiet_trans)
qed

lemma keeps_act [keeping]: "\<not> places x \<Longrightarrow> keeps granted (act e k x)"
  by (auto simp: state_io_rel_def act_def dca_reach_def quiet_reach_def)

lemma keeps_qry [keeping]: "fair granted e \<Longrightarrow> keeps granted (qry e k f)"
  by (simp add: state_io_rel_def qry_def Let_def quiet_gap)

lemma keeps_stm:
  assumes "fair granted e" "\<And>db. dca_ok granted db \<Longrightarrow> dstep granted db (fst (f db))"
  shows "keeps granted (stm e k f)"
  unfolding state_io_rel_def
proof
  fix s
  have "quiet_reach granted t (t\<lparr>y_db := fst (f (y_db t))\<rparr>)" for t
    using assms(2) by (auto simp: dca_reach_def quiet_reach_def)
  then show "quiet_reach granted s (snd (run_state (stm e k f) s))"
    using quiet_gap [OF assms(1)] unfolding stm_def by (auto simp: Let_def split_beta intro: quiet_trans)
qed

lemma keeps_stm_op:
  assumes "fair granted e" "\<And>db. fst (f db) = run_dop op db" "dop_legal granted op"
  shows "keeps granted (stm e k f)"
  by (rule keeps_stm [OF assms(1)]) (simp add: assms(2) dop_step [OF assms(3)])

lemma keeps_if [keeping]: "keeps granted a \<Longrightarrow> keeps granted b \<Longrightarrow> keeps granted (if c then a else b)"
  by simp

lemma keeps_option [keeping]:
  "keeps granted a \<Longrightarrow> (\<And>x. keeps granted (b x)) \<Longrightarrow> keeps granted (case y of None \<Rightarrow> a | Some x \<Rightarrow> b x)"
  by (cases y) simp_all

lemma keeps_sum [keeping]:
  "(\<And>x. keeps granted (a x)) \<Longrightarrow> (\<And>x. keeps granted (b x)) \<Longrightarrow> keeps granted (case y of Inl x \<Rightarrow> a x | Inr x \<Rightarrow> b x)"
  by (cases y) simp_all

lemma keeps_prod [keeping]: "(\<And>a b. keeps granted (f a b)) \<Longrightarrow> keeps granted (case y of (a, b) \<Rightarrow> f a b)"
  by (cases y) simp

lemma keeps_err [keeping]:
  "(\<And>k a b c. keeps granted (f k a b c)) \<Longrightarrow> keeps granted d \<Longrightarrow> keeps granted (case y of OrderError k a b c \<Rightarrow> f k a b c | _ \<Rightarrow> d)"
  by (cases y) simp_all

lemma keeps_check: "fair granted e \<Longrightarrow> keeps granted (checkMandate e i)"
  unfolding checkMandate_def check_plan_def check_value_def check_bounds_def check_caps_def Let_def by (intro keeping)

lemma keeps_gates: "fair granted e \<Longrightarrow> keeps granted (riskGates e i q)"
  unfolding riskGates_def by (intro keeping)

lemma keeps_throttle: "fair granted e \<Longrightarrow> keeps granted (throttleStep e i)"
  unfolding throttleStep_def by (intro keeping) (simp_all add: places_def)

lemma keeps_verify: "fair granted e \<Longrightarrow> keeps granted (verifyStep e i f)"
  unfolding verifyStep_def by (intro keeping)

lemma keeps_unproven [keeping]: "fair granted e \<Longrightarrow> keeps granted (stm e k (\<lambda>db. (MarkUnproven a b c db, ())))"
  by (rule keeps_stm_op [where op = "DUnproven a b c"]) simp_all

lemma keeps_recorded [keeping]: "fair granted e \<Longrightarrow> keeps granted (stm e k (\<lambda>db.
    case RecordMandateRun x delta mid wid usd paper now clock db of Inl err \<Rightarrow> (db, Inl err) | Inr (db', b) \<Rightarrow> (db', Inr b)))"
  by (rule keeps_stm_op [where op = "DRecord x delta mid wid usd paper now clock"]) (simp_all add: ok_or_def split: sum.split)

lemma keeps_record: "fair granted e \<Longrightarrow> keeps granted (writeRecord e i wid chk placed res)"
  unfolding writeRecord_def by (intro keeping)

lemma keeps_ask: "fair granted e \<Longrightarrow> keeps granted (askStep e i chk)"
  unfolding askStep_def
  by (intro keeping keeps_stm_op [where op = "DReserve (in_plan i) (in_due i)"]
      keeps_stm_op [where op = "DSetAsk a b c d p now" for a b c d p now]) (simp_all add: places_def)

lemma keeps_receipt: "fair granted e \<Longrightarrow> keeps granted (sendReceipt e i chk res)"
  unfolding sendReceipt_def Let_def
  by (intro keeping keeps_stm_op [where op = "DFirst key day" for key day]) (simp_all add: places_def)

text \<open>The place step asks the exchange while the kill flag is off.\<close>

lemma place_fx:
  assumes "run_state (placeStep e i key q n) s = (r, t)" "fair granted e"
  shows "dca_reach granted s t \<and>
    (y_fx t = y_fx s \<or> \<not> en_killed e \<and> (\<exists>p. y_fx t = y_fx s @ [DxPlace (in_mandate i) p q key n]))"
proof -
  have g: "dca_reach granted s (en_gap e 0 s)" "y_fx (en_gap e 0 s) = y_fx s" by (simp_all add: fair_gap gap_fx [OF assms(2)] assms(2))
  have "(t = s \<or> t = en_gap e 0 s) \<or> \<not> en_killed e \<and> (\<exists>p. t = (en_gap e 0 s)\<lparr>y_fx := y_fx (en_gap e 0 s) @ [DxPlace (in_mandate i) p q key n]\<rparr>)"
    using assms(1) by (auto simp: placeStep_def qry_def Let_def act_def split: if_split_asm sum.split_asm place_err.split_asm)
  then show ?thesis using g by (auto simp: dca_reach_refl) (auto simp: dca_reach_def)
qed

lemma exec_keeps:
  assumes "fair granted e" "dca_exec i wid e n q s = (res, t)"
  shows "if \<exists>p. q = QPlace p then dca_reach granted s t else quiet_reach granted s t"
proof -
  have *: "quiet_reach granted s u" if "keeps granted m" "run_state m s = (r, u)" for m :: "(dca_sys, 'a) state" and r u
    using that unfolding state_io_rel_def by (metis snd_conv)
  show ?thesis using assms(2)
    by (cases q) (auto split: prod.splits intro: * keeps_check keeps_gates keeps_throttle keeps_verify keeps_record
        keeps_ask keeps_receipt place_fx [THEN conjunct1] assms(1))
qed

lemma exec_reach: "fair granted e \<Longrightarrow> dca_exec i wid e n q s = (res, t) \<Longrightarrow> dca_reach granted s t"
  using exec_keeps [of granted e i wid n q s res t] by (simp add: quiet_reach_def split: if_split_asm)

section \<open>What an answer means\<close>

text \<open>The mandate covers the run: what a check that says yes has seen.\<close>

definition within_mandate :: "dca_env \<Rightarrow> exec_input \<Rightarrow> plan \<Rightarrow> mandate \<Rightarrow> f64 \<Rightarrow> quote \<Rightarrow> bool" where
  "within_mandate e i p m used q \<longleftrightarrow>
     \<not> en_killed e \<and> ownerDial e = (''default'', False) \<and> pn_id p = in_plan i \<and> pn_enabled p \<and> Matches m p \<and> ma_id m = in_mandate i \<and>
     ma_status m = MandateActive \<and> \<not> mandate_over (en_now e 0) m \<and> en_quote e p = Inr q \<and>
     \<not> over_cap (qt_usd q) (ma_run_usd m) \<and> \<not> over_cap (f_add used (qt_usd q)) (ma_period_usd m)"

definition check_holds :: "(mandate \<Rightarrow> bool) \<Rightarrow> (dca_env \<Rightarrow> bool) \<Rightarrow> exec_input \<Rightarrow> checkOut \<Rightarrow> dca_sys \<Rightarrow> bool" where
  "check_holds granted auth i chk t \<longleftrightarrow>
     (\<exists>e p m used s0 s. auth e \<and> dca_reach granted s0 s \<and> dca_reach granted s t \<and> dca_ok granted (y_db s0) \<and>
        LatestMandateForPlan (in_plan i) (y_db s0) = Some m \<and>
        PeriodUsage (en_sum e) (en_zones e) m (en_now e 0) (qt_paper (ck_quote chk)) (y_db s) = Inr used \<and>
        within_mandate e i p m used (ck_quote chk))"

text \<open>The gates that say yes have read the mandate and what it has spent again.\<close>

definition gates_hold :: "(mandate \<Rightarrow> bool) \<Rightarrow> (dca_env \<Rightarrow> bool) \<Rightarrow> exec_input \<Rightarrow> quote \<Rightarrow> dca_sys \<Rightarrow> bool" where
  "gates_hold granted auth i q t \<longleftrightarrow>
     (\<exists>e p m used fresh s0 s. auth e \<and> dca_reach granted s0 s \<and> dca_reach granted s t \<and> dca_ok granted (y_db s0) \<and>
        en_gates e p q = Inr fresh \<and> GetMandate (in_mandate i) (y_db s0) = Some m \<and>
        PeriodUsage (en_sum e) (en_zones e) m (en_now e 0) (qt_paper fresh) (y_db s) = Inr used \<and>
        ma_status m = MandateActive \<and> \<not> mandate_over (en_now e 1) m \<and>
        \<not> over_cap (qt_usd fresh) (ma_run_usd m) \<and> \<not> over_cap (f_add used (qt_usd fresh)) (ma_period_usd m))"

lemma check_holds_stays: "check_holds granted auth i chk s \<Longrightarrow> dca_reach granted s t \<Longrightarrow> check_holds granted auth i chk t"
  unfolding check_holds_def by (blast intro: dca_reach_trans)

lemma gates_hold_stays: "gates_hold granted auth i q s \<Longrightarrow> dca_reach granted s t \<Longrightarrow> gates_hold granted auth i q t"
  unfolding gates_hold_def by (blast intro: dca_reach_trans)

lemma run_qry [simp]: "run_state (qry e k f) s = (f (y_db (en_gap e k s)), en_gap e k s)"
  by (simp add: qry_def Let_def)

lemma asked_not_ok [simp]:
  "ck_verdict (refusal why) = VerdictRefuse" "ck_verdict (quietly why) = VerdictRefuse" "ck_verdict (question b w d q u) = VerdictAsk"
  by (simp_all add: refusal_def quietly_def question_def no_check_def)

lemma refusals_not_ok:
  "plan_refusal p now = Some out \<Longrightarrow> ck_verdict out \<noteq> VerdictOK"
  "mandate_refusal i p latest = Some out \<Longrightarrow> ck_verdict out \<noteq> VerdictOK"
  "dial_refusal e = Some out \<Longrightarrow> ck_verdict out \<noteq> VerdictOK"
  "unproven_question e q why = Some out \<Longrightarrow> ck_verdict out \<noteq> VerdictOK"
  "price_question e q base = Some out \<Longrightarrow> ck_verdict out \<noteq> VerdictOK"
  by (auto simp: plan_refusal_def mandate_refusal_def dial_refusal_def unproven_question_def price_question_def Let_def
      split: if_split_asm option.split_asm prod.split_asm)

lemma dial_words:
  assumes "dial_refusal e = None" "unproven_question e q why = None"
  shows "ownerDial e = (''default'', False)"
  using assms unfolding dial_refusal_def unproven_question_def ownerDial_def
  by (auto simp: Let_def split: if_split_asm option.split_asm prod.split_asm)

lemma GetPlan_id: "GetPlan i db = Inr p \<Longrightarrow> pn_id p = i"
  by (auto simp: GetPlan_def dest: sql_first_Some split: option.split_asm)

lemma newest_if: "newest key rs = (if rs = [] then None else Some (last (sort_key key rs)))"
  by (simp add: newest_def split: list.split)

lemma sort_key_Nil: "sort_key key rs = [] \<longleftrightarrow> rs = []"
  by (metis length_0_conv length_sort)

lemma newest_mem: "newest key rs = Some x \<Longrightarrow> x \<in> set rs"
  using last_in_set [of "sort_key key rs"] by (auto simp: newest_if sort_key_Nil split: if_split_asm)

lemma LatestMandateForPlan_mem: "LatestMandateForPlan i db = Some m \<Longrightarrow> m \<in> set (d_mandates db)"
  unfolding LatestMandateForPlan_def using newest_mem by force

text \<open>The queries of the check, one after the other.\<close>

lemma check_caps_passed:
  assumes "run_state (check_caps e m q) s = (Inl chk, t)" "ck_verdict chk = VerdictOK"
  shows "t = en_gap e 6 s \<and> ck_quote chk = q \<and> \<not> over_cap (qt_usd q) (ma_run_usd m) \<and>
    (\<exists>used. PeriodUsage (en_sum e) (en_zones e) m (en_now e 0) (qt_paper q) (y_db t) = Inr used \<and>
       \<not> over_cap (f_add used (qt_usd q)) (ma_period_usd m))"
  using assms by (auto simp: check_caps_def split: if_split_asm sum.split_asm)

lemma check_bounds_passed:
  assumes "run_state (check_bounds e p m q) s = (Inl chk, t)" "ck_verdict chk = VerdictOK"
  shows "(\<exists>why. unproven_question e q why = None) \<and> ma_status m = MandateActive \<and> \<not> mandate_over (en_now e 0) m \<and>
    run_state (check_caps e m q) (en_gap e 5 (en_gap e 4 (en_gap e 3 s))) = (Inl chk, t)"
  using assms by (auto simp: check_bounds_def dest: refusals_not_ok split: if_split_asm option.split_asm)

lemma check_value_passed:
  assumes "run_state (check_value e p m) s = (Inl chk, t)" "ck_verdict chk = VerdictOK"
  shows "dial_refusal e = None \<and> (\<exists>q. en_quote e p = Inr q \<and> run_state (check_bounds e p m q) s = (Inl chk, t))"
  using assms by (auto simp: check_value_def dest: refusals_not_ok split: if_split_asm option.split_asm sum.split_asm)

lemma check_plan_passed:
  assumes "run_state (check_plan e i p) s = (Inl chk, t)" "ck_verdict chk = VerdictOK"
  shows "plan_refusal p (en_now e 0) = None \<and>
    mandate_refusal i p (LatestMandateForPlan (pn_id p) (y_db (en_gap e 2 (en_gap e 1 s)))) = None \<and>
    run_state (check_value e p (the (LatestMandateForPlan (pn_id p) (y_db (en_gap e 2 (en_gap e 1 s)))))) (en_gap e 2 (en_gap e 1 s)) = (Inl chk, t)"
  using assms by (auto simp: check_plan_def Let_def dest: refusals_not_ok split: if_split_asm option.split_asm)

lemma checkMandate_passed:
  assumes "run_state (checkMandate e i) s = (Inl chk, t)" "ck_verdict chk = VerdictOK"
  shows "\<not> en_killed e \<and> (\<exists>p. GetPlan (in_plan i) (y_db (en_gap e 0 s)) = Inr p \<and>
    run_state (check_plan e i p) (en_gap e 0 s) = (Inl chk, t))"
  using assms by (auto simp: checkMandate_def split: if_split_asm sum.split_asm)

lemma check_passed:
  assumes "run_state (checkMandate e i) s = (Inl chk, t)" "ck_verdict chk = VerdictOK" "fair granted e" "auth e" "dca_ok granted (y_db s)"
  shows "check_holds granted auth i chk t"
proof -
  obtain p where p: "\<not> en_killed e" "GetPlan (in_plan i) (y_db (en_gap e 0 s)) = Inr p"
    and plan: "run_state (check_plan e i p) (en_gap e 0 s) = (Inl chk, t)"
    using checkMandate_passed [OF assms(1,2)] by blast
  define s2 where "s2 = en_gap e 2 (en_gap e 1 (en_gap e 0 s))"
  have id: "pn_id p = in_plan i" by (rule GetPlan_id [OF p(2)])
  note plan_ok = check_plan_passed [OF plan assms(2), folded s2_def, unfolded id]
  obtain m where m: "LatestMandateForPlan (in_plan i) (y_db s2) = Some m" "ma_id m = in_mandate i" "Matches m p"
    using plan_ok by (auto simp: mandate_refusal_def split: option.split_asm if_split_asm)
  have enabled: "pn_enabled p" using plan_ok by (auto simp: plan_refusal_def split: if_split_asm)
  obtain q where q: "dial_refusal e = None" "en_quote e p = Inr q" and bounds: "run_state (check_bounds e p m q) s2 = (Inl chk, t)"
    using plan_ok check_value_passed [of e p m s2 chk t] assms(2) m(1) by auto
  note b = check_bounds_passed [OF bounds assms(2)]
  note c = check_caps_passed [OF conjunct2 [OF conjunct2 [OF conjunct2 [OF b]]] assms(2)]
  obtain used where used: "PeriodUsage (en_sum e) (en_zones e) m (en_now e 0) (qt_paper q) (y_db t) = Inr used"
    "\<not> over_cap (f_add used (qt_usd q)) (ma_period_usd m)" using c by blast
  have dial: "ownerDial e = (''default'', False)" using dial_words q(1) b by blast
  have "dca_reach granted s s2" "dca_reach granted s2 (en_gap e 6 (en_gap e 5 (en_gap e 4 (en_gap e 3 s2))))"
    unfolding s2_def by (intro gap_after dca_reach_refl assms(3))+
  then have reach: "dca_reach granted s s2" "dca_reach granted s2 t" using c by simp_all
  have "within_mandate e i p m used (ck_quote chk)"
    unfolding within_mandate_def using p id enabled m q b c used dial by simp
  then show ?thesis
    unfolding check_holds_def using assms(4,5) reach m(1) used(1) c dca_reach_ok dca_reach_refl by metis
qed

lemma gates_verdict_ok:
  assumes "ga_refused (gates_verdict e m used usd now) = []" "speaks e"
  shows "ma_status m = MandateActive \<and> \<not> mandate_over now m \<and> \<not> over_cap usd (ma_run_usd m) \<and> \<not> over_cap (f_add used usd) (ma_period_usd m)"
  using assms by (auto simp: gates_verdict_def gates_refused_def speaks_def split: if_split_asm)

lemma gates_passed:
  assumes "run_state (riskGates e i q) s = (Inl g, t)" "ga_refused g = []" "fair granted e" "auth e" "dca_ok granted (y_db s)"
  shows "gates_hold granted auth i q t"
proof -
  have sp: "speaks e" using assms(3) by (simp add: fair_def)
  define s1 where "s1 = en_gap e 1 (en_gap e 0 s)"
  obtain p where p: "GetPlan (in_plan i) (y_db (en_gap e 0 s)) = Inr p"
    using assms(1) by (cases "GetPlan (in_plan i) (y_db (en_gap e 0 s))") (auto simp: riskGates_def)
  obtain fresh where fresh: "en_gates e p q = Inr fresh"
    using assms(1,2) sp p by (cases "en_gates e p q") (auto simp: riskGates_def gates_refused_def speaks_def)
  obtain m where m: "GetMandate (in_mandate i) (y_db s1) = Some m"
    using assms(1) p fresh by (cases "GetMandate (in_mandate i) (y_db s1)") (auto simp: riskGates_def s1_def)
  obtain used where used: "PeriodUsage (en_sum e) (en_zones e) m (en_now e 0) (qt_paper fresh) (y_db (en_gap e 2 s1)) = Inr used"
    using assms(1) p fresh m [unfolded s1_def] unfolding s1_def
    by (cases "PeriodUsage (en_sum e) (en_zones e) m (en_now e 0) (qt_paper fresh) (y_db (en_gap e 2 (en_gap e 1 (en_gap e 0 s))))")
      (auto simp: riskGates_def)
  have last: "g = gates_verdict e m used (qt_usd fresh) (en_now e 1) \<and> t = en_gap e 3 (en_gap e 2 s1)"
    using assms(1,2) p fresh m [unfolded s1_def] used [unfolded s1_def] unfolding s1_def
    by (auto simp: riskGates_def gates_refused_def split: if_split_asm)
  note f = fresh m used conjunct1 [OF last] conjunct2 [OF last]
  have "dca_reach granted s s1" "dca_reach granted s1 (en_gap e 2 s1)" "dca_reach granted (en_gap e 2 s1) t"
    unfolding s1_def f(5) by (intro gap_after dca_reach_refl assms(3))+
  moreover from this(1) have "dca_ok granted (y_db s1)" by (rule dca_reach_ok) (rule assms(5))
  moreover have "ga_refused (gates_verdict e m used (qt_usd fresh) (en_now e 1)) = []" using f(4) assms(2) by simp
  ultimately show ?thesis
    unfolding gates_hold_def using f(1-3) gates_verdict_ok [OF _ sp] assms(4) by blast
qed

lemma broken_speaks:
  assumes "speaks e" "run_state (riskGates e i q) s = (Inr (msg, again), t)"
  shows "msg \<noteq> []"
  using assms by (auto simp: riskGates_def speaks_def split: if_split_asm option.split_asm sum.split_asm)

section \<open>The path to the place step\<close>

lemma resume_Over [simp]: "resume (Over err) as = Over err"
  by (cases as) simp_all

lemma receipt_no_place [simp]: "resume (receipt chk res) as \<noteq> Ask (QPlace q) k"
  by (cases as) (simp_all add: receipt_def)

lemma record_no_place [simp]: "resume (record_flow chk placed res) as \<noteq> Ask (QPlace q) k"
  by (cases as) (simp_all add: record_flow_def undecoded_def split: answer.split dca_out.split)

lemma ask_no_place [simp]: "resume (ask_flow chk) as \<noteq> Ask (QPlace q) k"
  by (cases as) (simp_all add: ask_flow_def undecoded_def split: answer.split dca_out.split)

lemma verify_no_place [simp]: "resume (verify_flow e chk gates placed) as \<noteq> Ask (QPlace q) k"
  by (cases as) (simp_all add: verify_flow_def undecoded_def split: answer.split dca_out.split)

lemma placed_no_place [simp]: "resume (placed_flow e chk gates placed) as \<noteq> Ask (QPlace q) k"
  by (simp add: placed_flow_def split: place_result.split)

lemma place_here: "resume (place_flow e chk gates) as = Ask (QPlace q) k \<Longrightarrow> as = [] \<and> q = ck_quote chk"
  by (cases as) (auto simp: place_flow_def undecoded_def split: answer.split_asm dca_out.split_asm)

lemma throttle_then_place: "resume (throttle_flow e chk gates) as = Ask (QPlace q) k \<Longrightarrow> \<exists>a. as = [a] \<and> q = ck_quote chk"
  by (cases as) (auto simp: throttle_flow_def dest: place_here split: answer.split_asm)

lemma gates_then_place:
  assumes "resume (gates_flow e chk) as = Ask (QPlace q) k"
  shows "q = ck_quote chk \<and> (\<exists>a b. as = [a, b] \<and> ((\<exists>g. a = Got (VGates g) \<and> ga_refused g = []) \<or> a = Broken []))"
  using assms by (cases as)
    (auto simp: gates_flow_def undecoded_def dest: throttle_then_place split: answer.split_asm dca_out.split_asm if_split_asm)

text \<open>The run asks for the place step after a check that said yes and gates that let it through.\<close>

lemma place_path:
  assumes "resume (runExecute e i) as = Ask (QPlace q) k"
  shows "\<exists>chk a b. ck_verdict chk = VerdictOK \<and> q = ck_quote chk \<and> as = [Got (VCheck chk), a, b] \<and>
    answered (runExecute e i) as = [(QCheck, Got (VCheck chk)), (QGates q, a), (QThrottle, b)] \<and>
    ((\<exists>g. a = Got (VGates g) \<and> ga_refused g = []) \<or> a = Broken [])"
proof -
  have input: "\<not> (in_plan i \<le> 0 \<or> in_mandate i = [])" using assms by (auto simp: runExecute_def split: if_split_asm)
  obtain a0 rest where as: "as = a0 # rest" using assms input by (cases as) (auto simp: runExecute_def)
  have "\<exists>chk. a0 = Got (VCheck chk) \<and> ck_verdict chk = VerdictOK \<and> resume (gates_flow e chk) rest = Ask (QPlace q) k"
    using assms input unfolding as
    by (auto simp: runExecute_def undecoded_def checked_flow_def split: answer.split_asm dca_out.split_asm check_verdict.split_asm if_split_asm)
  then obtain chk where chk: "a0 = Got (VCheck chk)" "ck_verdict chk = VerdictOK" "resume (gates_flow e chk) rest = Ask (QPlace q) k"
    by blast
  obtain a b where ab: "q = ck_quote chk" "rest = [a, b]" "(\<exists>g. a = Got (VGates g) \<and> ga_refused g = []) \<or> a = Broken []"
    using gates_then_place [OF chk(3)] by blast
  have "answered (runExecute e i) as = [(QCheck, Got (VCheck chk)), (QGates q, a), (QThrottle, b)]"
    using ab(3) input chk(2) by (auto simp: as chk(1) ab(1,2) runExecute_def checked_flow_def gates_flow_def throttle_flow_def)
  then show ?thesis using ab chk as by blast
qed

section \<open>The contract is met\<close>

fun dca_says :: "(mandate \<Rightarrow> bool) \<Rightarrow> (dca_env \<Rightarrow> bool) \<Rightarrow> exec_input \<Rightarrow> dca_step \<Rightarrow> dca_out answer \<Rightarrow> dca_sys \<Rightarrow> bool" where
  "dca_says granted auth i QCheck (Got (VCheck chk)) s = (ck_verdict chk = VerdictOK \<longrightarrow> check_holds granted auth i chk s)"
| "dca_says granted auth i (QGates q) (Got (VGates g)) s = (ga_refused g = [] \<longrightarrow> gates_hold granted auth i q s)"
| "dca_says granted auth i (QGates q) (Broken msg) s = (msg \<noteq> [])"
| "dca_says granted auth i _ _ s = True"

lemma map_sum_iff:
  "map_sum f g x = Inl v \<longleftrightarrow> (\<exists>y. x = Inl y \<and> v = f y)" "map_sum f g x = Inr w \<longleftrightarrow> (\<exists>y. x = Inr y \<and> w = g y)"
  by (cases x; auto)+

lemma exec_check: "dca_exec i wid e n QCheck s = (Inl v, t) \<Longrightarrow> \<exists>chk. v = VCheck chk \<and> run_state (checkMandate e i) s = (Inl chk, t)"
  by (auto simp: map_sum_iff split: prod.split_asm)

lemma exec_gates:
  "dca_exec i wid e n (QGates q) s = (Inl v, t) \<Longrightarrow> \<exists>g. v = VGates g \<and> run_state (riskGates e i q) s = (Inl g, t)"
  "dca_exec i wid e n (QGates q) s = (Inr b, t) \<Longrightarrow> run_state (riskGates e i q) s = (Inr b, t)"
  by (auto simp: map_sum_iff split: prod.split_asm)

interpretation dca_run: journaled "runExecute w i" "dca_exec i wid" dca_retries "\<lambda>e. fair granted e \<and> auth e"
    "\<lambda>s. dca_ok granted (y_db s)" "dca_reach granted" "dca_says granted auth i" for granted auth w i wid
proof unfold_locales
  show "dca_says granted auth i q (Got v) t"
    if "fair granted e \<and> auth e" "dca_ok granted (y_db s)" "dca_exec i wid e n q s = (Inl v, t)" for e s n q v t
  proof (cases q)
    case QCheck
    then show ?thesis using exec_check that check_passed by fastforce
  next
    case (QGates q')
    then show ?thesis using exec_gates(1) that gates_passed by fastforce
  qed simp_all
next
  show "dca_says granted auth i q (Broken msg) t"
    if "fair granted e \<and> auth e" "dca_ok granted (y_db s)" "dca_exec i wid e n q s = (Inr (msg, again), t)" for e s n q msg again t
  proof (cases q)
    case (QGates q')
    then show ?thesis using exec_gates(2) that broken_speaks unfolding fair_def by fastforce
  qed simp_all
next
  show "dca_says granted auth i q a t" if "dca_ok granted (y_db s)" "dca_reach granted s t" "dca_says granted auth i q a s" for s t q a
    using that check_holds_stays gates_hold_stays by (cases "(granted, auth, i, q, a, s)" rule: dca_says.cases) auto
qed (use exec_reach dca_reach_ok in blast)+

section \<open>Histories of one run\<close>

text \<open>Executions one after the other: each with what the outside does and whether the process dies in it. Any
  number of days may pass between two of them.\<close>

definition run_events :: "dca_env \<Rightarrow> exec_input \<Rightarrow> string \<Rightarrow> (bool \<times> dca_env) list \<Rightarrow> dca_out run \<times> dca_sys \<Rightarrow> dca_out run \<times> dca_sys" where
  "run_events w i wid evs = fold (\<lambda>(dies, e). advance (runExecute w i) (dca_exec i wid) dca_retries dies e) evs"

definition placed_ok :: "(mandate \<Rightarrow> bool) \<Rightarrow> (dca_env \<Rightarrow> bool) \<Rightarrow> exec_input \<Rightarrow> string \<Rightarrow> dca_fx \<Rightarrow> dca_sys \<Rightarrow> bool" where
  "placed_ok granted auth i wid x s \<longleftrightarrow> (\<forall>mid p q key n. x = DxPlace mid p q key n \<longrightarrow>
     mid = in_mandate i \<and> key = StepKey wid 3 ''place'' \<and> (\<exists>e. auth e \<and> \<not> en_killed e) \<and>
     (\<exists>chk. ck_quote chk = q \<and> check_holds granted auth i chk s) \<and> gates_hold granted auth i q s)"

lemma placed_ok_stays: "placed_ok granted auth i wid x s \<Longrightarrow> dca_reach granted s t \<Longrightarrow> placed_ok granted auth i wid x t"
  using check_holds_stays gates_hold_stays unfolding placed_ok_def by metis

text \<open>What the place step asked for in a sound run was checked.\<close>

lemma asked_placed_ok:
  assumes "dca_run.sound w i granted auth r s" "resume (runExecute w i) (r_answers r) = Ask (QPlace q) k"
  shows "(\<exists>chk. ck_quote chk = q \<and> check_holds granted auth i chk s) \<and> gates_hold granted auth i q s"
proof -
  obtain chk a b where c: "ck_verdict chk = VerdictOK" "q = ck_quote chk"
    "answered (runExecute w i) (r_answers r) = [(QCheck, Got (VCheck chk)), (QGates q, a), (QThrottle, b)]"
    "(\<exists>g. a = Got (VGates g) \<and> ga_refused g = []) \<or> a = Broken []"
    using place_path [OF assms(2)] by blast
  have says: "dca_says granted auth i QCheck (Got (VCheck chk)) s" "dca_says granted auth i (QGates q) a s"
    using assms(1) c(3) unfolding dca_run.sound_def by simp_all
  show ?thesis using c(1,2,4) says by auto
qed

lemma advance_places:
  assumes e: "fair granted e" "auth e" and snd: "dca_run.sound w i granted auth r s"
    and ok: "\<forall>x \<in> set (y_fx s). placed_ok granted auth i wid x s"
    and adv: "advance (runExecute w i) (dca_exec i wid) dca_retries dies e (r, s) = (r', t)"
  shows "\<forall>x \<in> set (y_fx t). placed_ok granted auth i wid x t"
  using adv
proof (cases rule: dca_run.advance_cases)
  case idle
  then show ?thesis using ok by simp
next
  case (ran q k res)
  have reach: "dca_reach granted s t" using exec_reach [OF e(1) ran(2)] .
  have old: "placed_ok granted auth i wid x t" if "x \<in> set (y_fx s)" for x using ok that reach placed_ok_stays by blast
  show ?thesis
  proof (cases "\<exists>p. q = QPlace p")
    case True
    then obtain q' where q: "q = QPlace q'" by blast
    have answered: "(\<exists>chk. ck_quote chk = q' \<and> check_holds granted auth i chk t) \<and> gates_hold granted auth i q' t"
      using asked_placed_ok [OF snd ran(1) [unfolded q]] check_holds_stays gates_hold_stays reach by blast
    obtain r0 where "run_state (placeStep e i (StepKey wid 3 ''place'') q' (r_attempts r + 1)) s = (r0, t)"
      using ran(2) by (auto simp: q split: prod.split_asm)
    from place_fx [OF this e(1)] show ?thesis using old answered e(2) by (auto simp: placed_ok_def)
  next
    case False
    then have "filter places (y_fx t) = filter places (y_fx s)"
      using exec_keeps [OF e(1) ran(2)] by (simp add: quiet_reach_def)
    then have "set (filter places (y_fx t)) = set (filter places (y_fx s))" by simp
    then have "x \<in> set (y_fx s)" if "x \<in> set (y_fx t)" "places x" for x using that by auto
    moreover have "placed_ok granted auth i wid x t" if "\<not> places x" for x using that by (auto simp: placed_ok_def places_def)
    ultimately show ?thesis using old by blast
  qed
qed

lemma events_places:
  assumes "\<forall>(dies, e) \<in> set evs. fair granted e \<and> auth e" "dca_run.sound w i granted auth r s"
    "\<forall>x \<in> set (y_fx s). placed_ok granted auth i wid x s" "run_events w i wid evs (r, s) = (r', t)"
  shows "\<forall>x \<in> set (y_fx t). placed_ok granted auth i wid x t"
  using assms
proof (induction evs arbitrary: r s)
  case (Cons ev evs)
  obtain dies e where ev: "ev = (dies, e)" by fastforce
  obtain r1 s1 where adv: "advance (runExecute w i) (dca_exec i wid) dca_retries dies e (r, s) = (r1, s1)" by fastforce
  have fair: "fair granted e \<and> auth e" using Cons.prems(1) ev by simp
  show ?case
  proof (rule Cons.IH)
    show "dca_run.sound w i granted auth r1 s1" by (rule dca_run.advance_sound [OF fair Cons.prems(2) adv])
    show "\<forall>x \<in> set (y_fx s1). placed_ok granted auth i wid x s1" using advance_places [OF _ _ Cons.prems(2,3) adv] fair by blast
    show "run_events w i wid evs (r1, s1) = (r', t)" using Cons.prems(4) by (simp add: run_events_def ev adv)
  qed (use Cons.prems(1) in simp)
qed (simp add: run_events_def)

section \<open>What mandated runs promise\<close>


section \<open>Concrete runs\<close>

definition demo_quote :: quote where
  "demo_quote = \<lparr>qt_price = Fin 50, qt_base = Fin 1, qt_quote = Fin 60, qt_ccy = ''USDT'', qt_usd = Fin 60, qt_rate = Fin 1,
     qt_source = ''feed'', qt_paper = False\<rparr>"

definition demo_dfill :: dfill where
  "demo_dfill = \<lparr>df_order = ''o1'', df_status = ''closed'', df_filled = Fin 1, df_avg = Fin 60, df_fee = Fin 0, df_known = True,
     df_done = True, df_paper = False\<rparr>"

definition demo_world :: "dca_env" where
  "demo_world = \<lparr>en_now = (\<lambda>_. 3 * minute), en_gap = (\<lambda>_ s. s), en_dead = (\<lambda>_. False), en_first = None, en_killed = False,
     en_dial = None, en_pct = None, en_zones = [''UTC'' \<mapsto> (\<lambda>_. 0)], en_sum = (\<lambda>xs. foldr f_add xs (Fin 0)),
     en_due = (\<lambda>_ _ _. True), en_quote = (\<lambda>_. Inr demo_quote), en_gates = (\<lambda>_ q. Inr q), en_throttle = (\<lambda>_. None),
     en_place = (\<lambda>_ _ _ _ _. Inr demo_dfill), en_fetch = (\<lambda>_. Some demo_dfill), en_ended = (\<lambda>_. False), en_rate = None,
     en_ask = None, en_tell = False, en_fmt = (\<lambda>_ _. ''text''), en_day = (\<lambda>_ _. ''day''), en_err = (\<lambda>_. ''error''),
     en_db_err = (\<lambda>_. ''database'')\<rparr>"

text \<open>The same with others' operations done before the first statement.\<close>

definition after_others :: "dop list \<Rightarrow> dca_env \<Rightarrow> dca_env" where
  "after_others ops e = e\<lparr>en_gap := (\<lambda>k s. if k = 0 then s\<lparr>y_db := fold run_dop ops (y_db s)\<rparr> else s)\<rparr>"

definition days_later :: "int \<Rightarrow> dca_env \<Rightarrow> dca_env" where
  "days_later n e = e\<lparr>en_now := (\<lambda>k. en_now e k + n * (24 * hour))\<rparr>"

definition demo_input :: "int \<Rightarrow> exec_input" where
  "demo_input due_ms = \<lparr>in_plan = 1, in_due = due_ms, in_mandate = ''mnd_p1'', in_origin = [], in_sender = []\<rparr>"

definition demo_start :: "dca_out run \<times> dca_sys" where
  "demo_start = (fresh_run, \<lparr>y_db = fold run_dop demo_history empty_dca, y_fx = []\<rparr>)"

abbreviation demo_run :: "(bool \<times> dca_env) list \<Rightarrow> dca_out run \<times> dca_sys" where
  "demo_run evs \<equiv> run_events demo_world (demo_input 180000) ''dcax_1_180000'' evs demo_start"

definition placed_under :: "dca_sys \<Rightarrow> (plan \<times> string) list" where
  "placed_under s = concat (map (\<lambda>x. case x of DxPlace mid p q key n \<Rightarrow> [(p, mid)] | _ \<Rightarrow> []) (y_fx s))"

text \<open>A revocation does not reach a run that is past its gates: the place step reads the plan and the kill flag only,
  so a run whose gates passed buys under a mandate that its owner has revoked since, here thirty days later.\<close>

theorem revoked_mandate_still_buys:
  "let s = snd (demo_run (replicate 3 (False, demo_world) @ [(False, days_later 30 (after_others [DRevokePlan 1 ''by the owner''] demo_world))]))
   in map snd (placed_under s) = [''mnd_p1''] \<and> map ma_status (d_mandates (y_db s)) = [MandateRevoked]"
  by code_simp

text \<open>The place step takes the symbol of the plan as it is then and the amount of the quote as it was: a plan edited
  after the check buys another symbol than its mandate covers, in the amount computed for the old one.\<close>

theorem edited_plan_buys_another_symbol:
  "let s = snd (demo_run (replicate 3 (False, demo_world) @
       [(False, after_others [DUpdatePlan (demo_plan\<lparr>pn_id := 1, pn_symbol := ''DOGE/USDT''\<rparr>) (4 * minute)] demo_world)]))
   in map (\<lambda>(p, mid). (pn_symbol p, mid)) (placed_under s) = [(''DOGE/USDT'', ''mnd_p1'')] \<and>
      map ma_symbol (d_mandates (y_db s)) = [''BTC/USDT''] \<and>
      list_all (\<lambda>(p, mid). list_all (\<lambda>m. \<not> Matches m p) (d_mandates (y_db s))) (placed_under s)"
  by code_simp

text \<open>Two runs under one mandate each look at what is spent before either has recorded: both pass, and together they
  spend more than the cap of the period.\<close>

theorem overlapping_runs_exceed_the_cap:
  "let checked = replicate 3 (False, demo_world);
       (r1, s1) = demo_run checked;
       (r2, s2) = run_events demo_world (demo_input 240000) ''dcax_1_240000'' (checked @ checked) (fresh_run, s1);
       (r3, s3) = run_events demo_world (demo_input 180000) ''dcax_1_180000'' checked (r1, s2)
   in map us_usd (d_uses (y_db s3)) = [Fin 60, Fin 60] \<and> map ma_period_usd (d_mandates (y_db s3)) = [Fin 100] \<and>
      over_cap (foldr f_add (map us_usd (d_uses (y_db s3))) (Fin 0)) (Fin 100)"
  by code_simp

lemma demo_world_fair: "fair granted demo_world"
  by (simp add: fair_def speaks_def demo_world_def dca_reach_refl)


end
