(* ===== verification/KillFlag.thy ===== *)
theory KillFlag
  imports "HOL-Library.Code_Target_Nat" GoBase Machine
begin

text \<open>
  The kill flag (\<open>pkg/control/state.go\<close>): one row of the table \<open>control_state\<close>, shared by processes, and what a
  process remembers of it. A method of \<open>State\<close> is several sections that are atomic each: a statement of the
  database, or what it does while it holds the mutex. Between two sections of one call, others run; so the calls
  of all goroutines are one list of sections. The JSON of the row is decoded by the library, an argument here.
\<close>

section \<open>The row and the memory\<close>

record kill_info =
  ki_at :: int
  ki_by :: string
  ki_reason :: string

text \<open>\<open>json.Unmarshal\<close> into a \<open>killRecord\<close>, and \<open>json.Marshal\<close> of one.\<close>

record kill_lib =
  kl_decode :: "string \<Rightarrow> kill_info option"
  kl_encode :: "kill_info \<Rightarrow> string"

definition null_json :: string where "null_json = ''null''"

definition DefaultRefresh :: duration where "DefaultRefresh = 2 * second"

definition decodeKill :: "kill_lib \<Rightarrow> string \<Rightarrow> unit + bool \<times> kill_info option" where
  "decodeKill lib raw =
     (if raw = [] \<or> raw = null_json then Inr (False, None)
      else case kl_decode lib raw of None \<Rightarrow> Inl () | Some i \<Rightarrow> Inr (True, Some i))"

text \<open>A row nobody can read is taken as engaged.\<close>

definition unreadable :: kill_info where
  "unreadable = \<lparr>ki_at = 0, ki_by = ''unreadable'', ki_reason = ''unreadable kill switch row''\<rparr>"

definition seen :: "kill_lib \<Rightarrow> string \<Rightarrow> bool \<times> kill_info option" where
  "seen lib raw = (case decodeKill lib raw of Inl _ \<Rightarrow> (True, Some unreadable) | Inr r \<Rightarrow> r)"

record kill_mem =
  km_killed :: bool
  km_info :: "kill_info option"
  km_checked :: go_time
  km_loaded :: bool
  km_degraded :: bool

section \<open>The sections\<close>

text \<open>A missing row reads as null.\<close>

definition select_row :: "string option \<Rightarrow> string" where
  "select_row row = (case row of None \<Rightarrow> null_json | Some raw \<Rightarrow> raw)"

text \<open>The end of \<open>read\<close>, with the row that its query gave.\<close>

definition store_read :: "kill_lib \<Rightarrow> string \<Rightarrow> go_time \<Rightarrow> kill_mem \<Rightarrow> kill_mem" where
  "store_read lib raw now m =
     (let (killed, info) = seen lib raw
      in m\<lparr>km_degraded := False, km_killed := killed, km_info := info, km_checked := now\<rparr>)"

definition read_failed :: "kill_mem \<Rightarrow> kill_mem" where
  "read_failed m = m\<lparr>km_degraded := True\<rparr>"

text \<open>The first section of \<open>Killed\<close>: an answer, or the claim of a refresh.\<close>

definition killed_start :: "duration \<Rightarrow> go_time \<Rightarrow> kill_mem \<Rightarrow> bool + kill_mem" where
  "killed_start refresh now m =
     (if km_loaded m \<and> now - km_checked m < refresh then Inl (km_killed m \<or> km_degraded m)
      else Inr (m\<lparr>km_checked := now\<rparr>))"

definition engage_row :: "kill_lib \<Rightarrow> kill_info \<Rightarrow> string option \<Rightarrow> string option \<times> bool" where
  "engage_row lib i row =
     (case row of
        None \<Rightarrow> (Some (kl_encode lib i), True)
      | Some raw \<Rightarrow> if raw = null_json then (Some (kl_encode lib i), True) else (Some raw, False))"

definition clear_row :: "string option \<Rightarrow> string option \<times> bool" where
  "clear_row row =
     (case row of
        None \<Rightarrow> (None, False)
      | Some raw \<Rightarrow> if raw \<noteq> null_json then (Some null_json, True) else (Some raw, False))"

text \<open>The fallbacks of \<open>Engage\<close> and \<open>Clear\<close> when the row was written and cannot be read back.\<close>

definition engage_fallback :: "go_time \<Rightarrow> kill_mem \<Rightarrow> kill_mem" where
  "engage_fallback now m = m\<lparr>km_killed := True, km_checked := now\<rparr>"

definition clear_fallback :: "go_time \<Rightarrow> kill_mem \<Rightarrow> kill_mem" where
  "clear_fallback now m = m\<lparr>km_killed := False, km_checked := now\<rparr>"

section \<open>Calls that do not overlap\<close>

text \<open>\<open>read\<close>, with whether the query succeeds.\<close>

definition read :: "kill_lib \<Rightarrow> bool \<Rightarrow> go_time \<Rightarrow> string option \<Rightarrow> kill_mem \<Rightarrow> (bool \<times> kill_info option) option \<times> kill_mem" where
  "read lib ok now row m =
     (if ok then (Some (seen lib (select_row row)), store_read lib (select_row row) now m) else (None, read_failed m))"

definition Killed :: "kill_lib \<Rightarrow> duration \<Rightarrow> bool \<Rightarrow> go_time \<Rightarrow> string option \<Rightarrow> kill_mem \<Rightarrow> bool \<times> kill_mem" where
  "Killed lib refresh ok now row m =
     (case killed_start refresh now m of
        Inl b \<Rightarrow> (b, m)
      | Inr m \<Rightarrow> (case read lib ok now row m of
            (None, m) \<Rightarrow> (True, m)
          | (Some (killed, _), m) \<Rightarrow> (killed, m)))"

text \<open>\<open>Engage\<close> and \<open>Clear\<close>, with whether the statement and the read succeed; None is an error.\<close>

definition Engage ::
  "kill_lib \<Rightarrow> bool \<Rightarrow> bool \<Rightarrow> go_time \<Rightarrow> string \<Rightarrow> string \<Rightarrow> string option \<Rightarrow> kill_mem \<Rightarrow> bool option \<times> string option \<times> kill_mem" where
  "Engage lib written ok now who reason row m =
     (if \<not> written then (None, row, m)
      else let (row, changed) = engage_row lib \<lparr>ki_at = unix_ms now, ki_by = who, ki_reason = reason\<rparr> row in
        (case read lib ok now row m of
           (None, m) \<Rightarrow> (Some changed, row, engage_fallback now m)
         | (Some _, m) \<Rightarrow> (Some changed, row, m)))"

definition Clear :: "kill_lib \<Rightarrow> bool \<Rightarrow> bool \<Rightarrow> go_time \<Rightarrow> string option \<Rightarrow> kill_mem \<Rightarrow> bool option \<times> string option \<times> kill_mem" where
  "Clear lib written ok now row m =
     (if \<not> written then (None, row, m)
      else let (row, changed) = clear_row row in
        (case read lib ok now row m of
           (None, m) \<Rightarrow> (Some changed, row, clear_fallback now m)
         | (Some _, m) \<Rightarrow> (Some changed, row, m)))"

text \<open>\<open>NewState\<close>: the first read must succeed.\<close>

definition NewState :: "kill_lib \<Rightarrow> bool \<Rightarrow> go_time \<Rightarrow> string option \<Rightarrow> kill_mem option" where
  "NewState lib ok now row =
     (case read lib ok now row \<lparr>km_killed = False, km_info = None, km_checked = 0, km_loaded = False, km_degraded = False\<rparr> of
        (None, _) \<Rightarrow> None
      | (Some _, m) \<Rightarrow> Some (m\<lparr>km_loaded := True\<rparr>))"

definition Info :: "kill_lib \<Rightarrow> bool \<Rightarrow> go_time \<Rightarrow> string option \<Rightarrow> kill_mem \<Rightarrow> (bool \<times> kill_info option) option \<times> kill_mem" where
  "Info = read"

section \<open>Calls that overlap\<close>

text \<open>Where a goroutine is: between the sections of its call.\<close>

datatype kill_call = ByKilled | ByEngage bool | ByClear bool

datatype kill_pc = AtQuery kill_call | AtStore kill_call string | AtFailed kill_call | AtFallback kill_call

datatype kill_event = AskKilled nat go_time | AskEngage nat kill_info | AskClear nat
  | Query nat bool | Finish nat go_time | Elsewhere "string option"

datatype kill_answer = Says nat bool | Did nat bool

record kill_sys =
  ks_row :: "string option"
  ks_mem :: kill_mem
  ks_calls :: "(nat \<times> kill_pc) list"
  ks_said :: "kill_answer list"

definition pc_of :: "nat \<Rightarrow> kill_sys \<Rightarrow> kill_pc option" where
  "pc_of g s = map_of (ks_calls s) g"

definition at_pc :: "nat \<Rightarrow> kill_pc \<Rightarrow> kill_sys \<Rightarrow> kill_sys" where
  "at_pc g pc s = s\<lparr>ks_calls := (g, pc) # filter (\<lambda>(h, _). h \<noteq> g) (ks_calls s)\<rparr>"

definition answer_call :: "nat \<Rightarrow> kill_answer \<Rightarrow> kill_sys \<Rightarrow> kill_sys" where
  "answer_call g a s = s\<lparr>ks_calls := filter (\<lambda>(h, _). h \<noteq> g) (ks_calls s), ks_said := ks_said s @ [a]\<rparr>"

text \<open>What a call answers when its read succeeded with the row it saw.\<close>

fun answer_of :: "kill_lib \<Rightarrow> nat \<Rightarrow> kill_call \<Rightarrow> string \<Rightarrow> kill_answer" where
  "answer_of lib g ByKilled raw = Says g (fst (seen lib raw))"
| "answer_of lib g (ByEngage changed) raw = Did g changed"
| "answer_of lib g (ByClear changed) raw = Did g changed"

text \<open>
  One section of goroutine \<open>g\<close>. A goroutine makes one call at a time; an event that does not fit does nothing.
  \<open>Elsewhere\<close> is another process that writes the row.
\<close>

fun kill_step :: "kill_lib \<Rightarrow> duration \<Rightarrow> kill_event \<Rightarrow> kill_sys \<Rightarrow> kill_sys" where
  "kill_step lib refresh (AskKilled g now) s =
     (if pc_of g s \<noteq> None then s
      else case killed_start refresh now (ks_mem s) of
             Inl b \<Rightarrow> answer_call g (Says g b) s
           | Inr m \<Rightarrow> at_pc g (AtQuery ByKilled) (s\<lparr>ks_mem := m\<rparr>))"
| "kill_step lib refresh (AskEngage g i) s =
     (if pc_of g s \<noteq> None then s
      else let (row, changed) = engage_row lib i (ks_row s) in at_pc g (AtQuery (ByEngage changed)) (s\<lparr>ks_row := row\<rparr>))"
| "kill_step lib refresh (AskClear g) s =
     (if pc_of g s \<noteq> None then s
      else let (row, changed) = clear_row (ks_row s) in at_pc g (AtQuery (ByClear changed)) (s\<lparr>ks_row := row\<rparr>))"
| "kill_step lib refresh (Query g ok) s =
     (case pc_of g s of
        Some (AtQuery c) \<Rightarrow> at_pc g (if ok then AtStore c (select_row (ks_row s)) else AtFailed c) s
      | _ \<Rightarrow> s)"
| "kill_step lib refresh (Finish g now) s =
     (case pc_of g s of
        Some (AtStore c raw) \<Rightarrow> answer_call g (answer_of lib g c raw) (s\<lparr>ks_mem := store_read lib raw now (ks_mem s)\<rparr>)
      | Some (AtFailed ByKilled) \<Rightarrow> answer_call g (Says g True) (s\<lparr>ks_mem := read_failed (ks_mem s)\<rparr>)
      | Some (AtFailed c) \<Rightarrow> at_pc g (AtFallback c) (s\<lparr>ks_mem := read_failed (ks_mem s)\<rparr>)
      | Some (AtFallback (ByEngage changed)) \<Rightarrow> answer_call g (Did g changed) (s\<lparr>ks_mem := engage_fallback now (ks_mem s)\<rparr>)
      | Some (AtFallback (ByClear changed)) \<Rightarrow> answer_call g (Did g changed) (s\<lparr>ks_mem := clear_fallback now (ks_mem s)\<rparr>)
      | _ \<Rightarrow> s)"
| "kill_step lib refresh (Elsewhere row) s = s\<lparr>ks_row := row\<rparr>"

section \<open>The sections of one call in a row are the call\<close>

lemma pc_of_at_pc [simp]: "pc_of g (at_pc g pc s) = Some pc"
  by (simp add: pc_of_def at_pc_def)

lemma at_pc_sel [simp]: "ks_row (at_pc g pc s) = ks_row s" "ks_mem (at_pc g pc s) = ks_mem s" "ks_said (at_pc g pc s) = ks_said s"
  "set (ks_calls (at_pc g pc s)) \<subseteq> insert (g, pc) (set (ks_calls s))"
  by (auto simp: at_pc_def)

lemma answer_call_sel [simp]: "ks_row (answer_call g a s) = ks_row s" "ks_mem (answer_call g a s) = ks_mem s"
  "ks_said (answer_call g a s) = ks_said s @ [a]" "set (ks_calls (answer_call g a s)) \<subseteq> set (ks_calls s)"
  by (auto simp: answer_call_def)

lemma pc_of_Some: "pc_of g s = Some pc \<Longrightarrow> (g, pc) \<in> set (ks_calls s)"
  unfolding pc_of_def by (rule map_of_SomeD)

lemma killed_sections:
  assumes "pc_of g s = None"
  shows "let t = fold (kill_step lib refresh) [AskKilled g now, Query g ok, Finish g now] s; (b, m) = Killed lib refresh ok now (ks_row s) (ks_mem s)
    in ks_mem t = m \<and> ks_said t = ks_said s @ [Says g b]"
proof (cases "killed_start refresh now (ks_mem s)")
  case (Inl b)
  have "pc_of g (answer_call g a s) = None" for a
    by (auto simp: pc_of_def answer_call_def map_of_eq_None_iff)
  then show ?thesis using assms Inl by (simp add: Killed_def)
next
  case (Inr m)
  then show ?thesis using assms by (cases ok) (simp_all add: Killed_def read_def Let_def store_read_def read_failed_def split_beta)
qed

section \<open>Once engaged, engaged for every caller\<close>

definition row_on :: "kill_lib \<Rightarrow> string option \<Rightarrow> bool" where
  "row_on lib row \<longleftrightarrow> fst (seen lib (select_row row))"

fun is_clear :: "kill_call \<Rightarrow> bool" where
  "is_clear (ByClear _) = True"
| "is_clear _ = False"

fun call_on :: "kill_lib \<Rightarrow> kill_pc \<Rightarrow> bool" where
  "call_on lib (AtStore c raw) = (fst (seen lib raw) \<and> (\<not> is_clear c))"
| "call_on lib (AtQuery c) = (\<not> is_clear c)"
| "call_on lib (AtFailed c) = (\<not> is_clear c)"
| "call_on lib (AtFallback c) = (\<not> is_clear c)"

definition said_no :: "kill_sys \<Rightarrow> bool" where
  "said_no s \<longleftrightarrow> (\<exists>g. Says g False \<in> set (ks_said s))"

definition stays_on :: "kill_lib \<Rightarrow> kill_sys \<Rightarrow> bool" where
  "stays_on lib s \<longleftrightarrow> row_on lib (ks_row s) \<and> km_killed (ks_mem s) \<and> (\<forall>(g, pc) \<in> set (ks_calls s). call_on lib pc) \<and> \<not> said_no s"

fun keeps_on :: "kill_lib \<Rightarrow> kill_event \<Rightarrow> bool" where
  "keeps_on lib (AskClear g) = False"
| "keeps_on lib (Elsewhere row) = row_on lib row"
| "keeps_on lib _ = True"

lemma engage_row_on: "row_on lib row \<Longrightarrow> engage_row lib i row = (row, False)"
  by (auto simp: engage_row_def row_on_def select_row_def seen_def decodeKill_def null_json_def split: option.splits)

lemma stays_on_answer:
  "stays_on lib s \<Longrightarrow> (\<forall>g. a \<noteq> Says g False) \<Longrightarrow> stays_on lib (answer_call h a s)"
  using answer_call_sel(4) [of h a s] unfolding stays_on_def said_no_def by (simp add: subset_iff) blast

lemma stays_on_at: "stays_on lib s \<Longrightarrow> call_on lib pc \<Longrightarrow> stays_on lib (at_pc h pc s)"
  using at_pc_sel(4) [of h pc s] unfolding stays_on_def said_no_def by (simp add: subset_iff) blast

lemma stays_on_mem: "stays_on lib s \<Longrightarrow> km_killed m \<Longrightarrow> stays_on lib (s\<lparr>ks_mem := m\<rparr>)"
  by (simp add: stays_on_def said_no_def)

lemma stays_on_pc: "stays_on lib s \<Longrightarrow> pc_of g s = Some pc \<Longrightarrow> call_on lib pc"
  by (auto simp: stays_on_def dest: pc_of_Some)

lemma store_read_killed: "km_killed (store_read lib raw now m) = fst (seen lib raw)"
  by (simp add: store_read_def split_beta)

lemma answer_of_on: "call_on lib (AtStore c raw) \<Longrightarrow> answer_of lib g c raw \<noteq> Says h False"
  by (cases c) auto

lemma stays_on_step: "keeps_on lib ev \<Longrightarrow> stays_on lib s \<Longrightarrow> stays_on lib (kill_step lib refresh ev s)"
proof (cases ev)
  case (AskKilled g now)
  assume ok: "stays_on lib s"
  show ?thesis
  proof (cases "killed_start refresh now (ks_mem s)")
    case (Inl b)
    then have b using ok by (auto simp: killed_start_def stays_on_def split: if_split_asm)
    then show ?thesis using ok Inl AskKilled by (simp add: stays_on_answer)
  next
    case (Inr m)
    then have "km_killed m" using ok by (auto simp: killed_start_def stays_on_def split: if_split_asm)
    then show ?thesis using ok Inr AskKilled by (simp add: stays_on_at stays_on_mem)
  qed
next
  case (AskEngage g i)
  assume ok: "stays_on lib s"
  then have "engage_row lib i (ks_row s) = (ks_row s, False)" by (simp add: stays_on_def engage_row_on)
  then show ?thesis using ok AskEngage by (simp add: stays_on_at)
next
  case (Query g ok)
  assume s: "stays_on lib s"
  show ?thesis
  proof (cases "\<exists>c. pc_of g s = Some (AtQuery c)")
    case True
    then obtain c where c: "pc_of g s = Some (AtQuery c)" by blast
    then have "call_on lib (if ok then AtStore c (select_row (ks_row s)) else AtFailed c)"
      using stays_on_pc [OF s c] s by (simp add: stays_on_def row_on_def)
    then show ?thesis using s c Query by (simp add: stays_on_at)
  qed (use s Query in \<open>auto split: option.split kill_pc.split\<close>)
next
  case (Finish g now)
  assume s: "stays_on lib s"
  show ?thesis
  proof (cases "pc_of g s")
    case (Some pc)
    note on = stays_on_pc [OF s Some]
    show ?thesis
    proof (cases pc)
      case (AtStore c raw)
      then show ?thesis using s Some on Finish answer_of_on [of lib c raw]
        by (simp add: stays_on_answer stays_on_mem store_read_killed)
    next
      case (AtFailed c)
      then show ?thesis using s Some on Finish by (cases c) (simp_all add: stays_on_answer stays_on_at stays_on_mem read_failed_def stays_on_def [of _ s])
    next
      case (AtFallback c)
      then show ?thesis using s Some on Finish by (cases c) (simp_all add: stays_on_answer stays_on_mem engage_fallback_def)
    qed (use s Some Finish in simp)
  qed (use s Finish in simp)
qed (auto simp: stays_on_def said_no_def)

interpretation switch_on: machine "keeps_on lib" "kill_step lib refresh" "stays_on lib" for lib refresh
  by unfold_locales (rule stays_on_step)

section \<open>While the row cannot be read\<close>

fun no_store :: "kill_pc \<Rightarrow> bool" where
  "no_store (AtStore _ _) = False"
| "no_store _ = True"

definition unread :: "kill_sys \<Rightarrow> bool" where
  "unread s \<longleftrightarrow> km_degraded (ks_mem s) \<and> (\<forall>(g, pc) \<in> set (ks_calls s). no_store pc) \<and> \<not> said_no s"

fun fails_to_read :: "kill_event \<Rightarrow> bool" where
  "fails_to_read (Query g ok) = (\<not> ok)"
| "fails_to_read _ = True"

lemma unread_answer: "unread s \<Longrightarrow> (\<forall>g. a \<noteq> Says g False) \<Longrightarrow> unread (answer_call h a s)"
  using answer_call_sel(4) [of h a s] unfolding unread_def said_no_def by (simp add: subset_iff) blast

lemma unread_at: "unread s \<Longrightarrow> no_store pc \<Longrightarrow> unread (at_pc h pc s)"
  using at_pc_sel(4) [of h pc s] unfolding unread_def said_no_def by (simp add: subset_iff) blast

lemma unread_upd: "unread s \<Longrightarrow> km_degraded m \<Longrightarrow> unread (s\<lparr>ks_mem := m\<rparr>)" "unread s \<Longrightarrow> unread (s\<lparr>ks_row := row\<rparr>)"
  by (simp_all add: unread_def said_no_def)

lemma unread_pc: "unread s \<Longrightarrow> pc_of g s = Some pc \<Longrightarrow> no_store pc"
  by (auto simp: unread_def dest: pc_of_Some)

lemma unread_step: "fails_to_read ev \<Longrightarrow> unread s \<Longrightarrow> unread (kill_step lib refresh ev s)"
proof (cases ev)
  case (AskKilled g now)
  assume s: "unread s"
  then have "killed_start refresh now (ks_mem s) = Inl True \<or> (\<exists>m. killed_start refresh now (ks_mem s) = Inr m \<and> km_degraded m)"
    by (auto simp: killed_start_def unread_def)
  then show ?thesis using s AskKilled by (auto simp: unread_answer unread_at unread_upd)
next
  case (Query g ok)
  assume s: "unread s" and "fails_to_read ev"
  then show ?thesis using Query by (auto simp: unread_at split: option.split kill_pc.split)
next
  case (Finish g now)
  assume s: "unread s"
  show ?thesis
  proof (cases "pc_of g s")
    case (Some pc)
    have d: "km_degraded (ks_mem s)" using s by (simp add: unread_def)
    show ?thesis
    proof (cases pc)
      case (AtStore c raw)
      then show ?thesis using unread_pc [OF s Some] by simp
    next
      case (AtFailed c)
      then show ?thesis using s Some Finish by (cases c) (simp_all add: unread_answer unread_at unread_upd read_failed_def)
    next
      case (AtFallback c)
      then show ?thesis using s Some Finish d
        by (cases c) (simp_all add: unread_answer unread_upd engage_fallback_def clear_fallback_def)
    qed (use s Some Finish in simp)
  qed (use s Finish in simp)
qed (auto simp: unread_at unread_upd split_beta)

interpretation switch_unread: machine fails_to_read "kill_step lib refresh" unread for lib refresh
  by unfold_locales (rule unread_step)

section \<open>One caller at a time\<close>

text \<open>Calls of \<open>Killed\<close> one after the other: the time, the row as it is then, and whether it can be read.\<close>

fun poll :: "kill_lib \<Rightarrow> duration \<Rightarrow> (go_time \<times> string option \<times> bool) list \<Rightarrow> kill_mem \<Rightarrow> bool list" where
  "poll lib refresh [] m = []"
| "poll lib refresh ((now, row, ok) # obs) m =
     (let (b, m') = Killed lib refresh ok now row m in b # poll lib refresh obs m')"

definition backed :: "kill_lib \<Rightarrow> (go_time \<times> string option) set \<Rightarrow> kill_mem \<Rightarrow> bool" where
  "backed lib past m \<longleftrightarrow> km_loaded m \<and>
     (\<not> km_killed m \<and> \<not> km_degraded m \<longrightarrow> (\<exists>row. (km_checked m, row) \<in> past \<and> \<not> row_on lib row))"

lemma Killed_backed:
  assumes "backed lib past m" "Killed lib refresh ok now row m = (b, m')" "0 < refresh"
  shows "backed lib (insert (now, row) past) m'"
    "\<not> b \<Longrightarrow> \<exists>t r. (t, r) \<in> insert (now, row) past \<and> \<not> row_on lib r \<and> now - t < refresh"
proof -
  show "backed lib (insert (now, row) past) m'"
    using assms by (auto simp: Killed_def killed_start_def read_def read_failed_def store_read_def backed_def row_on_def split_beta
        split: if_split_asm)
  show "\<exists>t r. (t, r) \<in> insert (now, row) past \<and> \<not> row_on lib r \<and> now - t < refresh" if "\<not> b"
  proof (cases "killed_start refresh now m")
    case (Inl c)
    then have "\<not> km_killed m \<and> \<not> km_degraded m \<and> now - km_checked m < refresh"
      using assms(2) that by (auto simp: Killed_def killed_start_def split: if_split_asm)
    then show ?thesis using assms(1) by (auto simp: backed_def)
  next
    case (Inr c)
    then have "\<not> row_on lib row" using assms(2) that
      by (auto simp: Killed_def read_def row_on_def split_beta split: if_split_asm)
    then show ?thesis using assms(3) by (intro exI [of _ now] exI [of _ row]) simp
  qed
qed

lemma poll_length: "length (poll lib refresh obs m) = length obs"
  by (induction obs arbitrary: m) (auto simp: split_beta)

lemma poll_backed:
  assumes "backed lib past m" "k < length obs" "\<not> poll lib refresh obs m ! k" "0 < refresh"
  shows "\<exists>t r. (t, r) \<in> past \<union> (\<lambda>(t, r, ok). (t, r)) ` set (take (Suc k) obs) \<and> \<not> row_on lib r \<and> fst (obs ! k) - t < refresh"
  using assms
proof (induction obs arbitrary: past m k)
  case (Cons ob obs)
  obtain now row ok where ob: "ob = (now, row, ok)" by (cases ob)
  obtain b m' where k: "Killed lib refresh ok now row m = (b, m')" by fastforce
  note step = Killed_backed [OF Cons.prems(1) k Cons.prems(4)]
  show ?case
  proof (cases k)
    case 0
    then have "\<not> b" using Cons.prems(3) by (simp add: ob k)
    then show ?thesis using step(2) 0 ob by auto
  next
    case (Suc j)
    have "\<not> poll lib refresh obs m' ! j" "j < length obs" using Cons.prems(2,3) by (simp_all add: ob k Suc)
    from Cons.IH [OF step(1) this(2,1) Cons.prems(4)] show ?thesis using Suc ob by auto
  qed
qed simp

section \<open>What the switch promises\<close>


text \<open>The switch fails closed: from a failed read on, while no query succeeds, every answer is yes, also after the
  switch was cleared.\<close>

theorem unreadable_switch_is_engaged:
  assumes "km_degraded (ks_mem s)" "ks_calls s = []" "ks_said s = []" "\<forall>ev \<in> set evs. fails_to_read ev"
  shows "Says g False \<notin> set (ks_said (fold (kill_step lib refresh) evs s))"
proof -
  have "list_all fails_to_read evs" using assms(4) by (simp add: list_all_iff)
  moreover have "unread s" using assms(1-3) by (simp add: unread_def said_no_def)
  ultimately have "unread (fold (kill_step lib refresh) evs s)" by (rule switch_unread.run_keeps)
  then show ?thesis by (simp add: unread_def said_no_def)
qed

text \<open>When calls do not overlap an answer is never older than the refresh interval: a no at some time rests on a read
  less than the interval before, in which the switch was off.\<close>

theorem answers_are_fresh:
  assumes "NewState lib True t0 r0 = Some m" "k < length obs" "\<not> poll lib refresh obs m ! k" "0 < refresh"
  shows "\<exists>t row. (t, row) \<in> set ((t0, r0) # map (\<lambda>(t, row, ok). (t, row)) (take (Suc k) obs)) \<and>
    \<not> fst (seen lib (select_row row)) \<and> fst (obs ! k) - t < refresh"
proof -
  have "backed lib {(t0, r0)} m"
    using assms(1) by (auto simp: NewState_def read_def store_read_def backed_def row_on_def split_beta)
  from poll_backed [OF this assms(2-4)] show ?thesis by (auto simp: row_on_def)
qed

section \<open>Calls that get in each other's way\<close>

definition demo_kill_lib :: kill_lib where
  "demo_kill_lib = \<lparr>kl_decode = (\<lambda>raw. Some \<lparr>ki_at = 0, ki_by = raw, ki_reason = []\<rparr>), kl_encode = (\<lambda>i. ''{}'')\<rparr>"

definition demo_kill :: "go_time \<Rightarrow> kill_sys" where
  "demo_kill checked = \<lparr>ks_row = Some null_json,
     ks_mem = \<lparr>km_killed = False, km_info = None, km_checked = checked, km_loaded = True, km_degraded = False\<rparr>, ks_calls = [], ks_said = []\<rparr>"

definition demo_info :: kill_info where
  "demo_info = \<lparr>ki_at = 0, ki_by = ''owner'', ki_reason = ''/stop''\<rparr>"

text \<open>A read that began before the switch was engaged and ends after it overwrites what \<open>Engage\<close> stored: goroutine 1 reads
  the row, goroutine 2 engages and is answered, goroutine 1 stores what it read; then goroutine 3, a second
  later, is told that the switch is off.\<close>

theorem stale_read_undoes_engage:
  "ks_said (fold (kill_step demo_kill_lib DefaultRefresh)
      [AskKilled 1 (10 * second), Query 1 True, AskEngage 2 demo_info, Query 2 True, Finish 2 (11 * second),
       Finish 1 (12 * second), AskKilled 3 (13 * second)] (demo_kill 0)) = [Did 2 True, Says 1 False, Says 3 False]"
  by code_simp

text \<open>Whoever asks while another refreshes is answered from memory, of whatever age it is: here the row was engaged
  elsewhere an hour ago, and the answer is no.\<close>

theorem concurrent_caller_is_told_the_past:
  "ks_said (fold (kill_step demo_kill_lib DefaultRefresh)
      [Elsewhere (Some ''{}''), AskKilled 1 hour, AskKilled 2 (hour + 1)] (demo_kill 0)) = [Says 2 False]"
  by code_simp


theorem unreadable_switch_is_engaged_witness:
  "Says 1 False \<notin> set (ks_said (fold (kill_step demo_kill_lib DefaultRefresh) [AskClear 2, Query 2 False, Finish 2 1, AskKilled 1 2]
     (demo_kill 0\<lparr>ks_mem := (ks_mem (demo_kill 0))\<lparr>km_degraded := True\<rparr>\<rparr>)))"
  by (rule unreadable_switch_is_engaged) (simp_all add: demo_kill_def)

theorem answers_are_fresh_witness:
  "\<exists>t row. (t, row) \<in> set ((0, Some null_json) # map (\<lambda>(t, row, ok). (t, row)) (take 1 [(second, Some ''{}'', True)])) \<and>
    \<not> fst (seen demo_kill_lib (select_row row)) \<and> second - t < DefaultRefresh"
proof -
  let ?m = "\<lparr>km_killed = False, km_info = None, km_checked = 0, km_loaded = True, km_degraded = False\<rparr>"
  have new: "NewState demo_kill_lib True 0 (Some null_json) = Some ?m" by code_simp
  have no: "\<not> poll demo_kill_lib DefaultRefresh [(second, Some ''{}'', True)] ?m ! 0" by code_simp
  have pos: "0 < DefaultRefresh" by code_simp
  from answers_are_fresh [OF new _ no pos] show ?thesis by simp
qed

end
