(* ===== verification/SenderLimit.thy ===== *)
theory SenderLimit
  imports GoBase Windows "HOL-Library.AList"
begin

text \<open>
  The limiters of the control path (\<open>pkg/control/limiter.go\<close>): at most \<open>max\<close> actions of a sender within a window, and
  one line of the security log per sender and interval. The maps are association lists; a map that has grown past
  \<open>maxTracked\<close> senders forgets the idle ones, in whatever order.
\<close>

definition DefaultRateLimit :: int where "DefaultRateLimit = 10"
definition DefaultRateWindow :: duration where "DefaultRateWindow = minute"
definition maxTracked :: nat where "maxTracked = 4096"

type_synonym hits = "(string \<times> go_time list) list"

definition hits_of :: "hits \<Rightarrow> string \<Rightarrow> go_time list" where
  "hits_of h key = (case map_of h key of None \<Rightarrow> [] | Some ts \<Rightarrow> ts)"

definition forget_idle :: "go_time \<Rightarrow> hits \<Rightarrow> hits" where
  "forget_idle cutoff h = filter (\<lambda>(k, ts). ts \<noteq> [] \<and> last ts > cutoff) h"

text \<open>An action of \<open>key\<close> at \<open>now\<close>: recorded when it is allowed, forgotten when not.\<close>

definition allow :: "int \<Rightarrow> duration \<Rightarrow> string \<Rightarrow> go_time \<Rightarrow> hits \<Rightarrow> bool \<times> hits" where
  "allow mx window key now h =
     (let cutoff = now - window; kept = filter (\<lambda>t. t > cutoff) (hits_of h key)
      in if int (length kept) \<ge> mx then (False, AList.update key kept h)
         else let h = AList.update key (kept @ [now]) h
              in (True, if length h > maxTracked then forget_idle cutoff h else h))"

definition once_ok :: "duration \<Rightarrow> string \<Rightarrow> go_time \<Rightarrow> (string \<times> go_time) list \<Rightarrow> bool \<times> (string \<times> go_time) list" where
  "once_ok interval key now seen =
     (if (case map_of seen key of None \<Rightarrow> False | Some t \<Rightarrow> now - t < interval) then (False, seen)
      else let seen = AList.update key now seen
           in (True, if length seen > maxTracked then filter (\<lambda>(k, t). now - t < interval) seen else seen))"

section \<open>One sender\<close>

text \<open>What the limiter keeps of a sender is what the window of its admitted actions keeps.\<close>

definition keep_since :: "duration \<Rightarrow> int \<Rightarrow> int list \<Rightarrow> int list" where
  "keep_since window now ts = filter (\<lambda>t. t > now - window) ts"

interpretation sender: sliding_window "\<lambda>t. t" "\<lambda>now t. t > now - window" "keep_since window" "\<lambda>t ts. ts @ [t]" limit
  for window limit
  by unfold_locales (simp_all add: keep_since_def)

lemma hits_of_update: "hits_of (AList.update key ts h) k = (if k = key then ts else hits_of h k)"
  by (simp add: hits_of_def update_conv)

lemma allow_ans: "fst (allow mx window key now h) \<longleftrightarrow> int (length (keep_since window now (hits_of h key))) < mx"
  by (auto simp: allow_def Let_def keep_since_def)

lemma map_of_filter_eq:
  "distinct (map fst h) \<Longrightarrow> map_of (filter (\<lambda>(k, v). P v) h) k = (case map_of h k of None \<Rightarrow> None | Some v \<Rightarrow> if P v then Some v else None)"
  by (induction h) (auto simp: map_of_eq_None_iff image_iff split: option.split)

lemma forget_keeps:
  assumes "distinct (map fst h)" "sender.agrees window limit now (hits_of h key, log)"
  shows "sender.agrees window limit now (hits_of (forget_idle (now - window) h) key, log)"
proof (cases "map_of h key")
  case None
  then show ?thesis using assms map_of_filter_eq [OF assms(1), of "\<lambda>ts. ts \<noteq> [] \<and> last ts > now - window" key]
    by (simp add: hits_of_def forget_idle_def)
next
  case (Some ts)
  note m = map_of_filter_eq [OF assms(1), of "\<lambda>ts. ts \<noteq> [] \<and> last ts > now - window" key]
  show ?thesis
  proof (cases "ts \<noteq> [] \<and> last ts > now - window")
    case True
    then show ?thesis using assms Some m by (simp add: hits_of_def forget_idle_def)
  next
    case False
    have sorted: "sorted ts" using assms(2) Some by (simp add: sender.agrees_def hits_of_def)
    have "x \<le> now - window" if "x \<in> set ts" for x
    proof -
      have "x \<le> last ts" using sorted that by (cases ts rule: rev_cases) (auto simp: sorted_append)
      then show ?thesis using False that by (cases "ts = []") auto
    qed
    then have none: "filter (\<lambda>t. t > now - window) ts = []" by (auto simp: filter_empty_conv not_less)
    have "hits_of (forget_idle (now - window) h) key = []" using False Some m by (simp add: hits_of_def forget_idle_def)
    then show ?thesis using assms(2) Some none by (simp add: sender.agrees_def hits_of_def)
  qed
qed

section \<open>All senders\<close>

text \<open>A run of actions, with what was admitted of each sender as a ghost.\<close>

fun actions :: "int \<Rightarrow> duration \<Rightarrow> (string \<times> go_time) list \<Rightarrow> hits \<Rightarrow> bool list" where
  "actions mx window [] h = []"
| "actions mx window ((key, now) # reqs) h = (case allow mx window key now h of (b, h') \<Rightarrow> b # actions mx window reqs h')"

definition admitted_of :: "string \<Rightarrow> (string \<times> go_time) list \<Rightarrow> bool list \<Rightarrow> go_time list" where
  "admitted_of key reqs bs = map (\<lambda>((k, t), b). t) (filter (\<lambda>((k, t), b). k = key \<and> b) (zip reqs bs))"

definition limits_ok :: "int \<Rightarrow> duration \<Rightarrow> go_time \<Rightarrow> (string \<Rightarrow> go_time list) \<Rightarrow> hits \<Rightarrow> bool" where
  "limits_ok mx window now log h \<longleftrightarrow> distinct (map fst h) \<and> (\<forall>key. sender.agrees window (nat mx) now (hits_of h key, log key))"

lemma allow_limits:
  assumes "limits_ok mx window t log h" "t \<le> now" "allow mx window key now h = (b, h')"
  shows "limits_ok mx window now (if b then log(key := log key @ [now]) else log) h'"
proof -
  define log' where "log' = (if b then log(key := log key @ [now]) else log)"
  define es where "es = keep_since window now (hits_of h key)"
  define h1 where "h1 = AList.update key (if b then es @ [now] else es) h"
  have b: "b \<longleftrightarrow> int (length es) < mx" using allow_ans [of mx window key now h] assms(3) by (simp add: es_def)
  have h': "h' = (if b \<and> length h1 > maxTracked then forget_idle (now - window) h1 else h1)"
    using assms(3) b unfolding h1_def by (auto simp: allow_def Let_def es_def keep_since_def split: if_split_asm)
  have dist: "distinct (map fst h1)" using assms(1) by (simp add: h1_def limits_ok_def distinct_update)
  have "sender.agrees window (nat mx) now (hits_of h1 k, log' k)" for k
  proof (cases "k = key")
    case True
    have "sender.agrees window (nat mx) now
        (admit_one (\<lambda>t. t) (keep_since window) (\<lambda>t ts. ts @ [t]) (nat mx) now (hits_of h key, log key))"
      by (rule sender.agrees_admit_one [where t = t]) (use assms(1,2) in \<open>auto simp: limits_ok_def\<close>)
    then show ?thesis using True b by (auto simp: h1_def hits_of_update log'_def es_def Let_def split: if_split_asm)
  next
    case False
    then show ?thesis using assms(1,2) sender.agrees_later [of window "nat mx" t "(hits_of h k, log k)" now]
      by (auto simp: h1_def hits_of_update log'_def limits_ok_def)
  qed
  then have "limits_ok mx window now log' h'"
    using forget_keeps [OF dist] dist unfolding limits_ok_def h' by (auto simp: forget_idle_def distinct_map_filter)
  then show ?thesis by (simp add: log'_def)
qed

lemma actions_length: "length (actions mx window reqs h) = length reqs"
  by (induction reqs arbitrary: h) (auto split: prod.split)

lemma admitted_Cons: "admitted_of key ((k, t) # reqs) (b # bs) = (if k = key \<and> b then t # admitted_of key reqs bs else admitted_of key reqs bs)"
  by (simp add: admitted_of_def)

lemma actions_limits:
  assumes "limits_ok mx window t log h" "sorted (map snd reqs)" "\<forall>r \<in> set reqs. t \<le> snd r"
  shows "\<exists>h'. limits_ok mx window (if reqs = [] then t else snd (last reqs))
    (\<lambda>key. log key @ admitted_of key reqs (actions mx window reqs h)) h'"
  using assms
proof (induction reqs arbitrary: t log h)
  case Nil
  then show ?case by (auto simp: admitted_of_def)
next
  case (Cons r reqs)
  obtain key now where r: "r = (key, now)" by fastforce
  obtain b h1 where al: "allow mx window key now h = (b, h1)" by fastforce
  have t: "t \<le> now" using Cons.prems(3) r by simp
  let ?log = "if b then log(key := log key @ [now]) else log"
  have "limits_ok mx window now ?log h1" by (rule allow_limits [OF Cons.prems(1) t al])
  from Cons.IH [OF this] obtain h' where
    "limits_ok mx window (if reqs = [] then now else snd (last reqs)) (\<lambda>k. ?log k @ admitted_of k reqs (actions mx window reqs h1)) h'"
    using Cons.prems(2) r by auto
  moreover have "(\<lambda>k. ?log k @ admitted_of k reqs (actions mx window reqs h1)) = (\<lambda>k. log k @ admitted_of k (r # reqs) (actions mx window (r # reqs) h))"
    by (auto simp: r al admitted_Cons fun_eq_iff)
  ultimately show ?case using r by auto
qed

lemma limits_empty: "limits_ok mx window t (\<lambda>_. []) []"
  by (simp add: limits_ok_def hits_of_def sender.agrees_empty)

text \<open>In any run of control actions, of however many senders, no sender has more than the limit admitted within the
  window that ends at the last of them, also when idle senders are forgotten.\<close>

theorem control_actions_bounded:
  assumes "sorted (map snd reqs)" "reqs \<noteq> []" "snd (last reqs) \<le> now"
  shows "length (filter (\<lambda>t. t > now - window) (admitted_of key reqs (actions mx window reqs []))) \<le> nat mx"
proof -
  have "\<forall>r \<in> set reqs. snd (hd reqs) \<le> snd r" using assms(1,2) by (cases reqs) auto
  from actions_limits [OF limits_empty assms(1) this, of mx window] obtain h' where
    ok: "limits_ok mx window (snd (last reqs)) (\<lambda>key. admitted_of key reqs (actions mx window reqs [])) h'"
    using assms(2) by auto
  have "sender.agrees window (nat mx) now (hits_of h' key, admitted_of key reqs (actions mx window reqs []))"
    by (rule sender.agrees_later [where t = "snd (last reqs)"]) (use ok assms(3) in \<open>auto simp: limits_ok_def\<close>)
  then show ?thesis by (simp add: sender.agrees_def)
qed

text \<open>A sender is refused only while the limit is used up, so waiting out the window always works.\<close>

lemma allow_refuses: "fst (allow mx window key now h) \<longleftrightarrow> int (length (filter (\<lambda>t. t > now - window) (hits_of h key))) < mx"
  using allow_ans by (simp add: keep_since_def)

theorem control_actions_bounded_witness:
  "length (filter (\<lambda>t. t > 2 * second - minute)
     (admitted_of ''telegram:7'' [(''telegram:7'', 0), (''telegram:7'', second), (''telegram:8'', second), (''telegram:7'', 2 * second)]
       (actions 2 minute [(''telegram:7'', 0), (''telegram:7'', second), (''telegram:8'', second), (''telegram:7'', 2 * second)] []))) \<le> 2"
proof -
  have "sorted (map snd [(''telegram:7'', 0), (''telegram:7'', second), (''telegram:8'', second), (''telegram:7'', 2 * second)])"
    by simp
  from control_actions_bounded [OF this, of "2 * second" minute "''telegram:7''" 2] show ?thesis by simp
qed

end
