(* ===== verification/ControlInput.thy ===== *)
theory ControlInput
  imports "HOL-Library.Code_Target_Nat" Utf8 Identity Approval
begin

text \<open>
  What counts as a control command (\<open>pkg/control/parse.go\<close>) and who its sender is (\<open>standing\<close>, \<open>isWebOwner\<close> of
  \<open>dispatcher.go\<close>, \<open>IsGroupChat\<close> of \<open>whoami\<close>). \<open>strings.ToLower\<close> is used on text that is then compared with
  words in ASCII or Thai: \<open>lower_rune\<close> maps every rune whose lower case is an ASCII letter (there are two outside
  ASCII, U+0130 and U+212A) and leaves the others, whose lower case is neither ASCII nor Thai.
\<close>

section \<open>Inputs and commands\<close>

record callback =
  cb_action :: string
  cb_payload :: string

record ctl_input =
  in_channel :: string
  in_chat :: string
  in_message :: string
  in_sender :: string
  in_canonical :: string
  in_web_auth :: bool
  in_peer :: string
  in_text :: string
  in_reply_to :: string
  in_forwarded :: bool
  in_callback :: "callback option"

datatype cmd_name = CmdApprove | CmdReject | CmdYes | CmdSnooze | CmdMute | CmdUnmute | CmdUseful | CmdNotUseful
  | CmdWhoami | CmdStop | CmdResume

fun cmd_text :: "cmd_name \<Rightarrow> string" where
  "cmd_text CmdApprove = ''approve''"
| "cmd_text CmdReject = ''reject''"
| "cmd_text CmdYes = ''yes''"
| "cmd_text CmdSnooze = ''snooze''"
| "cmd_text CmdMute = ''mute''"
| "cmd_text CmdUnmute = ''unmute''"
| "cmd_text CmdUseful = ''useful''"
| "cmd_text CmdNotUseful = ''notuseful''"
| "cmd_text CmdWhoami = ''whoami''"
| "cmd_text CmdStop = ''stop''"
| "cmd_text CmdResume = ''resume''"

record command =
  cm_name :: cmd_name
  cm_args :: "string list"
  cm_nonce :: string
  cm_callback :: bool

definition maxCommandBytes :: nat where "maxCommandBytes = 256"

section \<open>Text\<close>

definition lower_rune :: "nat \<Rightarrow> nat" where
  "lower_rune r = (if 65 \<le> r \<and> r \<le> 90 then r + 32 else if r = 0x212A then 0x6B else if r = 0x130 then 0x69 else r)"

definition lower_text :: "string \<Rightarrow> string" where
  "lower_text s = encode (map lower_rune (runes s))"

text \<open>\<open>strings.Fields\<close>: the byte strings between white space.\<close>

fun fields_of :: "nat list \<Rightarrow> (nat \<times> nat list) list \<Rightarrow> nat list list" where
  "fields_of acc [] = (if acc = [] then [] else [acc])"
| "fields_of acc ((r, bs) # cs) =
     (if IsSpace r then (if acc = [] then fields_of [] cs else acc # fields_of [] cs) else fields_of (acc @ bs) cs)"

definition Fields :: "string \<Rightarrow> string list" where
  "Fields s = map string_of (fields_of [] (chunks (bytes_of s)))"

definition yesWords :: "string list" where
  "yesWords = [''approve'', ''yes'', ''ok'', encode [0xE2D, 0xE19, 0xE38, 0xE21, 0xE31, 0xE15, 0xE34], encode [0xE15, 0xE01, 0xE25, 0xE07]]"

definition isYes :: "string \<Rightarrow> bool" where
  "isYes text \<longleftrightarrow> length text \<le> 32 \<and> lower_text text \<in> set yesWords"

section \<open>Recognising a command\<close>

definition typed :: "cmd_name \<Rightarrow> string list \<Rightarrow> command" where
  "typed name args = \<lparr>cm_name = name, cm_args = args, cm_nonce = [], cm_callback = False\<rparr>"

definition pressed :: "cmd_name \<Rightarrow> string list \<Rightarrow> string \<Rightarrow> command" where
  "pressed name args nonce = \<lparr>cm_name = name, cm_args = args, cm_nonce = nonce, cm_callback = True\<rparr>"

definition decision_callback :: "cmd_name \<Rightarrow> string \<Rightarrow> command option" where
  "decision_callback name payload =
     (case ParseButtonPayload payload of None \<Rightarrow> None | Some (code, nonce) \<Rightarrow> Some (pressed name [code] nonce))"

definition classifyCallback :: "callback \<Rightarrow> command option" where
  "classifyCallback cb =
     (if cb_action cb = ''approve'' then decision_callback CmdApprove (cb_payload cb)
      else if cb_action cb = ''reject'' then decision_callback CmdReject (cb_payload cb)
      else if cb_action cb = ''snooze_1h'' then Some (pressed CmdSnooze [''1h''] [])
      else if cb_action cb = ''snooze_4h'' then Some (pressed CmdSnooze [''4h''] [])
      else if cb_action cb = ''snooze_1d'' then Some (pressed CmdSnooze [''1d''] [])
      else if cb_action cb = ''useful'' then Some (pressed CmdUseful [] [])
      else if cb_action cb = ''not_useful'' then Some (pressed CmdNotUseful [] [])
      else if cb_action cb = ''mute'' then Some (pressed CmdMute [] [])
      else None)"

text \<open>The names a text may begin with; \<open>yes\<close> is not one of them.\<close>

definition text_commands :: "cmd_name list" where
  "text_commands = [CmdReject, CmdSnooze, CmdMute, CmdUnmute, CmdUseful, CmdNotUseful, CmdWhoami, CmdStop, CmdResume]"

definition classify_fields :: "string list \<Rightarrow> command option" where
  "classify_fields fs =
     (let name = takeWhile (\<lambda>c. c \<noteq> CHR ''@'') (lower_text (tl (hd fs))); args = tl fs
      in if name = cmd_text CmdApprove
         then (if args = [] \<or> \<not> ValidCode (NormalizeCode (hd args)) then None else Some (typed CmdApprove args))
         else map_option (\<lambda>n. typed n args) (List.find (\<lambda>n. cmd_text n = name) text_commands))"

definition classify :: "ctl_input \<Rightarrow> command option" where
  "classify i =
     (case in_callback i of
        Some cb \<Rightarrow> classifyCallback cb
      | None \<Rightarrow>
          if in_forwarded i then None
          else let text = trim_bytes (in_text i) in
            if text = [] \<or> length text > maxCommandBytes then None
            else if hd text \<noteq> CHR ''/'' then (if in_reply_to i \<noteq> [] \<and> isYes text then Some (typed CmdYes []) else None)
            else if \<exists>c \<in> set text. c \<in> {CHR 0x0D, CHR 0x0A} then None
            else classify_fields (Fields text))"

section \<open>Who the sender is\<close>

datatype sender_standing = StandNoOwner | StandOther | StandElsewhere | StandOwner

definition IsGroupChat :: "string \<Rightarrow> string \<Rightarrow> string \<Rightarrow> bool" where
  "IsGroupChat channel chat peer \<longleftrightarrow>
     peer \<in> {''group'', ''channel''} \<or>
     (equal_fold channel ''telegram'' \<and>
      (case parse_int64 (takeWhile (\<lambda>c. c \<noteq> CHR ''/'') chat) of None \<Rightarrow> False | Some n \<Rightarrow> n < 0))"

definition canonicalSender :: "ctl_input \<Rightarrow> string" where
  "canonicalSender i = CanonicalSender (if in_sender i = [] then in_canonical i else in_sender i) (in_channel i)"

definition isWebOwner :: "owner_env \<Rightarrow> ctl_input \<Rightarrow> bool" where
  "isWebOwner c i \<longleftrightarrow> \<not> IsGroupChat (in_channel i) (in_chat i) (in_peer i) \<and> IsWebOwnerTurn c (in_channel i) (in_web_auth i)"

definition standing :: "owner_env \<Rightarrow> ctl_input \<Rightarrow> sender_standing" where
  "standing c i =
     (case OwnerRoute (oe_owner c) of
        None \<Rightarrow> StandNoOwner
      | Some route \<Rightarrow>
          if \<not> SameSender (canonicalSender i) (rt_sender_id route)
          then (if isWebOwner c i then StandOwner else StandOther)
          else if IsGroupChat (in_channel i) (in_chat i) (in_peer i) \<or>
            \<not> equal_fold (in_channel i) (rt_channel route) \<or> trim_space (in_chat i) \<noteq> rt_chat_id route then StandElsewhere
          else StandOwner)"

section \<open>Fields\<close>

lemma concat_chunks: "concat (map snd (chunks bs)) = bs"
proof (induction "length bs" arbitrary: bs rule: less_induct)
  case less
  show ?case
  proof (cases "bs = []")
    case False
    obtain r w ok where n: "next_rune bs = (r, w, ok)" by (cases "next_rune bs")
    with next_rune_width [of bs] False have "length (drop w bs) < length bs" by simp
    from less [OF this] show ?thesis using n False by (subst chunks.simps) simp
  qed (simp add: chunks.simps)
qed

lemma chunks_ne: "(r, b) \<in> set (chunks bs) \<Longrightarrow> b \<noteq> []"
proof (induction "length bs" arbitrary: bs rule: less_induct)
  case less
  show ?case
  proof (cases "bs = []")
    case True
    then show ?thesis using less(2) by (simp add: chunks.simps)
  next
    case False
    obtain q w ok where n: "next_rune bs = (q, w, ok)" by (cases "next_rune bs")
    have w: "1 \<le> w" using next_rune_width [of bs] n by simp
    then have "length (drop w bs) < length bs" using False by simp
    moreover have "(r, b) = (q, take w bs) \<or> (r, b) \<in> set (chunks (drop w bs))"
      using less(2) n False by (subst (asm) chunks.simps) simp
    ultimately show ?thesis using less(1) [of "drop w bs"] w False by auto
  qed
qed

lemma chunks_ascii: "\<forall>b \<in> set bs. b < 128 \<Longrightarrow> chunks bs = map (\<lambda>b. (b, [b])) bs"
proof (induction bs)
  case (Cons b bs)
  then have "next_rune (b # bs) = (b, 1, True)" by (simp add: next_rune_def)
  then show ?case using Cons by (subst chunks.simps) simp
qed (simp add: chunks.simps)

lemma fields_ne: "\<forall>(r, b) \<in> set cs. b \<noteq> [] \<Longrightarrow> [] \<notin> set (fields_of acc cs)"
  by (induction acc cs rule: fields_of.induct) auto

lemma fields_length: "sum_list (map length (fields_of acc cs)) \<le> length acc + sum_list (map (length \<circ> snd) cs)"
  by (induction acc cs rule: fields_of.induct) auto

lemma fields_words: "fields_of acc (map (\<lambda>b. (b, [b])) bs) = words acc bs"
  by (induction bs arbitrary: acc) auto

lemma Fields_ne: "[] \<notin> set (Fields s)"
proof -
  have "\<forall>(r, b) \<in> set (chunks (bytes_of s)). b \<noteq> []" using chunks_ne by blast
  from fields_ne [OF this, of "[]"] show ?thesis by (auto simp: Fields_def string_of_def)
qed

lemma Fields_length: "sum_list (map length (Fields s)) \<le> length s"
proof -
  have "sum_list (map (length \<circ> snd) (chunks (bytes_of s))) = length (concat (map snd (chunks (bytes_of s))))"
    by (simp add: length_concat o_def)
  also have "\<dots> = length s" by (simp add: concat_chunks bytes_of_def)
  finally show ?thesis
    using fields_length [of "[]" "chunks (bytes_of s)"] by (simp add: Fields_def string_of_def o_def)
qed

section \<open>The shape of a command\<close>

lemma ascii_chunks: "\<forall>c \<in> set s. (of_char c :: nat) < 128 \<Longrightarrow> chunks (bytes_of s) = map (\<lambda>b. (b, [b])) (bytes_of s)"
  by (rule chunks_ascii) (simp add: bytes_of_def)

lemma alphabet_upper: "\<forall>c \<in> set codeAlphabet. upper_char c = c \<and> (of_char c :: nat) < 128 \<and> \<not> IsSpace (of_char c)"
  by code_simp

lemma string_of_bytes_of [simp]: "string_of (bytes_of s) = s"
  by (simp add: string_of_def bytes_of_def o_def)

lemma trim_tight:
  assumes "\<forall>c \<in> set s. (of_char c :: nat) < 128" "s = [] \<or> \<not> IsSpace (of_char (hd s)) \<and> \<not> IsSpace (of_char (last s))"
  shows "trim_bytes s = s"
proof (cases s rule: rev_cases)
  case (snoc xs x)
  then have "s \<noteq> []" by simp
  then obtain y ys where y: "s = y # ys" using list.exhaust by blast
  have r: "dropWhile (\<lambda>(r, _). IsSpace r) (chunks (bytes_of s)) = chunks (bytes_of s)"
    using assms by (simp add: y ascii_chunks) (simp add: bytes_of_def)
  have "dropWhile (\<lambda>(r, _). IsSpace r) (rev (chunks (bytes_of s))) = rev (chunks (bytes_of s))"
    using assms snoc by (simp add: ascii_chunks) (simp add: bytes_of_def)
  then show ?thesis by (simp add: trim_bytes_def r concat_chunks)
qed (simp add: trim_bytes_def bytes_of_def string_of_def chunks.simps)

lemma code_chars: "ValidCode code \<Longrightarrow> c \<in> set code \<Longrightarrow> upper_char c = c \<and> (of_char c :: nat) < 128 \<and> \<not> IsSpace (of_char c)"
  using alphabet_upper by (auto simp: ValidCode_def)

lemma normalize_valid:
  assumes "ValidCode code"
  shows "NormalizeCode code = code"
proof -
  have "code \<noteq> []" using assms by (auto simp: ValidCode_def CodeLen_def)
  then have "trim_bytes code = code" using code_chars [OF assms] by (intro trim_tight) auto
  moreover have "map upper_char code = code" using code_chars [OF assms] by (auto intro: map_idI)
  ultimately show ?thesis by (simp add: NormalizeCode_def to_upper_def)
qed

text \<open>The shape of what a button stands for, and of what a text stands for.\<close>

definition button_shape :: "command \<Rightarrow> bool" where
  "button_shape c \<longleftrightarrow> cm_callback c \<and>
     (if cm_name c \<in> {CmdApprove, CmdReject}
      then length (cm_args c) = 1 \<and> ValidCode (hd (cm_args c)) \<and> cm_nonce c \<noteq> []
      else cm_nonce c = [] \<and>
        (cm_name c = CmdSnooze \<and> cm_args c \<in> {[''1h''], [''4h''], [''1d'']} \<or>
         cm_name c \<in> {CmdUseful, CmdNotUseful, CmdMute} \<and> cm_args c = []))"

definition text_shape :: "command \<Rightarrow> bool" where
  "text_shape c \<longleftrightarrow> \<not> cm_callback c \<and> cm_nonce c = [] \<and> [] \<notin> set (cm_args c) \<and>
     sum_list (map length (cm_args c)) < maxCommandBytes \<and>
     (cm_name c = CmdYes \<longrightarrow> cm_args c = []) \<and>
     (cm_name c = CmdApprove \<longrightarrow> cm_args c \<noteq> [] \<and> ValidCode (NormalizeCode (hd (cm_args c))))"

lemma decision_callback_shape:
  "decision_callback name payload = Some c \<Longrightarrow> name \<in> {CmdApprove, CmdReject} \<Longrightarrow> button_shape c"
  by (auto simp: decision_callback_def ParseButtonPayload_def Let_def pressed_def button_shape_def split: if_splits)

lemma fixed_shape:
  "button_shape (pressed CmdSnooze [''1h''] [])" "button_shape (pressed CmdSnooze [''4h''] [])" "button_shape (pressed CmdSnooze [''1d''] [])"
  "button_shape (pressed CmdUseful [] [])" "button_shape (pressed CmdNotUseful [] [])" "button_shape (pressed CmdMute [] [])"
  by (simp_all add: pressed_def button_shape_def)

lemma callback_shape: "classifyCallback cb = Some c \<Longrightarrow> button_shape c"
  unfolding classifyCallback_def
  by (auto simp: fixed_shape intro: decision_callback_shape split: if_split_asm)

lemma text_commands_names: "n \<in> set text_commands \<Longrightarrow> n \<noteq> CmdYes \<and> n \<noteq> CmdApprove"
  by (auto simp: text_commands_def)

lemma fields_shape:
  assumes "classify_fields (Fields tx) = Some c" "length tx \<le> maxCommandBytes" "tx \<noteq> []" "Fields tx \<noteq> []"
  shows "text_shape c" "cm_name c \<noteq> CmdYes"
proof -
  obtain f fs where f: "Fields tx = f # fs" using assms(4) by (cases "Fields tx") auto
  have "f \<noteq> []" "[] \<notin> set fs" using Fields_ne [of tx] by (auto simp: f)
  moreover from this Fields_length [of tx] assms(2) have "sum_list (map length fs) < maxCommandBytes"
    by (cases f) (simp_all add: f)
  moreover have "cm_name c \<in> set text_commands \<or> cm_name c = CmdApprove \<and> cm_args c \<noteq> [] \<and> ValidCode (NormalizeCode (hd (cm_args c)))"
    and "cm_args c = fs" "cm_nonce c = []" "\<not> cm_callback c"
    using assms(1) by (auto simp: classify_fields_def f typed_def Let_def find_Some_iff split: if_split_asm)
  ultimately show "text_shape c" "cm_name c \<noteq> CmdYes"
    using text_commands_names [of "cm_name c"] by (auto simp: text_shape_def)
qed

lemma classify_textE:
  assumes "classify i = Some c" "in_callback i = None"
  obtains (yes) "in_reply_to i \<noteq> []" "isYes (trim_bytes (in_text i))" "c = typed CmdYes []" "\<not> in_forwarded i"
  | (command) "hd (trim_bytes (in_text i)) = CHR ''/''" "classify_fields (Fields (trim_bytes (in_text i))) = Some c"
      "length (trim_bytes (in_text i)) \<le> maxCommandBytes" "trim_bytes (in_text i) \<noteq> []" "\<not> in_forwarded i"
      "CHR 0x0D \<notin> set (trim_bytes (in_text i))" "CHR 0x0A \<notin> set (trim_bytes (in_text i))"
  using assms by (auto simp: classify_def Let_def split: if_split_asm)

lemma fields_acc: "acc \<noteq> [] \<Longrightarrow> fields_of acc cs \<noteq> []"
  by (induction acc cs rule: fields_of.induct) auto

lemma Fields_slash: "hd tx = CHR ''/'' \<Longrightarrow> tx \<noteq> [] \<Longrightarrow> Fields tx \<noteq> []"
proof -
  assume "hd tx = CHR ''/''" "tx \<noteq> []"
  then obtain rest where t: "tx = CHR ''/'' # rest" by (cases tx) auto
  have "next_rune (bytes_of tx) = (47, 1, True)" by (simp add: t bytes_of_def next_rune_def)
  then have "chunks (bytes_of tx) = (47, [47]) # chunks (drop 1 (bytes_of tx))"
    by (subst chunks.simps) (simp add: t bytes_of_def)
  then show ?thesis using fields_acc [of "[47]"] by (simp add: Fields_def IsSpace_def)
qed

lemma classified_shape: "classify i = Some c \<Longrightarrow> (if in_callback i = None then text_shape c else button_shape c)"
proof (cases "in_callback i")
  case None
  assume "classify i = Some c"
  from this None show ?thesis
  proof (cases rule: classify_textE)
    case yes
    then show ?thesis using None by (simp add: text_shape_def typed_def maxCommandBytes_def)
  next
    case command
    then show ?thesis using None fields_shape(1) Fields_slash by simp
  qed
qed (simp add: classify_def callback_shape)

section \<open>What is recognised\<close>


text \<open>A text is a command only as the whole message: what is forwarded, begins with anything else than a slash, is longer
  than the bound or has a second line is none, except the word of consent in a reply.\<close>

theorem commands_are_whole_messages:
  assumes "classify i = Some c" "\<not> cm_callback c"
  shows "\<not> in_forwarded i \<and>
    (let text = trim_bytes (in_text i) in
     (cm_name c = CmdYes \<and> in_reply_to i \<noteq> [] \<and> length text \<le> 32 \<and> lower_text text \<in> set yesWords) \<or>
     (cm_name c \<noteq> CmdYes \<and> hd text = CHR ''/'' \<and> length text \<le> maxCommandBytes \<and> CHR 0x0D \<notin> set text \<and> CHR 0x0A \<notin> set text))"
proof -
  have "in_callback i = None"
    using classified_shape [OF assms(1)] assms(2) by (auto simp: button_shape_def split: if_split_asm)
  from assms(1) this show ?thesis
  proof (cases rule: classify_textE)
    case yes
    then show ?thesis by (simp add: isYes_def typed_def)
  next
    case command
    then show ?thesis using fields_shape(2) Fields_slash by simp
  qed
qed

definition demo_input_text :: "string \<Rightarrow> ctl_input" where
  "demo_input_text text = \<lparr>in_channel = ''telegram'', in_chat = ''7'', in_message = ''m1'', in_sender = ''telegram:7'', in_canonical = [],
     in_web_auth = False, in_peer = ''direct'', in_text = text, in_reply_to = [], in_forwarded = False, in_callback = None\<rparr>"


theorem commands_are_whole_messages_witness: "hd (trim_bytes '' /STOP '') = CHR ''/'' \<and> classify (demo_input_text ''please /stop'') = None"
proof -
  have c: "classify (demo_input_text '' /STOP '') = Some (typed CmdStop [])" by code_simp
  have n: "classify (demo_input_text ''please /stop'') = None" by code_simp
  from commands_are_whole_messages [OF c] n show ?thesis by (simp add: typed_def Let_def demo_input_text_def)
qed

end
