(* ===== verification/Control.thy ===== *)
theory Control
  imports ControlInput ApprovalExecute KillFlag SenderLimit
begin

text \<open>
  The control path (\<open>pkg/control/dispatcher.go\<close>, \<open>approve.go\<close>, \<open>stop.go\<close>, \<open>mute.go\<close>, \<open>feedback.go\<close>, \<open>web_decision.go\<close>):
  an input is recognised, limited, checked against the owner, and handled. A decision runs the approval service's
  own \<open>Decide\<close> on its tables, \<open>/stop\<close> and \<open>/resume\<close> the kill flag's \<open>Engage\<close> and \<open>Clear\<close> on its row; the mutes, the
  feedback store and the whole of \<open>/stop\<close> (\<open>KillSwitch\<close>) are effects with the answers of the outside.
\<close>

section \<open>State and surroundings\<close>

datatype outcome = OutOK | OutDenied | OutNoOwner | OutWrongChat | OutOff | OutRateLimited | OutUsage | OutNotFound
  | OutRefused | OutError

datatype fb_kind = FbUseful | FbNotUseful | FbSnooze | FbMute | FbReply

record response =
  rs_intervention :: string
  rs_kind :: fb_kind
  rs_value :: string
  rs_source :: string
  rs_event :: string
  rs_at :: go_time

datatype cfx = CxStop string string | CxMute string go_time string | CxMuteExact string go_time string | CxUnmute string
  | CxRecord response | CxVerdict string bool | CxSecurity cmd_name string | CxEvent cmd_name string bool outcome bool

record ctl =
  ct_svc :: svc
  ct_row :: "string option"
  ct_mem :: kill_mem
  ct_hits :: hits
  ct_seclog :: "(string \<times> go_time) list"
  ct_fx :: "cfx list"

text \<open>Which calls of the attention outbox succeed, and the dedup keys of an intervention.\<close>

record attention =
  at_ok :: "string \<Rightarrow> bool"
  at_keys :: "string \<Rightarrow> string list option"

text \<open>
  \<open>Deps\<close> and the answers of the outside during one call: the configuration, the approval service, the kill flag
  (its codec, whether the statement and the read succeed), the whole \<open>/stop\<close> (whether its summary says engaged,
  and its text), the messages sent, the mutes, the feedback store, the clock by reading.
\<close>

record ctl_env =
  ce_owner :: owner_env
  ce_enabled :: bool
  ce_approvals :: "svc_env option"
  ce_kill :: "(kill_lib \<times> bool \<times> bool) option"
  ce_stop :: "(bool \<times> string) option"
  ce_sent :: "(string \<Rightarrow> string \<Rightarrow> unit + string option) option"
  ce_attention :: "attention option"
  ce_feedback :: bool
  ce_events :: bool
  ce_clock :: "nat \<Rightarrow> go_time"

type_synonym 'a ctl_prog = "(ctl, 'a) state"

text \<open>What a handler gives: its outcome and its reply, None for an error.\<close>

type_synonym handled = "outcome \<times> string option"

abbreviation give :: "'a \<Rightarrow> 'a ctl_prog" where "give \<equiv> State_Monad.return"

definition effect :: "cfx \<Rightarrow> unit ctl_prog" where
  "effect x = State (\<lambda>s. ((), s\<lparr>ct_fx := ct_fx s @ [x]\<rparr>))"

definition on_svc :: "(svc, 'a) state \<Rightarrow> 'a ctl_prog" where
  "on_svc m = State (\<lambda>s. let (x, v) = run_state m (ct_svc s) in (x, s\<lparr>ct_svc := v\<rparr>))"

section \<open>Replies\<close>

definition failedText :: string where "failedText = ''That command could not be handled. Try again.''"
definition rateLimitedText :: string where "rateLimitedText = ''Too many commands; wait a minute.''"
definition notAuthorizedText :: string where "notAuthorizedText = ''Not authorized.''"
definition noOwnerText :: string where
  "noOwnerText = ''No owner is configured, so this command is unavailable. Run `khunquant owner set` '' @
     ''(send /whoami here to see the IDs it needs).''"
definition wrongChatText :: string where
  "wrongChatText = ''Owner commands only work in your owner chat, the direct chat configured as proactive.owner. '' @
     ''Send /whoami there to check.''"
definition proactiveOffText :: string where
  "proactiveOffText = ''Proactive features are off, so there is nothing for this command to act on.''"
definition approvalsOffText :: string where
  "approvalsOffText = ''Order approvals are not available: proactive.approvals is off or the workflow engine is not running.''"
definition stoppedText :: string where
  "stoppedText = ''Stopped acting: approvals and automatic actions are refused until /resume. '' @ ''Monitoring and notifications stay on.''"
definition killOffText :: string where
  "killOffText = ''The kill switch is not available here (proactive features are off or the state could not be opened).''"
definition attentionOffText :: string where
  "attentionOffText = ''Attention is off, so no alert is being held back and there is nothing to mute. '' @
     ''Turn on proactive.attention to use this.''"
definition notAnAlertText :: string where
  "notAnAlertText = ''Nothing to snooze: that is not one of my alerts. Reply to the alert itself.''"

definition newline :: string where "newline = [CHR 0x0A]"

definition firstLine :: "string \<Rightarrow> nat \<Rightarrow> string" where
  "firstLine s mx =
     (let line = takeWhile (\<lambda>c. c \<noteq> CHR 0x0A) s; rs = runes line
      in encode (take mx rs))"

fun status_text :: "pstatus \<Rightarrow> string" where
  "status_text PPending = ''pending''"
| "status_text PApproved = ''approved''"
| "status_text PRejected = ''rejected''"
| "status_text PExpired = ''expired''"
| "status_text PExecuting = ''executing''"
| "status_text PExecuted = ''executed''"
| "status_text PFailed = ''failed''"
| "status_text PCancelled = ''cancelled''"

text \<open>A memory and a reflection are named by their summary only, never by their content.\<close>

definition decidedText :: "proposal_row \<Rightarrow> bool \<Rightarrow> string" where
  "decidedText p approve =
     (let summary = firstLine (p_summary p) 200; about = p_code p @ '': '' @ summary @ newline; acted = (p_status p = PExecuted)
      in if p_kind p = KindMemory then
           (if \<not> approve then ''Discarded '' @ summary @ ''. Nothing was saved to memory.''
            else if acted then ''Saved '' @ summary @ '' to memory.''
            else ''Approved '' @ summary @ ''. Saving it to memory now.'')
         else if IsReflectionKind (p_kind p) then
           (if \<not> approve then ''Discarded '' @ summary @ ''. Nothing was changed.''
            else if acted then ''Applied '' @ summary @ ''.''
            else if p_status p = PFailed then ''Approved '' @ summary @ '', but it could no longer be applied; nothing was changed.''
            else ''Approved '' @ summary @ ''. Applying it now.'')
         else if p_kind p = KindMandate then
           (if \<not> approve then ''Rejected mandate '' @ about @ ''Nothing was bought and no mandate was created.''
            else if acted then ''Approved mandate '' @ about @
              ''The mandate is active. Nothing was bought by this approval; due runs now execute inside its limits.''
            else ''Approved mandate '' @ about @ ''Creating the mandate now.'')
         else if \<not> approve then ''Rejected proposal '' @ about @ ''Nothing was placed.''
         else if acted then ''Approved proposal '' @ about @ ''It has been executed; the receipt follows.''
         else if p_status p = PFailed then ''Approved proposal '' @ about @ ''It did not go through; the message that follows says why.''
         else ''Approved proposal '' @ about @ ''Placing the order now; you will get a receipt here.'')"

section \<open>Decisions\<close>

definition decision_reply :: "string \<Rightarrow> bool \<Rightarrow> aerr + proposal_row \<Rightarrow> handled" where
  "decision_reply code approve r =
     (case r of
        Inr p \<Rightarrow> (OutOK, Some (decidedText p approve))
      | Inl ErrNotOwner \<Rightarrow> (OutDenied, Some notAuthorizedText)
      | Inl ErrKilled \<Rightarrow> (OutRefused, Some (''Refused: the kill switch is engaged (/stop), and proposal '' @ code @ '' does not only '' @
          ''reduce risk. Only an order that reduces risk can be approved now. Send /resume to allow approvals '' @
          ''again, or /reject '' @ code @ ''.''))
      | Inl aerr.ErrNotFound \<Rightarrow> (OutNotFound, Some (''No pending proposal '' @ code @ ''. It may have expired or been decided already.''))
      | Inl (ErrStatus c st) \<Rightarrow> (OutRefused, Some (''Proposal '' @ c @ '' is already '' @ status_text st @ ''.''))
      | Inl _ \<Rightarrow> (OutError, Some failedText))"

definition decideProposal :: "ctl_env \<Rightarrow> svc_env \<Rightarrow> ctl_input \<Rightarrow> string \<Rightarrow> string \<Rightarrow> bool \<Rightarrow> ((aerr + proposal_row) \<times> handled) ctl_prog" where
  "decideProposal e v i code nonce approve = do {
     r \<leftarrow> on_svc (Decide (v\<lparr>v_owner := ce_owner e\<rparr>) code nonce approve (canonicalSender i) (isWebOwner (ce_owner e) i));
     give (r, decision_reply code approve r)
   }"

definition decideCommand :: "ctl_env \<Rightarrow> ctl_input \<Rightarrow> command \<Rightarrow> bool \<Rightarrow> handled ctl_prog" where
  "decideCommand e i c approve =
     (if length (cm_args c) \<noteq> 1 \<or> \<not> ValidCode (NormalizeCode (hd (cm_args c)))
      then give (OutUsage, Some (''Usage: '' @ (if approve then ''/approve'' else ''/reject'') @ '' CODE (the 4-character code on the proposal).''))
      else case ce_approvals e of
        None \<Rightarrow> give (OutOff, Some approvalsOffText)
      | Some v \<Rightarrow> map_state snd (decideProposal e v i (NormalizeCode (hd (cm_args c))) (cm_nonce c) approve))"

section \<open>Stopping\<close>

text \<open>The kill flag's calls, as one caller's; None is an error.\<close>

definition engage_flag :: "ctl_env \<Rightarrow> kill_lib \<times> bool \<times> bool \<Rightarrow> string \<Rightarrow> string \<Rightarrow> bool option ctl_prog" where
  "engage_flag e k who reason = State (\<lambda>s.
     let (r, row, m) = Engage (fst k) (fst (snd k)) (snd (snd k)) (ce_clock e 0) who reason (ct_row s) (ct_mem s)
     in (r, s\<lparr>ct_row := row, ct_mem := m\<rparr>))"

definition clear_flag :: "ctl_env \<Rightarrow> kill_lib \<times> bool \<times> bool \<Rightarrow> bool option ctl_prog" where
  "clear_flag e k = State (\<lambda>s.
     let (r, row, m) = Clear (fst k) (fst (snd k)) (snd (snd k)) (ce_clock e 0) (ct_row s) (ct_mem s)
     in (r, s\<lparr>ct_row := row, ct_mem := m\<rparr>))"

definition cmdStop :: "ctl_env \<Rightarrow> ctl_input \<Rightarrow> handled ctl_prog" where
  "cmdStop e i =
     (let who = canonicalSender i; reason = ''/stop on '' @ in_channel i in
      case ce_stop e of
        Some (engaged, summary) \<Rightarrow> do {
          effect (CxStop who reason);
          give (if engaged then OutOK else OutError, Some summary)
        }
      | None \<Rightarrow> (case ce_kill e of
            None \<Rightarrow> give (OutOff, Some killOffText)
          | Some k \<Rightarrow> do {
              r \<leftarrow> engage_flag e k who reason;
              give (case r of None \<Rightarrow> (OutOK, None) | Some changed \<Rightarrow> (OutOK, Some (if changed then stoppedText else ''Already stopped. '' @ stoppedText)))
            }))"

definition cmdResume :: "ctl_env \<Rightarrow> handled ctl_prog" where
  "cmdResume e =
     (case ce_kill e of
        None \<Rightarrow> give (OutOff, Some killOffText)
      | Some k \<Rightarrow> do {
          r \<leftarrow> clear_flag e k;
          give (case r of None \<Rightarrow> (OutOK, None)
            | Some changed \<Rightarrow> (OutOK, Some (if changed then ''Resumed: approvals and automatic actions are allowed again.''
                else ''I was not stopped, so there is nothing to resume.'')))
        })"

section \<open>Feedback\<close>

definition standsOwner :: "ctl_env \<Rightarrow> ctl_input \<Rightarrow> bool" where
  "standsOwner e i \<longleftrightarrow> standing (ce_owner e) i = StandOwner"

definition feedbackOwner :: "ctl_env \<Rightarrow> ctl_input \<Rightarrow> bool" where
  "feedbackOwner e i \<longleftrightarrow> ce_feedback e \<and> ce_enabled e \<and> standsOwner e i"

definition feedbackSource :: "ctl_env \<Rightarrow> ctl_input \<Rightarrow> string \<Rightarrow> string" where
  "feedbackSource e i path = (if isWebOwner (ce_owner e) i then ''web'' else to_lower (trim_bytes (in_channel i))) @ '':'' @ path"

definition record_response :: "ctl_env \<Rightarrow> ctl_input \<Rightarrow> string \<Rightarrow> fb_kind \<Rightarrow> string \<Rightarrow> string \<Rightarrow> string \<Rightarrow> unit ctl_prog" where
  "record_response e i intervention kind value path event =
     (if \<not> ce_feedback e \<or> intervention = [] then give ()
      else effect (CxRecord \<lparr>rs_intervention = intervention, rs_kind = kind, rs_value = value,
        rs_source = feedbackSource e i path, rs_event = event, rs_at = ce_clock e 3\<rparr>))"

definition tapOrCommand :: "ctl_input \<Rightarrow> string \<Rightarrow> string \<times> string" where
  "tapOrCommand i detail =
     (if in_callback i \<noteq> None then (''button'', in_reply_to i @ '':'' @ detail) else (''command'', in_message i @ '':'' @ detail))"

definition interventionOf :: "ctl_env \<Rightarrow> string \<Rightarrow> string \<Rightarrow> string option" where
  "interventionOf e channel message =
     (case ce_sent e of
        None \<Rightarrow> None
      | Some look \<Rightarrow> if message = [] then None else case look channel message of Inl _ \<Rightarrow> None | Inr found \<Rightarrow> found)"

section \<open>Snoozing and muting\<close>

definition defaultSnooze :: duration where "defaultSnooze = hour"
definition muteDuration :: duration where "muteDuration = 30 * 24 * hour"

definition snoozeDurations :: "(string \<times> duration) list" where
  "snoozeDurations = [(''1h'', hour), (''4h'', 4 * hour), (''1d'', 24 * hour)]"

definition alnum :: "char \<Rightarrow> bool" where
  "alnum c \<longleftrightarrow> (let n = (of_char c :: nat) in 48 \<le> n \<and> n \<le> 57 \<or> 65 \<le> n \<and> n \<le> 90 \<or> 97 \<le> n \<and> n \<le> 122)"

text \<open>\<open>^[A-Za-z0-9][A-Za-z0-9._:/#-]{1,119}$\<close>\<close>

definition triggerRE :: "string \<Rightarrow> bool" where
  "triggerRE s \<longleftrightarrow> 2 \<le> length s \<and> length s \<le> 120 \<and> alnum (hd s) \<and> (\<forall>c \<in> set (tl s). alnum c \<or> c \<in> set ''._:/#-'')"

definition triggerArg :: "string list \<Rightarrow> string \<Rightarrow> string + string" where
  "triggerArg args verb =
     (if length args \<noteq> 1 \<or> \<not> triggerRE (hd args)
      then Inl (''Usage: '' @ verb @ '' TRIGGER (a trigger kind or id, for example price_move).'')
      else Inr (hd args))"

text \<open>The dedup keys of the alert a command replies to, or what to answer instead.\<close>

definition subjectKeys :: "ctl_env \<Rightarrow> ctl_input \<Rightarrow> (outcome \<times> string) + (attention \<times> string list \<times> string)" where
  "subjectKeys e i =
     (if in_reply_to i = [] then Inl (OutUsage, ''Reply to one of my alerts with this command.'')
      else case (ce_sent e, ce_attention e) of
        (Some look, Some att) \<Rightarrow>
          (case look (in_channel i) (in_reply_to i) of
             Inl _ \<Rightarrow> Inl (OutError, failedText)
           | Inr None \<Rightarrow> Inl (OutNotFound, notAnAlertText)
           | Inr (Some iid) \<Rightarrow>
               (case at_keys att iid of None \<Rightarrow> Inl (OutError, failedText) | Some keys \<Rightarrow> Inr (att, keys, iid)))
      | _ \<Rightarrow> Inl (OutOff, attentionOffText))"

text \<open>The keys one by one, until one fails.\<close>

fun mute_keys :: "attention \<Rightarrow> go_time \<Rightarrow> string \<Rightarrow> string list \<Rightarrow> bool ctl_prog" where
  "mute_keys att until why [] = give True"
| "mute_keys att until why (k # ks) =
     (if at_ok att k then do { effect (CxMuteExact k until why); mute_keys att until why ks } else give False)"

definition mute_alert :: "ctl_env \<Rightarrow> ctl_input \<Rightarrow> duration \<Rightarrow> string \<Rightarrow> fb_kind \<Rightarrow> string \<Rightarrow> string \<Rightarrow> string \<Rightarrow> handled ctl_prog" where
  "mute_alert e i dur why kind value detail answer =
     (case subjectKeys e i of
        Inl (o', t) \<Rightarrow> give (o', Some t)
      | Inr (att, keys, iid) \<Rightarrow>
          if keys = [] then give (OutNotFound, Some notAnAlertText)
          else do {
            ok \<leftarrow> mute_keys att (ce_clock e 2 + dur) why keys;
            if \<not> ok then give (OutOK, None)
            else do {
              record_response e i iid kind value (fst (tapOrCommand i detail)) (snd (tapOrCommand i detail));
              give (OutOK, Some answer)
            }
          })"

definition cmdSnooze :: "ctl_env \<Rightarrow> ctl_input \<Rightarrow> command \<Rightarrow> handled ctl_prog" where
  "cmdSnooze e i c =
     (let label = (case cm_args c of [] \<Rightarrow> ''1h'' | a # _ \<Rightarrow> lower_text a);
          dur = (case cm_args c of [] \<Rightarrow> Some defaultSnooze | [a] \<Rightarrow> map_of snoozeDurations label | _ \<Rightarrow> None)
      in case dur of
        None \<Rightarrow> give (OutUsage, Some ''Usage: /snooze [1h|4h|1d], as a reply to one of my alerts.'')
      | Some d \<Rightarrow> mute_alert e i d ''snoozed by the owner'' FbSnooze label label
          (''Snoozed for '' @ label @ '': I will not repeat this alert until then. (/mute TRIGGER silences a whole kind.)''))"

definition muteMessage :: "ctl_env \<Rightarrow> ctl_input \<Rightarrow> handled ctl_prog" where
  "muteMessage e i = mute_alert e i muteDuration ''muted by the owner'' FbMute ''30d'' ''mute''
     ''Muted this alert for 30 days. (/mute TRIGGER silences a whole kind.)''"

definition cmdMute :: "ctl_env \<Rightarrow> ctl_input \<Rightarrow> command \<Rightarrow> handled ctl_prog" where
  "cmdMute e i c =
     (if cm_callback c \<and> cm_args c = [] then muteMessage e i
      else case triggerArg (cm_args c) ''/mute'' of
        Inl usage \<Rightarrow> give (OutUsage, Some usage)
      | Inr trigger \<Rightarrow>
          (case ce_attention e of
             None \<Rightarrow> give (OutOff, Some attentionOffText)
           | Some att \<Rightarrow>
               if \<not> at_ok att trigger then give (OutOK, None)
               else do {
                 effect (CxMute trigger (ce_clock e 2 + muteDuration) ''muted by the owner'');
                 (if ce_feedback e
                  then (case interventionOf e (in_channel i) (in_reply_to i) of
                          None \<Rightarrow> give ()
                        | Some iid \<Rightarrow> record_response e i iid FbMute ''30d'' ''command'' (in_message i @ '':'' @ trigger))
                  else give ());
                 give (OutOK, Some (''Muted '' @ trigger @ '' for 30 days. A protective critical alert still gets through unless you '' @
                   ''muted its exact id. /unmute '' @ trigger @ '' undoes it.''))
               }))"

definition cmdUnmute :: "ctl_env \<Rightarrow> ctl_input \<Rightarrow> command \<Rightarrow> handled ctl_prog" where
  "cmdUnmute e i c =
     (case triggerArg (cm_args c) ''/unmute'' of
        Inl usage \<Rightarrow> give (OutUsage, Some usage)
      | Inr trigger \<Rightarrow>
          (case ce_attention e of
             None \<Rightarrow> give (OutOff, Some attentionOffText)
           | Some att \<Rightarrow>
               if \<not> at_ok att trigger then give (OutOK, None)
               else do {
                 effect (CxUnmute trigger);
                 give (OutOK, Some (''Unmuted '' @ trigger @ '' (if it was muted).''))
               }))"

definition cmdUseful :: "ctl_env \<Rightarrow> ctl_input \<Rightarrow> command \<Rightarrow> bool \<Rightarrow> handled ctl_prog" where
  "cmdUseful e i c useful =
     (let verdict = (if useful then ''useful'' else ''not_useful''); noted = ''Noted as '' @ (if useful then ''useful'' else ''not useful'')
      in if cm_args c \<noteq> [] then give (OutUsage, Some ''Usage: reply to one of my alerts with /useful or /notuseful.'')
      else if in_reply_to i = [] then give (OutUsage, Some ''Reply to one of my alerts with /useful or /notuseful.'')
      else case ce_sent e of
        None \<Rightarrow> give (OutOff, Some ''Alerts are not being tracked here, so there is nothing to rate.'')
      | Some look \<Rightarrow>
          (case look (in_channel i) (in_reply_to i) of
             Inl _ \<Rightarrow> give (OutOK, None)
           | Inr None \<Rightarrow> give (OutNotFound, Some ''That is not one of my alerts. Reply to the alert itself.'')
           | Inr (Some iid) \<Rightarrow>
               if ce_feedback e then do {
                 record_response e i iid (if useful then FbUseful else FbNotUseful) [] (fst (tapOrCommand i verdict)) (snd (tapOrCommand i verdict));
                 give (OutOK, Some (noted @ ''.''))
               }
               else do {
                 effect (CxVerdict iid useful);
                 give (OutOK, Some (noted @ ''. For now feedback is only written to the log; it is not stored or used yet.''))
               }))"

section \<open>Who am I\<close>

text \<open>\<open>whoami.Text\<close>: the caller's own ids, and the owner as a verdict only.\<close>

definition telegramUserID :: "string \<Rightarrow> string \<Rightarrow> string option" where
  "telegramUserID channel sender =
     (if \<not> equal_fold channel ''telegram'' then None
      else case ParseCanonicalID sender of
        None \<Rightarrow> None
      | Some (platform, i) \<Rightarrow>
          if \<not> equal_fold platform ''telegram'' then None
          else case parse_int64 i of None \<Rightarrow> None | Some n \<Rightarrow> if n \<le> 0 then None else Some i)"

definition ownerVerdict :: "owner_env \<Rightarrow> string \<Rightarrow> string \<Rightarrow> string \<Rightarrow> bool \<Rightarrow> string" where
  "ownerVerdict c channel chat sender grp =
     (case OwnerRoute (oe_owner c) of
        None \<Rightarrow> ''No owner is configured.''
      | Some route \<Rightarrow>
          if \<not> SameSender sender (rt_sender_id route) then ''You are not the configured owner.''
          else if equal_fold channel (rt_channel route) \<and> trim_space chat = rt_chat_id route
            then ''You are the configured owner (this is the owner chat).''
          else if grp then ''You are the configured owner, but this group is not the owner chat.''
          else ''You are the configured owner, but this is not the owner chat.'')"

definition whoami_text :: "owner_env \<Rightarrow> ctl_input \<Rightarrow> string" where
  "whoami_text c i =
     (let sender = canonicalSender i; grp = IsGroupChat (in_channel i) (in_chat i) (in_peer i)
      in ''channel: '' @ in_channel i @ newline @ ''chat_id: '' @ in_chat i @ newline @ ''sender_id: '' @ sender @ newline @
         (if grp then newline @ ''This is a group chat. The owner chat must be a direct chat: '' @
            ''send /whoami to me in a private message and use the IDs shown there.'' @ newline @
            (case telegramUserID (in_channel i) sender of
               None \<Rightarrow> []
             | Some uid \<Rightarrow> ''On Telegram a direct chat's chat_id is your own user id, so use chat_id '' @ uid @ '' '' @
                 ''with sender_id telegram:'' @ uid @ ''.'' @ newline)
          else []) @
         newline @ ownerVerdict c (in_channel i) (in_chat i) sender grp)"

section \<open>The dispatcher\<close>

definition emit :: "ctl_env \<Rightarrow> ctl_input \<Rightarrow> command \<Rightarrow> bool \<Rightarrow> outcome \<Rightarrow> unit ctl_prog" where
  "emit e i c isowner o' =
     (if \<not> ce_events e then give () else effect (CxEvent (cm_name c) (in_channel i) isowner o' (cm_callback c)))"

definition limiterKey :: "ctl_input \<Rightarrow> string" where
  "limiterKey i = (if canonicalSender i \<noteq> [] then canonicalSender i else to_lower (in_channel i) @ '':'' @ in_sender i)"

definition admits :: "ctl_env \<Rightarrow> string \<Rightarrow> bool ctl_prog" where
  "admits e key = State (\<lambda>s. let (b, h) = allow DefaultRateLimit DefaultRateWindow key (ce_clock e 1) (ct_hits s) in (b, s\<lparr>ct_hits := h\<rparr>))"

definition secure_log :: "ctl_env \<Rightarrow> string \<Rightarrow> bool ctl_prog" where
  "secure_log e sender = State (\<lambda>s. let (b, h) = once_ok minute sender (ce_clock e 4) (ct_seclog s) in (b, s\<lparr>ct_seclog := h\<rparr>))"

definition refuseNonOwner :: "ctl_env \<Rightarrow> ctl_input \<Rightarrow> command \<Rightarrow> (string \<times> outcome) option ctl_prog" where
  "refuseNonOwner e i c =
     (case standing (ce_owner e) i of
        StandNoOwner \<Rightarrow> give (Some (noOwnerText, OutNoOwner))
      | StandOther \<Rightarrow> do {
          ok \<leftarrow> secure_log e (canonicalSender i);
          (if ok then effect (CxSecurity (cm_name c) (in_channel i)) else give ());
          give (Some (notAuthorizedText, OutDenied))
        }
      | StandElsewhere \<Rightarrow> give (Some (wrongChatText, OutWrongChat))
      | StandOwner \<Rightarrow> give (if \<not> ce_enabled e then Some (proactiveOffText, OutOff) else None))"

fun handler :: "ctl_env \<Rightarrow> ctl_input \<Rightarrow> command \<Rightarrow> cmd_name \<Rightarrow> handled ctl_prog" where
  "handler e i c CmdApprove = decideCommand e i c True"
| "handler e i c CmdReject = decideCommand e i c False"
| "handler e i c CmdYes = decideCommand e i c True"
| "handler e i c CmdSnooze = cmdSnooze e i c"
| "handler e i c CmdMute = cmdMute e i c"
| "handler e i c CmdUnmute = cmdUnmute e i c"
| "handler e i c CmdUseful = cmdUseful e i c True"
| "handler e i c CmdNotUseful = cmdUseful e i c False"
| "handler e i c CmdWhoami = give (OutOK, Some (whoami_text (ce_owner e) i))"
| "handler e i c CmdStop = cmdStop e i"
| "handler e i c CmdResume = cmdResume e"

definition ownerOnly :: "cmd_name \<Rightarrow> bool" where
  "ownerOnly n \<longleftrightarrow> n \<noteq> CmdWhoami"

record ctl_reply =
  re_text :: string
  re_answer :: string

definition plain :: "string \<Rightarrow> ctl_reply" where
  "plain t = \<lparr>re_text = t, re_answer = []\<rparr>"

definition isOwnerSender :: "ctl_env \<Rightarrow> ctl_input \<Rightarrow> bool" where
  "isOwnerSender e i \<longleftrightarrow>
     (case OwnerRoute (oe_owner (ce_owner e)) of None \<Rightarrow> False | Some route \<Rightarrow> SameSender (canonicalSender i) (rt_sender_id route)) \<or>
     isWebOwner (ce_owner e) i"

text \<open>After the limit: the owner check, the handler, the event.\<close>

definition handle_allowed :: "ctl_env \<Rightarrow> ctl_input \<Rightarrow> command \<Rightarrow> ctl_reply ctl_prog" where
  "handle_allowed e i c = do {
     refusal \<leftarrow> (if ownerOnly (cm_name c) then refuseNonOwner e i c else give None);
     case refusal of
       Some (t, o') \<Rightarrow> do { emit e i c (isOwnerSender e i) o'; give (plain t) }
     | None \<Rightarrow> do {
         h \<leftarrow> handler e i c (cm_name c);
         let (o', t) = (case h of (o', None) \<Rightarrow> (OutError, failedText) | (o', Some t) \<Rightarrow> (o', t));
         emit e i c (isOwnerSender e i) o';
         give \<lparr>re_text = t, re_answer = if in_callback i \<noteq> None then firstLine t 120 else []\<rparr>
       }
   }"

definition handle_command :: "ctl_env \<Rightarrow> ctl_input \<Rightarrow> command \<Rightarrow> ctl_reply ctl_prog" where
  "handle_command e i c = do {
     ok \<leftarrow> (if cm_name c = CmdStop \<and> standsOwner e i then give True else admits e (limiterKey i));
     if \<not> ok then do { emit e i c (isOwnerSender e i) OutRateLimited; give (plain rateLimitedText) }
     else handle_allowed e i c
   }"

text \<open>None: the input is not a command and goes to the agent.\<close>

definition TryHandle :: "ctl_env \<Rightarrow> ctl_input \<Rightarrow> ctl_reply option ctl_prog" where
  "TryHandle e i =
     (case classify i of
        None \<Rightarrow> give None
      | Some c \<Rightarrow>
          if cm_name c \<noteq> CmdYes then map_state Some (handle_command e i c)
          else if \<not> standsOwner e i then give None
          else case ce_approvals e of
            None \<Rightarrow> give None
          | Some v \<Rightarrow> do {
              card \<leftarrow> on_svc (PendingByCard v (in_channel i) (in_chat i) (in_reply_to i));
              case card of
                Inr p \<Rightarrow> map_state Some (handle_command e i (c\<lparr>cm_args := [p_code p]\<rparr>))
              | Inl aerr.ErrNotFound \<Rightarrow> give None
              | Inl _ \<Rightarrow> do { emit e i c True OutError; give (Some (plain failedText)) }
            })"

definition Recognises :: "ctl_env \<Rightarrow> ctl_input \<Rightarrow> bool" where
  "Recognises e i = (case classify i of None \<Rightarrow> False | Some c \<Rightarrow> cm_name c = CmdYes \<longrightarrow> standsOwner e i)"

section \<open>The launcher's buttons\<close>

datatype launcher_result = LauncherDecided | LauncherNotOwner | LauncherHeld | LauncherNotFound | LauncherSettled
  | LauncherUnavailable | LauncherBadCode | LauncherFailed

definition launcherSender :: string where "launcherSender = ''pico:pico-user''"
definition launcherChat :: string where "launcherChat = ''pico:launcher''"

definition launcher_input :: ctl_input where
  "launcher_input = \<lparr>in_channel = ''pico'', in_chat = launcherChat, in_message = [], in_sender = launcherSender, in_canonical = launcherSender,
     in_web_auth = True, in_peer = ''direct'', in_text = [], in_reply_to = [], in_forwarded = False, in_callback = None\<rparr>"

definition launcher_answer :: "aerr + proposal_row \<Rightarrow> handled \<Rightarrow> launcher_result \<times> string \<times> pstatus option" where
  "launcher_answer r h =
     (let t = (case snd h of None \<Rightarrow> [] | Some t \<Rightarrow> t) in
      case r of
        Inr p \<Rightarrow> if fst h = OutOK then (LauncherDecided, t, Some (p_status p)) else (LauncherFailed, t, None)
      | Inl ErrNotOwner \<Rightarrow> (LauncherNotOwner, t, None)
      | Inl ErrKilled \<Rightarrow> (LauncherHeld, t, None)
      | Inl ErrUnavailable \<Rightarrow> (LauncherUnavailable, t, None)
      | Inl aerr.ErrNotFound \<Rightarrow> (LauncherNotFound, t, None)
      | Inl (ErrStatus c st) \<Rightarrow> (LauncherSettled, t, Some st)
      | Inl _ \<Rightarrow> (LauncherFailed, t, None))"

definition DecideFromLauncher :: "ctl_env \<Rightarrow> string \<Rightarrow> bool \<Rightarrow> (launcher_result \<times> string \<times> pstatus option) ctl_prog" where
  "DecideFromLauncher e code0 approve =
     (let code = NormalizeCode code0 in
      if \<not> ValidCode code then give (LauncherBadCode, ''That is not a proposal code.'', None)
      else case ce_approvals e of
        None \<Rightarrow> give (LauncherUnavailable, approvalsOffText, None)
      | Some v \<Rightarrow>
          if \<not> isWebOwner (ce_owner e) launcher_input then give (LauncherNotOwner, notAuthorizedText, None)
          else do {
            (r, h) \<leftarrow> decideProposal e v launcher_input code [] approve;
            give (launcher_answer r h)
          })"

section \<open>Responses that are not commands\<close>

text \<open>A reply is classified at once, and only its class is kept; a reaction counts when it is a thumb.\<close>

definition ObserveReply :: "ctl_env \<Rightarrow> (string \<Rightarrow> string) \<Rightarrow> ctl_input \<Rightarrow> unit ctl_prog" where
  "ObserveReply e class i =
     (if in_reply_to i = [] \<or> in_forwarded i \<or> in_callback i \<noteq> None \<or> \<not> feedbackOwner e i \<or> ce_sent e = None then give ()
      else case interventionOf e (in_channel i) (in_reply_to i) of
        None \<Rightarrow> give ()
      | Some iid \<Rightarrow> record_response e i iid FbReply (class (in_text i)) ''reply'' (in_message i))"

definition reactionUseful :: string where "reactionUseful = encode [0x1F44D]"
definition reactionNotUseful :: string where "reactionNotUseful = encode [0x1F44E]"

definition ObserveReaction :: "ctl_env \<Rightarrow> ctl_input \<Rightarrow> string \<Rightarrow> unit ctl_prog" where
  "ObserveReaction e i emoji =
     (let em = trim_bytes emoji in
      if em \<noteq> reactionUseful \<and> em \<noteq> reactionNotUseful \<or> \<not> feedbackOwner e i then give ()
      else case interventionOf e (in_channel i) (in_reply_to i) of
        None \<Rightarrow> give ()
      | Some iid \<Rightarrow> record_response e i iid (if em = reactionUseful then FbUseful else FbNotUseful) [] ''reaction'' (in_reply_to i @ '':'' @ em))"

end
