(* ===== verification/Effects.thy ===== *)
theory Effects
  imports GoBase "HOL-Library.State_Monad"
begin

text \<open>
  A program of the state monad whose every run stays within a relation of states: what it may do at most. The
  contract is that the relation is a preorder; then the relation passes through sequencing, results and loops.
\<close>

locale effects =
  fixes rel :: "'s \<Rightarrow> 's \<Rightarrow> bool"
  assumes refl: "rel s s" and trans: "rel s t \<Longrightarrow> rel t u \<Longrightarrow> rel s u"
begin

definition bounded_by :: "('s, 'a) state \<Rightarrow> bool" where
  "bounded_by m \<longleftrightarrow> (\<forall>s. rel s (snd (run_state m s)))"

lemma rel_return: "bounded_by (State_Monad.return x)"
  by (simp add: bounded_by_def refl)

lemma rel_bind:
  assumes "bounded_by m" "\<And>x. bounded_by (k x)"
  shows "bounded_by (m \<bind> k)"
  unfolding bounded_by_def
proof
  fix s
  obtain x t where m: "run_state m s = (x, t)" by fastforce
  then have "rel s t" using assms(1) by (metis bounded_by_def snd_conv)
  moreover have "rel t (snd (run_state (k x) t))" using assms(2) by (simp add: bounded_by_def)
  ultimately show "rel s (snd (run_state (m \<bind> k) s))" using m trans by simp
qed

lemma rel_map: "bounded_by m \<Longrightarrow> bounded_by (map_state f m)"
  unfolding bounded_by_def by (cases m) (simp add: map_prod_def split_beta)

lemma rel_State: "(\<And>s. rel s (snd (f s))) \<Longrightarrow> bounded_by (State f)"
  by (simp add: bounded_by_def)

lemma rel_run: "bounded_by m \<Longrightarrow> run_state m s = (x, t) \<Longrightarrow> rel s t"
  by (metis bounded_by_def snd_conv)

lemmas rel_rules = rel_return rel_bind rel_map

end

end
