(* ===== verification/ControlSafety.thy ===== *)
theory ControlSafety
  imports Control ApprovalSafety Effects
begin

text \<open>
  What the control path promises: who can make it do anything, that it leaves everything else alone, that every
  decision on a proposal came through it from the owner, and that the owner's \<open>/stop\<close> always gets through.
\<close>

section \<open>A refused command does nothing\<close>

fun notice :: "cfx \<Rightarrow> bool" where
  "notice (CxSecurity _ _) = True"
| "notice (CxEvent _ _ _ _ _) = True"
| "notice _ = False"

text \<open>Only the limiter, the security log and the event of the command have changed.\<close>

definition untouched :: "ctl \<Rightarrow> ctl \<Rightarrow> bool" where
  "untouched s t \<longleftrightarrow> ct_svc t = ct_svc s \<and> ct_row t = ct_row s \<and> ct_mem t = ct_mem s \<and>
     (\<exists>new. ct_fx t = ct_fx s @ new \<and> list_all notice new)"

lemma untouched_trans: "untouched s t \<Longrightarrow> untouched t u \<Longrightarrow> untouched s u"
  by (auto simp: untouched_def)

interpretation calm: effects untouched
proof
  show "untouched s s" for s by (simp add: untouched_def)
qed (rule untouched_trans)

lemma calm_effect: "notice x \<Longrightarrow> calm.bounded_by (effect x)"
  unfolding effect_def by (rule calm.rel_State) (simp add: untouched_def)

lemma calm_emit: "calm.bounded_by (emit e i c isowner o')"
  unfolding emit_def by (simp add: calm_effect calm.rel_return)

lemma calm_admits: "calm.bounded_by (admits e key)"
  unfolding admits_def by (rule calm.rel_State) (simp add: untouched_def split_beta)

lemma calm_secure: "calm.bounded_by (secure_log e sender)"
  unfolding secure_log_def by (rule calm.rel_State) (simp add: untouched_def split_beta)

lemmas calm_rules = calm.rel_rules calm_effect calm_emit calm_admits calm_secure

definition may_act :: "ctl_env \<Rightarrow> ctl_input \<Rightarrow> bool" where
  "may_act e i \<longleftrightarrow> standsOwner e i \<and> ce_enabled e"

lemma refuse_owner: "may_act e i \<Longrightarrow> refuseNonOwner e i c = give None"
  by (simp add: refuseNonOwner_def may_act_def standsOwner_def)

lemma refuse_others:
  assumes "\<not> may_act e i"
  obtains m :: "unit ctl_prog" and x where "refuseNonOwner e i c = do { m; give (Some x) }" "calm.bounded_by m"
proof (cases "standing (ce_owner e) i")
  case StandOther
  let ?m = "do { ok \<leftarrow> secure_log e (canonicalSender i);
    (if ok then effect (CxSecurity (cm_name c) (in_channel i)) else give ()) }"
  have "calm.bounded_by ?m" by (auto intro!: calm_rules)
  then show ?thesis using that [of ?m "(notAuthorizedText, OutDenied)"] StandOther by (simp add: refuseNonOwner_def)
next
  case StandNoOwner
  then show ?thesis using that [of "give ()" "(noOwnerText, OutNoOwner)"] by (simp add: refuseNonOwner_def calm.rel_return)
next
  case StandElsewhere
  then show ?thesis using that [of "give ()" "(wrongChatText, OutWrongChat)"] by (simp add: refuseNonOwner_def calm.rel_return)
next
  case StandOwner
  then show ?thesis using that [of "give ()" "(proactiveOffText, OutOff)"] assms
    by (simp add: refuseNonOwner_def calm.rel_return may_act_def standsOwner_def)
qed

lemma refused_calm:
  assumes "\<not> may_act e i"
  shows "calm.bounded_by (handle_allowed e i c)"
proof (cases "ownerOnly (cm_name c)")
  case True
  obtain m :: "unit ctl_prog" and x where r: "refuseNonOwner e i c = do { m; give (Some x) }" "calm.bounded_by m"
    using refuse_others [OF assms] .
  have "handle_allowed e i c = do { m; emit e i c (isOwnerSender e i) (snd x); give (plain (fst x)) }"
    using True by (simp add: handle_allowed_def r(1) split_beta)
  then show ?thesis using r(2) by (auto intro!: calm_rules)
next
  case False
  then have "cm_name c = CmdWhoami" by (simp add: ownerOnly_def)
  then show ?thesis by (auto simp: handle_allowed_def ownerOnly_def intro!: calm_rules)
qed

lemma refused_command_calm: "\<not> may_act e i \<Longrightarrow> calm.bounded_by (handle_command e i c)"
  unfolding handle_command_def by (auto intro!: calm_rules refused_calm)

section \<open>The tables of the approval service\<close>

text \<open>The service moved only in ways its other callers may make as well, given who has decided.\<close>

definition svc_moves :: "(string \<Rightarrow> bool) \<Rightarrow> ctl \<Rightarrow> ctl \<Rightarrow> bool" where
  "svc_moves auth s t \<longleftrightarrow> reach auth (ct_svc s) (ct_svc t)"

interpretation moves: effects "svc_moves auth" for auth
  by unfold_locales (auto simp: svc_moves_def intro: reach_refl reach_trans)

named_theorems moving \<open>programs that move the service only in its own steps\<close>

lemmas moves_basic [moving] = moves.rel_rules

lemma moves_effect [moving]: "moves.bounded_by auth (effect x)"
  unfolding effect_def by (rule moves.rel_State) (simp add: svc_moves_def reach_refl)

lemma moves_svc: "guar auth m \<Longrightarrow> moves.bounded_by auth (on_svc m)"
  unfolding on_svc_def by (rule moves.rel_State) (simp add: svc_moves_def state_io_rel_def split_beta)

lemma moves_state [moving]: "moves.bounded_by auth (admits e key)" "moves.bounded_by auth (secure_log e sender)"
  "moves.bounded_by auth (engage_flag e k who reason)" "moves.bounded_by auth (clear_flag e k)"
  unfolding admits_def secure_log_def engage_flag_def clear_flag_def
  by (rule moves.rel_State; simp add: svc_moves_def reach_refl split_beta)+

lemma moves_emit [moving]: "moves.bounded_by auth (emit e i c isowner o')"
  unfolding emit_def by (auto intro!: moving)

lemma moves_record [moving]: "moves.bounded_by auth (record_response e i iid kind value path event)"
  unfolding record_response_def by (auto intro!: moving)

lemma moves_keys [moving]: "moves.bounded_by auth (mute_keys att until why keys)"
  by (induction keys) (auto intro!: moving)

lemma moves_alert [moving]: "moves.bounded_by auth (mute_alert e i dur why kind value detail answer)"
  unfolding mute_alert_def by (auto intro!: moving split: sum.split)

lemma moves_stop [moving]: "moves.bounded_by auth (cmdStop e i)" "moves.bounded_by auth (cmdResume e)"
  unfolding cmdStop_def cmdResume_def Let_def by (auto intro!: moving split: option.split)

lemma moves_mutes [moving]: "moves.bounded_by auth (cmdSnooze e i c)" "moves.bounded_by auth (cmdMute e i c)"
  "moves.bounded_by auth (cmdUnmute e i c)" "moves.bounded_by auth (cmdUseful e i c useful)"
  unfolding cmdSnooze_def cmdMute_def muteMessage_def cmdUnmute_def cmdUseful_def Let_def
  by (auto intro!: moving split: option.split sum.split)

lemma moves_refuse [moving]: "moves.bounded_by auth (refuseNonOwner e i c)"
  unfolding refuseNonOwner_def by (auto intro!: moving split: sender_standing.split)

text \<open>A decision moves it under the condition that the decider it will record is one of those that count.\<close>

definition svc_legal :: "(string \<Rightarrow> bool) \<Rightarrow> ctl_env \<Rightarrow> bool" where
  "svc_legal auth e \<longleftrightarrow> (\<forall>v. ce_approvals e = Some v \<longrightarrow> env_legal auth v)"

definition decides_as :: "ctl_env \<Rightarrow> ctl_input \<Rightarrow> string option" where
  "decides_as e i = decider (ce_owner e) (canonicalSender i) (isWebOwner (ce_owner e) i)"

lemma moves_decideProposal:
  assumes "env_legal auth v" "\<And>who. decides_as e i = Some who \<Longrightarrow> auth who"
  shows "moves.bounded_by auth (decideProposal e v i code nonce approve)"
proof -
  have "env_legal auth (v\<lparr>v_owner := ce_owner e\<rparr>)" using assms(1) by (simp add: env_legal_def)
  from guar_Decide [OF this] assms(2) show ?thesis
    unfolding decideProposal_def by (auto simp: decides_as_def intro!: moving moves_svc)
qed

lemma moves_decide:
  assumes "svc_legal auth e" "\<And>who. decides_as e i = Some who \<Longrightarrow> auth who"
  shows "moves.bounded_by auth (decideCommand e i c approve)"
  unfolding decideCommand_def using assms
  by (auto simp: svc_legal_def intro!: moving moves_decideProposal split: option.split)

lemma moves_handler:
  assumes "svc_legal auth e"
    "\<And>who. n \<in> {CmdApprove, CmdReject, CmdYes} \<Longrightarrow> decides_as e i = Some who \<Longrightarrow> auth who"
  shows "moves.bounded_by auth (handler e i c n)"
  using assms by (cases n) (auto intro!: moving moves_decide)

lemma moves_allowed:
  assumes "svc_legal auth e"
    "\<And>who. cm_name c \<in> {CmdApprove, CmdReject, CmdYes} \<Longrightarrow> may_act e i \<Longrightarrow> decides_as e i = Some who \<Longrightarrow> auth who"
  shows "moves.bounded_by auth (handle_allowed e i c)"
proof (cases "may_act e i")
  case True
  then have "moves.bounded_by auth (handler e i c (cm_name c))" using assms by (intro moves_handler) auto
  then show ?thesis unfolding handle_allowed_def by (auto intro!: moving split: prod.split option.split)
next
  case False
  have "svc_moves auth s t" if "untouched s t" for s t
    using that by (simp add: untouched_def svc_moves_def reach_refl)
  then show ?thesis using refused_calm [OF False, of c] by (simp add: calm.bounded_by_def moves.bounded_by_def)
qed

lemma moves_command:
  assumes "svc_legal auth e"
    "\<And>who. cm_name c \<in> {CmdApprove, CmdReject, CmdYes} \<Longrightarrow> may_act e i \<Longrightarrow> decides_as e i = Some who \<Longrightarrow> auth who"
  shows "moves.bounded_by auth (handle_command e i c)"
  unfolding handle_command_def by (auto intro!: moving moves_allowed assms)

section \<open>Histories of the control path\<close>

datatype ctl_op = Inbound ctl_env ctl_input | Launcher ctl_env string bool | Replied ctl_env "string \<Rightarrow> string" ctl_input
  | Reacted ctl_env ctl_input string | Meanwhile call

definition after :: "'a ctl_prog \<Rightarrow> ctl \<Rightarrow> ctl" where
  "after m s = snd (run_state m s)"

fun run_ctl :: "ctl_op \<Rightarrow> ctl \<Rightarrow> ctl" where
  "run_ctl (Inbound e i) s = after (TryHandle e i) s"
| "run_ctl (Launcher e code approve) s = after (DecideFromLauncher e code approve) s"
| "run_ctl (Replied e cls i) s = after (ObserveReply e cls i) s"
| "run_ctl (Reacted e i emoji) s = after (ObserveReaction e i emoji) s"
| "run_ctl (Meanwhile c) s = s\<lparr>ct_svc := run_call c (ct_svc s)\<rparr>"

definition is_decision :: "ctl_input \<Rightarrow> bool" where
  "is_decision i \<longleftrightarrow> (\<exists>c. classify i = Some c \<and> cm_name c \<in> {CmdApprove, CmdReject, CmdYes})"

text \<open>The operations through which somebody decides, and as whom.\<close>

fun decider_of :: "ctl_op \<Rightarrow> string option" where
  "decider_of (Inbound e i) = (if may_act e i \<and> is_decision i then decides_as e i else None)"
| "decider_of (Launcher e code approve) = (if isWebOwner (ce_owner e) launcher_input then decides_as e launcher_input else None)"
| "decider_of _ = None"

definition decided_in :: "ctl_op list \<Rightarrow> string \<Rightarrow> bool" where
  "decided_in ops who \<longleftrightarrow> (\<exists>op \<in> set ops. decider_of op = Some who)"

text \<open>What runs meanwhile is every call of the service but \<open>Decide\<close>, whose only caller is this path.\<close>

fun ctl_legal :: "(string \<Rightarrow> bool) \<Rightarrow> ctl_op \<Rightarrow> bool" where
  "ctl_legal auth (Inbound e i) = svc_legal auth e"
| "ctl_legal auth (Launcher e code approve) = svc_legal auth e"
| "ctl_legal auth (Meanwhile c) = (env_legal auth (call_env c) \<and> call_decider c = None)"
| "ctl_legal auth _ = True"

lemma moves_TryHandle:
  assumes "svc_legal auth e" "\<And>who. decider_of (Inbound e i) = Some who \<Longrightarrow> auth who"
  shows "moves.bounded_by auth (TryHandle e i)"
proof (cases "classify i")
  case (Some c)
  have cmd: "moves.bounded_by auth (handle_command e i (c\<lparr>cm_args := xs\<rparr>))" for xs
    using assms Some by (intro moves_command) (auto simp: is_decision_def)
  have "c\<lparr>cm_args := cm_args c\<rparr> = c" by simp
  with cmd have plain: "moves.bounded_by auth (handle_command e i c)" by metis
  have card: "moves.bounded_by auth (on_svc (PendingByCard v ch chat msg))" if "ce_approvals e = Some v" for v ch chat msg
    using that assms(1) by (intro moves_svc) (auto simp: PendingByCard_def svc_legal_def intro!: guarantees)
  show ?thesis unfolding TryHandle_def Some option.case
    by (auto intro!: moving plain cmd card split: option.split sum.split aerr.split)
qed (simp add: TryHandle_def moves.rel_return)

lemma moves_Launcher:
  assumes "svc_legal auth e" "\<And>who. decider_of (Launcher e code approve) = Some who \<Longrightarrow> auth who"
  shows "moves.bounded_by auth (DecideFromLauncher e code approve)"
  unfolding DecideFromLauncher_def Let_def using assms
  by (auto simp: svc_legal_def intro!: moving moves_decideProposal split: option.split prod.split)

lemma moves_observed [moving]: "moves.bounded_by auth (ObserveReply e cls i)" "moves.bounded_by auth (ObserveReaction e i emoji)"
  unfolding ObserveReply_def ObserveReaction_def Let_def by (auto intro!: moving split: option.split)

lemma run_ctl_moves:
  assumes "ctl_legal auth op" "\<And>who. decider_of op = Some who \<Longrightarrow> auth who"
  shows "svc_moves auth s (run_ctl op s)"
proof (cases op)
  case (Inbound e i)
  then show ?thesis using moves_TryHandle [of auth e i] assms by (simp add: moves.bounded_by_def after_def)
next
  case (Launcher e code approve)
  then show ?thesis using moves_Launcher [of auth e code approve] assms by (simp add: moves.bounded_by_def after_def)
next
  case (Replied e cls i)
  then show ?thesis using moves_observed(1) by (simp add: moves.bounded_by_def after_def)
next
  case (Reacted e i emoji)
  then show ?thesis using moves_observed(2) by (simp add: moves.bounded_by_def after_def)
next
  case (Meanwhile c)
  then show ?thesis using call_reach [of auth c] assms(1) by (simp add: svc_moves_def call_legal_def)
qed

definition ctl_op_ok :: "(string \<Rightarrow> bool) \<Rightarrow> ctl_op \<Rightarrow> bool" where
  "ctl_op_ok auth op \<longleftrightarrow> ctl_legal auth op \<and> (\<forall>who. decider_of op = Some who \<longrightarrow> auth who)"

interpretation control: machine "ctl_op_ok auth" run_ctl "\<lambda>s. svc_ok auth (ct_svc s)" for auth
  by unfold_locales (use run_ctl_moves reach_ok in \<open>fastforce simp: ctl_op_ok_def svc_moves_def\<close>)

section \<open>What the control path promises\<close>

lemma standing_owner:
  "standing c i = StandOwner \<Longrightarrow> \<exists>route. OwnerRoute (oe_owner c) = Some route \<and>
    (isWebOwner c i \<or> SameSender (canonicalSender i) (rt_sender_id route) \<and> \<not> IsGroupChat (in_channel i) (in_chat i) (in_peer i) \<and>
      equal_fold (in_channel i) (rt_channel route) \<and> trim_space (in_chat i) = rt_chat_id route)"
  by (auto simp: standing_def split: option.splits if_splits)

text \<open>C24. An input that makes the control path touch the tables of the approvals, the kill flag, a mute or the record of the
  owner's responses comes from the configured owner in the owner's direct chat, or from the authenticated web chat,
  while the proactive features are on.\<close>

theorem only_the_owner_acts:
  assumes "run_state (TryHandle e i) s = (r, t)" "\<forall>v. ce_approvals e = Some v \<longrightarrow> (\<forall>p x. v_gap v p x = x)"
    "ct_svc t \<noteq> ct_svc s \<or> ct_row t \<noteq> ct_row s \<or> ct_mem t \<noteq> ct_mem s \<or> \<not> list_all notice (drop (length (ct_fx s)) (ct_fx t))"
  shows "ce_enabled e \<and> (\<exists>route. OwnerRoute (oe_owner (ce_owner e)) = Some route \<and>
    (isWebOwner (ce_owner e) i \<or> SameSender (canonicalSender i) (rt_sender_id route) \<and> \<not> IsGroupChat (in_channel i) (in_chat i) (in_peer i) \<and>
      equal_fold (in_channel i) (rt_channel route) \<and> trim_space (in_chat i) = rt_chat_id route))"
proof -
  have "untouched s t" if "\<not> may_act e i"
  proof (cases "classify i")
    case (Some c)
    have calm: "calm.bounded_by (handle_command e i c)" "calm.bounded_by (handle_command e i (c\<lparr>cm_args := xs\<rparr>))" for xs
      using that by (rule refused_command_calm)+
    have card: "calm.bounded_by (on_svc (PendingByCard v ch chat msg))" if "ce_approvals e = Some v" for v ch chat msg
      using that assms(2) unfolding on_svc_def
      by (intro calm.rel_State) (auto simp: PendingByCard_def query_def untouched_def split_beta Let_def)
    have "calm.bounded_by (TryHandle e i)" unfolding TryHandle_def Some option.case
      by (auto intro!: calm_rules calm card split: option.split sum.split aerr.split)
    from calm.rel_run [OF this assms(1)] show ?thesis .
  qed (use assms(1) in \<open>simp add: TryHandle_def calm.refl\<close>)
  moreover have "\<not> untouched s t" using assms(3) by (auto simp: untouched_def)
  ultimately have "may_act e i" by blast
  then show ?thesis using standing_owner by (auto simp: may_act_def standsOwner_def)
qed

text \<open>C25. In every history of inputs, button presses, launcher clicks and other work of the approval service, statement by
  statement, a proposal that was decided was decided by a control input that is a decision, from somebody who stands
  as the owner while the proactive features are on, or by a click in the launcher while the web route is active; and
  the decider on record is that one.\<close>

theorem decisions_come_through_control:
  assumes "\<forall>op \<in> set ops. ctl_legal (decided_in ops) op" "ct_svc s0 = fresh_service"
    "r \<in> set (sv_table (ct_svc (fold run_ctl ops s0)))" "p_status r \<notin> {PPending, PExpired, PCancelled}"
  shows "(\<exists>e i c. Inbound e i \<in> set ops \<and> classify i = Some c \<and> cm_name c \<in> {CmdApprove, CmdReject, CmdYes} \<and>
      ce_enabled e \<and> standing (ce_owner e) i = StandOwner \<and> decides_as e i = Some (p_decided_by r)) \<or>
    (\<exists>e code approve. Launcher e code approve \<in> set ops \<and> isWebOwner (ce_owner e) launcher_input \<and>
      decides_as e launcher_input = Some (p_decided_by r))"
proof -
  have "list_all (ctl_op_ok (decided_in ops)) ops"
    using assms(1) by (auto simp: list_all_iff ctl_op_ok_def decided_in_def)
  then have "svc_ok (decided_in ops) (ct_svc (fold run_ctl ops s0))"
    by (rule control.run_keeps) (simp add: assms(2) fresh_ok)
  then have "decided_in ops (p_decided_by r)"
    using assms(3,4) by (auto simp: svc_ok_def pdb_ok_def prow_ok_def)
  then obtain op where op: "op \<in> set ops" "decider_of op = Some (p_decided_by r)" by (auto simp: decided_in_def)
  show ?thesis
  proof (cases op)
    case (Inbound e i)
    then have "may_act e i" "is_decision i" "decides_as e i = Some (p_decided_by r)"
      using op(2) by (simp_all split: if_split_asm)
    then show ?thesis using op(1) Inbound unfolding may_act_def standsOwner_def is_decision_def by blast
  next
    case (Launcher e code approve)
    then have "isWebOwner (ce_owner e) launcher_input" "decides_as e launcher_input = Some (p_decided_by r)"
      using op(2) by (simp_all split: if_split_asm)
    then show ?thesis using op(1) Launcher by blast
  qed (use op(2) in simp_all)
qed

section \<open>The owner's stop\<close>

lemma run_map_state: "run_state (map_state f m) s = (f (fst (run_state m s)), snd (run_state m s))"
  by (cases m) (simp add: map_prod_def split_beta)

lemma row_on_iff: "row_on lib row \<longleftrightarrow> (\<exists>raw. row = Some raw \<and> raw \<noteq> [] \<and> raw \<noteq> null_json)"
  by (auto simp: row_on_def seen_def decodeKill_def select_row_def null_json_def split: option.splits)

text \<open>C26. The owner's \<open>/stop\<close> is handled whatever the limiter holds: it starts the whole sequence, or where there is none and
  the row can be written it leaves the flag engaged, in the row and in memory, also when it cannot be read back.\<close>

theorem owner_stop_gets_through:
  assumes "classify i = Some c" "cm_name c = CmdStop" "standing (ce_owner e) i = StandOwner" "ce_enabled e"
    "run_state (TryHandle e i) s = (r, t)"
    "ce_stop e = None \<Longrightarrow> ce_kill e = Some (lib, True, readable) \<and> ct_row s \<noteq> Some [] \<and>
      (\<forall>x. kl_encode lib x \<noteq> [] \<and> kl_encode lib x \<noteq> null_json)"
  shows "r \<noteq> None \<and> ct_hits t = ct_hits s \<and>
    (if ce_stop e = None then row_on lib (ct_row t) \<and> km_killed (ct_mem t)
     else CxStop (canonicalSender i) (''/stop on '' @ in_channel i) \<in> set (ct_fx t))"
proof -
  have owner: "may_act e i" "standsOwner e i" using assms(3,4) by (simp_all add: may_act_def standsOwner_def)
  have run: "run_state (handle_allowed e i c) s = (the r, t)" "r \<noteq> None"
    using assms(1,2,5) owner by (auto simp: TryHandle_def handle_command_def run_map_state prod_eq_iff)
  then have h: "run_state (do { h \<leftarrow> cmdStop e i;
      let (o', tx) = (case h of (o', None) \<Rightarrow> (OutError, failedText) | (o', Some tx) \<Rightarrow> (o', tx));
      emit e i c (isOwnerSender e i) o';
      give \<lparr>re_text = tx, re_answer = if in_callback i \<noteq> None then firstLine tx 120 else []\<rparr> }) s = (the r, t)"
    using assms(2) refuse_owner [OF owner(1), of c] by (simp add: handle_allowed_def ownerOnly_def)
  show ?thesis
  proof (cases "ce_stop e")
    case (Some st)
    then show ?thesis using h run(2) by (auto simp: cmdStop_def effect_def emit_def split: if_splits prod.splits)
  next
    case None
    then have k: "ce_kill e = Some (lib, True, readable)" "ct_row s \<noteq> Some []"
      "\<And>x. kl_encode lib x \<noteq> [] \<and> kl_encode lib x \<noteq> null_json" using assms(6) by blast+
    obtain row changed where row: "engage_row lib \<lparr>ki_at = unix_ms (ce_clock e 0), ki_by = canonicalSender i, ki_reason = ''/stop on '' @ in_channel i\<rparr> (ct_row s) = (row, changed)"
      by fastforce
    then have "row_on lib row" using k(2,3) unfolding engage_row_def row_on_iff by (cases "ct_row s") (force split: if_split_asm)+
    then show ?thesis using h run(2) None k(1) row
      by (cases readable) (auto simp: cmdStop_def engage_flag_def Engage_def read_def store_read_killed engage_fallback_def row_on_def
          effect_def emit_def split: if_splits prod.splits)
  qed
qed

section \<open>Buttons and typed decisions\<close>

lemma Fields_ascii: "\<forall>c \<in> set s. (of_char c :: nat) < 128 \<Longrightarrow> Fields s = map string_of (words [] (bytes_of s))"
  by (simp add: Fields_def ascii_chunks fields_words)

lemma bytes_of_append: "bytes_of (a @ b) = bytes_of a @ bytes_of b"
  by (simp add: bytes_of_def)

lemma fields_two:
  assumes "\<forall>c \<in> set a \<union> set b. (of_char c :: nat) < 128 \<and> \<not> IsSpace (of_char c)" "a \<noteq> []" "b \<noteq> []"
  shows "Fields (a @ '' '' @ b) = [a, b]"
proof -
  have "\<forall>w \<in> set [bytes_of a, bytes_of b]. is_word w" using assms by (auto simp: is_word_def bytes_of_def)
  from words_join [OF this] have "words [] (bytes_of (a @ '' '' @ b)) = [bytes_of a, bytes_of b]"
    by (simp add: bytes_of_append) (simp add: bytes_of_def)
  moreover have "\<forall>c \<in> set (a @ '' '' @ b). (of_char c :: nat) < 128" using assms(1) by auto
  ultimately show ?thesis by (simp add: Fields_ascii del: append_assoc)
qed

definition decision_word :: "bool \<Rightarrow> string" where
  "decision_word approve = (if approve then ''/approve'' else ''/reject'')"

definition decision_name :: "bool \<Rightarrow> cmd_name" where
  "decision_name approve = (if approve then CmdApprove else CmdReject)"

lemma decision_word_all: "\<forall>approve \<in> {True, False}.
   (\<forall>c \<in> set (decision_word approve). (of_char c :: nat) < 128 \<and> \<not> IsSpace (of_char c)) \<and> decision_word approve \<noteq> [] \<and>
   hd (decision_word approve) = CHR ''/'' \<and> length (decision_word approve) \<le> 8 \<and>
   takeWhile (\<lambda>c. c \<noteq> CHR ''@'') (lower_text (tl (decision_word approve))) = cmd_text (decision_name approve)"
  by code_simp

lemma decision_word_chars:
  "(\<forall>c \<in> set (decision_word approve). (of_char c :: nat) < 128 \<and> \<not> IsSpace (of_char c)) \<and> decision_word approve \<noteq> [] \<and>
   hd (decision_word approve) = CHR ''/'' \<and> length (decision_word approve) \<le> 8 \<and>
   takeWhile (\<lambda>c. c \<noteq> CHR ''@'') (lower_text (tl (decision_word approve))) = cmd_text (decision_name approve)"
  by (rule bspec [OF decision_word_all]) simp

lemma typed_decision:
  assumes "ValidCode code" "in_callback i = None" "\<not> in_forwarded i" "in_text i = decision_word approve @ '' '' @ code"
  shows "classify i = Some (typed (decision_name approve) [code])"
proof -
  let ?w = "decision_word approve" and ?t = "in_text i"
  note w = decision_word_chars [of approve]
  have code: "code \<noteq> []" "length code = 4" using assms(1) by (auto simp: ValidCode_def CodeLen_def)
  note cs = code_chars [OF assms(1)]
  have ascii: "\<forall>c \<in> set ?t. (of_char c :: nat) < 128" using w cs by (auto simp: assms(4))
  have sp: "\<not> IsSpace (of_char (last code))" using cs code(1) by simp
  have hd: "hd ?t = CHR ''/''" using w by (simp add: assms(4))
  have t: "trim_bytes ?t = ?t"
    by (rule trim_tight [OF ascii]) (use w code(1) sp hd in \<open>auto simp: assms(4) IsSpace_def\<close>)
  have f: "Fields ?t = [?w, code]" unfolding assms(4) by (rule fields_two) (use w cs code(1) in auto)
  have isp: "IsSpace (of_char (CHR 0x0D))" "IsSpace (of_char (CHR 0x0A))" by (simp_all add: IsSpace_def)
  have "c = CHR '' '' \<or> \<not> IsSpace (of_char c)" if "c \<in> set ?t" for c
    using that w cs by (auto simp: assms(4))
  then have nl: "c \<notin> {CHR 0x0D, CHR 0x0A}" if "c \<in> set ?t" for c using that isp by fastforce
  have len: "?t \<noteq> []" "length ?t \<le> maxCommandBytes" using w code by (auto simp: assms(4) maxCommandBytes_def)
  have "classify_fields [?w, code] = Some (typed (decision_name approve) [code])"
    using w assms(1) normalize_valid [OF assms(1)]
    by (cases approve) (simp_all add: classify_fields_def decision_name_def text_commands_def Let_def)
  then show ?thesis using assms(2,3) t f hd len nl by (auto simp: classify_def Let_def)
qed

text \<open>C27. Every Save and Discard button that the approval service renders is understood as the decision it stands for: its press
  carries the proposal's code and nonce, and its command, typed, the code.\<close>

theorem buttons_are_recognised:
  assumes "ValidCode (p_code p)" "p_nonce p \<noteq> []" "b \<in> set (buttons v p)"
  shows "\<exists>approve. bt_id b = (if approve then ''approve'' else ''reject'') \<and>
    classify (i\<lparr>in_callback := Some \<lparr>cb_action = bt_id b, cb_payload = bt_payload b\<rparr>\<rparr>) =
      Some (pressed (decision_name approve) [p_code p] (p_nonce p)) \<and>
    classify (i\<lparr>in_callback := None, in_forwarded := False, in_text := bt_command b\<rparr>) =
      Some (typed (decision_name approve) [p_code p])"
proof -
  from assms(3) have "\<exists>approve. bt_id b = (if approve then ''approve'' else ''reject'') \<and>
    bt_payload b = ButtonPayload (p_code p) (p_nonce p) \<and> bt_command b = decision_word approve @ '' '' @ p_code p"
    by (auto simp: buttons_def decision_word_def ex_bool_eq)
  then obtain approve where b: "bt_id b = (if approve then ''approve'' else ''reject'')"
    "bt_payload b = ButtonPayload (p_code p) (p_nonce p)" "bt_command b = decision_word approve @ '' '' @ p_code p"
    by blast
  have "classifyCallback \<lparr>cb_action = bt_id b, cb_payload = bt_payload b\<rparr> = Some (pressed (decision_name approve) [p_code p] (p_nonce p))"
    using button_roundtrip [OF assms(1,2)] by (simp add: classifyCallback_def decision_callback_def b decision_name_def)
  moreover have "classify (i\<lparr>in_callback := None, in_forwarded := False, in_text := bt_command b\<rparr>) = Some (typed (decision_name approve) [p_code p])"
    by (rule typed_decision [OF assms(1)]) (simp_all add: b)
  ultimately show ?thesis using b(1) by (auto simp: classify_def)
qed

lemma input_text_irrelevant [simp]:
  "canonicalSender (i\<lparr>in_text := x\<rparr>) = canonicalSender i" "isWebOwner c (i\<lparr>in_text := x\<rparr>) = isWebOwner c i"
  "standing c (i\<lparr>in_text := x\<rparr>) = standing c i" "limiterKey (i\<lparr>in_text := x\<rparr>) = limiterKey i"
  by (simp_all add: canonicalSender_def isWebOwner_def standing_def limiterKey_def cong: if_cong option.case_cong)

lemma decision_reply_text:
  "\<exists>o' tx. decision_reply code approve r = (o', Some tx)"
  by (auto simp: decision_reply_def split: sum.split aerr.split)

lemma admits_run:
  "run_state (admits e key) s = (let (ok, h) = allow DefaultRateLimit DefaultRateWindow key (ce_clock e 1) (ct_hits s) in (ok, s\<lparr>ct_hits := h\<rparr>))"
  by (simp add: admits_def)

lemma decideProposal_run:
  "run_state (decideProposal e v i code nonce approve) s =
      (let (r, sv) = run_state (Decide (v\<lparr>v_owner := ce_owner e\<rparr>) code nonce approve (canonicalSender i) (isWebOwner (ce_owner e) i)) (ct_svc s)
       in ((r, decision_reply code approve r), s\<lparr>ct_svc := sv\<rparr>))"
  by (simp add: decideProposal_def on_svc_def split_beta Let_def)

text \<open>A click in the launcher does to the approvals what the same decision typed in the dashboard chat does, and answers with
  the same sentence, as far as the limiter lets the typed one through.\<close>

theorem launcher_is_a_typed_decision:
  assumes "ValidCode code" "isWebOwner (ce_owner e) launcher_input" "standing (ce_owner e) launcher_input = StandOwner" "ce_enabled e"
    "fst (allow DefaultRateLimit DefaultRateWindow (limiterKey launcher_input) (ce_clock e 1) (ct_hits s))"
    "run_state (DecideFromLauncher e code approve) s = (answer, a)"
    "run_state (TryHandle e (launcher_input\<lparr>in_text := decision_word approve @ '' '' @ code\<rparr>)) s = (r, b)"
  shows "ct_svc a = ct_svc b \<and> (\<exists>reply. r = Some reply \<and> re_text reply = fst (snd answer))"
proof -
  let ?i = "launcher_input\<lparr>in_text := decision_word approve @ '' '' @ code\<rparr>"
  let ?c = "typed (decision_name approve) [code]"
  have norm: "NormalizeCode code = code" by (rule normalize_valid [OF assms(1)])
  have cls: "classify ?i = Some ?c" by (rule typed_decision [OF assms(1)]) (simp_all add: launcher_input_def)
  have owner: "may_act e ?i" using assms(3,4) by (simp add: may_act_def standsOwner_def)
  have hd: "handler e ?i ?c (decision_name approve) = decideCommand e ?i ?c approve" by (simp add: decision_name_def)
  have n: "decision_name approve \<noteq> CmdYes" "decision_name approve \<noteq> CmdStop" "decision_name approve \<noteq> CmdWhoami"
    by (simp_all add: decision_name_def)
  obtain h where h: "allow DefaultRateLimit DefaultRateWindow (limiterKey launcher_input) (ce_clock e 1) (ct_hits s) = (True, h)"
    using assms(5) by (cases "allow DefaultRateLimit DefaultRateWindow (limiterKey launcher_input) (ce_clock e 1) (ct_hits s)") auto
  have nm: "cm_name ?c = decision_name approve" by (simp add: typed_def)
  have "run_state (handle_command e ?i ?c) s = run_state (handle_allowed e ?i ?c) (s\<lparr>ct_hits := h\<rparr>)"
    using n h by (simp add: handle_command_def nm admits_run)
  then obtain reply where r: "r = Some reply" and "run_state (handle_allowed e ?i ?c) (s\<lparr>ct_hits := h\<rparr>) = (reply, b)"
    using assms(7) cls n by (auto simp: TryHandle_def run_map_state nm prod_eq_iff)
  then have run: "run_state (do { h \<leftarrow> decideCommand e ?i ?c approve;
      let (o', tx) = (case h of (o', None) \<Rightarrow> (OutError, failedText) | (o', Some tx) \<Rightarrow> (o', tx));
      emit e ?i ?c (isOwnerSender e ?i) o';
      give \<lparr>re_text = tx, re_answer = if in_callback ?i \<noteq> None then firstLine tx 120 else []\<rparr> }) (s\<lparr>ct_hits := h\<rparr>) = (reply, b)"
    using refuse_owner [OF owner, of ?c] hd n by (simp_all add: handle_allowed_def ownerOnly_def typed_def)
  show ?thesis
  proof (cases "ce_approvals e")
    case None
    then show ?thesis using assms(1,6) run r norm
      by (auto simp: DecideFromLauncher_def decideCommand_def typed_def emit_def effect_def split: if_splits)
  next
    case (Some v)
    obtain d sv where d: "run_state (Decide (v\<lparr>v_owner := ce_owner e\<rparr>) code [] approve (canonicalSender launcher_input) True) (ct_svc s) = (d, sv)"
      by fastforce
    obtain o' tx where reply: "decision_reply code approve d = (o', Some tx)" using decision_reply_text by blast
    have a: "ct_svc a = sv" "fst (snd answer) = tx"
      using assms(1,2,6) norm Some d reply
      by (auto simp: DecideFromLauncher_def decideProposal_run launcher_answer_def split: sum.splits aerr.splits if_splits)
    have "ct_svc b = sv" "re_text reply = tx"
      using run norm Some d reply assms(1,2)
      by (auto simp: decideCommand_def typed_def decideProposal_run run_map_state emit_def effect_def split: if_splits)
    with a r show ?thesis by simp
  qed
qed

section \<open>Witnesses\<close>

definition demo_ctl_env :: ctl_env where
  "demo_ctl_env = \<lparr>ce_owner = demo_owner\<lparr>oe_gate := Some (\<lambda>h. True)\<rparr>, ce_enabled = True, ce_approvals = Some demo_env,
     ce_kill = Some (demo_kill_lib, True, True), ce_stop = None, ce_sent = None, ce_attention = None, ce_feedback = False,
     ce_events = True, ce_clock = (\<lambda>k. minute)\<rparr>"

definition demo_ctl :: ctl where
  "demo_ctl = \<lparr>ct_svc = fresh_service, ct_row = Some null_json, ct_mem = ks_mem (demo_kill 0), ct_hits = [], ct_seclog = [], ct_fx = []\<rparr>"

definition demo_stop :: ctl_input where "demo_stop = demo_input_text ''/stop''"
definition demo_approve :: ctl_input where "demo_approve = demo_input_text ''/approve bcde''"

definition demo_ops :: "ctl_op list" where
  "demo_ops = [Meanwhile (hd demo_calls), Inbound demo_ctl_env demo_approve]"

theorem only_the_owner_acts_witness:
  "ct_row (after (TryHandle demo_ctl_env demo_stop) demo_ctl) \<noteq> Some null_json \<and> ce_enabled demo_ctl_env \<and>
   (\<exists>route. OwnerRoute (oe_owner demo_owner) = Some route)"
proof -
  have row: "ct_row (after (TryHandle demo_ctl_env demo_stop) demo_ctl) \<noteq> ct_row demo_ctl" by code_simp
  have gap: "\<forall>v. ce_approvals demo_ctl_env = Some v \<longrightarrow> (\<forall>p x. v_gap v p x = x)" by (simp add: demo_ctl_env_def demo_env_def)
  have own: "oe_owner (ce_owner demo_ctl_env) = oe_owner demo_owner" by (simp add: demo_ctl_env_def)
  have "run_state (TryHandle demo_ctl_env demo_stop) demo_ctl =
    (fst (run_state (TryHandle demo_ctl_env demo_stop) demo_ctl), after (TryHandle demo_ctl_env demo_stop) demo_ctl)"
    by (simp add: after_def)
  from only_the_owner_acts [OF this gap] row own show ?thesis by (auto simp: demo_ctl_def)
qed

lemma demo_ops_statuses: "map (\<lambda>r. p_status r) (sv_table (ct_svc (fold run_ctl demo_ops demo_ctl))) = [PExecuting]"
  by code_simp

theorem decisions_come_through_control_witness:
  "\<exists>e i c r. Inbound e i \<in> set demo_ops \<and> classify i = Some c \<and> standing (ce_owner e) i = StandOwner \<and>
    r \<in> set (sv_table (ct_svc (fold run_ctl demo_ops demo_ctl))) \<and> decides_as e i = Some (p_decided_by r)"
proof -
  let ?t = "sv_table (ct_svc (fold run_ctl demo_ops demo_ctl))"
  obtain r where r: "?t = [r]" "p_status r = PExecuting" using demo_ops_statuses by (cases ?t) auto
  have "\<forall>op \<in> set demo_ops. ctl_legal (decided_in demo_ops) op"
    by (simp add: demo_ops_def demo_calls_def svc_legal_def demo_ctl_env_def demo_legal)
  moreover have "ct_svc demo_ctl = fresh_service" by (simp add: demo_ctl_def)
  moreover have "Launcher e code approve \<notin> set demo_ops" for e code approve by (simp add: demo_ops_def)
  ultimately show ?thesis using decisions_come_through_control [of demo_ops demo_ctl r] r by fastforce
qed

theorem owner_stop_gets_through_witness:
  "km_killed (ct_mem (after (TryHandle demo_ctl_env demo_stop) (demo_ctl\<lparr>ct_hits := [(''telegram:7'', replicate 10 minute)]\<rparr>)))"
proof -
  let ?s = "demo_ctl\<lparr>ct_hits := [(''telegram:7'', replicate 10 minute)]\<rparr>"
  have c: "classify demo_stop = Some (typed CmdStop [])" "cm_name (typed CmdStop []) = CmdStop"
    "standing (ce_owner demo_ctl_env) demo_stop = StandOwner" "ce_enabled demo_ctl_env" by code_simp+
  have run: "run_state (TryHandle demo_ctl_env demo_stop) ?s =
    (fst (run_state (TryHandle demo_ctl_env demo_stop) ?s), after (TryHandle demo_ctl_env demo_stop) ?s)"
    by (simp add: after_def)
  have k: "ce_kill demo_ctl_env = Some (demo_kill_lib, True, True) \<and> ct_row ?s \<noteq> Some [] \<and>
      (\<forall>x. kl_encode demo_kill_lib x \<noteq> [] \<and> kl_encode demo_kill_lib x \<noteq> null_json)"
    by (simp add: demo_ctl_env_def demo_ctl_def demo_kill_lib_def null_json_def)
  have "ce_stop demo_ctl_env = None" by (simp add: demo_ctl_env_def)
  with owner_stop_gets_through [OF c run k] show ?thesis by simp
qed

theorem buttons_are_recognised_witness:
  "bt_id (hd (buttons demo_env (card_row ''BCDE'' KindMemory 0))) = ''approve'' \<and>
   classify (demo_stop\<lparr>in_callback := Some \<lparr>cb_action = ''approve'', cb_payload = ''BCDE.n''\<rparr>\<rparr>) = Some (pressed CmdApprove [''BCDE''] ''n'')"
proof -
  let ?p = "card_row ''BCDE'' KindMemory 0"
  have v: "ValidCode (p_code ?p)" "p_nonce ?p \<noteq> []" "p_code ?p = ''BCDE''" "p_nonce ?p = ''n''" by code_simp+
  have b: "hd (buttons demo_env ?p) \<in> set (buttons demo_env ?p)" "bt_id (hd (buttons demo_env ?p)) = ''approve''"
    "bt_payload (hd (buttons demo_env ?p)) = ''BCDE.n''" by code_simp+
  from buttons_are_recognised [OF v(1,2) b(1), of demo_stop] b v(3,4) show ?thesis
    by (auto simp: decision_name_def split: if_splits)
qed

theorem launcher_is_a_typed_decision_witness:
  "ct_svc (after (DecideFromLauncher demo_ctl_env ''BCDE'' True) demo_ctl) =
   ct_svc (after (TryHandle demo_ctl_env (launcher_input\<lparr>in_text := ''/approve BCDE''\<rparr>)) demo_ctl)"
proof -
  have h: "ValidCode ''BCDE''" "isWebOwner (ce_owner demo_ctl_env) launcher_input"
    "standing (ce_owner demo_ctl_env) launcher_input = StandOwner" "ce_enabled demo_ctl_env"
    "fst (allow DefaultRateLimit DefaultRateWindow (limiterKey launcher_input) (ce_clock demo_ctl_env 1) (ct_hits demo_ctl))"
    by code_simp+
  have w: "decision_word True @ '' '' @ ''BCDE'' = ''/approve BCDE''" by (simp add: decision_word_def)
  from launcher_is_a_typed_decision [OF h surjective_pairing surjective_pairing, of True] show ?thesis
    unfolding after_def w by blast
qed

end
