(* ===== verification/KillSwitch.thy ===== *)
theory KillSwitch
  imports ApprovalExecute KillFlag Effects
begin

text \<open>
  The whole of \<open>/stop\<close> (\<open>pkg/control/kill.go\<close>, the summary of \<open>summary.go\<close>, \<open>List\<close> of \<open>pkg/journal/list.go\<close>). The
  workflows are the rows of the journal, on which the runners go on working between any two statements; the flag is
  the row and the memory of \<open>KillFlag\<close>. The turns, the queue, the mandates, the proposals and the exchange are calls
  with answers. A summary keeps the names it lists; a failure is listed by its step. Panics are not modelled.
\<close>

section \<open>Listing workflows\<close>

definition DefaultListLimit :: nat where "DefaultListLimit = 200"
definition MaxFlowListLimit :: nat where "MaxFlowListLimit = 1000"

definition ActiveStatuses :: "wf_status list" where
  "ActiveStatuses = [WfPending, WfRunning, WfWaiting]"

text \<open>Newest first, and by id among the equally old.\<close>

definition listWorkflows :: "wf_status list \<Rightarrow> go_time option \<Rightarrow> nat \<Rightarrow> jdb \<Rightarrow> wf_row list" where
  "listWorkflows statuses since limit db =
     (let lim = min (if limit = 0 then DefaultListLimit else limit) MaxFlowListLimit;
          oldest = (case since of None \<Rightarrow> 0 | Some t \<Rightarrow> unix_ms t)
      in take lim (sort_key (\<lambda>w. - w_created w) (sort_key w_id
           (filter (\<lambda>w. oldest \<le> w_created w \<and> (statuses = [] \<or> w_status w \<in> set statuses)) (wfs db)))))"

section \<open>The summary\<close>

record stop_summary =
  su_engaged :: bool
  su_already :: bool
  su_busy :: bool
  su_pending :: bool
  su_turns :: nat
  su_cancelled :: "string list"
  su_stopping :: "string list"
  su_protective :: "string list"
  su_finishing :: "string list"
  su_proposals :: nat
  su_mandates :: nat
  su_orders_cancelled :: "string list"
  su_orders_closed :: "string list"
  su_exits_left :: "string list"
  su_may_exist :: "string list"
  su_errors :: "string list"

definition empty_summary :: stop_summary where
  "empty_summary = \<lparr>su_engaged = False, su_already = False, su_busy = False, su_pending = False, su_turns = 0, su_cancelled = [],
     su_stopping = [], su_protective = [], su_finishing = [], su_proposals = 0, su_mandates = 0, su_orders_cancelled = [],
     su_orders_closed = [], su_exits_left = [], su_may_exist = [], su_errors = []\<rparr>"

fun removeOne :: "string list \<Rightarrow> string \<Rightarrow> string list" where
  "removeOne [] v = []"
| "removeOne (x # xs) v = (if x = v then xs else x # removeOne xs v)"

definition noteOf :: "string \<Rightarrow> string" where
  "noteOf n = (if n = [] then [] else '' ('' @ n @ '')'')"

definition orderLabel :: "order_ref \<Rightarrow> string" where
  "orderLabel ref = (if fo_side ref = [] then ''order'' else fo_side ref) @ '' '' @ fo_symbol ref @ '' on '' @ fo_provider ref"

section \<open>State and surroundings\<close>

text \<open>What the exchange showed for an order.\<close>

record order_state =
  st_id :: string
  st_found :: bool
  st_open :: bool
  st_simulated :: bool

text \<open>
  The calls that leave the switch, each with what it was told or had read: the flag, the turns, the queue, the
  cancellation of a workflow (as it was listed, with what its journal said of its orders), the mandates, the
  proposals, the look at an order and its withdrawal.
\<close>

datatype kfx = KxEngage string string | KxTurns | KxQueue | KxFlow wf_row "unit + flow_orders \<times> string" | KxMandates | KxProposals
  | KxLookup order_ref "unit + order_state" | KxWithdraw order_ref string | KxFollowup stop_summary

record ksw =
  kw_row :: "string option"
  kw_mem :: kill_mem
  kw_j :: jdb
  kw_sum :: stop_summary
  kw_budget :: int
  kw_finished :: bool
  kw_detached :: bool
  kw_fx :: "kfx list"

record desk =
  ds_lookup :: "order_ref \<Rightarrow> int \<Rightarrow> unit + order_state" \<comment> \<open>by the budget left\<close>
  ds_cancel :: "order_ref \<Rightarrow> string \<Rightarrow> bool"

text \<open>
  What is wired (a field that is None, or False, is a nil dependency), the answers of the calls (a count, and whether
  there was an error), the durations as configured, and by reading: the clock, the end of the context, whether a
  statement of the journal succeeds, and what others do to the journal before it.
\<close>

record kill_env =
  kv_flag :: bool
  kv_lib :: kill_lib
  kv_written :: bool
  kv_readable :: bool
  kv_turns :: "nat option"
  kv_queue :: bool
  kv_flows :: bool
  kv_orders :: "(wf_row \<Rightarrow> step_row list \<Rightarrow> unit + flow_orders \<times> string) option"
  kv_mandates :: "(nat \<times> bool) option"
  kv_proposals :: "(nat \<times> bool) option"
  kv_desk :: "desk option"
  kv_settle_wait :: duration
  kv_late_wait :: duration
  kv_lookback :: duration
  kv_max_orders :: int
  kv_clock :: "nat list \<Rightarrow> go_time"
  kv_done :: "nat list \<Rightarrow> bool"
  kv_ok :: "nat list \<Rightarrow> bool"
  kv_gap :: "nat list \<Rightarrow> jdb \<Rightarrow> jdb"

type_synonym 'a kprog = "(ksw, 'a) state"

abbreviation yields :: "'a \<Rightarrow> 'a kprog" where "yields \<equiv> State_Monad.return"

definition edit :: "(stop_summary \<Rightarrow> stop_summary) \<Rightarrow> unit kprog" where
  "edit f = State (\<lambda>s. ((), s\<lparr>kw_sum := f (kw_sum s)\<rparr>))"

definition calls :: "kfx \<Rightarrow> unit kprog" where
  "calls x = State (\<lambda>s. ((), s\<lparr>kw_fx := kw_fx s @ [x]\<rparr>))"

definition fail :: "string \<Rightarrow> unit kprog" where
  "fail step = edit (\<lambda>m. m\<lparr>su_errors := su_errors m @ [step]\<rparr>)"

text \<open>A step that reports whether it failed.\<close>

definition guard_step :: "string \<Rightarrow> bool kprog \<Rightarrow> unit kprog" where
  "guard_step step m = do { ok \<leftarrow> m; if ok then yields () else fail step }"

text \<open>A read of the journal, and \<open>Engine.Cancel\<close>, whose refusals for a missing or an ended workflow count as success.\<close>

definition jread :: "kill_env \<Rightarrow> nat list \<Rightarrow> (jdb \<Rightarrow> 'a) \<Rightarrow> (unit + 'a) kprog" where
  "jread e p f = State (\<lambda>s. let j = kv_gap e p (kw_j s) in (if kv_ok e p then Inr (f j) else Inl (), s\<lparr>kw_j := j\<rparr>))"

definition jcancel :: "kill_env \<Rightarrow> nat list \<Rightarrow> string \<Rightarrow> bool kprog" where
  "jcancel e p wid = State (\<lambda>s. let j = kv_gap e p (kw_j s) in
     (kv_ok e p, s\<lparr>kw_j := if kv_ok e p then snd (Cancel wid ''kill switch'' (kv_clock e p) j) else j\<rparr>))"

definition maxFlows :: nat where "maxFlows = 500"
definition pollEvery :: duration where "pollEvery = 25 * 1000000"
definition DefaultReplyBudget :: duration where "DefaultReplyBudget = 2 * second"
definition DefaultSettleWait :: duration where "DefaultSettleWait = second"
definition DefaultLateWait :: duration where "DefaultLateWait = 90 * second"
definition DefaultLookback :: duration where "DefaultLookback = 7 * 24 * hour"
definition DefaultMaxOrders :: int where "DefaultMaxOrders = 40"

definition orDefault :: "duration \<Rightarrow> duration \<Rightarrow> duration" where
  "orDefault d def = (if d \<le> 0 then def else d)"

definition maxOrders :: "kill_env \<Rightarrow> int" where
  "maxOrders e = (if kv_max_orders e > 0 then kv_max_orders e else DefaultMaxOrders)"

section \<open>The workflows\<close>

definition no_orders :: flow_orders where
  "no_orders = \<lparr>fw_orders = [], fw_settle = False, fw_protect = False\<rparr>"

definition read_steps :: "kill_env \<Rightarrow> nat list \<Rightarrow> string \<Rightarrow> (unit + step_row list) kprog" where
  "read_steps e p wid = do {
     r \<leftarrow> jread e p (\<lambda>j. case getWorkflow wid j of Inl _ \<Rightarrow> Inl () | Inr _ \<Rightarrow> Inr (loadSteps wid j));
     yields (case r of Inl _ \<Rightarrow> Inl () | Inr x \<Rightarrow> x)
   }"

definition flow_orders_of :: "kill_env \<Rightarrow> nat list \<Rightarrow> wf_row \<Rightarrow> (unit + flow_orders \<times> string) kprog" where
  "flow_orders_of e p w =
     (case kv_orders e of
        None \<Rightarrow> yields (Inr (no_orders, []))
      | Some f \<Rightarrow> do {
          r \<leftarrow> read_steps e p (w_id w);
          yields (case r of Inl _ \<Rightarrow> Inl () | Inr rows \<Rightarrow> f w rows)
        })"

definition running_now :: "kill_env \<Rightarrow> nat list \<Rightarrow> string \<Rightarrow> bool kprog" where
  "running_now e p wid = do {
     r \<leftarrow> jread e p (getWorkflow wid);
     yields (case r of Inr (Inr w) \<Rightarrow> w_status w = WfRunning | _ \<Rightarrow> False)
   }"

text \<open>One active workflow: its id where it is mid-step, and whether all went well.\<close>

definition cancel_flow :: "kill_env \<Rightarrow> nat \<Rightarrow> wf_row \<Rightarrow> ((string \<times> string) list \<times> bool) kprog" where
  "cancel_flow e k w = do {
     r \<leftarrow> flow_orders_of e [3, k, 0] w;
     (case r of Inl _ \<Rightarrow> edit (\<lambda>m. m\<lparr>su_may_exist := su_may_exist m @ [w_kind w @ '' workflow (its journal could not be read)'']\<rparr>)
       | Inr _ \<Rightarrow> yields ());
     let (fo, note) = (case r of Inl _ \<Rightarrow> (no_orders, []) | Inr x \<Rightarrow> x);
     if w_protective w \<or> fw_protect fo then do {
       edit (\<lambda>m. m\<lparr>su_protective := su_protective m @ [w_kind w @ noteOf note]\<rparr>);
       yields ([], \<not> isl r)
     }
     else if fw_settle fo then do {
       edit (\<lambda>m. m\<lparr>su_finishing := su_finishing m @ [w_kind w]\<rparr>);
       yields ([], \<not> isl r)
     }
     else do {
       calls (KxFlow w r);
       ok \<leftarrow> jcancel e [3, k, 1] (w_id w);
       if \<not> ok then yields ([], False)
       else do {
         running \<leftarrow> running_now e [3, k, 2] (w_id w);
         (if running then edit (\<lambda>m. m\<lparr>su_stopping := su_stopping m @ [w_kind w]\<rparr>)
          else edit (\<lambda>m. m\<lparr>su_cancelled := su_cancelled m @ [w_kind w]\<rparr>));
         yields (if running then [(w_id w, w_kind w)] else [], \<not> isl r)
       }
     }
   }"

fun cancel_each :: "kill_env \<Rightarrow> nat \<Rightarrow> wf_row list \<Rightarrow> ((string \<times> string) list \<times> bool) kprog" where
  "cancel_each e k [] = yields ([], True)"
| "cancel_each e k (w # ws) = do {
     (a, ok) \<leftarrow> cancel_flow e k w;
     (b, oks) \<leftarrow> cancel_each e (Suc k) ws;
     yields (a @ b, ok \<and> oks)
   }"

definition cancelFlows :: "kill_env \<Rightarrow> ((string \<times> string) list \<times> bool) kprog" where
  "cancelFlows e = do {
     r \<leftarrow> jread e [2] (listWorkflows ActiveStatuses None maxFlows);
     (case r of Inl _ \<Rightarrow> yields ([], False) | Inr active \<Rightarrow> cancel_each e 0 active)
   }"

section \<open>Waiting for the workflows that are mid-step\<close>

fun settle_round :: "kill_env \<Rightarrow> nat list \<Rightarrow> (string \<times> string) list \<Rightarrow> (string \<times> string) list kprog" where
  "settle_round e p [] = yields []"
| "settle_round e p ((wid, kind) # es) = do {
     running \<leftarrow> running_now e (p @ [length es]) wid;
     (if running then yields ()
      else edit (\<lambda>m. m\<lparr>su_stopping := removeOne (su_stopping m) kind, su_cancelled := su_cancelled m @ [kind]\<rparr>));
     rest \<leftarrow> settle_round e p es;
     yields (if running then (wid, kind) # rest else rest)
   }"

text \<open>Round \<open>n\<close>; the fuel bounds the rounds.\<close>

fun settle_loop :: "nat \<Rightarrow> nat \<Rightarrow> kill_env \<Rightarrow> nat \<Rightarrow> go_time \<Rightarrow> (string \<times> string) list \<Rightarrow> (string \<times> string) list option kprog" where
  "settle_loop 0 n e ph deadline pending = yields None"
| "settle_loop (Suc fuel) n e ph deadline pending = do {
     next \<leftarrow> settle_round e [ph, n] pending;
     if next = [] \<or> \<not> kv_clock e [ph, n] < deadline \<or> kv_done e [ph, n] then yields (Some next)
     else settle_loop fuel (Suc n) e ph deadline next
   }"

definition settle_fuel :: "duration \<Rightarrow> nat" where
  "settle_fuel d = nat (d div pollEvery) + 2"

definition settle :: "kill_env \<Rightarrow> nat \<Rightarrow> (string \<times> string) list \<Rightarrow> duration \<Rightarrow> (string \<times> string) list kprog" where
  "settle e ph entries d =
     (if entries = [] then yields []
      else do {
        r \<leftarrow> settle_loop (settle_fuel d) 0 e ph (kv_clock e [ph] + d) entries;
        yields (case r of None \<Rightarrow> entries | Some pending \<Rightarrow> pending)
      })"

section \<open>The orders\<close>

definition may_exist :: "string \<Rightarrow> unit kprog" where
  "may_exist label = edit (\<lambda>m. m\<lparr>su_may_exist := su_may_exist m @ [label]\<rparr>)"

definition spend :: "int kprog" where
  "spend = State (\<lambda>s. (kw_budget s, s\<lparr>kw_budget := kw_budget s - 1\<rparr>))"

definition budget_left :: "int kprog" where
  "budget_left = State (\<lambda>s. (kw_budget s, s))"

definition examine_order :: "desk \<Rightarrow> order_ref \<Rightarrow> unit kprog" where
  "examine_order d ref = do {
     b \<leftarrow> spend;
     let st = ds_lookup d ref b;
     calls (KxLookup ref st);
     (case st of
        Inl _ \<Rightarrow> may_exist (orderLabel ref)
      | Inr st \<Rightarrow>
          if \<not> st_found st then may_exist (orderLabel ref)
          else if \<not> st_open st then edit (\<lambda>m. m\<lparr>su_orders_closed := su_orders_closed m @ [orderLabel ref]\<rparr>)
          else do {
            calls (KxWithdraw ref (st_id st));
            (if \<not> ds_cancel d ref (st_id st) then may_exist (orderLabel ref @ '' (still open: cancelling failed)'')
             else edit (\<lambda>m. m\<lparr>su_orders_cancelled := su_orders_cancelled m @
               [if st_simulated st then orderLabel ref @ '' (simulated)'' else orderLabel ref]\<rparr>))
          })
   }"

definition handleOrder :: "desk \<Rightarrow> order_ref \<Rightarrow> unit kprog" where
  "handleOrder d ref =
     (if fo_done ref then yields ()
      else if fo_exit ref then edit (\<lambda>m. m\<lparr>su_exits_left := su_exits_left m @ [orderLabel ref]\<rparr>)
      else do {
        b \<leftarrow> budget_left;
        if b \<le> 0 then may_exist (orderLabel ref @ '' (not checked: too many)'')
        else examine_order d ref
      })"

fun handle_all :: "desk \<Rightarrow> order_ref list \<Rightarrow> unit kprog" where
  "handle_all d [] = yields ()"
| "handle_all d (r # rs) = do { handleOrder d r; handle_all d rs }"

definition scan_flow :: "kill_env \<Rightarrow> desk \<Rightarrow> (wf_row \<Rightarrow> step_row list \<Rightarrow> unit + flow_orders \<times> string) \<Rightarrow> nat list \<Rightarrow> (string \<Rightarrow> bool) \<Rightarrow> wf_row \<Rightarrow> bool kprog" where
  "scan_flow e d f p want w =
     (if \<not> want (w_id w) \<or> w_protective w then yields True
      else do {
        r \<leftarrow> read_steps e p (w_id w);
        (case r of
           Inl _ \<Rightarrow> yields False
         | Inr rows \<Rightarrow> (case f w rows of
               Inl _ \<Rightarrow> yields False
             | Inr (fo, note) \<Rightarrow> do { handle_all d (fw_orders fo); yields True }))
      })"

fun scan_each :: "kill_env \<Rightarrow> desk \<Rightarrow> (wf_row \<Rightarrow> step_row list \<Rightarrow> unit + flow_orders \<times> string) \<Rightarrow> nat \<Rightarrow> (string \<Rightarrow> bool) \<Rightarrow> wf_row list \<Rightarrow> bool kprog" where
  "scan_each e d f ph want [] = yields True"
| "scan_each e d f ph want (w # ws) = do {
     ok \<leftarrow> scan_flow e d f [ph, Suc (length ws)] want w;
     oks \<leftarrow> scan_each e d f ph want ws;
     yields (ok \<and> oks)
   }"

definition scanOrders :: "kill_env \<Rightarrow> desk \<Rightarrow> (wf_row \<Rightarrow> step_row list \<Rightarrow> unit + flow_orders \<times> string) \<Rightarrow> nat \<Rightarrow> (string \<Rightarrow> bool) \<Rightarrow> bool kprog" where
  "scanOrders e d f ph want = do {
     r \<leftarrow> jread e [ph] (listWorkflows [] (Some (kv_clock e [ph] - orDefault (kv_lookback e) DefaultLookback)) maxFlows);
     (case r of Inl _ \<Rightarrow> yields False | Inr flows \<Rightarrow> scan_each e d f ph want flows)
   }"

section \<open>The sequence\<close>

definition engage_step :: "kill_env \<Rightarrow> string \<Rightarrow> string \<Rightarrow> bool kprog" where
  "engage_step e who reason = State (\<lambda>s.
     let (r, row, m) = Engage (kv_lib e) (kv_written e) (kv_readable e) (kv_clock e [0]) who reason (kw_row s) (kw_mem s);
         s = s\<lparr>kw_row := row, kw_mem := m, kw_fx := kw_fx s @ [KxEngage who reason]\<rparr>
     in case r of None \<Rightarrow> (False, s)
        | Some changed \<Rightarrow> (True, s\<lparr>kw_sum := (kw_sum s)\<lparr>su_engaged := True, su_already := \<not> changed\<rparr>\<rparr>))"

definition read_flag :: "kill_env \<Rightarrow> unit kprog" where
  "read_flag e = State (\<lambda>s.
     if su_engaged (kw_sum s) then ((), s)
     else let (b, m) = Killed (kv_lib e) DefaultRefresh (kv_readable e) (kv_clock e [0, 1]) (kw_row s) (kw_mem s)
          in ((), s\<lparr>kw_mem := m, kw_sum := (kw_sum s)\<lparr>su_engaged := b\<rparr>\<rparr>))"

definition dropQueue :: "kill_env \<Rightarrow> unit kprog" where
  "dropQueue e = (if kv_queue e then calls KxQueue else yields ())"

definition counted :: "kfx \<Rightarrow> (nat \<Rightarrow> stop_summary \<Rightarrow> stop_summary) \<Rightarrow> string \<Rightarrow> (nat \<times> bool) option \<Rightarrow> unit kprog" where
  "counted x f step answer =
     (case answer of
        None \<Rightarrow> yields ()
      | Some (n, ok) \<Rightarrow> guard_step step (do { calls x; edit (f n); yields ok }))"

text \<open>Steps one to four.\<close>

definition stop_acting :: "kill_env \<Rightarrow> string \<Rightarrow> string \<Rightarrow> (string \<times> string) list kprog" where
  "stop_acting e who reason = do {
     (if kv_flag e then do { guard_step ''kill flag'' (engage_step e who reason); read_flag e } else yields ());
     counted KxTurns (\<lambda>n m. m\<lparr>su_turns := n\<rparr>) ''turns'' (map_option (\<lambda>n. (n, True)) (kv_turns e));
     dropQueue e;
     stopping \<leftarrow> (if kv_flows e then do {
         (stopping, ok) \<leftarrow> cancelFlows e;
         (if ok then yields () else fail ''workflows'');
         yields stopping
       } else yields []);
     counted KxMandates (\<lambda>n m. m\<lparr>su_mandates := n\<rparr>) ''mandates'' (kv_mandates e);
     counted KxProposals (\<lambda>n m. m\<lparr>su_proposals := n\<rparr>) ''proposals'' (kv_proposals e);
     yields stopping
   }"

text \<open>Step five: what was mid-step is looked at once it has stopped, and named where it has not.\<close>

definition withdraw_orders :: "kill_env \<Rightarrow> desk \<Rightarrow> (wf_row \<Rightarrow> step_row list \<Rightarrow> unit + flow_orders \<times> string) \<Rightarrow> (string \<times> string) list \<Rightarrow> unit kprog" where
  "withdraw_orders e d f stopping = do {
     late \<leftarrow> settle e 4 stopping (orDefault (kv_settle_wait e) DefaultSettleWait);
     State (\<lambda>s. ((), s\<lparr>kw_budget := maxOrders e\<rparr>));
     guard_step ''orders'' (scanOrders e d f 5 (\<lambda>wid. wid \<notin> set (map fst late)));
     if late = [] then yields ()
     else do {
       still \<leftarrow> settle e 6 late (orDefault (kv_late_wait e) DefaultLateWait);
       guard_step ''orders (late)'' (scanOrders e d f 7 (\<lambda>wid. wid \<in> set (map fst late) \<and> wid \<notin> set (map fst still)));
       if still = [] then yields () else fail ''workflow(s) were still mid-step''
     }
   }"

definition execute :: "kill_env \<Rightarrow> string \<Rightarrow> string \<Rightarrow> unit kprog" where
  "execute e who reason = do {
     stopping \<leftarrow> stop_acting e who reason;
     (case (kv_flows e, kv_desk e, kv_orders e) of
        (True, Some d, Some f) \<Rightarrow> withdraw_orders e d f stopping
      | _ \<Rightarrow> yields ())
   }"

section \<open>The reply\<close>

text \<open>A reply that goes out before the end promises a second message, and the end then sends it.\<close>

definition detach :: "stop_summary kprog" where
  "detach = State (\<lambda>s. let s = (if kw_finished s then s else s\<lparr>kw_detached := True, kw_sum := (kw_sum s)\<lparr>su_pending := True\<rparr>\<rparr>)
     in (kw_sum s, s))"

definition finish_stop :: "unit kprog" where
  "finish_stop = State (\<lambda>s. let s = s\<lparr>kw_finished := True\<rparr> in
     ((), if \<not> kw_detached s then s
          else let m = (kw_sum s)\<lparr>su_pending := False\<rparr> in s\<lparr>kw_sum := m, kw_fx := kw_fx s @ [KxFollowup m]\<rparr>))"

text \<open>A \<open>/stop\<close> while another runs sets the flag and cancels the turns again, with a summary of its own.\<close>

definition busy :: "kill_env \<Rightarrow> string \<Rightarrow> string \<Rightarrow> stop_summary kprog" where
  "busy e who reason = do {
     other \<leftarrow> State (\<lambda>s. (kw_sum s, s\<lparr>kw_sum := empty_summary\<rparr>));
     (if kv_flag e then do { _ \<leftarrow> engage_step e who reason; read_flag e } else yields ());
     counted KxTurns (\<lambda>n m. m\<lparr>su_turns := n\<rparr>) ''turns'' (map_option (\<lambda>n. (n, True)) (kv_turns e));
     dropQueue e;
     State (\<lambda>s. ((kw_sum s)\<lparr>su_busy := True, su_already := False\<rparr>, s\<lparr>kw_sum := other\<rparr>))
   }"

end
