(* ===== verification/KillSafety.thy ===== *)
theory KillSafety
  imports KillSwitch "HOL-Library.Sublist"
begin

text \<open>
  What the properties of \<open>/stop\<close> rest on: what a call may be, what a program spends and in which order it calls, what a
  scan names, and how long it waits. Each is a relation of states or of traces that passes through sequencing.
\<close>

section \<open>What a call may be\<close>

text \<open>A call within the calls made so far: a cancelled workflow was neither protective nor settling by what was read of it;
  an order is looked at only where it is neither over nor an exit, and withdrawn only after a look that found it
  open.\<close>

fun call_ok :: "kfx list \<Rightarrow> kfx \<Rightarrow> bool" where
  "call_ok new (KxFlow w r) =
     (\<not> w_protective w \<and> (case r of Inl _ \<Rightarrow> True | Inr (fo, _) \<Rightarrow> \<not> fw_protect fo \<and> \<not> fw_settle fo))"
| "call_ok new (KxLookup ref st) = (\<not> fo_done ref \<and> \<not> fo_exit ref)"
| "call_ok new (KxWithdraw ref i) =
     (\<not> fo_done ref \<and> \<not> fo_exit ref \<and> (\<exists>st. KxLookup ref (Inr st) \<in> set new \<and> st_found st \<and> st_open st \<and> st_id st = i))"
| "call_ok new _ = True"

lemma call_ok_mono: "call_ok new x \<Longrightarrow> set new \<subseteq> set newer \<Longrightarrow> call_ok newer x"
  by (cases x) auto

definition added :: "ksw \<Rightarrow> ksw \<Rightarrow> kfx list \<Rightarrow> bool" where
  "added s t new \<longleftrightarrow> kw_fx t = kw_fx s @ new"

definition careful :: "ksw \<Rightarrow> ksw \<Rightarrow> bool" where
  "careful s t \<longleftrightarrow> (\<exists>new. added s t new \<and> (\<forall>x \<in> set new. call_ok new x))"

lemma careful_trans: "careful s t \<Longrightarrow> careful t u \<Longrightarrow> careful s u"
proof -
  assume "careful s t" "careful t u"
  then obtain a b where "added s t a" "added t u b" and ab: "\<forall>x \<in> set a. call_ok a x" "\<forall>x \<in> set b. call_ok b x"
    by (auto simp: careful_def)
  then have "added s u (a @ b)" by (simp add: added_def)
  moreover have "\<forall>x \<in> set (a @ b). call_ok (a @ b) x" using ab call_ok_mono by fastforce
  ultimately show ?thesis unfolding careful_def by blast
qed

interpretation care: effects careful
proof
  show "careful s s" for s by (auto simp: careful_def added_def intro: exI [of _ "[]"])
qed (rule careful_trans)

named_theorems caring \<open>programs whose calls are all in order\<close>

lemmas care_basic [caring] = care.rel_rules

lemma careful_same: "kw_fx t = kw_fx s \<Longrightarrow> careful s t"
  by (auto simp: careful_def added_def)

lemma careful_one: "kw_fx t = kw_fx s @ [x] \<Longrightarrow> call_ok [x] x \<Longrightarrow> careful s t"
  by (auto simp: careful_def added_def)

lemma care_edit [caring]: "care.bounded_by (edit f)"
  unfolding edit_def by (rule care.rel_State) (simp add: careful_same)

lemma care_calls: "call_ok [x] x \<Longrightarrow> care.bounded_by (calls x)"
  unfolding calls_def by (rule care.rel_State) (simp add: careful_one)

lemma care_journal [caring]: "care.bounded_by (jread e p f)" "care.bounded_by (jcancel e p wid)"
  unfolding jread_def jcancel_def by (rule care.rel_State; simp add: careful_same Let_def)+

lemma care_fail [caring]: "care.bounded_by (fail step)"
  unfolding fail_def by (rule care_edit)

lemma care_guard [caring]: "care.bounded_by m \<Longrightarrow> care.bounded_by (guard_step step m)"
  unfolding guard_step_def by (auto intro!: caring)

lemma care_reads [caring]: "care.bounded_by (read_steps e p wid)" "care.bounded_by (flow_orders_of e p w)" "care.bounded_by (running_now e p wid)"
  unfolding read_steps_def flow_orders_of_def running_now_def by (auto intro!: caring split: option.split)

lemma care_cancel_flow [caring]: "care.bounded_by (cancel_flow e k w)"
  unfolding cancel_flow_def by (auto simp: no_orders_def intro!: caring care_calls split: sum.split prod.split)

lemma care_cancel_each [caring]: "care.bounded_by (cancel_each e k ws)"
  by (induction ws arbitrary: k) (auto intro!: caring split: prod.split)

lemma care_cancelFlows [caring]: "care.bounded_by (cancelFlows e)"
  unfolding cancelFlows_def by (auto intro!: caring split: sum.split)

lemma care_round [caring]: "care.bounded_by (settle_round e p es)"
  by (induction e p es rule: settle_round.induct) (auto intro!: caring)

lemma care_loop [caring]: "care.bounded_by (settle_loop fuel n e ph deadline es)"
  by (induction fuel arbitrary: n es) (auto intro!: caring)

lemma care_settle [caring]: "care.bounded_by (settle e ph es d)"
  unfolding settle_def by (auto intro!: caring)

lemma care_budget [caring]: "care.bounded_by budget_left" "care.bounded_by spend" "care.bounded_by (may_exist label)"
  unfolding budget_left_def spend_def may_exist_def by (rule care.rel_State care_edit; simp add: careful_same)+

text \<open>One order, run in full: its calls are at most a look and the withdrawal that follows it.\<close>

lemma run_edit [simp]: "run_state (edit f) s = ((), s\<lparr>kw_sum := f (kw_sum s)\<rparr>)"
  by (simp add: edit_def)

lemma run_calls [simp]: "run_state (calls x) s = ((), s\<lparr>kw_fx := kw_fx s @ [x]\<rparr>)"
  by (simp add: calls_def)

lemma examine_calls:
  assumes "run_state (examine_order d ref) s = ((), t)"
  shows "added s t [KxLookup ref (ds_lookup d ref (kw_budget s))] \<or>
    (\<exists>st. ds_lookup d ref (kw_budget s) = Inr st \<and> st_found st \<and> st_open st \<and>
      added s t [KxLookup ref (Inr st), KxWithdraw ref (st_id st)])"
    "kw_budget t = kw_budget s - 1"
proof -
  have "(added s t [KxLookup ref (ds_lookup d ref (kw_budget s))] \<or>
    (\<exists>st. ds_lookup d ref (kw_budget s) = Inr st \<and> st_found st \<and> st_open st \<and>
      added s t [KxLookup ref (Inr st), KxWithdraw ref (st_id st)])) \<and> kw_budget t = kw_budget s - 1"
    using assms unfolding examine_order_def may_exist_def spend_def
    by (cases "ds_lookup d ref (kw_budget s)") (auto simp: added_def split: if_split_asm)
  then show "added s t [KxLookup ref (ds_lookup d ref (kw_budget s))] \<or>
    (\<exists>st. ds_lookup d ref (kw_budget s) = Inr st \<and> st_found st \<and> st_open st \<and>
      added s t [KxLookup ref (Inr st), KxWithdraw ref (st_id st)])"
    "kw_budget t = kw_budget s - 1" by blast+
qed

lemma care_examine: "\<not> fo_done ref \<Longrightarrow> \<not> fo_exit ref \<Longrightarrow> care.bounded_by (examine_order d ref)"
  unfolding care.bounded_by_def
proof
  fix s assume r: "\<not> fo_done ref" "\<not> fo_exit ref"
  obtain t where t: "run_state (examine_order d ref) s = ((), t)" by (cases "run_state (examine_order d ref) s") auto
  show "careful s (snd (run_state (examine_order d ref) s))"
    using examine_calls(1) [OF t] r unfolding t snd_conv careful_def by fastforce
qed

lemma care_handle [caring]: "care.bounded_by (handleOrder d ref)"
  unfolding handleOrder_def by (auto intro!: caring care_examine)

lemma care_handle_all [caring]: "care.bounded_by (handle_all d refs)"
  by (induction refs) (auto intro!: caring)

lemma care_scan_flow [caring]: "care.bounded_by (scan_flow e d f p want w)"
  unfolding scan_flow_def by (auto intro!: caring split: sum.split prod.split)

lemma care_scan_each [caring]: "care.bounded_by (scan_each e d f ph want ws)"
  by (induction ws) (auto intro!: caring)

lemma care_scan [caring]: "care.bounded_by (scanOrders e d f ph want)"
  unfolding scanOrders_def by (auto intro!: caring split: sum.split)

lemma care_flag [caring]: "care.bounded_by (engage_step e who reason)" "care.bounded_by (read_flag e)"
proof -
  show "care.bounded_by (engage_step e who reason)" unfolding engage_step_def
    by (rule care.rel_State) (auto simp: Let_def split_beta intro!: careful_one [where x = "KxEngage who reason"] split: option.split)
  show "care.bounded_by (read_flag e)" unfolding read_flag_def
    by (rule care.rel_State) (auto simp: Let_def split_beta intro!: careful_same)
qed

lemma care_counted [caring]: "call_ok [x] x \<Longrightarrow> care.bounded_by (counted x f step answer)"
  unfolding counted_def by (auto intro!: caring care_calls split: option.split)

lemma care_queue [caring]: "care.bounded_by (dropQueue e)"
  unfolding dropQueue_def by (auto intro!: caring care_calls)

lemma care_stop [caring]: "care.bounded_by (stop_acting e who reason)"
  unfolding stop_acting_def by (auto intro!: caring split: prod.split)

lemma care_withdraw [caring]: "care.bounded_by (withdraw_orders e d f stopping)"
  unfolding withdraw_orders_def by (auto intro!: caring care.rel_State simp: careful_same)

lemma care_execute: "care.bounded_by (execute e who reason)"
  unfolding execute_def by (auto intro!: caring split: option.split bool.split)

section \<open>What a program spends\<close>

fun is_lookup :: "kfx \<Rightarrow> bool" where
  "is_lookup (KxLookup _ _) = True"
| "is_lookup _ = False"

fun is_order_call :: "kfx \<Rightarrow> bool" where
  "is_order_call (KxLookup _ _) = True"
| "is_order_call (KxWithdraw _ _) = True"
| "is_order_call _ = False"

fun is_flow_call :: "kfx \<Rightarrow> bool" where
  "is_flow_call (KxFlow _ _) = True"
| "is_flow_call _ = False"

lemma flow_no_look: "is_flow_call x \<Longrightarrow> \<not> is_lookup x"
  by (cases x) auto

definition looks :: "kfx list \<Rightarrow> int" where
  "looks new = int (length (filter is_lookup new))"

text \<open>Only calls of a kind, each look paid from the budget, the row of the flag left alone.\<close>

definition spends :: "(kfx \<Rightarrow> bool) \<Rightarrow> ksw \<Rightarrow> ksw \<Rightarrow> bool" where
  "spends P s t \<longleftrightarrow> kw_row t = kw_row s \<and>
     (\<exists>new. added s t new \<and> list_all P new \<and> kw_budget t + looks new = kw_budget s \<and> (0 \<le> kw_budget s \<longrightarrow> 0 \<le> kw_budget t))"

lemma spends_trans: "spends P s t \<Longrightarrow> spends P t u \<Longrightarrow> spends P s u"
proof -
  assume "spends P s t" "spends P t u"
  then obtain a b where "added s t a" "added t u b" "list_all P (a @ b)" "kw_budget t + looks a = kw_budget s"
    "kw_budget u + looks b = kw_budget t" "0 \<le> kw_budget s \<longrightarrow> 0 \<le> kw_budget u" "kw_row u = kw_row s"
    by (auto simp: spends_def)
  then show ?thesis by (auto simp: spends_def added_def looks_def intro!: exI [of _ "a @ b"])
qed

interpretation spend: effects "spends P" for P
proof
  show "spends P s s" for s by (auto simp: spends_def added_def looks_def intro: exI [of _ "[]"])
qed (rule spends_trans)

named_theorems spending \<open>programs that make only calls of a kind and pay for their looks\<close>

lemmas spend_basic [spending] = spend.rel_rules

lemma spends_same: "kw_fx t = kw_fx s \<Longrightarrow> kw_row t = kw_row s \<Longrightarrow> kw_budget t = kw_budget s \<Longrightarrow> spends P s t"
  by (auto simp: spends_def added_def looks_def)

lemma spend_edit [spending]: "spend.bounded_by P (edit f)"
  unfolding edit_def by (rule spend.rel_State) (simp add: spends_same)

lemma spend_calls: "P x \<Longrightarrow> \<not> is_lookup x \<Longrightarrow> spend.bounded_by P (calls x)"
  unfolding calls_def by (rule spend.rel_State) (auto simp: spends_def added_def looks_def)

lemma spend_journal [spending]: "spend.bounded_by P (jread e p f)" "spend.bounded_by P (jcancel e p wid)" "spend.bounded_by P (fail step)"
  "spend.bounded_by P (may_exist label)" "spend.bounded_by P budget_left"
  unfolding jread_def jcancel_def fail_def may_exist_def budget_left_def
  by (rule spend.rel_State spend_edit; simp add: spends_same Let_def)+

lemma spend_guard [spending]: "spend.bounded_by P m \<Longrightarrow> spend.bounded_by P (guard_step step m)"
  unfolding guard_step_def by (auto intro!: spending)

lemma spend_reads [spending]: "spend.bounded_by P (read_steps e p wid)" "spend.bounded_by P (flow_orders_of e p w)"
  "spend.bounded_by P (running_now e p wid)"
  unfolding read_steps_def flow_orders_of_def running_now_def by (auto intro!: spending split: option.split)

lemma spend_round [spending]: "spend.bounded_by P (settle_round e p es)"
  by (induction e p es rule: settle_round.induct) (auto intro!: spending)

lemma spend_loop [spending]: "spend.bounded_by P (settle_loop fuel n e ph deadline es)"
  by (induction fuel arbitrary: n es) (auto intro!: spending)

lemma spend_settle [spending]: "spend.bounded_by P (settle e ph es d)"
  unfolding settle_def by (auto intro!: spending)

lemma spend_cancel_flow [spending]: "spend.bounded_by is_flow_call (cancel_flow e k w)"
  unfolding cancel_flow_def by (auto intro!: spending spend_calls split: sum.split prod.split)

lemma spend_cancel_each [spending]: "spend.bounded_by is_flow_call (cancel_each e k ws)"
  by (induction ws arbitrary: k) (auto intro!: spending split: prod.split)

lemma spend_cancelFlows [spending]: "spend.bounded_by is_flow_call (cancelFlows e)"
  unfolding cancelFlows_def by (auto intro!: spending split: sum.split)

lemma run_budget [simp]: "run_state budget_left s = (kw_budget s, s)"
  by (simp add: budget_left_def)

lemma examine_row: "run_state (examine_order d ref) s = ((), t) \<Longrightarrow> kw_row t = kw_row s"
  unfolding examine_order_def may_exist_def spend_def
  by (cases "ds_lookup d ref (kw_budget s)") (auto split: if_split_asm)

lemma spends_examine:
  assumes "run_state (examine_order d ref) s = ((), t)" "0 < kw_budget s"
  shows "spends is_order_call s t"
  using examine_calls [OF assms(1)] examine_row [OF assms(1)] assms(2) by (auto simp: spends_def looks_def)

lemma spend_handle [spending]: "spend.bounded_by is_order_call (handleOrder d ref)"
  unfolding spend.bounded_by_def
proof
  fix s
  obtain t where t: "run_state (examine_order d ref) s = ((), t)" by (cases "run_state (examine_order d ref) s") auto
  show "spends is_order_call s (snd (run_state (handleOrder d ref) s))"
    using spends_examine [OF t] t by (simp add: handleOrder_def may_exist_def spends_same spend.refl)
qed

lemma spend_handle_all [spending]: "spend.bounded_by is_order_call (handle_all d refs)"
  by (induction refs) (auto intro!: spending)

lemma spend_scan_flow [spending]: "spend.bounded_by is_order_call (scan_flow e d f p want w)"
  unfolding scan_flow_def by (auto intro!: spending split: sum.split prod.split)

lemma spend_scan_each [spending]: "spend.bounded_by is_order_call (scan_each e d f ph want ws)"
  by (induction ws) (auto intro!: spending)

lemma spend_scan [spending]: "spend.bounded_by is_order_call (scanOrders e d f ph want)"
  unfolding scanOrders_def by (auto intro!: spending split: sum.split)

section \<open>The trace of the sequence\<close>

text \<open>A program that, from any state, adds a list of calls with a property and keeps the row of the flag.\<close>

definition traces :: "(kfx list \<Rightarrow> bool) \<Rightarrow> 'a kprog \<Rightarrow> bool" where
  "traces T m \<longleftrightarrow> (\<forall>s. kw_row (snd (run_state m s)) = kw_row s \<and> (\<exists>new. added s (snd (run_state m s)) new \<and> T new))"

lemma traces_bind:
  assumes "traces T m" "\<And>x. traces U (k x)"
  shows "traces (\<lambda>n. \<exists>a b. n = a @ b \<and> T a \<and> U b) (m \<bind> k)"
  unfolding traces_def
proof
  fix s
  obtain x t where m: "run_state m s = (x, t)" by fastforce
  obtain u where k: "u = snd (run_state (k x) t)" by simp
  obtain a where a: "kw_row t = kw_row s" "added s t a" "T a" using assms(1) m unfolding traces_def by (metis snd_conv)
  obtain b where b: "kw_row u = kw_row t" "added t u b" "U b" using assms(2) unfolding traces_def k by blast
  show "kw_row (snd (run_state (m \<bind> k) s)) = kw_row s \<and>
    (\<exists>new. added s (snd (run_state (m \<bind> k) s)) new \<and> (\<exists>a b. new = a @ b \<and> T a \<and> U b))"
    using a b by (auto simp: m k [symmetric] added_def)
qed

lemma traces_mono: "traces T m \<Longrightarrow> (\<And>n. T n \<Longrightarrow> U n) \<Longrightarrow> traces U m"
  unfolding traces_def by blast

lemma spends_traces: "spend.bounded_by P m \<Longrightarrow> traces (list_all P) m"
  unfolding traces_def spend.bounded_by_def spends_def by blast

lemma quiet_traces: "spend.bounded_by (\<lambda>x. False) m \<Longrightarrow> traces (\<lambda>n. n = []) m"
  using spends_traces [of "\<lambda>x. False" m] by (rule traces_mono) (simp_all add: list_all_iff)

lemma traces_calls: "traces (\<lambda>n. n = [x]) (calls x)"
  by (simp add: traces_def added_def)

lemma traces_yields: "traces (\<lambda>n. n = []) (yields v)"
  by (simp add: traces_def added_def)

definition if_wired :: "'b option \<Rightarrow> 'a \<Rightarrow> 'a list" where
  "if_wired w x = (if w = None then [] else [x])"

lemma traces_guard: "traces T m \<Longrightarrow> traces T (guard_step step m)"
proof -
  assume m: "traces T m"
  have "traces (\<lambda>n. n = []) (if ok then yields () else fail step)" for ok by (rule quiet_traces) (auto intro!: spending)
  then show ?thesis unfolding guard_step_def by (rule traces_mono [OF traces_bind [OF m]]) auto
qed

lemma traces_counted: "traces (\<lambda>n. n = if_wired answer x) (counted x f step answer)"
proof (cases answer)
  case (Some a)
  obtain c ok where a: "a = (c, ok)" by (cases a)
  have "traces (\<lambda>n. n = []) (edit (f c) \<bind> (\<lambda>_. yields ok))" by (rule quiet_traces) (auto intro!: spending)
  then have "traces (\<lambda>n. n = [x]) (do { calls x; edit (f c); yields ok })"
    by (rule traces_mono [OF traces_bind [OF traces_calls]]) auto
  then have "traces (\<lambda>n. n = [x]) (guard_step step (do { calls x; edit (f c); yields ok }))" by (rule traces_guard)
  then show ?thesis by (simp add: counted_def Some a if_wired_def)
qed (simp add: counted_def traces_yields if_wired_def)

definition looks_within :: "int \<Rightarrow> kfx list \<Rightarrow> bool" where
  "looks_within n new \<longleftrightarrow> list_all is_order_call new \<and> looks new \<le> n"

lemma looks_append: "looks (a @ b) = looks a + looks b"
  by (simp add: looks_def)

text \<open>The two scans share one budget, which is set before the first.\<close>

lemma spend_scans: "spend.bounded_by is_order_call (do {
     guard_step ''orders'' (scanOrders e d f 5 want);
     if late = [] then yields ()
     else do {
       still \<leftarrow> settle e 6 late w;
       guard_step ''orders (late)'' (scanOrders e d f 7 (wanted still));
       if still = [] then yields () else fail ''workflow(s) were still mid-step''
     }
   })"
  by (auto intro!: spending)

lemma traces_budget:
  assumes m: "spend.bounded_by is_order_call m" and n: "0 \<le> n"
  shows "traces (looks_within n) (State (\<lambda>s. ((), s\<lparr>kw_budget := n\<rparr>)) \<bind> (\<lambda>_. m))"
  unfolding traces_def
proof
  fix s :: ksw
  let ?s = "s\<lparr>kw_budget := n\<rparr>" let ?t = "snd (run_state m ?s)"
  have "spends is_order_call ?s ?t" using m unfolding spend.bounded_by_def by blast
  then show "kw_row (snd (run_state (State (\<lambda>s. ((), s\<lparr>kw_budget := n\<rparr>)) \<bind> (\<lambda>_. m)) s)) = kw_row s \<and>
    (\<exists>new. added s (snd (run_state (State (\<lambda>s. ((), s\<lparr>kw_budget := n\<rparr>)) \<bind> (\<lambda>_. m)) s)) new \<and> looks_within n new)"
    using n by (auto simp: spends_def added_def looks_within_def)
qed

lemma maxOrders_pos: "0 < maxOrders e"
  by (simp add: maxOrders_def DefaultMaxOrders_def)

lemma traces_withdraw: "traces (looks_within (maxOrders e)) (withdraw_orders e d f stopping)"
proof -
  have settled: "traces (\<lambda>n. n = []) (settle e 4 stopping w)" for w by (rule quiet_traces) (rule spending)
  show ?thesis unfolding withdraw_orders_def
    by (rule traces_mono [OF traces_bind [OF settled traces_budget [OF spend_scans]]]) (use maxOrders_pos [of e] in auto)
qed

text \<open>What follows the flag, in its order.\<close>

lemma traces_if: "(c \<Longrightarrow> traces T m) \<Longrightarrow> (\<not> c \<Longrightarrow> traces T m') \<Longrightarrow> traces T (if c then m else m')"
  by simp

lemma traces_queue: "traces (\<lambda>n. n = (if kv_queue e then [KxQueue] else [])) (dropQueue e)"
  by (simp add: dropQueue_def traces_calls traces_yields)

lemma traces_flows: "traces (list_all is_flow_call) (if kv_flows e then do {
    (stopping, ok) \<leftarrow> cancelFlows e;
    (if ok then yields () else fail ''workflows'');
    yields stopping
  } else yields [])"
  by (rule spends_traces) (auto intro!: spending split: prod.split)

definition orders_step :: "kill_env \<Rightarrow> (string \<times> string) list \<Rightarrow> unit kprog" where
  "orders_step e stopping =
     (case (kv_flows e, kv_desk e, kv_orders e) of
        (True, Some d, Some f) \<Rightarrow> withdraw_orders e d f stopping
      | _ \<Rightarrow> yields ())"

lemma traces_orders: "traces (looks_within (maxOrders e)) (orders_step e stopping)"
proof -
  have "traces (looks_within (maxOrders e)) (yields ())"
    by (rule traces_mono [OF traces_yields]) (use maxOrders_pos [of e] in \<open>simp add: looks_within_def looks_def\<close>)
  then show ?thesis unfolding orders_step_def by (auto intro: traces_withdraw split: option.split bool.split)
qed

definition after_flag :: "kill_env \<Rightarrow> unit kprog" where
  "after_flag e = do {
     counted KxTurns (\<lambda>n m. m\<lparr>su_turns := n\<rparr>) ''turns'' (map_option (\<lambda>n. (n, True)) (kv_turns e));
     dropQueue e;
     stopping \<leftarrow> (if kv_flows e then do {
         (stopping, ok) \<leftarrow> cancelFlows e;
         (if ok then yields () else fail ''workflows'');
         yields stopping
       } else yields []);
     counted KxMandates (\<lambda>n m. m\<lparr>su_mandates := n\<rparr>) ''mandates'' (kv_mandates e);
     counted KxProposals (\<lambda>n m. m\<lparr>su_proposals := n\<rparr>) ''proposals'' (kv_proposals e);
     orders_step e stopping
   }"

definition sequence :: "kill_env \<Rightarrow> kfx list \<Rightarrow> kfx list \<Rightarrow> kfx list" where
  "sequence e flows orders = if_wired (kv_turns e) KxTurns @ (if kv_queue e then [KxQueue] else []) @ flows @
     if_wired (kv_mandates e) KxMandates @ if_wired (kv_proposals e) KxProposals @ orders"

lemma traces_after: "traces (\<lambda>n. \<exists>flows orders. n = sequence e flows orders \<and> list_all is_flow_call flows \<and>
    looks_within (maxOrders e) orders) (after_flag e)"
  unfolding after_flag_def
  by (rule traces_mono [OF traces_bind [OF traces_counted traces_bind [OF traces_queue traces_bind [OF traces_flows
        traces_bind [OF traces_counted traces_bind [OF traces_counted traces_orders]]]]]])
     (auto simp: sequence_def if_wired_def split: if_splits)

lemma execute_parts:
  "execute e who reason = do {
     (if kv_flag e then do { guard_step ''kill flag'' (engage_step e who reason); read_flag e } else yields ());
     after_flag e
   }"
  by (simp add: execute_def stop_acting_def after_flag_def orders_step_def)

text \<open>The first step: the row of the flag where the statement succeeds.\<close>

definition flag_calls :: "kill_env \<Rightarrow> string \<Rightarrow> string \<Rightarrow> kfx list" where
  "flag_calls e who reason = (if kv_flag e then [KxEngage who reason] else [])"

definition row_after :: "kill_env \<Rightarrow> string \<Rightarrow> string \<Rightarrow> string option \<Rightarrow> string option" where
  "row_after e who reason row = (if kv_flag e \<and> kv_written e
     then fst (engage_row (kv_lib e) \<lparr>ki_at = unix_ms (kv_clock e [0]), ki_by = who, ki_reason = reason\<rparr> row) else row)"

lemma flag_first:
  assumes "run_state (if kv_flag e then do { guard_step ''kill flag'' (engage_step e who reason); read_flag e } else yields ()) s = ((), t)"
  shows "added s t (flag_calls e who reason)" "kw_row t = row_after e who reason (kw_row s)"
  using assms
  by (auto simp: flag_calls_def row_after_def added_def guard_step_def engage_step_def read_flag_def fail_def Engage_def
      split_beta Let_def split: if_splits option.splits)

lemma unit_run: "\<exists>u. run_state (m :: unit kprog) s = ((), u)"
  by (cases "run_state m s") auto

theorem execute_trace:
  assumes "run_state (execute e who reason) s = ((), t)"
  obtains flows orders where "kw_fx t = kw_fx s @ flag_calls e who reason @ sequence e flows orders"
    "list_all is_flow_call flows" "looks_within (maxOrders e) orders" "kw_row t = row_after e who reason (kw_row s)"
proof -
  obtain u where u: "run_state (if kv_flag e then do { guard_step ''kill flag'' (engage_step e who reason); read_flag e } else yields ()) s = ((), u)"
    using unit_run by blast
  have t: "t = snd (run_state (after_flag e) u)" using assms u by (simp add: execute_parts)
  have "traces (\<lambda>n. \<exists>flows orders. n = sequence e flows orders \<and> list_all is_flow_call flows \<and>
    looks_within (maxOrders e) orders) (after_flag e)" by (rule traces_after)
  then obtain flows orders where "added u t (sequence e flows orders)" "list_all is_flow_call flows"
    "looks_within (maxOrders e) orders" "kw_row t = kw_row u" unfolding traces_def t by blast
  then show thesis using that flag_first [OF u] by (auto simp: added_def)
qed

section \<open>What the summary names\<close>

definition named :: "ksw \<Rightarrow> string list" where
  "named s = (let m = kw_sum s in su_orders_cancelled m @ su_orders_closed m @ su_exits_left m @ su_may_exist m)"

definition names_order :: "ksw \<Rightarrow> order_ref \<Rightarrow> bool" where
  "names_order s ref = list_ex (prefix (orderLabel ref)) (named s)"

definition keeps_names :: "ksw \<Rightarrow> ksw \<Rightarrow> bool" where
  "keeps_names s t \<longleftrightarrow> set (named s) \<subseteq> set (named t)"

lemma names_kept: "keeps_names s t \<Longrightarrow> names_order s ref \<Longrightarrow> names_order t ref"
  by (auto simp: keeps_names_def names_order_def list_ex_iff)

interpretation naming: effects keeps_names
  by unfold_locales (auto simp: keeps_names_def)

lemma keeps_same: "kw_sum t = kw_sum s \<Longrightarrow> keeps_names s t"
  by (simp add: keeps_names_def named_def)

lemma examine_names:
  assumes "run_state (examine_order d ref) s = ((), t)"
  shows "keeps_names s t \<and> names_order t ref"
  using assms unfolding examine_order_def may_exist_def spend_def
  by (cases "ds_lookup d ref (kw_budget s)") (auto simp: keeps_names_def names_order_def named_def Let_def split: if_split_asm)

lemma handle_names:
  assumes "run_state (handleOrder d ref) s = ((), t)"
  shows "keeps_names s t \<and> (fo_done ref \<or> names_order t ref)"
  using assms examine_names [of d ref s t]
  by (auto simp: handleOrder_def may_exist_def keeps_names_def names_order_def named_def Let_def split: if_split_asm)

lemma handle_all_names:
  assumes "run_state (handle_all d refs) s = ((), t)"
  shows "keeps_names s t \<and> (\<forall>ref \<in> set refs. fo_done ref \<or> names_order t ref)"
  using assms
proof (induction refs arbitrary: s t)
  case (Cons r rs)
  obtain u where u: "run_state (handleOrder d r) s = ((), u)" using unit_run by blast
  have t: "run_state (handle_all d rs) u = ((), t)" using Cons.prems u by simp
  show ?case using handle_names [OF u] Cons.IH [OF t] names_kept naming.trans by (metis set_ConsD)
qed (simp add: naming.refl)

text \<open>Every order that the record of the workflow has open is named.\<close>

definition accounted :: "(wf_row \<Rightarrow> step_row list \<Rightarrow> unit + flow_orders \<times> string) \<Rightarrow> wf_row \<Rightarrow> ksw \<Rightarrow> bool" where
  "accounted f w t \<longleftrightarrow> (\<exists>j fo note. f w (loadSteps (w_id w) j) = Inr (fo, note) \<and>
     (\<forall>ref \<in> set (fw_orders fo). fo_done ref \<or> names_order t ref))"

lemma accounted_kept: "keeps_names t u \<Longrightarrow> accounted f w t \<Longrightarrow> accounted f w u"
  unfolding accounted_def using names_kept by blast

lemma run_read_steps:
  assumes "run_state (read_steps e p wid) s = (r, t)"
  shows "kw_sum t = kw_sum s" "r = Inr rows \<Longrightarrow> \<exists>j. rows = loadSteps wid j"
  using assms by (auto simp: read_steps_def jread_def Let_def split: if_splits sum.splits)

lemma scan_flow_names:
  assumes "run_state (scan_flow e d f p want w) s = (ok, t)"
  shows "keeps_names s t" "ok \<Longrightarrow> want (w_id w) \<Longrightarrow> \<not> w_protective w \<Longrightarrow> accounted f w t"
proof -
  have "keeps_names s t \<and> (ok \<longrightarrow> want (w_id w) \<longrightarrow> \<not> w_protective w \<longrightarrow> accounted f w t)"
  proof (cases "\<not> want (w_id w) \<or> w_protective w")
    case True then show ?thesis using assms by (auto simp: scan_flow_def naming.refl)
  next
    case act: False
    obtain r u where u: "run_state (read_steps e p (w_id w)) s = (r, u)" by fastforce
    note read = run_read_steps [OF u]
    show ?thesis
    proof (cases r)
      case (Inl x) then show ?thesis using assms act u read(1) by (auto simp: scan_flow_def keeps_same)
    next
      case (Inr rows)
      obtain j where j: "rows = loadSteps (w_id w) j" using read(2) [OF Inr] by blast
      show ?thesis
      proof (cases "f w rows")
        case (Inl x) then show ?thesis using assms act u read(1) Inr by (auto simp: scan_flow_def keeps_same)
      next
        case f: (Inr x)
        obtain fo label where x: "x = (fo, label)" by (cases x)
        obtain v where v: "run_state (handle_all d (fw_orders fo)) u = ((), v)" using unit_run by blast
        have t: "t = v" "ok = True" using assms act u Inr f x v by (auto simp: scan_flow_def)
        have "keeps_names s u" using read(1) by (rule keeps_same)
        then show ?thesis using handle_all_names [OF v] f x j naming.trans unfolding t accounted_def by blast
      qed
    qed
  qed
  then show "keeps_names s t" "ok \<Longrightarrow> want (w_id w) \<Longrightarrow> \<not> w_protective w \<Longrightarrow> accounted f w t" by blast+
qed

lemma scan_each_names:
  assumes "run_state (scan_each e d f ph want ws) s = (ok, t)"
  shows "keeps_names s t \<and> (ok \<longrightarrow> (\<forall>w \<in> set ws. want (w_id w) \<longrightarrow> \<not> w_protective w \<longrightarrow> accounted f w t))"
  using assms
proof (induction ws arbitrary: s ok t)
  case (Cons w ws)
  obtain a u where u: "run_state (scan_flow e d f [ph, Suc (length ws)] want w) s = (a, u)" by fastforce
  obtain b v where v: "run_state (scan_each e d f ph want ws) u = (b, v)" by fastforce
  have t: "t = v" "ok = (a \<and> b)" using Cons.prems u v by auto
  have "keeps_names u v" using Cons.IH [OF v] by blast
  then show ?case unfolding t using scan_flow_names [OF u] Cons.IH [OF v] accounted_kept naming.trans
    by (metis set_ConsD)
qed (simp add: naming.refl)

section \<open>The waiting ends\<close>

lemma settle_loop_returns:
  assumes "\<And>n. start + int n * pollEvery \<le> kv_clock e [ph, n]"
    and "0 < fuel" "d div pollEvery + 2 \<le> int n + int fuel"
  shows "fst (run_state (settle_loop fuel n e ph (start + d) es) s) \<noteq> None"
  using assms(2,3)
proof (induction fuel arbitrary: n es s)
  case (Suc fuel)
  obtain rest u where u: "run_state (settle_round e [ph, n] es) s = (rest, u)" by fastforce
  show ?case
  proof (cases "rest = [] \<or> \<not> kv_clock e [ph, n] < start + d \<or> kv_done e [ph, n]")
    case False
    then have "int n * pollEvery < d" using assms(1) [of n] by simp
    then have "int n \<le> d div pollEvery" by (simp add: pollEvery_def)
    then have "0 < fuel" "d div pollEvery + 2 \<le> int (Suc n) + int fuel" using Suc.prems by auto
    then show ?thesis using Suc.IH [of "Suc n" rest u] u False by simp
  qed (use u in auto)
qed simp

lemma settle_fuel_enough: "0 < settle_fuel d \<and> d div pollEvery + 2 \<le> int 0 + int (settle_fuel d)"
  by (simp add: settle_fuel_def)

section \<open>What a listing leaves out\<close>

lemma newer_come_first:
  assumes "sorted (map f L)" "w \<in> set (take k L)"
  shows "length (filter (\<lambda>v. f v < (f w :: int)) L) < k"
proof -
  obtain i where i: "i < k" "i < length L" "L ! i = w" using assms(2) by (auto simp: in_set_conv_nth)
  have "\<not> f v < f w" if v: "v \<in> set (drop i L)" for v
  proof -
    obtain m where "m < length L - i" "v = L ! (m + i)" using v by (auto simp: in_set_conv_nth add.commute)
    moreover have "m + i < length L" using \<open>m < length L - i\<close> by linarith
    ultimately show ?thesis using sorted_nth_mono [OF assms(1), of i "m + i"] i by auto
  qed
  then have "filter (\<lambda>v. f v < f w) (drop i L) = []" by (auto simp: filter_empty_conv)
  then have "filter (\<lambda>v. f v < f w) L = filter (\<lambda>v. f v < f w) (take i L)"
    by (metis append_Nil2 append_take_drop_id filter_append)
  then have "length (filter (\<lambda>v. f v < f w) L) \<le> i" using length_filter_le [of _ "take i L"] i(2) by (metis length_take min.absorb4)
  then show ?thesis using i(1) by simp
qed

lemma not_listed:
  assumes "maxFlows \<le> length (filter (\<lambda>v. w_created w < w_created v \<and> w_status v \<in> set ActiveStatuses \<and> 0 \<le> w_created v) (wfs db))"
  shows "w \<notin> set (listWorkflows ActiveStatuses None maxFlows db)"
proof
  let ?P = "\<lambda>v. 0 \<le> w_created v \<and> (ActiveStatuses = [] \<or> w_status v \<in> set ActiveStatuses)"
  let ?L = "sort_key (\<lambda>w. - w_created w) (sort_key w_id (filter ?P (wfs db)))"
  assume "w \<in> set (listWorkflows ActiveStatuses None maxFlows db)"
  then have w: "w \<in> set (take maxFlows ?L)"
    by (simp add: listWorkflows_def Let_def maxFlows_def DefaultListLimit_def MaxFlowListLimit_def ActiveStatuses_def)
  have "length (filter (\<lambda>v. - w_created v < - w_created w) ?L) < maxFlows"
    by (rule newer_come_first [OF _ w]) simp
  moreover have "length (filter (\<lambda>v. - w_created v < - w_created w) ?L) =
      length (filter (\<lambda>v. - w_created v < - w_created w) (filter ?P (wfs db)))"
    by (simp only: filter_sort length_sort)
  moreover have "filter (\<lambda>v. - w_created v < - w_created w) (filter ?P (wfs db)) =
      filter (\<lambda>v. w_created w < w_created v \<and> w_status v \<in> set ActiveStatuses \<and> 0 \<le> w_created v) (wfs db)"
    by (auto simp: ActiveStatuses_def intro!: filter_cong)
  ultimately show False using assms by simp
qed

fun cancels_among :: "wf_row list \<Rightarrow> kfx \<Rightarrow> bool" where
  "cancels_among ws (KxFlow w _) = (w \<in> set ws)"
| "cancels_among ws _ = False"

lemma spend_among_flow: "w \<in> set ws \<Longrightarrow> spend.bounded_by (cancels_among ws) (cancel_flow e k w)"
  unfolding cancel_flow_def by (auto intro!: spending spend_calls split: sum.split prod.split)

lemma spend_among: "set vs \<subseteq> set ws \<Longrightarrow> spend.bounded_by (cancels_among ws) (cancel_each e k vs)"
  by (induction vs arbitrary: k) (auto intro!: spending spend_among_flow split: prod.split)

lemma cancelFlows_among:
  assumes "run_state (cancelFlows e) s = (r, t)"
  obtains new where "kw_fx t = kw_fx s @ new" "list_all (cancels_among (listWorkflows ActiveStatuses None maxFlows (kv_gap e [2] (kw_j s)))) new"
proof -
  let ?j = "kv_gap e [2] (kw_j s)" let ?ws = "listWorkflows ActiveStatuses None maxFlows ?j" let ?s = "s\<lparr>kw_j := ?j\<rparr>"
  show thesis
  proof (cases "kv_ok e [2]")
    case True
    then have "t = snd (run_state (cancel_each e 0 ?ws) ?s)" using assms by (simp add: cancelFlows_def jread_def Let_def split: sum.splits)
    moreover have "spends (cancels_among ?ws) ?s (snd (run_state (cancel_each e 0 ?ws) ?s))"
      using spend_among [of ?ws ?ws] unfolding spend.bounded_by_def by blast
    ultimately show ?thesis using that by (auto simp: spends_def added_def)
  next
    case False
    then show ?thesis using assms that [of "[]"] by (auto simp: cancelFlows_def jread_def Let_def)
  qed
qed

end
