(* ===== verification/StopSafety.thy ===== *)
theory StopSafety
  imports KillSafety "HOL-Library.Code_Target_Nat"
begin

text \<open>
  What \<open>/stop\<close> promises: its steps run in their order whatever fails, what must go on is not cancelled, an order that
  reduces risk or is over is never withdrawn, the looks at the exchange are bounded, no order is passed over in
  silence, and the waiting ends. One thing it does not do: reach beyond the newest five hundred workflows.
\<close>

section \<open>Properties\<close>

text \<open>
  C28. Whatever fails on the way, \<open>/stop\<close> makes its calls in one order: first the flag (whose row, where the statement
  can be written, is then not null), then the turns, the queue, the workflows, the mandates and the
  proposals, and the orders at the exchange last.
\<close>

theorem stop_runs_in_order:
  "\<exists>flows orders. let t = snd (run_state (execute e who reason) s) in
     kw_fx t = kw_fx s @ (if kv_flag e then [KxEngage who reason] else []) @ if_wired (kv_turns e) KxTurns @
       (if kv_queue e then [KxQueue] else []) @ flows @ if_wired (kv_mandates e) KxMandates @
       if_wired (kv_proposals e) KxProposals @ orders \<and>
     list_all is_flow_call flows \<and> list_all is_order_call orders \<and> kw_row t = row_after e who reason (kw_row s)"
proof -
  let ?t = "snd (run_state (execute e who reason) s)"
  have "run_state (execute e who reason) s = ((), ?t)" by (simp add: prod_eq_iff)
  then obtain flows orders where "kw_fx ?t = kw_fx s @ flag_calls e who reason @ sequence e flows orders"
    "list_all is_flow_call flows" "looks_within (maxOrders e) orders" "kw_row ?t = row_after e who reason (kw_row s)"
    by (rule execute_trace)
  then show ?thesis by (simp add: Let_def flag_calls_def sequence_def looks_within_def) blast
qed

text \<open>
  C29. A workflow whose cancellation \<open>/stop\<close> requests was neither protective nor settling by what was read of it; an
  order it looks at was neither over nor an exit by its record, and it withdraws an order only after its own look
  found it open at the exchange, under the id that look gave.
\<close>

theorem stop_spares_what_protects:
  "\<exists>new. kw_fx (snd (run_state (execute e who reason) s)) = kw_fx s @ new \<and> list_all (call_ok new) new"
  using care_execute [of e who reason] unfolding care.bounded_by_def careful_def added_def list_all_iff by blast

text \<open>
  One \<open>/stop\<close> looks at no more orders at the exchange than the configured number, over both its scans, the one
  after the short wait and the one after the long.
\<close>

theorem looks_are_bounded:
  "\<exists>new. kw_fx (snd (run_state (execute e who reason) s)) = kw_fx s @ new \<and> int (length (filter is_lookup new)) \<le> maxOrders e"
proof -
  let ?t = "snd (run_state (execute e who reason) s)"
  have "run_state (execute e who reason) s = ((), ?t)" by (simp add: prod_eq_iff)
  then obtain flows orders where t: "kw_fx ?t = kw_fx s @ flag_calls e who reason @ sequence e flows orders"
    "list_all is_flow_call flows" "looks_within (maxOrders e) orders"
    by (rule execute_trace)
  have "filter is_lookup flows = []" using t(2) by (auto simp: filter_empty_conv list_all_iff dest: flow_no_look)
  then have "filter is_lookup (flag_calls e who reason @ sequence e flows orders) = filter is_lookup orders"
    by (simp add: flag_calls_def sequence_def if_wired_def)
  then show ?thesis using t by (simp add: looks_within_def looks_def)
qed


text \<open>
  The waiting for the workflows that are mid-step ends by itself: with a clock that advances by a poll interval in
  each round, the loop is over within the rounds that the wait divided by the interval allows, whatever the
  journal shows.
\<close>

theorem settle_ends:
  assumes "\<And>n. kv_clock e [ph] + int n * pollEvery \<le> kv_clock e [ph, n]"
  shows "\<exists>pending. fst (run_state (settle_loop (settle_fuel d) 0 e ph (kv_clock e [ph] + d) entries) s) = Some pending"
  using settle_loop_returns [OF assms, where fuel = "settle_fuel d" and d = d and n = 0 and es = entries and s = s] settle_fuel_enough [of d]
  by auto

text \<open>
  An active workflow with five hundred active ones newer than it is out of the reach of \<open>/stop\<close>: its
  cancellation is not requested, by any answer the other workflows give.
\<close>

theorem beyond_the_listing_nothing_stops:
  assumes "maxFlows \<le> length (filter (\<lambda>v. w_created w < w_created v \<and> w_status v \<in> set ActiveStatuses \<and> 0 \<le> w_created v)
      (wfs (kv_gap e [2] (kw_j s))))"
  shows "\<exists>new. kw_fx (snd (run_state (cancelFlows e) s)) = kw_fx s @ new \<and> KxFlow w r \<notin> set new"
proof -
  let ?ws = "listWorkflows ActiveStatuses None maxFlows (kv_gap e [2] (kw_j s))"
  have "w \<notin> set ?ws" using assms by (rule not_listed)
  then have "\<not> cancels_among ?ws (KxFlow w r)" by simp
  then show ?thesis using cancelFlows_among [OF surjective_pairing [of "run_state (cancelFlows e) s"]]
    by (metis list_all_iff)
qed

section \<open>Witnesses\<close>

definition demo_flow :: "string \<Rightarrow> bool \<Rightarrow> int \<Rightarrow> wf_row" where
  "demo_flow wid protective created = (new_row wid ''dca'' ''null'' protective created)\<lparr>w_status := WfWaiting, w_wake := Some 5\<rparr>"

definition stop_order :: "string \<Rightarrow> bool \<Rightarrow> bool \<Rightarrow> order_ref" where
  "stop_order symbol over exit = \<lparr>fo_workflow = ''w1'', fo_provider = ''okx'', fo_account = [], fo_market = ''spot'', fo_symbol = symbol,
     fo_side = ''buy'', fo_order = ''1'', fo_done = over, fo_exit = exit, fo_paper = False, fo_request = None, fo_key = ''k'', fo_first = 0\<rparr>"

definition stop_orders :: "wf_row \<Rightarrow> step_row list \<Rightarrow> unit + flow_orders \<times> string" where
  "stop_orders w rows = Inr (\<lparr>fw_orders = [stop_order ''BTC'' False False, stop_order ''ETH'' True False, stop_order ''SOL'' False True],
     fw_settle = False, fw_protect = False\<rparr>, [])"

definition stop_desk :: desk where
  "stop_desk = \<lparr>ds_lookup = (\<lambda>r b. Inr \<lparr>st_id = ''77'', st_found = True, st_open = True, st_simulated = False\<rparr>), ds_cancel = (\<lambda>r i. True)\<rparr>"

definition stop_env :: kill_env where
  "stop_env = \<lparr>kv_flag = True, kv_lib = \<lparr>kl_decode = (\<lambda>x. None), kl_encode = (\<lambda>i. ''x'')\<rparr>, kv_written = True, kv_readable = True,
     kv_turns = Some 1, kv_queue = True, kv_flows = True, kv_orders = Some stop_orders, kv_mandates = Some (0, True),
     kv_proposals = Some (0, False), kv_desk = Some stop_desk, kv_settle_wait = 0, kv_late_wait = 0, kv_lookback = 0, kv_max_orders = 0,
     kv_clock = (\<lambda>p. case p of [a, n] \<Rightarrow> int n * pollEvery | _ \<Rightarrow> 0), kv_done = (\<lambda>p. False), kv_ok = (\<lambda>p. True), kv_gap = (\<lambda>p j. j)\<rparr>"

definition stop_state :: ksw where
  "stop_state = \<lparr>kw_row = None, kw_mem = \<lparr>km_killed = False, km_info = None, km_checked = 0, km_loaded = True, km_degraded = False\<rparr>,
     kw_j = \<lparr>wfs = [demo_flow ''w1'' False 1, demo_flow ''w2'' True 2], steps = []\<rparr>, kw_sum = empty_summary, kw_budget = 3,
     kw_finished = False, kw_detached = False, kw_fx = []\<rparr>"

text \<open>One stop in full: the protective workflow is left, the open order withdrawn, the exit named.\<close>

lemma stop_demo:
  "let m = kw_sum (snd (run_state (execute stop_env ''owner'' []) stop_state)) in
   su_engaged m \<and> su_cancelled m = [''dca''] \<and> su_protective m = [''dca''] \<and> su_orders_cancelled m = [''buy BTC on okx''] \<and>
   su_exits_left m = [''buy SOL on okx''] \<and> su_errors m = [''proposals'']"
  by code_simp

lemma stop_scan_demo:
  "fst (run_state (scanOrders stop_env stop_desk stop_orders 5 (\<lambda>w. True)) stop_state) \<and>
   demo_flow ''w1'' False 1 \<in> set (listWorkflows [] (Some (kv_clock stop_env [5] - orDefault (kv_lookback stop_env) DefaultLookback)) maxFlows
     (kv_gap stop_env [5] (kw_j stop_state))) \<and> \<not> w_protective (demo_flow ''w1'' False 1)"
  by code_simp


theorem settle_ends_witness:
  "\<exists>pending. fst (run_state (settle_loop (settle_fuel second) 0 stop_env 4 second [(''w1'', ''dca'')]) stop_state) = Some pending"
  using settle_ends [of stop_env 4 second "[(''w1'', ''dca'')]" stop_state] by (simp add: stop_env_def)

definition crowd :: "wf_row list" where
  "crowd = map (\<lambda>n. demo_flow ''new'' False (int n)) [5..<505]"

theorem beyond_the_listing_nothing_stops_witness:
  "\<exists>new. kw_fx (snd (run_state (cancelFlows stop_env) (stop_state\<lparr>kw_j := \<lparr>wfs = demo_flow ''old'' False 1 # crowd, steps = []\<rparr>\<rparr>))) = new \<and>
     KxFlow (demo_flow ''old'' False 1) (Inl ()) \<notin> set new"
proof -
  let ?old = "demo_flow ''old'' False 1"
  let ?s = "stop_state\<lparr>kw_j := \<lparr>wfs = ?old # crowd, steps = []\<rparr>\<rparr>"
  have "filter (\<lambda>v. w_created ?old < w_created v \<and> w_status v \<in> set ActiveStatuses \<and> 0 \<le> w_created v) crowd = crowd"
    by (auto simp: filter_id_conv crowd_def demo_flow_def new_row_def ActiveStatuses_def simp del: upt_rec_numeral)
  moreover have "length crowd = 500" by (simp add: crowd_def del: upt_rec_numeral)
  ultimately have "maxFlows \<le> length (filter (\<lambda>v. w_created ?old < w_created v \<and> w_status v \<in> set ActiveStatuses \<and> 0 \<le> w_created v)
      (wfs (kv_gap stop_env [2] (kw_j ?s))))" by (simp add: stop_env_def maxFlows_def)
  from beyond_the_listing_nothing_stops [OF this, of "Inl ()"] show ?thesis by (simp add: stop_state_def)
qed

end
