(* ===== verification/AttentionRules.thy ===== *)
theory AttentionRules
  imports Proactive Calendar Utf8
begin

text \<open>
  The rules of attention: what becomes of a candidate, by facts about it (\<open>pkg/attention/rules.go\<close>), what learning adds
  to the facts (\<open>learning.go\<close>), and what is read of the owner's profile (\<open>pkg/intent/profile.go\<close>). \<open>evaluate_rules\<close> is a pure
  function and the only place where the order of the rules lives. The time zone database is an argument.
\<close>

section \<open>Reasons\<close>

definition ReasonOff :: string where "ReasonOff = ''off''"
definition ReasonShadow :: string where "ReasonShadow = ''shadow''"
definition ReasonMuted :: string where "ReasonMuted = ''muted''"
definition ReasonDedupSame :: string where "ReasonDedupSame = ''dedup_same_tier''"
definition ReasonDedupQueued :: string where "ReasonDedupQueued = ''dedup_queued''"
definition ReasonProtective :: string where "ReasonProtective = ''protective''"
definition ReasonQuietHours :: string where "ReasonQuietHours = ''quiet_hours''"
definition ReasonInfoToDigest :: string where "ReasonInfoToDigest = ''info_to_digest''"
definition ReasonLowAcceptance :: string where "ReasonLowAcceptance = ''low_acceptance''"
definition ReasonHoldout :: string where "ReasonHoldout = ''holdout''"
definition ReasonBudget :: string where "ReasonBudget = ''budget''"
definition ReasonComposeLLM :: string where "ReasonComposeLLM = ''compose_llm''"
definition ReasonTemplate :: string where "ReasonTemplate = ''template''"
definition ReasonOwnerAlertQuiet :: string where "ReasonOwnerAlertQuiet = ''owner_alert_quiet_hours''"
definition ReasonDeferred :: string where "ReasonDeferred = ''deferred_to_digest''"
definition ReasonInhibitedPrefix :: string where "ReasonInhibitedPrefix = ''inhibited_by:''"

lemmas reason_defs = ReasonOff_def ReasonShadow_def ReasonMuted_def ReasonDedupSame_def ReasonDedupQueued_def ReasonProtective_def
  ReasonQuietHours_def ReasonInfoToDigest_def ReasonLowAcceptance_def ReasonHoldout_def ReasonBudget_def ReasonComposeLLM_def
  ReasonTemplate_def ReasonOwnerAlertQuiet_def ReasonDeferred_def ReasonInhibitedPrefix_def

section \<open>The base asset of a candidate\<close>

record inhibit_rule =
  ih_when :: string
  ih_suppress :: string
  ih_same_asset :: bool
  ih_for :: duration

definition defaultInhibits :: "inhibit_rule list" where
  "defaultInhibits =
     [\<lparr>ih_when = ''dn:'', ih_suppress = ''price_cross:'', ih_same_asset = True, ih_for = hour\<rparr>,
      \<lparr>ih_when = ''dn_health:'', ih_suppress = ''price_cross:'', ih_same_asset = True, ih_for = hour\<rparr>,
      \<lparr>ih_when = ''liquidation_distance:'', ih_suppress = ''move_vs_vol:'', ih_same_asset = True, ih_for = hour\<rparr>,
      \<lparr>ih_when = ''drawdown:portfolio'', ih_suppress = ''move_vs_vol:'', ih_same_asset = False, ih_for = 30 * minute\<rparr>]"

definition knownQuotes :: "string list" where
  "knownQuotes = [''USDT'', ''USDC'', ''USD'', ''BUSD'', ''FDUSD'', ''TUSD'', ''DAI'', ''THB'', ''EUR'', ''GBP'', ''JPY'', ''KRW'', ''BTC'', ''ETH'', ''BNB'']"

definition maxAssetRunes :: nat where "maxAssetRunes = 20"

text \<open>\<open>strings.Cut\<close> and \<open>strings.Split\<close> at one character.\<close>

definition cut_at :: "char \<Rightarrow> string \<Rightarrow> string \<times> string \<times> bool" where
  "cut_at c s = (takeWhile (\<lambda>x. x \<noteq> c) s, tl (dropWhile (\<lambda>x. x \<noteq> c) s), c \<in> set s)"

fun split_at :: "char \<Rightarrow> string \<Rightarrow> string list" where
  "split_at c [] = [[]]"
| "split_at c (x # xs) = (if x = c then [] # split_at c xs else (case split_at c xs of [] \<Rightarrow> [[x]] | p # ps \<Rightarrow> (x # p) # ps))"

definition isAlnum :: "string \<Rightarrow> bool" where
  "isAlnum s \<longleftrightarrow> s \<noteq> [] \<and> list_all (\<lambda>c. (CHR ''0'' \<le> c \<and> c \<le> CHR ''9'') \<or> (CHR ''A'' \<le> c \<and> c \<le> CHR ''Z'') \<or> (CHR ''a'' \<le> c \<and> c \<le> CHR ''z'')) s"

definition cleanAsset :: "string \<Rightarrow> string" where
  "cleanAsset s = (let s = to_upper (trim_space s) in if s = [] \<or> length s > maxAssetRunes \<or> \<not> isAlnum s then [] else s)"

definition quoted_asset :: "string \<Rightarrow> string \<Rightarrow> string" where
  "quoted_asset base quote = (if to_upper quote \<notin> set knownQuotes then [] else cleanAsset base)"

definition assetFromSymbol :: "string \<Rightarrow> string" where
  "assetFromSymbol subject =
     (let subject = trim_space subject in
      if CHR ''/'' \<in> set subject then
        (let (b, rest, _) = cut_at (CHR ''/'') subject; (q, settle, has_settle) = cut_at (CHR '':'') rest
         in if has_settle \<and> \<not> isAlnum settle then [] else quoted_asset b q)
      else if CHR ''-'' \<in> set subject then
        (case split_at (CHR ''-'') subject of
           [b, q] \<Rightarrow> quoted_asset b q
         | [b, q, s] \<Rightarrow> if to_upper s \<in> {''SWAP'', ''FUTURES'', ''PERP''} then quoted_asset b q else []
         | _ \<Rightarrow> [])
      else [])"

definition baseAsset :: "candidate \<Rightarrow> string" where
  "baseAsset c =
     (let b = (case c_evidence c ''base_asset'' of Some (EvString v) \<Rightarrow> cleanAsset v | _ \<Rightarrow> [])
      in if b \<noteq> [] then b else assetFromSymbol (c_subject c))"

section \<open>The rule table\<close>

datatype att_mode = AttOff | AttShadow | AttLive

record facts =
  ff_mode :: att_mode
  ff_muted :: bool
  ff_dedup :: bool
  ff_queued :: bool
  ff_inhibited_by :: string
  ff_active :: bool
  ff_sends :: nat
  ff_budget :: int
  ff_joins :: bool
  ff_adapt :: bool
  ff_mean :: f64
  ff_responses :: int
  ff_low :: f64
  ff_rate :: f64
  ff_draw :: f64

definition no_facts :: "att_mode \<Rightarrow> facts" where
  "no_facts m = \<lparr>ff_mode = m, ff_muted = False, ff_dedup = False, ff_queued = False, ff_inhibited_by = [], ff_active = False,
     ff_sends = 0, ff_budget = 0, ff_joins = False, ff_adapt = False, ff_mean = Fin 0, ff_responses = 0, ff_low = Fin 0,
     ff_rate = Fin 0, ff_draw = Fin 0\<rparr>"

definition MinEvidence :: int where "MinEvidence = 5"
definition LowAcceptanceThreshold :: f64 where "LowAcceptanceThreshold = f_round (1 / 5)"
definition HourBuckets :: int where "HourBuckets = 6"
definition maxKindRunes :: nat where "maxKindRunes = 64"
definition priorMean :: f64 where "priorMean = Fin (1 / 2)"

definition isProtectiveCritical :: "candidate \<Rightarrow> bool" where
  "isProtectiveCritical c \<longleftrightarrow> c_protective c \<and> c_severity c = SeverityCritical"

definition limitFor :: "facts \<Rightarrow> severity \<Rightarrow> int" where
  "limitFor f s = (if s = SeverityWarning then ff_budget f + 1 else ff_budget f)"

definition overBudget :: "facts \<Rightarrow> candidate \<Rightarrow> bool" where
  "overBudget f c \<longleftrightarrow> c_severity c < SeverityCritical \<and> int (ff_sends f) \<ge> limitFor f (c_severity c) \<and> \<not> ff_joins f"

definition learnable :: "candidate \<Rightarrow> bool" where
  "learnable c \<longleftrightarrow> c_severity c = SeverityNotice \<and> \<not> c_protective c \<and> \<not> c_owner_requested c"

definition learns :: "facts \<Rightarrow> candidate \<Rightarrow> bool" where
  "learns f c \<longleftrightarrow> ff_adapt f \<and> learnable c \<and> \<not> overBudget f c"

definition lowAcceptance :: "facts \<Rightarrow> candidate \<Rightarrow> bool" where
  "lowAcceptance f c \<longleftrightarrow> learns f c \<and> ff_responses f \<ge> MinEvidence \<and> f_lt (ff_mean f) (ff_low f)"

definition heldOut :: "facts \<Rightarrow> candidate \<Rightarrow> bool" where
  "heldOut f c \<longleftrightarrow> learns f c \<and> f_lt (Fin 0) (ff_rate f) \<and> f_lt (ff_draw f) (ff_rate f)"

definition deliverReason :: "candidate \<Rightarrow> facts \<Rightarrow> string \<Rightarrow> string" where
  "deliverReason c f base = (if c_owner_requested c \<and> \<not> ff_active f then ReasonOwnerAlertQuiet else base)"

definition evaluate_rules :: "candidate \<Rightarrow> facts \<Rightarrow> disposition \<times> string" where
  "evaluate_rules c f =
     (if ff_mode f = AttOff then (DispDrop, ReasonOff)
      else if c_shadow c \<or> ff_mode f = AttShadow then (DispLog, ReasonShadow)
      else if ff_muted f then (DispDrop, ReasonMuted)
      else if ff_dedup f then (DispDrop, ReasonDedupSame)
      else if ff_queued f \<and> \<not> isProtectiveCritical c then (DispDrop, ReasonDedupQueued)
      else if isProtectiveCritical c then (if c_compose c = ComposeLLM then (DispEscalate, ReasonProtective) else (DispNotify, ReasonProtective))
      else if ff_inhibited_by f \<noteq> [] then (DispDrop, ReasonInhibitedPrefix @ ff_inhibited_by f)
      else if \<not> ff_active f \<and> \<not> c_owner_requested c then (DispDigest, ReasonQuietHours)
      else if c_severity c = SeverityInfo then (DispDigest, ReasonInfoToDigest)
      else if lowAcceptance f c then (DispDigest, ReasonLowAcceptance)
      else if heldOut f c then (DispDigest, ReasonHoldout)
      else if overBudget f c then (DispDigest, ReasonBudget)
      else if c_compose c = ComposeLLM then (DispEscalate, deliverReason c f ReasonComposeLLM)
      else (DispNotify, deliverReason c f ReasonTemplate))"

definition is_sent :: "disposition \<Rightarrow> bool" where
  "is_sent d \<longleftrightarrow> d = DispNotify \<or> d = DispEscalate"

section \<open>Learning\<close>

record candidate_policy =
  cp_budget :: "int option"
  cp_low :: "f64 option"
  cp_rate :: "f64 option"

text \<open>The settings in force. The source answers by kind, bucket and time (None: an error); the draw is of this decision.\<close>

record learning =
  ln_adapt :: bool
  ln_rate :: f64
  ln_candidate :: "candidate_policy option"
  ln_source :: "(string \<Rightarrow> int \<Rightarrow> go_time \<Rightarrow> (f64 \<times> int) option) option"
  ln_draw :: "f64 option"

definition HourBucket :: "zone \<Rightarrow> go_time \<Rightarrow> int" where
  "HourBucket z t = fst (time_of_day z t) div (24 div HourBuckets)"

definition clampRunes :: "string \<Rightarrow> nat \<Rightarrow> string" where
  "clampRunes s n = (if length (runes s) \<le> n then s else encode (take n (runes s)))"

definition KindOf :: "string \<Rightarrow> string \<Rightarrow> string" where
  "KindOf trigger_id dedup_key =
     (let s = trim_space trigger_id; s = (if s = [] then trim_space dedup_key else s); (k, _, _) = cut_at (CHR '':'') s
      in to_lower (clampRunes (trim_space k) maxKindRunes))"

definition learnFacts :: "learning \<Rightarrow> candidate \<Rightarrow> go_time \<Rightarrow> int \<Rightarrow> facts \<Rightarrow> facts" where
  "learnFacts l c now bucket f =
     (let f = f\<lparr>ff_adapt := ln_adapt l, ff_mean := priorMean, ff_responses := 0, ff_low := LowAcceptanceThreshold,
                ff_rate := ln_rate l, ff_draw := Fin 1\<rparr> in
      if \<not> learnable c then f
      else let f = (case ln_source l of
                      None \<Rightarrow> f
                    | Some src \<Rightarrow> (case src (KindOf (c_trigger_id c) (c_dedup_key c)) bucket now of
                          None \<Rightarrow> f
                        | Some (mean, n) \<Rightarrow> if f_le (Fin 0) mean \<and> f_le mean (Fin 1) \<and> n \<ge> 0 then f\<lparr>ff_mean := mean, ff_responses := n\<rparr> else f))
           in (case ln_draw l of None \<Rightarrow> f | Some r \<Rightarrow> f\<lparr>ff_draw := r\<rparr>))"

record learn_row =
  lr_propensity :: "f64 option"
  lr_holdout :: bool
  lr_shadow :: "disposition option"
  lr_learned :: "(disposition \<times> string) option"

definition no_learn_row :: learn_row where
  "no_learn_row = \<lparr>lr_propensity = None, lr_holdout = False, lr_shadow = None, lr_learned = None\<rparr>"

definition shadowFacts :: "facts \<Rightarrow> candidate_policy \<Rightarrow> facts" where
  "shadowFacts f p =
     (let f = f\<lparr>ff_adapt := True\<rparr>;
          f = (case cp_budget p of None \<Rightarrow> f | Some b \<Rightarrow> f\<lparr>ff_budget := b\<rparr>);
          f = (case cp_low p of None \<Rightarrow> f | Some m \<Rightarrow> f\<lparr>ff_low := m\<rparr>)
      in (case cp_rate p of None \<Rightarrow> f | Some r \<Rightarrow> f\<lparr>ff_rate := r\<rparr>))"

definition propensity :: "candidate \<Rightarrow> facts \<Rightarrow> string \<Rightarrow> f64" where
  "propensity c f reason =
     (if reason = ReasonHoldout then ff_rate f
      else if learns f c \<and> (reason = ReasonTemplate \<or> reason = ReasonComposeLLM) then f_sub (Fin 1) (ff_rate f)
      else Fin 1)"

definition learnRecord :: "learning \<Rightarrow> candidate \<Rightarrow> facts \<Rightarrow> disposition \<times> string \<Rightarrow> learn_row" where
  "learnRecord l c f d =
     \<lparr>lr_propensity = Some (propensity c f (snd d)), lr_holdout = (snd d = ReasonHoldout),
      lr_shadow = map_option (\<lambda>p. fst (evaluate_rules c (shadowFacts f p))) (ln_candidate l),
      lr_learned = (if ff_adapt f then None
                    else let v = evaluate_rules c (f\<lparr>ff_adapt := True\<rparr>) in if fst v \<noteq> fst d then Some v else None)\<rparr>"

section \<open>The owner's profile\<close>

text \<open>What attention reads of it.\<close>

record profile =
  pf_timezone :: string
  pf_start :: string
  pf_end :: string
  pf_budget :: int
  pf_digest :: string

definition DefaultTimezone :: string where "DefaultTimezone = ''Asia/Bangkok''"
definition DefaultActiveStart :: string where "DefaultActiveStart = ''07:00''"
definition DefaultActiveEnd :: string where "DefaultActiveEnd = ''22:00''"
definition DefaultBudgetPerDay :: int where "DefaultBudgetPerDay = 3"
definition DefaultDigestTime :: string where "DefaultDigestTime = ''08:00''"

definition DefaultProfile :: profile where
  "DefaultProfile = \<lparr>pf_timezone = DefaultTimezone, pf_start = DefaultActiveStart, pf_end = DefaultActiveEnd,
     pf_budget = DefaultBudgetPerDay, pf_digest = DefaultDigestTime\<rparr>"

definition profile_zone :: "(string \<Rightarrow> zone option) \<Rightarrow> profile \<Rightarrow> zone" where
  "profile_zone zones p =
     (let name = trim_space (pf_timezone p); name = (if name = [] then DefaultTimezone else name)
      in if equal_fold name ''local'' then utc else case zones name of None \<Rightarrow> utc | Some z \<Rightarrow> z)"

definition clock_digit :: "char \<Rightarrow> int option" where
  "clock_digit c = (if CHR ''0'' \<le> c \<and> c \<le> CHR ''9'' then Some (int (of_char c) - 48) else None)"

text \<open>The pattern of a zero-padded \<open>HH:MM\<close>.\<close>

definition minutesOfDay :: "string \<Rightarrow> int option" where
  "minutesOfDay s =
     (case map clock_digit s of
        [Some a, Some b, None, Some c, Some d] \<Rightarrow>
          if s ! 2 = CHR '':'' \<and> (a < 2 \<or> (a = 2 \<and> b < 4)) \<and> c < 6 then Some (a * 600 + b * 60 + c * 10 + d) else None
      | _ \<Rightarrow> None)"

definition minutes_or_zero :: "string \<Rightarrow> int" where
  "minutes_or_zero s = (case minutesOfDay s of None \<Rightarrow> 0 | Some v \<Rightarrow> v)"

definition in_window :: "int \<Rightarrow> int \<Rightarrow> int \<Rightarrow> bool" where
  "in_window a b m = (if a < b then a \<le> m \<and> m < b else a \<le> m \<or> m < b)"

definition InActiveHours :: "(string \<Rightarrow> zone option) \<Rightarrow> profile \<Rightarrow> go_time \<Rightarrow> bool" where
  "InActiveHours zones p t =
     (let (hh, mm, _) = time_of_day (profile_zone zones p) t; m = hh * 60 + mm;
          usual = in_window (minutes_or_zero DefaultActiveStart) (minutes_or_zero DefaultActiveEnd) m in
      case (minutesOfDay (pf_start p), minutesOfDay (pf_end p)) of
        (Some a, Some b) \<Rightarrow> if a = b then usual else in_window a b m
      | _ \<Rightarrow> usual)"

end
