(* ===== verification/Attention.thy ===== *)
theory Attention
  imports AttentionRules
begin

text \<open>
  The governor of interruptions (\<open>pkg/attention/governor.go\<close>, \<open>store.go\<close>, \<open>digest.go\<close>, \<open>mutes_list.go\<close>, \<open>owner_commands.go\<close>):
  five tables and the operations on them, one transaction each. An operation whose transaction fails leaves the
  tables as they were, so it is as if it had not run. The JSON codec is an argument; ids are drawn by the caller.
  Rows that an ORDER BY leaves equal are taken in the order of their insertion.
\<close>

section \<open>Tables\<close>

record decision_row =
  ar_id :: string
  ar_at :: int
  ar_key :: string
  ar_trigger :: string
  ar_severity :: severity
  ar_disposition :: disposition
  ar_reason :: string
  ar_shadow :: bool
  ar_json :: string
  ar_base :: "string option"
  ar_delivered :: bool
  ar_delivered_at :: "int option"
  ar_intervention :: "string option"
  ar_learn :: learn_row

record sent_row =
  sr_key :: string
  sr_severity :: severity
  sr_sent :: int
  sr_json :: string
  sr_sends :: nat

record mute_row =
  mu_key :: string
  mu_until :: int
  mu_reason :: string
  mu_created :: int
  mu_exact :: bool

record queue_row =
  qr_id :: string
  qr_enqueued :: int
  qr_flushed :: "int option"

text \<open>The meta table holds the day of the last digest and the time of the last hand-out; the last prune is in memory.\<close>

record attention_db =
  at_rows :: "decision_row list"
  at_sent :: "sent_row list"
  at_mutes :: "mute_row list"
  at_queue :: "queue_row list"
  at_day :: string
  at_attempt :: "int option"
  at_pruned :: "go_time option"

definition no_attention :: attention_db where
  "no_attention = \<lparr>at_rows = [], at_sent = [], at_mutes = [], at_queue = [], at_day = [], at_attempt = None, at_pruned = None\<rparr>"

datatype att_err = ErrNoKey | ErrSeverity | ErrNoDecision | ErrUnknownDecision string | ErrUndeliverable | ErrProtectiveDefer
  | ErrTaken | ErrMutePrefix | ErrMuteDeadline | ErrNoMuteKey

record decision =
  de_id :: string
  de_disposition :: disposition
  de_reason :: string
  de_candidate :: candidate
  de_previous :: "candidate option"
  de_at :: go_time

record delivery =
  dl_delivered :: bool
  dl_at :: "go_time option"
  dl_intervention :: string

text \<open>The configuration; the codec; the zones.\<close>

record governor =
  gv_mode :: att_mode
  gv_daily :: int
  gv_window_hours :: int
  gv_group_seconds :: int
  gv_digest :: bool
  gv_repeat_minutes :: int
  gv_inhibits :: "inhibit_rule list"
  gv_marshal :: "candidate \<Rightarrow> string option"
  gv_unmarshal :: "string \<Rightarrow> candidate option"
  gv_zones :: "string \<Rightarrow> zone option"

definition defaultDedupWindow :: duration where "defaultDedupWindow = 24 * hour"
definition pendingLease :: duration where "pendingLease = 10 * minute"
definition decisionRetention :: duration where "decisionRetention = 180 * 24 * hour"
definition pendingDigestKeep :: duration where "pendingDigestKeep = 7 * 24 * hour"
definition pruneEvery :: duration where "pruneEvery = 24 * hour"
definition shadowCoalesce :: duration where "shadowCoalesce = 60 * minute"
definition shadowRetention :: duration where "shadowRetention = 30 * 24 * hour"
definition minMutePrefixRunes :: nat where "minMutePrefixRunes = 2"
definition maxMuteReasonRunes :: nat where "maxMuteReasonRunes = 200"
definition maxCandidateJSON :: nat where "maxCandidateJSON = 16 * 1024"
definition maxClampedText :: nat where "maxClampedText = 512"

text \<open>Milliseconds at a duration before a time.\<close>

definition ms_before :: "go_time \<Rightarrow> duration \<Rightarrow> int" where
  "ms_before now d = unix_ms (now - d)"

section \<open>Stored candidates\<close>

definition fitting :: "governor \<Rightarrow> candidate \<Rightarrow> string option" where
  "fitting g c = (case gv_marshal g c of Some b \<Rightarrow> if length b \<le> maxCandidateJSON then Some b else None | None \<Rightarrow> None)"

definition no_evidence :: "candidate \<Rightarrow> candidate" where
  "no_evidence c = c\<lparr>c_evidence := (\<lambda>k. if k = ''truncated'' then Some EvOther else None)\<rparr>"

definition clamped :: "candidate \<Rightarrow> candidate" where
  "clamped c = c\<lparr>c_title := clampRunes (c_title c) maxClampedText, c_subject := clampRunes (c_subject c) maxClampedText,
     c_dedup_key := clampRunes (c_dedup_key c) maxClampedText, c_trigger_id := clampRunes (c_trigger_id c) maxClampedText,
     c_intent_id := clampRunes (c_intent_id c) maxClampedText\<rparr>"

definition encodeCandidate :: "governor \<Rightarrow> candidate \<Rightarrow> string" where
  "encodeCandidate g c =
     (case fitting g c of Some b \<Rightarrow> b
      | None \<Rightarrow> (case fitting g (no_evidence c) of Some b \<Rightarrow> b
        | None \<Rightarrow> (case fitting g (clamped (no_evidence c)) of Some b \<Rightarrow> b | None \<Rightarrow> ''{'' @ [CHR 0x22] @ ''truncated'' @ [CHR 0x22] @ '':true}'')))"

section \<open>Reads\<close>

definition deleteExpiredMutes :: "int \<Rightarrow> mute_row list \<Rightarrow> mute_row list" where
  "deleteExpiredMutes now = filter (\<lambda>m. \<not> mu_until m \<le> now)"

definition isMuted :: "mute_row list \<Rightarrow> candidate \<Rightarrow> int \<Rightarrow> bool" where
  "isMuted mutes c now =
     (let hits = filter (\<lambda>m. mu_until m > now \<and>
            ((\<not> mu_exact m \<and> (has_prefix (c_dedup_key c) (mu_key m) \<or> has_prefix (c_trigger_id c) (mu_key m))) \<or>
             (mu_exact m \<and> tl (mu_key m) = c_dedup_key c))) mutes;
          exact = filter mu_exact hits; keys = map mu_key (filter (\<lambda>m. \<not> mu_exact m) hits);
          own = list_ex (\<lambda>m. mu_key m = ''='' @ c_dedup_key c \<or> (c_trigger_id c \<noteq> [] \<and> mu_key m = ''='' @ c_trigger_id c)) exact
      in if exact \<noteq> [] \<and> (own \<or> \<not> isProtectiveCritical c) then True
         else if keys = [] then False
         else if \<not> isProtectiveCritical c then True
         else list_ex (\<lambda>k. k = c_dedup_key c \<or> (c_trigger_id c \<noteq> [] \<and> k = c_trigger_id c)) keys)"

definition readState :: "string \<Rightarrow> sent_row list \<Rightarrow> sent_row option" where
  "readState key = sql_first (\<lambda>s. sr_key s = key)"

text \<open>Neither delivered nor reported failed.\<close>

definition undecided :: "decision_row \<Rightarrow> bool" where
  "undecided r \<longleftrightarrow> \<not> ar_delivered r \<and> ar_delivered_at r = None"

definition inFlight :: "decision_row list \<Rightarrow> string \<Rightarrow> severity \<Rightarrow> int \<Rightarrow> bool" where
  "inFlight rows key sev lease_start =
     list_ex (\<lambda>r. ar_key r = key \<and> ar_at r > lease_start \<and> ar_severity r \<ge> sev \<and> is_sent (ar_disposition r) \<and> undecided r) rows"

definition queuedDigest :: "decision_row list \<Rightarrow> string \<Rightarrow> severity \<Rightarrow> int \<Rightarrow> bool" where
  "queuedDigest rows key sev since =
     list_ex (\<lambda>r. ar_key r = key \<and> ar_at r > since \<and> ar_severity r \<ge> sev \<and> ar_disposition r = DispDigest \<and> \<not> ar_delivered r) rows"

definition budgeted :: "decision_row \<Rightarrow> bool" where
  "budgeted r \<longleftrightarrow> is_sent (ar_disposition r) \<and> ar_severity r < SeverityCritical \<and> ar_reason r \<noteq> ReasonProtective"

definition message_of :: "decision_row \<Rightarrow> string" where
  "message_of r = (case ar_intervention r of None \<Rightarrow> ar_id r | Some i \<Rightarrow> i)"

definition delivered_on :: "decision_row list \<Rightarrow> int \<Rightarrow> int \<Rightarrow> decision_row list" where
  "delivered_on rows day_start day_end = filter (\<lambda>r. ar_delivered r \<and> budgeted r \<and>
     (case ar_delivered_at r of None \<Rightarrow> False | Some t \<Rightarrow> day_start \<le> t \<and> t < day_end)) rows"

definition pending_rows :: "decision_row list \<Rightarrow> int \<Rightarrow> decision_row list" where
  "pending_rows rows lease_start = filter (\<lambda>r. undecided r \<and> ar_at r \<ge> lease_start \<and> budgeted r) rows"

definition pendingMessages :: "int list \<Rightarrow> int \<Rightarrow> nat \<times> int" where
  "pendingMessages ats window = fold (\<lambda>t (n, start). if n = 0 \<or> window \<le> 0 \<or> t - start \<ge> window then (Suc n, t) else (n, start)) ats (0, 0)"

definition sendsToday :: "decision_row list \<Rightarrow> int \<Rightarrow> int \<Rightarrow> int \<Rightarrow> int \<Rightarrow> int \<Rightarrow> nat \<times> bool" where
  "sendsToday rows day_start day_end lease_start window now =
     (let delivered = card (set (map message_of (delivered_on rows day_start day_end)));
          (n, start) = pendingMessages (sort (map ar_at (pending_rows rows lease_start))) window
      in (delivered + n, n > 0 \<and> window > 0 \<and> now - start < window))"

definition inhibitorKey :: "decision_row list \<Rightarrow> inhibit_rule \<Rightarrow> string \<Rightarrow> int \<Rightarrow> int \<Rightarrow> string" where
  "inhibitorKey rows rule base since lease_start =
     (case sort_key (\<lambda>r. - ar_at r) (filter (\<lambda>r. is_sent (ar_disposition r) \<and> ar_at r > since \<and> has_prefix (ar_key r) (ih_when rule) \<and>
             (ar_delivered r \<or> (undecided r \<and> ar_at r > lease_start)) \<and> (ih_same_asset rule \<longrightarrow> ar_base r = Some base)) rows) of
        [] \<Rightarrow> [] | r # _ \<Rightarrow> ar_key r)"

definition recentShadow :: "decision_row list \<Rightarrow> string \<Rightarrow> severity \<Rightarrow> int \<Rightarrow> string option" where
  "recentShadow rows key sev since =
     (case sort_key (\<lambda>r. - ar_at r) (filter (\<lambda>r. ar_key r = key \<and> ar_at r > since \<and> ar_severity r \<ge> sev \<and> ar_disposition r = DispLog \<and>
             ar_reason r = ReasonShadow) rows) of
        [] \<Rightarrow> None | r # _ \<Rightarrow> Some (ar_id r))"

section \<open>Deciding\<close>

definition normalize :: "candidate \<Rightarrow> string \<Rightarrow> go_time \<Rightarrow> att_err + candidate" where
  "normalize c new_id now =
     (if c_dedup_key c = [] then Inl ErrNoKey
      else if c_severity c < SeverityInfo \<or> c_severity c > SeverityCritical then Inl ErrSeverity
      else Inr (c\<lparr>c_id := (if c_id c = [] then new_id else c_id c), c_at := Some (case c_at c of None \<Rightarrow> now | Some t \<Rightarrow> t)\<rparr>))"

definition dedupWindow :: "governor \<Rightarrow> candidate \<Rightarrow> duration" where
  "dedupWindow g c =
     (if isProtectiveCritical c \<and> gv_repeat_minutes g > 0 then gv_repeat_minutes g * minute
      else if c_dedup_window c > 0 then c_dedup_window c
      else if gv_window_hours g > 0 then gv_window_hours g * hour
      else defaultDedupWindow)"

definition groupWindow :: "governor \<Rightarrow> duration" where
  "groupWindow g = max (gv_group_seconds g) 0 * second"

fun inhibitedBy :: "inhibit_rule list \<Rightarrow> decision_row list \<Rightarrow> candidate \<Rightarrow> go_time \<Rightarrow> int \<Rightarrow> string" where
  "inhibitedBy [] rows c now lease_start = []"
| "inhibitedBy (r # rs) rows c now lease_start =
     (if ih_suppress r = [] \<or> ih_when r = [] \<or> \<not> has_prefix (c_dedup_key c) (ih_suppress r) \<or> (ih_same_asset r \<and> baseAsset c = [])
      then inhibitedBy rs rows c now lease_start
      else let key = inhibitorKey rows r (if ih_same_asset r then baseAsset c else []) (ms_before now (ih_for r)) lease_start
           in if key \<noteq> [] then key else inhibitedBy rs rows c now lease_start)"

text \<open>The profile: None is a source that failed. Then the zone, and what a decision needs.\<close>

definition profile_in_force :: "governor \<Rightarrow> profile option \<Rightarrow> profile" where
  "profile_in_force g p = (case p of Some p \<Rightarrow> p | None \<Rightarrow> DefaultProfile\<lparr>pf_budget := gv_daily g\<rparr>)"

record profile_facts =
  po_active :: bool
  po_budget :: int
  po_day_start :: int
  po_day_end :: int
  po_bucket :: int

definition loadProfile :: "governor \<Rightarrow> profile option \<Rightarrow> go_time \<Rightarrow> profile_facts" where
  "loadProfile g p now =
     (let prof = profile_in_force g p; z = profile_zone (gv_zones g) prof; (y, m, d) = date_of z now
      in \<lparr>po_active = InActiveHours (gv_zones g) prof now, po_budget = max (pf_budget prof) 0,
          po_day_start = unix_ms (midnight z y m d), po_day_end = unix_ms (midnight z y m (d + 1)), po_bucket = HourBucket z now\<rparr>)"

text \<open>\<open>gather\<close>, on the tables with the expired mutes deleted.\<close>

definition gather :: "governor \<Rightarrow> candidate \<Rightarrow> go_time \<Rightarrow> profile_facts \<Rightarrow> attention_db \<Rightarrow> facts" where
  "gather g c now pf a =
     (let window = dedupWindow g c; lease_start = ms_before now pendingLease;
          told = (case readState (c_dedup_key c) (at_sent a) of None \<Rightarrow> False
                  | Some s \<Rightarrow> sr_severity s \<ge> c_severity c \<and> unix_ms now - sr_sent s < dur_ms window);
          (sends, joins) = sendsToday (at_rows a) (po_day_start pf) (po_day_end pf) lease_start (dur_ms (groupWindow g)) (unix_ms now)
      in (no_facts (gv_mode g))\<lparr>ff_active := po_active pf, ff_budget := po_budget pf,
           ff_muted := isMuted (at_mutes a) c (unix_ms now),
           ff_dedup := told \<or> (\<not> isProtectiveCritical c \<and> inFlight (at_rows a) (c_dedup_key c) (c_severity c) lease_start),
           ff_queued := queuedDigest (at_rows a) (c_dedup_key c) (c_severity c) (ms_before now window),
           ff_sends := sends, ff_joins := joins,
           ff_inhibited_by := (if isProtectiveCritical c then [] else inhibitedBy (gv_inhibits g) (at_rows a) c now lease_start)\<rparr>)"

definition previous :: "governor \<Rightarrow> candidate \<Rightarrow> attention_db \<Rightarrow> candidate option" where
  "previous g c a = (case readState (c_dedup_key c) (at_sent a) of None \<Rightarrow> None | Some s \<Rightarrow> gv_unmarshal g (sr_json s))"

definition new_decision_row :: "governor \<Rightarrow> decision \<Rightarrow> learn_row \<Rightarrow> decision_row" where
  "new_decision_row g d lr =
     (let c = de_candidate d; b = baseAsset c in
      \<lparr>ar_id = de_id d, ar_at = unix_ms (de_at d), ar_key = c_dedup_key c, ar_trigger = c_trigger_id c, ar_severity = c_severity c,
       ar_disposition = de_disposition d, ar_reason = de_reason d, ar_shadow = (de_reason d = ReasonShadow),
       ar_json = encodeCandidate g c, ar_base = (if b = [] then None else Some b), ar_delivered = False, ar_delivered_at = None,
       ar_intervention = None, ar_learn = lr\<rparr>)"

definition insertDecision :: "governor \<Rightarrow> decision \<Rightarrow> learn_row \<Rightarrow> attention_db \<Rightarrow> att_err + attention_db" where
  "insertDecision g d lr a =
     (if de_id d \<in> ar_id ` set (at_rows a) then Inl ErrTaken
      else Inr (a\<lparr>at_rows := at_rows a @ [new_decision_row g d lr],
                  at_queue := at_queue a @ (if de_disposition d = DispDigest
                    then [\<lparr>qr_id = de_id d, qr_enqueued = unix_ms (de_at d), qr_flushed = None\<rparr>] else [])\<rparr>))"

text \<open>Deleting a decision deletes its queue row.\<close>

definition pruneDecisions :: "go_time \<Rightarrow> attention_db \<Rightarrow> attention_db" where
  "pruneDecisions now a =
     (let cutoff = ms_before now decisionRetention; keep_since = ms_before now pendingDigestKeep;
          kept = filter (\<lambda>r. \<not> (ar_reason r = ReasonShadow \<and> ar_at r < ms_before now shadowRetention))
            (filter (\<lambda>r. \<not> (ar_at r < cutoff \<and> \<not> (ar_disposition r = DispDigest \<and> \<not> ar_delivered r \<and> ar_at r \<ge> keep_since))) (at_rows a))
      in a\<lparr>at_rows := kept, at_sent := filter (\<lambda>s. \<not> sr_sent s < cutoff) (at_sent a),
           at_queue := filter (\<lambda>q. qr_id q \<in> ar_id ` set kept) (at_queue a)\<rparr>)"

definition maybePrune :: "go_time \<Rightarrow> attention_db \<Rightarrow> attention_db" where
  "maybePrune now a =
     (case at_pruned a of
        Some t \<Rightarrow> if now - t \<ge> pruneEvery then pruneDecisions now (a\<lparr>at_pruned := Some now\<rparr>) else a
      | None \<Rightarrow> pruneDecisions now (a\<lparr>at_pruned := Some now\<rparr>))"

text \<open>One decision: its clock, the profile read, the learning in force, the two ids.\<close>

record decide_env =
  dv_now :: go_time
  dv_profile :: "profile option"
  dv_learning :: "learning option"
  dv_candidate_id :: string
  dv_id :: string

definition live_decision :: "governor \<Rightarrow> candidate \<Rightarrow> bool" where
  "live_decision g c \<longleftrightarrow> gv_mode g = AttLive \<and> \<not> c_shadow c"

text \<open>The facts of a decision, and what learning keeps of it.\<close>

definition facts_for :: "governor \<Rightarrow> decide_env \<Rightarrow> candidate \<Rightarrow> attention_db \<Rightarrow> facts" where
  "facts_for g e c a =
     (if \<not> live_decision g c then no_facts (gv_mode g)
      else let pf = loadProfile g (dv_profile e) (dv_now e); f = gather g c (dv_now e) pf a
           in (case dv_learning e of None \<Rightarrow> f | Some l \<Rightarrow> learnFacts l c (dv_now e) (po_bucket pf) f))"

definition learned_for :: "governor \<Rightarrow> decide_env \<Rightarrow> candidate \<Rightarrow> facts \<Rightarrow> disposition \<times> string \<Rightarrow> learn_row" where
  "learned_for g e c f d =
     (if \<not> live_decision g c then no_learn_row
      else case dv_learning e of None \<Rightarrow> no_learn_row | Some l \<Rightarrow> learnRecord l c f d)"

definition DecideCandidate :: "governor \<Rightarrow> decide_env \<Rightarrow> candidate \<Rightarrow> attention_db \<Rightarrow> (att_err + decision) \<times> attention_db" where
  "DecideCandidate g e c a =
     (case normalize c (dv_candidate_id e) (dv_now e) of
        Inl err \<Rightarrow> (Inl err, a)
      | Inr c \<Rightarrow>
          if gv_mode g = AttOff then
            (let (disp, reason) = evaluate_rules c (no_facts AttOff)
             in (Inr \<lparr>de_id = dv_id e, de_disposition = disp, de_reason = reason, de_candidate = c, de_previous = None, de_at = dv_now e\<rparr>, a))
          else
            let live = live_decision g c;
                b = (if live then a\<lparr>at_mutes := deleteExpiredMutes (unix_ms (dv_now e)) (at_mutes a)\<rparr> else a);
                f = facts_for g e c b;
                (disp, reason) = evaluate_rules c f;
                d = \<lparr>de_id = dv_id e, de_disposition = disp, de_reason = reason, de_candidate = c,
                     de_previous = (if live then previous g c b else None), de_at = dv_now e\<rparr>
            in (case (if reason = ReasonShadow then recentShadow (at_rows b) (c_dedup_key c) (c_severity c) (ms_before (dv_now e) shadowCoalesce) else None) of
                  Some i \<Rightarrow> (Inr (d\<lparr>de_id := i\<rparr>), a)
                | None \<Rightarrow> (case insertDecision g d (learned_for g e c f (disp, reason)) b of
                      Inl err \<Rightarrow> (Inl err, a)
                    | Inr b \<Rightarrow> (Inr d, maybePrune (dv_now e) b))))"

section \<open>Reporting\<close>

definition find_row :: "string \<Rightarrow> attention_db \<Rightarrow> decision_row option" where
  "find_row i a = sql_first (\<lambda>r. ar_id r = i) (at_rows a)"

definition update_row :: "string \<Rightarrow> (decision_row \<Rightarrow> decision_row) \<Rightarrow> attention_db \<Rightarrow> attention_db" where
  "update_row i f a = a\<lparr>at_rows := sql_update (\<lambda>r. ar_id r = i) f (at_rows a)\<rparr>"

definition upsert_sent :: "decision_row \<Rightarrow> int \<Rightarrow> sent_row list \<Rightarrow> sent_row list" where
  "upsert_sent r t rows =
     (if ar_key r \<in> sr_key ` set rows
      then sql_update (\<lambda>s. sr_key s = ar_key r) (\<lambda>s. s\<lparr>sr_severity := ar_severity r, sr_sent := t, sr_json := ar_json r, sr_sends := Suc (sr_sends s)\<rparr>) rows
      else rows @ [\<lparr>sr_key = ar_key r, sr_severity = ar_severity r, sr_sent = t, sr_json = ar_json r, sr_sends = 1\<rparr>])"

definition markDeliveredTx :: "string \<Rightarrow> go_time \<Rightarrow> string \<Rightarrow> attention_db \<Rightarrow> att_err + attention_db" where
  "markDeliveredTx i t iid a =
     (case find_row i a of
        None \<Rightarrow> Inl (ErrUnknownDecision i)
      | Some r \<Rightarrow>
          if \<not> is_sent (ar_disposition r) \<and> ar_disposition r \<noteq> DispDigest then Inl ErrUndeliverable
          else if ar_delivered r then Inr a
          else let a = update_row i (\<lambda>r. r\<lparr>ar_delivered := True, ar_delivered_at := Some (unix_ms t),
                         ar_intervention := Some (if iid = [] then i else iid)\<rparr>) a
               in Inr (a\<lparr>at_sent := upsert_sent r (unix_ms t) (at_sent a)\<rparr>))"

definition at_or :: "go_time option \<Rightarrow> go_time \<Rightarrow> go_time" where
  "at_or t now = (case t of None \<Rightarrow> now | Some t \<Rightarrow> t)"

definition MarkDelivered :: "governor \<Rightarrow> go_time \<Rightarrow> string \<Rightarrow> delivery \<Rightarrow> attention_db \<Rightarrow> att_err option \<times> attention_db" where
  "MarkDelivered g now i dl a =
     (if gv_mode g = AttOff then (None, a)
      else if i = [] then (Some ErrNoDecision, a)
      else let t = at_or (dl_at dl) now in
        if \<not> dl_delivered dl then
          (case find_row i a of
             None \<Rightarrow> (Some (ErrUnknownDecision i), a)
           | Some r \<Rightarrow> (None, if is_sent (ar_disposition r) \<and> \<not> ar_delivered r
                              then update_row i (\<lambda>r. r\<lparr>ar_delivered_at := Some (unix_ms t)\<rparr>) a else a))
        else (case markDeliveredTx i t (dl_intervention dl) a of Inl err \<Rightarrow> (Some err, a) | Inr b \<Rightarrow> (None, b)))"

section \<open>The digest\<close>

definition digestRetry :: duration where "digestRetry = 10 * minute"

record digest =
  dg_day :: string
  dg_items :: "decision list"

text \<open>A clock of one or two digits for the hour and two for the minute, else the default.\<close>

definition parse_clock :: "string \<Rightarrow> (int \<times> int) option" where
  "parse_clock s =
     (case map clock_digit s of
        [Some a, Some b, None, Some c, Some d] \<Rightarrow> if s ! 2 = CHR '':'' \<and> a * 10 + b < 24 \<and> c < 6 then Some (a * 10 + b, c * 10 + d) else None
      | [Some b, None, Some c, Some d] \<Rightarrow> if s ! 1 = CHR '':'' \<and> c < 6 then Some (b, c * 10 + d) else None
      | _ \<Rightarrow> None)"

definition digestClock :: "string \<Rightarrow> int \<times> int" where
  "digestClock s = (case parse_clock (trim_space s) of Some c \<Rightarrow> c
     | None \<Rightarrow> (case parse_clock DefaultDigestTime of Some c \<Rightarrow> c | None \<Rightarrow> (0, 0)))"

definition two_digits :: "int \<Rightarrow> string" where
  "two_digits v = (if v < 10 then ''0'' @ itoa v else itoa v)"

definition format_day :: "int \<times> int \<times> int \<Rightarrow> string" where
  "format_day = (\<lambda>(y, m, d). replicate (4 - length (itoa y)) (CHR ''0'') @ itoa y @ ''-'' @ two_digits m @ ''-'' @ two_digits d)"

text \<open>The first active minute of the day's digest has come.\<close>

definition digest_come :: "governor \<Rightarrow> profile \<Rightarrow> go_time \<Rightarrow> go_time \<Rightarrow> bool" where
  "digest_come g prof start now =
     list_ex (\<lambda>k. InActiveHours (gv_zones g) prof (start + int k * minute)) [0..<nat ((now - start) div minute + 1)]"

definition digestDay :: "governor \<Rightarrow> profile \<Rightarrow> go_time \<Rightarrow> string option" where
  "digestDay g prof now =
     (let z = profile_zone (gv_zones g) prof; (hh, mm) = digestClock (pf_digest prof);
          start = (\<lambda>back. let (y, m, d) = date_of z (add_days z (- back) now) in time_Date z y m d hh mm 0)
      in if \<not> InActiveHours (gv_zones g) prof now then None
         else if digest_come g prof (start 0) now then Some (format_day (date_of z (start 0)))
         else if digest_come g prof (start 1) now then Some (format_day (date_of z (start 1)))
         else None)"

definition empty_candidate :: candidate where
  "empty_candidate = \<lparr>c_id = [], c_trigger_id = [], c_dedup_key = [], c_severity = 0, c_protective = False, c_salience = Fin 0, c_subject = [],
     c_title = [], c_detail = [], c_quote = [], c_evidence = (\<lambda>k. None), c_intent_id = [], c_trust = 0, c_compose = 0, c_dedup_window = 0,
     c_at = None, c_shadow = False, c_owner_requested = False, c_forced_skills = []\<rparr>"

definition item_of :: "governor \<Rightarrow> decision_row \<Rightarrow> decision" where
  "item_of g r = \<lparr>de_id = ar_id r, de_disposition = DispDigest, de_reason = ar_reason r,
     de_candidate = (case gv_unmarshal g (ar_json r) of Some c \<Rightarrow> c
       | None \<Rightarrow> empty_candidate\<lparr>c_dedup_key := ar_key r, c_trigger_id := ar_trigger r, c_severity := ar_severity r\<rparr>),
     de_previous = None, de_at = from_ms (ar_at r)\<rparr>"

definition queuedDigestItems :: "governor \<Rightarrow> attention_db \<Rightarrow> decision list" where
  "queuedDigestItems g a =
     map (item_of g) (List.map_filter (\<lambda>q. case find_row (qr_id q) a of
          Some r \<Rightarrow> if qr_flushed q = None \<and> \<not> ar_delivered r \<and> ar_disposition r = DispDigest then Some r else None
        | None \<Rightarrow> None) (sort_key qr_enqueued (sort_key qr_id (at_queue a))))"

definition PendingDigest :: "governor \<Rightarrow> go_time \<Rightarrow> profile option \<Rightarrow> attention_db \<Rightarrow> digest option \<times> attention_db" where
  "PendingDigest g now p a =
     (if gv_mode g \<noteq> AttLive \<or> \<not> gv_digest g then (None, a)
      else case digestDay g (profile_in_force g p) now of
        None \<Rightarrow> (None, a)
      | Some day \<Rightarrow>
          if at_day a \<ge> day then (None, a)
          else if (case at_attempt a of None \<Rightarrow> False | Some ms \<Rightarrow> unix_ms now < ms + dur_ms digestRetry) then (None, a)
          else let items = queuedDigestItems g a in
            if items = [] then (None, a\<lparr>at_day := day\<rparr>)
            else (Some \<lparr>dg_day = day, dg_items = items\<rparr>, a\<lparr>at_attempt := Some (unix_ms now)\<rparr>))"

definition flush_item :: "string \<Rightarrow> int \<Rightarrow> attention_db \<Rightarrow> attention_db" where
  "flush_item i t a = a\<lparr>at_queue := sql_update (\<lambda>q. qr_id q = i \<and> qr_flushed q = None) (\<lambda>q. q\<lparr>qr_flushed := Some t\<rparr>) (at_queue a)\<rparr>"

text \<open>The items of a digest, one after the other; an unknown one was pruned meanwhile.\<close>

fun complete_items :: "decision list \<Rightarrow> go_time \<Rightarrow> string \<Rightarrow> attention_db \<Rightarrow> att_err + attention_db" where
  "complete_items [] t iid a = Inr a"
| "complete_items (d # ds) t iid a =
     (case markDeliveredTx (de_id d) t iid a of
        Inl (ErrUnknownDecision i) \<Rightarrow> complete_items ds t iid a
      | Inl err \<Rightarrow> Inl err
      | Inr b \<Rightarrow> complete_items ds t iid (flush_item (de_id d) (unix_ms t) b))"

definition CompleteDigest :: "governor \<Rightarrow> go_time \<Rightarrow> digest \<Rightarrow> delivery \<Rightarrow> attention_db \<Rightarrow> att_err option \<times> attention_db" where
  "CompleteDigest g now dg dl a =
     (if gv_mode g \<noteq> AttLive \<or> \<not> dl_delivered dl then (None, a)
      else case complete_items (dg_items dg) (at_or (dl_at dl) now) (dl_intervention dl) a of
        Inl err \<Rightarrow> (Some err, a)
      | Inr b \<Rightarrow> (None, b\<lparr>at_day := dg_day dg\<rparr>))"

definition enqueue :: "string \<Rightarrow> int \<Rightarrow> attention_db \<Rightarrow> attention_db" where
  "enqueue i t a = (if i \<in> qr_id ` set (at_queue a) then a
     else a\<lparr>at_queue := at_queue a @ [\<lparr>qr_id = i, qr_enqueued = t, qr_flushed = None\<rparr>]\<rparr>)"

definition DeferToDigest :: "governor \<Rightarrow> go_time \<Rightarrow> string \<Rightarrow> attention_db \<Rightarrow> att_err option \<times> attention_db" where
  "DeferToDigest g now i a =
     (if gv_mode g \<noteq> AttLive then (None, a)
      else if i = [] then (Some ErrNoDecision, a)
      else case find_row i a of
        None \<Rightarrow> (Some (ErrUnknownDecision i), a)
      | Some r \<Rightarrow>
          if ar_reason r = ReasonProtective then (Some ErrProtectiveDefer, a)
          else if ar_disposition r = DispDigest then (None, enqueue i (unix_ms now) a)
          else if is_sent (ar_disposition r) \<and> undecided r then
            (None, enqueue i (unix_ms now) (update_row i (\<lambda>r. r\<lparr>ar_disposition := DispDigest, ar_reason := ReasonDeferred\<rparr>) a))
          else (None, a))"

section \<open>Mutes\<close>

definition upsert_mute :: "mute_row \<Rightarrow> mute_row list \<Rightarrow> mute_row list" where
  "upsert_mute m rows =
     (if mu_key m \<in> mu_key ` set rows
      then sql_update (\<lambda>r. mu_key r = mu_key m)
             (\<lambda>r. r\<lparr>mu_until := mu_until m, mu_reason := mu_reason m, mu_created := mu_created m, mu_exact := mu_exact m \<or> mu_exact r\<rparr>) rows
      else rows @ [m])"

definition Mute :: "string \<Rightarrow> go_time \<Rightarrow> string \<Rightarrow> go_time \<Rightarrow> attention_db \<Rightarrow> att_err option \<times> attention_db" where
  "Mute prefix until reason now a =
     (let prefix = trim_space prefix in
      if length (runes prefix) < minMutePrefixRunes then (Some ErrMutePrefix, a)
      else if until \<le> now then (Some ErrMuteDeadline, a)
      else (None, a\<lparr>at_mutes := upsert_mute \<lparr>mu_key = prefix, mu_until = unix_ms until, mu_reason = clampRunes reason maxMuteReasonRunes,
             mu_created = unix_ms now, mu_exact = False\<rparr> (at_mutes a)\<rparr>))"

definition MuteExact :: "string \<Rightarrow> go_time \<Rightarrow> string \<Rightarrow> go_time \<Rightarrow> attention_db \<Rightarrow> att_err option \<times> attention_db" where
  "MuteExact key until reason now a =
     (let key = trim_space key in
      if key = [] then (Some ErrNoMuteKey, a)
      else if until \<le> now then (Some ErrMuteDeadline, a)
      else (None, a\<lparr>at_mutes := upsert_mute \<lparr>mu_key = ''='' @ key, mu_until = unix_ms until, mu_reason = clampRunes reason maxMuteReasonRunes,
             mu_created = unix_ms now, mu_exact = True\<rparr> (at_mutes a)\<rparr>))"

definition Unmute :: "string \<Rightarrow> attention_db \<Rightarrow> att_err option \<times> attention_db" where
  "Unmute prefix a =
     (let prefix = trim_space prefix in
      if prefix = [] then (Some ErrMutePrefix, a) else (None, a\<lparr>at_mutes := sql_delete (\<lambda>m. mu_key m = prefix) (at_mutes a)\<rparr>))"

definition maxListedMutes :: nat where "maxListedMutes = 200"

definition ListMutes :: "go_time \<Rightarrow> attention_db \<Rightarrow> mute_row list" where
  "ListMutes now a = take maxListedMutes (sort_key mu_until (sort_key mu_key (filter (\<lambda>m. mu_until m > unix_ms now) (at_mutes a))))"

definition maxInterventionKeys :: nat where "maxInterventionKeys = 20"

text \<open>The keys of a message, by the oldest decision of each.\<close>

definition InterventionKeys :: "string \<Rightarrow> attention_db \<Rightarrow> string list" where
  "InterventionKeys iid a =
     (if iid = [] then []
      else let rows = filter (\<lambda>r. (ar_intervention r = Some iid \<or> ar_id r = iid) \<and> ar_delivered r \<and> \<not> ar_shadow r \<and> ar_key r \<noteq> []) (at_rows a)
           in take maxInterventionKeys (rev (remdups (rev (map ar_key (sort_key ar_at (sort_key ar_key rows)))))))"

end
