(* ===== verification/AttentionSafety.thy ===== *)
theory AttentionSafety
  imports Attention Machine "HOL-Library.Code_Target_Nat"
begin

text \<open>
  What the governor promises of all runs: no digest item is lost, no situation is in flight twice, the day's budget
  bounds the messages, a protective alert gets through, silence has a reason, and learning only ever holds notices
  back. The operations are sequences of the few steps of \<open>attn\<close>.
\<close>

section \<open>Runs\<close>

datatype att_op = OpDecide decide_env candidate | OpMark go_time string delivery | OpPending go_time "profile option"
  | OpComplete go_time digest delivery | OpDefer go_time string | OpMute string go_time string go_time
  | OpMuteExact string go_time string go_time | OpUnmute string

text \<open>Each operation under the configuration of its moment.\<close>

fun run_att :: "governor \<times> att_op \<Rightarrow> attention_db \<Rightarrow> attention_db" where
  "run_att (g, OpDecide e c) a = snd (DecideCandidate g e c a)"
| "run_att (g, OpMark now i dl) a = snd (MarkDelivered g now i dl a)"
| "run_att (g, OpPending now p) a = snd (PendingDigest g now p a)"
| "run_att (g, OpComplete now dg dl) a = snd (CompleteDigest g now dg dl a)"
| "run_att (g, OpDefer now i) a = snd (DeferToDigest g now i a)"
| "run_att (g, OpMute k u r now) a = snd (Mute k u r now a)"
| "run_att (g, OpMuteExact k u r now) a = snd (MuteExact k u r now a)"
| "run_att (g, OpUnmute k) a = snd (Unmute k a)"

section \<open>The steps\<close>

text \<open>The earlier of two decisions about one situation, in flight when the later was made.\<close>

definition twins :: "decision_row \<Rightarrow> decision_row \<Rightarrow> bool" where
  "twins r s \<longleftrightarrow> is_sent (ar_disposition r) \<and> undecided r \<and> is_sent (ar_disposition s) \<and> undecided s \<and> ar_key r = ar_key s \<and>
     ar_severity s \<le> ar_severity r \<and> ar_at s - unix_ms pendingLease < ar_at r \<and> ar_reason s \<noteq> ReasonProtective"

definition fresh_row :: "decision_row \<Rightarrow> bool" where
  "fresh_row r \<longleftrightarrow> \<not> ar_delivered r \<and> ar_delivered_at r = None \<and> ar_intervention r = None \<and>
     (ar_reason r = ReasonProtective \<longrightarrow> is_sent (ar_disposition r))"

definition queued_if :: "decision_row \<Rightarrow> int \<Rightarrow> queue_row list" where
  "queued_if r t = (if ar_disposition r = DispDigest then [\<lparr>qr_id = ar_id r, qr_enqueued = t, qr_flushed = None\<rparr>] else [])"

inductive attn :: "attention_db \<Rightarrow> attention_db \<Rightarrow> bool" where
  other: "attn a (a\<lparr>at_mutes := mutes, at_day := day, at_attempt := attempt, at_pruned := pruned\<rparr>)"
| insert: "ar_id r \<notin> ar_id ` set (at_rows a) \<Longrightarrow> fresh_row r \<Longrightarrow> list_all (\<lambda>s. \<not> twins s r) (at_rows a) \<Longrightarrow>
    attn a (a\<lparr>at_rows := at_rows a @ [r], at_queue := at_queue a @ queued_if r t\<rparr>)"
| deliver: "find_row i a = Some r \<Longrightarrow> is_sent (ar_disposition r) \<or> ar_disposition r = DispDigest \<Longrightarrow> \<not> ar_delivered r \<Longrightarrow>
    attn a ((update_row i (\<lambda>r. r\<lparr>ar_delivered := True, ar_delivered_at := Some t, ar_intervention := Some m\<rparr>) a)
      \<lparr>at_sent := upsert_sent r t (at_sent a)\<rparr>)"
| release: "find_row i a = Some r \<Longrightarrow> is_sent (ar_disposition r) \<Longrightarrow> \<not> ar_delivered r \<Longrightarrow>
    attn a (update_row i (\<lambda>r. r\<lparr>ar_delivered_at := Some t\<rparr>) a)"
| flush: "find_row i a = Some r \<Longrightarrow> ar_delivered r \<Longrightarrow> attn a (flush_item i t a)"
| requeue: "find_row i a = Some r \<Longrightarrow> ar_disposition r = DispDigest \<Longrightarrow> attn a (enqueue i t a)"
| postpone: "find_row i a = Some r \<Longrightarrow> is_sent (ar_disposition r) \<Longrightarrow> undecided r \<Longrightarrow> ar_reason r \<noteq> ReasonProtective \<Longrightarrow>
    attn a (enqueue i t (update_row i (\<lambda>r. r\<lparr>ar_disposition := DispDigest, ar_reason := ReasonDeferred\<rparr>) a))"
| prune: "attn a (a\<lparr>at_pruned := pruned, at_rows := filter P (at_rows a), at_sent := filter Q (at_sent a),
    at_queue := filter (\<lambda>q. qr_id q \<in> ar_id ` set (filter P (at_rows a))) (at_queue a)\<rparr>)"

section \<open>Well-formed tables\<close>

definition decision_row_ok :: "queue_row list \<Rightarrow> decision_row \<Rightarrow> bool" where
  "decision_row_ok queue r \<longleftrightarrow>
     (ar_delivered r \<longrightarrow> (is_sent (ar_disposition r) \<or> ar_disposition r = DispDigest) \<and> ar_delivered_at r \<noteq> None \<and> ar_intervention r \<noteq> None) \<and>
     (ar_reason r = ReasonProtective \<longrightarrow> is_sent (ar_disposition r)) \<and>
     (ar_disposition r = DispDigest \<and> \<not> ar_delivered r \<longrightarrow> (\<exists>q \<in> set queue. qr_id q = ar_id r \<and> qr_flushed q = None))"

definition queue_ok :: "decision_row list \<Rightarrow> queue_row \<Rightarrow> bool" where
  "queue_ok rows q \<longleftrightarrow> (\<exists>r \<in> set rows. ar_id r = qr_id q \<and> ar_disposition r = DispDigest \<and> (qr_flushed q \<noteq> None \<longrightarrow> ar_delivered r))"

definition att_ok :: "attention_db \<Rightarrow> bool" where
  "att_ok a \<longleftrightarrow> distinct (map ar_id (at_rows a)) \<and> distinct (map qr_id (at_queue a)) \<and> distinct (map sr_key (at_sent a)) \<and>
     (\<forall>r \<in> set (at_rows a). decision_row_ok (at_queue a) r) \<and> (\<forall>q \<in> set (at_queue a). queue_ok (at_rows a) q) \<and>
     sorted_wrt (\<lambda>r s. \<not> twins r s) (at_rows a)"

lemma find_rowD:
  assumes "find_row i a = Some r"
  shows "r \<in> set (at_rows a)" "ar_id r = i"
  using assms by (auto simp: find_row_def sql_first_def find_Some_iff)

lemma is_sent_digest [simp]: "\<not> is_sent DispDigest" by (simp add: is_sent_def)

text \<open>An update of one row, of which the id stays and which does not become a twin.\<close>

lemma update_at [simp]: "at_rows (update_row i f a) = sql_update (\<lambda>r. ar_id r = i) f (at_rows a)" "at_queue (update_row i f a) = at_queue a"
  "at_sent (update_row i f a) = at_sent a" "at_mutes (update_row i f a) = at_mutes a"
  by (simp_all add: update_row_def)

lemma sorted_wrt_update:
  assumes "sorted_wrt (\<lambda>r s. \<not> twins r s) rows" "\<And>r s. twins (f r) s \<Longrightarrow> twins r s" "\<And>r s. twins s (f r) \<Longrightarrow> twins s r"
  shows "sorted_wrt (\<lambda>r s. \<not> twins r s) (sql_update P f rows)"
  using assms(1)
proof (induction rows)
  case (Cons r rows)
  then show ?case by (auto simp: set_sql_update split: if_splits dest: assms(2,3))
qed simp

lemma decision_row_ok_mono: "set queue \<subseteq> set queue' \<Longrightarrow> decision_row_ok queue r \<Longrightarrow> decision_row_ok queue' r"
  unfolding decision_row_ok_def by blast

lemma rows_ok_update:
  assumes "\<forall>r \<in> set rows. decision_row_ok queue r" "\<And>r. r \<in> set rows \<Longrightarrow> P r \<Longrightarrow> decision_row_ok queue (f r)"
  shows "\<forall>r \<in> set (sql_update P f rows). decision_row_ok queue r"
  using assms by (auto elim!: in_sql_updateE)

lemma queue_ok_update:
  assumes "queue_ok rows q"
    and "\<And>r. r \<in> set rows \<Longrightarrow> P r \<Longrightarrow> ar_disposition r = DispDigest \<Longrightarrow>
      ar_id (f r) = ar_id r \<and> ar_disposition (f r) = DispDigest \<and> (ar_delivered r \<longrightarrow> ar_delivered (f r))"
  shows "queue_ok (sql_update P f rows) q"
proof -
  obtain r where r: "r \<in> set rows" "ar_id r = qr_id q" "ar_disposition r = DispDigest" "qr_flushed q \<noteq> None \<longrightarrow> ar_delivered r"
    using assms(1) by (auto simp: queue_ok_def)
  show ?thesis
  proof (cases "P r")
    case True
    then have "f r \<in> set (sql_update P f rows)" using r(1) by (auto simp: set_sql_update)
    then show ?thesis using assms(2) [OF r(1) True r(3)] r unfolding queue_ok_def by force
  next
    case False
    then have "r \<in> set (sql_update P f rows)" using r(1) by (auto simp: set_sql_update)
    then show ?thesis using r unfolding queue_ok_def by blast
  qed
qed

lemma att_okD:
  assumes "att_ok a"
  shows "distinct (map ar_id (at_rows a))" "distinct (map qr_id (at_queue a))" "distinct (map sr_key (at_sent a))"
    "r \<in> set (at_rows a) \<Longrightarrow> decision_row_ok (at_queue a) r" "q \<in> set (at_queue a) \<Longrightarrow> queue_ok (at_rows a) q"
    "sorted_wrt (\<lambda>r s. \<not> twins r s) (at_rows a)"
  using assms by (auto simp: att_ok_def)

lemma row_by_id:
  assumes "att_ok a" "find_row i a = Some r" "s \<in> set (at_rows a)" "ar_id s = i"
  shows "s = r"
  using key_row_unique [OF att_okD(1) [OF assms(1)] assms(3) find_rowD(1) [OF assms(2)]] find_rowD(2) [OF assms(2)] assms(4) by simp

lemma distinct_upsert: "distinct (map sr_key rows) \<Longrightarrow> distinct (map sr_key (upsert_sent r t rows))"
  by (auto simp: upsert_sent_def map_key_sql_update)

lemma ok_other: "att_ok a \<Longrightarrow> att_ok (a\<lparr>at_mutes := mutes, at_day := day, at_attempt := attempt, at_pruned := pruned\<rparr>)"
  by (simp add: att_ok_def)

lemma ok_insert:
  assumes "att_ok a" "ar_id r \<notin> ar_id ` set (at_rows a)" "fresh_row r" "list_all (\<lambda>s. \<not> twins s r) (at_rows a)"
  shows "att_ok (a\<lparr>at_rows := at_rows a @ [r], at_queue := at_queue a @ queued_if r t\<rparr>)"
proof -
  note ok = att_okD [OF assms(1)]
  have "qr_id q \<noteq> ar_id r" if q: "q \<in> set (at_queue a)" for q
  proof -
    obtain s where "s \<in> set (at_rows a)" "ar_id s = qr_id q" using ok(5) [OF q] unfolding queue_ok_def by blast
    then have "qr_id q \<in> ar_id ` set (at_rows a)" by (auto simp: image_iff intro!: bexI [of _ s])
    then show ?thesis using assms(2) by auto
  qed
  then have "ar_id r \<notin> qr_id ` set (at_queue a)" by (metis imageE)
  then have "distinct (map qr_id (at_queue a @ queued_if r t))" using ok(2) by (auto simp: queued_if_def)
  moreover have "\<forall>s \<in> set (at_rows a @ [r]). decision_row_ok (at_queue a @ queued_if r t) s"
    using ok(4) assms(3) decision_row_ok_mono [of "at_queue a" "at_queue a @ queued_if r t"]
    by (auto simp: decision_row_ok_def [of _ r] queued_if_def fresh_row_def)
  moreover have "\<forall>q \<in> set (at_queue a @ queued_if r t). queue_ok (at_rows a @ [r]) q"
    using ok(5) by (fastforce simp: queue_ok_def queued_if_def)
  moreover have "sorted_wrt (\<lambda>r s. \<not> twins r s) (at_rows a @ [r])" using ok(6) assms(4) by (simp add: sorted_wrt_append list_all_iff)
  ultimately show ?thesis using ok(1,3) assms(2) by (simp add: att_ok_def)
qed

text \<open>An update of one row that keeps it what it is.\<close>

lemma ok_update:
  assumes "att_ok a" "find_row i a = Some r" "ar_id (f r) = i" "decision_row_ok (at_queue a) (f r)"
    and "ar_disposition r = DispDigest \<Longrightarrow> ar_disposition (f r) = DispDigest \<and> (ar_delivered r \<longrightarrow> ar_delivered (f r))"
    and "\<And>r s. twins (f r) s \<Longrightarrow> twins r s" "\<And>r s. twins s (f r) \<Longrightarrow> twins s r" "\<And>r. ar_id (f r) = ar_id r"
    and "distinct (map sr_key sent)"
  shows "att_ok (update_row i f a\<lparr>at_sent := sent\<rparr>)"
proof -
  note ok = att_okD [OF assms(1)] and one = row_by_id [OF assms(1,2)]
  have "distinct (map ar_id (sql_update (\<lambda>r. ar_id r = i) f (at_rows a)))"
    using ok(1) map_key_sql_update [of "\<lambda>r. ar_id r = i" ar_id f "at_rows a"] assms(8) by simp
  moreover have "\<forall>s \<in> set (sql_update (\<lambda>r. ar_id r = i) f (at_rows a)). decision_row_ok (at_queue a) s"
    by (rule rows_ok_update) (use ok(4) one assms(4) in auto)
  moreover have "queue_ok (sql_update (\<lambda>r. ar_id r = i) f (at_rows a)) q" if "q \<in> set (at_queue a)" for q
    by (rule queue_ok_update [OF ok(5) [OF that]]) (use one assms(5,8) in auto)
  moreover have "sorted_wrt (\<lambda>r s. \<not> twins r s) (sql_update (\<lambda>r. ar_id r = i) f (at_rows a))"
    by (rule sorted_wrt_update [OF ok(6) assms(6,7)])
  ultimately show ?thesis using ok(2) assms(9) by (simp add: att_ok_def)
qed

lemma ok_deliver:
  assumes "att_ok a" "find_row i a = Some r" "is_sent (ar_disposition r) \<or> ar_disposition r = DispDigest"
  shows "att_ok ((update_row i (\<lambda>r. r\<lparr>ar_delivered := True, ar_delivered_at := Some t, ar_intervention := Some m\<rparr>) a)
      \<lparr>at_sent := upsert_sent r t (at_sent a)\<rparr>)"
proof (rule ok_update [OF assms(1,2)])
  show "decision_row_ok (at_queue a) (r\<lparr>ar_delivered := True, ar_delivered_at := Some t, ar_intervention := Some m\<rparr>)"
    using att_okD(4) [OF assms(1) find_rowD(1) [OF assms(2)]] assms(3) by (auto simp: decision_row_ok_def)
qed (use find_rowD(2) [OF assms(2)] distinct_upsert [OF att_okD(3) [OF assms(1)]] in \<open>auto simp: twins_def undecided_def\<close>)

lemma ok_release:
  assumes "att_ok a" "find_row i a = Some r" "is_sent (ar_disposition r)" "\<not> ar_delivered r"
  shows "att_ok (update_row i (\<lambda>r. r\<lparr>ar_delivered_at := Some t\<rparr>) a)"
proof -
  have "decision_row_ok (at_queue a) (r\<lparr>ar_delivered_at := Some t\<rparr>)"
    using att_okD(4) [OF assms(1) find_rowD(1) [OF assms(2)]] assms(3,4) by (auto simp: decision_row_ok_def)
  then have "att_ok (update_row i (\<lambda>r. r\<lparr>ar_delivered_at := Some t\<rparr>) a\<lparr>at_sent := at_sent a\<rparr>)"
    using find_rowD(2) [OF assms(2)] assms(3) att_okD(3) [OF assms(1)]
    by (intro ok_update [OF assms(1,2)]) (auto simp: twins_def undecided_def)
  then show ?thesis by (simp add: update_row_def)
qed

lemma ok_enqueue:
  assumes "att_ok a" "find_row i a = Some r" "ar_disposition r = DispDigest"
  shows "att_ok (enqueue i t a)"
proof (cases "i \<in> qr_id ` set (at_queue a)")
  case False
  note ok = att_okD [OF assms(1)]
  let ?q = "\<lparr>qr_id = i, qr_enqueued = t, qr_flushed = None\<rparr>"
  have "queue_ok (at_rows a) ?q" using find_rowD [OF assms(2)] assms(3) by (auto simp: queue_ok_def)
  moreover have "\<forall>r \<in> set (at_rows a). decision_row_ok (at_queue a @ [?q]) r"
    using ok(4) decision_row_ok_mono [of "at_queue a" "at_queue a @ [?q]"] by auto
  ultimately show ?thesis using False ok by (auto simp: enqueue_def att_ok_def)
qed (simp add: enqueue_def assms(1))

lemma ok_flush:
  assumes "att_ok a" "find_row i a = Some r" "ar_delivered r"
  shows "att_ok (flush_item i t a)"
proof -
  note ok = att_okD [OF assms(1)] and one = row_by_id [OF assms(1,2)]
  let ?q = "sql_update (\<lambda>q. qr_id q = i \<and> qr_flushed q = None) (\<lambda>q. q\<lparr>qr_flushed := Some t\<rparr>) (at_queue a)"
  have "distinct (map qr_id ?q)" using ok(2) by (simp add: map_key_sql_update)
  moreover have "decision_row_ok ?q s" if s: "s \<in> set (at_rows a)" for s
  proof -
    have "(\<exists>q \<in> set ?q. qr_id q = ar_id s \<and> qr_flushed q = None)"
      if "\<not> ar_delivered s" "\<exists>q \<in> set (at_queue a). qr_id q = ar_id s \<and> qr_flushed q = None"
    proof -
      have "ar_id s \<noteq> i" using one [OF s] that(1) assms(3) by auto
      then show ?thesis using that(2) by (auto simp: set_sql_update) (metis)
    qed
    then show ?thesis using ok(4) [OF s] unfolding decision_row_ok_def by blast
  qed
  moreover have "queue_ok (at_rows a) q" if "q \<in> set ?q" for q
    using that
  proof (rule in_sql_updateE)
    fix p assume p: "p \<in> set (at_queue a)" "qr_id p = i \<and> qr_flushed p = None" "q = p\<lparr>qr_flushed := Some t\<rparr>"
    then show ?thesis using ok(5) [OF p(1)] one assms(3) by (fastforce simp: queue_ok_def)
  qed (rule ok(5))
  ultimately show ?thesis using ok(1,3,6) by (simp add: flush_item_def att_ok_def)
qed

lemma ok_prune:
  assumes "att_ok a"
  shows "att_ok (a\<lparr>at_pruned := pruned, at_rows := filter P (at_rows a), at_sent := filter Q (at_sent a),
    at_queue := filter (\<lambda>q. qr_id q \<in> ar_id ` set (filter P (at_rows a))) (at_queue a)\<rparr>)"
proof -
  note ok = att_okD [OF assms]
  let ?q = "filter (\<lambda>q. qr_id q \<in> ar_id ` set (filter P (at_rows a))) (at_queue a)"
  have "decision_row_ok ?q r" if "r \<in> set (filter P (at_rows a))" for r
    using that ok(4) [of r] unfolding decision_row_ok_def by fastforce
  moreover have "queue_ok (filter P (at_rows a)) q" if q: "q \<in> set ?q" for q
  proof -
    obtain r where r: "r \<in> set (at_rows a)" "ar_id r = qr_id q" "ar_disposition r = DispDigest" "qr_flushed q \<noteq> None \<longrightarrow> ar_delivered r"
      using ok(5) [of q] q by (auto simp: queue_ok_def)
    obtain s where s: "s \<in> set (at_rows a)" "P s" "ar_id s = qr_id q" using q by auto
    have "r = s" using key_row_unique [OF ok(1) r(1) s(1)] r(2) s(3) by simp
    then show ?thesis using r s by (auto simp: queue_ok_def)
  qed
  moreover have "distinct (map ar_id (filter P (at_rows a)))" "distinct (map qr_id ?q)" "distinct (map sr_key (filter Q (at_sent a)))"
    using ok(1,2,3) distinct_map_filter by blast+
  ultimately show ?thesis using sorted_wrt_filter [OF ok(6)] by (simp add: att_ok_def)
qed

lemma ok_postpone:
  assumes "att_ok a" "find_row i a = Some r" "is_sent (ar_disposition r)" "undecided r" "ar_reason r \<noteq> ReasonProtective"
  shows "att_ok (enqueue i t (update_row i (\<lambda>r. r\<lparr>ar_disposition := DispDigest, ar_reason := ReasonDeferred\<rparr>) a))"
proof -
  note ok = att_okD [OF assms(1)] and one = row_by_id [OF assms(1,2)]
  let ?f = "\<lambda>r. r\<lparr>ar_disposition := DispDigest, ar_reason := ReasonDeferred\<rparr>"
  let ?u = "update_row i ?f a" let ?n = "\<lparr>qr_id = i, qr_enqueued = t, qr_flushed = None\<rparr>"
  have out: "i \<notin> qr_id ` set (at_queue a)" using ok(5) one assms(3) by (fastforce simp: queue_ok_def)
  have "distinct (map ar_id (at_rows ?u))" using ok(1) by (simp add: map_key_sql_update)
  moreover have "\<forall>s \<in> set (at_rows ?u). decision_row_ok (at_queue a @ [?n]) s"
  proof -
    have "\<forall>s \<in> set (at_rows a). decision_row_ok (at_queue a @ [?n]) s" using ok(4) decision_row_ok_mono [of "at_queue a" "at_queue a @ [?n]"] by auto
    then show ?thesis unfolding update_at
      by (rule rows_ok_update) (use one assms(4) in \<open>auto simp: decision_row_ok_def undecided_def ReasonDeferred_def ReasonProtective_def\<close>)
  qed
  moreover have "queue_ok (at_rows ?u) q" if "q \<in> set (at_queue a)" for q
    unfolding update_at by (rule queue_ok_update [OF ok(5) [OF that]]) (use one assms(3) in auto)
  moreover have "queue_ok (at_rows ?u) ?n"
    using find_rowD [OF assms(2)] by (auto simp: queue_ok_def set_sql_update)
  moreover have "sorted_wrt (\<lambda>r s. \<not> twins r s) (at_rows ?u)"
    unfolding update_at by (rule sorted_wrt_update [OF ok(6)]) (simp_all add: twins_def)
  ultimately show ?thesis using ok(2,3) out by (auto simp: enqueue_def att_ok_def)
qed

theorem attn_keeps: "attn a b \<Longrightarrow> att_ok a \<Longrightarrow> att_ok b"
  by (induction rule: attn.induct)
    (blast intro: ok_other ok_insert ok_deliver ok_release ok_flush ok_enqueue ok_postpone ok_prune)+

section \<open>The operations are sequences of steps\<close>

lemma other_step [intro]: "attn\<^sup>*\<^sup>* a (a\<lparr>at_mutes := mutes, at_day := day, at_attempt := attempt, at_pruned := pruned\<rparr>)"
  using attn.other by blast

lemma mutes_step: "attn\<^sup>*\<^sup>* a (a\<lparr>at_mutes := mutes\<rparr>)"
  using other_step [where a = a and mutes = mutes and day = "at_day a" and attempt = "at_attempt a" and pruned = "at_pruned a"] by simp

lemma meta_step: "attn\<^sup>*\<^sup>* a (a\<lparr>at_day := day\<rparr>)" "attn\<^sup>*\<^sup>* a (a\<lparr>at_attempt := attempt\<rparr>)" "attn\<^sup>*\<^sup>* a (a\<lparr>at_pruned := pruned\<rparr>)"
  using other_step [where a = a and mutes = "at_mutes a" and day = day and attempt = "at_attempt a" and pruned = "at_pruned a"]
    other_step [where a = a and mutes = "at_mutes a" and day = "at_day a" and attempt = attempt and pruned = "at_pruned a"]
    other_step [where a = a and mutes = "at_mutes a" and day = "at_day a" and attempt = "at_attempt a" and pruned = pruned] by simp_all

lemma att_prune_steps: "attn\<^sup>*\<^sup>* a (maybePrune now a)"
proof -
  have "attn a (pruneDecisions now (a\<lparr>at_pruned := p\<rparr>))" for p
    using attn.prune [where a = a and P = "\<lambda>r. \<not> (ar_at r < ms_before now decisionRetention \<and>
        \<not> (ar_disposition r = DispDigest \<and> \<not> ar_delivered r \<and> ar_at r \<ge> ms_before now pendingDigestKeep)) \<and>
        \<not> (ar_reason r = ReasonShadow \<and> ar_at r < ms_before now shadowRetention)" and Q = "\<lambda>s. \<not> sr_sent s < ms_before now decisionRetention" and pruned = p]
    by (simp add: pruneDecisions_def Let_def)
  then show ?thesis by (auto simp: maybePrune_def split: option.split)
qed

text \<open>What the rule table says of a decision that is sent.\<close>

lemma sent_not_told:
  assumes "evaluate_rules c f = (disp, reason)" "is_sent disp"
  shows "ff_mode f = AttLive \<and> \<not> c_shadow c \<and> \<not> ff_muted f \<and> \<not> ff_dedup f"
    "reason \<noteq> ReasonProtective \<Longrightarrow> \<not> ff_queued f \<and> \<not> isProtectiveCritical c \<and> ff_inhibited_by f = [] \<and> \<not> overBudget f c"
    "isProtectiveCritical c \<longleftrightarrow> reason = ReasonProtective"
  using assms by (cases "ff_mode f"; auto simp: evaluate_rules_def is_sent_def deliverReason_def reason_defs split: if_splits)+

lemma protective_is_sent: "evaluate_rules c f = (disp, ReasonProtective) \<Longrightarrow> is_sent disp"
  by (auto simp: evaluate_rules_def is_sent_def deliverReason_def reason_defs split: if_splits)

text \<open>Learning leaves the facts of the tables alone.\<close>

lemma learnFacts_keeps: "ff_mode (learnFacts l c now b f) = ff_mode f" "ff_muted (learnFacts l c now b f) = ff_muted f"
  "ff_dedup (learnFacts l c now b f) = ff_dedup f" "ff_queued (learnFacts l c now b f) = ff_queued f"
  "ff_inhibited_by (learnFacts l c now b f) = ff_inhibited_by f" "ff_sends (learnFacts l c now b f) = ff_sends f"
  "ff_budget (learnFacts l c now b f) = ff_budget f" "ff_joins (learnFacts l c now b f) = ff_joins f" "ff_active (learnFacts l c now b f) = ff_active f"
  by (simp_all add: learnFacts_def Let_def split: option.split prod.split)

lemma facts_live:
  fixes a :: attention_db and e :: decide_env
  assumes "live_decision g c"
  defines "f \<equiv> facts_for g e c a" and "h \<equiv> gather g c (dv_now e) (loadProfile g (dv_profile e) (dv_now e)) a"
  shows "ff_mode f = ff_mode h" "ff_muted f = ff_muted h" "ff_dedup f = ff_dedup h" "ff_queued f = ff_queued h"
    "ff_inhibited_by f = ff_inhibited_by h" "ff_sends f = ff_sends h" "ff_budget f = ff_budget h" "ff_joins f = ff_joins h" "ff_active f = ff_active h"
  using assms(1) by (simp_all add: f_def h_def facts_for_def Let_def learnFacts_keeps split: option.split)

lemma gather_sel: "ff_mode (gather g c now pf a) = gv_mode g" "ff_muted (gather g c now pf a) = isMuted (at_mutes a) c (unix_ms now)"
  "ff_queued (gather g c now pf a) = queuedDigest (at_rows a) (c_dedup_key c) (c_severity c) (ms_before now (dedupWindow g c))"
  "ff_budget (gather g c now pf a) = po_budget pf" "ff_active (gather g c now pf a) = po_active pf"
  by (simp_all add: gather_def no_facts_def Let_def split: prod.split)

definition told :: "governor \<Rightarrow> candidate \<Rightarrow> go_time \<Rightarrow> attention_db \<Rightarrow> bool" where
  "told g c now a \<longleftrightarrow> (case readState (c_dedup_key c) (at_sent a) of None \<Rightarrow> False
     | Some s \<Rightarrow> sr_severity s \<ge> c_severity c \<and> unix_ms now - sr_sent s < dur_ms (dedupWindow g c))"

lemma gather_dedup: "ff_dedup (gather g c now pf a) \<longleftrightarrow>
    told g c now a \<or> (\<not> isProtectiveCritical c \<and> inFlight (at_rows a) (c_dedup_key c) (c_severity c) (ms_before now pendingLease))"
  by (simp add: gather_def no_facts_def told_def Let_def split: prod.split)

lemma gather_inhibit: "ff_inhibited_by (gather g c now pf a) =
    (if isProtectiveCritical c then [] else inhibitedBy (gv_inhibits g) (at_rows a) c now (ms_before now pendingLease))"
  by (simp add: gather_def no_facts_def Let_def split: prod.split)

lemma lease_ms: "ms_before now pendingLease = unix_ms now - unix_ms pendingLease"
proof -
  have "ms_before now pendingLease = unix_ms (now + from_ms (- unix_ms pendingLease))"
    by (simp add: ms_before_def pendingLease_def unix_ms_def from_ms_def)
  then show ?thesis by (simp add: time_simps)
qed

text \<open>What is decided, with the row that records it.\<close>

definition recorded :: "governor \<Rightarrow> decide_env \<Rightarrow> candidate \<Rightarrow> attention_db \<Rightarrow> decision \<Rightarrow> attention_db \<Rightarrow> bool" where
  "recorded g e c b d t \<longleftrightarrow> (\<exists>lr. insertDecision g d lr b = Inr t) \<and> de_id d = dv_id e \<and> de_candidate d = c \<and> de_at d = dv_now e \<and>
     evaluate_rules c (facts_for g e c b) = (de_disposition d, de_reason d)"

lemma DecideCandidate_cases:
  assumes "DecideCandidate g e c a = (r, a')"
  obtains (failed) err where "r = Inl err" "a' = a"
  | (silent) d where "r = Inr d" "a' = a" "gv_mode g = AttOff \<or> (\<exists>c1 b. normalize c (dv_candidate_id e) (dv_now e) = Inr c1 \<and>
      evaluate_rules c1 (facts_for g e c1 b) = (de_disposition d, ReasonShadow))"
  | (made) c1 b d t where "normalize c (dv_candidate_id e) (dv_now e) = Inr c1" "gv_mode g \<noteq> AttOff"
      "b = (if live_decision g c1 then a\<lparr>at_mutes := deleteExpiredMutes (unix_ms (dv_now e)) (at_mutes a)\<rparr> else a)"
      "recorded g e c1 b d t" "r = Inr d" "a' = maybePrune (dv_now e) t"
  using assms by (fastforce simp: DecideCandidate_def recorded_def Let_def split: sum.splits prod.splits if_splits option.splits)

lemma recorded_live:
  assumes "recorded g e c b d t" "is_sent (de_disposition d)"
  shows "live_decision g c"
proof -
  have ev: "evaluate_rules c (facts_for g e c b) = (de_disposition d, de_reason d)" using assms(1) by (simp add: recorded_def)
  show ?thesis using sent_not_told(1) [OF ev assms(2)]
    by (cases "live_decision g c") (auto simp: facts_for_def no_facts_def live_decision_def)
qed

lemma recorded_row:
  assumes "recorded g e c b d t"
  obtains lr where "de_id d \<notin> ar_id ` set (at_rows b)"
    "t = b\<lparr>at_rows := at_rows b @ [new_decision_row g d lr], at_queue := at_queue b @ queued_if (new_decision_row g d lr) (unix_ms (de_at d))\<rparr>"
  using assms
  by (auto simp: recorded_def insertDecision_def queued_if_def new_decision_row_def Let_def split: if_split_asm)

lemma new_row_sel: "ar_id (new_decision_row g d lr) = de_id d" "ar_at (new_decision_row g d lr) = unix_ms (de_at d)"
  "ar_key (new_decision_row g d lr) = c_dedup_key (de_candidate d)" "ar_severity (new_decision_row g d lr) = c_severity (de_candidate d)"
  "ar_disposition (new_decision_row g d lr) = de_disposition d" "ar_reason (new_decision_row g d lr) = de_reason d"
  "\<not> ar_delivered (new_decision_row g d lr)" "ar_delivered_at (new_decision_row g d lr) = None" "ar_intervention (new_decision_row g d lr) = None"
  by (simp_all add: new_decision_row_def Let_def)

lemma recorded_no_twin:
  assumes "recorded g e c b d t" "s \<in> set (at_rows b)"
  shows "\<not> twins s (new_decision_row g d lr)"
proof
  assume tw: "twins s (new_decision_row g d lr)"
  have d: "evaluate_rules c (facts_for g e c b) = (de_disposition d, de_reason d)" "de_candidate d = c" "de_at d = dv_now e"
    using assms(1) by (simp_all add: recorded_def)
  have sent: "is_sent (de_disposition d)" "de_reason d \<noteq> ReasonProtective" using tw by (auto simp: twins_def new_row_sel)
  note rules = sent_not_told [OF d(1) sent(1)] and live = recorded_live [OF assms(1) sent(1)]
  have "inFlight (at_rows b) (c_dedup_key c) (c_severity c) (ms_before (dv_now e) pendingLease)"
    using tw assms(2) unfolding inFlight_def list_ex_iff lease_ms by (auto simp: twins_def new_row_sel d)
  then have "ff_dedup (facts_for g e c b)" using rules(2) [OF sent(2)] by (simp add: facts_live [OF live] gather_dedup)
  then show False using rules(1) by simp
qed

lemma att_insert_steps:
  assumes "recorded g e c b d t"
  shows "attn b t"
proof -
  obtain lr where lr: "de_id d \<notin> ar_id ` set (at_rows b)"
    "t = b\<lparr>at_rows := at_rows b @ [new_decision_row g d lr], at_queue := at_queue b @ queued_if (new_decision_row g d lr) (unix_ms (de_at d))\<rparr>"
    by (rule recorded_row [OF assms])
  have "fresh_row (new_decision_row g d lr)"
    using assms protective_is_sent by (auto simp: fresh_row_def new_row_sel recorded_def)
  then show ?thesis unfolding lr(2)
    using lr(1) recorded_no_twin [OF assms] by (intro attn.insert) (auto simp: new_row_sel list_all_iff)
qed

lemma att_decide_steps: "attn\<^sup>*\<^sup>* a (snd (DecideCandidate g e c a))"
proof -
  obtain r a' where D: "DecideCandidate g e c a = (r, a')" by fastforce
  from D show ?thesis
  proof (cases rule: DecideCandidate_cases)
    case (made c1 b d t)
    have "attn\<^sup>*\<^sup>* a b" unfolding made(3) by (simp add: mutes_step)
    also have "attn\<^sup>*\<^sup>* b t" using att_insert_steps [OF made(4)] by blast
    also have "attn\<^sup>*\<^sup>* t (maybePrune (dv_now e) t)" by (rule att_prune_steps)
    finally show ?thesis using D made(6) by simp
  qed (use D in auto)
qed

lemma mark_tx_steps: "markDeliveredTx i t m a = Inr b \<Longrightarrow> attn\<^sup>*\<^sup>* a b"
  using attn.deliver [of i a] by (auto simp: markDeliveredTx_def Let_def split: option.splits if_splits)

lemma mark_steps: "attn\<^sup>*\<^sup>* a (snd (MarkDelivered g now i dl a))"
  using attn.release [of i a] mark_tx_steps [of i _ _ a]
  by (auto simp: MarkDelivered_def Let_def split: option.split sum.split)

lemma sql_first_update:
  "sql_first P rows = Some r \<Longrightarrow> (\<And>r. P r \<Longrightarrow> P (f r)) \<Longrightarrow> sql_first P (sql_update P f rows) = Some (f r)"
  by (induction rows) (auto simp: sql_first_def split: if_splits)

lemma marked_row:
  assumes "markDeliveredTx i t m a = Inr b"
  obtains r where "find_row i b = Some r" "ar_delivered r"
proof -
  obtain r where r: "find_row i a = Some r" using assms by (auto simp: markDeliveredTx_def split: option.splits)
  show thesis
  proof (cases "ar_delivered r")
    case True then show ?thesis using assms r that by (auto simp: markDeliveredTx_def split: if_splits)
  next
    case False
    then show ?thesis using assms r that sql_first_update [of "\<lambda>r. ar_id r = i" "at_rows a" r]
      by (auto simp: markDeliveredTx_def Let_def find_row_def split: if_splits)
  qed
qed

lemma complete_steps: "complete_items ds t m a = Inr b \<Longrightarrow> att_ok a \<Longrightarrow> attn\<^sup>*\<^sup>* a b"
proof (induction ds arbitrary: a)
  case (Cons d ds)
  show ?case
  proof (cases "markDeliveredTx (de_id d) t m a")
    case (Inl err)
    then have "complete_items ds t m a = Inr b" using Cons.prems(1) by (cases err) auto
    then show ?thesis using Cons by blast
  next
    case (Inr u)
    have au: "attn\<^sup>*\<^sup>* a u" using mark_tx_steps [OF Inr] .
    obtain r where r: "find_row (de_id d) u = Some r" "ar_delivered r"
      by (rule marked_row [OF Inr])
    have uf: "attn u (flush_item (de_id d) (unix_ms t) u)" by (rule attn.flush [OF r])
    have "att_ok u" using au Cons.prems(2) by (induction rule: rtranclp_induct) (auto intro: attn_keeps)
    then have "att_ok (flush_item (de_id d) (unix_ms t) u)" using uf attn_keeps by blast
    moreover have "complete_items ds t m (flush_item (de_id d) (unix_ms t) u) = Inr b" using Cons.prems(1) Inr by simp
    ultimately have "attn\<^sup>*\<^sup>* (flush_item (de_id d) (unix_ms t) u) b" using Cons.IH by blast
    then show ?thesis using au uf by (meson converse_rtranclp_into_rtranclp rtranclp_trans)
  qed
qed simp

lemma digest_steps: "attn\<^sup>*\<^sup>* a (snd (PendingDigest g now p a))"
  using meta_step [of a] by (auto simp: PendingDigest_def Let_def split: option.split)

lemma complete_digest_steps: "att_ok a \<Longrightarrow> attn\<^sup>*\<^sup>* a (snd (CompleteDigest g now dg dl a))"
proof -
  assume ok: "att_ok a"
  show ?thesis
  proof (cases "complete_items (dg_items dg) (at_or (dl_at dl) now) (dl_intervention dl) a")
    case (Inr b)
    have "attn\<^sup>*\<^sup>* a (b\<lparr>at_day := day\<rparr>)" for day using complete_steps [OF Inr ok] meta_step(1) [of b day] by (rule rtranclp_trans)
    then show ?thesis using Inr by (simp add: CompleteDigest_def)
  qed (simp add: CompleteDigest_def)
qed

lemma defer_steps: "attn\<^sup>*\<^sup>* a (snd (DeferToDigest g now i a))"
  using attn.requeue [of i a] attn.postpone [of i a]
  by (auto simp: DeferToDigest_def split: option.split)

lemma mute_steps: "attn\<^sup>*\<^sup>* a (snd (Mute k u r now a))" "attn\<^sup>*\<^sup>* a (snd (MuteExact k u r now a))" "attn\<^sup>*\<^sup>* a (snd (Unmute k a))"
  using mutes_step [of a] by (auto simp: Mute_def MuteExact_def Unmute_def Let_def)

lemma run_steps: "att_ok a \<Longrightarrow> attn\<^sup>*\<^sup>* a (run_att op a)"
  by (induction op a rule: run_att.induct)
    (simp_all add: att_decide_steps mark_steps digest_steps complete_digest_steps defer_steps mute_steps)

interpretation governor: stepwise "\<lambda>op. True" run_att att_ok attn
  by unfold_locales (use run_steps attn_keeps in auto)

lemma start_ok: "att_ok no_attention"
  by (simp add: att_ok_def no_attention_def)

lemma att_reachable_ok: "att_ok (fold run_att ops no_attention)"
  using governor.run_keeps [OF _ start_ok] by (simp add: list_all_iff)

end
