(* ===== verification/AttentionPromises.thy ===== *)
theory AttentionPromises
  imports AttentionSafety
begin

text \<open>
  The promises of the governor, each with a run that shows its hypotheses can hold: what is queued is offered, one
  message of a situation is in flight, protective alerts get through, silence has a reason, the budget bounds the
  messages of a day, and learning holds back notices only.
\<close>

section \<open>The digest and the messages in flight\<close>

text \<open>
  C35. No digest item is lost: after any operations, under any changes of the configuration, each decision that was left
  to the digest and has not been delivered is among the items that the next digest offers.
\<close>

theorem digest_items_are_kept:
  assumes "r \<in> set (at_rows (fold run_att ops no_attention))" "ar_disposition r = DispDigest" "\<not> ar_delivered r"
  shows "item_of g r \<in> set (queuedDigestItems g (fold run_att ops no_attention))"
proof -
  let ?a = "fold run_att ops no_attention"
  have ok: "att_ok ?a" by (rule att_reachable_ok)
  obtain q where q: "q \<in> set (at_queue ?a)" "qr_id q = ar_id r" "qr_flushed q = None"
    using att_okD(4) [OF ok assms(1)] assms(2,3) by (auto simp: decision_row_ok_def)
  obtain s where s: "find_row (ar_id r) ?a = Some s"
    using assms(1) sql_first_None [of "\<lambda>s. ar_id s = ar_id r" "at_rows ?a"] by (auto simp: find_row_def)
  have "s = r" using row_by_id [OF ok s assms(1)] by simp
  then show ?thesis using q s assms(2,3) unfolding queuedDigestItems_def
    by (auto simp: List.map_filter_def image_iff intro!: bexI [of _ q])
qed


section \<open>Protection and silence\<close>

text \<open>The names by which a protective alert can be muted, and nothing else.\<close>

definition own_mute :: "candidate \<Rightarrow> int \<Rightarrow> mute_row \<Rightarrow> bool" where
  "own_mute c now m \<longleftrightarrow> mu_until m > now \<and>
     (mu_key m = c_dedup_key c \<or> mu_key m = ''='' @ c_dedup_key c \<or> (c_trigger_id c \<noteq> [] \<and> (mu_key m = c_trigger_id c \<or> mu_key m = ''='' @ c_trigger_id c)))"

lemma protective_mute: "isMuted mutes c now \<Longrightarrow> isProtectiveCritical c \<Longrightarrow> \<exists>m \<in> set mutes. own_mute c now m"
  by (auto simp: isMuted_def Let_def own_mute_def list_ex_iff split: if_splits)

lemma muted_after_delete: "isMuted (deleteExpiredMutes now mutes) c now = isMuted mutes c now"
proof -
  have "filter (\<lambda>m. mu_until m > now \<and> P m) (filter (\<lambda>m. \<not> mu_until m \<le> now) mutes) = filter (\<lambda>m. mu_until m > now \<and> P m) mutes" for P
    by (induction mutes) auto
  then show ?thesis unfolding isMuted_def deleteExpiredMutes_def by (simp only:)
qed

lemma normalize_keeps:
  assumes "normalize c i now = Inr c1"
  shows "c_dedup_key c1 = c_dedup_key c" "c_severity c1 = c_severity c" "c_trigger_id c1 = c_trigger_id c" "c_shadow c1 = c_shadow c"
    "isProtectiveCritical c1 = isProtectiveCritical c" "dedupWindow g c1 = dedupWindow g c" "c_dedup_key c \<noteq> []"
    "own_mute c1 now = own_mute c now" "isMuted mutes c1 t = isMuted mutes c t" "told g c1 t a = told g c t a"
proof -
  have c1: "c1 = c\<lparr>c_id := (if c_id c = [] then i else c_id c), c_at := Some (case c_at c of None \<Rightarrow> now | Some t \<Rightarrow> t)\<rparr>" "c_dedup_key c \<noteq> []"
    using assms by (auto simp: normalize_def split: if_split_asm)
  show "c_dedup_key c1 = c_dedup_key c" "c_severity c1 = c_severity c" "c_trigger_id c1 = c_trigger_id c" "c_shadow c1 = c_shadow c"
    "isProtectiveCritical c1 = isProtectiveCritical c" "dedupWindow g c1 = dedupWindow g c" "c_dedup_key c \<noteq> []"
    "own_mute c1 now = own_mute c now" "isMuted mutes c1 t = isMuted mutes c t"
    using c1(2) unfolding c1(1) by (simp_all add: isProtectiveCritical_def dedupWindow_def own_mute_def isMuted_def fun_eq_iff)
  then show "told g c1 t a = told g c t a" by (simp add: told_def split: option.split)
qed

lemma told_mutes: "told g c t (a\<lparr>at_mutes := m\<rparr>) = told g c t a"
  by (simp add: told_def)

lemma live_not_shadow: "evaluate_rules c f = (disp, ReasonShadow) \<Longrightarrow> ff_mode f = AttLive \<Longrightarrow> \<not> c_shadow c \<Longrightarrow> False"
  by (auto simp: evaluate_rules_def deliverReason_def reason_defs split: if_splits)

text \<open>A decision under live attention, in the terms of the tables it was made on.\<close>

lemma DecideCandidate_live:
  assumes "DecideCandidate g e c a = (Inr d, a')" "gv_mode g = AttLive" "\<not> c_shadow c"
  obtains c1 b t where "normalize c (dv_candidate_id e) (dv_now e) = Inr c1" "live_decision g c1"
    "b = a\<lparr>at_mutes := deleteExpiredMutes (unix_ms (dv_now e)) (at_mutes a)\<rparr>" "recorded g e c1 b d t" "a' = maybePrune (dv_now e) t"
  using assms(1)
proof (cases rule: DecideCandidate_cases)
  case (silent d')
  then obtain c1 b where "normalize c (dv_candidate_id e) (dv_now e) = Inr c1" "evaluate_rules c1 (facts_for g e c1 b) = (de_disposition d', ReasonShadow)"
    using assms(2) by auto
  moreover have "live_decision g c1" using assms(2,3) calculation(1) normalize_keeps(4) by (simp add: live_decision_def)
  ultimately have False using live_not_shadow assms(2,3) normalize_keeps(4) by (metis facts_live(1) gather_sel(1))
  then show ?thesis ..
next
  case (made c1 b d' t)
  have live: "live_decision g c1" using assms(2,3) normalize_keeps [OF made(1)] by (simp add: live_decision_def)
  then show ?thesis using that [OF made(1) live _ _ made(6)] made(3,4,5) by simp
qed simp

text \<open>The row of a decision outlives the prune that follows it.\<close>

lemma prune_spares:
  assumes "r \<in> set (at_rows t)" "ar_at r = unix_ms now" "ar_reason r \<noteq> ReasonShadow"
  shows "r \<in> set (at_rows (maybePrune now t))"
proof -
  have "ms_before now decisionRetention \<le> unix_ms now" by (simp add: ms_before_def decisionRetention_def unix_ms_mono)
  then have "r \<in> set (at_rows (pruneDecisions now (t\<lparr>at_pruned := p\<rparr>)))" for p
    using assms by (auto simp: pruneDecisions_def Let_def)
  then show ?thesis using assms(1) by (simp add: maybePrune_def split: option.split)
qed

lemma protective_facts:
  assumes "live_decision g c" "isProtectiveCritical c" "\<not> isMuted (at_mutes a) c (unix_ms (dv_now e))" "\<not> told g c (dv_now e) a"
  shows "evaluate_rules c (facts_for g e c a) = (if c_compose c = ComposeLLM then DispEscalate else DispNotify, ReasonProtective)"
  using assms by (auto simp: evaluate_rules_def facts_live gather_sel gather_dedup live_decision_def)

text \<open>
  C31. A protective alert gets through, live: unless a mute names exactly this alert, or the owner was told of it at
  this severity within its repeat window, the decision is to send it, whatever else is in flight, queued, inhibited,
  spent or asleep, and it is recorded as such.
\<close>

theorem protective_alert_gets_through:
  assumes "gv_mode g = AttLive" "\<not> c_shadow c" "isProtectiveCritical c" "c_dedup_key c \<noteq> []"
    and "list_all (\<lambda>m. \<not> own_mute c (unix_ms (dv_now e)) m) (at_mutes a)"
    and "list_all (\<lambda>s. \<not> (sr_key s = c_dedup_key c \<and> sr_severity s \<ge> SeverityCritical \<and>
      unix_ms (dv_now e) - sr_sent s < dur_ms (dedupWindow g c))) (at_sent a)"
    and "dv_id e \<notin> ar_id ` set (at_rows a)"
  shows "\<exists>d a'. DecideCandidate g e c a = (Inr d, a') \<and> is_sent (de_disposition d) \<and>
    list_ex (\<lambda>r. ar_id r = de_id d \<and> ar_key r = c_dedup_key c \<and> is_sent (ar_disposition r) \<and> undecided r) (at_rows a')"
proof -
  let ?b = "a\<lparr>at_mutes := deleteExpiredMutes (unix_ms (dv_now e)) (at_mutes a)\<rparr>"
  obtain c1 where c1: "normalize c (dv_candidate_id e) (dv_now e) = Inr c1"
    using assms(3,4) by (auto simp: normalize_def isProtectiveCritical_def)
  note keeps = normalize_keeps [OF c1]
  have live: "live_decision g c1" using assms(1,2) keeps(4) by (simp add: live_decision_def)
  have "\<not> isMuted (at_mutes ?b) c1 (unix_ms (dv_now e))"
    using protective_mute [of "at_mutes a" c "unix_ms (dv_now e)"] assms(3,5) by (auto simp: muted_after_delete keeps(9) list_all_iff)
  moreover have "\<not> told g c1 (dv_now e) ?b"
    unfolding told_mutes keeps(10) using assms(3,6)
    by (auto simp: told_def readState_def sql_first_def find_Some_iff list_all_iff isProtectiveCritical_def split: option.split)
  moreover define disp where "disp = (if c_compose c1 = ComposeLLM then DispEscalate else DispNotify)"
  ultimately have ev: "evaluate_rules c1 (facts_for g e c1 ?b) = (disp, ReasonProtective)"
    using protective_facts [OF live] assms(3) keeps(5) by simp
  define d where "d = \<lparr>de_id = dv_id e, de_disposition = disp, de_reason = ReasonProtective, de_candidate = c1,
    de_previous = previous g c1 ?b, de_at = dv_now e\<rparr>"
  define lr where "lr = learned_for g e c1 (facts_for g e c1 ?b) (disp, ReasonProtective)"
  let ?t = "?b\<lparr>at_rows := at_rows a @ [new_decision_row g d lr]\<rparr>"
  have "insertDecision g d lr ?b = Inr ?t" using assms(7) by (simp add: insertDecision_def d_def disp_def)
  then have D: "DecideCandidate g e c a = (Inr d, maybePrune (dv_now e) ?t)"
    using c1 live ev assms(1) by (simp add: DecideCandidate_def Let_def d_def lr_def reason_defs)
  have "new_decision_row g d lr \<in> set (at_rows (maybePrune (dv_now e) ?t))"
    by (rule prune_spares) (simp_all add: new_row_sel d_def reason_defs)
  moreover have "is_sent disp" by (simp add: disp_def is_sent_def)
  ultimately show ?thesis unfolding D list_ex_iff
    by (intro exI conjI bexI [of _ "new_decision_row g d lr"]) (auto simp: new_row_sel d_def undecided_def keeps(1))
qed

text \<open>A message that explains a candidate under a rule of inhibition.\<close>

definition explained :: "governor \<Rightarrow> candidate \<Rightarrow> go_time \<Rightarrow> decision_row list \<Rightarrow> bool" where
  "explained g c now rows = list_ex (\<lambda>rule. has_prefix (c_dedup_key c) (ih_suppress rule) \<and>
     list_ex (\<lambda>r. is_sent (ar_disposition r) \<and> has_prefix (ar_key r) (ih_when rule) \<and> ms_before now (ih_for rule) < ar_at r \<and>
       (ar_delivered r \<or> undecided r)) rows) (gv_inhibits g)"

lemma inhibitorKey_row:
  assumes "inhibitorKey rows rule base since lease_start \<noteq> []"
  obtains r where "r \<in> set rows" "is_sent (ar_disposition r)" "has_prefix (ar_key r) (ih_when rule)" "since < ar_at r" "ar_delivered r \<or> undecided r"
proof -
  define rs where "rs = sort_key (\<lambda>r. - ar_at r) (filter (\<lambda>r. is_sent (ar_disposition r) \<and> ar_at r > since \<and> has_prefix (ar_key r) (ih_when rule) \<and>
    (ar_delivered r \<or> (undecided r \<and> ar_at r > lease_start)) \<and> (ih_same_asset rule \<longrightarrow> ar_base r = Some base)) rows)"
  have "rs \<noteq> []" using assms by (auto simp: inhibitorKey_def rs_def [symmetric] split: list.splits)
  then have "hd rs \<in> set rs" by simp
  then show thesis using that by (auto simp: rs_def)
qed

lemma inhibited_explained: "inhibitedBy rules rows c now l \<noteq> [] \<Longrightarrow> set rules \<subseteq> set (gv_inhibits g) \<Longrightarrow> explained g c now rows"
proof (induction rules)
  case (Cons rule rules)
  show ?case
  proof (cases "ih_suppress rule = [] \<or> ih_when rule = [] \<or> \<not> has_prefix (c_dedup_key c) (ih_suppress rule) \<or> (ih_same_asset rule \<and> baseAsset c = [])")
    case True then show ?thesis using Cons by auto
  next
    case False
    let ?k = "inhibitorKey rows rule (if ih_same_asset rule then baseAsset c else []) (ms_before now (ih_for rule)) l"
    show ?thesis
    proof (cases "?k = []")
      case True
      then have "inhibitedBy rules rows c now l \<noteq> []" using Cons.prems(1) False by (auto simp: Let_def split: if_splits)
      then show ?thesis using Cons by simp
    next
      case k: False
      show ?thesis by (rule inhibitorKey_row [OF k]) (use False Cons.prems(2) in \<open>auto simp: explained_def list_ex_iff\<close>)
    qed
  qed
qed simp

text \<open>
  C32. Silence has a reason: a candidate that live attention drops was muted by a mute in force, or the owner was told
  of the situation at its severity or above within the window, or such a message is in flight, or such an item waits for
  the digest, or a rule of inhibition has a fresh message, sent or in flight, that explains it.
\<close>

theorem silence_has_a_reason:
  assumes "DecideCandidate g e c a = (Inr d, a')" "gv_mode g = AttLive" "\<not> c_shadow c" "de_disposition d = DispDrop"
  shows "isMuted (at_mutes a) c (unix_ms (dv_now e)) \<or> told g c (dv_now e) a \<or>
    inFlight (at_rows a) (c_dedup_key c) (c_severity c) (ms_before (dv_now e) pendingLease) \<or>
    queuedDigest (at_rows a) (c_dedup_key c) (c_severity c) (ms_before (dv_now e) (dedupWindow g c)) \<or>
    explained g c (dv_now e) (at_rows a)"
proof -
  obtain c1 b t where n: "normalize c (dv_candidate_id e) (dv_now e) = Inr c1" and live: "live_decision g c1"
    and b: "b = a\<lparr>at_mutes := deleteExpiredMutes (unix_ms (dv_now e)) (at_mutes a)\<rparr>" and rec: "recorded g e c1 b d t"
    by (rule DecideCandidate_live [OF assms(1-3)])
  note keeps = normalize_keeps [OF n]
  have ev: "evaluate_rules c1 (facts_for g e c1 b) = (DispDrop, de_reason d)" using rec assms(4) by (simp add: recorded_def)
  let ?f = "facts_for g e c1 b"
  have "ff_muted ?f \<or> ff_dedup ?f \<or> ff_queued ?f \<or> ff_inhibited_by ?f \<noteq> []"
    using ev live assms(2) by (auto simp: evaluate_rules_def facts_live gather_sel live_decision_def split: if_splits)
  moreover have "ff_muted ?f \<longleftrightarrow> isMuted (at_mutes a) c (unix_ms (dv_now e))"
    by (simp add: facts_live [OF live] gather_sel b muted_after_delete keeps(9))
  moreover have "ff_dedup ?f \<Longrightarrow> told g c (dv_now e) a \<or>
      inFlight (at_rows a) (c_dedup_key c) (c_severity c) (ms_before (dv_now e) pendingLease)"
    by (auto simp: facts_live [OF live] gather_dedup b keeps told_mutes)
  moreover have "ff_queued ?f \<longleftrightarrow> queuedDigest (at_rows a) (c_dedup_key c) (c_severity c) (ms_before (dv_now e) (dedupWindow g c))"
    by (simp add: facts_live [OF live] gather_sel b keeps)
  moreover have "ff_inhibited_by ?f \<noteq> [] \<Longrightarrow> explained g c (dv_now e) (at_rows a)"
    using inhibited_explained [of "gv_inhibits g" "at_rows a" c1 "dv_now e" _ g]
    by (auto simp: facts_live [OF live] gather_inhibit b explained_def keeps split: if_splits)
  ultimately show ?thesis by blast
qed

section \<open>Learning\<close>

lemma evaluate_rules_fields:
  assumes "ff_mode f = ff_mode h" "ff_muted f = ff_muted h" "ff_dedup f = ff_dedup h" "ff_queued f = ff_queued h"
    "ff_inhibited_by f = ff_inhibited_by h" "ff_sends f = ff_sends h" "ff_budget f = ff_budget h" "ff_joins f = ff_joins h"
    "ff_active f = ff_active h" "\<not> ff_adapt h"
  shows "evaluate_rules c f = evaluate_rules c h \<or>
    (learnable c \<and> is_sent (fst (evaluate_rules c h)) \<and> fst (evaluate_rules c f) = DispDigest \<and> snd (evaluate_rules c f) \<in> {ReasonLowAcceptance, ReasonHoldout})"
  using assms by (auto simp: evaluate_rules_def lowAcceptance_def heldOut_def learns_def overBudget_def limitFor_def deliverReason_def is_sent_def)

text \<open>
  Whatever learning knows, it changes a decision in one way only: a notice that is neither protective nor an alert
  the owner set, and would have been sent, waits for the digest, and says so.
\<close>

theorem learning_only_holds_notices:
  "let off = evaluate_rules c (facts_for g (e\<lparr>dv_learning := None\<rparr>) c a); on = evaluate_rules c (facts_for g e c a) in
     on = off \<or> (learnable c \<and> is_sent (fst off) \<and> fst on = DispDigest \<and> snd on \<in> {ReasonLowAcceptance, ReasonHoldout})"
proof -
  have adapt: "\<not> ff_adapt (facts_for g (e\<lparr>dv_learning := None\<rparr>) c a)"
    by (simp add: facts_for_def no_facts_def gather_def Let_def split: prod.split)
  show ?thesis
  proof (cases "live_decision g c")
    case True
    then show ?thesis unfolding Let_def by (intro evaluate_rules_fields adapt) (simp_all add: facts_live [OF True])
  next
    case False
    then show ?thesis by (simp add: facts_for_def)
  qed
qed

section \<open>A digest item takes back what was said\<close>

text \<open>
  The owner was told of a situation at a severity; an older item of lower severity about it, left to the digest, is
  delivered: now the owner counts as told at the lower severity only, so the same alert is no repeat any more.
\<close>

theorem digest_item_unlearns_a_warning:
  assumes "told g c now a" "find_row i a = Some r" "ar_disposition r = DispDigest" "\<not> ar_delivered r"
    and "ar_key r = c_dedup_key c" "ar_severity r < c_severity c" "markDeliveredTx i t m a = Inr b"
  shows "\<not> told g c now b"
proof -
  obtain s where s: "readState (c_dedup_key c) (at_sent a) = Some s" using assms(1) by (auto simp: told_def split: option.splits)
  then have "s \<in> set (at_sent a)" "sr_key s = c_dedup_key c" by (auto simp: readState_def sql_first_def find_Some_iff)
  then have key: "ar_key r \<in> sr_key ` set (at_sent a)" using assms(5) by (metis imageI)
  let ?s = "s\<lparr>sr_severity := ar_severity r, sr_sent := unix_ms t, sr_json := ar_json r, sr_sends := Suc (sr_sends s)\<rparr>"
  have "at_sent b = upsert_sent r (unix_ms t) (at_sent a)"
    using assms(2,3,4,7) by (auto simp: markDeliveredTx_def Let_def)
  then have "readState (c_dedup_key c) (at_sent b) = Some ?s"
    using s key sql_first_update [of "\<lambda>s. sr_key s = c_dedup_key c" "at_sent a" s] assms(5) by (simp add: upsert_sent_def readState_def)
  then show ?thesis using assms(6) by (simp add: told_def)
qed

end
