(* ===== verification/AttentionBudget.thy ===== *)
theory AttentionBudget
  imports AttentionPromises
begin

text \<open>
  The budget of a day. Without grouping (a window of zero seconds) each decision that is sent is a message; what is
  counted against the budget is the messages delivered in the owner's day and the decisions in flight. In a run whose
  clocks do not run backwards and whose deliveries are reported within the lease, that number never exceeds the budget
  by more than the one message a warning may add.
\<close>

section \<open>What is spent\<close>

definition spent_rows :: "decision_row list \<Rightarrow> profile_facts \<Rightarrow> go_time \<Rightarrow> nat" where
  "spent_rows rows pf now = card (message_of ` set (delivered_on rows (po_day_start pf) (po_day_end pf))) +
     length (pending_rows rows (ms_before now pendingLease))"

lemma ungrouped_pending: "window \<le> 0 \<Longrightarrow>
    fst (fold (\<lambda>t (n, start). if n = 0 \<or> window \<le> 0 \<or> t - start \<ge> window then (Suc n, t) else (n, start)) ats (n, start)) = n + length ats"
  by (induction ats arbitrary: n start) auto

lemma sends_ungrouped:
  assumes "window \<le> 0"
  shows "sendsToday rows (po_day_start pf) (po_day_end pf) (ms_before now pendingLease) window t = (spent_rows rows pf now, False)"
proof -
  have "fst (pendingMessages ats window) = length ats" for ats using ungrouped_pending [OF assms, of ats 0 0] by (simp add: pendingMessages_def)
  then show ?thesis using assms by (simp add: sendsToday_def spent_rows_def Let_def split_beta)
qed

text \<open>An update that makes nothing count that did not.\<close>

lemma spent_update:
  assumes "\<And>r. r \<in> set rows \<Longrightarrow> P r \<Longrightarrow> (ar_delivered (f r) \<and> budgeted (f r) \<longrightarrow> f r = r) \<and>
    (undecided (f r) \<and> budgeted (f r) \<longrightarrow> undecided r \<and> budgeted r \<and> ar_at (f r) = ar_at r)"
  shows "spent_rows (sql_update P f rows) pf now \<le> spent_rows rows pf now"
proof -
  let ?d = "\<lambda>rows. delivered_on rows (po_day_start pf) (po_day_end pf)"
  have "set (?d (sql_update P f rows)) \<subseteq> set (?d rows)"
    using assms by (fastforce simp: delivered_on_def elim!: in_sql_updateE split: option.splits)
  then have "card (message_of ` set (?d (sql_update P f rows))) \<le> card (message_of ` set (?d rows))"
    by (intro card_mono image_mono) auto
  moreover have "length (pending_rows (sql_update P f rows) l) \<le> length (pending_rows rows l)" for l
    using assms by (induction rows) (auto simp: pending_rows_def)
  ultimately show ?thesis unfolding spent_rows_def by (intro add_mono)
qed

lemma spent_filter: "spent_rows (filter Q rows) pf now \<le> spent_rows rows pf now"
proof -
  let ?d = "\<lambda>rows. delivered_on rows (po_day_start pf) (po_day_end pf)"
  have "card (message_of ` set (?d (filter Q rows))) \<le> card (message_of ` set (?d rows))"
    by (intro card_mono image_mono) (auto simp: delivered_on_def)
  moreover have "length (pending_rows (filter Q rows) l) \<le> length (pending_rows rows l)" for l
    by (induction rows) (auto simp: pending_rows_def)
  ultimately show ?thesis unfolding spent_rows_def by (intro add_mono)
qed

text \<open>One message is delivered that was in flight.\<close>

lemma spent_deliver:
  assumes "r \<in> set rows" "ar_id r = i" "undecided r" "budgeted r" "ms_before now pendingLease \<le> ar_at r"
  shows "spent_rows (sql_update (\<lambda>r. ar_id r = i) (\<lambda>r. r\<lparr>ar_delivered := True, ar_delivered_at := Some t, ar_intervention := Some m\<rparr>) rows) pf now
    \<le> spent_rows rows pf now"
proof -
  let ?f = "\<lambda>r. r\<lparr>ar_delivered := True, ar_delivered_at := Some t, ar_intervention := Some m\<rparr>"
  let ?u = "sql_update (\<lambda>r. ar_id r = i) ?f rows"
  let ?d = "\<lambda>rows. delivered_on rows (po_day_start pf) (po_day_end pf)"
  let ?p = "\<lambda>rows. pending_rows rows (ms_before now pendingLease)"
  have "message_of ` set (?d ?u) \<subseteq> insert m (message_of ` set (?d rows))"
    by (auto simp: delivered_on_def message_of_def elim!: in_sql_updateE)
  then have "card (message_of ` set (?d ?u)) \<le> card (insert m (message_of ` set (?d rows)))" by (intro card_mono) auto
  also have "\<dots> \<le> Suc (card (message_of ` set (?d rows)))" by (rule card_insert_le_m1) auto
  finally have card: "card (message_of ` set (?d ?u)) \<le> Suc (card (message_of ` set (?d rows)))" .
  have "length (?p ?u) < length (?p rows)" using assms
  proof (induction rows)
    case (Cons s rows)
    have le: "length (?p (sql_update (\<lambda>r. ar_id r = i) ?f rows)) \<le> length (?p rows)"
      by (induction rows) (auto simp: pending_rows_def undecided_def)
    show ?case
    proof (cases "s = r")
      case True
      then show ?thesis using Cons.prems le by (simp add: pending_rows_def undecided_def)
    next
      case False
      then have "length (?p (sql_update (\<lambda>r. ar_id r = i) ?f rows)) < length (?p rows)" using Cons by simp
      then show ?thesis by (auto simp: pending_rows_def undecided_def)
    qed
  qed simp
  then show ?thesis using card unfolding spent_rows_def by linarith
qed

lemma spent_insert:
  "\<not> ar_delivered r \<Longrightarrow> spent_rows (rows @ [r]) pf now \<le> spent_rows rows pf now + (if budgeted r then 1 else 0)"
  by (simp add: spent_rows_def delivered_on_def pending_rows_def)

text \<open>As the clock goes on, within a day or into the next.\<close>

lemma spent_later:
  assumes "t \<le> now" "po_day_start pf' = po_day_start pf \<and> po_day_end pf' = po_day_end pf \<or> unix_ms t < po_day_start pf'"
    and "\<And>r. r \<in> set rows \<Longrightarrow> ar_delivered r \<Longrightarrow> budgeted r \<Longrightarrow> \<exists>v. ar_delivered_at r = Some v \<and> v \<le> unix_ms t"
  shows "spent_rows rows pf' now \<le> spent_rows rows pf t"
proof -
  have "ms_before t pendingLease \<le> ms_before now pendingLease" using assms(1) by (simp add: ms_before_def unix_ms_mono)
  then have "length (pending_rows rows (ms_before now pendingLease)) \<le> length (pending_rows rows (ms_before t pendingLease))"
    by (induction rows) (auto simp: pending_rows_def)
  moreover have "set (delivered_on rows (po_day_start pf') (po_day_end pf')) \<subseteq> set (delivered_on rows (po_day_start pf) (po_day_end pf))"
  proof (cases "unix_ms t < po_day_start pf'")
    case True
    then show ?thesis using assms(3) by (fastforce simp: delivered_on_def split: option.splits)
  next
    case False
    then show ?thesis using assms(2) by simp
  qed
  then have "card (message_of ` set (delivered_on rows (po_day_start pf') (po_day_end pf'))) \<le>
      card (message_of ` set (delivered_on rows (po_day_start pf) (po_day_end pf)))" by (intro card_mono image_mono) auto
  ultimately show ?thesis unfolding spent_rows_def by linarith
qed

section \<open>Runs in time\<close>

fun op_clock :: "go_time \<Rightarrow> att_op \<Rightarrow> go_time" where
  "op_clock t (OpDecide e c) = dv_now e"
| "op_clock t (OpMark now i dl) = now"
| "op_clock t (OpPending now p) = now"
| "op_clock t (OpComplete now dg dl) = now"
| "op_clock t (OpDefer now i) = now"
| "op_clock t (OpMute k u r now) = now"
| "op_clock t (OpMuteExact k u r now) = now"
| "op_clock t (OpUnmute k) = t"

text \<open>Decisions are made on one profile; a delivery is reported not before it happened and while its decision is in
  flight; a digest holds digest decisions.\<close>

fun in_time :: "profile \<Rightarrow> att_op \<Rightarrow> attention_db \<Rightarrow> bool" where
  "in_time p (OpDecide e c) a = (dv_profile e = Some p)"
| "in_time p (OpMark now i dl) a = (at_or (dl_at dl) now \<le> now \<and>
     (case find_row i a of None \<Rightarrow> True
      | Some r \<Rightarrow> dl_delivered dl \<and> budgeted r \<and> \<not> ar_delivered r \<longrightarrow> undecided r \<and> ms_before now pendingLease \<le> ar_at r))"
| "in_time p (OpComplete now dg dl) a = list_all (\<lambda>d. case find_row (de_id d) a of None \<Rightarrow> True | Some r \<Rightarrow> ar_disposition r = DispDigest) (dg_items dg)"
| "in_time p op a = True"

definition next_day :: "governor \<Rightarrow> profile \<Rightarrow> go_time \<Rightarrow> go_time \<Rightarrow> bool" where
  "next_day g p t now = (let d = loadProfile g (Some p) t; d' = loadProfile g (Some p) now in
     po_day_start d' = po_day_start d \<and> po_day_end d' = po_day_end d \<or> unix_ms t < po_day_start d')"

fun timely_run :: "governor \<Rightarrow> profile \<Rightarrow> go_time \<Rightarrow> att_op list \<Rightarrow> attention_db \<Rightarrow> bool" where
  "timely_run g p t [] a = True"
| "timely_run g p t (op # ops) a = (let now = op_clock t op in
     t \<le> now \<and> next_day g p t now \<and> in_time p op a \<and> timely_run g p now ops (run_att (g, op) a))"

definition last_clock :: "go_time \<Rightarrow> att_op list \<Rightarrow> go_time" where
  "last_clock t ops = fold (\<lambda>op t. op_clock t op) ops t"

definition in_budget :: "governor \<Rightarrow> profile \<Rightarrow> go_time \<Rightarrow> attention_db \<Rightarrow> bool" where
  "in_budget g p now a \<longleftrightarrow> att_ok a \<and>
     (\<forall>r \<in> set (at_rows a). ar_delivered r \<and> budgeted r \<longrightarrow> (\<exists>v. ar_delivered_at r = Some v \<and> v \<le> unix_ms now)) \<and>
     int (spent_rows (at_rows a) (loadProfile g (Some p) now) now) \<le> max (pf_budget p) 0 + 1"

lemma in_budget_later:
  assumes "in_budget g p t a" "t \<le> now" "next_day g p t now"
  shows "in_budget g p now a"
proof -
  have "spent_rows (at_rows a) (loadProfile g (Some p) now) now \<le> spent_rows (at_rows a) (loadProfile g (Some p) t) t"
    by (rule spent_later [OF assms(2)]) (use assms(1,3) in \<open>auto simp: next_day_def in_budget_def Let_def\<close>)
  moreover have "unix_ms t \<le> unix_ms now" using assms(2) by (rule unix_ms_mono)
  ultimately show ?thesis using assms(1) unfolding in_budget_def by (meson of_nat_mono order_trans)
qed

text \<open>A step that spends nothing.\<close>

lemma in_budget_step:
  assumes "in_budget g p now a" "att_ok b"
    and "\<And>pf. spent_rows (at_rows b) pf now \<le> spent_rows (at_rows a) pf now"
    and "\<And>r. r \<in> set (at_rows b) \<Longrightarrow> ar_delivered r \<Longrightarrow> budgeted r \<Longrightarrow>
      r \<in> set (at_rows a) \<or> (\<exists>v. ar_delivered_at r = Some v \<and> v \<le> unix_ms now)"
  shows "in_budget g p now b"
proof -
  have "int (spent_rows (at_rows b) (loadProfile g (Some p) now) now) \<le> max (pf_budget p) 0 + 1"
    using assms(1,3) unfolding in_budget_def by (meson of_nat_mono order_trans)
  then show ?thesis using assms(1,2,4) unfolding in_budget_def by blast
qed

lemma att_run_ok: "att_ok a \<Longrightarrow> att_ok (run_att op a)"
  using governor.keeps by simp

lemma in_budget_ok: "in_budget g p now a \<Longrightarrow> att_ok a"
  by (simp add: in_budget_def)

lemma maybePrune_rows: "\<exists>Q. at_rows (maybePrune now t) = filter Q (at_rows t)"
proof -
  have "\<exists>Q. at_rows (pruneDecisions now (t\<lparr>at_pruned := q\<rparr>)) = filter Q (at_rows t)" for q by (auto simp: pruneDecisions_def Let_def)
  moreover have "\<exists>Q. at_rows t = filter Q (at_rows t)" by (rule exI [of _ "\<lambda>r. True"]) simp
  ultimately show ?thesis by (simp add: maybePrune_def split: option.split)
qed

text \<open>A decision that is sent below critical found the budget not used up.\<close>

lemma decide_budget:
  assumes "in_budget g p (dv_now e) a" "gv_group_seconds g \<le> 0" "dv_profile e = Some p"
  shows "in_budget g p (dv_now e) (snd (DecideCandidate g e c a))"
proof -
  have ok: "att_ok (snd (DecideCandidate g e c a))" using att_run_ok [OF in_budget_ok [OF assms(1)], of "(g, OpDecide e c)"] by simp
  obtain r a' where D: "DecideCandidate g e c a = (r, a')" by fastforce
  let ?pf = "loadProfile g (Some p) (dv_now e)"
  from D show ?thesis
  proof (cases rule: DecideCandidate_cases)
    case (made c1 b d t)
    have rows: "at_rows b = at_rows a" by (simp add: made(3))
    obtain lr where t: "at_rows t = at_rows a @ [new_decision_row g d lr]"
      by (rule recorded_row [OF made(4)]) (simp add: rows)
    let ?n = "new_decision_row g d lr"
    have "int (spent_rows (at_rows t) ?pf (dv_now e)) \<le> max (pf_budget p) 0 + 1"
    proof (cases "budgeted ?n")
      case True
      then have sent: "is_sent (de_disposition d)" "de_reason d \<noteq> ReasonProtective" "c_severity c1 < SeverityCritical"
        using made(4) by (simp_all add: budgeted_def new_row_sel recorded_def)
      have ev: "evaluate_rules c1 (facts_for g e c1 b) = (de_disposition d, de_reason d)" using made(4) by (simp add: recorded_def)
      have "\<not> overBudget (facts_for g e c1 b) c1" using sent_not_told(2) [OF ev sent(1,2)] by simp
      moreover have "(ff_sends (facts_for g e c1 b), ff_joins (facts_for g e c1 b)) = (spent_rows (at_rows a) ?pf (dv_now e), False)"
      proof -
        have "dur_ms (groupWindow g) \<le> 0" using assms(2) by (simp add: groupWindow_def max_def dur_ms_def)
        then show ?thesis unfolding facts_live [OF recorded_live [OF made(4) sent(1)]]
          by (simp add: gather_def no_facts_def Let_def assms(3) rows sends_ungrouped)
      qed
      ultimately have "int (spent_rows (at_rows a) ?pf (dv_now e)) < ff_budget (facts_for g e c1 b) + 1"
        using sent(3) by (auto simp: overBudget_def limitFor_def split: if_splits)
      moreover have "ff_budget (facts_for g e c1 b) = max (pf_budget p) 0"
        unfolding facts_live [OF recorded_live [OF made(4) sent(1)]]
        by (simp add: gather_sel assms(3) loadProfile_def profile_in_force_def Let_def split: prod.split)
      ultimately show ?thesis using spent_insert [of ?n "at_rows a" ?pf "dv_now e"] True unfolding t by (simp add: new_row_sel)
    next
      case False
      then show ?thesis using spent_insert [of ?n "at_rows a" ?pf "dv_now e"] assms(1) unfolding t in_budget_def by (simp add: new_row_sel)
    qed
    moreover obtain Q where Q: "at_rows (maybePrune (dv_now e) t) = filter Q (at_rows t)" using maybePrune_rows by blast
    ultimately have "int (spent_rows (at_rows (maybePrune (dv_now e) t)) ?pf (dv_now e)) \<le> max (pf_budget p) 0 + 1"
      using spent_filter [of Q "at_rows t" ?pf "dv_now e"] by simp
    moreover have "\<forall>r \<in> set (at_rows (maybePrune (dv_now e) t)). ar_delivered r \<and> budgeted r \<longrightarrow> (\<exists>v. ar_delivered_at r = Some v \<and> v \<le> unix_ms (dv_now e))"
      using assms(1) by (auto simp: Q t in_budget_def new_row_sel)
    ultimately show ?thesis using ok D made(6) by (simp add: in_budget_def)
  qed (use D assms(1) in auto)
qed

lemma mark_budget:
  assumes "in_budget g p now a" "in_time p (OpMark now i dl) a"
  shows "in_budget g p now (snd (MarkDelivered g now i dl a))"
proof -
  have ok: "att_ok (snd (MarkDelivered g now i dl a))" using att_run_ok [OF in_budget_ok [OF assms(1)], of "(g, OpMark now i dl)"] by simp
  let ?t = "unix_ms (at_or (dl_at dl) now)"
  have t: "?t \<le> unix_ms now" using assms(2) by (simp add: unix_ms_mono)
  note same = assms(1)
  let ?b = "snd (MarkDelivered g now i dl a)"
  have "?b = a \<or> (\<exists>r. find_row i a = Some r \<and> \<not> ar_delivered r \<and>
       (at_rows ?b = sql_update (\<lambda>r. ar_id r = i) (\<lambda>r. r\<lparr>ar_delivered_at := Some ?t\<rparr>) (at_rows a) \<or>
        dl_delivered dl \<and> (\<exists>m. at_rows ?b = sql_update (\<lambda>r. ar_id r = i)
           (\<lambda>r. r\<lparr>ar_delivered := True, ar_delivered_at := Some ?t, ar_intervention := Some m\<rparr>) (at_rows a))))"
    by (auto simp: MarkDelivered_def markDeliveredTx_def Let_def split: option.split)
  then consider "?b = a"
    | r where "find_row i a = Some r" "\<not> ar_delivered r"
        "at_rows ?b = sql_update (\<lambda>r. ar_id r = i) (\<lambda>r. r\<lparr>ar_delivered_at := Some ?t\<rparr>) (at_rows a)"
    | r m where "find_row i a = Some r" "dl_delivered dl" "\<not> ar_delivered r"
        "at_rows ?b = sql_update (\<lambda>r. ar_id r = i)
           (\<lambda>r. r\<lparr>ar_delivered := True, ar_delivered_at := Some ?t, ar_intervention := Some m\<rparr>) (at_rows a)"
    by blast
  then show ?thesis
  proof cases
    case 2
    note one = row_by_id [OF in_budget_ok [OF assms(1)] 2(1)]
    show ?thesis
    proof (rule in_budget_step [OF assms(1) ok])
      show "spent_rows (at_rows (snd (MarkDelivered g now i dl a))) pf now \<le> spent_rows (at_rows a) pf now" for pf
        unfolding 2(3) by (rule spent_update) (use one 2(2) in \<open>auto simp: undecided_def\<close>)
    qed (use one 2(2) in \<open>auto simp: 2(3) elim!: in_sql_updateE\<close>)
  next
    case 3
    note one = row_by_id [OF in_budget_ok [OF assms(1)] 3(1)] and r = find_rowD [OF 3(1)]
    show ?thesis
    proof (rule in_budget_step [OF assms(1) ok])
      show "spent_rows (at_rows (snd (MarkDelivered g now i dl a))) pf now \<le> spent_rows (at_rows a) pf now" for pf
      proof (cases "budgeted r")
        case True
        then have "undecided r" "ms_before now pendingLease \<le> ar_at r" using assms(2) 3 by auto
        then show ?thesis unfolding 3(4) using spent_deliver [OF r _ True] by simp
      next
        case False
        show ?thesis unfolding 3(4) by (rule spent_update) (use one False in \<open>auto simp: undecided_def budgeted_def\<close>)
      qed
    qed (use t in \<open>auto simp: 3(4) elim!: in_sql_updateE\<close>)
  qed (use assms(1) in simp)
qed

lemma complete_budget:
  assumes "complete_items ds t m a = Inr b" "list_all (\<lambda>d. case find_row (de_id d) a of None \<Rightarrow> True | Some r \<Rightarrow> ar_disposition r = DispDigest) ds"
    "att_ok a"
  shows "spent_rows (at_rows b) pf now \<le> spent_rows (at_rows a) pf now \<and> (\<forall>r \<in> set (at_rows b). budgeted r \<longrightarrow> r \<in> set (at_rows a))"
  using assms
proof (induction ds arbitrary: a)
  case (Cons d ds)
  let ?i = "de_id d"
  show ?case
  proof (cases "find_row ?i a")
    case None
    then have "complete_items ds t m a = Inr b" using Cons.prems(1) by (simp add: markDeliveredTx_def)
    then show ?thesis using Cons by simp
  next
    case (Some r)
    then have dig: "ar_disposition r = DispDigest" using Cons.prems(2) by simp
    obtain u where u: "markDeliveredTx ?i t m a = Inr u" using Some dig by (cases "ar_delivered r") (simp_all add: markDeliveredTx_def Let_def)
    let ?v = "flush_item ?i (unix_ms t) u"
    have step: "complete_items ds t m ?v = Inr b" using Cons.prems(1) u by simp
    have "attn\<^sup>*\<^sup>* a u" using mark_tx_steps [OF u] .
    moreover obtain q where "find_row ?i u = Some q" "ar_delivered q" by (rule marked_row [OF u])
    ultimately have okv: "att_ok ?v" using governor.asteps_keep Cons.prems(3) attn.flush attn_keeps by blast
    have rows: "at_rows ?v = at_rows a \<or> at_rows ?v = sql_update (\<lambda>r. ar_id r = ?i)
        (\<lambda>r. r\<lparr>ar_delivered := True, ar_delivered_at := Some (unix_ms t), ar_intervention := Some (if m = [] then ?i else m)\<rparr>) (at_rows a)"
      using u Some dig by (auto simp: markDeliveredTx_def flush_item_def Let_def split: if_splits)
    note one = row_by_id [OF Cons.prems(3) Some]
    have "spent_rows (at_rows ?v) pf now \<le> spent_rows (at_rows a) pf now"
      using rows by (rule disjE) (auto intro!: spent_update dest!: one simp: dig undecided_def budgeted_def)
    moreover have "budgeted s \<longrightarrow> s \<in> set (at_rows a)" if "s \<in> set (at_rows ?v)" for s
      using rows that by (auto elim!: in_sql_updateE dest!: one simp: dig budgeted_def)
    moreover have "list_all (\<lambda>d. case find_row (de_id d) ?v of None \<Rightarrow> True | Some r \<Rightarrow> ar_disposition r = DispDigest) ds"
    proof -
      have "ar_disposition s = DispDigest" if s: "find_row (de_id x) ?v = Some s" and x: "x \<in> set ds" for s x
      proof -
        have "s \<in> set (at_rows ?v)" "ar_id s = de_id x" using find_rowD [OF s] .
        then obtain z where z: "z \<in> set (at_rows a)" "ar_id z = de_id x" "ar_disposition s = ar_disposition z"
          using rows by (auto elim!: in_sql_updateE)
        obtain y where y: "find_row (de_id x) a = Some y"
          using z(1,2) sql_first_None [of "\<lambda>s. ar_id s = de_id x" "at_rows a"] by (auto simp: find_row_def)
        then have "ar_disposition y = DispDigest" using Cons.prems(2) x by (auto simp: list_all_iff)
        then show ?thesis using row_by_id [OF Cons.prems(3) y z(1,2)] z(3) by simp
      qed
      then show ?thesis by (simp add: list_all_iff split: option.split)
    qed
    ultimately show ?thesis using Cons.IH [OF step _ okv] by (meson order_trans)
  qed
qed simp

lemma defer_budget:
  assumes "in_budget g p now a"
  shows "in_budget g p now (snd (DeferToDigest g now i a))"
proof -
  have ok: "att_ok (snd (DeferToDigest g now i a))" using att_run_ok [OF in_budget_ok [OF assms], of "(g, OpDefer now i)"] by simp
  have "at_rows (enqueue i t b) = at_rows b" for t b by (simp add: enqueue_def)
  then have "at_rows (snd (DeferToDigest g now i a)) = at_rows a \<or>
      (\<exists>r. find_row i a = Some r \<and> undecided r \<and> at_rows (snd (DeferToDigest g now i a)) =
        sql_update (\<lambda>r. ar_id r = i) (\<lambda>r. r\<lparr>ar_disposition := DispDigest, ar_reason := ReasonDeferred\<rparr>) (at_rows a))"
    by (simp add: DeferToDigest_def split: option.split)
  then consider "at_rows (snd (DeferToDigest g now i a)) = at_rows a"
    | r where "find_row i a = Some r" "undecided r" "at_rows (snd (DeferToDigest g now i a)) =
        sql_update (\<lambda>r. ar_id r = i) (\<lambda>r. r\<lparr>ar_disposition := DispDigest, ar_reason := ReasonDeferred\<rparr>) (at_rows a)"
    by blast
  then show ?thesis
  proof cases
    case 1
    show ?thesis by (rule in_budget_step [OF assms ok]) (simp_all add: 1)
  next
    case 2
    note one = row_by_id [OF in_budget_ok [OF assms] 2(1)]
    show ?thesis
    proof (rule in_budget_step [OF assms ok])
      show "spent_rows (at_rows (snd (DeferToDigest g now i a))) pf now \<le> spent_rows (at_rows a) pf now" for pf
        unfolding 2(3) by (rule spent_update) (simp add: budgeted_def)
    qed (auto simp: 2(3) budgeted_def elim!: in_sql_updateE)
  qed
qed

lemma quiet_budget: "in_budget g p now a \<Longrightarrow> att_ok b \<Longrightarrow> at_rows b = at_rows a \<Longrightarrow> in_budget g p now b"
  by (simp add: in_budget_def)

lemma op_budget:
  assumes "in_budget g p (op_clock t op) a" "in_time p op a" "gv_group_seconds g \<le> 0"
  shows "in_budget g p (op_clock t op) (run_att (g, op) a)"
proof -
  have ok: "att_ok (run_att (g, op) a)" by (rule att_run_ok [OF in_budget_ok [OF assms(1)]])
  show ?thesis
  proof (cases op)
    case (OpComplete now dg dl)
    show ?thesis
    proof (cases "complete_items (dg_items dg) (at_or (dl_at dl) now) (dl_intervention dl) a")
      case (Inr b)
      have b: "spent_rows (at_rows b) pf now' \<le> spent_rows (at_rows a) pf now' \<and> (\<forall>r \<in> set (at_rows b). budgeted r \<longrightarrow> r \<in> set (at_rows a))" for pf now'
        by (rule complete_budget [OF Inr _ in_budget_ok [OF assms(1)]]) (use assms(2) OpComplete in simp)
      have "at_rows (run_att (g, op) a) = at_rows a \<or> at_rows (run_att (g, op) a) = at_rows b"
        using Inr by (simp add: OpComplete CompleteDigest_def)
      then show ?thesis using b by (intro in_budget_step [OF assms(1) ok]) auto
    qed (use assms(1) in \<open>simp add: OpComplete CompleteDigest_def\<close>)
  qed (use assms decide_budget mark_budget defer_budget quiet_budget [OF assms(1) ok] in
      \<open>auto simp: PendingDigest_def Mute_def MuteExact_def Unmute_def Let_def split: option.splits\<close>)
qed

lemma att_run_budget:
  "timely_run g p t ops a \<Longrightarrow> in_budget g p t a \<Longrightarrow> gv_group_seconds g \<le> 0 \<Longrightarrow>
   in_budget g p (last_clock t ops) (fold run_att (map (Pair g) ops) a)"
proof (induction ops arbitrary: t a)
  case (Cons op ops)
  have "in_budget g p (op_clock t op) a" using in_budget_later [OF Cons.prems(2)] Cons.prems(1) by (simp add: Let_def)
  then have "in_budget g p (op_clock t op) (run_att (g, op) a)" using op_budget Cons.prems(1,3) by (simp add: Let_def)
  then show ?case using Cons by (simp add: last_clock_def Let_def)
qed (simp add: last_clock_def)

text \<open>
  C33. The owner's daily budget: without grouping, in every run on one profile whose clocks do not run backwards and whose
  deliveries are reported within the lease, the messages below critical delivered in the owner's day, together
  with those in flight, are never more than the budget and one.
\<close>

theorem daily_budget_holds:
  assumes "gv_group_seconds g \<le> 0" "timely_run g p t ops no_attention"
  shows "let a = fold run_att (map (Pair g) ops) no_attention; now = last_clock t ops; day = loadProfile g (Some p) now in
    int (card (message_of ` set (delivered_on (at_rows a) (po_day_start day) (po_day_end day))) +
         length (pending_rows (at_rows a) (ms_before now pendingLease))) \<le> max (pf_budget p) 0 + 1"
proof -
  have "in_budget g p t no_attention" using start_ok by (simp add: in_budget_def no_attention_def spent_rows_def delivered_on_def pending_rows_def)
  from att_run_budget [OF assms(2) this assms(1)] show ?thesis by (simp add: in_budget_def spent_rows_def Let_def)
qed

section \<open>Witnesses\<close>

definition bangkok :: zone where "bangkok s = 25200"

definition quiet_gov :: governor where
  "quiet_gov = \<lparr>gv_mode = AttLive, gv_daily = 3, gv_window_hours = 24, gv_group_seconds = 0, gv_digest = True, gv_repeat_minutes = 30,
     gv_inhibits = defaultInhibits, gv_marshal = (\<lambda>c. Some (c_title c)), gv_unmarshal = (\<lambda>s. None), gv_zones = (\<lambda>z. Some bangkok)\<rparr>"

definition quiet_profile :: profile where
  "quiet_profile = DefaultProfile\<lparr>pf_budget := 1\<rparr>"

text \<open>Noon in Bangkok, and an alert.\<close>

definition noon :: go_time where "noon = 5 * hour"

definition alert :: "string \<Rightarrow> severity \<Rightarrow> candidate" where
  "alert key sev = empty_candidate\<lparr>c_dedup_key := key, c_severity := sev\<rparr>"

definition deciding :: "go_time \<Rightarrow> string \<Rightarrow> decide_env" where
  "deciding now i = \<lparr>dv_now = now, dv_profile = Some quiet_profile, dv_learning = None, dv_candidate_id = ''c'' @ i, dv_id = i\<rparr>"

definition was_sent :: delivery where "was_sent = \<lparr>dl_delivered = True, dl_at = None, dl_intervention = []\<rparr>"

text \<open>A notice is sent and delivered, another is over the budget, a warning is one more; one of low severity waits.\<close>

definition day_ops :: "att_op list" where
  "day_ops = [OpDecide (deciding noon ''1'') (alert ''a'' 1), OpMark (noon + second) ''1'' was_sent, OpDecide (deciding (noon + minute) ''2'') (alert ''b'' 1),
     OpDecide (deciding (noon + 2 * minute) ''3'') (alert ''w'' 2), OpDecide (deciding (noon + 3 * minute) ''4'') (alert ''i'' 0)]"

definition day_state :: attention_db where
  "day_state = fold run_att (map (Pair quiet_gov) day_ops) no_attention"

lemma day_reasons: "map (\<lambda>r. (ar_disposition r, ar_reason r)) (at_rows day_state) =
    [(DispNotify, ReasonTemplate), (DispDigest, ReasonBudget), (DispNotify, ReasonTemplate), (DispDigest, ReasonInfoToDigest)]"
  by code_simp

theorem daily_budget_holds_witness:
  "int (card (message_of ` set (delivered_on (at_rows day_state) (po_day_start (loadProfile quiet_gov (Some quiet_profile) (noon + 3 * minute)))
       (po_day_end (loadProfile quiet_gov (Some quiet_profile) (noon + 3 * minute))))) +
     length (pending_rows (at_rows day_state) (ms_before (noon + 3 * minute) pendingLease))) \<le> 2"
proof -
  have t: "timely_run quiet_gov quiet_profile noon day_ops no_attention" by code_simp
  have g: "gv_group_seconds quiet_gov \<le> 0" by code_simp
  have now: "last_clock noon day_ops = noon + 3 * minute" by code_simp
  have b: "max (pf_budget quiet_profile) 0 + 1 = 2" by code_simp
  from daily_budget_holds [OF g t] show ?thesis unfolding now b day_state_def Let_def .
qed

theorem digest_items_are_kept_witness:
  "length (filter (\<lambda>r. ar_disposition r = DispDigest \<and> \<not> ar_delivered r) (at_rows day_state)) = 2 \<and>
   item_of quiet_gov (at_rows day_state ! 1) \<in> set (queuedDigestItems quiet_gov day_state)"
proof
  show "length (filter (\<lambda>r. ar_disposition r = DispDigest \<and> \<not> ar_delivered r) (at_rows day_state)) = 2" by code_simp
  have h: "1 < length (at_rows day_state)" "ar_disposition (at_rows day_state ! 1) = DispDigest" "\<not> ar_delivered (at_rows day_state ! 1)" by code_simp+
  then have "at_rows day_state ! 1 \<in> set (at_rows day_state)" by simp
  then show "item_of quiet_gov (at_rows day_state ! 1) \<in> set (queuedDigestItems quiet_gov day_state)"
    using digest_items_are_kept [of _ "map (Pair quiet_gov) day_ops"] h unfolding day_state_def by blast
qed


definition margin :: candidate where
  "margin = (alert ''dn:1'' SeverityCritical)\<lparr>c_protective := True\<rparr>"

text \<open>At night, with the budget used up and the plan muted as a whole.\<close>

definition night :: attention_db where
  "night = snd (Mute ''dn:'' (noon + 48 * hour) [] noon day_state)"

theorem protective_alert_gets_through_witness:
  "\<exists>d a'. DecideCandidate quiet_gov (deciding (noon + 12 * hour) ''5'') margin night = (Inr d, a') \<and> is_sent (de_disposition d)"
proof -
  have h: "gv_mode quiet_gov = AttLive" "\<not> c_shadow margin" "isProtectiveCritical margin" "c_dedup_key margin \<noteq> []" by code_simp+
  have m: "list_all (\<lambda>m. \<not> own_mute margin (unix_ms (dv_now (deciding (noon + 12 * hour) ''5''))) m) (at_mutes night)" by code_simp
  have s: "list_all (\<lambda>s. \<not> (sr_key s = c_dedup_key margin \<and> sr_severity s \<ge> SeverityCritical \<and>
      unix_ms (dv_now (deciding (noon + 12 * hour) ''5'')) - sr_sent s < dur_ms (dedupWindow quiet_gov margin))) (at_sent night)" by code_simp
  have i: "dv_id (deciding (noon + 12 * hour) ''5'') \<notin> ar_id ` set (at_rows night)" by code_simp
  from protective_alert_gets_through [OF h m s i] show ?thesis by blast
qed

theorem silence_has_a_reason_witness:
  "told quiet_gov (alert ''a'' 1) (noon + 4 * minute) day_state"
proof -
  let ?r = "DecideCandidate quiet_gov (deciding (noon + 4 * minute) ''6'') (alert ''a'' 1) day_state"
  have d: "(case fst ?r of Inl x \<Rightarrow> False | Inr d \<Rightarrow> de_disposition d = DispDrop)" by code_simp
  then obtain d where "fst ?r = Inr d" "de_disposition d = DispDrop" by (auto split: sum.splits)
  then have D: "?r = (Inr d, snd ?r)" "de_disposition d = DispDrop" by (simp_all add: prod_eq_iff)
  have h: "gv_mode quiet_gov = AttLive" "\<not> c_shadow (alert ''a'' 1)" "dv_now (deciding (noon + 4 * minute) ''6'') = noon + 4 * minute" by code_simp+
  have no: "\<not> isMuted (at_mutes day_state) (alert ''a'' 1) (unix_ms (noon + 4 * minute))"
    "\<not> inFlight (at_rows day_state) (c_dedup_key (alert ''a'' 1)) (c_severity (alert ''a'' 1)) (ms_before (noon + 4 * minute) pendingLease)"
    "\<not> queuedDigest (at_rows day_state) (c_dedup_key (alert ''a'' 1)) (c_severity (alert ''a'' 1))
      (ms_before (noon + 4 * minute) (dedupWindow quiet_gov (alert ''a'' 1)))"
    "\<not> explained quiet_gov (alert ''a'' 1) (noon + 4 * minute) (at_rows day_state)" by code_simp+
  from silence_has_a_reason [OF D(1) h(1,2) D(2)] no show ?thesis unfolding h(3) by blast
qed

text \<open>An item of low severity waits; then a warning about the same is sent; then the digest is.\<close>

definition retold_ops :: "att_op list" where
  "retold_ops = [OpDecide (deciding noon ''1'') (alert ''k'' 0), OpDecide (deciding (noon + minute) ''2'') (alert ''k'' 2),
     OpMark (noon + 2 * minute) ''2'' was_sent]"

definition retold :: attention_db where
  "retold = fold run_att (map (Pair quiet_gov) retold_ops) no_attention"

theorem digest_item_unlearns_a_warning_witness:
  "told quiet_gov (alert ''k'' 2) (noon + 21 * hour) retold \<and>
   (\<exists>b. markDeliveredTx ''1'' (noon + 20 * hour) [] retold = Inr b \<and> \<not> told quiet_gov (alert ''k'' 2) (noon + 21 * hour) b)"
proof -
  have t: "told quiet_gov (alert ''k'' 2) (noon + 21 * hour) retold" by code_simp
  obtain r where r: "find_row ''1'' retold = Some r" "ar_disposition r = DispDigest \<and> \<not> ar_delivered r \<and> ar_key r = ''k'' \<and> ar_severity r = 0"
  proof -
    have "case find_row ''1'' retold of None \<Rightarrow> False
      | Some r \<Rightarrow> ar_disposition r = DispDigest \<and> \<not> ar_delivered r \<and> ar_key r = ''k'' \<and> ar_severity r = 0" by code_simp
    then show thesis using that by (auto split: option.splits)
  qed
  obtain b where b: "markDeliveredTx ''1'' (noon + 20 * hour) [] retold = Inr b" using r by (auto simp: markDeliveredTx_def Let_def)
  have c: "c_dedup_key (alert ''k'' 2) = ''k''" "c_severity (alert ''k'' 2) = 2" by (simp_all add: alert_def)
  show ?thesis using t b digest_item_unlearns_a_warning [OF t r(1) _ _ _ _ b] r(2) c by simp
qed

end
