(* ===== verification/Outbox.thy ===== *)
theory Outbox
  imports Attention Machine "HOL-Library.Multiset"
begin

text \<open>
  From decisions to messages (\<open>pkg/attention/outbox.go\<close>, \<open>handoff.go\<close>, \<open>retry.go\<close>). The state under the outbox's mutex is
  one record; a step is what one goroutine does while it holds it, or what it does between with the work it has in hand.
  Works in hand are a list: the tick, the two lane workers and the callers of \<open>Submit\<close> each have theirs. The answers of
  the deliverer, the composer and the gate are arguments. What became of each decision is kept for the theorems. The
  text of a message, the observer, the counters and a panic below the flush are not modelled.
\<close>

section \<open>State\<close>

record message =
  ms_id :: string
  ms_decisions :: "decision list"
  ms_composed :: bool

record retry_entry =
  re_message :: message
  re_failed :: nat
  re_due :: go_time
  re_since :: "go_time option"

datatype lane_job = JobGroup "decision list" | JobDigest digest | JobRetry retry_entry

record deferral =
  df_decision :: decision
  df_release :: bool
  df_tries :: nat

datatype fate = Delivered string | ToDigest | Released | Abandoned | Lapsed | Rejected

record outbox =
  ob_buf :: "decision list"
  ob_start :: go_time
  ob_closed :: bool
  ob_ord :: "lane_job list"
  ob_prot :: "decision list"
  ob_deferred :: "deferral list"
  ob_retries :: "retry_entry list"
  ob_prot_retries :: "retry_entry list"
  ob_digest_busy :: bool
  ob_digest_minute :: int
  ob_fates :: "(decision \<times> fate) list"

definition NewOutbox :: outbox where
  "NewOutbox = \<lparr>ob_buf = [], ob_start = 0, ob_closed = False, ob_ord = [], ob_prot = [], ob_deferred = [], ob_retries = [],
     ob_prot_retries = [], ob_digest_busy = False, ob_digest_minute = - 1, ob_fates = []\<rparr>"

definition maxBuffered :: nat where "maxBuffered = 64"
definition ordinaryLaneSlots :: nat where "ordinaryLaneSlots = 256"
definition maxQueueAge :: duration where "maxQueueAge = 6 * minute"
definition maxDeferBacklog :: nat where "maxDeferBacklog = 1024"
definition deferTries :: nat where "deferTries = 3"
definition retryDelays :: "duration list" where "retryDelays = [30 * second, 90 * second, 150 * second]"
definition protectiveRetryEvery :: duration where "protectiveRetryEvery = 5 * minute"
definition protectiveRetryWindow :: duration where "protectiveRetryWindow = hour"
definition maxPendingRetries :: nat where "maxPendingRetries = 64"
definition maxPendingProtectiveRetries :: nat where "maxPendingProtectiveRetries = 16"

abbreviation crit :: "decision \<Rightarrow> bool" where "crit d \<equiv> isProtectiveCritical (de_candidate d)"

definition ended :: "fate \<Rightarrow> decision list \<Rightarrow> outbox \<Rightarrow> outbox" where
  "ended f ds o' = o'\<lparr>ob_fates := ob_fates o' @ map (\<lambda>d. (d, f)) ds\<rparr>"

section \<open>The buffer and the lanes\<close>

definition takeLocked :: "outbox \<Rightarrow> decision list \<times> outbox" where
  "takeLocked b = (ob_buf b, b\<lparr>ob_buf := []\<rparr>)"

text \<open>What \<open>Submit\<close> and \<open>Accept\<close> share: a group that is due or full is taken first, and the decision joins the buffer.\<close>

definition join_buffer :: "duration \<Rightarrow> go_time \<Rightarrow> decision \<Rightarrow> outbox \<Rightarrow> decision list \<times> outbox" where
  "join_buffer window now d b =
     (let (expired, b) = (if (ob_buf b \<noteq> [] \<and> window > 0 \<and> now \<ge> ob_start b + window) \<or> length (ob_buf b) \<ge> maxBuffered
                          then takeLocked b else ([], b));
          b = (if ob_buf b = [] then b\<lparr>ob_start := now\<rparr> else b)
      in (expired, b\<lparr>ob_buf := ob_buf b @ [d]\<rparr>))"

text \<open>Past the backlog a decision is abandoned.\<close>

fun deferLocked :: "decision list \<Rightarrow> bool \<Rightarrow> outbox \<Rightarrow> outbox" where
  "deferLocked [] release b = b"
| "deferLocked (d # ds) release b = deferLocked ds release
     (if length (ob_deferred b) \<ge> maxDeferBacklog then ended Abandoned [d] b
      else b\<lparr>ob_deferred := ob_deferred b @ [\<lparr>df_decision = d, df_release = release, df_tries = 0\<rparr>]\<rparr>)"

text \<open>The first pending decision with the key gives its place to the newer one.\<close>

fun supersede :: "decision \<Rightarrow> decision list \<Rightarrow> decision option \<times> decision list" where
  "supersede d [] = (None, [d])"
| "supersede d (e # es) =
     (if c_dedup_key (de_candidate e) = c_dedup_key (de_candidate d) then (Some e, d # es)
      else let (old, es) = supersede d es in (old, e # es))"

definition addProtectiveLocked :: "decision \<Rightarrow> outbox \<Rightarrow> outbox" where
  "addProtectiveLocked d b =
     (let (old, prot) = supersede d (ob_prot b); b = b\<lparr>ob_prot := prot\<rparr>
      in (case old of None \<Rightarrow> b | Some e \<Rightarrow> deferLocked [e] True b))"

definition pushOrdinaryLocked :: "decision list \<Rightarrow> outbox \<Rightarrow> outbox" where
  "pushOrdinaryLocked ds b =
     (let b = fold addProtectiveLocked (filter crit ds) b; rest = filter (\<lambda>d. \<not> crit d) ds
      in if rest = [] then b
         else if length (ob_ord b) \<ge> ordinaryLaneSlots then deferLocked rest False b
         else b\<lparr>ob_ord := ob_ord b @ [JobGroup rest]\<rparr>)"

datatype handoff = HandoffIgnored | HandoffBuffered | HandoffQueued | HandoffClosed

definition acceptLocked :: "duration \<Rightarrow> go_time \<Rightarrow> decision \<Rightarrow> outbox \<Rightarrow> handoff \<times> outbox" where
  "acceptLocked window now d b =
     (let (expired, b) = join_buffer window now d b;
          b = (if crit d then (let (ds, b) = takeLocked b in fold addProtectiveLocked ds b) else b);
          b = (if expired \<noteq> [] then pushOrdinaryLocked expired b else b)
      in (if crit d then HandoffQueued else HandoffBuffered, b))"

fun acceptAll :: "duration \<Rightarrow> go_time \<Rightarrow> decision list \<Rightarrow> outbox \<Rightarrow> handoff list \<times> outbox" where
  "acceptAll window now [] b = ([], b)"
| "acceptAll window now (d # ds) b =
     (let (h, b) = (if \<not> is_sent (de_disposition d) then (HandoffIgnored, b)
                    else if ob_closed b then (HandoffClosed, ended Rejected [d] b)
                    else acceptLocked window now d b);
          (hs, b) = acceptAll window now ds b
      in (h # hs, b))"

text \<open>\<open>Submit\<close> after the decision: the groups that the caller flushes itself, one after the other.\<close>

definition submitLocked :: "duration \<Rightarrow> go_time \<Rightarrow> decision \<Rightarrow> outbox \<Rightarrow> decision list list \<times> outbox" where
  "submitLocked window now d b =
     (let (expired, b) = join_buffer window now d b;
          (out, b) = (if crit d \<or> ob_closed b then takeLocked b else ([], b))
      in (filter (\<lambda>g. g \<noteq> []) [expired, out], b))"

text \<open>The group that a tick finds due.\<close>

definition takeDue :: "duration \<Rightarrow> go_time \<Rightarrow> outbox \<Rightarrow> decision list \<times> outbox" where
  "takeDue window now b = (if ob_buf b \<noteq> [] \<and> (window \<le> 0 \<or> now \<ge> ob_start b + window) then takeLocked b else ([], b))"

definition popOrdinary :: "outbox \<Rightarrow> lane_job option \<times> outbox" where
  "popOrdinary b = (case ob_ord b of [] \<Rightarrow> (None, b) | j # js \<Rightarrow> (Some j, b\<lparr>ob_ord := js\<rparr>))"

definition takeProtective :: "outbox \<Rightarrow> decision list \<times> outbox" where
  "takeProtective b = (take maxBuffered (ob_prot b), b\<lparr>ob_prot := drop maxBuffered (ob_prot b)\<rparr>)"

definition takeProtectiveRetry :: "outbox \<Rightarrow> retry_entry option \<times> outbox" where
  "takeProtectiveRetry b = (case ob_prot_retries b of [] \<Rightarrow> (None, b) | r # rs \<Rightarrow> (Some r, b\<lparr>ob_prot_retries := rs\<rparr>))"

section \<open>Messages\<close>

definition ranksBefore :: "decision \<Rightarrow> decision \<Rightarrow> bool" where
  "ranksBefore a b =
     (let c = de_candidate a; d = de_candidate b in
      if c_severity c \<noteq> c_severity d then c_severity c > c_severity d
      else if \<not> f_eq (c_salience c) (c_salience d) then f_lt (c_salience d) (c_salience c)
      else if de_at a \<noteq> de_at b then de_at a < de_at b
      else de_id a < de_id b)"

text \<open>A stable sort by insertion.\<close>

fun rank_insert :: "decision \<Rightarrow> decision list \<Rightarrow> decision list" where
  "rank_insert d [] = [d]"
| "rank_insert d (e # es) = (if ranksBefore e d then e # rank_insert d es else d # e # es)"

definition rank_sort :: "decision list \<Rightarrow> decision list" where
  "rank_sort ds = foldr rank_insert ds []"

text \<open>The message of a group; the composer is asked only for a group that escalates and has no protective alert.\<close>

definition flush_message :: "string \<Rightarrow> bool \<Rightarrow> bool \<Rightarrow> decision list \<Rightarrow> message" where
  "flush_message iid compose composer_ok ds =
     \<lparr>ms_id = iid, ms_decisions = rank_sort ds,
      ms_composed = (compose \<and> list_ex (\<lambda>d. de_disposition d = DispEscalate) ds \<and> \<not> list_ex crit ds \<and> composer_ok)\<rparr>"

definition isProtectiveDecision :: "decision \<Rightarrow> bool" where
  "isProtectiveDecision d \<longleftrightarrow> crit d \<or> de_reason d = ReasonProtective"

definition protective :: "message \<Rightarrow> bool" where
  "protective m = list_ex isProtectiveDecision (ms_decisions m)"

definition protectiveSince :: "decision list \<Rightarrow> go_time \<Rightarrow> go_time" where
  "protectiveSince ds now = fold (\<lambda>d t. if isProtectiveDecision d \<and> de_at d < t then de_at d else t) ds now"

definition pastLease :: "decision list \<Rightarrow> go_time \<Rightarrow> bool" where
  "pastLease ds t = list_ex (\<lambda>d. t - de_at d > maxQueueAge) ds"

text \<open>The next try of a message that has failed a number of times, where there is one.\<close>

definition retry_delay :: "bool \<Rightarrow> nat \<Rightarrow> duration option" where
  "retry_delay prot failed =
     (if failed < 1 then None
      else if failed \<le> length retryDelays then Some (retryDelays ! (failed - 1))
      else if prot then Some protectiveRetryEvery
      else None)"

definition scheduleRetry :: "go_time \<Rightarrow> message \<Rightarrow> nat \<Rightarrow> go_time option \<Rightarrow> outbox \<Rightarrow> outbox option" where
  "scheduleRetry now m failed since b =
     (let prot = protective m in
      case retry_delay prot failed of
        None \<Rightarrow> None
      | Some delay \<Rightarrow>
          let due = now + delay;
              since = (if prot then Some (case since of None \<Rightarrow> protectiveSince (ms_decisions m) now | Some t \<Rightarrow> t) else since)
          in if (case since of Some t \<Rightarrow> prot \<and> due - t > protectiveRetryWindow | None \<Rightarrow> False) then None
             else if \<not> prot \<and> pastLease (ms_decisions m) due then None
             else if ob_closed b then None
             else if length (filter (\<lambda>r. protective (re_message r) = prot) (ob_retries b)) \<ge>
                     (if prot then maxPendingProtectiveRetries else maxPendingRetries) then None
             else Some (b\<lparr>ob_retries := ob_retries b @ [\<lparr>re_message = m, re_failed = failed, re_due = due, re_since = since\<rparr>]\<rparr>))"

definition takeDueRetries :: "go_time \<Rightarrow> outbox \<Rightarrow> retry_entry list \<times> outbox" where
  "takeDueRetries now b = (filter (\<lambda>r. \<not> re_due r > now) (ob_retries b), b\<lparr>ob_retries := filter (\<lambda>r. re_due r > now) (ob_retries b)\<rparr>)"

definition handOverDueRetries :: "go_time \<Rightarrow> outbox \<Rightarrow> outbox" where
  "handOverDueRetries now b =
     (let (due, b) = takeDueRetries now b
      in b\<lparr>ob_prot_retries := ob_prot_retries b @ filter (\<lambda>r. protective (re_message r)) due,
           ob_ord := ob_ord b @ map JobRetry (filter (\<lambda>r. \<not> protective (re_message r)) due)\<rparr>)"

section \<open>Work in hand\<close>

datatype work = Pushing "decision list" | Flushing "decision list" bool | Trying retry_entry | Sending message nat "go_time option"
  | GivingUp "decision list" | Ageing "decision list" | Settling "deferral list" "deferral list"
  | Asking bool "unit + digest option" | QueueingDigest digest | SendingDigest digest

text \<open>The work of a popped job; an old group is settled instead of sent.\<close>

definition start_job :: "go_time \<Rightarrow> lane_job \<Rightarrow> work" where
  "start_job now j = (case j of
     JobRetry r \<Rightarrow> Trying r
   | JobDigest dg \<Rightarrow> SendingDigest dg
   | JobGroup ds \<Rightarrow> if pastLease ds now then Ageing ds else Flushing ds True)"

definition attemptRetry :: "go_time \<Rightarrow> retry_entry \<Rightarrow> work" where
  "attemptRetry now r =
     (if \<not> protective (re_message r) \<and> pastLease (ms_decisions (re_message r)) now then GivingUp (ms_decisions (re_message r))
      else Sending (re_message r) (re_failed r) (re_since r))"

text \<open>After \<open>Deliver\<close>: taken, to be tried again, or given up.\<close>

definition after_deliver :: "go_time \<Rightarrow> bool \<Rightarrow> message \<Rightarrow> nat \<Rightarrow> go_time option \<Rightarrow> outbox \<Rightarrow> work list \<times> outbox" where
  "after_deliver now took m failed since b =
     (if took then ([], ended (Delivered (ms_id m)) (ms_decisions m) b)
      else case scheduleRetry now m (failed + 1) since b of
        Some b \<Rightarrow> ([], b)
      | None \<Rightarrow> ([GivingUp (ms_decisions m)], b))"

text \<open>One decision settled, or not: into the backlog of a message given up, out of it for one that was too old.\<close>

definition settled_as :: "bool \<Rightarrow> fate" where
  "settled_as release = (if release then Released else ToDigest)"

definition give_up :: "bool \<Rightarrow> decision \<Rightarrow> outbox \<Rightarrow> outbox" where
  "give_up ok d b = (if ok then ended (settled_as (isProtectiveDecision d)) [d] b else deferLocked [d] (isProtectiveDecision d) b)"

definition age_out :: "bool \<Rightarrow> decision \<Rightarrow> outbox \<Rightarrow> outbox" where
  "age_out ok d b = ended (if ok then ToDigest else Lapsed) [d] b"

definition settle_one :: "bool \<Rightarrow> deferral \<Rightarrow> deferral list \<Rightarrow> outbox \<Rightarrow> deferral list \<times> outbox" where
  "settle_one ok d again b =
     (if ok then (again, ended (settled_as (df_release d)) [df_decision d] b)
      else let d = d\<lparr>df_tries := Suc (df_tries d)\<rparr>
           in if df_tries d < deferTries then (again @ [d], b) else (again, ended Lapsed [df_decision d] b))"

fun put_back :: "deferral list \<Rightarrow> outbox \<Rightarrow> outbox" where
  "put_back [] b = b"
| "put_back (d # ds) b = put_back ds
     (if length (ob_deferred b) < maxDeferBacklog then b\<lparr>ob_deferred := ob_deferred b @ [d]\<rparr> else ended Abandoned [df_decision d] b)"

definition takeDeferrals :: "outbox \<Rightarrow> deferral list \<times> outbox" where
  "takeDeferrals b = (ob_deferred b, b\<lparr>ob_deferred := []\<rparr>)"

text \<open>The digest: at most one check in a minute and one digest at a time.\<close>

definition claim_digest :: "go_time \<Rightarrow> outbox \<Rightarrow> bool \<times> outbox" where
  "claim_digest now b =
     (let minute_now = now div minute in
      if ob_digest_busy b \<or> minute_now = ob_digest_minute b then (False, b)
      else (True, b\<lparr>ob_digest_minute := minute_now, ob_digest_busy := True\<rparr>))"

definition digestDone :: "outbox \<Rightarrow> outbox" where
  "digestDone b = b\<lparr>ob_digest_busy := False\<rparr>"

text \<open>The answer of the gate: an error, none due, or a digest; a digest goes to the lane, where it has room.\<close>

definition pendingDigest :: "unit + digest option \<Rightarrow> outbox \<Rightarrow> digest option \<times> outbox" where
  "pendingDigest answer b = (case answer of
     Inl _ \<Rightarrow> (None, b\<lparr>ob_digest_minute := - 1, ob_digest_busy := False\<rparr>)
   | Inr None \<Rightarrow> (None, digestDone b)
   | Inr (Some dg) \<Rightarrow> (Some dg, b))"

definition handOverDigest :: "digest \<Rightarrow> outbox \<Rightarrow> outbox" where
  "handOverDigest dg b = (if length (ob_ord b) \<ge> ordinaryLaneSlots then digestDone b else b\<lparr>ob_ord := ob_ord b @ [JobDigest dg]\<rparr>)"

section \<open>Stopping\<close>

definition close_box :: "outbox \<Rightarrow> outbox" where
  "close_box b =
     (let (out, b) = takeLocked (b\<lparr>ob_closed := True\<rparr>); b = fold addProtectiveLocked (filter crit out) b; rest = filter (\<lambda>d. \<not> crit d) out
      in if rest = [] then b else b\<lparr>ob_ord := ob_ord b @ [JobGroup rest]\<rparr>)"

fun retry_of :: "lane_job \<Rightarrow> retry_entry list" where
  "retry_of (JobRetry r) = [r]"
| "retry_of _ = []"

definition drainRetries :: "outbox \<Rightarrow> retry_entry list \<times> outbox" where
  "drainRetries b = (ob_retries b @ ob_prot_retries b @ concat (map retry_of (ob_ord b)),
     b\<lparr>ob_retries := [], ob_prot_retries := [], ob_ord := filter (\<lambda>j. retry_of j = []) (ob_ord b)\<rparr>)"

section \<open>The system\<close>

record box =
  bx_box :: outbox
  bx_hands :: "work list"
  bx_accepted :: "decision list" \<comment> \<open>the notify and escalate decisions handed over so far\<close>

definition new_box :: box where
  "new_box = \<lparr>bx_box = NewOutbox, bx_hands = [], bx_accepted = []\<rparr>"

text \<open>
  A hand-over, the sections of the tick, of the workers and of the shutdown, and the progress of the work with a number.
\<close>

datatype box_op = OpAccept duration go_time "decision list" | OpSubmit duration go_time decision
  | OpTake duration go_time bool | OpHandRetries go_time | OpTakeRetries go_time | OpDeferrals | OpClaim bool go_time "unit + digest option"
  | OpPop go_time | OpPopProtective | OpPopRetry | OpClose | OpDrain | OpWork nat go_time string bool

text \<open>What becomes of a work in hand: with a clock, an id, and the answer of who is asked.\<close>

fun do_work :: "go_time \<Rightarrow> string \<Rightarrow> bool \<Rightarrow> work \<Rightarrow> outbox \<Rightarrow> work list \<times> outbox" where
  "do_work now iid ok (Pushing ds) b = ([], pushOrdinaryLocked ds b)"
| "do_work now iid ok (Flushing ds compose) b = ([Sending (flush_message iid compose ok ds) 0 None], b)"
| "do_work now iid ok (Trying r) b = ([attemptRetry now r], b)"
| "do_work now iid ok (Sending m failed since) b = after_deliver now ok m failed since b"
| "do_work now iid ok (GivingUp []) b = ([], b)"
| "do_work now iid ok (GivingUp (d # ds)) b = ([GivingUp ds], give_up ok d b)"
| "do_work now iid ok (Ageing []) b = ([], b)"
| "do_work now iid ok (Ageing (d # ds)) b = ([Ageing ds], age_out ok d b)"
| "do_work now iid ok (Settling [] again) b = ([], put_back again b)"
| "do_work now iid ok (Settling (d # ds) again) b = (let (again, b) = settle_one ok d again b in ([Settling ds again], b))"
| "do_work now iid ok (Asking hand_over answer) b =
     (let (dg, b) = pendingDigest answer b
      in ((case dg of None \<Rightarrow> [] | Some dg \<Rightarrow> [if hand_over then QueueingDigest dg else SendingDigest dg]), b))"
| "do_work now iid ok (QueueingDigest dg) b = ([], handOverDigest dg b)"
| "do_work now iid ok (SendingDigest dg) b = ([], digestDone b)"

definition replace_at :: "nat \<Rightarrow> 'a list \<Rightarrow> 'a list \<Rightarrow> 'a list" where
  "replace_at i ys xs = take i xs @ ys @ drop (Suc i) xs"

fun box_step :: "box_op \<Rightarrow> box \<Rightarrow> box" where
  "box_step (OpAccept window now ds) s =
     s\<lparr>bx_box := snd (acceptAll window now ds (bx_box s)), bx_accepted := bx_accepted s @ filter (\<lambda>d. is_sent (de_disposition d)) ds\<rparr>"
| "box_step (OpSubmit window now d) s =
     (if \<not> is_sent (de_disposition d) then s
      else let (gs, b) = submitLocked window now d (bx_box s)
           in s\<lparr>bx_box := b, bx_hands := bx_hands s @ map (\<lambda>g. Flushing g True) gs, bx_accepted := bx_accepted s @ [d]\<rparr>)"
| "box_step (OpTake window now hand_over) s =
     (let (ds, b) = takeDue window now (bx_box s)
      in s\<lparr>bx_box := b, bx_hands := bx_hands s @ [if hand_over then Pushing ds else Flushing ds True]\<rparr>)"
| "box_step (OpHandRetries now) s = s\<lparr>bx_box := handOverDueRetries now (bx_box s)\<rparr>"
| "box_step (OpTakeRetries now) s =
     (let (rs, b) = takeDueRetries now (bx_box s) in s\<lparr>bx_box := b, bx_hands := bx_hands s @ map Trying rs\<rparr>)"
| "box_step OpDeferrals s = (let (ds, b) = takeDeferrals (bx_box s) in s\<lparr>bx_box := b, bx_hands := bx_hands s @ [Settling ds []]\<rparr>)"
| "box_step (OpClaim hand_over now answer) s =
     (let (claimed, b) = claim_digest now (bx_box s)
      in s\<lparr>bx_box := b, bx_hands := bx_hands s @ (if claimed then [Asking hand_over answer] else [])\<rparr>)"
| "box_step (OpPop now) s =
     (let (j, b) = popOrdinary (bx_box s) in (case j of None \<Rightarrow> s | Some j \<Rightarrow> s\<lparr>bx_box := b, bx_hands := bx_hands s @ [start_job now j]\<rparr>))"
| "box_step OpPopProtective s =
     (let (ds, b) = takeProtective (bx_box s) in if ds = [] then s else s\<lparr>bx_box := b, bx_hands := bx_hands s @ [Flushing ds False]\<rparr>)"
| "box_step OpPopRetry s =
     (let (r, b) = takeProtectiveRetry (bx_box s) in (case r of None \<Rightarrow> s | Some r \<Rightarrow> s\<lparr>bx_box := b, bx_hands := bx_hands s @ [Trying r]\<rparr>))"
| "box_step OpClose s = s\<lparr>bx_box := close_box (bx_box s)\<rparr>"
| "box_step OpDrain s =
     (let (rs, b) = drainRetries (bx_box s) in s\<lparr>bx_box := b, bx_hands := bx_hands s @ map (\<lambda>r. GivingUp (ms_decisions (re_message r))) rs\<rparr>)"
| "box_step (OpWork i now iid ok) s =
     (if i < length (bx_hands s)
      then let (ws, b) = do_work now iid ok (bx_hands s ! i) (bx_box s) in s\<lparr>bx_box := b, bx_hands := replace_at i ws (bx_hands s)\<rparr>
      else s)"

end
