(* ===== verification/OutboxSafety.thy ===== *)
theory OutboxSafety
  imports Outbox
begin

text \<open>
  What the outbox promises of the decisions it takes: none is lost and none ends twice, no protective alert goes into the
  digest, one digest is in the making at a time, its queues are bounded, and a retry never outlives the lease of a decision
  or the hour of a protective alert. Each is an invariant of \<^const>\<open>box_step\<close>, for every interleaving of the works in hand.
\<close>

section \<open>Where a decision can be\<close>

fun job_decisions :: "lane_job \<Rightarrow> decision list" where
  "job_decisions (JobGroup ds) = ds"
| "job_decisions (JobDigest dg) = []"
| "job_decisions (JobRetry r) = ms_decisions (re_message r)"

fun hand_decisions :: "work \<Rightarrow> decision list" where
  "hand_decisions (Pushing ds) = ds"
| "hand_decisions (Flushing ds compose) = ds"
| "hand_decisions (Trying r) = ms_decisions (re_message r)"
| "hand_decisions (Sending m failed since) = ms_decisions m"
| "hand_decisions (GivingUp ds) = ds"
| "hand_decisions (Ageing ds) = ds"
| "hand_decisions (Settling todo again) = map df_decision todo @ map df_decision again"
| "hand_decisions (Asking hand_over answer) = []"
| "hand_decisions (QueueingDigest dg) = []"
| "hand_decisions (SendingDigest dg) = []"

definition retry_decisions :: "retry_entry list \<Rightarrow> decision list" where
  "retry_decisions rs = concat (map (\<lambda>r. ms_decisions (re_message r)) rs)"

definition waiting_in_box :: "outbox \<Rightarrow> decision list" where
  "waiting_in_box b = ob_buf b @ concat (map job_decisions (ob_ord b)) @ ob_prot b @ map df_decision (ob_deferred b) @
     retry_decisions (ob_retries b) @ retry_decisions (ob_prot_retries b)"

definition outbox_waiting :: "box \<Rightarrow> decision list" where
  "outbox_waiting s = waiting_in_box (bx_box s) @ concat (map hand_decisions (bx_hands s))"

abbreviation ended_decisions :: "outbox \<Rightarrow> decision list" where
  "ended_decisions b \<equiv> map fst (ob_fates b)"

definition content :: "outbox \<Rightarrow> decision multiset" where
  "content b = mset (waiting_in_box b) + mset (ended_decisions b)"

abbreviation in_hands :: "work list \<Rightarrow> decision multiset" where
  "in_hands ws \<equiv> mset (concat (map hand_decisions ws))"

lemma content_unfold:
  "content b = mset (ob_buf b) + mset (concat (map job_decisions (ob_ord b))) + mset (ob_prot b) +
     mset (map df_decision (ob_deferred b)) + mset (retry_decisions (ob_retries b)) + mset (retry_decisions (ob_prot_retries b)) +
     mset (map fst (ob_fates b))"
  by (simp add: content_def waiting_in_box_def)

lemma retry_decisions_simps [simp]:
  "retry_decisions [] = []"
  "retry_decisions (r # rs) = ms_decisions (re_message r) @ retry_decisions rs"
  "retry_decisions (rs @ rs') = retry_decisions rs @ retry_decisions rs'"
  by (simp_all add: retry_decisions_def)

lemma retry_decisions_split:
  "mset (retry_decisions (filter P rs)) + mset (retry_decisions (filter (\<lambda>r. \<not> P r) rs)) = mset (retry_decisions rs)"
  by (induction rs) auto

lemma mset_rank_sort [simp]: "mset (rank_sort ds) = mset ds"
proof -
  have ins: "mset (rank_insert d es) = add_mset d (mset es)" for d es by (induction es) auto
  show ?thesis unfolding rank_sort_def by (induction ds) (auto simp: ins)
qed

lemma in_hands_replace:
  assumes "i < length ws"
  shows "in_hands (replace_at i us ws) + mset (hand_decisions (ws ! i)) = in_hands ws + in_hands us"
proof -
  have "ws = take i ws @ ws ! i # drop (Suc i) ws" using assms by (simp add: id_take_nth_drop)
  then have "in_hands ws = in_hands (take i ws @ ws ! i # drop (Suc i) ws)" by simp
  then show ?thesis by (simp add: replace_at_def)
qed

section \<open>Nothing is lost\<close>

lemma exchange:
  assumes "a + p = c + e" "e + q = p + d"
  shows "a + q = c + (d :: decision multiset)"
proof (rule multiset_eqI)
  fix x
  from assms have "count (a + p) x = count (c + e) x" "count (e + q) x = count (p + d) x" by simp_all
  then show "count (a + q) x = count (c + d) x" by simp
qed

lemma content_ended [simp]: "content (ended f ds b) = content b + mset ds"
  by (simp add: content_unfold ended_def comp_def)

lemma content_take [simp]: "takeLocked b = (ds, b') \<Longrightarrow> content b' + mset ds = content b"
  by (auto simp: takeLocked_def content_unfold)

lemma content_deferLocked [simp]: "content (deferLocked ds release b) = content b + mset ds"
  by (induction ds release b rule: deferLocked.induct) (auto simp: content_unfold ended_def)

lemma supersede_content:
  "supersede d es = (old, es') \<Longrightarrow> mset es' + (case old of None \<Rightarrow> {#} | Some e \<Rightarrow> {#e#}) = mset es + {#d#}"
  by (induction d es arbitrary: old es' rule: supersede.induct)
    (fastforce split: if_splits prod.splits option.splits)+

lemma content_addProtectiveLocked [simp]: "content (addProtectiveLocked d b) = content b + {#d#}"
proof -
  obtain old es where s: "supersede d (ob_prot b) = (old, es)" by force
  define b1 where "b1 = b\<lparr>ob_prot := es\<rparr>"
  have b1: "content b1 + mset (ob_prot b) = content b + mset es" by (simp add: content_unfold b1_def)
  have "content (addProtectiveLocked d b) = content b1 + (case old of None \<Rightarrow> {#} | Some e \<Rightarrow> {#e#})"
    by (simp add: addProtectiveLocked_def s flip: b1_def del: deferLocked.simps split: option.split)
  then show ?thesis using exchange [OF b1 supersede_content [OF s]] by simp
qed

lemma content_fold_protective [simp]: "content (fold addProtectiveLocked ds b) = content b + mset ds"
  by (induction ds arbitrary: b) auto

lemma mset_split: "mset (filter P xs) + mset (filter (\<lambda>x. \<not> P x) xs) = mset xs"
  by (induction xs) auto

lemma content_new_group [simp]: "content (b\<lparr>ob_ord := ob_ord b @ [JobGroup ds]\<rparr>) = content b + mset ds"
  by (simp add: content_unfold)

lemma content_pushOrdinaryLocked [simp]: "content (pushOrdinaryLocked ds b) = content b + mset ds"
proof -
  define b1 where "b1 = fold addProtectiveLocked (filter crit ds) b"
  have "content (pushOrdinaryLocked ds b) = content b1 + mset (filter (\<lambda>d. \<not> crit d) ds)"
    by (simp add: pushOrdinaryLocked_def Let_def flip: b1_def del: mset_filter)
  also have "\<dots> = content b + (mset (filter crit ds) + mset (filter (\<lambda>d. \<not> crit d) ds))"
    by (simp add: b1_def)
  also have "\<dots> = content b + mset ds" by (simp only: mset_split)
  finally show ?thesis .
qed

lemma content_join_buffer: "join_buffer window now d b = (expired, b') \<Longrightarrow> content b' + mset expired = content b + {#d#}"
  by (auto simp: join_buffer_def content_unfold takeLocked_def Let_def split: if_splits)

lemma content_acceptLocked [simp]: "content (snd (acceptLocked window now d b)) = content b + {#d#}"
proof -
  obtain expired b1 where j: "join_buffer window now d b = (expired, b1)" by force
  obtain ds b2 where t: "takeLocked b1 = (ds, b2)" by force
  have t': "content b2 + mset ds = content b1" using content_take [OF t] .
  have "content (snd (acceptLocked window now d b)) = content b1 + mset expired"
    by (simp add: acceptLocked_def j t Let_def t')
  then show ?thesis using content_join_buffer [OF j] by simp
qed

lemma content_acceptAll: "content (snd (acceptAll window now ds b)) = content b + mset (filter (\<lambda>d. is_sent (de_disposition d)) ds)"
proof (induction window now ds b rule: acceptAll.induct)
  case (2 window now d ds b)
  obtain h b1 where h: "acceptLocked window now d b = (h, b1)" by force
  have "content b1 = content b + {#d#}" using content_acceptLocked [of window now d b] by (simp add: h)
  with 2 h show ?case by (auto simp: Let_def case_prod_beta)
qed simp

lemma concat_nonempty: "concat (filter (\<lambda>g. g \<noteq> []) gs) = concat gs"
  by (induction gs) auto

lemma content_submitLocked:
  assumes "submitLocked window now d b = (gs, b')"
  shows "content b' + mset (concat gs) = content b + {#d#}"
proof -
  obtain expired b1 where j: "join_buffer window now d b = (expired, b1)" by force
  obtain ds b2 where o: "(if crit d \<or> ob_closed b1 then takeLocked b1 else ([], b1)) = (ds, b2)" by force
  have t: "content b2 + mset ds = content b1" using o content_take [of b1 ds b2] by (auto split: if_splits)
  have gs: "gs = filter (\<lambda>g. g \<noteq> []) [expired, ds]" and b': "b' = b2"
    using assms unfolding submitLocked_def j o Let_def prod.case by simp_all
  have "mset (concat gs) = mset expired + mset ds" unfolding gs concat_nonempty by simp
  then have "content b' + mset (concat gs) = (content b2 + mset ds) + mset expired" by (simp add: b')
  then show ?thesis by (simp only: t content_join_buffer [OF j])
qed

lemma content_scheduleRetry: "scheduleRetry now m failed since b = Some b' \<Longrightarrow> content b' = content b + mset (ms_decisions m)"
  by (auto simp: scheduleRetry_def content_unfold Let_def split: option.splits if_splits)

lemma content_due_retries:
  "takeDueRetries now b = (rs, b') \<Longrightarrow> content b' + mset (retry_decisions rs) = content b"
  using retry_decisions_split [of "\<lambda>r. re_due r > now" "ob_retries b"]
  by (auto simp: takeDueRetries_def content_unfold)

lemma job_decisions_retries: "concat (map job_decisions (map JobRetry rs)) = retry_decisions rs"
  by (induction rs) auto

lemma content_handOverDueRetries [simp]: "content (handOverDueRetries now b) = content b"
proof -
  obtain rs b1 where t: "takeDueRetries now b = (rs, b1)" by force
  have j: "concat (map (job_decisions \<circ> JobRetry) xs) = retry_decisions xs" for xs
    using job_decisions_retries [of xs] by simp
  have "content (handOverDueRetries now b) = content b1 + (mset (retry_decisions (filter (\<lambda>r. protective (re_message r)) rs)) +
      mset (retry_decisions (filter (\<lambda>r. \<not> protective (re_message r)) rs)))"
    by (simp add: handOverDueRetries_def t content_unfold j)
  then show ?thesis by (simp only: retry_decisions_split content_due_retries [OF t])
qed

lemma put_back_content [simp]: "content (put_back ds b) = content b + mset (map df_decision ds)"
  by (induction ds b rule: put_back.induct) (auto simp: content_unfold ended_def)

lemma drain_content:
  assumes "drainRetries b = (rs, b')"
  shows "content b' + mset (retry_decisions rs) = content b"
proof -
  have "mset (concat (map job_decisions (filter (\<lambda>j. retry_of j = []) js))) + mset (retry_decisions (concat (map retry_of js)))
      = mset (concat (map job_decisions js))" for js
  proof (induction js)
    case (Cons j js)
    then show ?case by (cases j) auto
  qed simp
  from this [of "ob_ord b"] assms show ?thesis by (auto simp: drainRetries_def content_unfold)
qed

lemma content_close [simp]: "content (close_box b) = content b"
proof -
  define b1 where "b1 = fold addProtectiveLocked (filter crit (ob_buf b)) (b\<lparr>ob_closed := True, ob_buf := []\<rparr>)"
  have "content (close_box b) = content b1 + mset (filter (\<lambda>d. \<not> crit d) (ob_buf b))"
    by (simp add: close_box_def takeLocked_def Let_def flip: b1_def del: mset_filter)
  also have "\<dots> = content (b\<lparr>ob_closed := True, ob_buf := []\<rparr>) +
      (mset (filter crit (ob_buf b)) + mset (filter (\<lambda>d. \<not> crit d) (ob_buf b)))" by (simp add: b1_def)
  also have "\<dots> = content (b\<lparr>ob_closed := True, ob_buf := []\<rparr>) + mset (ob_buf b)" by (simp only: mset_split)
  also have "\<dots> = content b" by (simp add: content_unfold)
  finally show ?thesis .
qed

lemma content_digest [simp]:
  "content (digestDone b) = content b" "content (handOverDigest dg b) = content b"
  "content (snd (claim_digest now b)) = content b" "content (snd (pendingDigest answer b)) = content b"
  by (auto simp: digestDone_def handOverDigest_def claim_digest_def pendingDigest_def content_unfold Let_def
      split: sum.splits option.splits)

lemma after_deliver_content:
  "after_deliver now took m failed since b = (ws, b') \<Longrightarrow> content b' + in_hands ws = content b + mset (ms_decisions m)"
  using content_scheduleRetry [of now m "failed + 1" since b]
  by (auto simp: after_deliver_def split: if_splits option.splits)

lemma do_work_content:
  "do_work now iid ok w b = (ws, b') \<Longrightarrow> content b' + in_hands ws = content b + mset (hand_decisions w)"
proof (induction now iid ok w b rule: do_work.induct)
  case (4 now iid ok m failed since b)
  then show ?case by (auto dest: after_deliver_content)
next
  case (11 now iid ok ho answer b)
  then show ?case using content_digest(4) [of answer b] by (auto simp: case_prod_beta Let_def split: option.splits)
qed (auto simp: flush_message_def attemptRetry_def give_up_def age_out_def settle_one_def Let_def simp del: deferLocked.simps split: if_splits)

lemma box_step_content:
  assumes "mset (bx_accepted s) = content (bx_box s) + in_hands (bx_hands s)"
  shows "mset (bx_accepted (box_step op' s)) = content (bx_box (box_step op' s)) + in_hands (bx_hands (box_step op' s))"
proof (cases op')
  case (OpAccept window now ds)
  then show ?thesis using assms content_acceptAll [of window now ds "bx_box s"] by simp
next
  case (OpSubmit window now d)
  obtain gs b where g: "submitLocked window now d (bx_box s) = (gs, b)" by force
  have h: "concat (map (hand_decisions \<circ> (\<lambda>g. Flushing g True)) gs) = concat gs" by (simp add: comp_def)
  show ?thesis using OpSubmit assms content_submitLocked [OF g] by (simp add: g h)
next
  case (OpTake window now ho)
  obtain ds b where t: "takeDue window now (bx_box s) = (ds, b)" by force
  have "content b + mset ds = content (bx_box s)"
    using t content_take [of "bx_box s"] by (auto simp: takeDue_def split: if_splits)
  then show ?thesis using OpTake assms by (simp add: t)
next
  case (OpTakeRetries now)
  obtain rs b where t: "takeDueRetries now (bx_box s) = (rs, b)" by force
  have h: "concat (map (hand_decisions \<circ> Trying) rs) = retry_decisions rs" by (simp add: comp_def retry_decisions_def)
  show ?thesis using OpTakeRetries assms content_due_retries [OF t] by (simp add: t h)
next
  case OpDeferrals
  then show ?thesis using assms by (simp add: takeDeferrals_def content_unfold)
next
  case (OpClaim ho now answer)
  then show ?thesis using assms content_digest(3) [of now "bx_box s"] by (simp add: case_prod_beta Let_def)
next
  case (OpPop now)
  have "mset (hand_decisions (start_job now j)) = mset (job_decisions j)" for j
    by (cases j) (auto simp: start_job_def)
  then show ?thesis using OpPop assms by (auto simp: popOrdinary_def content_unfold split: list.split)
next
  case OpPopProtective
  have "mset xs = mset (drop n xs) + mset (take n xs)" for n and xs :: "decision list"
    by (metis append_take_drop_id mset_append add.commute)
  from this [of "ob_prot (bx_box s)" maxBuffered] OpPopProtective assms show ?thesis
    by (auto simp: takeProtective_def content_unfold)
next
  case OpPopRetry
  then show ?thesis using assms by (auto simp: takeProtectiveRetry_def content_unfold split: list.split)
next
  case OpDrain
  obtain rs b where t: "drainRetries (bx_box s) = (rs, b)" by force
  have h: "concat (map (hand_decisions \<circ> (\<lambda>r. GivingUp (ms_decisions (re_message r)))) rs) = retry_decisions rs"
    by (simp add: comp_def retry_decisions_def)
  show ?thesis using OpDrain assms drain_content [OF t] by (simp add: t h)
next
  case (OpWork i now iid ok)
  obtain ws b where w: "do_work now iid ok (bx_hands s ! i) (bx_box s) = (ws, b)" by force
  show ?thesis
  proof (cases "i < length (bx_hands s)")
    case True
    have "in_hands (replace_at i ws (bx_hands s)) + content b = in_hands (bx_hands s) + content (bx_box s)"
      by (rule exchange [OF in_hands_replace [OF True]]) (use do_work_content [OF w] in \<open>simp add: ac_simps\<close>)
    then show ?thesis using OpWork assms True by (simp add: w ac_simps)
  qed (use OpWork assms in simp)
qed (use assms in simp_all)

definition outbox_accounted :: "box \<Rightarrow> bool" where
  "outbox_accounted s \<longleftrightarrow> mset (bx_accepted s) = content (bx_box s) + in_hands (bx_hands s)"

lemma box_step_accounted: "outbox_accounted s \<Longrightarrow> outbox_accounted (box_step op' s)"
  unfolding outbox_accounted_def by (rule box_step_content)

section \<open>What the queues may hold\<close>

definition retry_ok :: "retry_entry \<Rightarrow> bool" where
  "retry_ok r =
     (if protective (re_message r) then (case re_since r of None \<Rightarrow> False | Some t \<Rightarrow> re_due r - t \<le> protectiveRetryWindow)
      else re_failed r \<le> 3 \<and> \<not> pastLease (ms_decisions (re_message r)) (re_due r))"

fun job_ok :: "lane_job \<Rightarrow> bool" where
  "job_ok (JobGroup ds) = list_all (\<lambda>d. \<not> crit d) ds"
| "job_ok (JobDigest dg) = True"
| "job_ok (JobRetry r) = (retry_ok r \<and> \<not> protective (re_message r))"

definition deferral_ok :: "deferral \<Rightarrow> bool" where
  "deferral_ok d \<longleftrightarrow> df_release d \<or> \<not> crit (df_decision d)"

definition fate_ok :: "decision \<times> fate \<Rightarrow> bool" where
  "fate_ok p \<longleftrightarrow> \<not> (crit (fst p) \<and> snd p = ToDigest)"

fun hand_ok :: "work \<Rightarrow> bool" where
  "hand_ok (Ageing ds) = list_all (\<lambda>d. \<not> crit d) ds"
| "hand_ok (Settling todo again) = (list_all deferral_ok todo \<and> list_all deferral_ok again)"
| "hand_ok (Trying r) = retry_ok r"
| "hand_ok (Sending m failed since) = (protective m \<or> failed \<le> 3)"
| "hand_ok _ = True"

abbreviation prot_key :: "decision \<Rightarrow> string" where
  "prot_key d \<equiv> c_dedup_key (de_candidate d)"

definition box_ok :: "outbox \<Rightarrow> bool" where
  "box_ok b \<longleftrightarrow>
     length (ob_buf b) \<le> maxBuffered \<and> length (ob_deferred b) \<le> maxDeferBacklog \<and> distinct (map prot_key (ob_prot b)) \<and>
     length (filter (\<lambda>r. protective (re_message r)) (ob_retries b)) \<le> maxPendingProtectiveRetries \<and>
     length (filter (\<lambda>r. \<not> protective (re_message r)) (ob_retries b)) \<le> maxPendingRetries \<and>
     list_all retry_ok (ob_retries b) \<and> list_all retry_ok (ob_prot_retries b) \<and>
     list_all job_ok (ob_ord b) \<and> list_all deferral_ok (ob_deferred b) \<and> list_all fate_ok (ob_fates b)"

lemma not_past_lease: "\<not> pastLease ds t \<longleftrightarrow> list_all (\<lambda>d. t - de_at d \<le> maxQueueAge) ds"
  by (auto simp: pastLease_def list_ex_iff list_all_iff)

lemma box_ok_ended [simp]: "box_ok b \<Longrightarrow> list_all (\<lambda>d. fate_ok (d, f)) ds \<Longrightarrow> box_ok (ended f ds b)"
  by (auto simp: box_ok_def ended_def list_all_iff)

lemma fate_ok_not_digest [simp]: "f \<noteq> ToDigest \<Longrightarrow> fate_ok (d, f)"
  by (simp add: fate_ok_def)

lemma box_ok_deferLocked:
  "box_ok b \<Longrightarrow> list_all (\<lambda>d. release \<or> \<not> crit d) ds \<Longrightarrow> box_ok (deferLocked ds release b)"
proof (induction ds release b rule: deferLocked.induct)
  case (2 d ds release b)
  let ?b = "if length (ob_deferred b) \<ge> maxDeferBacklog then ended Abandoned [d] b
      else b\<lparr>ob_deferred := ob_deferred b @ [\<lparr>df_decision = d, df_release = release, df_tries = 0\<rparr>]\<rparr>"
  have "box_ok ?b" using 2(2,3) by (auto simp: box_ok_def deferral_ok_def ended_def)
  with 2 show ?case by simp
qed simp

lemma supersede_keys:
  "map prot_key (snd (supersede d es)) = (if prot_key d \<in> set (map prot_key es) then map prot_key es else map prot_key es @ [prot_key d])"
  by (induction d es rule: supersede.induct) (auto split: prod.splits)

lemma box_ok_addProtectiveLocked: "box_ok b \<Longrightarrow> box_ok (addProtectiveLocked d b)"
proof -
  assume ok: "box_ok b"
  obtain old es where s: "supersede d (ob_prot b) = (old, es)" by force
  have "distinct (map prot_key es)" using supersede_keys [of d "ob_prot b"] ok by (auto simp: s box_ok_def split: if_splits)
  then have "box_ok (b\<lparr>ob_prot := es\<rparr>)" using ok by (simp add: box_ok_def)
  then show ?thesis
    by (cases old) (auto simp: addProtectiveLocked_def s Let_def intro!: box_ok_deferLocked simp del: deferLocked.simps)
qed

lemma box_ok_fold_protective: "box_ok b \<Longrightarrow> box_ok (fold addProtectiveLocked ds b)"
  by (induction ds arbitrary: b) (auto intro: box_ok_addProtectiveLocked)

lemma box_ok_new_group: "box_ok b \<Longrightarrow> list_all (\<lambda>d. \<not> crit d) ds \<Longrightarrow> box_ok (b\<lparr>ob_ord := ob_ord b @ [JobGroup ds]\<rparr>)"
  by (simp add: box_ok_def)

lemma box_ok_pushOrdinaryLocked: "box_ok b \<Longrightarrow> box_ok (pushOrdinaryLocked ds b)"
  unfolding pushOrdinaryLocked_def Let_def
  by (auto intro!: box_ok_fold_protective box_ok_deferLocked box_ok_new_group simp: list_all_iff)

lemma box_ok_take: "takeLocked b = (ds, b') \<Longrightarrow> box_ok b \<Longrightarrow> box_ok b'"
  by (auto simp: takeLocked_def box_ok_def)

lemma box_ok_join_buffer: "join_buffer window now d b = (expired, b') \<Longrightarrow> box_ok b \<Longrightarrow> box_ok b'"
  by (auto simp: join_buffer_def takeLocked_def box_ok_def Let_def maxBuffered_def split: if_splits)

lemma box_ok_acceptLocked: "box_ok b \<Longrightarrow> box_ok (snd (acceptLocked window now d b))"
proof -
  assume ok: "box_ok b"
  obtain expired b1 where j: "join_buffer window now d b = (expired, b1)" by force
  obtain ds b2 where t: "takeLocked b1 = (ds, b2)" by force
  have "box_ok b1" "box_ok b2" using box_ok_join_buffer [OF j ok] box_ok_take [OF t] by auto
  then show ?thesis
    by (auto simp: acceptLocked_def j t Let_def intro!: box_ok_pushOrdinaryLocked box_ok_fold_protective)
qed

lemma box_ok_acceptAll: "box_ok b \<Longrightarrow> box_ok (snd (acceptAll window now ds b))"
proof (induction window now ds b rule: acceptAll.induct)
  case (2 window now d ds b)
  obtain h b1 where h: "acceptLocked window now d b = (h, b1)" by force
  have "box_ok b1" using box_ok_acceptLocked [OF 2(2), of window now d] by (simp add: h)
  with 2 h show ?case by (auto simp: Let_def case_prod_beta)
qed simp

lemma box_ok_submitLocked: "submitLocked window now d b = (gs, b') \<Longrightarrow> box_ok b \<Longrightarrow> box_ok b'"
  using box_ok_join_buffer [of window now d b] box_ok_take
  by (fastforce simp: submitLocked_def Let_def split: prod.splits if_splits)

lemma box_ok_scheduleRetry:
  assumes "scheduleRetry now m failed since b = Some b'" "box_ok b"
  shows "box_ok b'"
proof (cases "protective m")
  case True
  with assms show ?thesis
    by (auto simp: scheduleRetry_def box_ok_def retry_ok_def Let_def split: option.splits if_splits)
next
  case False
  then have "failed \<le> 3" using assms by (auto simp: scheduleRetry_def retry_delay_def retryDelays_def split: option.splits if_splits)
  with False assms show ?thesis
    by (auto simp: scheduleRetry_def box_ok_def retry_ok_def Let_def split: option.splits if_splits)
qed

lemma box_ok_due: "takeDueRetries now b = (rs, b') \<Longrightarrow> box_ok b \<Longrightarrow> box_ok b' \<and> list_all retry_ok rs"
proof -
  assume t: "takeDueRetries now b = (rs, b')" and ok: "box_ok b"
  have f: "length (filter P (filter Q xs)) \<le> length (filter P xs)" for P Q and xs :: "retry_entry list"
    by (induction xs) auto
  with t ok show ?thesis
    by (auto simp: takeDueRetries_def box_ok_def list_all_iff simp del: filter_filter intro!: order_trans [OF f])
qed

lemma box_ok_handOver: "box_ok b \<Longrightarrow> box_ok (handOverDueRetries now b)"
proof -
  assume ok: "box_ok b"
  obtain rs b1 where t: "takeDueRetries now b = (rs, b1)" by force
  from box_ok_due [OF t ok] show ?thesis by (auto simp: handOverDueRetries_def t box_ok_def list_all_iff)
qed

lemma box_ok_put_back: "box_ok b \<Longrightarrow> list_all deferral_ok ds \<Longrightarrow> box_ok (put_back ds b)"
proof (induction ds b rule: put_back.induct)
  case (2 d ds b)
  let ?b = "if length (ob_deferred b) < maxDeferBacklog then b\<lparr>ob_deferred := ob_deferred b @ [d]\<rparr> else ended Abandoned [df_decision d] b"
  have "box_ok ?b" using 2(2,3) by (auto simp: box_ok_def ended_def)
  with 2 show ?case by simp
qed simp

lemma box_ok_digest:
  "box_ok b \<Longrightarrow> box_ok (digestDone b)" "box_ok b \<Longrightarrow> box_ok (handOverDigest dg b)"
  "box_ok b \<Longrightarrow> box_ok (snd (claim_digest now b))" "box_ok b \<Longrightarrow> box_ok (snd (pendingDigest answer b))"
  by (auto simp: digestDone_def handOverDigest_def claim_digest_def pendingDigest_def box_ok_def Let_def
      split: sum.splits option.splits)

lemma box_ok_close: "box_ok b \<Longrightarrow> box_ok (close_box b)"
proof -
  assume "box_ok b"
  then have "box_ok (b\<lparr>ob_closed := True, ob_buf := []\<rparr>)" by (simp add: box_ok_def)
  then show ?thesis
    by (auto simp: close_box_def takeLocked_def Let_def list_all_iff intro!: box_ok_fold_protective box_ok_new_group)
qed

lemma retry_of_ok: "job_ok j \<Longrightarrow> list_all retry_ok (retry_of j)"
  by (cases j) auto

lemma box_ok_drain: "drainRetries b = (rs, b') \<Longrightarrow> box_ok b \<Longrightarrow> box_ok b'"
  by (auto simp: drainRetries_def box_ok_def list_all_iff)

lemma settled_fate_ok: "deferral_ok d \<Longrightarrow> fate_ok (df_decision d, settled_as (df_release d))"
  by (auto simp: deferral_ok_def fate_ok_def settled_as_def)

lemma box_ok_after_deliver:
  "after_deliver now took m failed since b = (ws, b') \<Longrightarrow> box_ok b \<Longrightarrow> box_ok b' \<and> list_all hand_ok ws"
  using box_ok_scheduleRetry [of now m "failed + 1" since b]
  by (auto simp: after_deliver_def list_all_iff split: if_splits option.splits)

lemma do_work_ok:
  "do_work now iid ok w b = (ws, b') \<Longrightarrow> box_ok b \<Longrightarrow> hand_ok w \<Longrightarrow> box_ok b' \<and> list_all hand_ok ws"
proof (induction now iid ok w b rule: do_work.induct)
  case (1 now iid ok ds b)
  then show ?case by (auto intro: box_ok_pushOrdinaryLocked)
next
  case (3 now iid ok r b)
  then show ?case by (cases "protective (re_message r)") (auto simp: attemptRetry_def retry_ok_def split: if_splits)
next
  case (4 now iid ok m failed since b)
  then show ?case by (auto dest: box_ok_after_deliver)
next
  case (6 now iid ok d ds b)
  have "box_ok (give_up ok d b)"
    using 6(2) by (auto simp: give_up_def fate_ok_def settled_as_def isProtectiveDecision_def intro!: box_ok_deferLocked simp del: deferLocked.simps)
  then show ?case using 6(1) by auto
next
  case (8 now iid ok d ds b)
  then show ?case by (auto simp: age_out_def fate_ok_def)
next
  case (9 now iid ok again b)
  then show ?case by (auto intro: box_ok_put_back)
next
  case (10 now iid ok d ds again b)
  then show ?case by (auto simp: settle_one_def Let_def deferral_ok_def fate_ok_def settled_as_def split: if_splits)
next
  case (11 now iid ok ho answer b)
  then show ?case using box_ok_digest(4) [of b answer] by (auto simp: case_prod_beta Let_def split: option.splits if_splits)
qed (auto intro: box_ok_digest)

definition system_ok :: "box \<Rightarrow> bool" where
  "system_ok s \<longleftrightarrow> box_ok (bx_box s) \<and> list_all hand_ok (bx_hands s)"

lemma hand_ok_replace: "list_all P ws \<Longrightarrow> list_all P us \<Longrightarrow> list_all P (replace_at i us ws)"
  by (auto simp: replace_at_def list_all_iff dest: in_set_takeD in_set_dropD)

lemma box_step_ok: "system_ok s \<Longrightarrow> system_ok (box_step op' s)"
proof (cases op')
  case (OpAccept window now ds)
  assume "system_ok s"
  then show ?thesis using OpAccept by (simp add: system_ok_def box_ok_acceptAll)
next
  case (OpSubmit window now d)
  assume s: "system_ok s"
  obtain gs b where g: "submitLocked window now d (bx_box s) = (gs, b)" by force
  show ?thesis using OpSubmit s box_ok_submitLocked [OF g] by (auto simp: system_ok_def g list_all_iff)
next
  case (OpTake window now ho)
  assume s: "system_ok s"
  then show ?thesis using OpTake box_ok_take [of "bx_box s"]
    by (auto simp: system_ok_def takeDue_def split: prod.splits if_splits)
next
  case (OpHandRetries now)
  assume "system_ok s"
  then show ?thesis using OpHandRetries by (simp add: system_ok_def box_ok_handOver)
next
  case (OpTakeRetries now)
  assume s: "system_ok s"
  obtain rs b where t: "takeDueRetries now (bx_box s) = (rs, b)" by force
  show ?thesis using OpTakeRetries s box_ok_due [OF t] by (auto simp: system_ok_def t list_all_iff)
next
  case OpDeferrals
  assume "system_ok s"
  then show ?thesis using OpDeferrals by (simp add: system_ok_def takeDeferrals_def box_ok_def)
next
  case (OpClaim ho now answer)
  assume "system_ok s"
  then show ?thesis using OpClaim box_ok_digest(3) [of "bx_box s" now] by (simp add: system_ok_def case_prod_beta Let_def)
next
  case (OpPop now)
  assume s: "system_ok s"
  have "job_ok j \<Longrightarrow> hand_ok (start_job now j)" for j by (cases j) (auto simp: start_job_def)
  then show ?thesis using OpPop s by (auto simp: system_ok_def popOrdinary_def box_ok_def split: list.split)
next
  case OpPopProtective
  assume s: "system_ok s"
  have "distinct (map prot_key (drop n xs))" if "distinct (map prot_key xs)" for n xs
    using that by (simp flip: drop_map add: distinct_drop)
  then show ?thesis using OpPopProtective s by (auto simp: system_ok_def takeProtective_def box_ok_def)
next
  case OpPopRetry
  assume "system_ok s"
  then show ?thesis using OpPopRetry by (auto simp: system_ok_def takeProtectiveRetry_def box_ok_def split: list.split)
next
  case OpClose
  assume "system_ok s"
  then show ?thesis using OpClose by (simp add: system_ok_def box_ok_close)
next
  case OpDrain
  assume s: "system_ok s"
  obtain rs b where t: "drainRetries (bx_box s) = (rs, b)" by force
  show ?thesis using OpDrain s box_ok_drain [OF t] by (auto simp: system_ok_def t list_all_iff)
next
  case (OpWork i now iid ok)
  assume s: "system_ok s"
  obtain ws b where w: "do_work now iid ok (bx_hands s ! i) (bx_box s) = (ws, b)" by force
  have "box_ok b \<and> list_all hand_ok ws" if "i < length (bx_hands s)"
    using do_work_ok [OF w] s that by (simp add: system_ok_def list_all_length)
  then show ?thesis using OpWork s by (auto simp: system_ok_def w hand_ok_replace)
qed

section \<open>One digest at a time\<close>

fun digest_job :: "lane_job \<Rightarrow> bool" where
  "digest_job (JobDigest dg) = True"
| "digest_job _ = False"

fun digest_hand :: "work \<Rightarrow> bool" where
  "digest_hand (Asking hand_over answer) = True"
| "digest_hand (QueueingDigest dg) = True"
| "digest_hand (SendingDigest dg) = True"
| "digest_hand _ = False"

definition queued_digests :: "outbox \<Rightarrow> nat" where
  "queued_digests b = length (filter digest_job (ob_ord b))"

definition held_digests :: "work list \<Rightarrow> nat" where
  "held_digests ws = length (filter digest_hand ws)"

definition same_digests :: "outbox \<Rightarrow> outbox \<Rightarrow> bool" where
  "same_digests b b' \<longleftrightarrow> ob_digest_busy b' = ob_digest_busy b \<and> queued_digests b' = queued_digests b"

named_theorems same_digests

lemma same_digests_refl [simp]: "same_digests b b"
  by (simp add: same_digests_def)

lemma same_digests_trans: "same_digests a b \<Longrightarrow> same_digests b c \<Longrightarrow> same_digests a c"
  by (simp add: same_digests_def)

lemma same_digests_fields [same_digests]:
  "same_digests b b' \<Longrightarrow> same_digests b (ended f ds b')"
  "same_digests b b' \<Longrightarrow> same_digests b (b'\<lparr>ob_buf := buf\<rparr>)"
  "same_digests b b' \<Longrightarrow> same_digests b (b'\<lparr>ob_start := st\<rparr>)"
  "same_digests b b' \<Longrightarrow> same_digests b (b'\<lparr>ob_closed := cl\<rparr>)"
  "same_digests b b' \<Longrightarrow> same_digests b (b'\<lparr>ob_prot := pr\<rparr>)"
  "same_digests b b' \<Longrightarrow> same_digests b (b'\<lparr>ob_deferred := df\<rparr>)"
  "same_digests b b' \<Longrightarrow> same_digests b (b'\<lparr>ob_retries := rs\<rparr>)"
  "same_digests b b' \<Longrightarrow> same_digests b (b'\<lparr>ob_prot_retries := rs\<rparr>)"
  "same_digests b b' \<Longrightarrow> same_digests b (b'\<lparr>ob_ord := ob_ord b' @ [JobGroup ds]\<rparr>)"
  by (auto simp: same_digests_def queued_digests_def ended_def)

lemma same_digests_deferLocked [same_digests]: "same_digests b b' \<Longrightarrow> same_digests b (deferLocked ds release b')"
  by (induction ds release b' rule: deferLocked.induct) (simp_all add: same_digests)

lemma same_digests_addProtectiveLocked [same_digests]: "same_digests b b' \<Longrightarrow> same_digests b (addProtectiveLocked d b')"
  by (auto simp: addProtectiveLocked_def Let_def same_digests simp del: deferLocked.simps split: prod.split option.split)

lemma same_digests_fold_protective [same_digests]: "same_digests b b' \<Longrightarrow> same_digests b (fold addProtectiveLocked ds b')"
  by (induction ds arbitrary: b') (simp_all add: same_digests)

lemma same_digests_push [same_digests]: "same_digests b b' \<Longrightarrow> same_digests b (pushOrdinaryLocked ds b')"
  by (simp add: pushOrdinaryLocked_def Let_def same_digests)

lemma same_digests_take [same_digests]: "same_digests b b' \<Longrightarrow> same_digests b (snd (takeLocked b'))"
  by (simp add: takeLocked_def same_digests)

lemma same_digests_join [same_digests]: "same_digests b b' \<Longrightarrow> same_digests b (snd (join_buffer window now d b'))"
  by (auto simp: join_buffer_def Let_def takeLocked_def same_digests)

lemma same_digests_acceptLocked: "same_digests b (snd (acceptLocked window now d b))"
proof -
  have "same_digests b (snd (join_buffer window now d b))" by (rule same_digests_join) simp
  then show ?thesis by (auto simp: acceptLocked_def Let_def case_prod_beta same_digests)
qed

lemma same_digests_acceptAll: "same_digests b (snd (acceptAll window now ds b))"
proof (induction window now ds b rule: acceptAll.induct)
  case (2 window now d ds b)
  obtain h b1 where h: "acceptLocked window now d b = (h, b1)" by force
  have "same_digests b b1" using same_digests_acceptLocked [of b window now d] by (simp add: h)
  moreover have "same_digests b (ended Rejected [d] b)" by (rule same_digests) simp
  ultimately show ?case using 2 h by (auto simp: Let_def case_prod_beta intro: same_digests_trans)
qed simp

lemma same_digests_submit: "same_digests b (snd (submitLocked window now d b))"
proof -
  have "same_digests b (snd (join_buffer window now d b))" by (rule same_digests_join) simp
  then show ?thesis by (auto simp: submitLocked_def Let_def case_prod_beta same_digests)
qed

lemma same_digests_retries:
  "same_digests b (snd (takeDueRetries now b))" "same_digests b (handOverDueRetries now b)"
  "scheduleRetry now m failed since b = Some b' \<Longrightarrow> same_digests b b'"
  "same_digests b (snd (drainRetries b))"
proof -
  have [simp]: "filter (digest_job \<circ> JobRetry) rs = []" for rs by (induction rs) auto
  have r: "digest_job j \<Longrightarrow> retry_of j = []" for j by (cases j) auto
  have "filter digest_job (filter (\<lambda>j. retry_of j = []) js) = filter digest_job js" for js
    by (auto simp: r intro!: filter_cong)
  then show "same_digests b (snd (drainRetries b))" by (simp add: drainRetries_def same_digests_def queued_digests_def del: filter_filter)
  show "same_digests b (snd (takeDueRetries now b))" by (simp add: takeDueRetries_def same_digests)
  show "same_digests b (handOverDueRetries now b)"
    by (simp add: handOverDueRetries_def takeDueRetries_def same_digests_def queued_digests_def filter_map)
  show "scheduleRetry now m failed since b = Some b' \<Longrightarrow> same_digests b b'"
    by (auto simp: scheduleRetry_def Let_def same_digests split: option.splits if_splits)
qed

lemma same_digests_put_back: "same_digests b b' \<Longrightarrow> same_digests b (put_back ds b')"
  by (induction ds b' rule: put_back.induct) (simp_all add: same_digests)

lemma same_digests_close: "same_digests b (close_box b)"
  by (simp add: close_box_def takeLocked_def Let_def same_digests)

definition one_digest :: "box \<Rightarrow> bool" where
  "one_digest s \<longleftrightarrow> queued_digests (bx_box s) + held_digests (bx_hands s) = (if ob_digest_busy (bx_box s) then 1 else 0)"

lemma one_digest_same:
  assumes "one_digest s" "same_digests (bx_box s) b" "held_digests ws = 0"
  shows "one_digest (s\<lparr>bx_box := b, bx_hands := bx_hands s @ ws\<rparr>)"
  using assms by (auto simp: one_digest_def same_digests_def held_digests_def)

text \<open>Work in hand changes the number of digests only with the mark.\<close>

lemma do_work_digests:
  assumes "do_work now iid ok w b = (ws, b')" "queued_digests b + k + held_digests [w] = (if ob_digest_busy b then 1 else 0)"
  shows "queued_digests b' + k + held_digests ws = (if ob_digest_busy b' then 1 else 0)"
  using assms
proof (induction now iid ok w b rule: do_work.induct)
  case (1 now iid ok ds b)
  have "same_digests b (pushOrdinaryLocked ds b)" by (rule same_digests_push) simp
  with 1 show ?case by (auto simp: same_digests_def held_digests_def)
next
  case (3 now iid ok r b)
  then show ?case by (auto simp: attemptRetry_def held_digests_def)
next
  case (4 now iid ok m failed since b)
  have "same_digests b (ended (Delivered (ms_id m)) (ms_decisions m) b)" by (rule same_digests) simp
  moreover have "same_digests b b2" if "scheduleRetry now m (failed + 1) since b = Some b2" for b2
    using same_digests_retries(3) [OF that] .
  ultimately show ?case using 4 by (auto simp: after_deliver_def same_digests_def held_digests_def split: if_splits option.splits)
next
  case (6 now iid ok d ds b)
  have "same_digests b (give_up ok d b)" by (simp add: give_up_def same_digests del: deferLocked.simps)
  with 6 show ?case by (auto simp: same_digests_def held_digests_def)
next
  case (8 now iid ok d ds b)
  have "same_digests b (age_out ok d b)" by (simp add: age_out_def same_digests)
  with 8 show ?case by (auto simp: same_digests_def held_digests_def)
next
  case (9 now iid ok again b)
  have "same_digests b (put_back again b)" by (rule same_digests_put_back) simp
  with 9 show ?case by (auto simp: same_digests_def held_digests_def)
next
  case (10 now iid ok d ds again b)
  have "same_digests b (snd (settle_one ok d again b))" by (auto simp: settle_one_def Let_def same_digests)
  with 10 show ?case by (auto simp: same_digests_def held_digests_def case_prod_beta Let_def)
next
  case (11 now iid ok ho answer b)
  then show ?case
    by (auto simp: pendingDigest_def digestDone_def held_digests_def queued_digests_def split: sum.splits option.splits if_splits)
next
  case (12 now iid ok dg b)
  then show ?case by (auto simp: handOverDigest_def digestDone_def held_digests_def queued_digests_def split: if_splits)
next
  case (13 now iid ok dg b)
  then show ?case by (auto simp: digestDone_def held_digests_def queued_digests_def split: if_splits)
qed (auto simp: held_digests_def)

lemma held_append [simp]: "held_digests (xs @ ys) = held_digests xs + held_digests ys"
  by (simp add: held_digests_def)

lemma held_none: "list_all (\<lambda>w. \<not> digest_hand w) ws \<Longrightarrow> held_digests ws = 0"
  by (induction ws) (auto simp: held_digests_def)

lemma held_replace:
  assumes "i < length ws"
  shows "held_digests (replace_at i us ws) + held_digests [ws ! i] = held_digests ws + held_digests us"
proof -
  have "held_digests ws = held_digests (take i ws @ ws ! i # drop (Suc i) ws)" using assms by (simp flip: id_take_nth_drop)
  then show ?thesis by (simp add: replace_at_def held_digests_def)
qed

lemma box_step_one_digest: "one_digest s \<Longrightarrow> one_digest (box_step op' s)"
proof (cases op')
  case (OpAccept window now ds)
  assume "one_digest s"
  then show ?thesis using OpAccept same_digests_acceptAll [of "bx_box s" window now ds]
    by (simp add: one_digest_def same_digests_def)
next
  case (OpSubmit window now d)
  assume s: "one_digest s"
  obtain gs b where g: "submitLocked window now d (bx_box s) = (gs, b)" by force
  have "held_digests (map (\<lambda>g. Flushing g True) gs) = 0" by (rule held_none) (simp add: list_all_iff)
  then show ?thesis using OpSubmit s same_digests_submit [of "bx_box s" window now d]
    by (auto simp: one_digest_def same_digests_def g split: if_splits)
next
  case (OpTake window now ho)
  assume s: "one_digest s"
  have "same_digests (bx_box s) (snd (takeDue window now (bx_box s)))"
    by (simp add: takeDue_def takeLocked_def same_digests)
  then show ?thesis using OpTake s by (auto simp: one_digest_def same_digests_def case_prod_beta Let_def held_digests_def split: if_splits)
next
  case (OpHandRetries now)
  assume "one_digest s"
  then show ?thesis using OpHandRetries same_digests_retries(2) [of "bx_box s" now] by (simp add: one_digest_def same_digests_def)
next
  case (OpTakeRetries now)
  assume s: "one_digest s"
  have "held_digests (map Trying rs) = 0" for rs by (rule held_none) (simp add: list_all_iff)
  then show ?thesis using OpTakeRetries s same_digests_retries(1) [of "bx_box s" now]
    by (simp add: one_digest_def same_digests_def case_prod_beta Let_def)
next
  case OpDeferrals
  assume "one_digest s"
  then show ?thesis using OpDeferrals
    by (auto simp: one_digest_def takeDeferrals_def queued_digests_def held_digests_def split: if_splits)
next
  case (OpClaim ho now answer)
  assume "one_digest s"
  then show ?thesis using OpClaim
    by (auto simp: one_digest_def claim_digest_def Let_def queued_digests_def held_digests_def split: if_splits)
next
  case (OpPop now)
  assume s: "one_digest s"
  have "digest_hand (start_job now j) = digest_job j" for j by (cases j) (auto simp: start_job_def)
  then show ?thesis using OpPop s
    by (auto simp: popOrdinary_def one_digest_def queued_digests_def held_digests_def split: list.split if_splits)
next
  case OpPopProtective
  assume "one_digest s"
  then show ?thesis using OpPopProtective by (auto simp: takeProtective_def one_digest_def queued_digests_def held_digests_def split: if_splits)
next
  case OpPopRetry
  assume "one_digest s"
  then show ?thesis using OpPopRetry
    by (auto simp: takeProtectiveRetry_def one_digest_def queued_digests_def held_digests_def split: list.split if_splits)
next
  case OpClose
  assume "one_digest s"
  then show ?thesis using OpClose same_digests_close [of "bx_box s"] by (simp add: one_digest_def same_digests_def)
next
  case OpDrain
  assume s: "one_digest s"
  have "held_digests (map (\<lambda>r. GivingUp (ms_decisions (re_message r))) rs) = 0" for rs :: "retry_entry list" by (rule held_none) (simp add: list_all_iff)
  then show ?thesis using OpDrain s same_digests_retries(4) [of "bx_box s"]
    by (auto simp: one_digest_def same_digests_def case_prod_beta Let_def split: if_splits)
next
  case (OpWork i now iid ok)
  assume s: "one_digest s"
  show ?thesis
  proof (cases "i < length (bx_hands s)")
    case True
    obtain ws b where w: "do_work now iid ok (bx_hands s ! i) (bx_box s) = (ws, b)" by force
    define k where "k = held_digests (replace_at i [] (bx_hands s))"
    have k: "held_digests (bx_hands s) = k + held_digests [bx_hands s ! i]"
      using held_replace [OF True, of "[]"] by (simp add: k_def held_digests_def)
    with held_replace [OF True, of ws] have k': "held_digests (replace_at i ws (bx_hands s)) = k + held_digests ws" by simp
    have "queued_digests b + k + held_digests ws = (if ob_digest_busy b then 1 else 0)"
      by (rule do_work_digests [OF w]) (use s k in \<open>simp add: one_digest_def\<close>)
    then show ?thesis using OpWork True k' by (simp add: one_digest_def w)
  qed (use OpWork s in simp)
qed

section \<open>The promises\<close>

definition outbox_ok :: "box \<Rightarrow> bool" where
  "outbox_ok s \<longleftrightarrow> outbox_accounted s \<and> system_ok s \<and> one_digest s"

interpretation mailbox: machine "\<lambda>_. True" box_step outbox_ok
  by unfold_locales (auto simp: outbox_ok_def intro: box_step_accounted box_step_ok box_step_one_digest)

lemma new_box_ok: "outbox_ok new_box"
  by (simp add: outbox_ok_def outbox_accounted_def system_ok_def one_digest_def queued_digests_def held_digests_def
      new_box_def NewOutbox_def content_unfold box_ok_def)

lemma outbox_run_ok:
  "outbox_accounted (fold box_step ops new_box)" "system_ok (fold box_step ops new_box)" "one_digest (fold box_step ops new_box)"
  using mailbox.run_keeps [OF _ new_box_ok, of ops] by (simp_all add: outbox_ok_def list_all_iff)

text \<open>
  C36. No decision is lost on its way to the owner, and none is dealt with twice. Whatever the callers, the tick, the two lane
  workers and the shutdown do, and however their sections interleave, the decisions handed over so far are exactly those
  that still wait somewhere (the buffer, a lane, the backlog, a retry, the hands of a worker) together with those that have
  ended, each of them once.
\<close>

theorem outbox_loses_nothing:
  "let s = fold box_step ops new_box
   in mset (bx_accepted s) = mset (outbox_waiting s) + mset (map fst (ob_fates (bx_box s)))"
  using outbox_run_ok(1) [of ops] by (simp add: Let_def outbox_waiting_def content_def outbox_accounted_def ac_simps)

text \<open>
  C37. A protective alert is never put into the digest, where the owner would read of a liquidation the next morning. In every
  run no critical protective decision ends there: it reaches the owner, or it is released so that the trigger may raise it
  again, or its bookkeeping is given up (after three failed attempts, or past the backlog).
\<close>

theorem critical_never_in_digest:
  "list_all (\<lambda>(d, f). \<not> (isProtectiveCritical (de_candidate d) \<and> f = ToDigest)) (ob_fates (bx_box (fold box_step ops new_box)))"
  using outbox_run_ok(2) [of ops] by (simp add: system_ok_def box_ok_def fate_ok_def case_prod_beta list_all_iff)

text \<open>
  A channel that is down for days cannot make the outbox grow: in every run the buffer holds at most 64 decisions, the
  backlog 1024, the retries 64 ordinary and 16 protective messages (so that a full ordinary queue never refuses a protective
  one), and the protective lane one decision for each dedup key.
\<close>

theorem outbox_queues_bounded:
  "let b = bx_box (fold box_step ops new_box)
   in length (ob_buf b) \<le> 64 \<and> length (ob_deferred b) \<le> 1024 \<and> distinct (map prot_key (ob_prot b)) \<and>
      length (filter (\<lambda>r. protective (re_message r)) (ob_retries b)) \<le> 16 \<and>
      length (filter (\<lambda>r. \<not> protective (re_message r)) (ob_retries b)) \<le> 64"
  using outbox_run_ok(2) [of ops]
  by (simp add: system_ok_def box_ok_def Let_def maxBuffered_def maxDeferBacklog_def maxPendingRetries_def maxPendingProtectiveRetries_def)


text \<open>
  The owner never gets two digests at once. In every run the digests in the making, from the moment a tick claims the
  check until the digest has been sent (being asked for, queued on the lane, in the hands of a worker), are one while the
  mark is set and none while it is not, so the mark neither lets a second one in nor stays set behind a digest that is gone.
\<close>

theorem one_digest_in_the_making:
  "let s = fold box_step ops new_box
   in length (filter digest_job (ob_ord (bx_box s))) + length (filter digest_hand (bx_hands s)) =
        (if ob_digest_busy (bx_box s) then 1 else 0)"
  using outbox_run_ok(3) [of ops] by (simp add: one_digest_def queued_digests_def held_digests_def Let_def)

end
