(* ===== verification/LossTracker.thy ===== *)
theory LossTracker
  imports BrokerConfig Calendar Float64 "HOL-Library.AList"
begin

text \<open>
  The daily loss guard (\<open>pkg/providers/broker/losstracker.go\<close>) and the token bucket of the providers (\<open>ratelimit.go\<close>). The
  tracker's memory and the file it keeps are explicit; an operation holds the mutex from its first line to its last, so it
  is one function of both. A loss day is the number of its civil day, of which the file's label is the date. Go ranges over
  a map in any order: the order in which the accounts are summed is an argument. The identity of the file (time, size,
  inode) is a number that each write renews. Log lines and what keeps them rare are left out.
\<close>

section \<open>State\<close>

record account_equity =
  ae_baseline :: f64
  ae_baseline_at :: go_time
  ae_last :: f64
  ae_last_at :: "go_time option" \<comment> \<open>None: the zero time\<close>
  ae_signature :: string
  ae_carried :: f64

type_synonym accounts = "(string \<times> account_equity) list"

record location =
  lo_name :: string
  lo_zone :: zone

definition UTC :: location where "UTC = \<lparr>lo_name = ''UTC'', lo_zone = utc\<rparr>"

text \<open>The record on disk; a day of None is a label that is no date.\<close>

record loss_record =
  lr_day :: "int option"
  lr_zone :: string
  lr_total :: f64
  lr_realized :: "f64 option"
  lr_accounts :: accounts
  lr_reset :: "(go_time \<times> string) option"

record tracker =
  tk_day :: "int option"
  tk_realized :: f64
  tk_accounts :: accounts
  tk_reset :: "(go_time \<times> string) option"
  tk_loc :: "location option"
  tk_stored :: bool \<comment> \<open>a store path is set\<close>
  tk_loaded :: bool
  tk_file :: "nat option"
  tk_guard :: bool
  tk_tracked :: "string list"
  tk_stale :: duration

definition new_tracker :: tracker where
  "new_tracker = \<lparr>tk_day = None, tk_realized = Fin 0, tk_accounts = [], tk_reset = None, tk_loc = None, tk_stored = False,
     tk_loaded = False, tk_file = None, tk_guard = False, tk_tracked = [], tk_stale = 0\<rparr>"

text \<open>The file: absent, unreadable as a record, or a record; and whether a write of it ever failed.\<close>

record loss_disk =
  dk_file :: "(nat \<times> loss_record option) option"
  dk_next :: nat
  dk_failed :: bool

record loss_env =
  le_now :: go_time
  le_order :: "accounts \<Rightarrow> accounts"
  le_stat :: bool \<comment> \<open>the calls answer without a fault\<close>
  le_read :: bool
  le_write :: bool
  le_zones :: "string \<Rightarrow> zone option"

type_synonym loss_state = "tracker \<times> loss_disk"

definition defaultEquityStaleAfter :: duration where "defaultEquityStaleAfter = 15 * minute"

definition normalizeKey :: "string \<Rightarrow> string" where "normalizeKey key = to_lower (trim_space key)"

definition location_of :: "tracker \<Rightarrow> location" where
  "location_of t = (case tk_loc t of Some l \<Rightarrow> l | None \<Rightarrow> UTC)"

definition loss_day :: "zone \<Rightarrow> go_time \<Rightarrow> int" where
  "loss_day z now = local_seconds z now div 86400"

definition today :: "loss_env \<Rightarrow> tracker \<Rightarrow> int" where
  "today e t = loss_day (lo_zone (location_of t)) (le_now e)"

section \<open>Losses\<close>

definition Drawdown :: "account_equity \<Rightarrow> f64" where
  "Drawdown e = (let d = f_sub (ae_baseline e) (ae_last e) in if f_lt (Fin 0) d then d else Fin 0)"

definition LossUSD :: "account_equity \<Rightarrow> f64" where
  "LossUSD e = f_add (ae_carried e) (Drawdown e)"

definition totalLocked :: "loss_env \<Rightarrow> tracker \<Rightarrow> f64" where
  "totalLocked e t = f_max (tk_realized t) (foldl (\<lambda>s (k, a). f_add s (LossUSD a)) (Fin 0) (le_order e (tk_accounts t)))"

definition older_sample :: "go_time \<Rightarrow> duration \<Rightarrow> go_time option \<Rightarrow> bool" where
  "older_sample now bound at' = (case at' of None \<Rightarrow> True | Some t \<Rightarrow> now - t > bound)"

definition staleBoundLocked :: "tracker \<Rightarrow> duration" where
  "staleBoundLocked t = (if tk_guard t \<and> tk_stale t > 0 then tk_stale t else defaultEquityStaleAfter)"

section \<open>The file\<close>

definition nonneg_finite :: "f64 \<Rightarrow> f64" where
  "nonneg_finite v = (if f_lt v (Fin 0) \<or> is_nan v \<or> is_inf v then Fin 0 else v)"

text \<open>A day written under another zone, and still current there, is the current day of this zone.\<close>

definition carryAcrossZoneChange :: "loss_env \<Rightarrow> string \<Rightarrow> tracker \<Rightarrow> tracker" where
  "carryAcrossZoneChange e file_zone t =
     (let name = (if file_zone = [] then ''UTC'' else file_zone) in
      if name = lo_name (location_of t) \<or> tk_day t = None then t
      else case le_zones e name of
             None \<Rightarrow> t
           | Some old \<Rightarrow> if tk_day t = Some (loss_day old (le_now e)) then t\<lparr>tk_day := Some (today e t)\<rparr> else t)"

definition take_record :: "loss_env \<Rightarrow> loss_record \<Rightarrow> tracker \<Rightarrow> tracker" where
  "take_record e r t =
     (let t = carryAcrossZoneChange e (lr_zone r) (t\<lparr>tk_day := lr_day r\<rparr>)
      in t\<lparr>tk_realized := nonneg_finite (case lr_realized r of Some v \<Rightarrow> v | None \<Rightarrow> lr_total r),
           tk_accounts := map (\<lambda>(k, a). (k, a\<lparr>ae_carried := nonneg_finite (ae_carried a)\<rparr>)) (lr_accounts r),
           tk_reset := lr_reset r\<rparr>)"

definition loadLocked :: "loss_env \<Rightarrow> loss_state \<Rightarrow> loss_state" where
  "loadLocked e s =
     (let (t, d) = s in
      if \<not> tk_stored t then s
      else if tk_loaded t \<and> (\<not> le_stat e \<or> dk_file d = None \<or> (tk_file t \<noteq> None \<and> tk_file t = map_option fst (dk_file d))) then s
      else let t = t\<lparr>tk_loaded := True\<rparr> in
           case dk_file d of
             None \<Rightarrow> (t, d)
           | Some (i, content) \<Rightarrow>
               if \<not> le_read e then (t, d)
               else let t = (if le_stat e then t\<lparr>tk_file := Some i\<rparr> else t)
                    in case content of None \<Rightarrow> (t, d) | Some r \<Rightarrow> (take_record e r t, d))"

text \<open>JSON has no infinity and no NaN.\<close>

definition encodable :: "tracker \<Rightarrow> bool" where
  "encodable t \<longleftrightarrow> f_finite (tk_realized t) \<and>
     list_all (\<lambda>(k, a). f_finite (ae_baseline a) \<and> f_finite (ae_last a) \<and> f_finite (ae_carried a)) (tk_accounts t)"

definition record_of :: "tracker \<Rightarrow> loss_record" where
  "record_of t = \<lparr>lr_day = tk_day t, lr_zone = lo_name (location_of t), lr_total = tk_realized t, lr_realized = Some (tk_realized t),
     lr_accounts = tk_accounts t, lr_reset = tk_reset t\<rparr>"

text \<open>True: written, or nothing to write.\<close>

definition persistErr :: "loss_env \<Rightarrow> loss_state \<Rightarrow> bool \<times> loss_state" where
  "persistErr e s =
     (let (t, d) = s in
      if \<not> tk_stored t then (True, s)
      else if \<not> encodable t \<or> \<not> le_write e then (False, (t, d\<lparr>dk_failed := True\<rparr>))
      else let i = dk_next d; d = d\<lparr>dk_file := Some (i, Some (record_of t)), dk_next := Suc i\<rparr>
           in (True, (if le_stat e then t\<lparr>tk_file := Some i\<rparr> else t, d)))"

definition persist :: "loss_env \<Rightarrow> loss_state \<Rightarrow> loss_state" where
  "persist e s = snd (persistErr e s)"

section \<open>The day\<close>

definition carried_over :: "loss_env \<Rightarrow> tracker \<Rightarrow> account_equity \<Rightarrow> bool" where
  "carried_over e t a =
     (let now = le_now e; z = lo_zone (location_of t) in
      case ae_last_at a of
        None \<Rightarrow> False
      | Some at' \<Rightarrow> if tk_guard t then \<not> now - at' > tk_stale t else \<not> loss_day z at' < loss_day z (add_days z (- 1) now))"

definition rebase :: "account_equity \<Rightarrow> account_equity" where
  "rebase a = a\<lparr>ae_baseline := ae_last a, ae_baseline_at := (case ae_last_at a of Some at' \<Rightarrow> at' | None \<Rightarrow> 0), ae_carried := Fin 0\<rparr>"

definition rolloverLocked :: "loss_env \<Rightarrow> tracker \<Rightarrow> tracker" where
  "rolloverLocked e t = t\<lparr>tk_day := Some (today e t), tk_realized := Fin 0,
     tk_accounts := map (\<lambda>(k, a). (k, rebase a)) (filter (\<lambda>(k, a). carried_over e t a) (tk_accounts t)), tk_reset := None\<rparr>"

definition syncLocked :: "loss_env \<Rightarrow> loss_state \<Rightarrow> loss_state" where
  "syncLocked e s =
     (let (t, d) = loadLocked e s
      in if tk_day t \<noteq> Some (today e t) then persist e (rolloverLocked e t, d) else (t, d))"

section \<open>Operations\<close>

definition SetStorePath :: "bool \<Rightarrow> loss_state \<Rightarrow> loss_state" where
  "SetStorePath stored s = (let (t, d) = s in (t\<lparr>tk_stored := stored, tk_loaded := False, tk_file := None\<rparr>, d))"

definition SetDayLocation :: "loss_env \<Rightarrow> location option \<Rightarrow> loss_state \<Rightarrow> loss_state" where
  "SetDayLocation e loc s =
     (let (t, d) = s; loc = (case loc of None \<Rightarrow> UTC | Some l \<Rightarrow> l); old = location_of t;
          t = (if lo_name old \<noteq> lo_name loc \<and> tk_day t = Some (loss_day (lo_zone old) (le_now e))
               then t\<lparr>tk_day := Some (loss_day (lo_zone loc) (le_now e))\<rparr> else t)
      in (t\<lparr>tk_loc := Some loc\<rparr>, d))"

definition EnableEquityGuard :: "string list \<Rightarrow> duration \<Rightarrow> loss_state \<Rightarrow> loss_state" where
  "EnableEquityGuard tracked stale s =
     (let (t, d) = s in (t\<lparr>tk_guard := True, tk_tracked := map normalizeKey tracked,
        tk_stale := (if stale \<le> 0 then defaultEquityStaleAfter else stale)\<rparr>, d))"

definition DisableEquityGuard :: "loss_state \<Rightarrow> loss_state" where
  "DisableEquityGuard s = (let (t, d) = s in (t\<lparr>tk_guard := False, tk_tracked := []\<rparr>, d))"

definition RecordLoss :: "loss_env \<Rightarrow> f64 \<Rightarrow> loss_state \<Rightarrow> loss_state" where
  "RecordLoss e usd s =
     (if f_le usd (Fin 0) \<or> is_nan usd \<or> is_inf usd then s
      else let (t, d) = syncLocked e s in persist e (t\<lparr>tk_realized := f_add (tk_realized t) usd\<rparr>, d))"

definition put_account :: "string \<Rightarrow> account_equity \<Rightarrow> tracker \<Rightarrow> tracker" where
  "put_account k a t = t\<lparr>tk_accounts := AList.update k a (tk_accounts t)\<rparr>"

definition first_sample :: "f64 \<Rightarrow> go_time \<Rightarrow> string \<Rightarrow> f64 \<Rightarrow> account_equity" where
  "first_sample usd at' sig carried = \<lparr>ae_baseline = usd, ae_baseline_at = at', ae_last = usd, ae_last_at = Some at',
     ae_signature = sig, ae_carried = carried\<rparr>"

definition SampleAccountWith :: "loss_env \<Rightarrow> string \<Rightarrow> f64 \<Rightarrow> go_time \<Rightarrow> string \<Rightarrow> loss_state \<Rightarrow> loss_state" where
  "SampleAccountWith e key usd at' sig s =
     (if is_nan usd \<or> is_inf usd \<or> f_lt usd (Fin 0) then s
      else let k = normalizeKey key; (t, d) = syncLocked e s in
        case map_of (tk_accounts t) k of
          None \<Rightarrow> persist e (put_account k (first_sample usd at' sig (Fin 0)) t, d)
        | Some cur \<Rightarrow>
            if (case ae_last_at cur of Some l \<Rightarrow> at' < l | None \<Rightarrow> False) then (t, d)
            else if ae_signature cur \<noteq> sig \<and> older_sample (le_now e) (staleBoundLocked t) (ae_last_at cur)
            then persist e (put_account k (first_sample usd at' sig (LossUSD cur)) t, d)
            else if ae_signature cur \<noteq> sig then (t, d)
            else persist e (put_account k (cur\<lparr>ae_last := usd, ae_last_at := Some at'\<rparr>) t, d))"

datatype loss_error = LimitExceeded f64 f64 | EquityMissing string | EquityStale string

definition CheckDailyLoss :: "loss_env \<Rightarrow> f64 \<Rightarrow> loss_state \<Rightarrow> loss_error option \<times> loss_state" where
  "CheckDailyLoss e limit s =
     (if f_le limit (Fin 0) then (None, s)
      else let (t, d) = syncLocked e s
           in (if f_le limit (totalLocked e t) then Some (LimitExceeded (totalLocked e t) limit) else None, (t, d)))"

definition CheckDailyLossFor :: "loss_env \<Rightarrow> f64 \<Rightarrow> string \<Rightarrow> loss_state \<Rightarrow> loss_error option \<times> loss_state" where
  "CheckDailyLossFor e limit key s =
     (if f_le limit (Fin 0) then (None, s)
      else let k = normalizeKey key; (t, d) = syncLocked e s
           in (if f_le limit (totalLocked e t) then Some (LimitExceeded (totalLocked e t) limit)
               else if \<not> tk_guard t then None
               else if k \<notin> set (tk_tracked t) then None
               else case map_of (tk_accounts t) k of
                      None \<Rightarrow> Some (EquityMissing k)
                    | Some a \<Rightarrow> if older_sample (le_now e) (tk_stale t) (ae_last_at a) then Some (EquityStale k) else None,
               (t, d)))"

definition TodayLossUSD :: "loss_env \<Rightarrow> loss_state \<Rightarrow> f64 \<times> loss_state" where
  "TodayLossUSD e s = (let (t, d) = syncLocked e s in (totalLocked e t, (t, d)))"

text \<open>A view; it rolls the day in memory and writes nothing.\<close>

record loss_snapshot =
  ls_day :: "int option"
  ls_location :: string
  ls_realized :: f64
  ls_accounts :: accounts
  ls_total :: f64
  ls_reset :: "(go_time \<times> string) option"

definition Snapshot :: "loss_env \<Rightarrow> loss_state \<Rightarrow> loss_snapshot \<times> loss_state" where
  "Snapshot e s =
     (let (t, d) = loadLocked e s;
          t = (if tk_day t \<noteq> Some (today e t) then rolloverLocked e t else t)
      in (\<lparr>ls_day = tk_day t, ls_location = lo_name (location_of t), ls_realized = tk_realized t, ls_accounts = tk_accounts t,
           ls_total = totalLocked e t, ls_reset = tk_reset t\<rparr>, (t, d)))"

text \<open>False: refused for want of a reason, or not written.\<close>

definition Reset :: "loss_env \<Rightarrow> string \<Rightarrow> loss_state \<Rightarrow> bool \<times> loss_state" where
  "Reset e reason s =
     (let reason = trim_space reason in
      if reason = [] then (False, s)
      else let (t, d) = syncLocked e s
           in persistErr e (t\<lparr>tk_accounts := map (\<lambda>(k, a). (k, rebase a)) (tk_accounts t), tk_realized := Fin 0,
                tk_reset := Some (le_now e, reason)\<rparr>, d))"

section \<open>Orders in a minute\<close>

record bucket =
  bk_tokens :: int
  bk_reset :: go_time

text \<open>A bucket is made full at its first use and full again after its interval; nothing refills it in between.\<close>

definition refilled :: "int \<Rightarrow> duration \<Rightarrow> go_time \<Rightarrow> bucket option \<Rightarrow> bucket" where
  "refilled max_tokens interval now b =
     (case b of
        None \<Rightarrow> \<lparr>bk_tokens = max_tokens, bk_reset = now + interval\<rparr>
      | Some b \<Rightarrow> if now > bk_reset b then \<lparr>bk_tokens = max_tokens, bk_reset = now + interval\<rparr> else b)"

definition Allow :: "int \<Rightarrow> duration \<Rightarrow> go_time \<Rightarrow> string \<Rightarrow> (string \<rightharpoonup> bucket) \<Rightarrow> bool \<times> (string \<rightharpoonup> bucket)" where
  "Allow max_tokens interval now p bs =
     (let b = refilled max_tokens interval now (bs p)
      in if bk_tokens b \<le> 0 then (False, bs(p \<mapsto> b)) else (True, bs(p \<mapsto> b\<lparr>bk_tokens := bk_tokens b - 1\<rparr>)))"

definition tokens_left :: "int \<Rightarrow> go_time \<Rightarrow> bucket \<Rightarrow> int" where
  "tokens_left max_tokens now b = (if now > bk_reset b then max_tokens else bk_tokens b)"

end
