(* ===== verification/LossSafety.thy ===== *)
theory LossSafety
  imports LossTracker FloatRounding Policy
begin

text \<open>
  What the loss guard promises: a realised loss that has reached the limit stops the day's risk-increasing orders,
  whatever is sampled, re-read, re-zoned or restarted meanwhile; a change of measurement keeps the loss of an account;
  an account whose equity is not known is refused; and how many orders the token bucket really lets through.
\<close>

section \<open>Values\<close>

definition equities_ok :: "accounts \<Rightarrow> bool" where
  "equities_ok as = list_all (\<lambda>(k, a). f_le (Fin 0) (ae_carried a)) as"

definition total_ok :: "f64 \<Rightarrow> bool" where
  "total_ok v \<longleftrightarrow> representable v \<and> f_le (Fin 0) v"

definition memory_ok :: "tracker \<Rightarrow> bool" where
  "memory_ok t \<longleftrightarrow> total_ok (tk_realized t) \<and> equities_ok (tk_accounts t)"

text \<open>A number read from JSON is a double.\<close>

definition realized_of :: "loss_record \<Rightarrow> f64" where
  "realized_of r = (case lr_realized r of Some v \<Rightarrow> v | None \<Rightarrow> lr_total r)"

definition record_ok :: "loss_record \<Rightarrow> bool" where
  "record_ok r \<longleftrightarrow> representable (realized_of r)"

definition disk_ok :: "loss_disk \<Rightarrow> bool" where
  "disk_ok d \<longleftrightarrow> (case dk_file d of Some (i, Some r) \<Rightarrow> record_ok r | _ \<Rightarrow> True)"

definition loss_ok :: "loss_state \<Rightarrow> bool" where
  "loss_ok s \<longleftrightarrow> memory_ok (fst s) \<and> disk_ok (snd s)"

lemma total_ok_0 [simp]: "total_ok (Fin 0)"
  by (simp add: total_ok_def representable_def)

lemma drawdown_nonneg: "f_le (Fin 0) (Drawdown a)"
  by (auto simp: Drawdown_def Let_def f_le_def)

lemma loss_nonneg: "f_le (Fin 0) (ae_carried a) \<Longrightarrow> f_le (Fin 0) (LossUSD a) \<and> representable (LossUSD a)"
  using f_add_nonneg drawdown_nonneg by (simp add: LossUSD_def)

lemma sum_nonneg: "f_le (Fin 0) s \<Longrightarrow> equities_ok as \<Longrightarrow> f_le (Fin 0) (foldl (\<lambda>s (k, a). f_add s (LossUSD a)) s as)"
  by (induction as arbitrary: s) (auto simp: equities_ok_def f_add_nonneg(1) loss_nonneg)

text \<open>The total of the day is at least its realised part.\<close>

definition env_ok :: "(string \<Rightarrow> zone) \<Rightarrow> loss_env \<Rightarrow> bool" where
  "env_ok zs e \<longleftrightarrow> le_read e \<and> le_zones e = (\<lambda>n. Some (zs n)) \<and> (\<forall>as. set (le_order e as) = set as)"

lemma total_covers_realized:
  assumes "memory_ok t" "set (le_order e (tk_accounts t)) = set (tk_accounts t)" "f_le l (tk_realized t)"
  shows "f_le l (totalLocked e t)"
proof -

  have "equities_ok (le_order e (tk_accounts t))" using assms(1,2) by (simp add: memory_ok_def equities_ok_def list_all_iff)
  then have "f_le (Fin 0) (foldl (\<lambda>s (k, a). f_add s (LossUSD a)) (Fin 0) (le_order e (tk_accounts t)))"
    by (intro sum_nonneg) simp_all
  then show ?thesis unfolding totalLocked_def by (rule f_le_max [OF _ assms(3)])
qed

section \<open>Runs\<close>

datatype loss_op = LRecord f64 | LSample string f64 go_time string | LCheck f64 string | LCheckTotal f64 | LToday | LSnapshot
  | LZone "location option" | LGuard "string list" duration | LUnguard | LRestart "location option"

text \<open>A restart is a new tracker over the same file, set up as the program does.\<close>

fun loss_step :: "loss_env \<times> loss_op \<Rightarrow> loss_state \<Rightarrow> loss_state" where
  "loss_step (e, LRecord usd) s = RecordLoss e usd s"
| "loss_step (e, LSample key usd at' sig) s = SampleAccountWith e key usd at' sig s"
| "loss_step (e, LCheck limit key) s = snd (CheckDailyLossFor e limit key s)"
| "loss_step (e, LCheckTotal limit) s = snd (CheckDailyLoss e limit s)"
| "loss_step (e, LToday) s = snd (TodayLossUSD e s)"
| "loss_step (e, LSnapshot) s = snd (Snapshot e s)"
| "loss_step (e, LZone loc) s = SetDayLocation e loc s"
| "loss_step (e, LGuard tracked stale) s = EnableEquityGuard tracked stale s"
| "loss_step (e, LUnguard) s = DisableEquityGuard s"
| "loss_step (e, LRestart loc) s = SetStorePath True (SetDayLocation e loc (new_tracker, snd s))"

text \<open>A location carries the zone of its name.\<close>

definition zone_named :: "(string \<Rightarrow> zone) \<Rightarrow> location \<Rightarrow> bool" where
  "zone_named zs l \<longleftrightarrow> lo_zone l = zs (lo_name l) \<and> lo_name l \<noteq> []"

fun op_named :: "(string \<Rightarrow> zone) \<Rightarrow> loss_op \<Rightarrow> bool" where
  "op_named zs (LZone l) = zone_named zs (case l of None \<Rightarrow> UTC | Some l \<Rightarrow> l)"
| "op_named zs (LRestart l) = zone_named zs (case l of None \<Rightarrow> UTC | Some l \<Rightarrow> l)"
| "op_named zs _ = True"

text \<open>The day of the tracker, and of its file, has not ended at this clock in the zone that labels it.\<close>

definition day_lasts :: "(string \<Rightarrow> zone) \<Rightarrow> loss_env \<Rightarrow> loss_state \<Rightarrow> bool" where
  "day_lasts zs e s \<longleftrightarrow>
     (\<not> tk_loaded (fst s) \<or> tk_day (fst s) = Some (today e (fst s))) \<and>
     (case dk_file (snd s) of Some (i, Some r) \<Rightarrow> lr_day r = Some (loss_day (zs (lr_zone r)) (le_now e)) | _ \<Rightarrow> True)"

fun same_day :: "(string \<Rightarrow> zone) \<Rightarrow> (loss_env \<times> loss_op) list \<Rightarrow> loss_state \<Rightarrow> bool" where
  "same_day zs [] s = True"
| "same_day zs (x # xs) s = (env_ok zs (fst x) \<and> op_named zs (snd x) \<and> day_lasts zs (fst x) s \<and> same_day zs xs (loss_step x s))"

section \<open>The limit holds\<close>

text \<open>Memory, once loaded, and the file both hold at least \<open>l\<close>.\<close>

definition holds :: "(string \<Rightarrow> zone) \<Rightarrow> f64 \<Rightarrow> loss_state \<Rightarrow> bool" where
  "holds zs l s \<longleftrightarrow>
     tk_stored (fst s) \<and> zone_named zs (location_of (fst s)) \<and> memory_ok (fst s) \<and>
     (tk_loaded (fst s) \<longrightarrow> f_le l (tk_realized (fst s))) \<and>
     (\<exists>i r. dk_file (snd s) = Some (i, Some r) \<and> f_le l (nonneg_finite (realized_of r)) \<and> record_ok r \<and> lr_zone r \<noteq> [])"

lemma nonneg_finite_ok: "representable v \<Longrightarrow> total_ok (nonneg_finite v)"
  by (cases v) (auto simp: nonneg_finite_def total_ok_def is_nan_def is_inf_def representable_def not_less)

lemma nonneg_finite_le: "f_le (Fin 0) (nonneg_finite v)"
  by (cases v) (auto simp: nonneg_finite_def is_nan_def is_inf_def not_less)

lemma carryAcross_fields [simp]:
  "tk_realized (carryAcrossZoneChange e z t) = tk_realized t" "tk_accounts (carryAcrossZoneChange e z t) = tk_accounts t"
  "tk_stored (carryAcrossZoneChange e z t) = tk_stored t" "tk_loaded (carryAcrossZoneChange e z t) = tk_loaded t"
  "location_of (carryAcrossZoneChange e z t) = location_of t" "tk_guard (carryAcrossZoneChange e z t) = tk_guard t"
  by (auto simp: carryAcrossZoneChange_def Let_def location_of_def split: option.splits)

lemma take_record_fields:
  "tk_realized (take_record e r t) = nonneg_finite (realized_of r)" "tk_stored (take_record e r t) = tk_stored t"
  "tk_loaded (take_record e r t) = tk_loaded t" "location_of (take_record e r t) = location_of t"
  "equities_ok (tk_accounts (take_record e r t))"
proof -
  let ?c = "carryAcrossZoneChange e (lr_zone r) (t\<lparr>tk_day := lr_day r\<rparr>)"
  have l: "location_of (x\<lparr>tk_realized := a, tk_accounts := b, tk_reset := c\<rparr>) = location_of x" for x :: tracker and a b c
    by (simp add: location_of_def)
  have d: "location_of (x\<lparr>tk_day := a\<rparr>) = location_of x" for x :: tracker and a
    by (simp add: location_of_def)
  show "tk_realized (take_record e r t) = nonneg_finite (realized_of r)" by (simp add: take_record_def Let_def realized_of_def)
  show "tk_stored (take_record e r t) = tk_stored t" by (simp add: take_record_def Let_def)
  show "tk_loaded (take_record e r t) = tk_loaded t" by (simp add: take_record_def Let_def)
  show "location_of (take_record e r t) = location_of t" by (simp add: take_record_def Let_def l d)
  show "equities_ok (tk_accounts (take_record e r t))"
    by (auto simp: take_record_def Let_def equities_ok_def list_all_iff nonneg_finite_le)
qed

text \<open>A record of the current day is taken as the current day, under whatever zone it was written.\<close>

lemma take_record_day:
  assumes "le_zones e = (\<lambda>n. Some (zs n))" "zone_named zs (location_of t)" "lr_zone r \<noteq> []"
    "lr_day r = Some (loss_day (zs (lr_zone r)) (le_now e))"
  shows "tk_day (take_record e r t) = Some (today e t)"
proof -
  have d: "location_of (t\<lparr>tk_day := x\<rparr>) = location_of t" for x by (simp add: location_of_def)
  show ?thesis using assms
    by (auto simp: take_record_def Let_def carryAcrossZoneChange_def d today_def zone_named_def)
qed

lemma today_simps [simp]:
  "today e (t\<lparr>tk_day := x\<rparr>) = today e t" "today e (t\<lparr>tk_loaded := l\<rparr>) = today e t" "today e (t\<lparr>tk_file := f\<rparr>) = today e t"
  by (simp_all add: today_def location_of_def)

lemma location_simps [simp]:
  "location_of (t\<lparr>tk_day := x\<rparr>) = location_of t" "location_of (t\<lparr>tk_loaded := l\<rparr>) = location_of t"
  "location_of (t\<lparr>tk_file := f\<rparr>) = location_of t" "location_of (t\<lparr>tk_realized := v\<rparr>) = location_of t"
  "location_of (t\<lparr>tk_accounts := as\<rparr>) = location_of t" "location_of (t\<lparr>tk_loc := Some loc\<rparr>) = loc"
  by (simp_all add: location_of_def)

text \<open>Loading keeps what holds, and leaves the day current; so bringing memory up to date does not roll the day.\<close>

lemma load_holds:
  assumes "holds zs l (t, d)" "env_ok zs e" "day_lasts zs e (t, d)"
  shows "\<exists>t'. loadLocked e (t, d) = (t', d) \<and> holds zs l (t', d) \<and> tk_loaded t' \<and> tk_day t' = Some (today e t') \<and>
    location_of t' = location_of t"
proof -
  obtain i r where f: "dk_file d = Some (i, Some r)" "f_le l (nonneg_finite (realized_of r))" "record_ok r" "lr_zone r \<noteq> []"
    using assms(1) by (auto simp: holds_def)
  have day: "lr_day r = Some (loss_day (zs (lr_zone r)) (le_now e))" using assms(3) f by (simp add: day_lasts_def)
  show ?thesis
  proof (cases "tk_loaded t \<and> (\<not> le_stat e \<or> (tk_file t \<noteq> None \<and> tk_file t = Some i))")
    case True
    then have "loadLocked e (t, d) = (t, d)" by (simp add: loadLocked_def f)
    then show ?thesis using assms True by (simp add: day_lasts_def)
  next
    case False
    define t1 where "t1 = (if le_stat e then t\<lparr>tk_loaded := True, tk_file := Some i\<rparr> else t\<lparr>tk_loaded := True\<rparr>)"
    have t1: "tk_stored t1" "tk_loaded t1" "location_of t1 = location_of t" "today e t1 = today e t"
      using assms(1) by (simp_all add: t1_def holds_def)
    have "loadLocked e (t, d) = (take_record e r t1, d)"
      using False assms(1,2) by (auto simp: loadLocked_def f holds_def env_ok_def t1_def Let_def)
    moreover have "holds zs l (take_record e r t1, d)"
      using assms(1) f t1 nonneg_finite_ok [of "realized_of r"]
      by (auto simp: holds_def take_record_fields memory_ok_def record_ok_def)
    moreover have "tk_day (take_record e r t1) = Some (today e t1)"
      using take_record_day [where zs = zs and t = t1 and e = e and r = r] f(4) day assms(1,2) t1
      by (auto simp: env_ok_def holds_def)
    moreover have "today e (take_record e r t1) = today e t1" by (simp add: today_def take_record_fields)
    ultimately show ?thesis using t1 by (simp add: take_record_fields)
  qed
qed

lemma sync_holds:
  assumes "holds zs l s" "env_ok zs e" "day_lasts zs e s"
  shows "\<exists>t'. syncLocked e s = (t', snd s) \<and> holds zs l (t', snd s) \<and> tk_loaded t'"
proof -
  obtain t d where s: "s = (t, d)" by force
  from load_holds [of zs l t d e] assms show ?thesis by (auto simp: s syncLocked_def)
qed

text \<open>Writing succeeds or is counted; what was written holds what memory holds.\<close>

lemma persist_failed: "dk_failed d \<Longrightarrow> dk_failed (snd (persist e (t, d)))"
  by (auto simp: persist_def persistErr_def Let_def)

lemma persist_holds:
  assumes "holds zs l (t, d)" "tk_loaded t" "f_lt (Fin 0) l"
  shows "holds zs l (persist e (t, d)) \<or> dk_failed (snd (persist e (t, d)))"
proof (cases "encodable t \<and> le_write e")
  case True
  have r: "f_le l (tk_realized t)" "f_finite (tk_realized t)" "total_ok (tk_realized t)"
    using assms True by (auto simp: holds_def memory_ok_def encodable_def)
  have "nonneg_finite (tk_realized t) = tk_realized t"
    using r(2,3) by (auto simp: f_finite_iff total_ok_def nonneg_finite_def is_nan_def is_inf_def)
  then have "f_le l (nonneg_finite (realized_of (record_of t))) \<and> record_ok (record_of t) \<and> lr_zone (record_of t) \<noteq> []"
    using assms(1) r by (simp add: realized_of_def record_of_def record_ok_def holds_def zone_named_def total_ok_def)
  then show ?thesis using assms True by (auto simp: persist_def persistErr_def holds_def memory_ok_def Let_def)
qed (use assms in \<open>auto simp: persist_def persistErr_def holds_def Let_def\<close>)

lemma holds_more:
  assumes "holds zs l (t, d)" "tk_loaded t" "total_ok (tk_realized t')" "f_le l (tk_realized t')" "equities_ok (tk_accounts t')"
    "tk_stored t' = tk_stored t" "location_of t' = location_of t"
  shows "holds zs l (t', d)"
  using assms by (auto simp: holds_def memory_ok_def)

lemma map_of_ok: "equities_ok as \<Longrightarrow> map_of as k = Some a \<Longrightarrow> f_le (Fin 0) (ae_carried a)"
  by (auto simp: equities_ok_def list_all_iff dest!: map_of_SomeD)

lemma update_ok: "equities_ok as \<Longrightarrow> f_le (Fin 0) (ae_carried a) \<Longrightarrow> equities_ok (AList.update k a as)"
  by (induction as) (auto simp: equities_ok_def)

lemma put_account_fields [simp]:
  "tk_realized (put_account k a t) = tk_realized t" "tk_stored (put_account k a t) = tk_stored t"
  "tk_loaded (put_account k a t) = tk_loaded t" "location_of (put_account k a t) = location_of t"
  "tk_accounts (put_account k a t) = AList.update k a (tk_accounts t)"
  by (simp_all add: put_account_def)

lemma put_account_holds:
  assumes "holds zs l (t, d)" "tk_loaded t" "f_lt (Fin 0) l" "f_le (Fin 0) (ae_carried a)"
  shows "holds zs l (persist e (put_account k a t, d)) \<or> dk_failed (snd (persist e (put_account k a t, d)))"
proof -
  have "holds zs l (put_account k a t, d)"
    by (rule holds_more [OF assms(1,2)]) (use assms in \<open>auto simp: holds_def memory_ok_def update_ok\<close>)
  then show ?thesis by (rule persist_holds) (use assms in simp_all)
qed

lemma sample_holds:
  assumes "holds zs l s" "env_ok zs e" "day_lasts zs e s" "f_lt (Fin 0) l"
  shows "holds zs l (SampleAccountWith e key usd at' sig s) \<or> dk_failed (snd (SampleAccountWith e key usd at' sig s))"
proof -
  obtain t where t: "syncLocked e s = (t, snd s)" "holds zs l (t, snd s)" "tk_loaded t" using sync_holds [OF assms(1-3)] by blast
  note put = put_account_holds [OF t(2,3) assms(4)]
  have c: "f_le (Fin 0) (ae_carried a)" if "map_of (tk_accounts t) k = Some a" for k a
    using t(2) that map_of_ok by (auto simp: holds_def memory_ok_def)
  show ?thesis
    using assms(1) t(2) put [where e = e and k = "normalizeKey key"] c loss_nonneg
    by (auto simp: SampleAccountWith_def t(1) first_sample_def Let_def split: option.split)
qed

lemma record_holds:
  assumes "holds zs l s" "env_ok zs e" "day_lasts zs e s" "f_lt (Fin 0) l"
  shows "holds zs l (RecordLoss e usd s) \<or> dk_failed (snd (RecordLoss e usd s))"
proof (cases "f_le usd (Fin 0) \<or> is_nan usd \<or> is_inf usd")
  case False
  obtain t where t: "syncLocked e s = (t, snd s)" "holds zs l (t, snd s)" "tk_loaded t" using sync_holds [OF assms(1-3)] by blast
  have "f_lt (Fin 0) usd" using False by (cases usd) (auto simp: is_nan_def is_inf_def)
  then have g: "f_le (tk_realized t) (f_add (tk_realized t) usd)" "total_ok (f_add (tk_realized t) usd)"
    using f_add_grows [of "tk_realized t" usd] False t(2) by (auto simp: holds_def memory_ok_def total_ok_def)
  let ?t = "t\<lparr>tk_realized := f_add (tk_realized t) usd\<rparr>"
  have "holds zs l (?t, snd s)"
    by (rule holds_more [OF t(2,3)]) (use t g f_le_trans in \<open>auto simp: holds_def memory_ok_def\<close>)
  then have "holds zs l (persist e (?t, snd s)) \<or> dk_failed (snd (persist e (?t, snd s)))"
    by (rule persist_holds) (use t assms in simp_all)
  then show ?thesis using False by (simp add: RecordLoss_def t(1))
qed (use assms in \<open>simp add: RecordLoss_def\<close>)

lemma check_state: "snd (CheckDailyLossFor e limit key s) = (if f_le limit (Fin 0) then s else syncLocked e s)"
  "snd (CheckDailyLoss e limit s) = (if f_le limit (Fin 0) then s else syncLocked e s)"
  "snd (TodayLossUSD e s) = syncLocked e s"
  by (simp_all add: CheckDailyLossFor_def CheckDailyLoss_def TodayLossUSD_def Let_def case_prod_beta)

lemma loss_step_holds:
  assumes "holds zs l s" "env_ok zs e" "day_lasts zs e s" "f_lt (Fin 0) l" "op_named zs op'"
  shows "holds zs l (loss_step (e, op') s) \<or> dk_failed (snd (loss_step (e, op') s))"
proof -
  obtain t d where s: "s = (t, d)" by force
  have sync: "holds zs l (syncLocked e s)" using sync_holds [OF assms(1-3)] by auto
  show ?thesis
  proof (cases op')
    case LSnapshot
    then show ?thesis using load_holds [of zs l t d e] assms by (auto simp: s Snapshot_def)
  next
    case (LZone loc)
    then show ?thesis using assms
      by (cases loc) (auto simp: s SetDayLocation_def holds_def Let_def memory_ok_def)
  next
    case (LRestart loc)
    then show ?thesis using assms
      by (cases loc) (auto simp: s SetStorePath_def SetDayLocation_def holds_def Let_def memory_ok_def new_tracker_def equities_ok_def location_of_def)
  qed (use assms sync sample_holds record_holds in \<open>auto simp: check_state EnableEquityGuard_def DisableEquityGuard_def s
        holds_def memory_ok_def location_of_def\<close>)
qed

lemma loss_step_failed: "dk_failed (snd s) \<Longrightarrow> dk_failed (snd (loss_step x s))"
proof -
  assume f: "dk_failed (snd s)"
  obtain t d where s: "s = (t, d)" by force
  have load: "snd (loadLocked e s) = d" for e
    by (auto simp: s loadLocked_def Let_def split: option.splits)
  have sync: "dk_failed (snd (syncLocked e s))" for e
    using f load [of e] by (auto simp: syncLocked_def s case_prod_beta persist_failed)
  obtain e op' where x: "x = (e, op')" by force
  show ?thesis
  proof (cases op')
    case (LSample key usd at' sig)
    then show ?thesis using f sync [of e]
      by (auto simp: x SampleAccountWith_def Let_def case_prod_beta persist_failed split: option.split)
  next
    case LSnapshot
    then show ?thesis using f load [of e] by (auto simp: x Snapshot_def Let_def case_prod_beta s)
  qed (use f sync [of e] in \<open>auto simp: x s check_state RecordLoss_def SetDayLocation_def EnableEquityGuard_def DisableEquityGuard_def
        SetStorePath_def Let_def case_prod_beta persist_failed\<close>)
qed

lemma run_failed: "dk_failed (snd s) \<Longrightarrow> dk_failed (snd (fold loss_step xs s))"
  by (induction xs arbitrary: s) (auto simp: loss_step_failed)

lemma run_holds:
  assumes "holds zs l s" "f_lt (Fin 0) l" "same_day zs xs s" "\<not> dk_failed (snd (fold loss_step xs s))"
  shows "holds zs l (fold loss_step xs s)"
  using assms
proof (induction xs arbitrary: s)
  case (Cons x xs)
  obtain e op' where x: "x = (e, op')" by force
  have "holds zs l (loss_step x s) \<or> dk_failed (snd (loss_step x s))"
    unfolding x by (rule loss_step_holds) (use Cons.prems x in auto)
  moreover have "\<not> dk_failed (snd (loss_step x s))" using Cons.prems(4) run_failed [of "loss_step x s" xs] by auto
  ultimately show ?case using Cons by auto
qed simp

text \<open>A loss that is recorded is in memory and on disk.\<close>

lemma roll_ok: "total_ok (tk_realized (rolloverLocked e t))" "equities_ok (tk_accounts (rolloverLocked e t))"
  "tk_stored (rolloverLocked e t) = tk_stored t" "tk_loaded (rolloverLocked e t) = tk_loaded t"
  "location_of (rolloverLocked e t) = location_of t"
  by (auto simp: rolloverLocked_def equities_ok_def list_all_iff rebase_def location_of_def)

lemma load_ok:
  assumes "loss_ok (t, d)" "tk_stored t" "loadLocked e (t, d) = (t', d')"
  shows "memory_ok t'" "tk_stored t'" "tk_loaded t'" "location_of t' = location_of t" "d' = d"
proof -
  have l: "location_of (t\<lparr>tk_loaded := True, tk_file := i\<rparr>) = location_of t" for i by (simp add: location_of_def)
  have "memory_ok t' \<and> tk_stored t' \<and> tk_loaded t' \<and> location_of t' = location_of t \<and> d' = d"
    using assms
    by (auto simp: loadLocked_def loss_ok_def memory_ok_def disk_ok_def record_ok_def Let_def take_record_fields nonneg_finite_ok l
        split: if_splits option.splits)
  then show "memory_ok t'" "tk_stored t'" "tk_loaded t'" "location_of t' = location_of t" "d' = d" by auto
qed

lemma sync_ok:
  assumes "loss_ok s" "tk_stored (fst s)" "syncLocked e s = (t', d')"
  shows "memory_ok t'" "tk_stored t'" "tk_loaded t'" "location_of t' = location_of (fst s)"
proof -
  obtain t d where s: "s = (t, d)" by force
  obtain t1 d1 where l: "loadLocked e (t, d) = (t1, d1)" by force
  have o: "memory_ok t1" "tk_stored t1" "tk_loaded t1" "location_of t1 = location_of t"
    using load_ok [OF _ _ l] assms by (auto simp: s)
  have p: "fst (persist e (x, d1)) = x \<or> (\<exists>i. fst (persist e (x, d1)) = x\<lparr>tk_file := i\<rparr>)" for x
    by (auto simp: persist_def persistErr_def Let_def)
  have "memory_ok t' \<and> tk_stored t' \<and> tk_loaded t' \<and> location_of t' = location_of t"
  proof (cases "tk_day t1 = Some (today e t1)")
    case True
    then show ?thesis using assms(3) o by (simp add: s syncLocked_def l)
  next
    case False
    then have "t' = fst (persist e (rolloverLocked e t1, d1))" using assms(3) by (simp add: s syncLocked_def l)
    then show ?thesis using p [of "rolloverLocked e t1"] o roll_ok [of e t1] by (auto simp: memory_ok_def)
  qed
  then show "memory_ok t'" "tk_stored t'" "tk_loaded t'" "location_of t' = location_of (fst s)" by (auto simp: s)
qed

lemma recorded_holds:
  assumes "loss_ok s0" "tk_stored (fst s0)" "zone_named zs (location_of (fst s0))" "f_lt (Fin 0) usd" "\<not> is_inf usd"
    "f_lt (Fin 0) l" "f_le l (tk_realized (fst (RecordLoss e usd s0)))" "\<not> dk_failed (snd (RecordLoss e usd s0))"
  shows "holds zs l (RecordLoss e usd s0)"
proof -
  obtain t d where t: "syncLocked e s0 = (t, d)" by force
  note o = sync_ok [OF assms(1,2) t]
  define t1 where "t1 = t\<lparr>tk_realized := f_add (tk_realized t) usd\<rparr>"
  have usd: "\<not> (f_le usd (Fin 0) \<or> is_nan usd \<or> is_inf usd)"
    using assms(4,5) by (cases usd) (auto simp: is_nan_def is_inf_def f_le_def)
  then have s1: "RecordLoss e usd s0 = persist e (t1, d)" by (simp add: RecordLoss_def t t1_def)
  have g: "total_ok (tk_realized t1)"
    using f_add_grows [of "tk_realized t" usd] assms(4,5) o(1) by (simp add: t1_def memory_ok_def total_ok_def)
  have enc: "encodable t1" "le_write e" using assms(8) o(2) by (auto simp: s1 persist_def persistErr_def t1_def Let_def split: if_splits)
  have r: "f_le l (tk_realized t1)"
    using assms(7) enc o(2) by (auto simp: s1 persist_def persistErr_def t1_def Let_def split: if_splits)
  have "nonneg_finite (tk_realized t1) = tk_realized t1"
    using g enc(1) by (auto simp: encodable_def f_finite_iff total_ok_def nonneg_finite_def is_nan_def is_inf_def)
  then have "f_le l (nonneg_finite (realized_of (record_of t1))) \<and> record_ok (record_of t1) \<and> lr_zone (record_of t1) \<noteq> []"
    using r g assms(3) o(4) by (simp add: realized_of_def record_of_def record_ok_def zone_named_def total_ok_def t1_def)
  moreover have "tk_stored t1" "tk_loaded t1" "location_of t1 = location_of (fst s0)" "memory_ok t1"
    using o g by (auto simp: t1_def memory_ok_def)
  ultimately show ?thesis using enc r assms(3) by (auto simp: s1 persist_def persistErr_def holds_def memory_ok_def Let_def)
qed

section \<open>The promises\<close>

text \<open>
  A daily loss limit that was reached stays reached for the day. Once a realised loss has brought the day's total to
  the limit and was written down, every risk-increasing check on every account is refused, whatever happens meanwhile:
  further losses, equity samples, other checks, a change of the day's time zone, arming or disarming the equity guard,
  restarts of the program; as long as that day lasts in the zones that label it, files are read, and no write has failed.
\<close>

lemma reached_limit_stays:
  assumes start: "loss_ok s0" "tk_stored (fst s0)" "zone_named zs (location_of (fst s0))" and loss: "f_lt (Fin 0) usd" "\<not> is_inf usd"
    and reached: "f_lt (Fin 0) limit" "f_le limit (tk_realized (fst (RecordLoss e0 usd s0)))"
    and day: "same_day zs xs (RecordLoss e0 usd s0)" and now: "env_ok zs e" "day_lasts zs e (fold loss_step xs (RecordLoss e0 usd s0))"
    and written: "\<not> dk_failed (snd (fold loss_step xs (RecordLoss e0 usd s0)))"
  shows "\<exists>total. fst (CheckDailyLossFor e limit key (fold loss_step xs (RecordLoss e0 usd s0))) = Some (LimitExceeded total limit)
    \<and> f_le limit total"
proof -
  let ?s = "fold loss_step xs (RecordLoss e0 usd s0)"
  have "\<not> dk_failed (snd (RecordLoss e0 usd s0))" using written run_failed by blast
  then have "holds zs limit (RecordLoss e0 usd s0)" by (intro recorded_holds start loss reached)
  then have "holds zs limit ?s" by (rule run_holds [OF _ reached(1) day written])
  from sync_holds [OF this now] obtain t where t: "syncLocked e ?s = (t, snd ?s)" "holds zs limit (t, snd ?s)" "tk_loaded t" by blast
  then have "f_le limit (totalLocked e t)"
    by (intro total_covers_realized) (use now(1) in \<open>auto simp: holds_def env_ok_def\<close>)
  moreover have "\<not> f_le limit (Fin 0)" using reached(1) by (cases limit) (auto simp: f_le_def)
  ultimately show ?thesis by (simp add: CheckDailyLossFor_def t(1) Let_def)
qed

text \<open>
  C39. The policy engine lets no risk-increasing trade act while the limit is reached. With the guard's check as its loss
  check, after a realised loss that reached the configured limit, no request to trade on a named provider that is neither
  reduce-only nor protective is allowed to act for the rest of that day, on whoever's turn and under whatever dial.
\<close>

theorem reached_limit_stops_trades:
  assumes start: "loss_ok s0" "tk_stored (fst s0)" "zone_named zs (location_of (fst s0))" and loss: "f_lt (Fin 0) usd" "\<not> is_inf usd"
    and cfg: "d_cfg d = Some cfg" and limit: "tr_daily_loss_limit_usd (cfg_risk cfg) = limit"
    and reached: "f_lt (Fin 0) limit" "f_le limit (tk_realized (fst (RecordLoss e0 usd s0)))"
    and day: "same_day zs xs (RecordLoss e0 usd s0)" and now: "env_ok zs e" "day_lasts zs e (fold loss_step xs (RecordLoss e0 usd s0))"
    and written: "\<not> dk_failed (snd (fold loss_step xs (RecordLoss e0 usd s0)))"
    and wired: "d_loss_check d = (\<lambda>l key. fst (CheckDailyLossFor e l key (fold loss_step xs (RecordLoss e0 usd s0))) \<noteq> None)"
    and trade: "r_class r = ClassTrade" "r_provider r \<noteq> []" "\<not> r_reduce_only r" "\<not> r_protective r"
  shows "v_mode (fst (evaluate d r live recent)) \<noteq> ModeAct"
proof -
  have "d_loss_check d limit key" for key
    using reached_limit_stays [OF start loss reached day now written, of key] by (auto simp: wired)
  then have "FLoss \<in> set (brakes_account d cfg r)" using trade limit reached(1) by (simp add: brakes_account_def Let_def)
  then have "fst (brakes d cfg r live recent) \<noteq> []"
    by (auto simp: brakes_def Let_def split: option.split prod.split)
  then have "fst (fst (limits d r live recent)) = ModeDeny"
    using trade by (auto simp: limits_def cfg movesMoney_def Let_def split: prod.splits)
  then show ?thesis by (auto simp: evaluate_def Let_def split: prod.splits)
qed

text \<open>
  Measuring an account differently does not write its loss off. When a sample taken in another way arrives after the
  old figure has gone stale, the account starts a new segment at the new value, and its loss of the day is, to the last
  bit, what it was before.
\<close>

theorem rebaselining_keeps_the_loss:
  assumes "syncLocked e s = (t, d)" "map_of (tk_accounts t) (normalizeKey key) = Some a" "f_le (Fin 0) (ae_carried a)"
    "f_finite usd" "f_le (Fin 0) usd" "ae_signature a \<noteq> sig" "older_sample (le_now e) (staleBoundLocked t) (ae_last_at a)"
    "\<not> (\<exists>l. ae_last_at a = Some l \<and> at' < l)"
  shows "\<exists>b. map_of (tk_accounts (fst (SampleAccountWith e key usd at' sig s))) (normalizeKey key) = Some b \<and>
    LossUSD b = LossUSD a \<and> ae_baseline b = usd \<and> ae_signature b = sig"
proof -
  let ?b = "first_sample usd at' sig (LossUSD a)"
  have "\<not> (is_nan usd \<or> is_inf usd \<or> f_lt usd (Fin 0))"
    using assms(4,5) by (auto simp: f_finite_iff is_nan_def is_inf_def)
  moreover have "\<not> (case ae_last_at a of Some l \<Rightarrow> at' < l | None \<Rightarrow> False)" using assms(8) by (auto split: option.split)
  ultimately have "SampleAccountWith e key usd at' sig s = persist e (put_account (normalizeKey key) ?b t, d)"
    using assms(1,2,6,7) by (simp add: SampleAccountWith_def Let_def)
  moreover have "tk_accounts (fst (persist e (x, d))) = tk_accounts x" for x
    by (auto simp: persist_def persistErr_def Let_def)
  moreover have "Drawdown ?b = Fin 0" using assms(4) by (simp add: Drawdown_def first_sample_def f_sub_self)
  then have "LossUSD ?b = LossUSD a"
    using f_add_0 loss_nonneg [OF assms(3)] by (simp add: LossUSD_def [of ?b]) (simp add: first_sample_def)
  ultimately show ?thesis by (simp add: update_conv first_sample_def)
qed

section \<open>Orders in a minute\<close>

fun allowed_calls :: "int \<Rightarrow> duration \<Rightarrow> string \<Rightarrow> go_time list \<Rightarrow> (string \<rightharpoonup> bucket) \<Rightarrow> nat" where
  "allowed_calls n interval p [] bs = 0"
| "allowed_calls n interval p (t # ts) bs =
     (let (ok, bs) = Allow n interval t p bs in (if ok then 1 else 0) + allowed_calls n interval p ts bs)"

lemma window_without_refill:
  assumes "bs p = Some b" "list_all (\<lambda>t. t \<le> bk_reset b) ts"
  shows "int (allowed_calls n interval p ts bs) \<le> max (bk_tokens b) 0"
  using assms
proof (induction ts arbitrary: bs b)
  case (Cons t ts)
  have b: "refilled n interval t (bs p) = b" "refilled n interval t (Some b) = b" using Cons.prems by (simp_all add: refilled_def)
  show ?case
  proof (cases "bk_tokens b \<le> 0")
    case True
    have "bs(p \<mapsto> b) = bs" using Cons.prems(1) by auto
    with True show ?thesis using Cons.IH [of bs b] Cons.prems by (simp add: Allow_def b Let_def)
  next
    case False
    define bs2 where "bs2 = bs(p \<mapsto> b\<lparr>bk_tokens := bk_tokens b - 1\<rparr>)"
    have "int (allowed_calls n interval p ts bs2) \<le> max (bk_tokens (b\<lparr>bk_tokens := bk_tokens b - 1\<rparr>)) 0"
      by (rule Cons.IH) (use Cons.prems in \<open>simp_all add: bs2_def\<close>)
    with False show ?thesis by (simp add: Allow_def b Let_def flip: bs2_def)
  qed
qed simp

lemma window_one_refill:
  assumes "0 \<le> n" "case bs p of None \<Rightarrow> True | Some b \<Rightarrow> bk_tokens b \<le> n" "list_all (\<lambda>t. start \<le> t \<and> t \<le> start + interval) ts"
  shows "int (allowed_calls n interval p ts bs) \<le> (case bs p of None \<Rightarrow> 0 | Some b \<Rightarrow> max (bk_tokens b) 0) + n"
  using assms(2,3)
proof (induction ts arbitrary: bs)
  case Nil
  then show ?case using assms(1) by (auto split: option.split)
next
  case (Cons t ts)
  define b where "b = refilled n interval t (bs p)"
  define bs' where "bs' = (if bk_tokens b \<le> 0 then bs(p \<mapsto> b) else bs(p \<mapsto> b\<lparr>bk_tokens := bk_tokens b - 1\<rparr>))"
  have step: "int (allowed_calls n interval p (t # ts) bs) = (if bk_tokens b \<le> 0 then 0 else 1) + int (allowed_calls n interval p ts bs')"
    by (simp add: Allow_def b_def bs'_def Let_def)
  have bs': "bs' p = Some (if bk_tokens b \<le> 0 then b else b\<lparr>bk_tokens := bk_tokens b - 1\<rparr>)" by (simp add: bs'_def)
  show ?case
  proof (cases "bs p = Some b")
    case True
    then have "bk_tokens b \<le> n" using Cons.prems by simp
    then show ?thesis using Cons.IH [of bs'] Cons.prems True unfolding step by (auto simp: bs' split: if_splits)
  next
    case False
    then have b: "b = \<lparr>bk_tokens = n, bk_reset = t + interval\<rparr>" by (auto simp: b_def refilled_def split: option.splits if_splits)
    have "list_all (\<lambda>x. x \<le> bk_reset (the (bs' p))) ts" using Cons.prems by (auto simp: bs' b list_all_iff)
    then have "int (allowed_calls n interval p ts bs') \<le> max (bk_tokens (the (bs' p))) 0" by (intro window_without_refill) (simp add: bs')
    then show ?thesis unfolding step using assms(1) by (auto simp: bs' b split: option.split if_splits)
  qed
qed

definition after_calls :: "int \<Rightarrow> duration \<Rightarrow> string \<Rightarrow> go_time list \<Rightarrow> (string \<rightharpoonup> bucket)" where
  "after_calls n interval p ts = fold (\<lambda>t bs. snd (Allow n interval t p bs)) ts Map.empty"

lemma used_bucket:
  assumes "0 < n"
  shows "case after_calls n interval p ts p of None \<Rightarrow> True | Some b \<Rightarrow> bk_tokens b \<le> n - 1"
proof -
  have "(case bs p of None \<Rightarrow> True | Some b \<Rightarrow> bk_tokens b \<le> n - 1) \<Longrightarrow>
    (case fold (\<lambda>t bs. snd (Allow n interval t p bs)) ts bs p of None \<Rightarrow> True | Some b \<Rightarrow> bk_tokens b \<le> n - 1)" for bs
  proof (induction ts arbitrary: bs)
    case (Cons t ts)
    have "case snd (Allow n interval t p bs) p of None \<Rightarrow> True | Some b \<Rightarrow> bk_tokens b \<le> n - 1"
      using Cons.prems assms by (auto simp: Allow_def refilled_def Let_def split: option.splits)
    then show ?case using Cons.IH by simp
  qed simp
  from this [of Map.empty] show ?thesis by (simp add: after_calls_def)
qed

text \<open>
  C40. What the token bucket of a provider bounds: over any stretch of time no longer than the interval, after whatever calls
  came before, fewer than twice the configured number of orders are let through. It is not the number itself: the bucket
  is filled at once when its interval is over, so a burst before that and a burst after it are both served.
\<close>

theorem less_than_twice_the_rate:
  assumes "0 < n" "list_all (\<lambda>t. start \<le> t \<and> t \<le> start + interval) ts"
  shows "int (allowed_calls n interval p ts (after_calls n interval p before)) \<le> 2 * n - 1"
proof -
  have u: "case after_calls n interval p before p of None \<Rightarrow> True | Some b \<Rightarrow> bk_tokens b \<le> n - 1" by (rule used_bucket [OF assms(1)])
  then have "case after_calls n interval p before p of None \<Rightarrow> True | Some b \<Rightarrow> bk_tokens b \<le> n" by (auto split: option.splits)
  then have "int (allowed_calls n interval p ts (after_calls n interval p before))
      \<le> (case after_calls n interval p before p of None \<Rightarrow> 0 | Some b \<Rightarrow> max (bk_tokens b) 0) + n"
    by (intro window_one_refill [where start = start]) (use assms in simp_all)
  then show ?thesis using u assms(1) by (auto split: option.splits)
qed

text \<open>
  The bound is reached, in a nanosecond: after a first order, four at the end of its minute and five right after it all
  pass, nine where the limiter is described as five a minute.
\<close>

theorem nine_orders_at_once:
  "allowed_calls 5 minute ''okx'' (replicate 4 minute @ replicate 5 (minute + 1)) (after_calls 5 minute ''okx'' [0]) = 9"
  by (simp add: after_calls_def Allow_def refilled_def eval_nat_numeral)

section \<open>Witnesses\<close>

text \<open>
  A loss of 60 dollars under a limit of 50; then a sample, the owner moves to Tokyo time, another loss, a restart, a sample
  of a second account. The day of the epoch has not ended anywhere.
\<close>

definition loss_zones :: "string \<Rightarrow> zone" where
  "loss_zones n = (if n = ''UTC'' then utc else (\<lambda>_. 32400))"

definition loss_clock :: "go_time \<Rightarrow> loss_env" where
  "loss_clock t = \<lparr>le_now = t, le_order = (\<lambda>as. as), le_stat = True, le_read = True, le_write = True, le_zones = (\<lambda>n. Some (loss_zones n))\<rparr>"

definition tokyo :: location where
  "tokyo = \<lparr>lo_name = ''Asia/Tokyo'', lo_zone = (\<lambda>_. 32400)\<rparr>"

definition loss_start :: loss_state where
  "loss_start = SetStorePath True (SetDayLocation (loss_clock 0) None (new_tracker, \<lparr>dk_file = None, dk_next = 0, dk_failed = False\<rparr>))"

definition loss_events :: "(loss_env \<times> loss_op) list" where
  "loss_events = [(loss_clock (2 * hour), LSample ''okx/main'' (Fin 900) (2 * hour) ''spot''), (loss_clock (3 * hour), LZone (Some tokyo)),
     (loss_clock (3 * hour), LRecord (Fin 1)), (loss_clock (4 * hour), LRestart (Some tokyo)),
     (loss_clock (5 * hour), LSample ''binance/main'' (Fin 100) (5 * hour) ''spot'')]"

definition loss_after :: loss_state where
  "loss_after = RecordLoss (loss_clock hour) (Fin 60) loss_start"

lemma loss_clock_ok: "env_ok loss_zones (loss_clock t)"
  by (simp add: env_ok_def loss_clock_def)

lemma loss_named: "zone_named loss_zones tokyo" "zone_named loss_zones (location_of (fst loss_start))"
  by (simp_all add: zone_named_def tokyo_def loss_zones_def loss_start_def SetStorePath_def SetDayLocation_def location_of_def UTC_def
      new_tracker_def)

lemma loss_start_ok: "loss_ok loss_start" "tk_stored (fst loss_start)"
  by (simp_all add: loss_ok_def loss_start_def SetStorePath_def SetDayLocation_def memory_ok_def equities_ok_def disk_ok_def
      new_tracker_def location_of_def)

lemma loss_days:
  "day_lasts loss_zones (loss_clock (2 * hour)) loss_after"
  "day_lasts loss_zones (loss_clock (3 * hour)) (fold loss_step (take 1 loss_events) loss_after)"
  "day_lasts loss_zones (loss_clock (3 * hour)) (fold loss_step (take 2 loss_events) loss_after)"
  "day_lasts loss_zones (loss_clock (4 * hour)) (fold loss_step (take 3 loss_events) loss_after)"
  "day_lasts loss_zones (loss_clock (5 * hour)) (fold loss_step (take 4 loss_events) loss_after)"
  "day_lasts loss_zones (loss_clock (6 * hour)) (fold loss_step loss_events loss_after)"
  by code_simp+

lemma loss_day_run: "same_day loss_zones loss_events loss_after"
  using loss_days loss_named by (simp add: loss_events_def loss_clock_ok)

lemma loss_written: "\<not> dk_failed (snd (fold loss_step loss_events loss_after))" "f_le (Fin 50) (tk_realized (fst loss_after))"
  by code_simp+

theorem reached_limit_stays_witness:
  "\<exists>total. fst (CheckDailyLossFor (loss_clock (6 * hour)) (Fin 50) ''okx/main'' (fold loss_step loss_events loss_after)) =
     Some (LimitExceeded total (Fin 50)) \<and> f_le (Fin 50) total"
  using reached_limit_stays [OF loss_start_ok loss_named(2), of "Fin 60" "Fin 50" "loss_clock hour" loss_events "loss_clock (6 * hour)" "''okx/main''"]
    loss_days(6) loss_day_run loss_written loss_clock_ok
  by (simp add: loss_after_def is_inf_def)

theorem reached_limit_stops_trades_witness:
  "let cfg = example_config\<lparr>cfg_risk := cfg_risk example_config\<lparr>tr_daily_loss_limit_usd := Fin 50\<rparr>\<rparr>;
     d = (example_deps 0)\<lparr>d_cfg := Some cfg,
       d_loss_check := \<lambda>l key. fst (CheckDailyLossFor (loss_clock (6 * hour)) l key (fold loss_step loss_events loss_after)) \<noteq> None\<rparr>
   in v_mode (fst (evaluate d ((example_request ClassTrade ActorOwner TrustUserAuthored ''BTC/USDT'')\<lparr>r_provider := ''binance''\<rparr>) True []))
     \<noteq> ModeAct"
proof -
  let ?cfg = "example_config\<lparr>cfg_risk := cfg_risk example_config\<lparr>tr_daily_loss_limit_usd := Fin 50\<rparr>\<rparr>"
  show ?thesis unfolding Let_def
    by (rule reached_limit_stops_trades [OF loss_start_ok loss_named(2), where usd = "Fin 60" and limit = "Fin 50" and
          ?e0.0 = "loss_clock hour" and xs = loss_events and e = "loss_clock (6 * hour)" and cfg = ?cfg])
      (use loss_days(6) loss_day_run loss_written loss_clock_ok in
        \<open>simp_all add: loss_after_def is_inf_def example_request_def\<close>)
qed

definition stale_account :: account_equity where
  "stale_account = \<lparr>ae_baseline = Fin 900, ae_baseline_at = 0, ae_last = Fin 880, ae_last_at = Some 0, ae_signature = ''spot'', ae_carried = Fin 5\<rparr>"

definition stale_state :: loss_state where
  "stale_state = (new_tracker\<lparr>tk_day := Some 0, tk_accounts := [(''okx/main'', stale_account)]\<rparr>, \<lparr>dk_file = None, dk_next = 0, dk_failed = False\<rparr>)"

theorem rebaselining_keeps_the_loss_witness:
  "\<exists>b. map_of (tk_accounts (fst (SampleAccountWith (loss_clock hour) ''OKX/main'' (Fin 2000) hour ''spot+futures'' stale_state))) ''okx/main'' = Some b \<and>
    LossUSD b = Fin 25 \<and> ae_baseline b = Fin 2000 \<and> ae_signature b = ''spot+futures''"
proof -
  have sync: "syncLocked (loss_clock hour) stale_state = (fst stale_state, snd stale_state)"
    by (simp add: syncLocked_def stale_state_def loadLocked_def new_tracker_def today_def location_of_def UTC_def loss_day_def
        local_seconds_def utc_def loss_clock_def)
  have key: "normalizeKey ''OKX/main'' = ''okx/main''" by code_simp
  have old: "older_sample (le_now (loss_clock hour)) (staleBoundLocked (fst stale_state)) (ae_last_at stale_account)" by code_simp
  have loss: "LossUSD stale_account = Fin 25" by code_simp
  have acc: "map_of (tk_accounts (fst stale_state)) ''okx/main'' = Some stale_account" by (simp add: stale_state_def)
  have vals: "f_le (Fin 0) (ae_carried stale_account)" "ae_signature stale_account \<noteq> ''spot+futures''"
    "\<not> (\<exists>l. ae_last_at stale_account = Some l \<and> hour < l)"
    by (simp_all add: stale_account_def)
  have usd: "f_finite (Fin 2000)" "f_le (Fin 0) (Fin 2000)" by (simp_all add: f_finite_iff)
  show ?thesis
    using rebaselining_keeps_the_loss [OF sync acc [folded key] vals(1) usd vals(2) old vals(3)]
    unfolding key loss .
qed

theorem less_than_twice_the_rate_witness:
  "int (allowed_calls 5 minute ''okx'' (replicate 4 minute @ replicate 5 (minute + 1)) (after_calls 5 minute ''okx'' [0])) \<le> 9"
  using less_than_twice_the_rate [of 5 minute minute "replicate 4 minute @ replicate 5 (minute + 1)" "''okx''" "[0]"]
  by (simp add: list_all_iff)

section \<open>A limit that a second restart clears\<close>

text \<open>
  The day that a change of zone carries over is not written back. A loss at 20:00 UTC reaches the limit; the program is
  restarted with Tokyo as its zone, where the loss day becomes the one that lasts until 15:00 UTC, and the check refuses.
  At 01:00 UTC the check still refuses; but when the program is restarted once more just before, it reads the day of UTC,
  which has ended, from the file, starts a new day and lets the order through, in the middle of the same Tokyo day.
\<close>

theorem second_restart_clears_the_limit:
  "let s0 = RecordLoss (loss_clock (20 * hour)) (Fin 60) loss_start;
       s1 = fold loss_step [(loss_clock (21 * hour), LRestart (Some tokyo)), (loss_clock (21 * hour), LCheck (Fin 50) ''okx/main'')] s0;
       s2 = loss_step (loss_clock (25 * hour), LRestart (Some tokyo)) s1
   in fst (CheckDailyLossFor (loss_clock (25 * hour)) (Fin 50) ''okx/main'' s1) = Some (LimitExceeded (Fin 60) (Fin 50)) \<and>
      tk_day (fst s1) = Some (loss_day (lo_zone tokyo) (25 * hour)) \<and>
      fst (CheckDailyLossFor (loss_clock (25 * hour)) (Fin 50) ''okx/main'' s2) = None"
  by code_simp

end
