(* ===== verification/Spec2Isabelle.thy ===== *)
theory Spec2Isabelle
  imports GoBase Windows Float64 FloatRounding Calendar Machine Workflow Proactive BrokerConfig Policy Journal JournalCtx Utf8 Intent IntentLedger
    CognitionBudget Cognition Identity Approval ApprovalStore PlaceOrder ApprovalService ApprovalExecute ApprovalSafety
    OrderBackend Dca DcaRun DcaLedger DcaSafety
    KillFlag SenderLimit ControlInput Control ControlSafety KillSwitch KillSafety StopSafety
    AttentionRules Attention AttentionSafety AttentionPromises AttentionBudget Outbox OutboxSafety LossTracker LossSafety
begin

text \<open>
  \<^bold>\<open>A verification development of khunquant\<close>, a gateway in Go that lets a language model work for the owner of
  trading accounts. What must not go wrong is not the model's prose but what the program does with it: whether
  an order leaves, who allowed it, how often, and what is known of it after a crash. This development models the
  packages that decide that.

  \<^bold>\<open>The program.\<close> A turn (of the owner, of a schedule, of a watcher) calls tools. A tool that moves money asks the
  policy engine (\<open>pkg/policy\<close>), which looks at the account's permissions and risk limits
  (\<open>pkg/config\<close>, \<open>pkg/providers/broker\<close>), the owner's dial, mandates, the kill switch and its own memory of recent
  orders. Where the answer is to ask, the order becomes a proposal (\<open>pkg/approval\<close>): the owner decides, and an
  approved order is executed as a workflow of the journal (\<open>pkg/journal\<close>), whose place step sends it through
  \<open>pkg/providers/broker/idempotent.go\<close> so that a retry does not place it twice. What the owner wants in the long run
  is kept as intents (\<open>pkg/intent\<close>); background turns wait in the queues of \<open>pkg/cognition\<close> under a budget. A plan that
  buys at regular times (\<open>pkg/dca\<close>) runs under a mandate the owner granted. The owner's own words, \<open>/approve\<close>, \<open>/stop\<close>,
  \<open>/mute\<close> and the buttons, take a path that no model sees (\<open>pkg/control\<close>). What the program wants to tell the owner is a
  candidate: the governor decides whether it is sent, kept for the digest or dropped, and the outbox turns decisions into
  messages (\<open>pkg/attention\<close>).

  \<^bold>\<open>Theories and sources.\<close>

  \<^item> \<open>GoBase\<close>: what is used of the standard library: strings, times and durations in nanoseconds, table statements
    (\<open>sql_update\<close>, \<open>sql_count\<close>, \<open>sql_first\<close>), results as sums, \<open>named_theorems\<close>. \<open>Utf8\<close>: decoding and encoding of
    runes. \<open>Float64\<close>: doubles with rounding, infinities and NaN. \<open>Calendar\<close>: civil dates in a time zone.
  \<^item> The interfaces, as locales: \<open>Windows\<close> (a sliding window: policy, wakes, senders), \<open>Machine\<close> (state machines:
    \<open>machine\<close>, \<open>stepwise\<close>, \<open>lasting\<close>), \<open>Workflow\<close> (\<open>journaled\<close>: a workflow function that is executed again from its
    journal after a crash), \<open>Effects\<close> (what every call of a program keeps, for programs with other callers in between).
  \<^item> \<open>Proactive\<close>: severities, trust, taint, candidates (\<open>pkg/proactive/types.go\<close>, \<open>taint.go\<close>, \<open>text.go\<close>).
  \<^item> \<open>BrokerConfig\<close>: accounts, permissions, risk limits (\<open>permissions.go\<close>, \<open>catalog.go\<close>, \<open>lossaccount.go\<close>).
  \<^item> \<open>Policy\<close>: the gates, the dial and the brakes (\<open>pkg/policy/types.go\<close>, \<open>dial.go\<close>, \<open>engine.go\<close>). The engine's
    memory is the list of its recent orders; a run is a list of requests with their clocks.
  \<^item> \<open>Journal\<close>, \<open>JournalCtx\<close>: the two tables and every statement of \<open>store.go\<close>; the step functions of \<open>ctx.go\<close>,
    resuming, finishing and starting (\<open>run.go\<close>, \<open>engine.go\<close>).
  \<^item> \<open>Intent\<close>, \<open>IntentLedger\<close>: validation of intents, the ledger's tables and operations, the autonomy tiers.
  \<^item> \<open>CognitionBudget\<close>, \<open>Cognition\<close>: the token and wake budget, the scheduler as an interleaving of its locked sections.
  \<^item> \<open>Identity\<close>: canonical sender ids, the owner route, the web route (\<open>pkg/identity\<close>, \<open>pkg/config/proactive.go\<close>,
    \<open>web_owner.go\<close>).
  \<^item> \<open>Approval\<close>: the six kinds of proposals, validation, hash proof, codes (\<open>types.go\<close>, \<open>canon.go\<close>, \<open>mandate.go\<close>,
    \<open>memory.go\<close>, \<open>reflection.go\<close>). \<open>ApprovalStore\<close>: the table (\<open>store.go\<close>). \<open>ApprovalService\<close>: proposing, deciding and
    starting (\<open>service.go\<close>). \<open>ApprovalExecute\<close>: the steps, healing, sweeping, the kill switch (\<open>execute.go\<close>,
    \<open>stop.go\<close>, \<open>list.go\<close>). \<open>ApprovalSafety\<close>: what holds of all interleavings of these.
  \<^item> \<open>PlaceOrder\<close>: \<open>idempotent.go\<close>, \<open>orderfail.go\<close>, \<open>clientorder.go\<close>, \<open>agentorder.go\<close>. \<open>OrderBackend\<close>: the backend that
    joins it to the approvals (\<open>pkg/tools/order_backend.go\<close>).
  \<^item> \<open>Dca\<close>: plans, executions, mandates, slots and proposals of the recurring buys (\<open>pkg/dca/store.go\<close>, \<open>mandate.go\<close>,
    \<open>types.go\<close>). \<open>DcaRun\<close>: the workflow \<open>runExecute\<close> of \<open>workflow.go\<close>, step by step. \<open>DcaLedger\<close>: what the tables promise
    of all runs. \<open>DcaSafety\<close>: what holds of a run while others act, and after crashes.
  \<^item> \<open>KillFlag\<close>: the row of the kill switch and its cached reading (\<open>pkg/control/state.go\<close>). \<open>SenderLimit\<close>: actions of a
    sender in a window (\<open>limiter.go\<close>). \<open>ControlInput\<close>: what is a command and who sent it (\<open>parse.go\<close>, \<open>dispatcher.go\<close>).
    \<open>Control\<close>: the whole dispatch and the commands (\<open>dispatcher.go\<close>, \<open>approve.go\<close>, \<open>stop.go\<close>, \<open>mute.go\<close>, \<open>feedback.go\<close>,
    \<open>web_decision.go\<close>). \<open>ControlSafety\<close>: who can do what through it.
  \<^item> \<open>KillSwitch\<close>: the steps of \<open>/stop\<close> over the journal, the approvals, the policy and the exchanges (\<open>kill.go\<close>,
    \<open>summary.go\<close>). \<open>KillSafety\<close>, \<open>StopSafety\<close>: their order, what they spare and what they do not pass over.
  \<^item> \<open>AttentionRules\<close>: the rule table, the facts of learning, the owner's active hours (\<open>rules.go\<close>, \<open>learning.go\<close>,
    \<open>pkg/intent/profile.go\<close>). \<open>Attention\<close>: the five tables and every operation on them (\<open>governor.go\<close>, \<open>store.go\<close>,
    \<open>digest.go\<close>, \<open>mutes_list.go\<close>, \<open>owner_commands.go\<close>). \<open>AttentionSafety\<close>, \<open>AttentionPromises\<close>, \<open>AttentionBudget\<close>: its
    promises of all runs and of a day.
  \<^item> \<open>Outbox\<close>: buffer, lanes, backlog and retries (\<open>outbox.go\<close>, \<open>handoff.go\<close>, \<open>retry.go\<close>) as an interleaving of the
    sections under its mutex with the works in hand. \<open>OutboxSafety\<close>: conservation of decisions, the lease, the digest.
  \<^item> \<open>LossTracker\<close>: the daily loss guard with its file, and the token bucket of a provider (\<open>losstracker.go\<close>,
    \<open>ratelimit.go\<close> of \<open>pkg/providers/broker\<close>). \<open>FloatRounding\<close>: rounding to doubles is monotone. \<open>LossSafety\<close>: a reached
    limit stays reached and stops trades; what the bucket bounds.

  \<^bold>\<open>How state and effects are modelled.\<close> A SQLite table is the list of its rows in insertion order and a statement is
  one atomic function of it; an operation that makes several statements is a monadic program (\<open>State_Monad\<close>) in
  which other callers may act between any two of them (\<open>v_gap\<close> of the service environment, which must only take
  steps of the same machine). A goroutine's locked sections are the steps of an interleaving. Clocks, random codes,
  ends of contexts, answers of exchanges and disk reads are arguments; hypotheses about them are named in the
  theorems. Errors are values of a sum. Times are integers of nanoseconds, stored as milliseconds like the code does.
  Records are threaded explicitly; nothing depends on aliasing.

  \<^bold>\<open>What the lemmas show.\<close> Per component: an invariant of its tables kept by every statement, the behaviour of each
  operation, and the promise that other components rest on. The safety theorems are about all runs: rates and
  duplicates of orders (\<open>Policy\<close>), fencing and replay (\<open>Journal\<close>, \<open>JournalCtx\<close>), ownership, caps and history of
  intents (\<open>IntentLedger\<close>), exclusion and exactly-once answers of jobs (\<open>Cognition\<close>), bounds of proposals
  (\<open>ApprovalStore\<close>), the owner's approval behind each placed order (\<open>ApprovalSafety\<close>), at most one order per key
  (\<open>PlaceOrder\<close>) and the meaning of the tag that says an order was not placed (\<open>OrderBackend\<close>). A mandated buy is
  covered by a mandate the owner granted, within its amounts and slots, whatever crashes (\<open>DcaSafety\<close>). Through the
  control path only the owner acts, every decision on a proposal came through it, and an engaged kill flag stays engaged
  until the owner clears it (\<open>ControlSafety\<close>, \<open>KillFlag\<close>); \<open>/stop\<close> goes through all its steps whatever fails and spares
  what protects a position (\<open>StopSafety\<close>). A protective alert gets through, silence has a recorded reason, the budget
  bounds a day (\<open>AttentionPromises\<close>, \<open>AttentionBudget\<close>), and a decision handed to the outbox is never lost nor sent twice
  (\<open>OutboxSafety\<close>). A loss that reached the day's limit stops risk-increasing trades in the policy engine for the rest of
  the day, across restarts (\<open>LossSafety\<close>). Theorems about unwanted behaviour (a proved run in which something goes wrong) stand beside the
  promise they limit.

  \<^bold>\<open>Bounds and fuel.\<close> The retry loop of a journaled step runs on \<open>MaxStepAttempts\<close> rounds of fuel, which
  \<open>step_returns\<close> proves to be enough. The attempts at a random code are the code's own twelve retries, the prune
  batches its ten, the verify polls its option. \<open>/stop\<close> waits for workflows to settle in rounds of \<open>pollEvery\<close>;
  \<open>settle_fuel\<close> has more rounds than the wait has intervals, and \<open>settle_ends\<close> proves that the loop ends by its deadline
  before the fuel does. All other recursions are over lists.

  \<^bold>\<open>Not modelled, and why.\<close> The channels, the model providers and the agent loop (network and prose, the decisions
  are taken below them); the exchange adapters (their calls are the argument \<open>venue\<close>); the web launcher and the
  TUI; the JSON codecs, SHA-256, base32 and the time zone database (library code, arguments where they matter);
  disk faults of SQLite and the goroutine plumbing of workers, renewals and event buses (the interleaving is
  modelled, not its scheduling); credentials, log lines and the wording of cards and messages. Of the recurring buys the
  indicators and triggers; of the outbox the wake-up channels, the observer and the counters. The delta-neutral
  strategies, the perception and memory of the conversation and the simulation laboratory are developments of their own.
\<close>

end
